(* ===== verification/Prelude.thy ===== *)
theory Prelude
  imports Complex_Main
begin

text \<open>
  Shared vocabulary of the development: the result type of code that may raise, its sequencing
  operator, the fold of a fallible step over a list of inputs, logs that forget their oldest
  entries, the interface every stateful component satisfies (\<open>fallible_machine\<close>), and the interface of
  the walks that stamp what they log (\<open>stamped_walk\<close>).
\<close>

section \<open>Results: a value, or the exception that was raised\<close>

named_theorems res_simps "unfolding of the result monad in goals and assumptions"

definition rbind :: "'e + 'a \<Rightarrow> ('a \<Rightarrow> 'e + 'b) \<Rightarrow> 'e + 'b" where
  "rbind r f = (case r of Inl e \<Rightarrow> Inl e | Inr x \<Rightarrow> f x)"

definition rmap :: "('a \<Rightarrow> 'b) \<Rightarrow> 'e + 'a \<Rightarrow> 'e + 'b" where
  "rmap f r = rbind r (\<lambda>x. Inr (f x))"

definition check :: "bool \<Rightarrow> 'e \<Rightarrow> 'e + unit" where
  "check ok e = (if ok then Inr () else Inl e)"

lemma rbind_simps [simp]:
  "rbind (Inl e) f = Inl e"
  "rbind (Inr x) f = f x"
  by (simp_all add: rbind_def)

lemma rmap_simps [simp]:
  "rmap f (Inl e) = Inl e"
  "rmap f (Inr x) = Inr (f x)"
  by (simp_all add: rmap_def)

lemma rbind_Inr_iff [res_simps]: "rbind r f = Inr y \<longleftrightarrow> (\<exists>x. r = Inr x \<and> f x = Inr y)"
  by (cases r) simp_all

lemma rbind_Inl_iff [res_simps]:
  "rbind r f = Inl e \<longleftrightarrow> r = Inl e \<or> (\<exists>x. r = Inr x \<and> f x = Inl e)"
  by (cases r) simp_all

lemma rmap_Inr_iff [res_simps]: "rmap f r = Inr y \<longleftrightarrow> (\<exists>x. r = Inr x \<and> f x = y)"
  by (cases r) simp_all

lemma check_Inr_iff [res_simps]: "check ok e = Inr u \<longleftrightarrow> ok"
  by (simp add: check_def)

lemma check_Inl_iff [res_simps]: "check ok e = Inl e' \<longleftrightarrow> \<not> ok \<and> e' = e"
  by (auto simp: check_def)

lemma check_True [simp]: "check True e = Inr ()"
  by (simp add: check_def)

lemma check_False [simp]: "check False e = Inl e"
  by (simp add: check_def)

lemma rbind_Inr_right [simp]: "rbind r Inr = r"
  by (cases r) simp_all

lemma rbind_assoc: "rbind (rbind r f) g = rbind r (\<lambda>x. rbind (f x) g)"
  by (cases r) simp_all

text \<open>A computation that returns, with a result that satisfies a predicate.\<close>

definition got :: "'e + 'a \<Rightarrow> ('a \<Rightarrow> bool) \<Rightarrow> bool" where
  "got r P = (case r of Inl e \<Rightarrow> False | Inr a \<Rightarrow> P a)"

lemma got_iff: "got r P \<longleftrightarrow> (\<exists>a. r = Inr a \<and> P a)"
  by (cases r) (simp_all add: got_def)

lemma gotE: "got r P \<Longrightarrow> (\<And>a. r = Inr a \<Longrightarrow> P a \<Longrightarrow> thesis) \<Longrightarrow> thesis"
  by (auto simp: got_iff)

lemma got_simps [simp]: "got (Inr a) P = P a" "got (Inl e) P = False"
  by (simp_all add: got_def)

text \<open>A tuple built by calling a fallible function on each element, in order.\<close>

fun traverse :: "('a \<Rightarrow> 'e + 'b) \<Rightarrow> 'a list \<Rightarrow> 'e + 'b list" where
  "traverse f [] = Inr []"
| "traverse f (x # xs) = rbind (f x) (\<lambda>y. rmap ((#) y) (traverse f xs))"

lemma traverse_Inr:
  "traverse f xs = Inr ys \<longleftrightarrow> list_all2 (\<lambda>x y. f x = Inr y) xs ys"
  by (induction xs arbitrary: ys) (auto simp: res_simps list_all2_Cons1)

section \<open>Running a fallible step over a list of inputs\<close>

fun run_all :: "('s \<Rightarrow> 'i \<Rightarrow> 'e + 's) \<Rightarrow> 's \<Rightarrow> 'i list \<Rightarrow> 'e + 's" where
  "run_all step s [] = Inr s"
| "run_all step s (i # is) = rbind (step s i) (\<lambda>t. run_all step t is)"

lemma run_all_append:
  "run_all step s (xs @ ys) = rbind (run_all step s xs) (\<lambda>t. run_all step t ys)"
  by (induction xs arbitrary: s) (simp_all add: rbind_assoc)

lemma run_all_snoc:
  "run_all step s (xs @ [y]) = rbind (run_all step s xs) (\<lambda>t. step t y)"
  by (simp add: run_all_append)

text \<open>
  The interface shared by the stateful components: an operation that either raises or returns
  the next state, and an invariant it keeps. What holds of every reachable state is proved once
  here and used through an interpretation per component.
\<close>

locale fallible_machine =
  fixes step :: "'s \<Rightarrow> 'i \<Rightarrow> 'e + 's"
    and invar :: "'s \<Rightarrow> bool"
  assumes step_invar: "invar s \<Longrightarrow> step s i = Inr t \<Longrightarrow> invar t"
begin

lemma run_invar: "invar s \<Longrightarrow> run_all step s is = Inr t \<Longrightarrow> invar t"
  by (induction "is" arbitrary: s) (auto simp: res_simps dest: step_invar)

lemma run_prefix_invar:
  assumes "invar s" and "run_all step s (xs @ ys) = Inr t"
  shows "\<exists>u. run_all step s xs = Inr u \<and> invar u"
  using assms run_invar by (fastforce simp: run_all_append res_simps)

end

text \<open>A machine that never raises from a good state.\<close>

locale total_machine = fallible_machine +
  assumes step_total: "invar s \<Longrightarrow> \<exists>t. step s i = Inr t"
begin

lemma run_total: "invar s \<Longrightarrow> \<exists>t. run_all step s is = Inr t \<and> invar t"
proof (induction "is" arbitrary: s)
  case Nil
  then show ?case by simp
next
  case (Cons i "is")
  then obtain u where "step s i = Inr u" using step_total by blast
  with Cons show ?case using step_invar by fastforce
qed

end

section \<open>Logs that keep only the most recent entries\<close>

text \<open>\<open>append\<close> followed by \<open>while len(log) > n: log.popleft()\<close>.\<close>

definition push_bounded :: "nat \<Rightarrow> 'a list \<Rightarrow> 'a \<Rightarrow> 'a list" where
  "push_bounded n xs x = drop (length (xs @ [x]) - n) (xs @ [x])"

lemma length_push_bounded: "length (push_bounded n xs x) = min n (Suc (length xs))"
  by (auto simp: push_bounded_def min_def simp del: drop_append)

lemma push_bounded_fits: "length xs < n \<Longrightarrow> push_bounded n xs x = xs @ [x]"
  by (simp add: push_bounded_def)

lemma push_bounded_snoc: "0 < n \<Longrightarrow> \<exists>k. push_bounded n xs x = drop k xs @ [x]"
  by (rule exI [of _ "Suc (length xs) - n"]) (simp add: push_bounded_def)

lemma set_push_bounded: "set (push_bounded n xs x) \<subseteq> insert x (set xs)"
  unfolding push_bounded_def using set_drop_subset [of _ "xs @ [x]"] by fastforce

section \<open>Lists\<close>

lemma last_in_set_nonempty: "xs \<noteq> [] \<Longrightarrow> last xs \<in> set xs"
  by simp

lemma sorted_less_last:
  "sorted_wrt (<) (xs :: 'a :: linorder list) \<Longrightarrow> x \<in> set xs \<Longrightarrow> x \<le> last xs"
  by (induction xs) (auto simp: less_imp_le)

lemma sorted_less_hd:
  "sorted_wrt (<) (xs :: 'a :: linorder list) \<Longrightarrow> x \<in> set xs \<Longrightarrow> hd xs \<le> x"
  by (cases xs) (auto simp: less_imp_le)

section \<open>More on sequences of computations\<close>

lemma traverse_append:
  "traverse f (xs @ ys) = rbind (traverse f xs) (\<lambda>a. rmap ((@) a) (traverse f ys))"
proof (induction xs)
  case Nil
  then show ?case
    by (cases "traverse f ys") simp_all
next
  case (Cons x xs)
  then show ?case
    by (cases "f x"; cases "traverse f xs"; cases "traverse f ys") simp_all
qed

lemma traverse_cong: "(\<And>x. x \<in> set xs \<Longrightarrow> f x = g x) \<Longrightarrow> traverse f xs = traverse g xs"
  by (induction xs) simp_all

lemma traverse_set: "traverse f xs = Inr ys \<Longrightarrow> y \<in> set ys \<Longrightarrow> \<exists>x\<in>set xs. f x = Inr y"
  by (induction xs arbitrary: ys) (auto simp: res_simps)

lemma upt_split_at: "a \<le> b \<Longrightarrow> b \<le> c \<Longrightarrow> [a..<c] = [a..<b] @ [b..<c]"
  by (metis le_add_diff_inverse upt_add_eq_append)

lemma sorted_split:
  "sorted (xs :: nat list) \<Longrightarrow> xs = filter (\<lambda>i. i < n) xs @ filter (\<lambda>i. \<not> i < n) xs"
proof (induction xs)
  case (Cons x xs)
  show ?case
  proof (cases "x < n")
    case False
    then have "filter (\<lambda>i. i < n) xs = []"
      using Cons.prems by (auto simp: filter_empty_conv)
    then show ?thesis
      using Cons False by simp
  qed (use Cons in simp)
qed simp

lemma filter_less_upt: "n \<le> b \<Longrightarrow> filter (\<lambda>i. i < n) [0..<b] = [0..<n]"
  using upt_split_at[of 0 n b] by (simp add: filter_id_conv filter_empty_conv)

lemma run_all_cong: "(\<And>s i. i \<in> set is \<Longrightarrow> f s i = g s i) \<Longrightarrow> run_all f s is = run_all g s is"
proof (induction "is" arbitrary: s)
  case (Cons i "is")
  then show ?case
    by (cases "g s i") simp_all
qed simp

lemma rbind_cong: "r = r' \<Longrightarrow> (\<And>x. r' = Inr x \<Longrightarrow> f x = g x) \<Longrightarrow> rbind r f = rbind r' g"
  by (cases r') simp_all

lemma traverse_returns: "(\<And>x. x \<in> set xs \<Longrightarrow> \<exists>y. f x = Inr y) \<Longrightarrow> \<exists>ys. traverse f xs = Inr ys"
proof (induction xs)
  case (Cons x xs)
  obtain y where "f x = Inr y"
    using Cons.prems by auto
  moreover obtain ys where "traverse f xs = Inr ys"
    using Cons by auto
  ultimately show ?case
    by simp
qed simp

lemma ex_nat_split: "(\<exists>j. P j) \<longleftrightarrow> P 0 \<or> (\<exists>j. P (Suc j))"
  by (metis not0_implies_Suc)

lemma list_ex_append: "list_ex P (xs @ ys) \<longleftrightarrow> list_ex P xs \<or> list_ex P ys"
  by (induction xs) simp_all

section \<open>A walk that stamps what it logs\<close>

text \<open>
  A step per candle index that appends entries stamped with that index: the log of a shorter walk
  is the part of the longer walk's log that was stamped by then.
\<close>

locale stamped_walk =
  fixes step :: "'s \<Rightarrow> nat \<Rightarrow> 'e + 's" and log :: "'s \<Rightarrow> 'a list" and stamp :: "'a \<Rightarrow> nat"
  assumes appends: "step s i = Inr t \<Longrightarrow> \<exists>added. log t = log s @ added \<and> (\<forall>a\<in>set added. stamp a = i)"
begin

lemma walk_appends:
  "run_all step s is = Inr t \<Longrightarrow> \<exists>added. log t = log s @ added \<and> (\<forall>a\<in>set added. stamp a \<in> set is)"
proof (induction "is" arbitrary: s)
  case (Cons i "is")
  obtain u where u: "step s i = Inr u" "run_all step u is = Inr t"
    using Cons.prems by (auto simp: res_simps)
  obtain xs where xs: "log u = log s @ xs" "\<forall>a\<in>set xs. stamp a = i"
    using appends[OF u(1)] by blast
  obtain ys where ys: "log t = log u @ ys" "\<forall>a\<in>set ys. stamp a \<in> set is"
    using Cons.IH[OF u(2)] by blast
  have "log t = log s @ (xs @ ys)" "\<forall>a\<in>set (xs @ ys). stamp a \<in> set (i # is)"
    using xs ys by auto
  then show ?case
    by blast
qed simp

lemma walk_prefix:
  assumes run: "run_all step s is = Inr t" and order: "sorted is" and fresh: "log s = []"
  shows "\<exists>u. run_all step s (filter (\<lambda>i. i < n) is) = Inr u \<and> log u = filter (\<lambda>a. stamp a < n) (log t)"
proof -
  have split: "is = filter (\<lambda>i. i < n) is @ filter (\<lambda>i. \<not> i < n) is"
    using order by (rule sorted_split)
  obtain u where u: "run_all step s (filter (\<lambda>i. i < n) is) = Inr u"
    "run_all step u (filter (\<lambda>i. \<not> i < n) is) = Inr t"
    using run by (subst (asm) split) (auto simp: run_all_append res_simps)
  obtain xs where xs: "log u = xs" "\<forall>a\<in>set xs. stamp a < n"
    using walk_appends[OF u(1)] fresh by auto
  obtain ys where ys: "log t = log u @ ys" "\<forall>a\<in>set ys. n \<le> stamp a"
    using walk_appends[OF u(2)] by (auto simp: not_less)
  have "filter (\<lambda>a. stamp a < n) ys = []"
    using ys(2) by (auto simp: filter_empty_conv)
  then have "log u = filter (\<lambda>a. stamp a < n) (log t)"
    using xs ys(1) by (simp add: filter_id_conv)
  then show ?thesis
    using u(1) by blast
qed

lemma walk_prefix_upt:
  assumes "run_all step s [0..<b] = Inr t" and "n \<le> b" and "log s = []"
  shows "\<exists>u. run_all step s [0..<n] = Inr u \<and> log u = filter (\<lambda>a. stamp a < n) (log t)"
proof -
  have "filter (\<lambda>i. i < n) [0..<b] = [0..<n]"
    using assms(2) by (rule filter_less_upt)
  then show ?thesis
    using walk_prefix[OF assms(1) sorted_upt assms(3), of n] by simp
qed

end

end
