(* ===== verification/Errors.thy ===== *)
theory Errors
  imports Prelude
begin

text \<open>
  The exceptions the modelled code raises, as one datatype, with the two places of Python's class
  hierarchy the code's \<open>except\<close> clauses rely on (\<open>ValueError\<close> and \<open>ArithmeticError\<close>). A function
  that may raise returns \<open>exn + 'a\<close>.
\<close>

section \<open>Refusal codes\<close>

text \<open>\<open>RefusalCode\<close> of the paper engine.\<close>

datatype refusal_code =
    PRODUCT_NOT_CALCULABLE
  | UNSUPPORTED_ASSET_CLASS
  | POINT_VALUE_UNVERIFIED
  | SYMBOL_MISMATCH
  | RISK_NOT_ALLOWED
  | QUANTITY_EXCEEDS_RISK
  | LEVELS_NOT_EXECUTABLE
  | INVALID_TRANSITION
  | INVALID_OBSERVATION
  | OUT_OF_ORDER
  | CONFLICTING_OBSERVATION
  | OBSERVATION_BEFORE_DECISION
  | FILL_NOT_POSITIVE
  | BREAKEVEN_NOT_PROTECTIVE
  | REPLAY_DIVERGED

text \<open>The stable codes of \<open>ReplayError\<close>.\<close>

datatype replay_code =
    DATASET_INVALID
  | REPLAY_START_BEFORE_DATA
  | REPLAY_START_AFTER_DATA
  | REPLAY_END
  | INVALID_ADVANCE
  | RESOURCE_LIMIT

text \<open>The stable codes of \<open>BacktestError\<close>.\<close>

datatype backtest_code =
    BT_RESOURCE_LIMIT
  | BT_INTERVAL_EMPTY
  | BT_INTERVAL_INVALID
  | BT_TRACE_INVALID
  | BT_STRATEGY_UNSUPPORTED
  | BT_STRATEGY_VERSION_UNSUPPORTED

text \<open>The issue a \<open>MultiTimeframeError\<close> carries.\<close>

datatype MultiTimeframeIssue =
    MTF_SWAPPED_TIMEFRAME
  | MTF_DUPLICATE_ROLE
  | MTF_DUPLICATE_TIMEFRAME
  | MTF_SYMBOL_MISMATCH
  | MTF_INCOMPLETE_INPUT
  | MTF_INVALID_POLICY

text \<open>The codes a \<open>ReviewRefusedError\<close> carries, of the review boundary and of the service around it.\<close>

datatype review_code =
    WRONG_SUBMISSION
  | REVIEWER_UNNAMED
  | REVIEW_NAIVE_TIMESTAMP
  | DECIDED_BEFORE_SUBMITTED
  | FILE_IMPORT_NOT_VERIFIABLE
  | NO_REFERENCE
  | DOCUMENT_NOT_CHECKED
  | NOT_AN_AUTHORITATIVE_SOURCE
  | EFFECTIVE_DATE_MISSING
  | VALUE_MISSING
  | VALUE_TYPE
  | VALUE_NOT_POSITIVE
  | WRONG_FACT
  | MIXED_SOURCES
  | MIXED_CORRECTIONS
  | FIELD_TOO_LONG
  | SYMBOL_NOT_CANONICAL
  | EFFECTIVE_PERIOD_EMPTY
  | FUTURE_DATED
  | UNKNOWN_SUBMISSION

text \<open>The codes a \<open>VerificationConflictError\<close> of the fact journal carries.\<close>

datatype journal_code =
    SUBMISSION_ID_TAKEN
  | ALREADY_DECIDED
  | RECORD_ID_TAKEN
  | NOT_APPROVED
  | APPROVAL_NO_LONGER_HOLDS
  | EVIDENCE_NOT_APPROVED
  | JOURNAL_UNKNOWN_SUBMISSION
  | UNKNOWN_CORRECTED_RECORD
  | VALUE_OUT_OF_BOUNDS
  | INTEGRITY_REFUSED
  | JOURNAL_PERIOD_EMPTY
  | JOURNAL_SYMBOL_NOT_CANONICAL
  | VERIFIED_AFTER_KNOWN
  | APPROVAL_NOT_ATTESTED
  | REFUSAL_WITHOUT_CODE

text \<open>The codes of a \<open>ProvenanceRefusedError\<close> and of \<open>grant\_refusal\<close>.\<close>

datatype grant_code =
    PROVENANCE_NOT_GRANTED
  | NOT_GRANTED
  | GRANT_FOR_ANOTHER_PROVIDER
  | GRANT_DOES_NOT_COVER_MARKET_DATA
  | GRANT_DOES_NOT_COVER_CATEGORY
  | GRANT_DELIVERY_MISMATCH
  | SIMULATION_IS_NOT_LICENSED
  | GRANT_NOT_AUTHORITATIVE
  | GRANT_LAPSED

section \<open>Exceptions\<close>

datatype exn =
    InvalidOperation
  | DivisionByZero
  | OverflowError
  | ValueError
  | KeyError
  | TypeError
  | UnverifiedFinancialFactError
  | UnsupportedAssetClassError
  | UnsupportedQuantitySemanticsError
  | UnsupportedValuationModelError
  | ContractValidationError
  | QuoteMismatchError
  | InstrumentIdentityError
  | RiskInputError
  | PnLInputError
  | SimulationPolicyError
  | PaperInputError
  | PaperRefusalError refusal_code
  | IllegalTransitionError
  | ReplayError replay_code
  | StrategyInputError
  | BacktestError backtest_code
  | AssertionError
  | ZeroDivisionError
  | IndexError
  | InvalidCandleSeriesError
  | IndicatorInputError
  | MultiTimeframeError MultiTimeframeIssue
  | ReviewRefusedError review_code
  | VerificationConflictError journal_code
  | ProvenanceRefusedError grant_code
  | UnknownFactReferenceError string
  | ContextBudgetExceededError nat nat
  | TokenBudgetNotConfiguredError

type_synonym 'a res = "exn + 'a"

text \<open>\<open>decimal.InvalidOperation\<close>, \<open>decimal.DivisionByZero\<close>, \<open>OverflowError\<close> and \<open>ZeroDivisionError\<close> are
  \<open>ArithmeticError\<close>s; every error class the code declares is a \<open>ValueError\<close>, but for
  \<open>UnverifiedFinancialFactError\<close>, \<open>IllegalTransitionError\<close>, \<open>VerificationConflictError\<close> and
  \<open>ProvenanceRefusedError\<close>, which are \<open>RuntimeError\<close>s, and \<open>ContextBudgetExceededError\<close>, a plain
  \<open>Exception\<close> that carries what is required and what is allowed.\<close>

fun is_arithmetic_error :: "exn \<Rightarrow> bool" where
  "is_arithmetic_error InvalidOperation = True"
| "is_arithmetic_error DivisionByZero = True"
| "is_arithmetic_error OverflowError = True"
| "is_arithmetic_error ZeroDivisionError = True"
| "is_arithmetic_error _ = False"

fun is_value_error :: "exn \<Rightarrow> bool" where
  "is_value_error InvalidOperation = False"
| "is_value_error DivisionByZero = False"
| "is_value_error OverflowError = False"
| "is_value_error KeyError = False"
| "is_value_error TypeError = False"
| "is_value_error UnverifiedFinancialFactError = False"
| "is_value_error IllegalTransitionError = False"
| "is_value_error AssertionError = False"
| "is_value_error ZeroDivisionError = False"
| "is_value_error IndexError = False"
| "is_value_error (VerificationConflictError _) = False"
| "is_value_error (ProvenanceRefusedError _) = False"
| "is_value_error (ContextBudgetExceededError _ _) = False"
| "is_value_error _ = True"

definition refuse :: "refusal_code \<Rightarrow> 'a res" where
  "refuse c = Inl (PaperRefusalError c)"

lemma refuse_not_Inr [simp]: "refuse c \<noteq> Inr x"
  by (simp add: refuse_def)

lemma refuse_eq_iff [simp]: "refuse c = refuse d \<longleftrightarrow> c = d"
  by (simp add: refuse_def)

lemma rbind_refuse [simp]: "rbind (refuse c) f = refuse c"
  by (simp add: refuse_def)

end
