(* ===== verification/Py_Decimal.thy ===== *)
theory Py_Decimal
  imports Errors
begin

text \<open>
  Python's \<open>decimal.Decimal\<close>, as far as the modelled code uses it: the value representation (sign,
  coefficient, exponent, with the infinities and the quiet NaN), rounding to a context's precision,
  addition, subtraction, multiplication, division, remainder, comparison and \<open>to_integral_value\<close>.
  The algorithms follow the General Decimal Arithmetic specification that both CPython
  implementations follow. The exponent range (\<open>Emax = 999999\<close>) is not bounded here, so no operation
  on finite values overflows; signalling NaNs and NaN payloads are left out.

  \<open>dval\<close> reads a finite decimal as a rational; the lemmas of this theory say how each operation
  acts on it.
\<close>

section \<open>Representation\<close>

datatype dec = DFin bool nat int | DInf bool | DNaN

datatype rounding = ROUND_HALF_EVEN | ROUND_FLOOR | ROUND_HALF_UP

record dec_context =
  prec :: nat
  rounding_mode :: rounding

text \<open>\<open>decimal.DefaultContext\<close>: what \<open>getcontext()\<close> returns, since no code under src/ changes it.\<close>

definition default_context :: dec_context where
  "default_context = \<lparr>prec = 28, rounding_mode = ROUND_HALF_EVEN\<rparr>"

definition dec_of_int :: "int \<Rightarrow> dec" where
  "dec_of_int n = DFin (n < 0) (nat \<bar>n\<bar>) 0"

fun is_finite :: "dec \<Rightarrow> bool" where
  "is_finite (DFin _ _ _) = True"
| "is_finite _ = False"

fun is_nan :: "dec \<Rightarrow> bool" where
  "is_nan DNaN = True"
| "is_nan _ = False"

definition signed :: "bool \<Rightarrow> nat \<Rightarrow> int" where
  "signed s c = (if s then - int c else int c)"

fun dval :: "dec \<Rightarrow> rat" where
  "dval (DFin s c e) = of_int (signed s c) * 10 powi e"
| "dval _ = 0"

text \<open>A finite decimal scaled to the exponent \<open>m\<close>, an integer when \<open>m\<close> is at most its own.\<close>

definition scaled :: "bool \<Rightarrow> nat \<Rightarrow> int \<Rightarrow> int \<Rightarrow> int" where
  "scaled s c e m = signed s c * 10 ^ nat (e - m)"

section \<open>Rounding to the precision of a context\<close>

fun ndigits :: "nat \<Rightarrow> nat" where
  "ndigits n = (if n < 10 then 1 else Suc (ndigits (n div 10)))"

declare ndigits.simps [simp del]

fun rounds_away :: "rounding \<Rightarrow> bool \<Rightarrow> nat \<Rightarrow> nat \<Rightarrow> nat \<Rightarrow> bool" where
  "rounds_away ROUND_HALF_EVEN s q r d = (d < 2 * r \<or> (2 * r = d \<and> odd q))"
| "rounds_away ROUND_FLOOR s q r d = (s \<and> 0 < r)"
| "rounds_away ROUND_HALF_UP s q r d = (d \<le> 2 * r)"

definition round_coeff :: "rounding \<Rightarrow> bool \<Rightarrow> nat \<Rightarrow> nat \<Rightarrow> nat" where
  "round_coeff m s c k =
     (if rounds_away m s (c div 10 ^ k) (c mod 10 ^ k) (10 ^ k)
      then Suc (c div 10 ^ k) else c div 10 ^ k)"

definition dec_fix :: "dec_context \<Rightarrow> bool \<Rightarrow> nat \<Rightarrow> int \<Rightarrow> dec" where
  "dec_fix x s c e =
     (let k = ndigits c - prec x in
      if k = 0 then DFin s c e
      else let q = round_coeff (rounding_mode x) s c k in
        if prec x < ndigits q then DFin s (q div 10) (e + int k + 1)
        else DFin s q (e + int k))"

section \<open>Arithmetic\<close>

fun dec_neg :: "dec \<Rightarrow> dec" where
  "dec_neg (DFin s c e) = DFin (\<not> s) c e"
| "dec_neg (DInf s) = DInf (\<not> s)"
| "dec_neg DNaN = DNaN"

definition fin_add :: "dec_context \<Rightarrow> bool \<Rightarrow> nat \<Rightarrow> int \<Rightarrow> bool \<Rightarrow> nat \<Rightarrow> int \<Rightarrow> dec" where
  "fin_add x s c e s' c' e' =
     (let m = min e e'; t = scaled s c e m + scaled s' c' e' m in
      dec_fix x
        (if t = 0 then (s \<and> s') \<or> (s \<noteq> s' \<and> rounding_mode x = ROUND_FLOOR) else t < 0)
        (nat \<bar>t\<bar>) m)"

fun dec_add :: "dec_context \<Rightarrow> dec \<Rightarrow> dec \<Rightarrow> dec res" where
  "dec_add x DNaN _ = Inr DNaN"
| "dec_add x _ DNaN = Inr DNaN"
| "dec_add x (DInf s) (DInf s') = (if s = s' then Inr (DInf s) else Inl InvalidOperation)"
| "dec_add x (DInf s) (DFin _ _ _) = Inr (DInf s)"
| "dec_add x (DFin _ _ _) (DInf s) = Inr (DInf s)"
| "dec_add x (DFin s c e) (DFin s' c' e') = Inr (fin_add x s c e s' c' e')"

definition dec_sub :: "dec_context \<Rightarrow> dec \<Rightarrow> dec \<Rightarrow> dec res" where
  "dec_sub x a b = dec_add x a (dec_neg b)"

fun dec_is_zero :: "dec \<Rightarrow> bool" where
  "dec_is_zero (DFin _ c _) = (c = 0)"
| "dec_is_zero _ = False"

fun dec_mul :: "dec_context \<Rightarrow> dec \<Rightarrow> dec \<Rightarrow> dec res" where
  "dec_mul x DNaN _ = Inr DNaN"
| "dec_mul x _ DNaN = Inr DNaN"
| "dec_mul x (DInf s) (DInf s') = Inr (DInf (s \<noteq> s'))"
| "dec_mul x (DInf s) (DFin s' c' _) =
     (if c' = 0 then Inl InvalidOperation else Inr (DInf (s \<noteq> s')))"
| "dec_mul x (DFin s c _) (DInf s') =
     (if c = 0 then Inl InvalidOperation else Inr (DInf (s \<noteq> s')))"
| "dec_mul x (DFin s c e) (DFin s' c' e') = Inr (dec_fix x (s \<noteq> s') (c * c') (e + e'))"

text \<open>Removal of trailing zeros up to the ideal exponent, in exact quotients.\<close>

function strip_zeros :: "nat \<Rightarrow> int \<Rightarrow> int \<Rightarrow> nat \<times> int" where
  "strip_zeros c e ideal =
     (if e < ideal \<and> c mod 10 = 0 then strip_zeros (c div 10) (e + 1) ideal else (c, e))"
  by pat_completeness auto
termination
  by (relation "measure (\<lambda>(c, e, ideal). nat (ideal - e))") auto

declare strip_zeros.simps [simp del]

definition fin_div :: "dec_context \<Rightarrow> bool \<Rightarrow> nat \<Rightarrow> int \<Rightarrow> bool \<Rightarrow> nat \<Rightarrow> int \<Rightarrow> dec" where
  "fin_div x s c e s' c' e' =
     (if c = 0 then dec_fix x (s \<noteq> s') 0 (e - e')
      else
        let shift = int (ndigits c') - int (ndigits c) + int (prec x) + 1;
            n = c * 10 ^ nat shift; d = c' * 10 ^ nat (- shift);
            q = n div d; g = e - e' - shift
        in if n mod d \<noteq> 0
           then dec_fix x (s \<noteq> s') (if q mod 5 = 0 then Suc q else q) g
           else (case strip_zeros q g (e - e') of (q', g') \<Rightarrow> dec_fix x (s \<noteq> s') q' g'))"

definition e_tiny :: "dec_context \<Rightarrow> int" where
  "e_tiny x = - 999999 - int (prec x) + 1"

fun dec_div :: "dec_context \<Rightarrow> dec \<Rightarrow> dec \<Rightarrow> dec res" where
  "dec_div x DNaN _ = Inr DNaN"
| "dec_div x _ DNaN = Inr DNaN"
| "dec_div x (DInf _) (DInf _) = Inl InvalidOperation"
| "dec_div x (DInf s) (DFin s' _ _) = Inr (DInf (s \<noteq> s'))"
| "dec_div x (DFin s _ _) (DInf s') = Inr (DFin (s \<noteq> s') 0 (e_tiny x))"
| "dec_div x (DFin s c e) (DFin s' c' e') =
     (if c' = 0 then Inl (if c = 0 then InvalidOperation else DivisionByZero)
      else Inr (fin_div x s c e s' c' e'))"

text \<open>\<open>a % b\<close>: the remainder has the sign of the dividend; a quotient of more than \<open>prec\<close> digits is
  \<open>DivisionImpossible\<close>.\<close>

fun dec_mod :: "dec_context \<Rightarrow> dec \<Rightarrow> dec \<Rightarrow> dec res" where
  "dec_mod x DNaN _ = Inr DNaN"
| "dec_mod x _ DNaN = Inr DNaN"
| "dec_mod x (DInf _) _ = Inl InvalidOperation"
| "dec_mod x (DFin s c e) (DInf _) = Inr (dec_fix x s c e)"
| "dec_mod x (DFin s c e) (DFin s' c' e') =
     (if c' = 0 then Inl InvalidOperation
      else
        let m = min e e';
            a = c * 10 ^ nat (e - m); b = c' * 10 ^ nat (e' - m)
        in if a div b < 10 ^ prec x then Inr (dec_fix x s (a mod b) m)
           else Inl InvalidOperation)"

text \<open>Unary plus: rounds, and turns a negative zero into a zero unless rounding down.\<close>

fun dec_plus :: "dec_context \<Rightarrow> dec \<Rightarrow> dec" where
  "dec_plus x (DFin s c e) =
     dec_fix x (if c = 0 then s \<and> rounding_mode x = ROUND_FLOOR else s) c e"
| "dec_plus x d = d"

text \<open>\<open>abs(d)\<close> and unary minus.\<close>

fun dec_abs :: "dec_context \<Rightarrow> dec \<Rightarrow> dec" where
  "dec_abs x (DFin s c e) = dec_fix x False c e"
| "dec_abs x (DInf s) = DInf False"
| "dec_abs x DNaN = DNaN"

fun dec_minus :: "dec_context \<Rightarrow> dec \<Rightarrow> dec" where
  "dec_minus x (DFin s c e) =
     dec_fix x (if c = 0 then \<not> s \<and> rounding_mode x = ROUND_FLOOR else \<not> s) c e"
| "dec_minus x (DInf s) = DInf (\<not> s)"
| "dec_minus x DNaN = DNaN"

text \<open>\<open>int(value.to_integral_value(rounding=ROUND_FLOOR))\<close>.\<close>

fun dec_floor_int :: "dec \<Rightarrow> int res" where
  "dec_floor_int (DFin s c e) =
     Inr (if 0 \<le> e then signed s c * 10 ^ nat e else signed s c div 10 ^ nat (- e))"
| "dec_floor_int (DInf _) = Inl OverflowError"
| "dec_floor_int DNaN = Inl ValueError"

section \<open>Comparison\<close>

fun dec_less :: "dec \<Rightarrow> dec \<Rightarrow> bool" where
  "dec_less (DFin s c e) (DFin s' c' e') =
     (scaled s c e (min e e') < scaled s' c' e' (min e e'))"
| "dec_less (DFin _ _ _) (DInf s) = (\<not> s)"
| "dec_less (DInf s) (DFin _ _ _) = s"
| "dec_less (DInf s) (DInf s') = (s \<and> \<not> s')"
| "dec_less _ _ = False"

text \<open>Python's \<open>==\<close>: a NaN equals nothing, and comparing with it does not signal.\<close>

fun dec_eq :: "dec \<Rightarrow> dec \<Rightarrow> bool" where
  "dec_eq (DFin s c e) (DFin s' c' e') =
     (scaled s c e (min e e') = scaled s' c' e' (min e e'))"
| "dec_eq (DInf s) (DInf s') = (s = s')"
| "dec_eq _ _ = False"

definition dec_le :: "dec \<Rightarrow> dec \<Rightarrow> bool" where
  "dec_le a b = (dec_less a b \<or> dec_eq a b)"

text \<open>The ordering operators signal \<open>InvalidOperation\<close> on a NaN.\<close>

definition py_less :: "dec \<Rightarrow> dec \<Rightarrow> bool res" where
  "py_less a b = (if is_nan a \<or> is_nan b then Inl InvalidOperation else Inr (dec_less a b))"

definition py_le :: "dec \<Rightarrow> dec \<Rightarrow> bool res" where
  "py_le a b = (if is_nan a \<or> is_nan b then Inl InvalidOperation else Inr (dec_le a b))"

definition dec_zero :: dec where
  "dec_zero = DFin False 0 0"

text \<open>The built-in \<open>max\<close> and \<open>min\<close> keep the first of equal arguments.\<close>

definition dec_max :: "dec \<Rightarrow> dec \<Rightarrow> dec" where
  "dec_max a b = (if dec_less a b then b else a)"

definition dec_min :: "dec \<Rightarrow> dec \<Rightarrow> dec" where
  "dec_min a b = (if dec_less b a then b else a)"

section \<open>Lemmas\<close>

named_theorems dec_eval "evaluation of decimal operations on concrete values"

subsection \<open>Digits\<close>

lemma ndigits_small [dec_eval]: "n < 10 \<Longrightarrow> ndigits n = 1"
  by (simp add: ndigits.simps)

lemma ndigits_step [dec_eval]: "10 \<le> n \<Longrightarrow> ndigits n = Suc (ndigits (n div 10))"
  by (subst ndigits.simps) simp

lemma ndigits_pos [simp]: "0 < ndigits n"
  by (subst ndigits.simps) simp

lemma ndigits_upper: "n < 10 ^ ndigits n"
proof (induction n rule: ndigits.induct)
  case (1 n)
  show ?case
  proof (cases "n < 10")
    case True
    then show ?thesis by (simp add: ndigits_small)
  next
    case False
    with "1.IH" have "n div 10 < 10 ^ ndigits (n div 10)" by simp
    with False show ?thesis by (simp add: ndigits_step)
  qed
qed

lemma ndigits_lower: "0 < n \<Longrightarrow> 10 ^ (ndigits n - 1) \<le> n"
proof (induction n rule: ndigits.induct)
  case (1 n)
  show ?case
  proof (cases "n < 10")
    case True
    with "1.prems" show ?thesis by (simp add: ndigits_small)
  next
    case False
    with "1.IH" have "10 ^ (ndigits (n div 10) - 1) \<le> n div 10" by simp
    moreover have "(10::nat) ^ ndigits (n div 10) = 10 * 10 ^ (ndigits (n div 10) - 1)"
      using power_Suc [of "10::nat" "ndigits (n div 10) - 1"] by simp
    ultimately show ?thesis using False by (simp add: ndigits_step)
  qed
qed

lemma ndigits_le_iff: "0 < k \<Longrightarrow> ndigits n \<le> k \<longleftrightarrow> n < 10 ^ k"
proof
  assume "ndigits n \<le> k"
  then show "n < 10 ^ k"
    by (meson ndigits_upper less_le_trans one_le_numeral power_increasing)
next
  assume k: "0 < k" and "n < 10 ^ k"
  show "ndigits n \<le> k"
  proof (cases "n = 0")
    case True
    with k show ?thesis by (simp add: ndigits_small)
  next
    case False
    then have "(10::nat) ^ (ndigits n - 1) < 10 ^ k"
      using ndigits_lower [of n] \<open>n < 10 ^ k\<close> by linarith
    then show ?thesis by simp
  qed
qed

lemma ndigits_mono: "m \<le> n \<Longrightarrow> ndigits m \<le> ndigits n"
  using ndigits_upper [of n] by (simp add: ndigits_le_iff)

subsection \<open>Values\<close>

lemma signed_simps [simp]:
  "signed False c = int c"
  "signed True c = - int c"
  by (simp_all add: signed_def)

lemma signed_zero_iff [simp]: "signed s c = 0 \<longleftrightarrow> c = 0"
  by (cases s) simp_all

lemma abs_signed [simp]: "\<bar>signed s c\<bar> = int c"
  by (cases s) simp_all

lemma signed_sum_sign: "signed (t < 0) (nat \<bar>t\<bar>) = t"
  by (simp add: signed_def)

lemma powi_shift: "m \<le> e \<Longrightarrow> (10::rat) powi e = 10 ^ nat (e - m) * 10 powi m"
proof -
  assume "m \<le> e"
  then have "(10::rat) powi e = 10 powi (int (nat (e - m)) + m)" by simp
  also have "\<dots> = 10 ^ nat (e - m) * 10 powi m"
    by (subst power_int_add) (simp_all only: power_int_of_nat, simp)
  finally show ?thesis .
qed

lemma powi_pos [simp]: "0 < (10::rat) powi e"
  by (simp add: zero_less_power_int)

lemma dval_scaled: "m \<le> e \<Longrightarrow> dval (DFin s c e) = of_int (scaled s c e m) * 10 powi m"
  by (simp add: scaled_def powi_shift)

lemma dval_less_fin:
  "dval (DFin s c e) < dval (DFin s' c' e') \<longleftrightarrow>
     scaled s c e (min e e') < scaled s' c' e' (min e e')"
  using dval_scaled [of "min e e'" e s c] dval_scaled [of "min e e'" e' s' c']
  by (simp del: dval.simps)

lemma dval_eq_fin:
  "dval (DFin s c e) = dval (DFin s' c' e') \<longleftrightarrow>
     scaled s c e (min e e') = scaled s' c' e' (min e e')"
  using dval_scaled [of "min e e'" e s c] dval_scaled [of "min e e'" e' s' c']
  by (simp del: dval.simps)

lemma dec_less_iff: "is_finite a \<Longrightarrow> is_finite b \<Longrightarrow> dec_less a b \<longleftrightarrow> dval a < dval b"
  by (cases a; cases b) (simp_all add: dval_less_fin del: dval.simps)

lemma dec_eq_iff: "is_finite a \<Longrightarrow> is_finite b \<Longrightarrow> dec_eq a b \<longleftrightarrow> dval a = dval b"
  by (cases a; cases b) (simp_all add: dval_eq_fin del: dval.simps)

lemma dec_le_iff: "is_finite a \<Longrightarrow> is_finite b \<Longrightarrow> dec_le a b \<longleftrightarrow> dval a \<le> dval b"
  by (auto simp: dec_le_def dec_less_iff dec_eq_iff)

lemma is_finite_not_nan [simp]: "is_finite a \<Longrightarrow> \<not> is_nan a"
  by (cases a) simp_all

lemma py_less_finite: "is_finite a \<Longrightarrow> is_finite b \<Longrightarrow> py_less a b = Inr (dval a < dval b)"
  by (simp add: py_less_def dec_less_iff)

lemma py_le_finite: "is_finite a \<Longrightarrow> is_finite b \<Longrightarrow> py_le a b = Inr (dval a \<le> dval b)"
  by (simp add: py_le_def dec_le_iff)

lemma dec_zero_simps [simp]:
  "is_finite dec_zero" "dval dec_zero = 0" "\<not> is_nan dec_zero"
  by (simp_all add: dec_zero_def)

lemma dec_max_finite: "is_finite a \<Longrightarrow> is_finite b \<Longrightarrow> is_finite (dec_max a b)"
  by (simp add: dec_max_def)

lemma dec_min_finite: "is_finite a \<Longrightarrow> is_finite b \<Longrightarrow> is_finite (dec_min a b)"
  by (simp add: dec_min_def)

lemma dval_max: "is_finite a \<Longrightarrow> is_finite b \<Longrightarrow> dval (dec_max a b) = max (dval a) (dval b)"
  by (simp add: dec_max_def dec_less_iff max_def)

lemma dval_min: "is_finite a \<Longrightarrow> is_finite b \<Longrightarrow> dval (dec_min a b) = min (dval a) (dval b)"
  by (simp add: dec_min_def dec_less_iff min_def)

lemma dec_neg_simps [simp]: "is_finite (dec_neg a) = is_finite a" "dval (dec_neg a) = - dval a"
  by (cases a; simp add: signed_def)+

subsection \<open>Rounding\<close>

lemma round_coeff_bounds:
  "c div 10 ^ k \<le> round_coeff m s c k" "round_coeff m s c k \<le> Suc (c div 10 ^ k)"
  by (simp_all add: round_coeff_def)

lemma dec_fix_exact: "ndigits c \<le> prec x \<Longrightarrow> dec_fix x s c e = DFin s c e"
  by (simp add: dec_fix_def)

lemma round_coeff_le:
  assumes "0 < p" and "p < ndigits c"
  shows "round_coeff m s c (ndigits c - p) \<le> 10 ^ p"
proof -
  have "c < 10 ^ p * 10 ^ (ndigits c - p)"
    using ndigits_upper [of c] assms by (simp flip: power_add)
  then have "c div 10 ^ (ndigits c - p) < 10 ^ p"
    by (simp add: less_mult_imp_div_less)
  then show ?thesis
    using round_coeff_bounds(2) [of m s c "ndigits c - p"] by linarith
qed

lemma dval_dec_fix:
  assumes "0 < prec x"
  shows "dval (dec_fix x s c e) =
    of_int (signed s (if ndigits c \<le> prec x then c
      else round_coeff (rounding_mode x) s c (ndigits c - prec x)))
    * 10 powi (e + int (ndigits c - prec x))"
proof (cases "ndigits c \<le> prec x")
  case True
  then show ?thesis by (simp add: dec_fix_exact)
next
  case False
  define k where "k = ndigits c - prec x"
  define q where "q = round_coeff (rounding_mode x) s c k"
  have "0 < k" using False by (simp add: k_def)
  show ?thesis
  proof (cases "prec x < ndigits q")
    case carry: True
    then have "10 ^ prec x \<le> q"
      using ndigits_le_iff [OF assms, of q] by simp
    moreover have "q \<le> 10 ^ prec x"
      using round_coeff_le [OF assms, of c] False unfolding q_def k_def by simp
    ultimately have "q = 10 * (10 ^ (prec x - 1))"
      using assms by (simp flip: power_Suc)
    then have "q = 10 * (q div 10)" by simp
    then have "signed s q = 10 * signed s (q div 10)" by (simp add: signed_def)
    moreover have "(10::rat) powi (e + int k + 1) = 10 powi (e + int k) * 10"
      by (simp add: power_int_add_1)
    ultimately show ?thesis
      using False carry \<open>0 < k\<close>
      by (simp add: dec_fix_def Let_def k_def [symmetric] q_def [symmetric])
  next
    case False
    then show ?thesis
      using \<open>\<not> ndigits c \<le> prec x\<close> \<open>0 < k\<close>
      by (simp add: dec_fix_def Let_def k_def [symmetric] q_def [symmetric])
  qed
qed

lemma dec_fix_finite [simp]: "is_finite (dec_fix x s c e)"
  by (simp add: dec_fix_def Let_def)

subsection \<open>Signs and exact results\<close>

lemma sgn_rat_of_int [simp]: "sgn (of_int k :: rat) = of_int (sgn k)"
  by (simp add: sgn_if)

lemma dec_fix_sgn:
  assumes "0 < prec x"
  shows "sgn (dval (dec_fix x s c e)) = of_int (sgn (signed s c))"
proof (cases "ndigits c \<le> prec x")
  case True
  then show ?thesis by (simp add: dec_fix_exact sgn_mult)
next
  case False
  define k where "k = ndigits c - prec x"
  have "0 < c" using False assms by (cases "c = 0") (simp_all add: ndigits_small)
  have "(10::nat) ^ k \<le> 10 ^ (ndigits c - 1)"
    using assms by (intro power_increasing) (simp_all add: k_def)
  also have "\<dots> \<le> c" using \<open>0 < c\<close> by (rule ndigits_lower)
  finally have "0 < c div 10 ^ k" by (simp add: div_greater_zero_iff)
  then have "0 < round_coeff (rounding_mode x) s c k"
    using round_coeff_bounds(1) [of c k] by (metis less_le_trans)
  with False \<open>0 < c\<close> show ?thesis
    by (cases s) (simp_all add: dval_dec_fix [OF assms] k_def [symmetric] sgn_mult)
qed

lemma dec_add_finite:
  assumes "is_finite a" and "is_finite b"
  obtains d where "dec_add x a b = Inr d" and "is_finite d"
  using assms by (cases a; cases b) (auto simp: fin_add_def Let_def)

lemma dec_sub_finite:
  assumes "is_finite a" and "is_finite b"
  obtains d where "dec_sub x a b = Inr d" and "is_finite d"
  using dec_add_finite [of a "dec_neg b" x] assms by (auto simp: dec_sub_def)

lemma dec_mul_finite:
  assumes "is_finite a" and "is_finite b"
  obtains d where "dec_mul x a b = Inr d" and "is_finite d"
  using assms by (cases a; cases b) auto

lemma dec_ops_fin:
  "dec_add x a b = Inr d \<Longrightarrow> is_finite a \<Longrightarrow> is_finite b \<Longrightarrow> is_finite d"
  "dec_sub x a b = Inr d \<Longrightarrow> is_finite a \<Longrightarrow> is_finite b \<Longrightarrow> is_finite d"
  "dec_mul x a b = Inr d \<Longrightarrow> is_finite a \<Longrightarrow> is_finite b \<Longrightarrow> is_finite d"
  by (auto elim: dec_add_finite [of a b x] dec_sub_finite [of a b x] dec_mul_finite [of a b x])

lemma dval_of_int [simp]: "dval (dec_of_int n) = of_int n" "is_finite (dec_of_int n)"
  by (auto simp: dec_of_int_def signed_def)

lemma dval_sum_scaled:
  "dval (DFin s c e) + dval (DFin s' c' e') =
     of_int (scaled s c e (min e e') + scaled s' c' e' (min e e')) * 10 powi (min e e')"
  using dval_scaled [of "min e e'" e s c] dval_scaled [of "min e e'" e' s' c']
  by (simp del: dval.simps add: algebra_simps)

lemma signed_sgn [simp]: "sgn (signed s c) = (if c = 0 then 0 else if s then -1 else 1)"
  by (simp add: signed_def)

lemma dec_add_sgn:
  assumes "0 < prec x" and "is_finite a" and "is_finite b" and "dec_add x a b = Inr d"
  shows "sgn (dval d) = sgn (dval a + dval b)"
proof -
  obtain s c e s' c' e' where ab: "a = DFin s c e" "b = DFin s' c' e'"
    using assms(2,3) by (metis is_finite.elims(2))
  define t where "t = scaled s c e (min e e') + scaled s' c' e' (min e e')"
  have "sgn (dval d) = of_int (sgn t)"
    using assms(4) ab
    by (auto simp: fin_add_def Let_def dec_fix_sgn [OF assms(1)] t_def [symmetric])
  also have "\<dots> = sgn (dval a + dval b)"
    unfolding ab dval_sum_scaled t_def [symmetric] by (simp add: sgn_mult)
  finally show ?thesis .
qed

lemma dec_sub_sgn:
  assumes "0 < prec x" and "is_finite a" and "is_finite b" and "dec_sub x a b = Inr d"
  shows "sgn (dval d) = sgn (dval a - dval b)"
  using dec_add_sgn [of x a "dec_neg b" d] assms by (simp add: dec_sub_def)

lemma dec_mul_sgn:
  assumes "0 < prec x" and "is_finite a" and "is_finite b" and "dec_mul x a b = Inr d"
  shows "sgn (dval d) = sgn (dval a) * sgn (dval b)"
proof -
  obtain s c e s' c' e' where ab: "a = DFin s c e" "b = DFin s' c' e'"
    using assms(2,3) by (metis is_finite.elims(2))
  then show ?thesis
    using assms(4) by (auto simp: dec_fix_sgn [OF assms(1)] sgn_mult)
qed

lemma sgn_pos_iff: "0 < (v::rat) \<longleftrightarrow> sgn v = 1"
  by (simp add: sgn_if)

lemma sgn_eq_pos: "sgn (v::rat) = sgn w \<Longrightarrow> 0 < v \<longleftrightarrow> 0 < w"
  by (simp add: sgn_pos_iff)

text \<open>Products and sums whose exact coefficient fits the precision are exact.\<close>

lemma dec_mul_exact:
  "c * c' < 10 ^ prec x \<Longrightarrow> 0 < prec x \<Longrightarrow>
     dec_mul x (DFin s c e) (DFin s' c' e') = Inr (DFin (s \<noteq> s') (c * c') (e + e'))"
  by (simp add: dec_fix_exact ndigits_le_iff)

lemma dec_add_exact:
  assumes "0 < prec x"
    and "nat \<bar>scaled s c e (min e e') + scaled s' c' e' (min e e')\<bar> < 10 ^ prec x"
    and "dec_add x (DFin s c e) (DFin s' c' e') = Inr d"
  shows "dval d = dval (DFin s c e) + dval (DFin s' c' e')"
  using assms
  by (auto simp: fin_add_def Let_def dec_fix_exact ndigits_le_iff dval_sum_scaled signed_def
      simp del: dval.simps intro!: dval.simps(1) [THEN trans])

subsection \<open>Flooring\<close>

lemma dec_floor_int_finite: "is_finite d \<Longrightarrow> dec_floor_int d = Inr \<lfloor>dval d\<rfloor>"
proof (cases d)
  case (DFin s c e)
  show ?thesis
  proof (cases "0 \<le> e")
    case True
    then have "dval d = of_int (signed s c * 10 ^ nat e)"
      using DFin powi_shift [of 0 e] by simp
    then show ?thesis using True DFin by (simp del: dval.simps of_int_mult)
  next
    case False
    then have "dval d = of_int (signed s c) / of_int (10 ^ nat (- e))"
      using DFin by (simp add: power_int_def inverse_eq_divide power_one_over)
    then have "\<lfloor>dval d\<rfloor> = signed s c div 10 ^ nat (- e)"
      using floor_divide_of_int_eq [of "signed s c" "10 ^ nat (- e)", where ?'a = rat] by simp
    then show ?thesis using False DFin by (simp del: dval.simps)
  qed
qed simp_all

lemma floor_grid:
  fixes v :: rat
  shows "\<lfloor>(of_int \<lfloor>v * 10 ^ n\<rfloor> / 10 ^ n :: rat)\<rfloor> = \<lfloor>v\<rfloor>"
proof (rule floor_unique)
  have "\<lfloor>v\<rfloor> * 10 ^ n \<le> \<lfloor>v * 10 ^ n\<rfloor>"
    by (simp add: le_floor_iff mult_right_mono)
  then have "of_int \<lfloor>v\<rfloor> * (10::rat) ^ n \<le> of_int \<lfloor>v * 10 ^ n\<rfloor>"
    by (metis of_int_le_iff of_int_mult of_int_numeral of_int_power)
  then show "of_int \<lfloor>v\<rfloor> \<le> (of_int \<lfloor>v * 10 ^ n\<rfloor> / 10 ^ n :: rat)"
    by (simp add: le_divide_eq)
  have "(of_int \<lfloor>v * 10 ^ n\<rfloor> / 10 ^ n :: rat) \<le> v"
    by (simp add: divide_le_eq of_int_floor_le)
  also have "v < of_int \<lfloor>v\<rfloor> + 1" by linarith
  finally show "(of_int \<lfloor>v * 10 ^ n\<rfloor> / 10 ^ n :: rat) < of_int \<lfloor>v\<rfloor> + 1" .
qed

text \<open>What a division under \<open>ROUND_FLOOR\<close> returns for positive operands: the quotient, or the
  quotient cut to a grid \<open>10 powi h\<close> that is coarser than the units only beyond \<open>10 ^ prec\<close>.\<close>

lemma strip_zeros_value:
  "strip_zeros c e i = (c', e') \<Longrightarrow> of_nat c' * (10::rat) powi e' = of_nat c * 10 powi e"
proof (induction c e i rule: strip_zeros.induct)
  case (1 c e i)
  show ?case
  proof (cases "e < i \<and> c mod 10 = 0")
    case True
    then have "c = 10 * (c div 10)" by auto
    then have "of_nat c = 10 * (of_nat (c div 10) :: rat)"
      by (metis of_nat_mult of_nat_numeral)
    moreover have "(10::rat) powi (e + 1) = 10 powi e * 10" by (simp add: power_int_add_1)
    moreover have "of_nat c' * (10::rat) powi e' = of_nat (c div 10) * 10 powi (e + 1)"
      using 1 True by (simp add: strip_zeros.simps [of c e i])
    ultimately show ?thesis by simp
  next
    case False
    with "1.prems" show ?thesis by (auto simp: strip_zeros.simps [of c e i] split: if_splits)
  qed
qed

definition on_grid :: "nat \<Rightarrow> rat \<Rightarrow> rat \<Rightarrow> bool" where
  "on_grid p v w \<longleftrightarrow>
     w = v \<or> (\<exists>h. w = of_int \<lfloor>v / 10 powi h\<rfloor> * 10 powi h \<and> (0 < h \<longrightarrow> 10 ^ p \<le> v))"

lemma dec_fix_floor_nonneg:
  assumes "0 < prec x" and "rounding_mode x = ROUND_FLOOR" and "prec x < ndigits c"
  shows "dval (dec_fix x False c e) =
    of_nat (c div 10 ^ (ndigits c - prec x)) * 10 powi (e + int (ndigits c - prec x))"
  using assms by (simp add: dval_dec_fix round_coeff_def)

lemma grid_of_quotient:
  assumes "0 < p" and "p < ndigits q" and "0 < d"
    and "q = n div d" and v: "v = of_nat n / of_nat d * (10::rat) powi g"
  shows "on_grid p v (of_nat (q div 10 ^ (ndigits q - p)) * 10 powi (g + int (ndigits q - p)))"
proof -
  define k where "k = ndigits q - p"
  define h where "h = g + int k"
  have pk: "(10::rat) powi h = 10 powi g * 10 ^ k"
    by (simp add: h_def power_int_add)
  have "v / 10 powi h = of_nat n / of_nat (d * 10 ^ k)"
    using \<open>0 < d\<close> by (simp add: v pk field_simps)
  then have fl: "\<lfloor>v / 10 powi h\<rfloor> = int (q div 10 ^ k)"
    by (simp add: floor_divide_of_nat_eq assms(4) div_mult2_eq del: of_nat_mult of_nat_power)
  have "10 ^ (p - 1) \<le> q div 10 ^ k"
  proof -
    have "0 < q" using assms(1,2) by (cases "q = 0") (simp_all add: ndigits_small)
    then have "10 ^ (ndigits q - 1) \<le> q" by (rule ndigits_lower)
    moreover have "ndigits q - 1 = (p - 1) + k" using assms(1,2) by (simp add: k_def)
    ultimately have "10 ^ (p - 1) * 10 ^ k \<le> q" by (simp add: power_add)
    then show ?thesis by (simp add: less_eq_div_iff_mult_less_eq)
  qed
  then have "(10::rat) ^ (p - 1) \<le> v / 10 powi h"
    using fl by (metis le_floor_iff of_int_of_nat_eq of_nat_le_iff of_nat_numeral of_nat_power)
  then have low: "10 ^ (p - 1) * 10 powi h \<le> v" by (simp add: le_divide_eq)
  have "0 < h \<longrightarrow> 10 ^ p \<le> v"
  proof
    assume "0 < h"
    then have "(10::rat) powi 1 \<le> 10 powi h" by (intro power_int_increasing) simp_all
    then have "10 ^ (p - 1) * 10 \<le> (10::rat) ^ (p - 1) * 10 powi h" by simp
    moreover have "(10::rat) ^ (p - 1) * 10 = 10 ^ p"
      using \<open>0 < p\<close> by (simp flip: power_Suc2)
    ultimately show "10 ^ p \<le> v" using low by linarith
  qed
  then show ?thesis unfolding on_grid_def using fl
    by (intro disjI2 exI [of _ h]) (simp add: h_def k_def)
qed

end
