(* ===== verification/Decimal_Division.thy ===== *)
theory Decimal_Division
  imports Py_Decimal
begin

text \<open>
  What \<open>Decimal.__truediv__\<close> followed by a floor yields: the lemmas behind the code's
  \<open>floor_divide\<close>, the contract-count operation. The quotient is computed to \<open>prec + 1\<close> digits or
  more with a sticky last digit and then rounded down, so for positive operands the result is the
  exact quotient or the quotient cut to a decimal grid (\<open>on_grid\<close>).
\<close>

lemma sticky_div: "q mod 5 = 0 \<Longrightarrow> 0 < k \<Longrightarrow> Suc q div 10 ^ k = q div (10 ^ k :: nat)"
proof -
  assume q: "q mod 5 = 0" and "0 < k"
  then obtain j where k: "k = Suc j" by (cases k) auto
  have "Suc q mod 5 = 1" using q by (simp add: mod_Suc)
  then have "\<not> 5 dvd Suc q" by (simp add: dvd_eq_mod_eq_0)
  moreover have "(5::nat) dvd 10" by simp
  ultimately have "\<not> 10 dvd Suc q" by (meson dvd_trans)
  then have "Suc q div 10 = q div 10" by (simp add: div_Suc dvd_eq_mod_eq_0)
  then show ?thesis by (simp add: k div_mult2_eq)
qed

lemma quotient_digits:
  assumes "0 < c" and "0 < c'"
    and shift: "shift = int (ndigits c') - int (ndigits c) + int p + 1"
  shows "10 ^ p \<le> (c * 10 ^ nat shift) div (c' * 10 ^ nat (- shift))"
proof -
  let ?i = "nat shift" and ?j = "nat (- shift)"
  have "c' * 10 ^ ?j * 10 ^ p \<le> 10 ^ (ndigits c' + ?j + p)"
    using ndigits_upper [of c'] by (simp add: power_add)
  also have "ndigits c' + ?j + p = (ndigits c - 1) + ?i"
    using shift ndigits_pos [of c] by linarith
  also have "10 ^ ((ndigits c - 1) + ?i) \<le> c * 10 ^ ?i"
    using ndigits_lower [OF \<open>0 < c\<close>] by (simp add: power_add)
  finally show ?thesis
    using \<open>0 < c'\<close> by (simp add: less_eq_div_iff_mult_less_eq mult.commute)
qed

lemma fin_div_floor:
  assumes x: "0 < prec x" "rounding_mode x = ROUND_FLOOR" and "0 < c" and "0 < c'"
  shows "on_grid (prec x) (dval (DFin False c e) / dval (DFin False c' e'))
    (dval (fin_div x False c e False c' e'))"
proof -
  define shift where "shift = int (ndigits c') - int (ndigits c) + int (prec x) + 1"
  define n where "n = c * 10 ^ nat shift"
  define d where "d = c' * 10 ^ nat (- shift)"
  define q where "q = n div d"
  define g where "g = e - e' - shift"
  define v where "v = dval (DFin False c e) / dval (DFin False c' e')"
  have d: "0 < d" using \<open>0 < c'\<close> by (simp add: d_def)
  have ratio: "of_nat n / of_nat d = (of_nat c / of_nat c' * 10 powi shift :: rat)"
    by (cases "0 \<le> shift") (simp_all add: n_def d_def power_int_def field_simps)
  have "(10::rat) powi (e - e') = 10 powi shift * 10 powi g"
    unfolding g_def by (subst power_int_add [symmetric]) simp_all
  then have v: "v = of_nat n / of_nat d * 10 powi g"
  proof -
    have "v = of_nat c / of_nat c' * 10 powi (e - e')"
      by (simp add: v_def power_int_diff)
    then show ?thesis unfolding ratio \<open>10 powi (e - e') = 10 powi shift * 10 powi g\<close> by simp
  qed
  have q: "10 ^ prec x \<le> q"
    unfolding q_def n_def d_def using assms(3,4) shift_def by (rule quotient_digits)
  then have digits: "prec x < ndigits q"
    using ndigits_le_iff [OF x(1), of q] by simp
  show ?thesis
  proof (cases "n mod d = 0")
    case False
    define q2 where "q2 = (if q mod 5 = 0 then Suc q else q)"
    have res: "fin_div x False c e False c' e' = dec_fix x False q2 g"
      using False \<open>0 < c\<close>
      by (simp add: fin_div_def Let_def shift_def [symmetric] n_def [symmetric] d_def [symmetric]
          q_def [symmetric] g_def [symmetric] q2_def)
    have same: "ndigits q2 = ndigits q"
    proof (cases "q mod 5 = 0")
      case True
      define k where "k = ndigits q"
      have "0 < k" by (simp add: k_def)
      then have "Suc q < 10 ^ k"
        using sticky_div [OF True] ndigits_upper [of q] unfolding k_def [symmetric]
        by (metis div_less div_eq_0_iff power_eq_0_iff zero_neq_numeral)
      then have "ndigits (Suc q) \<le> ndigits q"
        using \<open>0 < k\<close> by (simp add: ndigits_le_iff k_def)
      then show ?thesis
        using True ndigits_mono [of q "Suc q"] by (simp add: q2_def)
    qed (simp add: q2_def)
    have "q2 div 10 ^ (ndigits q - prec x) = q div 10 ^ (ndigits q - prec x)"
      using digits by (simp add: q2_def sticky_div)
    then have "dval (fin_div x False c e False c' e') =
        of_nat (q div 10 ^ (ndigits q - prec x)) * 10 powi (g + int (ndigits q - prec x))"
      using dec_fix_floor_nonneg [OF x, of q2 g] digits by (simp add: res same)
    then show ?thesis
      using grid_of_quotient [OF x(1) digits d q_def v] unfolding v_def by simp
  next
    case True
    obtain q' g' where sz: "strip_zeros q g (e - e') = (q', g')" by (cases "strip_zeros q g (e - e')")
    have res: "fin_div x False c e False c' e' = dec_fix x False q' g'"
      using True \<open>0 < c\<close> sz
      by (simp add: fin_div_def Let_def shift_def [symmetric] n_def [symmetric] d_def [symmetric]
          q_def [symmetric] g_def [symmetric])
    have "of_nat n / of_nat d = (of_nat q :: rat)"
    proof -
      have "n = q * d" using True by (simp add: q_def dvd_div_mult_self dvd_eq_mod_eq_0)
      then show ?thesis using d by simp
    qed
    then have v': "v = of_nat q' / of_nat 1 * 10 powi g'"
      using v strip_zeros_value [OF sz] by simp
    show ?thesis
    proof (cases "ndigits q' \<le> prec x")
      case True
      then show ?thesis
        using v' by (simp add: res dec_fix_exact on_grid_def v_def)
    next
      case False
      then have "dval (dec_fix x False q' g') =
          of_nat (q' div 10 ^ (ndigits q' - prec x)) * 10 powi (g' + int (ndigits q' - prec x))"
        using dec_fix_floor_nonneg [OF x] by simp
      then show ?thesis
        using grid_of_quotient [of "prec x" q' 1 q' v g'] x(1) False v' unfolding res v_def by simp
    qed
  qed
qed

lemma on_grid_le: "0 \<le> v \<Longrightarrow> on_grid p v w \<Longrightarrow> w \<le> v"
proof -
  assume "0 \<le> v" and "on_grid p v w"
  then consider "w = v" | h where "w = of_int \<lfloor>v / 10 powi h\<rfloor> * 10 powi h"
    unfolding on_grid_def by blast
  then show "w \<le> v"
  proof cases
    case 2
    have "of_int \<lfloor>v / 10 powi h\<rfloor> \<le> v / 10 powi h" by (rule of_int_floor_le)
    then show ?thesis using 2 by (simp add: le_divide_eq)
  qed simp
qed

lemma on_grid_floor: "0 \<le> v \<Longrightarrow> v < 10 ^ p \<Longrightarrow> on_grid p v w \<Longrightarrow> \<lfloor>w\<rfloor> = \<lfloor>v\<rfloor>"
proof -
  assume "0 \<le> v" and "v < 10 ^ p" and "on_grid p v w"
  then consider "w = v" | h where "w = of_int \<lfloor>v / 10 powi h\<rfloor> * 10 powi h" and "h \<le> 0"
    unfolding on_grid_def by force
  then show ?thesis
  proof cases
    case 2
    then have "(10::rat) powi h = 1 / 10 ^ nat (- h)"
      by (simp add: power_int_def inverse_eq_divide power_one_over)
    then show ?thesis using 2 floor_grid [of v "nat (- h)"] by simp
  qed simp
qed

end
