(* ===== verification/Common.thy ===== *)
theory Common
  imports Decimal_Division
begin

text \<open>
  \<open>app/domain/common\<close>: the enumerations every engine shares, the instrument-identity rule, the
  provenance label of financial facts, and the decimal helpers of \<open>arithmetic.py\<close>. Strings are lists
  of characters read as code points below 256. A \<open>datetime\<close> is a \<open>moment\<close>: naive, or aware with its
  instant in microseconds of UTC and its UTC offset in microseconds; aware moments are ordered and
  subtracted by their instants.
\<close>

section \<open>Time\<close>

datatype moment = Naive (instant: int) | Aware (instant: int) (offset: int)

definition is_aware :: "moment \<Rightarrow> bool" where
  "is_aware m = (case m of Naive _ \<Rightarrow> False | Aware _ _ \<Rightarrow> True)"

lemma is_aware_simps [simp]: "\<not> is_aware (Naive t)" "is_aware (Aware t d)"
  by (simp_all add: is_aware_def)

text \<open>A moment moved by a \<open>timedelta\<close>.\<close>

fun moment_add :: "moment \<Rightarrow> int \<Rightarrow> moment" where
  "moment_add (Naive t) d = Naive (t + d)"
| "moment_add (Aware t off) d = Aware (t + d) off"

definition minute :: int where
  "minute = 60 * 1000000"

section \<open>Enumerations (enums.py)\<close>

datatype Timeframe = M1 | M5 | M15 | M30 | H1 | H4 | D1

fun minutes :: "Timeframe \<Rightarrow> int" where
  "minutes M1 = 1"
| "minutes M5 = 5"
| "minutes M15 = 15"
| "minutes M30 = 30"
| "minutes H1 = 60"
| "minutes H4 = 240"
| "minutes D1 = 1440"

fun timeframe_value :: "Timeframe \<Rightarrow> string" where
  "timeframe_value M1 = ''1M''"
| "timeframe_value M5 = ''5M''"
| "timeframe_value M15 = ''15M''"
| "timeframe_value M30 = ''30M''"
| "timeframe_value H1 = ''1H''"
| "timeframe_value H4 = ''4H''"
| "timeframe_value D1 = ''1D''"

text \<open>\<open>timedelta(minutes=timeframe.minutes)\<close>.\<close>

definition duration_of :: "Timeframe \<Rightarrow> int" where
  "duration_of tf = minutes tf * minute"

datatype Direction = LONG | SHORT | NEUTRAL

fun direction_value :: "Direction \<Rightarrow> string" where
  "direction_value LONG = ''LONG''"
| "direction_value SHORT = ''SHORT''"
| "direction_value NEUTRAL = ''NEUTRAL''"

datatype DataSourcePriority =
    STRUCTURED_MARKET_DATA
  | USER_CONFIRMED
  | VALIDATED_CONTRACT_METADATA
  | SCREENSHOT_EXTRACTED
  | AI_VISUAL_INFERENCE

fun priority_value :: "DataSourcePriority \<Rightarrow> nat" where
  "priority_value STRUCTURED_MARKET_DATA = 1"
| "priority_value USER_CONFIRMED = 2"
| "priority_value VALIDATED_CONTRACT_METADATA = 3"
| "priority_value SCREENSHOT_EXTRACTED = 4"
| "priority_value AI_VISUAL_INFERENCE = 5"

definition wins_over :: "DataSourcePriority \<Rightarrow> DataSourcePriority \<Rightarrow> bool" where
  "wins_over a b = (priority_value a < priority_value b)"

text \<open>The library's linear order on timeframes, by duration.\<close>

instantiation Timeframe :: linorder
begin

definition less_eq_Timeframe :: "Timeframe \<Rightarrow> Timeframe \<Rightarrow> bool" where
  "less_eq_Timeframe a b = (minutes a \<le> minutes b)"

definition less_Timeframe :: "Timeframe \<Rightarrow> Timeframe \<Rightarrow> bool" where
  "less_Timeframe a b = (minutes a < minutes b)"

instance
proof
  fix x y :: Timeframe
  assume "x \<le> y" and "y \<le> x"
  then show "x = y" by (cases x; cases y) (simp_all add: less_eq_Timeframe_def)
qed (auto simp: less_eq_Timeframe_def less_Timeframe_def)

end

lemma minutes_pos [simp]: "0 < minutes tf"
  by (cases tf) simp_all

lemma duration_pos [simp]: "0 < duration_of tf"
  by (simp add: duration_of_def minute_def)

lemma timeframe_value_inj: "timeframe_value a = timeframe_value b \<longleftrightarrow> a = b"
  by (cases a; cases b) simp_all

section \<open>Instrument identity (identity.py)\<close>

text \<open>\<open>str.isspace\<close> on the code points below 256.\<close>

definition is_space :: "char \<Rightarrow> bool" where
  "is_space c =
     (let n = of_char c :: nat in (9 \<le> n \<and> n \<le> 13) \<or> (28 \<le> n \<and> n \<le> 32) \<or> n = 133 \<or> n = 160)"

definition strip :: "string \<Rightarrow> string" where
  "strip s = rev (dropWhile is_space (rev (dropWhile is_space s)))"

definition canonical_symbol :: "string \<Rightarrow> string" where
  "canonical_symbol s = strip s"

definition same_instrument :: "string \<Rightarrow> string \<Rightarrow> bool" where
  "same_instrument a b = (canonical_symbol a = canonical_symbol b)"

section \<open>Provenance (verification.py)\<close>

datatype VerificationStatus =
    VERIFIED_CURRENT_FACT
  | DEVELOPMENT_DEFAULT
  | TEST_FIXTURE
  | MOCK_DATA
  | UNVERIFIED_STATUS

definition status_is_authoritative :: "VerificationStatus \<Rightarrow> bool" where
  "status_is_authoritative s = (s = VERIFIED_CURRENT_FACT)"

record 'a VerifiedValue =
  vvalue :: 'a
  vstatus :: VerificationStatus
  vsource :: string
  vas_of :: "moment option"
  vnote :: "string option"

definition is_authoritative :: "'a VerifiedValue \<Rightarrow> bool" where
  "is_authoritative v = status_is_authoritative (vstatus v)"

definition require_authoritative :: "'a VerifiedValue \<Rightarrow> 'a res" where
  "require_authoritative v =
     (if is_authoritative v then Inr (vvalue v) else Inl UnverifiedFinancialFactError)"

definition unverified :: "string \<Rightarrow> string option \<Rightarrow> unit VerifiedValue" where
  "unverified src n =
     \<lparr>vvalue = (), vstatus = UNVERIFIED_STATUS, vsource = src, vas_of = None, vnote = n\<rparr>"

section \<open>Decimal helpers (arithmetic.py)\<close>

definition FINANCIAL_PRECISION :: nat where
  "FINANCIAL_PRECISION = 28"

definition ratio_context :: dec_context where
  "ratio_context = \<lparr>prec = FINANCIAL_PRECISION, rounding_mode = ROUND_HALF_EVEN\<rparr>"

definition floor_context :: dec_context where
  "floor_context = \<lparr>prec = FINANCIAL_PRECISION, rounding_mode = ROUND_FLOOR\<rparr>"

definition safe_ratio :: "dec \<Rightarrow> dec \<Rightarrow> dec option res" where
  "safe_ratio numerator denominator =
     (if dec_eq denominator dec_zero then Inr None
      else case dec_div ratio_context numerator denominator of
        Inr q \<Rightarrow> Inr (Some (dec_plus ratio_context q))
      | Inl e \<Rightarrow> if is_arithmetic_error e then Inr None else Inl e)"

definition floor_divide :: "dec \<Rightarrow> dec \<Rightarrow> int option res" where
  "floor_divide numerator denominator =
     (if dec_eq denominator dec_zero then Inr None
      else case rbind (dec_div floor_context numerator denominator) dec_floor_int of
        Inr k \<Rightarrow> Inr (Some k)
      | Inl e \<Rightarrow> if is_arithmetic_error e then Inr None else Inl e)"

definition normalise_zero :: "dec \<Rightarrow> dec res" where
  "normalise_zero v =
     (if dec_eq v dec_zero then dec_add default_context v dec_zero else Inr v)"

definition as_percent :: "dec option \<Rightarrow> dec option res" where
  "as_percent r =
     (case r of None \<Rightarrow> Inr None
      | Some q \<Rightarrow> rmap Some (dec_mul default_context q (dec_of_int 100)))"

section \<open>Lemmas\<close>

lemma signed_zero [simp]: "signed s 0 = 0"
  by simp

lemma contexts [simp]:
  "prec ratio_context = 28" "rounding_mode ratio_context = ROUND_HALF_EVEN"
  "prec floor_context = 28" "rounding_mode floor_context = ROUND_FLOOR"
  "prec default_context = 28" "rounding_mode default_context = ROUND_HALF_EVEN"
  by (simp_all add: ratio_context_def floor_context_def default_context_def
      FINANCIAL_PRECISION_def)

lemma dec_eq_zero_iff: "dec_eq d dec_zero \<longleftrightarrow> is_finite d \<and> dval d = 0"
  by (cases d) (simp_all add: dec_eq_iff dec_zero_def scaled_def)

lemma dec_div_raises_arithmetic: "dec_div x a b = Inl e \<Longrightarrow> is_arithmetic_error e"
  by (cases "(x, a, b)" rule: dec_div.cases) (auto split: if_splits)

text \<open>\<open>safe_ratio\<close> never raises: what its division can raise, its \<open>except\<close> clause catches.\<close>

lemma safe_ratio_total: "\<exists>r. safe_ratio a b = Inr r"
  by (auto simp: safe_ratio_def dec_div_raises_arithmetic split: sum.split)

lemma fin_div_zero: "dval (fin_div x s 0 e s' c' e') = 0"
  by (simp add: fin_div_def dec_fix_def Let_def round_coeff_def ndigits_small)

lemma dec_div_finite:
  assumes "is_finite a" and "is_finite b" and "dval b \<noteq> 0"
  obtains d where "dec_div x a b = Inr d" and "is_finite d"
proof -
  obtain s c e s' c' e' where ab: "a = DFin s c e" "b = DFin s' c' e'"
    using assms(1,2) by (metis is_finite.elims(2))
  then have "c' \<noteq> 0" using assms(3) by auto
  moreover have "is_finite (fin_div x s c e s' c' e')"
    by (simp add: fin_div_def Let_def split: prod.split)
  ultimately show ?thesis using that ab by simp
qed

lemma nonneg_fin:
  assumes "is_finite a" and "0 \<le> dval a"
  obtains (zero) s e where "a = DFin s 0 e" | (pos) c e where "a = DFin False c e" and "0 < c"
proof (cases a)
  case (DFin s c e)
  show ?thesis
  proof (cases "c = 0")
    case True
    with DFin zero show ?thesis by simp
  next
    case False
    then have "0 < of_nat c * (10::rat) powi e" by simp
    then have "\<not> s" using DFin assms(2) by (cases s) auto
    with DFin False pos show ?thesis by simp
  qed
qed (use assms(1) in simp_all)

lemma pos_fin:
  assumes "is_finite a" and "0 < dval a"
  obtains c e where "a = DFin False c e" and "0 < c"
proof -
  have "0 \<le> dval a" using assms(2) by simp
  with assms(1) show ?thesis
  proof (cases rule: nonneg_fin)
    case (zero s e)
    with assms(2) show ?thesis by simp
  next
    case (pos c e)
    with that show ?thesis .
  qed
qed

lemma floor_divide_bounds:
  assumes "is_finite n" and "is_finite d" and "0 \<le> dval n" and "0 < dval d"
  obtains k where "floor_divide n d = Inr (Some k)" and "0 \<le> k"
    and "of_int k * dval d \<le> dval n"
    and "dval n < 10 ^ 28 * dval d \<Longrightarrow> dval n < (of_int k + 1) * dval d"
proof -
  obtain c' e' where d: "d = DFin False c' e'" "0 < c'"
    using pos_fin [OF assms(2,4)] .
  from assms(1,3) show ?thesis
  proof (cases rule: nonneg_fin)
    case (zero s e)
    have "floor_divide n d = Inr (Some 0)"
      using d zero fin_div_zero [of floor_context s e False c' e']
      by (simp add: floor_divide_def dec_eq_zero_iff dec_floor_int_finite fin_div_def)
    then show ?thesis using that [of 0] zero assms(4) by simp
  next
    case (pos c e)
    define v where "v = dval n / dval d"
    define w where "w = dval (fin_div floor_context False c e False c' e')"
    have grid: "on_grid 28 v w"
      using fin_div_floor [of floor_context c c' e e'] pos d by (simp add: v_def w_def)
    have v0: "0 \<le> v" using assms(3,4) by (simp add: v_def)
    have "is_finite (fin_div floor_context False c e False c' e')"
      by (simp add: fin_div_def Let_def split: prod.split)
    then have res: "floor_divide n d = Inr (Some \<lfloor>w\<rfloor>)"
      using pos d by (simp add: floor_divide_def dec_eq_zero_iff dec_floor_int_finite w_def)
    have "0 \<le> w"
      using grid v0 by (auto simp: on_grid_def intro!: mult_nonneg_nonneg)
    moreover have "of_int \<lfloor>w\<rfloor> \<le> v"
      using on_grid_le [OF v0 grid] of_int_floor_le [of w] by linarith
    then have "of_int \<lfloor>w\<rfloor> * dval d \<le> dval n"
      using assms(4) by (simp add: v_def le_divide_eq)
    moreover have "dval n < (of_int \<lfloor>w\<rfloor> + 1) * dval d" if "dval n < 10 ^ 28 * dval d"
    proof -
      have "v < 10 ^ 28" using that assms(4) by (simp add: v_def divide_less_eq)
      then have "\<lfloor>w\<rfloor> = \<lfloor>v\<rfloor>" using on_grid_floor [OF v0 _ grid] by simp
      moreover have "v < of_int \<lfloor>v\<rfloor> + 1" by linarith
      ultimately show ?thesis using assms(4) by (simp add: v_def divide_less_eq)
    qed
    ultimately show ?thesis using that [of "\<lfloor>w\<rfloor>"] res by simp
  qed
qed

lemma normalise_zero_finite:
  assumes "is_finite v"
  obtains d where "normalise_zero v = Inr d" and "is_finite d" and "dval d = dval v"
proof (cases "dval v = 0")
  case True
  obtain d where d: "dec_add default_context v dec_zero = Inr d" "is_finite d"
    using dec_add_finite [OF assms, of dec_zero] by auto
  have "sgn (dval d) = 0"
    using dec_add_sgn [OF _ assms _ d(1)] True by simp
  then have "dval d = 0" by (simp add: sgn_0_0)
  then show ?thesis using that d True assms by (simp add: normalise_zero_def dec_eq_zero_iff)
next
  case False
  then show ?thesis using that assms by (simp add: normalise_zero_def dec_eq_zero_iff)
qed

lemma strip_idem [simp]: "strip (strip s) = strip s"
proof -
  have dd: "dropWhile P (rev (dropWhile P (rev (dropWhile P xs)))) = rev (dropWhile P (rev (dropWhile P xs)))"
    for P :: "char \<Rightarrow> bool" and xs
  proof (cases "dropWhile P xs")
    case (Cons y ys)
    then have "\<not> P y" by (simp add: dropWhile_eq_Cons_conv)
    then have "dropWhile P (rev ys @ [y]) = dropWhile P (rev ys) @ [y]"
      by (induction "rev ys" arbitrary: ys rule: list.induct) (simp_all add: dropWhile_append)
    then show ?thesis using Cons \<open>\<not> P y\<close> by simp
  next
    case Nil
    then show ?thesis by (simp only: rev.simps dropWhile.simps)
  qed
  show ?thesis unfolding strip_def by (simp add: dd)
qed

lemma canonical_symbol_idem [simp]: "canonical_symbol (canonical_symbol s) = canonical_symbol s"
  by (simp add: canonical_symbol_def)

lemma same_instrument_refl [simp]: "same_instrument s s"
  by (simp add: same_instrument_def)

lemma same_instrument_canonical [simp]:
  "same_instrument (canonical_symbol a) (canonical_symbol b) = same_instrument a b"
  by (simp add: same_instrument_def)

lemma wins_over_strict:
  "\<not> wins_over a a" "wins_over a b \<Longrightarrow> wins_over b c \<Longrightarrow> wins_over a c"
  "a \<noteq> b \<Longrightarrow> wins_over a b \<or> wins_over b a"
  by (auto simp: wins_over_def) (cases a; cases b; simp)

end
