(* ===== verification/Live_Validation.thy ===== *)
theory Live_Validation
  imports Common
begin

text \<open>
  \<open>app/domain/live/events.py\<close>, \<open>limits.py\<close>, \<open>validation.py\<close> and the \<open>Candle\<close> value object: what a
  provider may say, the bounds a stream is held to, and the single gate between a raw event and a
  stored observation. Every field of a raw event is an arbitrary Python object (\<open>PyObj\<close>). A
  rejection is its code; the human-readable detail is not modelled.
\<close>

section \<open>Candles and events\<close>

record Candle =
  bar_symbol :: string
  bar_timeframe :: Timeframe
  open_time :: moment
  bar_open :: dec
  bar_high :: dec
  bar_low :: dec
  bar_close :: dec
  bar_volume :: dec
  is_closed :: bool
  open_interest :: "dec option"

datatype StreamProvenance =
    SIMULATED_HISTORICAL_STREAM
  | REAL_EXCHANGE_LIVE
  | REAL_EXCHANGE_DELAYED
  | PROVIDER_HISTORICAL
  | UNVERIFIED_OR_USER_SUPPLIED

definition requires_grant :: "StreamProvenance \<Rightarrow> bool" where
  "requires_grant p =
     (p \<in> {REAL_EXCHANGE_LIVE, REAL_EXCHANGE_DELAYED, PROVIDER_HISTORICAL})"

datatype MarketCurrency = HISTORICAL | DELAYED | CURRENT

fun market_currency_of :: "StreamProvenance \<Rightarrow> MarketCurrency" where
  "market_currency_of SIMULATED_HISTORICAL_STREAM = HISTORICAL"
| "market_currency_of REAL_EXCHANGE_LIVE = CURRENT"
| "market_currency_of REAL_EXCHANGE_DELAYED = DELAYED"
| "market_currency_of PROVIDER_HISTORICAL = HISTORICAL"
| "market_currency_of UNVERIFIED_OR_USER_SUPPLIED = HISTORICAL"

record StreamKey =
  key_symbol :: string
  key_timeframe :: Timeframe

datatype PyObj =
    PyNone
  | PyStr string
  | PyBool bool
  | PyInt int
  | PyDecimal dec
  | PyDatetime moment
  | PyOther

record RawCandleEvent =
  raw_symbol :: PyObj
  raw_timeframe :: PyObj
  raw_open_time :: PyObj
  raw_open :: PyObj
  raw_high :: PyObj
  raw_low :: PyObj
  raw_close :: PyObj
  raw_volume :: PyObj
  raw_closed :: PyObj
  raw_event_time :: PyObj
  raw_sequence :: PyObj
  raw_published_at :: PyObj

datatype SignalKind = SIG_CONNECTED | SIG_DISCONNECTED | END_OF_STREAM | OVERFLOW

datatype StreamItem = EventItem RawCandleEvent | SignalItem SignalKind

record Observation =
  candle :: Candle
  event_time :: moment
  received_at :: moment
  sequence :: "int option"
  published_at :: "moment option"

definition same_values :: "Observation \<Rightarrow> Observation \<Rightarrow> bool" where
  "same_values x y =
     (let a = candle x; b = candle y in
      dec_eq (bar_open a) (bar_open b) \<and> dec_eq (bar_high a) (bar_high b)
      \<and> dec_eq (bar_low a) (bar_low b) \<and> dec_eq (bar_close a) (bar_close b)
      \<and> dec_eq (bar_volume a) (bar_volume b) \<and> is_closed a = is_closed b
      \<and> sequence x = sequence y)"

section \<open>Limits\<close>

record LiveLimits =
  max_closed_candles :: nat
  max_symbol_length :: nat
  max_price :: dec
  max_volume :: dec
  max_scale :: int
  max_missing_sequences :: nat
  max_recorded_issues :: nat
  max_reconnects :: nat
  max_clock_skew :: int

definition limits_ok :: "LiveLimits \<Rightarrow> bool" where
  "limits_ok l =
     (1 \<le> max_closed_candles l \<and> 1 \<le> max_symbol_length l \<and> 1 \<le> max_scale l
      \<and> 1 \<le> max_missing_sequences l \<and> 1 \<le> max_recorded_issues l \<and> 1 \<le> max_reconnects l)"

definition default_limits :: LiveLimits where
  "default_limits =
     \<lparr>max_closed_candles = 2500, max_symbol_length = 32,
      max_price = dec_of_int 1000000000, max_volume = dec_of_int 1000000000000000,
      max_scale = 10, max_missing_sequences = 500, max_recorded_issues = 200,
      max_reconnects = 20, max_clock_skew = 5 * 1000000\<rparr>"

definition make_limits :: "LiveLimits \<Rightarrow> LiveLimits res" where
  "make_limits l = (if limits_ok l then Inr l else Inl ValueError)"

section \<open>Validation\<close>

datatype RejectionCode =
    MALFORMED
  | NAIVE_TIMESTAMP
  | WRONG_STREAM
  | INVALID_SYMBOL
  | MISALIGNED_OPEN_TIME
  | NON_DECIMAL
  | NON_FINITE
  | NON_POSITIVE_PRICE
  | OUT_OF_BOUNDS
  | NEGATIVE_VOLUME
  | INCONSISTENT_OHLC
  | PREMATURE_CLOSE
  | FORMING_OUTSIDE_INTERVAL
  | FUTURE_EVENT
  | INVALID_SEQUENCE
  | ORDER_VIOLATION
  | LATE_UNSEQUENCED
  | MIXED_SEQUENCING
  | STALE_FORMING
  | NOT_CONNECTED

type_synonym 'a checked = "RejectionCode + 'a"

definition symbol_char :: "char \<Rightarrow> bool" where
  "symbol_char c =
     (let n = of_char c :: nat in
      (65 \<le> n \<and> n \<le> 90) \<or> (97 \<le> n \<and> n \<le> 122) \<or> (48 \<le> n \<and> n \<le> 57)
      \<or> c \<in> {CHR ''.'', CHR ''_'', CHR ''-''})"

text \<open>\<open>re.compile("^[A-Za-z0-9._-]+$").fullmatch\<close>.\<close>

definition symbol_matches :: "string \<Rightarrow> bool" where
  "symbol_matches s = (s \<noteq> [] \<and> list_all symbol_char s)"

definition aligned_timeframe :: "Timeframe \<Rightarrow> bool" where
  "aligned_timeframe tf = (tf \<in> {M1, M5, M15, M30, H1})"

definition on_interval_grid :: "moment \<Rightarrow> Timeframe \<Rightarrow> bool" where
  "on_interval_grid m tf =
     (if (instant m + offset m) mod minute \<noteq> 0 then False
      else (instant m div minute) mod minutes tf = 0)"

definition bounded_scale :: "dec \<Rightarrow> LiveLimits \<Rightarrow> bool" where
  "bounded_scale v l = (case v of DFin _ _ e \<Rightarrow> - e \<le> max_scale l | _ \<Rightarrow> False)"

definition checked_price :: "PyObj \<Rightarrow> LiveLimits \<Rightarrow> dec checked" where
  "checked_price value l =
     (case value of
        PyDecimal d \<Rightarrow>
          if \<not> is_finite d then Inl NON_FINITE
          else if dec_le d dec_zero then Inl NON_POSITIVE_PRICE
          else if dec_less (max_price l) d \<or> \<not> bounded_scale d l then Inl OUT_OF_BOUNDS
          else Inr d
      | _ \<Rightarrow> Inl NON_DECIMAL)"

definition checked_volume :: "PyObj \<Rightarrow> LiveLimits \<Rightarrow> dec checked" where
  "checked_volume value l =
     (case value of
        PyDecimal d \<Rightarrow>
          if \<not> is_finite d then Inl NON_FINITE
          else if dec_less d dec_zero then Inl NEGATIVE_VOLUME
          else if dec_less (max_volume l) d \<or> \<not> bounded_scale d l then Inl OUT_OF_BOUNDS
          else Inr d
      | _ \<Rightarrow> Inl NON_DECIMAL)"

definition checked_time :: "PyObj \<Rightarrow> moment checked" where
  "checked_time value =
     (case value of
        PyDatetime m \<Rightarrow> if is_aware m then Inr m else Inl NAIVE_TIMESTAMP
      | _ \<Rightarrow> Inl MALFORMED)"

definition checked_symbol :: "PyObj \<Rightarrow> PyObj \<Rightarrow> StreamKey \<Rightarrow> LiveLimits \<Rightarrow> unit checked" where
  "checked_symbol symbol tf k l =
     (case symbol of
        PyStr s \<Rightarrow>
          if max_symbol_length l < length s \<or> \<not> symbol_matches s then Inl INVALID_SYMBOL
          else if s \<noteq> key_symbol k then Inl WRONG_STREAM
          else if tf \<noteq> PyStr (timeframe_value (key_timeframe k)) then Inl WRONG_STREAM
          else Inr ()
      | _ \<Rightarrow> Inl MALFORMED)"

definition checked_published ::
  "PyObj \<Rightarrow> moment \<Rightarrow> moment \<Rightarrow> LiveLimits \<Rightarrow> moment option checked" where
  "checked_published value event received l =
     (if value = PyNone then Inr None
      else rbind (checked_time value) (\<lambda>p.
        if instant p < instant event - max_clock_skew l then Inl MALFORMED
        else if instant received + max_clock_skew l < instant p then Inl FUTURE_EVENT
        else Inr (Some p)))"

definition checked_sequence :: "PyObj \<Rightarrow> bool \<Rightarrow> int option checked" where
  "checked_sequence value was_closed =
     (case value of
        PyNone \<Rightarrow> Inr None
      | PyInt n \<Rightarrow> if n < 0 then Inl INVALID_SEQUENCE
                  else Inr (if was_closed then Some n else None)
      | _ \<Rightarrow> Inl INVALID_SEQUENCE)"

text \<open>The tests on the assembled values, from the OHLC test to the clock-skew test.\<close>

definition checked_shape ::
  "dec \<Rightarrow> dec \<Rightarrow> dec \<Rightarrow> dec \<Rightarrow> moment \<Rightarrow> moment \<Rightarrow> moment \<Rightarrow> bool \<Rightarrow> Timeframe \<Rightarrow> LiveLimits
     \<Rightarrow> unit checked" where
  "checked_shape op hi lo cl ot et received was_closed tf l =
     (if dec_less hi (dec_max (dec_max op cl) lo) \<or> dec_less (dec_min op cl) lo
      then Inl INCONSISTENT_OHLC
      else let fin = instant ot + duration_of tf in
        if was_closed \<and> instant et < fin then Inl PREMATURE_CLOSE
        else if \<not> was_closed \<and> \<not> (instant ot \<le> instant et \<and> instant et < fin)
        then Inl FORMING_OUTSIDE_INTERVAL
        else if instant received + max_clock_skew l < instant et then Inl FUTURE_EVENT
        else Inr ())"

definition validate_raw ::
  "RawCandleEvent \<Rightarrow> StreamKey \<Rightarrow> moment \<Rightarrow> LiveLimits \<Rightarrow> Observation checked" where
  "validate_raw raw k received l =
     rbind (checked_symbol (raw_symbol raw) (raw_timeframe raw) k l) (\<lambda>_.
     rbind (case raw_closed raw of PyBool b \<Rightarrow> Inr b | _ \<Rightarrow> Inl MALFORMED) (\<lambda>was_closed.
     rbind (checked_time (raw_open_time raw)) (\<lambda>ot.
     rbind (checked_time (raw_event_time raw)) (\<lambda>et.
     rbind (if aligned_timeframe (key_timeframe k) \<and> \<not> on_interval_grid ot (key_timeframe k)
            then Inl MISALIGNED_OPEN_TIME else Inr ()) (\<lambda>_.
     rbind (checked_price (raw_open raw) l) (\<lambda>op.
     rbind (checked_price (raw_high raw) l) (\<lambda>hi.
     rbind (checked_price (raw_low raw) l) (\<lambda>lo.
     rbind (checked_price (raw_close raw) l) (\<lambda>cl.
     rbind (checked_volume (raw_volume raw) l) (\<lambda>vol.
     rbind (checked_shape op hi lo cl ot et received was_closed (key_timeframe k) l) (\<lambda>_.
     rbind (checked_published (raw_published_at raw) et received l) (\<lambda>pub.
     rbind (checked_sequence (raw_sequence raw) was_closed) (\<lambda>sq.
       Inr \<lparr>candle =
              \<lparr>bar_symbol = key_symbol k, bar_timeframe = key_timeframe k, open_time = ot,
               bar_open = op, bar_high = hi, bar_low = lo, bar_close = cl, bar_volume = vol,
               is_closed = was_closed, open_interest = None\<rparr>,
            event_time = et, received_at = received, sequence = sq,
            published_at = pub\<rparr>)))))))))))))"

text \<open>\<open>validate\<close> itself raises on a receive time without a timezone.\<close>

definition validate ::
  "RawCandleEvent \<Rightarrow> StreamKey \<Rightarrow> moment \<Rightarrow> LiveLimits \<Rightarrow> Observation checked res" where
  "validate raw k received l =
     (if \<not> is_aware received then Inl ValueError else Inr (validate_raw raw k received l))"

section \<open>What validation guarantees\<close>

text \<open>A candle every check has passed: the shape an analysis may rely on.\<close>

definition candle_sound :: "LiveLimits \<Rightarrow> Candle \<Rightarrow> bool" where
  "candle_sound l c =
     (list_all (\<lambda>p. is_finite p \<and> dec_less dec_zero p \<and> dec_le p (max_price l))
        [bar_open c, bar_high c, bar_low c, bar_close c]
      \<and> is_finite (bar_volume c) \<and> dec_le dec_zero (bar_volume c)
      \<and> dec_le (bar_low c) (bar_open c) \<and> dec_le (bar_low c) (bar_close c)
      \<and> dec_le (bar_open c) (bar_high c) \<and> dec_le (bar_close c) (bar_high c)
      \<and> dec_le (bar_low c) (bar_high c) \<and> is_aware (open_time c))"

definition observation_sound :: "StreamKey \<Rightarrow> LiveLimits \<Rightarrow> moment \<Rightarrow> Observation \<Rightarrow> bool" where
  "observation_sound k l received o1 =
     (candle_sound l (candle o1) \<and> bar_symbol (candle o1) = key_symbol k
      \<and> bar_timeframe (candle o1) = key_timeframe k \<and> received_at o1 = received
      \<and> is_aware (event_time o1)
      \<and> instant (event_time o1) \<le> instant received + max_clock_skew l
      \<and> (let ot = instant (open_time (candle o1)); fin = ot + duration_of (key_timeframe k) in
         if is_closed (candle o1) then fin \<le> instant (event_time o1)
         else ot \<le> instant (event_time o1) \<and> instant (event_time o1) < fin
              \<and> sequence o1 = None)
      \<and> (case sequence o1 of None \<Rightarrow> True | Some n \<Rightarrow> 0 \<le> n))"

definition limits_finite :: "LiveLimits \<Rightarrow> bool" where
  "limits_finite l = (is_finite (max_price l) \<and> is_finite (max_volume l))"

lemma checked_price_sound:
  assumes "limits_finite l" and "checked_price v l = Inr d"
  shows "is_finite d \<and> dec_less dec_zero d \<and> dec_le d (max_price l)"
  using assms
  by (auto simp: checked_price_def limits_finite_def dec_le_iff dec_less_iff
      split: PyObj.splits if_splits)

lemma checked_volume_sound:
  assumes "limits_finite l" and "checked_volume v l = Inr d"
  shows "is_finite d \<and> dec_le dec_zero d"
  using assms
  by (auto simp: checked_volume_def limits_finite_def dec_le_iff dec_less_iff
      split: PyObj.splits if_splits)

lemma checked_time_sound: "checked_time v = Inr m \<Longrightarrow> is_aware m"
  by (auto simp: checked_time_def split: PyObj.splits if_splits)

lemma checked_sequence_sound:
  "checked_sequence v was_closed = Inr sq \<Longrightarrow>
     (case sq of None \<Rightarrow> True | Some n \<Rightarrow> 0 \<le> n) \<and> (\<not> was_closed \<longrightarrow> sq = None)"
  by (auto simp: checked_sequence_def split: PyObj.splits if_splits)

lemma checked_shape_sound:
  assumes "checked_shape op hi lo cl ot et r was_closed tf l = Inr u"
    and "is_finite op" "is_finite hi" "is_finite lo" "is_finite cl"
  shows "dec_le lo op \<and> dec_le lo cl \<and> dec_le op hi \<and> dec_le cl hi \<and> dec_le lo hi"
    and "instant et \<le> instant r + max_clock_skew l"
    and "if was_closed then instant ot + duration_of tf \<le> instant et
      else instant ot \<le> instant et \<and> instant et < instant ot + duration_of tf"
  using assms
  by (auto simp: checked_shape_def Let_def dec_le_iff dec_less_iff dec_max_finite dec_min_finite
      dval_max dval_min split: if_splits)

lemma validate_raw_sound:
  assumes lim: "limits_finite l" and ok: "validate_raw raw k r l = Inr o1"
  shows "observation_sound k l r o1"
proof -
  from ok obtain was_closed ot et op hi lo cl vol pub sq where
    t: "checked_time (raw_open_time raw) = Inr ot" "checked_time (raw_event_time raw) = Inr et"
    and p: "checked_price (raw_open raw) l = Inr op" "checked_price (raw_high raw) l = Inr hi"
      "checked_price (raw_low raw) l = Inr lo" "checked_price (raw_close raw) l = Inr cl"
    and v: "checked_volume (raw_volume raw) l = Inr vol"
    and sh: "checked_shape op hi lo cl ot et r was_closed (key_timeframe k) l = Inr ()"
    and s: "checked_sequence (raw_sequence raw) was_closed = Inr sq"
    and o1: "o1 = \<lparr>candle = \<lparr>bar_symbol = key_symbol k, bar_timeframe = key_timeframe k,
               open_time = ot, bar_open = op, bar_high = hi, bar_low = lo, bar_close = cl,
               bar_volume = vol, is_closed = was_closed, open_interest = None\<rparr>,
            event_time = et, received_at = r, sequence = sq, published_at = pub\<rparr>"
    unfolding validate_raw_def by (auto simp: res_simps)
  note ps = p [THEN checked_price_sound [OF lim]]
  show ?thesis
    using ps checked_volume_sound [OF lim v] checked_sequence_sound [OF s]
      checked_shape_sound [OF sh] t [THEN checked_time_sound]
    unfolding observation_sound_def candle_sound_def o1 by (simp add: Let_def split: if_splits)
qed

end
