(* ===== verification/Live_Book.thy ===== *)
theory Live_Book
  imports Live_Validation
begin

text \<open>
  \<open>app/domain/live/book.py\<close>: one timeframe's candles and what is known about their completeness.
  The state of \<open>CandleBook\<close> is a record with a field per attribute; every method is a function on
  it. Times are the instants of the candles' open times; \<open>_missing\<close> is the set of recorded lost
  numbers; \<open>_conflicts\<close>, a dict keyed by open time, is an association list in insertion order.
  The proofs about this model are in \<open>Live_Book_Inv\<close>.
\<close>

section \<open>State\<close>

datatype ApplyOutcome = ACCEPTED | LATE_FILL | FORMING_UPDATED | DUPLICATE | CONFLICT

datatype Integrity = COMPLETE | GAPPED | DISCONTINUOUS | CONFLICTED | UNVERIFIED

datatype DiscontinuityKind = TEMPORAL_GAP | SEQUENCE_MISMATCH

record Discontinuity =
  d_after :: int
  d_before :: int
  d_kind :: DiscontinuityKind

record Conflict =
  conflict_open_time :: int
  first_seen_at :: moment

record CandleBook =
  b_timeframe :: Timeframe
  b_limits :: LiveLimits
  b_closed :: "Observation list"
  b_times :: "int list"
  b_forming :: "Observation option"
  b_sequenced :: "bool option"
  b_last_sequence :: "int option"
  b_missing :: "int set"
  b_missing_overflowed :: bool
  b_unenumerated_through :: "int option"
  b_discontinuities :: "Discontinuity list"
  b_conflicts :: "(int \<times> Conflict) list"
  b_awaiting_continuity :: bool
  b_trimmed :: nat
  b_unresolved_trimmed :: nat
  b_duplicates :: nat
  b_late_fills :: nat
  b_version :: nat
  b_last_event_time :: "moment option"
  b_last_received_at :: "moment option"

definition new_book :: "Timeframe \<Rightarrow> LiveLimits \<Rightarrow> CandleBook" where
  "new_book tf l =
     \<lparr>b_timeframe = tf, b_limits = l, b_closed = [], b_times = [], b_forming = None,
      b_sequenced = None, b_last_sequence = None, b_missing = {}, b_missing_overflowed = False,
      b_unenumerated_through = None, b_discontinuities = [], b_conflicts = [],
      b_awaiting_continuity = False, b_trimmed = 0, b_unresolved_trimmed = 0, b_duplicates = 0,
      b_late_fills = 0, b_version = 0, b_last_event_time = None, b_last_received_at = None\<rparr>"

section \<open>Reading\<close>

definition interval :: "CandleBook \<Rightarrow> int" where
  "interval b = duration_of (b_timeframe b)"

definition confirmed :: "CandleBook \<Rightarrow> Observation list" where
  "confirmed b = b_closed b"

definition otime :: "Observation \<Rightarrow> int" where
  "otime o1 = instant (open_time (candle o1))"

definition forming_ahead :: "CandleBook \<Rightarrow> bool" where
  "forming_ahead b =
     (case b_forming b of None \<Rightarrow> False
      | Some f \<Rightarrow> b_times b \<noteq> [] \<and> last (b_times b) + interval b < otime f)"

definition integrity :: "CandleBook \<Rightarrow> Integrity" where
  "integrity b =
     (if b_conflicts b \<noteq> [] then CONFLICTED
      else if b_missing b \<noteq> {} \<or> b_missing_overflowed b then GAPPED
      else if b_discontinuities b \<noteq> [] then DISCONTINUOUS
      else if b_awaiting_continuity b \<or> forming_ahead b then UNVERIFIED
      else COMPLETE)"

record BookStatus =
  st_timeframe :: Timeframe
  st_integrity :: Integrity
  st_closed_count :: nat
  st_trimmed :: nat
  st_first_closed_open_time :: "int option"
  st_last_closed_open_time :: "int option"
  st_last_sequence :: "int option"
  st_forming_open_time :: "int option"
  st_last_event_time :: "moment option"
  st_last_received_at :: "moment option"
  st_missing_sequences :: nat
  st_missing_overflowed :: bool
  st_discontinuities :: nat
  st_temporal_gaps :: nat
  st_sequence_mismatches :: nat
  st_conflicts :: nat
  st_awaiting_continuity :: bool
  st_forming_ahead :: bool
  st_unresolved_trimmed :: nat
  st_duplicates :: nat
  st_late_fills :: nat
  st_version :: nat

definition status :: "CandleBook \<Rightarrow> BookStatus" where
  "status b =
     (let kinds = map d_kind (b_discontinuities b) in
     \<lparr>st_timeframe = b_timeframe b, st_integrity = integrity b,
      st_closed_count = length (b_closed b), st_trimmed = b_trimmed b,
      st_first_closed_open_time = (if b_times b = [] then None else Some (hd (b_times b))),
      st_last_closed_open_time = (if b_times b = [] then None else Some (last (b_times b))),
      st_last_sequence = b_last_sequence b,
      st_forming_open_time = map_option otime (b_forming b),
      st_last_event_time = b_last_event_time b, st_last_received_at = b_last_received_at b,
      st_missing_sequences = card (b_missing b),
      st_missing_overflowed = b_missing_overflowed b,
      st_discontinuities = length (b_discontinuities b),
      st_temporal_gaps = count_list kinds TEMPORAL_GAP,
      st_sequence_mismatches = count_list kinds SEQUENCE_MISMATCH,
      st_conflicts = length (b_conflicts b),
      st_awaiting_continuity = b_awaiting_continuity b, st_forming_ahead = forming_ahead b,
      st_unresolved_trimmed = b_unresolved_trimmed b, st_duplicates = b_duplicates b,
      st_late_fills = b_late_fills b, st_version = b_version b\<rparr>)"

section \<open>Connection events\<close>

definition mark_disconnected :: "CandleBook \<Rightarrow> CandleBook" where
  "mark_disconnected b = b\<lparr>b_forming := None, b_awaiting_continuity := True\<rparr>"

section \<open>Helpers\<close>

text \<open>\<open>bisect.bisect_left\<close>, the binary search of the standard library.\<close>

function bisect_from :: "int list \<Rightarrow> int \<Rightarrow> nat \<Rightarrow> nat \<Rightarrow> nat" where
  "bisect_from xs x lo hi =
     (if lo < hi
      then let mid = (lo + hi) div 2 in
        if xs ! mid < x then bisect_from xs x (Suc mid) hi else bisect_from xs x lo mid
      else lo)"
  by pat_completeness auto
termination
  by (relation "measure (\<lambda>(xs, x, lo, hi). hi - lo)") auto

declare bisect_from.simps [simp del]

definition bisect_left :: "int list \<Rightarrow> int \<Rightarrow> nat" where
  "bisect_left xs x = bisect_from xs x 0 (length xs)"

definition insert_at :: "nat \<Rightarrow> 'a \<Rightarrow> 'a list \<Rightarrow> 'a list" where
  "insert_at n x xs = take n xs @ x # drop n xs"

definition index_of :: "CandleBook \<Rightarrow> int \<Rightarrow> nat option" where
  "index_of b t =
     (let p = bisect_left (b_times b) t in
      if p < length (b_times b) \<and> b_times b ! p = t then Some p else None)"

text \<open>The \<open>assert\<close> of \<open>_sequence_at\<close> never fails on a sequenced book (\<open>Live_Book_Inv\<close>).\<close>

definition seq_of :: "Observation \<Rightarrow> int" where
  "seq_of o1 = (case sequence o1 of Some n \<Rightarrow> n | None \<Rightarrow> 0)"

definition sequence_at :: "CandleBook \<Rightarrow> nat \<Rightarrow> int" where
  "sequence_at b i = seq_of (b_closed b ! i)"

definition record_discontinuity ::
  "CandleBook \<Rightarrow> int \<Rightarrow> DiscontinuityKind \<Rightarrow> CandleBook" where
  "record_discontinuity b t kind =
     b\<lparr>b_discontinuities :=
        push_bounded (max_recorded_issues (b_limits b)) (b_discontinuities b)
          \<lparr>d_after = last (b_times b), d_before = t, d_kind = kind\<rparr>\<rparr>"

definition append_candle :: "CandleBook \<Rightarrow> Observation \<Rightarrow> CandleBook" where
  "append_candle b o1 =
     b\<lparr>b_closed := b_closed b @ [o1], b_times := b_times b @ [otime o1]\<rparr>"

text \<open>\<open>_record_missing(range(lo, hi))\<close>, called with \<open>lo < hi\<close>.\<close>

definition record_missing :: "CandleBook \<Rightarrow> int \<Rightarrow> int \<Rightarrow> CandleBook" where
  "record_missing b lo hi =
     (let room = max_missing_sequences (b_limits b) - card (b_missing b);
          count = nat (hi - lo);
          b1 = (if room < count
                then b\<lparr>b_missing_overflowed := True,
                       b_unenumerated_through :=
                         (case b_unenumerated_through b of
                            None \<Rightarrow> Some (hi - 1)
                          | Some c \<Rightarrow> Some (max (hi - 1) c))\<rparr>
                else b)
      in b1\<lparr>b_missing := b_missing b \<union> {lo ..< lo + int (min room count)}\<rparr>)"

definition touch :: "CandleBook \<Rightarrow> Observation \<Rightarrow> CandleBook" where
  "touch b o1 =
     b\<lparr>b_last_received_at := Some (received_at o1),
       b_last_event_time :=
         (case b_last_event_time b of
            None \<Rightarrow> Some (event_time o1)
          | Some t \<Rightarrow> if instant t < instant (event_time o1) then Some (event_time o1) else Some t)\<rparr>"

section \<open>Trimming\<close>

definition trim_oldest :: "CandleBook \<Rightarrow> CandleBook" where
  "trim_oldest b =
     (let t = otime (hd (b_closed b));
          kept = filter (\<lambda>(k, _). k \<noteq> t) (b_conflicts b)
      in b\<lparr>b_closed := tl (b_closed b), b_times := tl (b_times b), b_trimmed := Suc (b_trimmed b),
           b_conflicts := kept,
           b_unresolved_trimmed :=
             b_unresolved_trimmed b + (if map_of (b_conflicts b) t = None then 0 else 1)\<rparr>)"

function trim_excess :: "CandleBook \<Rightarrow> CandleBook" where
  "trim_excess b =
     (if max_closed_candles (b_limits b) < length (b_closed b)
      then trim_excess (trim_oldest b) else b)"
  by pat_completeness auto
termination
proof (relation "measure (\<lambda>b. length (b_closed b))")
  fix b :: CandleBook
  assume "max_closed_candles (b_limits b) < length (b_closed b)"
  then show "(trim_oldest b, b) \<in> measure (\<lambda>b. length (b_closed b))"
    by (cases "b_closed b") (simp_all add: trim_oldest_def Let_def)
qed simp

declare trim_excess.simps [simp del]

definition retire_discontinuities :: "CandleBook \<Rightarrow> CandleBook" where
  "retire_discontinuities b =
     (let kept = dropWhile (\<lambda>d. d_before d \<le> hd (b_times b)) (b_discontinuities b) in
      b\<lparr>b_discontinuities := kept,
        b_unresolved_trimmed :=
          b_unresolved_trimmed b + (length (b_discontinuities b) - length kept)\<rparr>)"

definition retire_missing :: "CandleBook \<Rightarrow> CandleBook" where
  "retire_missing b =
     (case (b_sequenced b, sequence (hd (b_closed b))) of
        (Some True, Some flr) \<Rightarrow>
          (let kept = {n \<in> b_missing b. flr < n};
               b1 = b\<lparr>b_missing := kept,
                      b_unresolved_trimmed :=
                        b_unresolved_trimmed b + (card (b_missing b) - card kept)\<rparr>
           in case b_unenumerated_through b of
                Some reach \<Rightarrow>
                  if b_missing_overflowed b \<and> reach \<le> flr
                  then b1\<lparr>b_missing_overflowed := False, b_unenumerated_through := None,
                          b_unresolved_trimmed := Suc (b_unresolved_trimmed b1)\<rparr>
                  else b1
              | None \<Rightarrow> b1)
      | _ \<Rightarrow> b)"

definition trim :: "CandleBook \<Rightarrow> CandleBook" where
  "trim b =
     (let b1 = trim_excess b in
      if b_closed b1 = [] then b1 else retire_missing (retire_discontinuities b1))"

section \<open>Applying observations\<close>

definition check_coverage :: "CandleBook \<Rightarrow> int \<Rightarrow> int \<Rightarrow> CandleBook" where
  "check_coverage b t step =
     (let diff = t - last (b_times b);
          slots = diff div interval b; remainder = diff mod interval b
      in if remainder = 0 \<and> slots = step
         then (if 1 < step
               then (case b_last_sequence b of
                       Some l \<Rightarrow> record_missing b (l + 1) (l + step)
                     | None \<Rightarrow> b)
               else b)
         else record_discontinuity b t
                (if remainder = 0 \<and> slots < step then SEQUENCE_MISMATCH else TEMPORAL_GAP))"

definition place_sequenced ::
  "CandleBook \<Rightarrow> Observation \<Rightarrow> int \<Rightarrow> CandleBook \<times> ApplyOutcome checked" where
  "place_sequenced b o1 n =
     (let t = otime o1 in
      if (case b_last_sequence b of None \<Rightarrow> True | Some l \<Rightarrow> l < n)
      then (if b_times b \<noteq> [] \<and> t \<le> last (b_times b) then (b, Inl ORDER_VIOLATION)
            else
              let b1 = (case b_last_sequence b of
                          Some l \<Rightarrow> if b_times b \<noteq> [] then check_coverage b t (n - l) else b
                        | None \<Rightarrow> b)
              in ((append_candle b1 o1)\<lparr>b_last_sequence := Some n\<rparr>, Inr ACCEPTED))
      else if n \<in> b_missing b
      then (let p = bisect_left (b_times b) t;
                before_ok = (p = 0 \<or> sequence_at b (p - 1) < n);
                after_ok = (p = length (b_closed b) \<or> n < sequence_at b p);
                exact = (p = 0 \<or>
                         t = b_times b ! (p - 1) + interval b * (n - sequence_at b (p - 1)))
            in if \<not> (before_ok \<and> after_ok \<and> exact) then (b, Inl ORDER_VIOLATION)
               else (b\<lparr>b_closed := insert_at p o1 (b_closed b),
                       b_times := insert_at p t (b_times b),
                       b_missing := b_missing b - {n},
                       b_late_fills := Suc (b_late_fills b)\<rparr>, Inr LATE_FILL))
      else (b, Inl ORDER_VIOLATION))"

definition place_unsequenced ::
  "CandleBook \<Rightarrow> Observation \<Rightarrow> CandleBook \<times> ApplyOutcome checked" where
  "place_unsequenced b o1 =
     (let t = otime o1 in
      if b_times b \<noteq> [] \<and> t < last (b_times b) then (b, Inl LATE_UNSEQUENCED)
      else
        let b1 = (if b_times b \<noteq> [] \<and> t \<noteq> last (b_times b) + interval b
                  then record_discontinuity b t TEMPORAL_GAP else b)
        in (append_candle b1 o1, Inr ACCEPTED))"

definition place :: "CandleBook \<Rightarrow> Observation \<Rightarrow> CandleBook \<times> ApplyOutcome checked" where
  "place b o1 =
     (case sequence o1 of
        Some n \<Rightarrow> place_sequenced b o1 n
      | None \<Rightarrow> place_unsequenced b o1)"

text \<open>What \<open>_apply_closed\<close> does after a successful placement.\<close>

definition settle :: "CandleBook \<Rightarrow> Observation \<Rightarrow> ApplyOutcome \<Rightarrow> CandleBook" where
  "settle b o1 outcome =
     (let b1 = (case b_forming b of
                  Some f \<Rightarrow> if otime f \<le> otime o1 then b\<lparr>b_forming := None\<rparr> else b
                | None \<Rightarrow> b);
          b2 = (if outcome = ACCEPTED then b1\<lparr>b_awaiting_continuity := False\<rparr> else b1);
          b3 = touch b2 o1
      in trim (b3\<lparr>b_version := Suc (b_version b3)\<rparr>))"

definition repeat_closed ::
  "CandleBook \<Rightarrow> Observation \<Rightarrow> nat \<Rightarrow> CandleBook \<times> ApplyOutcome checked" where
  "repeat_closed b o1 i =
     (if same_values (b_closed b ! i) o1
      then (b\<lparr>b_duplicates := Suc (b_duplicates b)\<rparr>, Inr DUPLICATE)
      else (if map_of (b_conflicts b) (otime o1) = None
            then b\<lparr>b_conflicts := b_conflicts b @
                     [(otime o1, \<lparr>conflict_open_time = otime o1,
                                  first_seen_at = received_at o1\<rparr>)]\<rparr>
            else b, Inr CONFLICT))"

definition apply_closed :: "CandleBook \<Rightarrow> Observation \<Rightarrow> CandleBook \<times> ApplyOutcome checked" where
  "apply_closed b o1 =
     (case index_of b (otime o1) of
        Some i \<Rightarrow> repeat_closed b o1 i
      | None \<Rightarrow>
          (let seqd = (sequence o1 \<noteq> None) in
           if (case b_sequenced b of None \<Rightarrow> False | Some m \<Rightarrow> m \<noteq> seqd)
           then (b, Inl MIXED_SEQUENCING)
           else (case place (b\<lparr>b_sequenced := Some seqd\<rparr>) o1 of
                   (b1, Inl r) \<Rightarrow> (b1, Inl r)
                 | (b1, Inr outcome) \<Rightarrow> (settle b1 o1 outcome, Inr outcome))))"

definition apply_forming :: "CandleBook \<Rightarrow> Observation \<Rightarrow> CandleBook \<times> ApplyOutcome checked" where
  "apply_forming b o1 =
     (if b_times b \<noteq> [] \<and> otime o1 \<le> last (b_times b) then (b, Inl STALE_FORMING)
      else (touch (b\<lparr>b_forming := Some o1\<rparr>) o1, Inr FORMING_UPDATED))"

definition apply_obs :: "CandleBook \<Rightarrow> Observation \<Rightarrow> (CandleBook \<times> ApplyOutcome checked) res" where
  "apply_obs b o1 =
     (if bar_timeframe (candle o1) \<noteq> b_timeframe b then Inl ValueError
      else if is_closed (candle o1) then Inr (apply_closed b o1)
      else Inr (apply_forming b o1))"

end
