(* ===== verification/Live_Book_Inv.thy ===== *)
theory Live_Book_Inv
  imports Live_Book
begin

text \<open>
  The invariant of \<open>CandleBook\<close> and what follows from it. The heart is \<open>pair_ok\<close>: every two
  neighbours of the retained window are exactly one interval apart (and one sequence number apart,
  on a sequenced stream), or the numbers between them are recorded as lost, or a discontinuity
  record that will outlive them holds the book discontinuous. So a book that reports \<open>COMPLETE\<close>
  has a gapless window, which is the claim the module's documentation makes.
\<close>

section \<open>The binary search\<close>

lemma bisect_from_bounds:
  "lo \<le> hi \<Longrightarrow> lo \<le> bisect_from xs x lo hi \<and> bisect_from xs x lo hi \<le> hi"
proof (induction xs x lo hi rule: bisect_from.induct)
  case (1 xs x lo hi)
  show ?case
  proof (cases "lo < hi")
    case True
    define mid where "mid = (lo + hi) div 2"
    have mid: "lo \<le> mid" "mid < hi" using True by (auto simp: mid_def)
    show ?thesis
    proof (cases "xs ! mid < x")
      case less: True
      with 1(1) True mid have "Suc mid \<le> bisect_from xs x (Suc mid) hi
          \<and> bisect_from xs x (Suc mid) hi \<le> hi" by (simp add: mid_def)
      with True less mid show ?thesis
        by (simp add: bisect_from.simps [of xs x lo hi] mid_def [symmetric])
    next
      case False
      with 1(2) True mid have "lo \<le> bisect_from xs x lo mid \<and> bisect_from xs x lo mid \<le> mid"
        by (simp add: mid_def)
      with True False mid show ?thesis
        by (simp add: bisect_from.simps [of xs x lo hi] mid_def [symmetric])
    qed
  next
    case False
    then have "bisect_from xs x lo hi = lo" by (subst bisect_from.simps) simp
    with "1.prems" False show ?thesis by simp
  qed
qed

text \<open>The loop's invariant: everything left of \<open>lo\<close> is smaller, everything from \<open>hi\<close> on is not.\<close>

lemma bisect_from_correct:
  assumes "sorted xs" and "hi \<le> length xs" and "lo \<le> hi"
    and "\<forall>i<lo. xs ! i < x" and "\<forall>i. hi \<le> i \<and> i < length xs \<longrightarrow> x \<le> xs ! i"
  shows "(\<forall>i < bisect_from xs x lo hi. xs ! i < x) \<and>
    (\<forall>i. bisect_from xs x lo hi \<le> i \<and> i < length xs \<longrightarrow> x \<le> xs ! i)"
  using assms
proof (induction xs x lo hi rule: bisect_from.induct)
  case (1 xs x lo hi)
  show ?case
  proof (cases "lo < hi")
    case True
    define mid where "mid = (lo + hi) div 2"
    have mid: "lo \<le> mid" "mid < hi" using True by (auto simp: mid_def)
    show ?thesis
    proof (cases "xs ! mid < x")
      case less: True
      have "\<forall>i<Suc mid. xs ! i < x"
      proof (intro allI impI)
        fix i assume "i < Suc mid"
        then have "xs ! i \<le> xs ! mid"
          using "1.prems"(1,2) mid by (intro sorted_nth_mono) simp_all
        with less show "xs ! i < x" by simp
      qed
      with 1(1) "1.prems" True less mid show ?thesis
        by (simp add: bisect_from.simps [of xs x lo hi] mid_def [symmetric])
    next
      case False
      have "\<forall>i. mid \<le> i \<and> i < length xs \<longrightarrow> x \<le> xs ! i"
      proof (intro allI impI)
        fix i assume "mid \<le> i \<and> i < length xs"
        then have "xs ! mid \<le> xs ! i"
          using "1.prems"(1) by (intro sorted_nth_mono) simp_all
        with False show "x \<le> xs ! i" by simp
      qed
      with 1(2) "1.prems" True False mid show ?thesis
        by (simp add: bisect_from.simps [of xs x lo hi] mid_def [symmetric])
    qed
  next
    case False
    then have "bisect_from xs x lo hi = lo" by (subst bisect_from.simps) simp
    with "1.prems" False show ?thesis by simp
  qed
qed

lemma bisect_left_bounds: "bisect_left xs x \<le> length xs"
  using bisect_from_bounds [of 0 "length xs" xs x] by (simp add: bisect_left_def)

lemma bisect_left_correct:
  assumes "sorted xs"
  shows "i < bisect_left xs x \<Longrightarrow> xs ! i < x"
    and "bisect_left xs x \<le> i \<Longrightarrow> i < length xs \<Longrightarrow> x \<le> xs ! i"
  using bisect_from_correct [OF assms, of "length xs" 0 x] by (auto simp: bisect_left_def)

lemma index_of_Some:
  assumes "sorted_wrt (<) (b_times b)"
  shows "index_of b t = Some i \<Longrightarrow> i < length (b_times b) \<and> b_times b ! i = t"
    and "index_of b t = None \<Longrightarrow> t \<notin> set (b_times b)"
proof -
  show "index_of b t = Some i \<Longrightarrow> i < length (b_times b) \<and> b_times b ! i = t"
    by (auto simp: index_of_def Let_def split: if_splits)
  assume none: "index_of b t = None"
  show "t \<notin> set (b_times b)"
  proof
    assume "t \<in> set (b_times b)"
    then obtain j where j: "j < length (b_times b)" "b_times b ! j = t"
      by (auto simp: in_set_conv_nth)
    let ?p = "bisect_left (b_times b) t"
    have srt: "sorted (b_times b)" using assms by (rule strict_sorted_imp_sorted)
    have "?p \<le> j" using bisect_left_correct(1) [OF srt, of j t] j by (meson linorder_not_le order.irrefl)
    then have "b_times b ! ?p \<le> t" "?p < length (b_times b)"
      using sorted_nth_mono [OF srt, of ?p j] j by auto
    moreover have "t \<le> b_times b ! ?p"
      using bisect_left_correct(2) [OF srt, of t ?p] calculation by simp
    ultimately show False using none by (simp add: index_of_def Let_def split: if_splits)
  qed
qed

section \<open>Lists\<close>

lemma insert_at_pair:
  assumes "0 < p" and "p < length xs"
  shows "xs = take (p - 1) xs @ xs ! (p - 1) # xs ! p # drop (Suc p) xs"
    and "insert_at p x xs = take (p - 1) xs @ xs ! (p - 1) # x # xs ! p # drop (Suc p) xs"
proof -
  have a: "take p xs = take (p - 1) xs @ [xs ! (p - 1)]"
    using assms take_Suc_conv_app_nth [of "p - 1" xs] by simp
  have b: "drop p xs = xs ! p # drop (Suc p) xs"
    using assms by (simp add: Cons_nth_drop_Suc)
  show "xs = take (p - 1) xs @ xs ! (p - 1) # xs ! p # drop (Suc p) xs"
    using append_take_drop_id [of p xs] unfolding a b by simp
  show "insert_at p x xs = take (p - 1) xs @ xs ! (p - 1) # x # xs ! p # drop (Suc p) xs"
    unfolding insert_at_def a b by simp
qed

lemma map_insert_at: "map f (insert_at p x xs) = insert_at p (f x) (map f xs)"
  by (simp add: insert_at_def take_map drop_map)

lemma set_insert_at [simp]: "set (insert_at p x xs) = insert x (set xs)"
proof -
  have "set xs = set (take p xs) \<union> set (drop p xs)"
    by (metis append_take_drop_id set_append)
  then show ?thesis by (auto simp: insert_at_def)
qed

lemma length_insert_at [simp]: "length (insert_at p x xs) = Suc (length xs)"
  by (simp add: insert_at_def)

lemma dropWhile_keeps_last:
  "xs \<noteq> [] \<Longrightarrow> \<not> P (last xs) \<Longrightarrow> dropWhile P xs \<noteq> [] \<and> last (dropWhile P xs) = last xs"
  by (induction xs) (auto split: if_splits)

lemma successively_drop: "successively P xs \<Longrightarrow> successively P (drop k xs)"
  by (metis append_take_drop_id successively_append_iff)

lemma successively_tl: "successively P xs \<Longrightarrow> successively P (tl xs)"
  by (cases xs) (auto simp: successively_Cons)

lemma successively_change:
  "successively P xs \<Longrightarrow> (\<And>x y. x \<in> set xs \<Longrightarrow> y \<in> set (tl xs) \<Longrightarrow> P x y \<Longrightarrow> Q x y)
     \<Longrightarrow> successively Q xs"
proof (induction xs)
  case (Cons x xs)
  then show ?case
    by (cases xs) (auto simp: successively_Cons)
qed simp

lemma successively_snoc:
  "successively P (xs @ [y]) \<longleftrightarrow> successively P xs \<and> (xs \<noteq> [] \<longrightarrow> P (last xs) y)"
  by (auto simp: successively_append_iff)

section \<open>The invariant\<close>

definition sequenced :: "CandleBook \<Rightarrow> bool" where
  "sequenced b \<longleftrightarrow> b_sequenced b = Some True"

definition step_exact :: "CandleBook \<Rightarrow> Observation \<Rightarrow> Observation \<Rightarrow> bool" where
  "step_exact b x y \<longleftrightarrow>
     otime y = otime x + interval b \<and> (sequenced b \<longrightarrow> seq_of y = seq_of x + 1)"

definition lost :: "CandleBook \<Rightarrow> int \<Rightarrow> bool" where
  "lost b n \<longleftrightarrow> n \<in> b_missing b \<or> (b_missing_overflowed b \<and>
     (case b_unenumerated_through b of Some c \<Rightarrow> n \<le> c | None \<Rightarrow> False))"

definition between :: "Observation \<Rightarrow> Observation \<Rightarrow> int \<Rightarrow> bool" where
  "between x y n \<longleftrightarrow> seq_of x < n \<and> n < seq_of y"

definition paced :: "CandleBook \<Rightarrow> Observation \<Rightarrow> Observation \<Rightarrow> bool" where
  "paced b x y \<longleftrightarrow> otime y - otime x = interval b * (seq_of y - seq_of x)"

definition gap_explained :: "CandleBook \<Rightarrow> Observation \<Rightarrow> Observation \<Rightarrow> bool" where
  "gap_explained b x y \<longleftrightarrow> sequenced b \<and> paced b x y \<and> 1 < seq_of y - seq_of x
     \<and> (\<forall>n. between x y n \<longrightarrow> lost b n)"

definition jump_recorded :: "CandleBook \<Rightarrow> Observation \<Rightarrow> bool" where
  "jump_recorded b y \<longleftrightarrow>
     b_discontinuities b \<noteq> [] \<and> otime y \<le> d_before (last (b_discontinuities b))"

definition pair_ok :: "CandleBook \<Rightarrow> Observation \<Rightarrow> Observation \<Rightarrow> bool" where
  "pair_ok b x y \<longleftrightarrow> (step_exact b x y \<or> gap_explained b x y \<or> jump_recorded b y)
     \<and> (\<forall>n \<in> b_missing b. between x y n \<longrightarrow> paced b x y)"

definition window_inv :: "CandleBook \<Rightarrow> bool" where
  "window_inv b \<longleftrightarrow> b_times b = map otime (b_closed b) \<and> sorted_wrt (<) (b_times b)
     \<and> (b_closed b \<noteq> [] \<longrightarrow> b_sequenced b \<noteq> None)
     \<and> (\<forall>x \<in> set (b_closed b). sequence x \<noteq> None \<longleftrightarrow> sequenced b)
     \<and> (sequenced b \<longrightarrow> sorted_wrt (<) (map seq_of (b_closed b)))
     \<and> b_last_sequence b =
         (if b_closed b \<noteq> [] \<and> sequenced b then Some (seq_of (last (b_closed b))) else None)"

definition missing_inv :: "CandleBook \<Rightarrow> bool" where
  "missing_inv b \<longleftrightarrow> finite (b_missing b)
     \<and> card (b_missing b) \<le> max_missing_sequences (b_limits b)
     \<and> (\<forall>n \<in> b_missing b. sequenced b \<and> b_closed b \<noteq> [] \<and> n < seq_of (last (b_closed b))
          \<and> n \<notin> seq_of ` set (b_closed b))
     \<and> (b_missing_overflowed b \<longleftrightarrow> b_unenumerated_through b \<noteq> None)
     \<and> (b_missing_overflowed b \<longrightarrow> sequenced b)"

definition disc_inv :: "CandleBook \<Rightarrow> bool" where
  "disc_inv b \<longleftrightarrow> length (b_discontinuities b) \<le> max_recorded_issues (b_limits b)
     \<and> sorted_wrt (<) (map d_before (b_discontinuities b))
     \<and> (\<forall>d \<in> set (b_discontinuities b). b_closed b \<noteq> [] \<and> d_before d \<le> last (b_times b))"

definition conf_inv :: "CandleBook \<Rightarrow> bool" where
  "conf_inv b \<longleftrightarrow> distinct (map fst (b_conflicts b))
     \<and> fst ` set (b_conflicts b) \<subseteq> set (b_times b)"

definition book_core :: "CandleBook \<Rightarrow> bool" where
  "book_core b \<longleftrightarrow> limits_ok (b_limits b) \<and> window_inv b \<and> missing_inv b \<and> disc_inv b
     \<and> conf_inv b \<and> successively (pair_ok b) (b_closed b)"

text \<open>Nothing recorded lies wholly before the window, and the window is within its bound.\<close>

definition trimmed_inv :: "CandleBook \<Rightarrow> bool" where
  "trimmed_inv b \<longleftrightarrow> length (b_closed b) \<le> max_closed_candles (b_limits b)
     \<and> (\<forall>n \<in> b_missing b. seq_of (hd (b_closed b)) < n)
     \<and> (\<forall>d \<in> set (b_discontinuities b). hd (b_times b) < d_before d)"

definition book_inv :: "CandleBook \<Rightarrow> bool" where
  "book_inv b \<longleftrightarrow> book_core b \<and> trimmed_inv b"

lemmas book_defs = book_core_def window_inv_def missing_inv_def disc_inv_def conf_inv_def

subsection \<open>Fields the invariant does not read\<close>

definition same_core :: "CandleBook \<Rightarrow> CandleBook \<Rightarrow> bool" where
  "same_core b c \<longleftrightarrow> b_timeframe b = b_timeframe c \<and> b_limits b = b_limits c
     \<and> b_closed b = b_closed c \<and> b_times b = b_times c \<and> b_sequenced b = b_sequenced c
     \<and> b_last_sequence b = b_last_sequence c \<and> b_missing b = b_missing c
     \<and> b_missing_overflowed b = b_missing_overflowed c
     \<and> b_unenumerated_through b = b_unenumerated_through c
     \<and> b_discontinuities b = b_discontinuities c \<and> b_conflicts b = b_conflicts c"

lemma same_core_pair_ok: "same_core b c \<Longrightarrow> pair_ok b = pair_ok c"
  by (intro ext)
    (simp add: same_core_def pair_ok_def step_exact_def gap_explained_def jump_recorded_def
      paced_def lost_def sequenced_def interval_def)

lemma same_core_inv:
  assumes "same_core b c"
  shows "book_core b = book_core c" and "trimmed_inv b = trimmed_inv c"
  using assms same_core_pair_ok [OF assms]
  by (simp_all add: book_defs trimmed_inv_def sequenced_def same_core_def)

lemma same_core_book_inv: "same_core b c \<Longrightarrow> book_inv b = book_inv c"
  by (simp add: book_inv_def same_core_inv)

lemma new_book_inv: "limits_ok l \<Longrightarrow> book_inv (new_book tf l)"
  by (simp add: book_inv_def book_defs trimmed_inv_def new_book_def sequenced_def)

lemma mark_disconnected_inv: "book_inv (mark_disconnected b) = book_inv b"
  by (rule same_core_book_inv) (simp add: same_core_def mark_disconnected_def)

lemma touch_core: "same_core (touch b x) b"
  by (simp add: same_core_def touch_def)

lemma apply_forming_inv: "book_inv b \<Longrightarrow> book_inv (fst (apply_forming b x))"
  using same_core_book_inv [OF touch_core, of "b\<lparr>b_forming := Some x\<rparr>" x]
    same_core_book_inv [of "b\<lparr>b_forming := Some x\<rparr>" b]
  by (simp add: apply_forming_def same_core_def)

subsection \<open>Neighbours stay accounted for when records change\<close>

lemma pair_ok_mono:
  assumes "pair_ok b x y" and "interval c = interval b" and "sequenced c = sequenced b"
    and "\<And>n. between x y n \<Longrightarrow> lost b n \<Longrightarrow> lost c n"
    and "\<And>n. between x y n \<Longrightarrow> n \<in> b_missing c \<Longrightarrow> n \<in> b_missing b"
    and "jump_recorded b y \<Longrightarrow> jump_recorded c y"
  shows "pair_ok c x y"
  using assms
  by (auto simp: pair_ok_def step_exact_def gap_explained_def paced_def)

lemma window_lists:
  assumes "window_inv b" and "x \<in> set (b_closed b)"
  shows "otime x \<le> last (b_times b)" and "sequenced b \<Longrightarrow> seq_of x \<le> seq_of (last (b_closed b))"
    and "sequenced b \<Longrightarrow> seq_of (hd (b_closed b)) \<le> seq_of x"
proof -
  have ne: "b_closed b \<noteq> []" using assms(2) by auto
  show "otime x \<le> last (b_times b)"
    using assms by (intro sorted_less_last) (auto simp: window_inv_def)
  show "seq_of x \<le> seq_of (last (b_closed b))" if "sequenced b"
    using that assms sorted_less_last [of "map seq_of (b_closed b)" "seq_of x"] ne
    by (simp add: window_inv_def last_map)
  show "seq_of (hd (b_closed b)) \<le> seq_of x" if "sequenced b"
    using that assms sorted_less_hd [of "map seq_of (b_closed b)" "seq_of x"] ne
    by (simp add: window_inv_def hd_map)
qed

subsection \<open>A new newest candle\<close>

lemma in_set_tl: "y \<in> set (tl xs) \<Longrightarrow> y \<in> set xs"
  by (cases xs) simp_all

lemma append_core:
  assumes core: "book_core b"
    and frame: "b_timeframe f = b_timeframe b" "b_limits f = b_limits b"
      "b_sequenced f = b_sequenced b" "b_closed f = b_closed b @ [x]"
      "b_times f = b_times b @ [otime x]" "b_conflicts f = b_conflicts b"
    and flag: "b_sequenced b = Some (sequence x \<noteq> None)"
    and lastseq: "b_last_sequence f = (if sequence x \<noteq> None then Some (seq_of x) else None)"
    and order: "b_closed b \<noteq> [] \<Longrightarrow> last (b_times b) < otime x"
      "b_closed b \<noteq> [] \<Longrightarrow> sequenced b \<Longrightarrow> seq_of (last (b_closed b)) < seq_of x"
    and invs: "missing_inv f" "disc_inv f"
    and mono: "\<And>n. lost b n \<Longrightarrow> lost f n" "\<And>y. jump_recorded b y \<Longrightarrow> jump_recorded f y"
      "\<And>n. n \<in> b_missing f \<Longrightarrow> n \<in> b_missing b \<or> seq_of (last (b_closed b)) < n"
    and fresh: "b_closed b \<noteq> [] \<Longrightarrow> pair_ok f (last (b_closed b)) x"
  shows "book_core f"
proof -
  have win: "window_inv b" and suc: "successively (pair_ok b) (b_closed b)"
    and conf: "conf_inv b" and lim: "limits_ok (b_limits b)"
    using core by (simp_all add: book_core_def)
  have sq: "sequenced f = sequenced b" by (simp add: sequenced_def frame)
  have iv: "interval f = interval b" by (simp add: interval_def frame)
  have ts: "sorted_wrt (<) (b_times b)" using win unfolding window_inv_def by blast
  have tsorted: "sorted_wrt (<) (b_times b @ [otime x])"
  proof (cases "b_closed b = []")
    case False
    then have "\<forall>t \<in> set (b_times b). t < otime x"
      using order(1) sorted_less_last [of "b_times b"] win
      by (metis le_less_trans window_inv_def)
    then show ?thesis using ts by (simp add: sorted_wrt_append)
  qed (use win in \<open>simp add: window_inv_def\<close>)
  have ssorted: "sorted_wrt (<) (map seq_of (b_closed b) @ [seq_of x])" if "sequenced b"
  proof (cases "b_closed b = []")
    case False
    then have "\<forall>y \<in> set (b_closed b). seq_of y < seq_of x"
      using order(2) window_lists(2) [OF win] that by (metis le_less_trans)
    then show ?thesis using win that by (simp add: sorted_wrt_append window_inv_def)
  qed simp
  have old: "pair_ok f y z" if "y \<in> set (b_closed b)" "z \<in> set (b_closed b)" "pair_ok b y z" for y z
  proof (rule pair_ok_mono [OF that(3) iv sq mono(1) _ mono(2)])
    fix n assume n: "between y z n" "n \<in> b_missing f"
    show "n \<in> b_missing b"
    proof (rule ccontr)
      assume "n \<notin> b_missing b"
      with mono(3) n have "seq_of (last (b_closed b)) < n" by blast
      moreover have "sequenced b"
        using n(2) invs(1) sq by (auto simp: missing_inv_def)
      then have "seq_of z \<le> seq_of (last (b_closed b))"
        using window_lists(2) [OF win that(2)] by simp
      ultimately show False using n(1) by (simp add: between_def)
    qed
  qed
  have "successively (pair_ok f) (b_closed b)"
    by (rule successively_change [OF suc]) (rule old, auto dest: in_set_tl)
  then have "successively (pair_ok f) (b_closed f)"
    using fresh by (simp add: frame successively_snoc)
  moreover have "window_inv f"
    using win tsorted ssorted flag lastseq sq
    by (auto simp: window_inv_def frame sequenced_def)
  moreover have "conf_inv f" using conf by (auto simp: conf_inv_def frame)
  ultimately show ?thesis using lim invs by (simp add: book_core_def frame)
qed

text \<open>The two records an append can leave, and that they only add to what is already recorded.\<close>

lemma push_disc_inv:
  assumes "disc_inv b" and "limits_ok (b_limits b)" and "b_closed b \<noteq> []"
    and "last (b_times b) < t" and "d_before d = t"
  defines "ds \<equiv> push_bounded (max_recorded_issues (b_limits b)) (b_discontinuities b) d"
  shows "length ds \<le> max_recorded_issues (b_limits b)" and "sorted_wrt (<) (map d_before ds)"
    and "\<forall>e \<in> set ds. d_before e \<le> t" and "ds \<noteq> []" and "last ds = d"
proof -
  have m: "0 < max_recorded_issues (b_limits b)"
    using assms(2) by (simp add: limits_ok_def)
  obtain k where k: "ds = drop k (b_discontinuities b) @ [d]"
    using push_bounded_snoc [OF m, of "b_discontinuities b" d] unfolding ds_def by (elim exE)
  have old: "\<forall>e \<in> set (b_discontinuities b). d_before e < t"
    using assms(1,4) by (force simp: disc_inv_def)
  show "length ds \<le> max_recorded_issues (b_limits b)"
    by (simp add: ds_def length_push_bounded)
  show "sorted_wrt (<) (map d_before ds)"
  proof -
    have "sorted_wrt (<) (map d_before (drop k (b_discontinuities b)))"
      using assms(1) by (simp add: disc_inv_def drop_map [symmetric] sorted_wrt_drop)
    moreover have "\<forall>e \<in> set (drop k (b_discontinuities b)). d_before e < t"
      using old by (meson in_set_dropD)
    ultimately show ?thesis by (simp add: k sorted_wrt_append assms(5))
  qed
  show "\<forall>e \<in> set ds. d_before e \<le> t"
    using old k assms(5) by (auto dest!: in_set_dropD simp: less_imp_le)
  show "ds \<noteq> []" "last ds = d" using k by simp_all
qed

lemma record_missing_facts:
  assumes "finite (b_missing b)" and "card (b_missing b) \<le> max_missing_sequences (b_limits b)"
    and "lo < hi" and "c = record_missing b lo hi"
    and "b_missing_overflowed b \<longleftrightarrow> b_unenumerated_through b \<noteq> None"
  shows "finite (b_missing c)" and "card (b_missing c) \<le> max_missing_sequences (b_limits b)"
    and "b_missing_overflowed c \<longleftrightarrow> b_unenumerated_through c \<noteq> None"
    and "\<And>n. lost b n \<Longrightarrow> lost c n" and "\<And>n. lo \<le> n \<Longrightarrow> n < hi \<Longrightarrow> lost c n"
    and "\<And>n. n \<in> b_missing c \<Longrightarrow> n \<in> b_missing b \<or> (lo \<le> n \<and> n < hi)"
proof -
  define room where "room = max_missing_sequences (b_limits b) - card (b_missing b)"
  define count where "count = nat (hi - lo)"
  have miss: "b_missing c = b_missing b \<union> {lo ..< lo + int (min room count)}"
    by (simp add: assms(4) record_missing_def Let_def room_def count_def)
  have ovf: "b_missing_overflowed c \<longleftrightarrow> room < count \<or> b_missing_overflowed b"
    by (auto simp: assms(4) record_missing_def Let_def room_def count_def)
  have unen: "b_unenumerated_through c =
      (if room < count
       then Some (case b_unenumerated_through b of None \<Rightarrow> hi - 1 | Some r \<Rightarrow> max (hi - 1) r)
       else b_unenumerated_through b)"
    by (simp add: assms(4) record_missing_def Let_def room_def count_def split: option.split)
  show "finite (b_missing c)" using assms(1) by (simp add: miss)
  have "card (b_missing c) \<le> card (b_missing b) + min room count"
    unfolding miss by (rule order_trans [OF card_Un_le]) simp
  then show "card (b_missing c) \<le> max_missing_sequences (b_limits b)"
    using assms(2) by (simp add: room_def)
  show "b_missing_overflowed c \<longleftrightarrow> b_unenumerated_through c \<noteq> None"
    using assms(5) by (simp add: ovf unen)
  show "lost b n \<Longrightarrow> lost c n" for n
    by (auto simp: lost_def miss ovf unen split: option.splits)
  show "n \<in> b_missing c \<Longrightarrow> n \<in> b_missing b \<or> (lo \<le> n \<and> n < hi)" for n
    using assms(3) by (auto simp: miss count_def)
  show "lost c n" if "lo \<le> n" "n < hi" for n
  proof (cases "room < count")
    case True
    then show ?thesis using that by (auto simp: lost_def ovf unen split: option.split)
  next
    case False
    then show ?thesis using that assms(3) by (simp add: lost_def miss count_def)
  qed
qed

lemma interval_pos [simp]: "0 < interval b"
  by (simp add: interval_def)

lemma window_empty: "window_inv b \<Longrightarrow> b_times b = [] \<longleftrightarrow> b_closed b = []"
  by (auto simp: window_inv_def)

lemma window_last: "window_inv b \<Longrightarrow> b_closed b \<noteq> [] \<Longrightarrow> last (b_times b) = otime (last (b_closed b))"
  by (simp add: window_inv_def last_map)

text \<open>Appending with a discontinuity recorded: the new neighbours are covered by that record.\<close>

lemma append_jump_core:
  assumes core: "book_core b" and flag: "b_sequenced b = Some (sequence x \<noteq> None)"
    and ne: "b_closed b \<noteq> []" and ord: "last (b_times b) < otime x"
    and sord: "sequenced b \<Longrightarrow> seq_of (last (b_closed b)) < seq_of x"
    and f: "f = (append_candle (record_discontinuity b (otime x) kind) x)
                  \<lparr>b_last_sequence := if sequence x \<noteq> None then Some (seq_of x) else None\<rparr>"
  shows "book_core f"
proof -
  have parts: "window_inv b" "missing_inv b" "disc_inv b" "limits_ok (b_limits b)"
    using core by (simp_all add: book_core_def)
  define d where "d = \<lparr>d_after = last (b_times b), d_before = otime x, d_kind = kind\<rparr>"
  note ds = push_disc_inv [OF parts(3,4) ne ord, of d, unfolded d_def, simplified]
  have fd: "b_discontinuities f =
      push_bounded (max_recorded_issues (b_limits b)) (b_discontinuities b) d"
    by (simp add: f append_candle_def record_discontinuity_def d_def)
  show ?thesis
  proof (rule append_core [OF core, where f = f and x = x])
    show "missing_inv f"
      using parts(2) ne sord
      by (force simp: missing_inv_def f append_candle_def record_discontinuity_def sequenced_def)
    show "disc_inv f"
      using ds by (simp add: disc_inv_def fd d_def f append_candle_def record_discontinuity_def)
    show "lost b n \<Longrightarrow> lost f n" for n
      by (simp add: lost_def f append_candle_def record_discontinuity_def)
    show "jump_recorded b y \<Longrightarrow> jump_recorded f y" for y
      using ds ord parts(3) unfolding jump_recorded_def fd d_def disc_inv_def
      by (metis Discontinuity.select_convs(2) last_in_set le_less_trans less_imp_le)
    show "pair_ok f (last (b_closed b)) x"
    proof -
      have "jump_recorded f x" using ds by (simp add: jump_recorded_def fd d_def)
      moreover have "\<not> between (last (b_closed b)) x n" if "n \<in> b_missing f" for n
        using that parts(2)
        by (force simp: missing_inv_def between_def f append_candle_def record_discontinuity_def)
      ultimately show ?thesis by (simp add: pair_ok_def)
    qed
  qed (use flag ord sord in
      \<open>simp_all add: f append_candle_def record_discontinuity_def\<close>)
qed

text \<open>Appending with nothing recorded: the first candle, or the exact next one.\<close>

lemma append_exact_core:
  assumes core: "book_core b" and flag: "b_sequenced b = Some (sequence x \<noteq> None)"
    and exact: "b_closed b \<noteq> [] \<Longrightarrow> step_exact b (last (b_closed b)) x"
    and f: "f = (append_candle b x)
                  \<lparr>b_last_sequence := if sequence x \<noteq> None then Some (seq_of x) else None\<rparr>"
  shows "book_core f"
proof -
  have parts: "window_inv b" "missing_inv b" "disc_inv b"
    using core by (simp_all add: book_core_def)
  have ord: "last (b_times b) < otime x" if "b_closed b \<noteq> []"
    using exact [OF that] window_last [OF parts(1) that] by (simp add: step_exact_def)
  have sord: "seq_of (last (b_closed b)) < seq_of x" if "b_closed b \<noteq> []" "sequenced b"
    using exact [OF that(1)] that(2) by (simp add: step_exact_def)
  show ?thesis
  proof (rule append_core [OF core, where f = f and x = x])
    show "missing_inv f"
      using parts(2) sord by (force simp: missing_inv_def f append_candle_def sequenced_def)
    show "disc_inv f"
      using parts(3) ord by (force simp: disc_inv_def f append_candle_def)
    show "pair_ok f (last (b_closed b)) x" if "b_closed b \<noteq> []"
    proof -
      have "step_exact f (last (b_closed b)) x"
        using exact [OF that] by (simp add: step_exact_def f append_candle_def interval_def sequenced_def)
      moreover have "\<not> between (last (b_closed b)) x n" if "n \<in> b_missing f" for n
        using that parts(2) by (force simp: missing_inv_def between_def f append_candle_def)
      ultimately show ?thesis by (simp add: pair_ok_def)
    qed
  qed (use flag ord sord in
      \<open>simp_all add: f append_candle_def lost_def jump_recorded_def\<close>)
qed

lemma record_missing_frame [simp]:
  "b_timeframe (record_missing b lo hi) = b_timeframe b"
  "b_limits (record_missing b lo hi) = b_limits b"
  "b_closed (record_missing b lo hi) = b_closed b"
  "b_times (record_missing b lo hi) = b_times b"
  "b_sequenced (record_missing b lo hi) = b_sequenced b"
  "b_last_sequence (record_missing b lo hi) = b_last_sequence b"
  "b_discontinuities (record_missing b lo hi) = b_discontinuities b"
  "b_conflicts (record_missing b lo hi) = b_conflicts b"
  by (simp_all add: record_missing_def Let_def)

text \<open>Appending over lost numbers that the time jump confirms.\<close>

lemma append_gap_core:
  assumes core: "book_core b" and flag: "b_sequenced b = Some True" "sequence x \<noteq> None"
    and ne: "b_closed b \<noteq> []" and l: "b_last_sequence b = Some l"
    and step: "1 < seq_of x - l" and pace: "otime x - last (b_times b) = interval b * (seq_of x - l)"
    and f: "f = (append_candle (record_missing b (l + 1) (seq_of x)) x)
                  \<lparr>b_last_sequence := Some (seq_of x)\<rparr>"
  shows "book_core f"
proof -
  have parts: "window_inv b" "missing_inv b" "disc_inv b"
    using core by (simp_all add: book_core_def)
  have sq: "sequenced b" using flag by (simp add: sequenced_def)
  have l': "l = seq_of (last (b_closed b))"
    using parts(1) l ne sq by (simp add: window_inv_def)
  define c where "c = record_missing b (l + 1) (seq_of x)"
  have mi: "finite (b_missing b)" "card (b_missing b) \<le> max_missing_sequences (b_limits b)"
    "b_missing_overflowed b \<longleftrightarrow> b_unenumerated_through b \<noteq> None"
    using parts(2) by (simp_all add: missing_inv_def)
  have lt: "l + 1 < seq_of x" using step by simp
  note facts = record_missing_facts [OF mi(1,2) lt c_def mi(3)]
  have fc: "b_missing f = b_missing c" "b_missing_overflowed f = b_missing_overflowed c"
    "b_unenumerated_through f = b_unenumerated_through c" "lost f = lost c"
    by (auto simp: f c_def append_candle_def lost_def)
  have ft: "b_timeframe f = b_timeframe b" "b_sequenced f = b_sequenced b"
    by (simp_all add: f c_def append_candle_def)
  have dt: "0 < interval b * (seq_of x - l)" using step by simp
  then have ord: "last (b_times b) < otime x" using pace by linarith
  have seqs: "\<forall>y \<in> set (b_closed b). seq_of y \<le> l"
    using window_lists(2) [OF parts(1) _ sq] l' by simp
  show ?thesis
  proof (rule append_core [OF core, where f = f and x = x])
    show "missing_inv f"
    proof -
      have "\<forall>n \<in> b_missing f. n < seq_of x \<and> n \<notin> seq_of ` set (b_closed b) \<and> n \<noteq> seq_of x"
        using facts(6) parts(2) seqs lt l' ne unfolding fc missing_inv_def by fastforce
      then show ?thesis
        using facts(1,2,3) sq
        by (simp add: missing_inv_def fc) (simp add: f c_def append_candle_def
            sequenced_def)
    qed
    show "disc_inv f"
      using parts(3) ord by (force simp: disc_inv_def f append_candle_def c_def)
    show "lost b n \<Longrightarrow> lost f n" for n using facts(4) by (simp add: fc)
    show "n \<in> b_missing f \<Longrightarrow> n \<in> b_missing b \<or> seq_of (last (b_closed b)) < n" for n
      using facts(6) [of n] l' unfolding fc by linarith
    show "pair_ok f (last (b_closed b)) x"
    proof -
      have p: "paced f (last (b_closed b)) x"
        using pace l' window_last [OF parts(1) ne]
        by (simp add: paced_def interval_def ft)
      moreover have "gap_explained f (last (b_closed b)) x"
        using p step l' facts(5) flag
        by (simp add: gap_explained_def between_def fc sequenced_def ft)
      ultimately show ?thesis by (simp add: pair_ok_def)
    qed
  qed (use flag ord lt l' in
      \<open>simp_all add: f append_candle_def jump_recorded_def\<close>)
qed

subsection \<open>A late candle that fills a recorded gap\<close>

lemma late_fill_position:
  assumes core: "book_core b" and floor: "\<forall>m \<in> b_missing b. seq_of (hd (b_closed b)) < m"
    and n: "n \<in> b_missing b" and p: "p \<le> length (b_closed b)"
    and before: "p = 0 \<or> sequence_at b (p - 1) < n"
    and after: "p = length (b_closed b) \<or> n < sequence_at b p"
  shows "0 < p" and "p < length (b_closed b)"
proof -
  have mi: "b_closed b \<noteq> []" "n < seq_of (last (b_closed b))"
    using core n by (auto simp: book_core_def missing_inv_def)
  show "0 < p"
  proof (rule ccontr)
    assume "\<not> 0 < p"
    then have "n < seq_of (hd (b_closed b))"
      using after mi(1) by (simp add: sequence_at_def hd_conv_nth)
    with floor n show False by force
  qed
  show "p < length (b_closed b)"
  proof (rule ccontr)
    assume "\<not> p < length (b_closed b)"
    then have "p = length (b_closed b)" using p by simp
    then have "seq_of (last (b_closed b)) < n"
      using before \<open>0 < p\<close> mi(1) by (simp add: sequence_at_def last_conv_nth)
    with mi(2) show False by simp
  qed
qed

lemma sorted_insert_between:
  assumes "sorted_wrt (<) (as @ x # y # bs)" and "x < m" and "m < (y :: int)"
  shows "sorted_wrt (<) (as @ x # m # y # bs)"
  using assms by (fastforce simp: sorted_wrt_append)

lemma exact_or_gap:
  assumes "sequenced b" and "paced b x y" and "seq_of x < seq_of y"
    and "\<And>m. between x y m \<Longrightarrow> lost b m"
  shows "step_exact b x y \<or> gap_explained b x y"
proof (cases "seq_of y = seq_of x + 1")
  case True
  then show ?thesis using assms(1,2) by (simp add: step_exact_def paced_def)
next
  case False
  then show ?thesis using assms by (simp add: gap_explained_def)
qed

lemma late_fill_core:
  assumes core: "book_core b" and sq: "b_sequenced b = Some True"
    and floor: "\<forall>m \<in> b_missing b. seq_of (hd (b_closed b)) < m"
    and n: "n \<in> b_missing b" and x: "sequence x = Some n"
    and p: "p \<le> length (b_closed b)"
    and before: "p = 0 \<or> sequence_at b (p - 1) < n"
    and after: "p = length (b_closed b) \<or> n < sequence_at b p"
    and exact: "p = 0 \<or> otime x = b_times b ! (p - 1) + interval b * (n - sequence_at b (p - 1))"
    and f: "f = b\<lparr>b_closed := insert_at p x (b_closed b), b_times := insert_at p (otime x) (b_times b),
                  b_missing := b_missing b - {n}, b_late_fills := k\<rparr>"
  shows "book_core f"
proof -
  have win: "window_inv b" and mi: "missing_inv b" and di: "disc_inv b" and ci: "conf_inv b"
    and suc: "successively (pair_ok b) (b_closed b)" and lim: "limits_ok (b_limits b)"
    using core by (simp_all add: book_core_def)
  have sqd: "sequenced b" "sequenced f" using sq by (simp_all add: sequenced_def f)
  note pos = late_fill_position [OF core floor n p before after]
  define u where "u = b_closed b ! (p - 1)"
  define w where "w = b_closed b ! p"
  define A where "A = take (p - 1) (b_closed b)"
  define B where "B = drop (Suc p) (b_closed b)"
  have dec: "b_closed b = A @ u # w # B" and ins: "b_closed f = A @ u # x # w # B"
    using insert_at_pair(1) [OF pos] insert_at_pair(2) [OF pos, of x] by (simp_all add: u_def w_def A_def B_def f)
  have sx: "seq_of x = n" using x by (simp add: seq_of_def)
  have times: "b_times b = map otime (b_closed b)" "b_times f = map otime (b_closed f)"
    using win by (simp_all add: window_inv_def f map_insert_at)
  have su: "seq_of u < n" and sw: "n < seq_of w"
    using before after pos by (simp_all add: sequence_at_def u_def w_def)
  have bt: "between u w n" using su sw by (simp add: between_def)
  have ok: "pair_ok b u w" using suc unfolding dec by (simp add: successively_append_iff)
  have pace: "otime w - otime u = interval b * (seq_of w - seq_of u)"
    using ok n bt by (auto simp: pair_ok_def paced_def)
  have ox: "otime x = otime u + interval b * (n - seq_of u)"
    using exact pos times(1) by (simp add: sequence_at_def u_def)
  have ow: "otime w = otime x + interval b * (seq_of w - n)"
    using pace ox by (simp add: algebra_simps)
  have lt: "otime u < otime x" "otime x < otime w"
    using ox ow su sw by simp_all
  have iv: "interval f = interval b" by (simp add: interval_def f)
  have keep: "lost f m" if "lost b m" "m \<noteq> n" for m
    using that by (simp add: lost_def f)
  have lastp: "last (b_closed f) = last (b_closed b)" "b_closed f \<noteq> []" "hd (b_closed f) = hd (b_closed b)"
    unfolding dec ins by (simp_all add: hd_append)
  have setf: "set (b_closed f) = insert x (set (b_closed b))"
    unfolding dec ins by auto
  have pairs: "pair_ok f u x" "pair_ok f x w"
  proof -
    have paced: "paced f u x" "paced f x w" using ox ow by (simp_all add: paced_def iv sx)
    have gap: "step_exact f u x \<or> gap_explained f u x" "step_exact f x w \<or> gap_explained f x w"
      if all: "\<forall>m. between u w m \<longrightarrow> lost b m"
      by (rule exact_or_gap [OF sqd(2)];
          use all keep paced su sw sx in \<open>simp add: between_def\<close>)+
    have jump: "jump_recorded f x" "jump_recorded f w" if "jump_recorded b w"
      using that lt by (simp_all add: jump_recorded_def f)
    have "\<not> step_exact b u w" using sqd su sw by (simp add: step_exact_def)
    then consider "gap_explained b u w" | "jump_recorded b w"
      using ok by (auto simp: pair_ok_def)
    then show "pair_ok f u x" "pair_ok f x w"
      using gap jump paced by (cases; auto simp: pair_ok_def gap_explained_def)+
  qed
  have old: "pair_ok f y z" if "pair_ok b y z" "\<not> between y z n" for y z
  proof (rule pair_ok_mono [OF that(1) iv])
    show "sequenced f = sequenced b" using sqd by simp
    show "lost f m" if "between y z m" "lost b m" for m
      using keep [OF that(2)] that(1) \<open>\<not> between y z n\<close> by blast
  qed (simp_all add: f jump_recorded_def)
  have sorted_seq: "sorted_wrt (<) (map seq_of (A @ u # w # B))"
    using win sqd(1) unfolding window_inv_def dec by blast
  have left: "\<And>z. z \<in> set (A @ [u]) \<Longrightarrow> seq_of z < n" and right: "\<And>y. y \<in> set (w # B) \<Longrightarrow> n < seq_of y"
    using sorted_seq su sw by (fastforce simp: sorted_wrt_append)+
  have "successively (pair_ok b) (A @ [u])" and sB: "successively (pair_ok b) (w # B)"
    using suc unfolding dec by (simp_all add: successively_append_iff)
  from this(1) have "successively (pair_ok f) (A @ [u])"
  proof (rule successively_change)
    fix y z assume "z \<in> set (tl (A @ [u]))" and "pair_ok b y z"
    then show "pair_ok f y z"
      using old left [OF in_set_tl] by (meson between_def less_asym)
  qed
  moreover from sB have "successively (pair_ok f) (w # B)"
  proof (rule successively_change)
    fix y z assume "y \<in> set (w # B)" and "pair_ok b y z"
    then show "pair_ok f y z"
      using old right by (meson between_def less_asym)
  qed
  ultimately have succ: "successively (pair_ok f) (b_closed f)"
    using pairs unfolding ins by (simp add: successively_append_iff)
  have "window_inv f"
    unfolding window_inv_def
  proof (intro conjI)
    show "sorted_wrt (<) (b_times f)"
      using sorted_insert_between [of "map otime A" "otime u" "otime w" "map otime B" "otime x"]
        win lt unfolding times(2) ins window_inv_def times(1) dec by simp
    show "sequenced f \<longrightarrow> sorted_wrt (<) (map seq_of (b_closed f))"
      using sorted_insert_between [of "map seq_of A" "seq_of u" "seq_of w" "map seq_of B" n]
        sorted_seq su sw sx unfolding ins by simp
    show "b_last_sequence f =
        (if b_closed f \<noteq> [] \<and> sequenced f then Some (seq_of (last (b_closed f))) else None)"
      using win sqd lastp dec by (simp add: window_inv_def f)
    show "\<forall>y \<in> set (b_closed f). (sequence y \<noteq> None) = sequenced f"
      using win sqd x unfolding setf by (simp add: window_inv_def)
  qed (use times(2) sq in \<open>simp_all add: f\<close>)
  moreover have "missing_inv f"
  proof -
    have "card (b_missing b - {n}) \<le> card (b_missing b)"
      using mi by (intro card_mono) (auto simp: missing_inv_def)
    then show ?thesis
      using mi sqd lastp sx unfolding missing_inv_def setf by (auto simp: f)
  qed
  moreover have "disc_inv f"
  proof -
    have "last (b_times f) = last (b_times b)"
      using lastp dec by (simp add: times last_map)
    moreover have "b_discontinuities f = b_discontinuities b" "b_limits f = b_limits b"
      by (simp_all add: f)
    ultimately show ?thesis using di lastp(2) by (simp add: disc_inv_def)
  qed
  moreover have "conf_inv f"
    using ci unfolding conf_inv_def by (auto simp: f)
  ultimately show ?thesis using lim succ by (simp add: book_core_def f)
qed

subsection \<open>Placing a closed candle\<close>

lemma set_flag_inv:
  assumes "book_core b" and "trimmed_inv b" and "b_sequenced b = None \<or> b_sequenced b = Some s"
  shows "book_core (b\<lparr>b_sequenced := Some s\<rparr>) \<and> trimmed_inv (b\<lparr>b_sequenced := Some s\<rparr>)"
proof (cases "b_sequenced b")
  case None
  then have "b_closed b = []" "\<not> sequenced b" "b_missing b = {}" "b_discontinuities b = []"
    using assms(1) by (auto simp: book_defs sequenced_def)
  then show ?thesis
    using assms(1,2) None by (auto simp: book_defs trimmed_inv_def sequenced_def)
next
  case (Some s')
  then have "b\<lparr>b_sequenced := Some s\<rparr> = b" using assms(3) by simp
  then show ?thesis using assms by simp
qed

lemma place_unsequenced_core:
  assumes core: "book_core b" and flag: "b_sequenced b = Some False" and x: "sequence x = None"
    and fresh: "otime x \<notin> set (b_times b)" and r: "place_unsequenced b x = (f, Inr out)"
  shows "book_core f" and "b_closed f = b_closed b @ [x]" and "out = ACCEPTED"
proof -
  have win: "window_inv b" using core by (simp add: book_core_def)
  have ns: "\<not> sequenced b" using flag by (simp add: sequenced_def)
  have ls: "b_last_sequence b = None" using win ns by (simp add: window_inv_def)
  have "b_times b = [] \<or> \<not> otime x < last (b_times b)"
    using r by (simp add: place_unsequenced_def Let_def split: if_splits)
  moreover have "b_times b \<noteq> [] \<Longrightarrow> otime x \<noteq> last (b_times b)"
    using fresh last_in_set by metis
  ultimately have late: "b_times b = [] \<or> last (b_times b) < otime x" by linarith
  show "out = ACCEPTED" "b_closed f = b_closed b @ [x]"
    using r by (auto simp: place_unsequenced_def Let_def append_candle_def record_discontinuity_def
        split: if_splits)
  show "book_core f"
  proof (cases "b_times b \<noteq> [] \<and> otime x \<noteq> last (b_times b) + interval b")
    case True
    then have f: "f = (append_candle (record_discontinuity b (otime x) TEMPORAL_GAP) x)
        \<lparr>b_last_sequence := None\<rparr>"
      using r late ls by (auto simp: place_unsequenced_def Let_def append_candle_def
          record_discontinuity_def)
    show ?thesis
      by (rule append_jump_core [OF core, where x = x and kind = TEMPORAL_GAP])
        (use True late flag x ns window_empty [OF win] f in \<open>simp_all add: fun_eq_iff\<close>)
  next
    case False
    then have f: "f = (append_candle b x)\<lparr>b_last_sequence := None\<rparr>"
      using r late ls by (auto simp: place_unsequenced_def Let_def append_candle_def)
    show ?thesis
      by (rule append_exact_core [OF core, where x = x])
        (use False flag x ns window_empty [OF win] window_last [OF win] f in
         \<open>simp_all add: step_exact_def\<close>)
  qed
qed

lemma check_coverage_frame [simp]:
  "b_times (check_coverage b t k) = b_times b"
  "b_closed (check_coverage b t k) = b_closed b"
  by (simp_all add: check_coverage_def record_discontinuity_def Let_def split: option.split)

lemma place_sequenced_core:
  assumes core: "book_core b" and tr: "trimmed_inv b" and flag: "b_sequenced b = Some True"
    and x: "sequence x = Some n" and r: "place_sequenced b x n = (f, Inr out)"
  shows "book_core f"
    and "out = ACCEPTED \<and> b_closed f = b_closed b @ [x] \<or>
         out = LATE_FILL \<and> n \<in> b_missing b \<and> b_missing f = b_missing b - {n} \<and>
         (\<exists>p. 0 < p \<and> p < length (b_closed b) \<and> b_closed f = insert_at p x (b_closed b))"
proof -
  have win: "window_inv b" and mi: "missing_inv b" using core by (simp_all add: book_core_def)
  have sq: "sequenced b" using flag by (simp add: sequenced_def)
  have sx: "seq_of x = n" using x by (simp add: seq_of_def)
  have ls: "b_last_sequence b = (if b_closed b \<noteq> [] then Some (seq_of (last (b_closed b))) else None)"
    using win sq by (simp add: window_inv_def)
  note emp = window_empty [OF win]
  have "book_core f \<and> (out = ACCEPTED \<and> b_closed f = b_closed b @ [x] \<or>
      out = LATE_FILL \<and> n \<in> b_missing b \<and> b_missing f = b_missing b - {n} \<and>
      (\<exists>p. 0 < p \<and> p < length (b_closed b) \<and> b_closed f = insert_at p x (b_closed b)))"
  proof (cases "b_closed b = []")
    case True
    then have "f = (append_candle b x)\<lparr>b_last_sequence := Some n\<rparr>" and "out = ACCEPTED"
      using r ls emp by (simp_all add: place_sequenced_def Let_def)
    moreover have "book_core f"
      by (rule append_exact_core [OF core, where x = x]) (use True flag x sx calculation in simp_all)
    ultimately show ?thesis by (simp add: append_candle_def)
  next
    case ne: False
    define l where "l = seq_of (last (b_closed b))"
    have bl: "b_last_sequence b = Some l" using ls ne by (simp add: l_def)
    show ?thesis
    proof (cases "l < n")
      case True
      then have ord: "last (b_times b) < otime x"
        and f: "f = (append_candle (check_coverage b (otime x) (n - l)) x)\<lparr>b_last_sequence := Some n\<rparr>"
        and out: "out = ACCEPTED"
        using r bl ne emp by (auto simp: place_sequenced_def Let_def split: if_splits)
      define d where "d = otime x - last (b_times b)"
      have "book_core f"
      proof (cases "d mod interval b = 0 \<and> d div interval b = n - l")
        case paced: True
        then have pace: "d = interval b * (n - l)"
          by (metis mult_div_mod_eq add.right_neutral)
        show ?thesis
        proof (cases "1 < n - l")
          case True
          then have "f = (append_candle (record_missing b (l + 1) n) x)\<lparr>b_last_sequence := Some n\<rparr>"
            using paced bl by (simp add: f check_coverage_def Let_def d_def)
          then show ?thesis
            by (intro append_gap_core [OF core flag _ ne bl, where x = x])
              (use True pace sx x in \<open>simp_all add: d_def\<close>)
        next
          case False
          then have one: "n = l + 1" using \<open>l < n\<close> by simp
          then have "f = (append_candle b x)\<lparr>b_last_sequence := Some n\<rparr>"
            using paced by (simp add: f check_coverage_def Let_def d_def)
          then show ?thesis
            by (intro append_exact_core [OF core, where x = x])
              (use flag x sx one pace window_last [OF win ne] in
               \<open>simp_all add: step_exact_def l_def d_def\<close>)
        qed
      next
        case False
        then obtain kind where
          "f = (append_candle (record_discontinuity b (otime x) kind) x)\<lparr>b_last_sequence := Some n\<rparr>"
          by (auto simp: f check_coverage_def Let_def d_def)
        then show ?thesis
          by (intro append_jump_core [OF core, where x = x and kind = kind])
            (use flag x sx ne ord True in \<open>simp_all add: l_def\<close>)
      qed
      then show ?thesis using out by (simp add: f append_candle_def)
    next
      case False
      define p where "p = bisect_left (b_times b) (otime x)"
      have nm: "n \<in> b_missing b" and out: "out = LATE_FILL"
        and before: "p = 0 \<or> sequence_at b (p - 1) < n"
        and after: "p = length (b_closed b) \<or> n < sequence_at b p"
        and exact: "p = 0 \<or> otime x = b_times b ! (p - 1) + interval b * (n - sequence_at b (p - 1))"
        and f: "f = b\<lparr>b_closed := insert_at p x (b_closed b),
            b_times := insert_at p (otime x) (b_times b), b_missing := b_missing b - {n},
            b_late_fills := Suc (b_late_fills b)\<rparr>"
        using r bl False by (auto simp: place_sequenced_def Let_def p_def split: if_splits)
      have pl: "p \<le> length (b_closed b)"
        using bisect_left_bounds [of "b_times b" "otime x"] win
        by (simp add: p_def window_inv_def)
      have floor: "\<forall>m \<in> b_missing b. seq_of (hd (b_closed b)) < m"
        using tr by (simp add: trimmed_inv_def)
      have "book_core f"
        by (rule late_fill_core [OF core flag floor nm x pl before after exact f])
      then show ?thesis
        using late_fill_position [OF core floor nm pl before after] nm out
        by (auto simp: f)
    qed
  qed
  then show "book_core f"
    and "out = ACCEPTED \<and> b_closed f = b_closed b @ [x] \<or>
         out = LATE_FILL \<and> n \<in> b_missing b \<and> b_missing f = b_missing b - {n} \<and>
         (\<exists>p. 0 < p \<and> p < length (b_closed b) \<and> b_closed f = insert_at p x (b_closed b))"
    by simp_all
qed

lemma place_core:
  assumes "book_core b" and "trimmed_inv b" and "b_sequenced b = Some (sequence x \<noteq> None)"
    and "otime x \<notin> set (b_times b)" and "place b x = (f, Inr out)"
  shows "book_core f \<and> b_closed f \<noteq> []"
proof (cases "sequence x")
  case None
  then show ?thesis
    using place_unsequenced_core [OF assms(1) _ None assms(4)] assms(3,5) by (simp add: place_def)
next
  case (Some n)
  then show ?thesis
    using place_sequenced_core [OF assms(1,2) _ Some] assms(3,5)
    by (fastforce simp: place_def insert_at_def)
qed

subsection \<open>Trimming\<close>

lemma trim_oldest_core:
  assumes "book_core b" and "1 < length (b_closed b)"
  shows "book_core (trim_oldest b)"
proof -
  obtain x y r where c: "b_closed b = x # y # r"
    using assms(2) by (cases "b_closed b"; cases "tl (b_closed b)") auto
  let ?b = "trim_oldest b"
  have win: "window_inv b" using assms(1) by (simp add: book_core_def)
  have t: "b_times b = otime x # otime y # map otime r" using win c by (simp add: window_inv_def)
  have flags: "b_sequenced ?b = b_sequenced b" "b_missing ?b = b_missing b"
    "b_discontinuities ?b = b_discontinuities b" "b_limits ?b = b_limits b"
    "b_missing_overflowed ?b = b_missing_overflowed b" "b_timeframe ?b = b_timeframe b"
    "b_unenumerated_through ?b = b_unenumerated_through b" "b_last_sequence ?b = b_last_sequence b"
    "b_closed ?b = y # r" "b_times ?b = otime y # map otime r"
    "b_conflicts ?b = filter (\<lambda>(k, _). k \<noteq> otime x) (b_conflicts b)"
    by (simp_all add: trim_oldest_def Let_def c t)
  have pk: "pair_ok ?b = pair_ok b"
    by (simp add: fun_eq_iff pair_ok_def step_exact_def gap_explained_def jump_recorded_def paced_def
        lost_def sequenced_def interval_def flags)
  have sq: "sequenced ?b = sequenced b" by (simp add: sequenced_def flags)
  have "window_inv ?b" using win by (auto simp: window_inv_def flags sq c)
  moreover have "missing_inv ?b"
    using assms(1) by (auto simp: book_core_def missing_inv_def flags sq c)
  moreover have "disc_inv ?b"
    using assms(1) by (auto simp: book_core_def disc_inv_def flags c t)
  moreover have "conf_inv ?b"
    using assms(1) by (auto simp: book_core_def conf_inv_def flags c t distinct_map_filter)
  moreover have "successively (pair_ok ?b) (b_closed ?b)"
    using assms(1) by (simp add: book_core_def pk flags c)
  ultimately show ?thesis using assms(1) by (simp add: book_core_def flags)
qed

lemma trim_excess_core:
  assumes "book_core b"
  shows "book_core (trim_excess b) \<and> length (b_closed (trim_excess b)) \<le> max_closed_candles (b_limits b)
    \<and> b_limits (trim_excess b) = b_limits b
    \<and> (b_closed b \<noteq> [] \<longrightarrow> b_closed (trim_excess b) \<noteq> [])
    \<and> (\<exists>k. b_closed (trim_excess b) = drop k (b_closed b))"
  using assms
proof (induction b rule: trim_excess.induct)
  case (1 b)
  show ?case
  proof (cases "max_closed_candles (b_limits b) < length (b_closed b)")
    case True
    have "1 < length (b_closed b)"
      using True 1(2) by (simp add: book_core_def limits_ok_def)
    then have "book_core (trim_oldest b)" using trim_oldest_core 1(2) by blast
    moreover have "b_limits (trim_oldest b) = b_limits b" "b_closed (trim_oldest b) = tl (b_closed b)"
      by (simp_all add: trim_oldest_def Let_def)
    moreover have "tl (b_closed b) \<noteq> []" using \<open>1 < length (b_closed b)\<close> by (cases "b_closed b") auto
    ultimately show ?thesis using 1(1) [OF True]
      by (subst (1 2 3 4 5) trim_excess.simps) (auto simp: True drop_Suc [symmetric])
  next
    case False
    then show ?thesis using 1(2) by (simp add: trim_excess.simps) (metis drop0)
  qed
qed

lemma retire_discontinuities_core:
  assumes "book_core b" and "b_closed b \<noteq> []"
  shows "book_core (retire_discontinuities b)
    \<and> (\<forall>d \<in> set (b_discontinuities (retire_discontinuities b)). hd (b_times b) < d_before d)"
proof -
  let ?b = "retire_discontinuities b"
  let ?P = "\<lambda>d. d_before d \<le> hd (b_times b)"
  have win: "window_inv b" and disc: "disc_inv b" using assms(1) by (simp_all add: book_core_def)
  have srt: "sorted_wrt (<) (map d_before (b_discontinuities b))" using disc by (simp add: disc_inv_def)
  have d: "b_discontinuities ?b = dropWhile ?P (b_discontinuities b)"
    by (simp add: retire_discontinuities_def Let_def)
  have flags: "b_sequenced ?b = b_sequenced b" "b_missing ?b = b_missing b"
    "b_limits ?b = b_limits b" "b_closed ?b = b_closed b" "b_times ?b = b_times b"
    "b_missing_overflowed ?b = b_missing_overflowed b" "b_timeframe ?b = b_timeframe b"
    "b_unenumerated_through ?b = b_unenumerated_through b" "b_last_sequence ?b = b_last_sequence b"
    "b_conflicts ?b = b_conflicts b"
    by (simp_all add: retire_discontinuities_def Let_def)
  have sub: "set (b_discontinuities ?b) \<subseteq> set (b_discontinuities b)"
    using set_dropWhileD d by fastforce
  have above: "\<forall>d' \<in> set (dropWhile ?P ds). hd (b_times b) < d_before d'"
    if "sorted_wrt (<) (map d_before ds)" for ds :: "Discontinuity list"
    using that by (induction ds) (auto simp: not_le)
  have dw: "sorted_wrt (<) (map d_before (dropWhile ?P ds))"
    if "sorted_wrt (<) (map d_before ds)" for ds :: "Discontinuity list"
    using that by (induction ds) auto
  have lw: "length (dropWhile ?P (b_discontinuities b)) \<le> length (b_discontinuities b)"
    by (rule length_dropWhile_le)
  have "disc_inv ?b"
    using disc sub dw [OF srt] lw by (auto simp: disc_inv_def flags d dest: set_dropWhileD)
  have keep: "pair_ok ?b x y" if "pair_ok b x y" "hd (b_times b) < otime y" for x y
  proof -
    have "jump_recorded ?b y" if "jump_recorded b y"
      using that \<open>hd (b_times b) < otime y\<close> dropWhile_keeps_last [of "b_discontinuities b" ?P]
      by (auto simp: jump_recorded_def d)
    then show ?thesis using that(1)
      by (auto simp: pair_ok_def step_exact_def gap_explained_def paced_def lost_def sequenced_def
          interval_def flags)
  qed
  have tl_later: "\<forall>y \<in> set (tl (b_closed b)). hd (b_times b) < otime y"
    using win assms(2) by (cases "b_closed b") (auto simp: window_inv_def)
  have "successively (pair_ok ?b) (b_closed ?b)"
    using assms(1) tl_later keep unfolding flags book_core_def
    by (metis (no_types, lifting) successively_change)
  moreover have "window_inv ?b = window_inv b" "missing_inv ?b = missing_inv b"
    "conf_inv ?b = conf_inv b"
    by (simp_all only: flags window_inv_def missing_inv_def conf_inv_def sequenced_def)
  moreover have "\<forall>d \<in> set (b_discontinuities ?b). hd (b_times b) < d_before d"
    using above [OF srt] by (simp add: d)
  ultimately show ?thesis
    using assms(1) \<open>disc_inv ?b\<close> by (simp add: book_core_def flags)
qed

lemma retire_missing_core:
  assumes core: "book_core b" and ne: "b_closed b \<noteq> []"
    and dl: "\<forall>d \<in> set (b_discontinuities b). hd (b_times b) < d_before d"
    and len: "length (b_closed b) \<le> max_closed_candles (b_limits b)"
  shows "book_inv (retire_missing b)"
proof (cases "sequenced b")
  case False
  then have "retire_missing b = b"
    by (auto simp: retire_missing_def sequenced_def split: option.split bool.split)
  moreover have "b_missing b = {}" using core False by (auto simp: book_core_def missing_inv_def)
  ultimately show ?thesis using core dl len by (simp add: book_inv_def trimmed_inv_def)
next
  case True
  let ?b = "retire_missing b"
  define low where "low = seq_of (hd (b_closed b))"
  have win: "window_inv b" and mi: "missing_inv b"
    using core by (simp_all add: book_core_def)
  have "sequence (hd (b_closed b)) \<noteq> None"
    using win ne True by (simp add: window_inv_def)
  then have fl: "sequence (hd (b_closed b)) = Some low" by (auto simp: low_def seq_of_def)
  have flag: "b_sequenced b = Some True" using True by (simp add: sequenced_def)
  define dropped where "dropped = (case b_unenumerated_through b of None \<Rightarrow> False
    | Some r \<Rightarrow> b_missing_overflowed b \<and> r \<le> low)"
  have flags: "b_sequenced ?b = b_sequenced b" "b_missing ?b = {n \<in> b_missing b. low < n}"
    "b_discontinuities ?b = b_discontinuities b"
    "b_limits ?b = b_limits b" "b_closed ?b = b_closed b" "b_times ?b = b_times b"
    "b_timeframe ?b = b_timeframe b" "b_last_sequence ?b = b_last_sequence b"
    "b_conflicts ?b = b_conflicts b"
    "b_missing_overflowed ?b = (b_missing_overflowed b \<and> \<not> dropped)"
    "b_unenumerated_through ?b = (if dropped then None else b_unenumerated_through b)"
    by (simp_all add: retire_missing_def flag fl Let_def dropped_def split: option.split)
  have sq: "sequenced ?b = sequenced b" by (simp add: sequenced_def flags)
  have lost: "lost ?b n" if "lost b n" "low < n" for n
    using that by (auto simp: lost_def flags dropped_def split: option.splits)
  have low: "\<forall>x \<in> set (b_closed b). low \<le> seq_of x"
    using win ne True by (cases "b_closed b") (auto simp: window_inv_def low_def)
  have "window_inv ?b = window_inv b" "disc_inv ?b = disc_inv b" "conf_inv ?b = conf_inv b"
    by (simp_all only: flags window_inv_def disc_inv_def conf_inv_def sequenced_def)
  moreover have "missing_inv ?b"
  proof -
    have "card {n \<in> b_missing b. low < n} \<le> card (b_missing b)"
      using mi by (intro card_mono) (auto simp: missing_inv_def)
    then show ?thesis using mi by (auto simp: missing_inv_def flags sq dropped_def split: option.splits)
  qed
  moreover have "successively (pair_ok ?b) (b_closed ?b)"
  proof -
    have "pair_ok ?b x y" if "x \<in> set (b_closed b)" "pair_ok b x y" for x y
      using that low lost by (fastforce simp: pair_ok_def step_exact_def gap_explained_def
          jump_recorded_def paced_def between_def interval_def sq flags)
    then show ?thesis
      using core unfolding flags book_core_def by (metis (no_types, lifting) successively_change)
  qed
  ultimately show ?thesis
    using core dl len by (simp add: book_inv_def book_core_def trimmed_inv_def flags low_def)
qed

lemma trim_inv:
  assumes "book_core b" and "b_closed b \<noteq> []"
  shows "book_inv (trim b)"
proof -
  let ?t = "trim_excess b"
  have t: "book_core ?t" "length (b_closed ?t) \<le> max_closed_candles (b_limits b)"
    "b_limits ?t = b_limits b" "b_closed ?t \<noteq> []"
    using trim_excess_core [OF assms(1)] assms(2) by simp_all
  let ?r = "retire_discontinuities ?t"
  have f: "b_closed ?r = b_closed ?t" "b_times ?r = b_times ?t" "b_limits ?r = b_limits ?t"
    by (simp_all add: retire_discontinuities_def Let_def)
  have "book_inv (retire_missing ?r)"
    by (rule retire_missing_core) (use retire_discontinuities_core [OF t(1,4)] t f in simp_all)
  then show ?thesis using t by (simp add: trim_def Let_def)
qed

section \<open>Every operation keeps the invariant\<close>

lemma settle_inv:
  assumes "book_core b" and "b_closed b \<noteq> []"
  shows "book_inv (settle b x out)"
proof -
  obtain c where "settle b x out = trim c" and c: "same_core c b"
    by (auto simp: settle_def same_core_def touch_def Let_def split: option.splits)
  moreover have "book_core c" "b_closed c \<noteq> []"
    using assms same_core_inv [OF c] c by (simp_all add: same_core_def)
  ultimately show ?thesis using trim_inv by simp
qed

lemma repeat_closed_inv:
  assumes "book_inv b" and "index_of b (otime x) = Some i"
  shows "book_inv (fst (repeat_closed b x i))"
proof -
  have win: "window_inv b" using assms(1) by (simp add: book_inv_def book_core_def)
  then have t: "otime x \<in> set (b_times b)"
    using assms(2) by (auto simp: index_of_def Let_def in_set_conv_nth split: if_splits)
  define c where "c = fst (repeat_closed b x i)"
  have flags: "b_sequenced c = b_sequenced b" "b_missing c = b_missing b"
    "b_discontinuities c = b_discontinuities b" "b_limits c = b_limits b"
    "b_missing_overflowed c = b_missing_overflowed b" "b_timeframe c = b_timeframe b"
    "b_unenumerated_through c = b_unenumerated_through b" "b_last_sequence c = b_last_sequence b"
    "b_closed c = b_closed b" "b_times c = b_times b"
    by (simp_all add: c_def repeat_closed_def)
  have "pair_ok c = pair_ok b"
    by (simp add: fun_eq_iff pair_ok_def step_exact_def gap_explained_def jump_recorded_def paced_def
        lost_def sequenced_def interval_def flags)
  moreover have "conf_inv c"
    using assms(1) t by (auto simp: book_inv_def book_core_def conf_inv_def flags c_def
        repeat_closed_def map_of_eq_None_iff)
  moreover have "window_inv c = window_inv b" "missing_inv c = missing_inv b" "disc_inv c = disc_inv b"
    by (simp_all only: flags window_inv_def missing_inv_def disc_inv_def sequenced_def)
  ultimately show ?thesis
    using assms(1) unfolding c_def [symmetric]
    by (simp add: book_inv_def book_core_def trimmed_inv_def flags)
qed

lemma apply_closed_inv:
  assumes inv: "book_inv b"
  shows "book_inv (fst (apply_closed b x))"
proof (cases "index_of b (otime x)")
  case (Some i)
  then show ?thesis using repeat_closed_inv [OF inv] by (simp add: apply_closed_def)
next
  case None
  let ?s = "sequence x \<noteq> None"
  show ?thesis
  proof (cases "b_sequenced b = None \<or> b_sequenced b = Some ?s")
    case False
    then show ?thesis using None inv by (auto simp: apply_closed_def Let_def split: option.splits)
  next
    case True
    let ?b = "b\<lparr>b_sequenced := Some ?s\<rparr>"
    have b: "book_core ?b" "trimmed_inv ?b"
      using set_flag_inv [OF _ _ True] inv by (simp_all add: book_inv_def)
    have win: "window_inv b" using inv by (simp add: book_inv_def book_core_def)
    obtain c r where pl: "place ?b x = (c, r)" by force
    have ac: "apply_closed b x = (case r of Inl e \<Rightarrow> (c, Inl e) | Inr out \<Rightarrow> (settle c x out, Inr out))"
      using None True pl by (auto simp: apply_closed_def Let_def split: option.splits sum.splits)
    show ?thesis
    proof (cases r)
      case (Inl e)
      then have "c = ?b"
        using pl by (auto simp: place_def place_sequenced_def place_unsequenced_def Let_def
            split: option.splits if_splits)
      then show ?thesis using b Inl by (simp add: ac book_inv_def)
    next
      case (Inr out)
      have "otime x \<notin> set (b_times b)"
        using index_of_Some(2) [OF _ None] win unfolding window_inv_def by blast
      then have "book_core c \<and> b_closed c \<noteq> []"
        using place_core [OF b, of x c out] pl Inr by simp
      then show ?thesis using settle_inv Inr by (simp add: ac)
    qed
  qed
qed

lemma apply_obs_inv: "book_inv b \<Longrightarrow> apply_obs b x = Inr (f, out) \<Longrightarrow> book_inv f"
  using apply_closed_inv [of b x] apply_forming_inv [of b x]
  by (auto simp: apply_obs_def split: if_splits)

end
