(* ===== verification/Live_Book_Props.thy ===== *)
theory Live_Book_Props
  imports Live_Book_Inv
begin

text \<open>
  \<open>CandleBook\<close> as a machine driven by observations and disconnections, and what every reachable
  book promises: the bounds of its state, the order and completeness of its history, what each
  outcome of \<open>apply\<close> does to it.
\<close>

section \<open>The book as a machine\<close>

datatype book_input = Obs Observation | Disconnect

fun book_step :: "CandleBook \<Rightarrow> book_input \<Rightarrow> CandleBook res" where
  "book_step b (Obs x) = rmap fst (apply_obs b x)"
| "book_step b Disconnect = Inr (mark_disconnected b)"

definition configured :: "Timeframe \<Rightarrow> LiveLimits \<Rightarrow> CandleBook \<Rightarrow> bool" where
  "configured tf l b \<longleftrightarrow> b_timeframe b = tf \<and> b_limits b = l"

definition book_ok :: "Timeframe \<Rightarrow> LiveLimits \<Rightarrow> CandleBook \<Rightarrow> bool" where
  "book_ok tf l b \<longleftrightarrow> book_inv b \<and> configured tf l b"

named_theorems configured_simps

lemma configured_upd [configured_simps]:
  "configured tf l (b\<lparr>b_sequenced := v1\<rparr>) = configured tf l b"
  "configured tf l (b\<lparr>b_closed := v2\<rparr>) = configured tf l b"
  "configured tf l (b\<lparr>b_times := v3\<rparr>) = configured tf l b"
  "configured tf l (b\<lparr>b_missing := v4\<rparr>) = configured tf l b"
  "configured tf l (b\<lparr>b_late_fills := v5\<rparr>) = configured tf l b"
  "configured tf l (b\<lparr>b_last_sequence := v6\<rparr>) = configured tf l b"
  "configured tf l (b\<lparr>b_forming := v7\<rparr>) = configured tf l b"
  "configured tf l (b\<lparr>b_awaiting_continuity := v8\<rparr>) = configured tf l b"
  "configured tf l (b\<lparr>b_version := v9\<rparr>) = configured tf l b"
  "configured tf l (b\<lparr>b_duplicates := v10\<rparr>) = configured tf l b"
  "configured tf l (b\<lparr>b_conflicts := v11\<rparr>) = configured tf l b"
  by (simp_all add: configured_def)

lemma configured_ops [configured_simps]:
  "configured tf l (touch b x) = configured tf l b"
  "configured tf l (record_discontinuity b t k) = configured tf l b"
  "configured tf l (record_missing b lo hi) = configured tf l b"
  "configured tf l (append_candle b x) = configured tf l b"
  "configured tf l (mark_disconnected b) = configured tf l b"
  "configured tf l (trim_oldest b) = configured tf l b"
  "configured tf l (retire_discontinuities b) = configured tf l b"
  by (simp_all add: configured_def touch_def record_discontinuity_def record_missing_def Let_def
      append_candle_def mark_disconnected_def trim_oldest_def retire_discontinuities_def)

lemma configured_retire_missing [configured_simps]:
  "configured tf l (retire_missing b) = configured tf l b"
  by (simp add: configured_def retire_missing_def Let_def split: option.split bool.split)

lemma configured_trim_excess [configured_simps]:
  "configured tf l (trim_excess b) = configured tf l b"
proof (induction b rule: trim_excess.induct)
  case (1 b)
  show ?case
    by (subst trim_excess.simps) (use 1 in \<open>simp add: configured_simps\<close>)
qed

lemma configured_check_coverage [configured_simps]:
  "configured tf l (check_coverage b t n) = configured tf l b"
  by (simp add: check_coverage_def Let_def configured_simps split: option.split)

lemma configured_place_unsequenced [configured_simps]:
  "configured tf l (fst (place_unsequenced b x)) = configured tf l b"
  by (simp add: place_unsequenced_def Let_def configured_simps)

lemma configured_place_sequenced [configured_simps]:
  "configured tf l (fst (place_sequenced b x n)) = configured tf l b"
  by (cases "b_last_sequence b") (simp_all add: place_sequenced_def Let_def configured_simps)

lemma configured_place [configured_simps]:
  "configured tf l (fst (place b x)) = configured tf l b"
  by (simp add: place_def configured_simps split: option.split)

lemma configured_settle [configured_simps]:
  "configured tf l (settle b x out) = configured tf l b"
  by (simp add: settle_def trim_def Let_def configured_simps split: option.split)

lemma configured_apply_closed [configured_simps]:
  "configured tf l (fst (apply_closed b x)) = configured tf l b"
proof -
  have p: "configured tf l c = configured tf l b" if "place (b\<lparr>b_sequenced := Some s\<rparr>) x = (c, r)"
    for s c r
    using configured_place [of tf l "b\<lparr>b_sequenced := Some s\<rparr>" x] that by (simp add: configured_simps)
  show ?thesis
    by (auto simp: apply_closed_def repeat_closed_def Let_def configured_simps
        split: option.split prod.split sum.split dest: p)
qed

lemma apply_obs_ok:
  assumes "book_ok tf l b" and "apply_obs b x = Inr (f, out)"
  shows "book_ok tf l f"
proof -
  have "configured tf l f = configured tf l b"
  proof (cases "is_closed (candle x)")
    case True
    then have "f = fst (apply_closed b x)" using assms(2) by (simp add: apply_obs_def split: if_splits)
    then show ?thesis by (simp add: configured_simps)
  next
    case False
    then show ?thesis
      using assms(2) by (auto simp: apply_obs_def apply_forming_def configured_simps split: if_splits)
  qed
  then show ?thesis using assms apply_obs_inv by (auto simp: book_ok_def)
qed

interpretation book: fallible_machine book_step "book_ok tf l" for tf l
proof
  fix b i c
  assume "book_ok tf l b" and "book_step b i = Inr c"
  then show "book_ok tf l c"
    using apply_obs_ok [of tf l b]
    by (cases i) (auto simp: res_simps book_ok_def mark_disconnected_inv configured_simps)
qed

lemma new_book_ok: "limits_ok l \<Longrightarrow> book_ok tf l (new_book tf l)"
  using new_book_inv by (simp add: book_ok_def configured_def new_book_def)

lemma run_book_ok:
  "limits_ok l \<Longrightarrow> run_all book_step (new_book tf l) is = Inr b \<Longrightarrow> book_ok tf l b"
  using book.run_invar new_book_ok by blast

section \<open>What a reachable book promises\<close>

lemma successively_plain:
  assumes "book_inv b" and "b_missing b = {}" and "\<not> b_missing_overflowed b"
    and "b_discontinuities b = []"
  shows "successively (step_exact b) (b_closed b)"
proof -
  have "pair_ok b x y \<Longrightarrow> step_exact b x y" for x y
  proof -
    assume p: "pair_ok b x y"
    have nl: "\<not> lost b n" for n using assms(2,3) by (simp add: lost_def)
    have "\<not> gap_explained b x y"
      using nl by (auto simp: gap_explained_def between_def intro!: exI [of _ "seq_of x + 1"])
    moreover have "\<not> jump_recorded b y" using assms(4) by (simp add: jump_recorded_def)
    ultimately show ?thesis using p by (simp add: pair_ok_def)
  qed
  moreover have "successively (pair_ok b) (b_closed b)"
    using assms(1) by (simp add: book_inv_def book_core_def)
  ultimately show ?thesis by (metis successively_mono)
qed

lemma refused_same:
  assumes inv: "book_inv b" and r: "apply_obs b x = Inr (f, Inl c)"
  shows "f = b"
proof (cases "is_closed (candle x)")
  case False
  then show ?thesis using r by (auto simp: apply_obs_def apply_forming_def split: if_splits)
next
  case True
  then have r': "apply_closed b x = (f, Inl c)" using r by (simp add: apply_obs_def split: if_splits)
  then have idx: "index_of b (otime x) = None"
    by (auto simp: apply_closed_def repeat_closed_def split: option.splits if_splits)
  show ?thesis
  proof (cases "b_sequenced b")
    case None
    have "b_times b = []" "b_last_sequence b = None"
      using inv None by (auto simp: book_inv_def book_core_def window_inv_def sequenced_def)
    then show ?thesis
      using r' idx None
      by (simp add: apply_closed_def place_def place_sequenced_def place_unsequenced_def Let_def
          split: option.splits)
  next
    case (Some s)
    then have same: "b\<lparr>b_sequenced := Some s\<rparr> = b" by simp
    show ?thesis
      using r' idx Some same
      by (auto simp: apply_closed_def place_def place_sequenced_def place_unsequenced_def Let_def
          split: option.splits if_splits sum.splits prod.splits)
  qed
qed

lemma trim_excess_closed:
  "b_closed (trim_excess b) =
     drop (length (b_closed b) - max_closed_candles (b_limits b)) (b_closed b)"
proof (induction b rule: trim_excess.induct)
  case (1 b)
  show ?case
  proof (cases "max_closed_candles (b_limits b) < length (b_closed b)")
    case True
    have "b_limits (trim_oldest b) = b_limits b" "b_closed (trim_oldest b) = tl (b_closed b)"
      by (simp_all add: trim_oldest_def Let_def)
    then have "b_closed (trim_excess b) =
        drop (length (b_closed b) - 1 - max_closed_candles (b_limits b)) (drop 1 (b_closed b))"
      using 1 [OF True] True by (subst trim_excess.simps) (simp add: drop_Suc)
    then show ?thesis using True by (simp add: Suc_diff_Suc)
  qed (simp add: trim_excess.simps)
qed

lemma trim_closed:
  "b_closed (trim b) = drop (length (b_closed b) - max_closed_candles (b_limits b)) (b_closed b)"
proof -
  have "b_closed (retire_missing c) = b_closed c" "b_closed (retire_discontinuities c) = b_closed c" for c
    by (simp_all add: retire_missing_def retire_discontinuities_def Let_def
        split: option.split bool.split)
  then show ?thesis by (simp add: trim_def Let_def trim_excess_closed)
qed

lemma trim_version [simp]: "b_version (trim b) = b_version b"
proof -
  have e: "b_version (trim_excess c) = b_version c" for c
  proof (induction c rule: trim_excess.induct)
    case (1 c)
    show ?case
      by (subst trim_excess.simps) (use 1 in \<open>simp add: trim_oldest_def Let_def\<close>)
  qed
  have "b_version (retire_missing c) = b_version c" "b_version (retire_discontinuities c) = b_version c"
    for c by (simp_all add: retire_missing_def retire_discontinuities_def Let_def
        split: option.split bool.split)
  then show ?thesis by (simp add: trim_def Let_def e)
qed

lemma settle_closed:
  "b_closed (settle b x out) =
     drop (length (b_closed b) - max_closed_candles (b_limits b)) (b_closed b)"
  by (simp add: settle_def Let_def trim_closed touch_def split: option.split)

lemma settle_version: "b_version (settle b x out) = Suc (b_version b)"
  by (simp add: settle_def Let_def touch_def split: option.split)

lemma place_version: "b_version (fst (place b x)) = b_version b"
proof -
  have [simp]: "b_version (check_coverage c t n) = b_version c" for c t n
    by (simp add: check_coverage_def record_missing_def record_discontinuity_def Let_def
        split: option.split)
  show ?thesis
    by (cases "b_last_sequence b"; cases "sequence x")
      (simp_all add: place_def place_sequenced_def place_unsequenced_def record_discontinuity_def
        append_candle_def Let_def)
qed

text \<open>What a placement does to the history, before trimming.\<close>

lemma placed_history:
  assumes ok: "book_ok tf l b" and new: "index_of b (otime x) = None"
    and r: "apply_closed b x = (f, Inr out)"
  shows "b_version f = Suc (b_version b)" and "x \<in> set (b_closed f)"
    and "out = ACCEPTED \<and> b_closed f = drop (Suc (length (b_closed b)) - max_closed_candles l)
           (b_closed b @ [x]) \<or>
         out = LATE_FILL \<and> seq_of x \<in> b_missing b \<and> (\<exists>p. 0 < p \<and> p < length (b_closed b)
           \<and> b_closed f = drop (Suc (length (b_closed b)) - max_closed_candles l)
               (insert_at p x (b_closed b)))"
proof -
  let ?b = "b\<lparr>b_sequenced := Some (sequence x \<noteq> None)\<rparr>"
  have lim: "b_limits b = l" using ok by (simp add: book_ok_def configured_def)
  have inv: "book_core b" "trimmed_inv b" using ok by (simp_all add: book_ok_def book_inv_def)
  have mixed: "b_sequenced b = None \<or> b_sequenced b = Some (sequence x \<noteq> None)"
    using r new by (auto simp: apply_closed_def Let_def split: option.splits if_splits)
  obtain c where c: "place ?b x = (c, Inr out)" and f: "f = settle c x out"
    using r new mixed
    by (cases "place ?b x"; cases "snd (place ?b x)")
      (auto simp: apply_closed_def Let_def split: option.splits)
  have b: "book_core ?b" "trimmed_inv ?b" using set_flag_inv [OF inv mixed] by simp_all
  have limc: "b_limits c = l"
    using configured_place [of tf l ?b x] ok c by (simp add: configured_simps book_ok_def configured_def)
  have m: "length (b_closed b) \<le> max_closed_candles l" "1 \<le> max_closed_candles l"
    using inv lim by (simp_all add: trimmed_inv_def book_core_def limits_ok_def)
  have fresh: "otime x \<notin> set (b_times b)"
    using index_of_Some(2) [OF _ new] inv unfolding book_core_def window_inv_def by blast
  show "b_version f = Suc (b_version b)"
    using place_version [of ?b x] c by (simp add: f settle_version)
  have hist: "out = ACCEPTED \<and> b_closed c = b_closed b @ [x] \<or>
      out = LATE_FILL \<and> seq_of x \<in> b_missing b \<and>
      (\<exists>p. 0 < p \<and> p < length (b_closed b) \<and> b_closed c = insert_at p x (b_closed b))"
  proof (cases "sequence x")
    case None
    then have "place_unsequenced ?b x = (c, Inr out)" using c by (simp add: place_def)
    then show ?thesis
      using place_unsequenced_core [OF b(1) _ None _] fresh None by simp
  next
    case (Some n)
    then have "place_sequenced ?b x n = (c, Inr out)" using c by (simp add: place_def)
    then show ?thesis
      using place_sequenced_core(2) [OF b _ Some] Some by (auto simp: seq_of_def)
  qed
  have cl: "b_closed f = drop (length (b_closed c) - max_closed_candles l) (b_closed c)"
    by (simp add: f settle_closed limc)
  show "x \<in> set (b_closed f)"
    using hist
  proof (elim disjE conjE exE)
    assume "b_closed c = b_closed b @ [x]"
    then show ?thesis using m by (simp add: cl)
  next
    fix p assume p: "0 < p" "p < length (b_closed b)" "b_closed c = insert_at p x (b_closed b)"
    have "Suc (length (b_closed b)) - max_closed_candles l \<le> p" using m p by simp
    then show ?thesis using p by (simp add: cl insert_at_def)
  qed
  show "out = ACCEPTED \<and> b_closed f = drop (Suc (length (b_closed b)) - max_closed_candles l)
           (b_closed b @ [x]) \<or>
         out = LATE_FILL \<and> seq_of x \<in> b_missing b \<and> (\<exists>p. 0 < p \<and> p < length (b_closed b)
           \<and> b_closed f = drop (Suc (length (b_closed b)) - max_closed_candles l)
               (insert_at p x (b_closed b)))"
    using hist by (auto simp: cl)
qed

lemma kept_closed:
  assumes "book_ok tf l b" and "apply_obs b x = Inr (f, r)"
    and "r \<notin> {Inr ACCEPTED, Inr LATE_FILL}"
  shows "b_closed f = b_closed b \<and> b_version f = b_version b \<and> b_trimmed f = b_trimmed b"
proof (cases r)
  case (Inl c)
  then show ?thesis using refused_same assms by (auto simp: book_ok_def)
next
  case (Inr out)
  show ?thesis
  proof (cases "is_closed (candle x)")
    case False
    then show ?thesis
      using assms(2) Inr by (auto simp: apply_obs_def apply_forming_def touch_def split: if_splits)
  next
    case True
    then have a: "apply_closed b x = (f, Inr out)"
      using assms(2) Inr by (simp add: apply_obs_def split: if_splits)
    show ?thesis
    proof (cases "index_of b (otime x)")
      case None
      then show ?thesis using placed_history(3) [OF assms(1) None a] assms(3) Inr by auto
    next
      case (Some i)
      then show ?thesis using a by (auto simp: apply_closed_def repeat_closed_def split: if_splits)
    qed
  qed
qed

lemma times_sorted: "book_ok tf l b \<Longrightarrow> sorted_wrt (<) (map otime (b_closed b))"
  unfolding book_ok_def book_inv_def book_core_def window_inv_def by metis

lemma fresh_placement:
  assumes "book_ok tf l b" and "apply_obs b x = Inr (f, Inr out)" and "out \<in> {ACCEPTED, LATE_FILL}"
  shows "apply_closed b x = (f, Inr out)" and "index_of b (otime x) = None"
    and "x \<notin> set (b_closed b)"
proof -
  show a: "apply_closed b x = (f, Inr out)"
    using assms(2,3) by (auto simp: apply_obs_def apply_forming_def split: if_splits)
  then show i: "index_of b (otime x) = None"
    using assms(3) by (auto simp: apply_closed_def repeat_closed_def split: option.splits if_splits)
  have "otime x \<notin> set (b_times b)" and "b_times b = map otime (b_closed b)"
    using index_of_Some(2) [OF _ i] assms(1)
    unfolding book_ok_def book_inv_def book_core_def window_inv_def by blast+
  then show "x \<notin> set (b_closed b)" by auto
qed

section \<open>Example runs\<close>

definition sample_obs :: "int \<Rightarrow> int option \<Rightarrow> bool \<Rightarrow> nat \<Rightarrow> Observation" where
  "sample_obs slot n was_closed price =
     (let t = slot * minute; p = DFin False price 0 in
      \<lparr>candle = \<lparr>bar_symbol = ''F_XU030'', bar_timeframe = M1, open_time = Aware t 0,
         bar_open = p, bar_high = p, bar_low = p, bar_close = p, bar_volume = dec_of_int 5,
         is_closed = was_closed, open_interest = None\<rparr>,
       event_time = Aware (t + minute) 0, received_at = Aware (t + minute) 0, sequence = n,
       published_at = None\<rparr>)"

definition sample_book :: "book_input list \<Rightarrow> CandleBook res" where
  "sample_book xs = run_all book_step (new_book M1 default_limits) xs"

named_theorems book_eval

lemmas book_eval_rules [book_eval] = sample_book_def sample_obs_def new_book_def default_limits_def
  apply_obs_def apply_closed_def apply_forming_def index_of_def bisect_left_def bisect_from.simps place_def place_sequenced_def
  place_unsequenced_def check_coverage_def record_missing_def record_discontinuity_def
  append_candle_def settle_def touch_def trim_def trim_excess.simps trim_oldest_def retire_missing_def
  retire_discontinuities_def repeat_closed_def otime_def interval_def duration_of_def minute_def insert_at_def sequence_at_def
  seq_of_def integrity_def forming_ahead_def confirmed_def mark_disconnected_def push_bounded_def




lemma int_range_eval [book_eval]:
  "lo < hi \<Longrightarrow> {lo ..< hi} = insert lo {lo + 1 ..< (hi :: int)}"
  "hi \<le> lo \<Longrightarrow> {lo ..< (hi :: int)} = {}"
  by auto

lemma default_limits_ok: "limits_ok default_limits"
  by (simp add: limits_ok_def default_limits_def)

definition sample_fill :: "book_input list" where
  "sample_fill = [Obs (sample_obs 0 (Some 7) True 100), Obs (sample_obs 2 (Some 9) True 102),
     Obs (sample_obs 1 (Some 8) True 101)]"

definition sample_jump :: "book_input list" where
  "sample_jump = [Obs (sample_obs 0 (Some 7) True 100), Disconnect, Obs (sample_obs 5 (Some 9) True 102)]"

lemma sample_fill_runs: "got (sample_book sample_fill) (\<lambda>b. integrity b = COMPLETE \<and> length (confirmed b) = 3)"
  by (simp add: sample_fill_def book_eval Let_def cong: let_weak_cong)

lemma sample_jump_runs: "got (sample_book sample_jump) (\<lambda>b. length (b_discontinuities b) = 1)"
  by (simp add: sample_jump_def book_eval Let_def cong: let_weak_cong)

section \<open>Properties\<close>

text \<open>
  C1: whatever sequence of closed candles, forming updates, refused observations and disconnections
  a new book has been through, if it reports COMPLETE then its confirmed history is gapless: every
  candle opens exactly one interval after the one before it, and on a sequenced stream carries the
  next number. Bounded recording of gaps never lets a gap be forgotten.
\<close>

theorem complete_means_contiguous:
  assumes "limits_ok l" and "run_all book_step (new_book tf l) is = Inr b"
    and "integrity b = COMPLETE"
  shows "successively (step_exact b) (confirmed b) \<and> \<not> forming_ahead b"
proof -
  have "book_inv b" using run_book_ok [OF assms(1,2)] by (simp add: book_ok_def)
  moreover have "b_missing b = {}" "\<not> b_missing_overflowed b" "b_discontinuities b = []"
    "\<not> forming_ahead b"
    using assms(3) by (auto simp: integrity_def split: if_splits)
  ultimately show ?thesis using successively_plain by (simp add: confirmed_def)
qed

theorem complete_means_contiguous_witness:
  "got (sample_book sample_fill) (\<lambda>b. length (confirmed b) = 3
     \<and> successively (step_exact b) (confirmed b) \<and> \<not> forming_ahead b)"
proof (rule gotE [OF sample_fill_runs])
  fix b assume b: "sample_book sample_fill = Inr b" "integrity b = COMPLETE \<and> length (confirmed b) = 3"
  then show ?thesis
    using complete_means_contiguous [OF default_limits_ok, of M1 sample_fill b]
    by (simp add: sample_book_def)
qed



text \<open>
  C3: the confirmed history is strictly ordered by open time, has one candle per open time, and on
  a sequenced stream is strictly ordered by sequence number, whatever was delivered late, twice or
  out of order.
\<close>

theorem history_strictly_ordered:
  assumes "limits_ok l" and "run_all book_step (new_book tf l) is = Inr b"
  shows "sorted_wrt (\<lambda>x y. otime x < otime y) (confirmed b)
    \<and> (b_sequenced b = Some True \<longrightarrow> sorted_wrt (\<lambda>x y. seq_of x < seq_of y) (confirmed b))
    \<and> b_times b = map otime (confirmed b)"
proof -
  have "window_inv b" using run_book_ok [OF assms] by (simp add: book_ok_def book_inv_def book_core_def)
  then show ?thesis by (auto simp: window_inv_def confirmed_def sorted_wrt_map sequenced_def)
qed

theorem history_strictly_ordered_witness:
  "got (sample_book sample_fill) (\<lambda>b. sorted_wrt (\<lambda>x y. otime x < otime y) (confirmed b))"
proof (rule gotE [OF sample_fill_runs])
  fix b assume b: "sample_book sample_fill = Inr b" "integrity b = COMPLETE \<and> length (confirmed b) = 3"
  then show ?thesis
    using history_strictly_ordered [OF default_limits_ok, of M1 sample_fill b]
    by (simp add: sample_book_def)
qed

lemma trim_missing_subset: "b_missing (trim b) \<subseteq> b_missing b"
proof -
  have e: "b_missing (trim_excess c) = b_missing c" for c
  proof (induction c rule: trim_excess.induct)
    case (1 c)
    show ?case by (subst trim_excess.simps) (use 1 in \<open>simp add: trim_oldest_def Let_def\<close>)
  qed
  have "b_missing (retire_missing c) \<subseteq> b_missing c"
    "b_missing (retire_discontinuities c) = b_missing c" for c
    by (auto simp: retire_missing_def retire_discontinuities_def Let_def
        split: option.splits bool.splits if_splits)
  then show ?thesis unfolding trim_def Let_def using e by (auto split: if_splits) (metis in_mono)
qed

lemma settle_missing_subset: "b_missing (settle b x out) \<subseteq> b_missing b"
  unfolding settle_def Let_def
  by (rule subset_trans [OF trim_missing_subset]) (simp add: touch_def split: option.split)

lemma late_fill_slot:
  assumes core: "book_core b" and tr: "trimmed_inv b" and flag: "b_sequenced b = Some True"
    and x: "sequence x = Some n" and r: "place_sequenced b x n = (f, Inr LATE_FILL)"
  shows "n \<in> b_missing b \<and> b_missing f = b_missing b - {n} \<and>
    (\<exists>xs p q ys. b_closed b = xs @ p # q # ys \<and> b_closed f = xs @ p # x # q # ys
       \<and> seq_of p < n \<and> n < seq_of q \<and> otime x = otime p + interval b * (n - seq_of p))"
proof -
  define i where "i = bisect_left (b_times b) (otime x)"
  have win: "window_inv b" using core by (simp add: book_core_def)
  have nm: "n \<in> b_missing b"
    and before: "i = 0 \<or> sequence_at b (i - 1) < n"
    and after: "i = length (b_closed b) \<or> n < sequence_at b i"
    and exact: "i = 0 \<or> otime x = b_times b ! (i - 1) + interval b * (n - sequence_at b (i - 1))"
    and f: "f = b\<lparr>b_closed := insert_at i x (b_closed b),
        b_times := insert_at i (otime x) (b_times b), b_missing := b_missing b - {n},
        b_late_fills := Suc (b_late_fills b)\<rparr>"
    using r by (auto simp: place_sequenced_def Let_def i_def split: if_splits option.splits)
  have il: "i \<le> length (b_closed b)"
    using bisect_left_bounds [of "b_times b" "otime x"] win by (simp add: i_def window_inv_def)
  have flr: "\<forall>m \<in> b_missing b. seq_of (hd (b_closed b)) < m"
    using tr by (simp add: trimmed_inv_def)
  note i = late_fill_position [OF core flr nm il before after]
  have t: "b_times b ! (i - 1) = otime (b_closed b ! (i - 1))" using win i by (simp add: window_inv_def)
  show ?thesis
    using insert_at_pair [OF i] nm before after exact i t unfolding f sequence_at_def
    by simp blast
qed

text \<open>
  C4: a late candle enters the history only where it was missed. When \<open>apply\<close> reports LATE_FILL, the
  candle carried a number recorded as missing, it now stands between the two neighbours whose
  numbers enclose that number, its open time is exactly where the number places it, the number is
  no longer missing, and nothing else in the history changed but the trimming of the oldest.
\<close>

theorem late_fill_enters_its_slot:
  assumes "limits_ok l" and "run_all book_step (new_book tf l) is = Inr b"
    and "apply_obs b x = Inr (f, Inr LATE_FILL)"
  shows "\<exists>n. sequence x = Some n \<and> n \<in> b_missing b \<and> n \<notin> b_missing f \<and>
    (\<exists>xs p q ys. confirmed b = xs @ p # q # ys
       \<and> confirmed f = drop (Suc (length (confirmed b)) - max_closed_candles l) (xs @ p # x # q # ys)
       \<and> seq_of p < n \<and> n < seq_of q \<and> otime x = otime p + interval b * (n - seq_of p))"
proof -
  have ok: "book_ok tf l b" by (rule run_book_ok [OF assms(1,2)])
  have inv: "book_core b" "trimmed_inv b" "b_limits b = l"
    using ok by (simp_all add: book_ok_def book_inv_def configured_def)
  note a = fresh_placement [OF ok assms(3)]
  obtain n where n: "sequence x = Some n"
  proof (cases "sequence x")
    case None
    then show ?thesis using a by (auto simp: apply_closed_def place_def place_unsequenced_def Let_def
          split: option.splits if_splits)
  qed
  let ?b = "b\<lparr>b_sequenced := Some True\<rparr>"
  have mixed: "b_sequenced b = None \<or> b_sequenced b = Some True"
    using a(1,2) n by (simp add: apply_closed_def Let_def split: option.splits if_splits)
  obtain c where c: "place_sequenced ?b x n = (c, Inr LATE_FILL)" and f: "f = settle c x LATE_FILL"
    using a(1,2) n mixed
    by (cases "place_sequenced ?b x n"; cases "snd (place_sequenced ?b x n)")
      (auto simp: apply_closed_def place_def Let_def split: option.splits)
  have b: "book_core ?b" "trimmed_inv ?b" using set_flag_inv [OF inv(1,2) mixed] by simp_all
  have limc: "b_limits c = l"
    using c configured_place_sequenced [of tf l ?b x n] ok
    by (simp add: configured_simps book_ok_def configured_def)
  have cf: "b_closed f = drop (length (b_closed c) - max_closed_candles l) (b_closed c)"
    by (simp add: f settle_closed limc)
  have "n \<notin> b_missing f" if "b_missing c = b_missing b - {n}"
    using that settle_missing_subset [of c x LATE_FILL] f by auto
  then show ?thesis
    using late_fill_slot [OF b _ n c] n unfolding confirmed_def cf
    by (force simp: interval_def)
qed

lemma sample_hole_runs:
  "got (sample_book (take 2 sample_fill))
     (\<lambda>b. got (apply_obs b (sample_obs 1 (Some 8) True 101)) (\<lambda>(f, r). r = Inr LATE_FILL))"
  by (simp add: sample_fill_def book_eval Let_def cong: let_weak_cong)

theorem late_fill_enters_its_slot_witness:
  "got (sample_book (take 2 sample_fill)) (\<lambda>b.
     got (apply_obs b (sample_obs 1 (Some 8) True 101)) (\<lambda>(f, r). 8 \<in> b_missing b \<and> 8 \<notin> b_missing f))"
proof (rule gotE [OF sample_hole_runs])
  fix b assume b: "sample_book (take 2 sample_fill) = Inr b"
    and g: "got (apply_obs b (sample_obs 1 (Some 8) True 101)) (\<lambda>(f, r). r = Inr LATE_FILL)"
  obtain f where f: "apply_obs b (sample_obs 1 (Some 8) True 101) = Inr (f, Inr LATE_FILL)"
    using g by (auto simp: got_iff)
  have "sequence (sample_obs 1 (Some 8) True 101) = Some 8" by (simp add: sample_obs_def Let_def)
  then show ?thesis
    using late_fill_enters_its_slot [OF default_limits_ok _ f, of M1 "take 2 sample_fill"] b f
    by (auto simp: sample_book_def)
qed

text \<open>
  C5: an observation that is refused leaves the book exactly as it was; a repeated candle with the
  same values only counts a duplicate; one with other values marks the book CONFLICTED and keeps the
  candle first seen. Neither changes the confirmed history, and a repeat never makes the book look
  fresher than it is.
\<close>

theorem repeats_and_refusals_keep_history:
  assumes "limits_ok l" and "run_all book_step (new_book tf l) is = Inr b"
    and "apply_obs b x = Inr (f, r)"
  shows "case r of
      Inl code \<Rightarrow> f = b
    | Inr DUPLICATE \<Rightarrow> f = b\<lparr>b_duplicates := Suc (b_duplicates b)\<rparr>
    | Inr CONFLICT \<Rightarrow> confirmed f = confirmed b \<and> integrity f = CONFLICTED
        \<and> b_last_event_time f = b_last_event_time b \<and> b_last_received_at f = b_last_received_at b
    | Inr FORMING_UPDATED \<Rightarrow> confirmed f = confirmed b \<and> b_forming f = Some x
    | Inr _ \<Rightarrow> x \<notin> set (confirmed b) \<and> x \<in> set (confirmed f)"
proof -
  have ok: "book_ok tf l b" by (rule run_book_ok [OF assms(1,2)])
  show ?thesis
  proof (cases r)
    case (Inl c)
    then show ?thesis using refused_same assms(3) ok by (auto simp: book_ok_def)
  next
    case (Inr out)
    show ?thesis
    proof (cases "out \<in> {ACCEPTED, LATE_FILL}")
      case True
      have "apply_obs b x = Inr (f, Inr out)" using assms(3) Inr by simp
      note a = fresh_placement [OF ok this True]
      show ?thesis
        using placed_history(2) [OF ok a(2,1)] a(3) True Inr by (auto simp: confirmed_def)
    next
      case False
      then show ?thesis
        using assms(3) Inr placed_history(3) [OF ok, of x]
        by (auto simp: apply_obs_def apply_forming_def apply_closed_def repeat_closed_def Let_def
            confirmed_def touch_def integrity_def split: option.splits if_splits ApplyOutcome.splits
            sum.splits prod.splits)
    qed
  qed
qed

lemma sample_conflict_runs:
  "got (sample_book sample_fill) (\<lambda>b.
     got (apply_obs b (sample_obs 1 (Some 8) True 55)) (\<lambda>(f, r). r = Inr CONFLICT))"
  by (simp add: sample_fill_def book_eval same_values_def dec_eval scaled_def signed_def dec_of_int_def Let_def cong: let_weak_cong)

theorem repeats_and_refusals_keep_history_witness:
  "got (sample_book sample_fill) (\<lambda>b. got (apply_obs b (sample_obs 1 (Some 8) True 55))
     (\<lambda>(f, r). confirmed f = confirmed b \<and> integrity f = CONFLICTED))"
proof (rule gotE [OF sample_conflict_runs])
  fix b assume b: "sample_book sample_fill = Inr b"
    and g: "got (apply_obs b (sample_obs 1 (Some 8) True 55)) (\<lambda>(f, r). r = Inr CONFLICT)"
  obtain f where f: "apply_obs b (sample_obs 1 (Some 8) True 55) = Inr (f, Inr CONFLICT)"
    using g by (auto simp: got_iff)
  then show ?thesis
    using repeats_and_refusals_keep_history [OF default_limits_ok _ f, of M1 sample_fill] b
    by (simp add: sample_book_def)
qed

text \<open>
  The book's version is a faithful change marker. Applying an observation raises it exactly when
  the confirmed history changes, so a reader that recomputes only on a new version never serves a
  result of other candles.
\<close>

theorem version_tracks_history:
  assumes "limits_ok l" and "run_all book_step (new_book tf l) is = Inr b"
    and "apply_obs b x = Inr (f, r)"
  shows "b_version f = b_version b + (if confirmed f = confirmed b then 0 else 1)"
proof -
  have ok: "book_ok tf l b" by (rule run_book_ok [OF assms(1,2)])
  show ?thesis
  proof (cases "r \<in> {Inr ACCEPTED, Inr LATE_FILL}")
    case False
    then show ?thesis using kept_closed [OF ok assms(3)] by (simp add: confirmed_def)
  next
    case True
    then obtain out where r: "r = Inr out" "out \<in> {ACCEPTED, LATE_FILL}" by auto
    then have "apply_obs b x = Inr (f, Inr out)" using assms(3) by simp
    note a = fresh_placement [OF ok this r(2)]
    show ?thesis
      using placed_history(1,2) [OF ok a(2,1)] a(3) by (auto simp: confirmed_def)
  qed
qed

theorem version_tracks_history_witness:
  "got (sample_book (take 2 sample_fill)) (\<lambda>b.
     got (apply_obs b (sample_obs 1 (Some 8) True 101)) (\<lambda>(f, r).
       b_version f = b_version b + (if confirmed f = confirmed b then 0 else 1)))"
proof (rule gotE [OF sample_hole_runs])
  fix b assume b: "sample_book (take 2 sample_fill) = Inr b"
    and g: "got (apply_obs b (sample_obs 1 (Some 8) True 101)) (\<lambda>(f, r). r = Inr LATE_FILL)"
  obtain f where f: "apply_obs b (sample_obs 1 (Some 8) True 101) = Inr (f, Inr LATE_FILL)"
    using g by (auto simp: got_iff)
  then show ?thesis
    using version_tracks_history [OF default_limits_ok _ f, of M1 "take 2 sample_fill"] b
    by (simp add: sample_book_def)
qed

end
