(* ===== verification/Live_State.thy ===== *)
theory Live_State
  imports Live_Book_Props
begin

text \<open>
  \<open>app/domain/live/state.py\<close>: one subscription. Its connection state machine, the candle books of its
  timeframes, the log of refused observations, and the snapshot that says which timeframes are
  available for analysis. \<open>_books\<close>, a dict keyed by timeframe, is a map; \<open>_rejection_counts\<close>, a
  \<open>Counter\<close>, is a function from codes to numbers. The wording of a reason is a constructor.
\<close>

section \<open>Types\<close>

datatype ConnectionState = INITIALIZING | CONNECTED | DISCONNECTED | RECOVERING | TERMINATED

datatype TerminationReason =
  REASON_END_OF_STREAM | RECONNECT_LIMIT | OVERLOADED | PROVIDER_ERROR | CANCELLED

fun transitions :: "ConnectionState \<Rightarrow> ConnectionState list" where
  "transitions INITIALIZING = [CONNECTED, DISCONNECTED, TERMINATED]"
| "transitions CONNECTED = [DISCONNECTED, TERMINATED]"
| "transitions DISCONNECTED = [RECOVERING, TERMINATED]"
| "transitions RECOVERING = [CONNECTED, DISCONNECTED, TERMINATED]"
| "transitions TERMINATED = []"

datatype Freshness = NO_DATA | FRESH | STALE

datatype Availability = AVAILABLE | UNAVAILABLE

datatype Reason =
    NotConnectedYet
  | ProviderDisconnected
  | StreamEnded "TerminationReason option"
  | NoObservation
  | SilentForLongerThan int
  | ConflictQuarantined
  | CandlesMissing
  | UnexplainedJump
  | SequencesDisagree
  | ContinuityUnproven
  | FormingAhead
  | IntegrityIs Integrity
  | NoConfirmedCandle

record RejectionRecord =
  rr_timeframe :: "Timeframe option"
  rr_code :: RejectionCode
  rr_received_at :: moment

record TimeframeStatus =
  ts_book :: BookStatus
  ts_freshness :: Freshness
  ts_availability :: Availability
  ts_reasons :: "Reason list"

record MarketStateSnapshot =
  ss_symbol :: string
  ss_provenance :: StreamProvenance
  ss_market_currency :: MarketCurrency
  ss_connection :: ConnectionState
  ss_termination_reason :: "TerminationReason option"
  ss_as_of :: moment
  ss_timeframes :: "TimeframeStatus list"
  ss_reconnects :: nat
  ss_rejection_counts :: "RejectionCode \<Rightarrow> nat"
  ss_recent_rejections :: "RejectionRecord list"

record LiveMarketState =
  lm_symbol :: string
  lm_timeframes :: "Timeframe list"
  lm_provenance :: StreamProvenance
  lm_thresholds :: "Timeframe \<Rightarrow> int option"
  lm_limits :: LiveLimits
  lm_connection :: ConnectionState
  lm_termination_reason :: "TerminationReason option"
  lm_reconnects :: nat
  lm_books :: "Timeframe \<Rightarrow> CandleBook option"
  lm_rejections :: "RejectionRecord list"
  lm_rejection_counts :: "RejectionCode \<Rightarrow> nat"

section \<open>FreshnessPolicy\<close>

definition all_timeframes :: "Timeframe list" where
  "all_timeframes = [M1, M5, M15, M30, H1, H4, D1]"

definition make_policy :: "(Timeframe \<Rightarrow> int option) \<Rightarrow> (Timeframe \<Rightarrow> int option) res" where
  "make_policy m =
     (if list_all (\<lambda>tf. case m tf of None \<Rightarrow> True | Some v \<Rightarrow> 0 < v) all_timeframes
      then Inr m else Inl ValueError)"

definition from_intervals ::
  "Timeframe list \<Rightarrow> int \<Rightarrow> int \<Rightarrow> (Timeframe \<Rightarrow> int option) res" where
  "from_intervals tfs multiple grace =
     (if multiple < 1 then Inl ValueError
      else make_policy (map_of (map (\<lambda>tf. (tf, duration_of tf * multiple + grace)) tfs)))"

definition threshold :: "(Timeframe \<Rightarrow> int option) \<Rightarrow> Timeframe \<Rightarrow> int res" where
  "threshold m tf = (case m tf of None \<Rightarrow> Inl ValueError | Some v \<Rightarrow> Inr v)"

section \<open>Construction\<close>

definition make_state ::
  "string \<Rightarrow> Timeframe list \<Rightarrow> StreamProvenance \<Rightarrow> (Timeframe \<Rightarrow> int option) \<Rightarrow> LiveLimits
     \<Rightarrow> LiveMarketState res" where
  "make_state symbol tfs prov policy l =
     rbind (check (tfs \<noteq> []) ValueError) (\<lambda>_.
     rbind (check (distinct tfs) ValueError) (\<lambda>_.
     rbind (traverse (threshold policy) tfs) (\<lambda>_.
       Inr \<lparr>lm_symbol = symbol, lm_timeframes = tfs, lm_provenance = prov,
            lm_thresholds = policy, lm_limits = l, lm_connection = INITIALIZING,
            lm_termination_reason = None, lm_reconnects = 0,
            lm_books = map_of (map (\<lambda>tf. (tf, new_book tf l)) tfs), lm_rejections = [],
            lm_rejection_counts = (\<lambda>_. 0)\<rparr>)))"

section \<open>Reading\<close>

definition book_of :: "LiveMarketState \<Rightarrow> Timeframe \<Rightarrow> CandleBook res" where
  "book_of m tf = (case lm_books m tf of None \<Rightarrow> Inl KeyError | Some b \<Rightarrow> Inr b)"

text \<open>A subtraction of a naive from an aware datetime raises.\<close>

definition elapsed :: "moment \<Rightarrow> moment \<Rightarrow> int res" where
  "elapsed now t =
     (if is_aware now = is_aware t then Inr (instant now - instant t) else Inl TypeError)"

definition freshness_of :: "LiveMarketState \<Rightarrow> CandleBook \<Rightarrow> moment \<Rightarrow> Freshness res" where
  "freshness_of m b now =
     (case b_last_received_at b of
        None \<Rightarrow> Inr NO_DATA
      | Some received \<Rightarrow>
          rbind (elapsed now received) (\<lambda>gap.
          rbind (threshold (lm_thresholds m) (b_timeframe b)) (\<lambda>limit.
            Inr (if limit < gap then STALE else FRESH))))"

definition connection_reasons :: "LiveMarketState \<Rightarrow> Reason list" where
  "connection_reasons m =
     (case lm_connection m of
        INITIALIZING \<Rightarrow> [NotConnectedYet]
      | DISCONNECTED \<Rightarrow> [ProviderDisconnected]
      | TERMINATED \<Rightarrow> [StreamEnded (lm_termination_reason m)]
      | _ \<Rightarrow> [])"

definition freshness_reasons :: "int \<Rightarrow> Freshness \<Rightarrow> Reason list" where
  "freshness_reasons limit f =
     (case f of NO_DATA \<Rightarrow> [NoObservation] | STALE \<Rightarrow> [SilentForLongerThan limit] | FRESH \<Rightarrow> [])"

definition only_if :: "bool \<Rightarrow> 'a \<Rightarrow> 'a list" where
  "only_if c x = (if c then [x] else [])"

definition issue_reasons :: "BookStatus \<Rightarrow> Reason list" where
  "issue_reasons s =
     only_if (st_conflicts s \<noteq> 0) ConflictQuarantined
     @ only_if (st_missing_sequences s \<noteq> 0 \<or> st_missing_overflowed s) CandlesMissing
     @ only_if (st_temporal_gaps s \<noteq> 0) UnexplainedJump
     @ only_if (st_sequence_mismatches s \<noteq> 0) SequencesDisagree
     @ only_if (st_awaiting_continuity s) ContinuityUnproven
     @ only_if (st_forming_ahead s) FormingAhead"

definition timeframe_status :: "LiveMarketState \<Rightarrow> moment \<Rightarrow> Timeframe \<Rightarrow> TimeframeStatus res" where
  "timeframe_status m now tf =
     rbind (book_of m tf) (\<lambda>b.
     rbind (freshness_of m b now) (\<lambda>f.
     rbind (if f = STALE then threshold (lm_thresholds m) tf else Inr 0) (\<lambda>limit.
       let s = status b;
           r = connection_reasons m @ freshness_reasons limit f @ issue_reasons s;
           r1 = r @ only_if (st_integrity s \<noteq> COMPLETE \<and> r = []) (IntegrityIs (st_integrity s));
           r2 = r1 @ only_if (st_closed_count s = 0) NoConfirmedCandle
       in Inr \<lparr>ts_book = s, ts_freshness = f,
               ts_availability = (if r2 \<noteq> [] then UNAVAILABLE else AVAILABLE),
               ts_reasons = r2\<rparr>)))"

definition make_snapshot :: "MarketStateSnapshot \<Rightarrow> MarketStateSnapshot res" where
  "make_snapshot s =
     (if ss_market_currency s = market_currency_of (ss_provenance s) then Inr s
      else Inl ValueError)"

definition snapshot :: "LiveMarketState \<Rightarrow> moment \<Rightarrow> MarketStateSnapshot res" where
  "snapshot m now =
     rbind (traverse (timeframe_status m now) (lm_timeframes m)) (\<lambda>ts.
       make_snapshot
         \<lparr>ss_symbol = lm_symbol m, ss_provenance = lm_provenance m,
          ss_market_currency = market_currency_of (lm_provenance m),
          ss_connection = lm_connection m, ss_termination_reason = lm_termination_reason m,
          ss_as_of = now, ss_timeframes = ts, ss_reconnects = lm_reconnects m,
          ss_rejection_counts = lm_rejection_counts m,
          ss_recent_rejections = lm_rejections m\<rparr>)"

definition status_for :: "MarketStateSnapshot \<Rightarrow> Timeframe \<Rightarrow> TimeframeStatus res" where
  "status_for s tf =
     (case find (\<lambda>i. st_timeframe (ts_book i) = tf) (ss_timeframes s) of
        None \<Rightarrow> Inl KeyError | Some i \<Rightarrow> Inr i)"

definition available_timeframes :: "MarketStateSnapshot \<Rightarrow> Timeframe list" where
  "available_timeframes s =
     map (\<lambda>i. st_timeframe (ts_book i))
       (filter (\<lambda>i. ts_availability i = AVAILABLE) (ss_timeframes s))"

section \<open>Applying provider output\<close>

definition move :: "LiveMarketState \<Rightarrow> ConnectionState \<Rightarrow> LiveMarketState res" where
  "move m target =
     (if target \<notin> set (transitions (lm_connection m)) then Inl IllegalTransitionError
      else Inr (m\<lparr>lm_connection := target\<rparr>))"

definition terminate :: "LiveMarketState \<Rightarrow> TerminationReason \<Rightarrow> LiveMarketState res" where
  "terminate m reason =
     (if lm_connection m = TERMINATED then Inr m
      else rmap (\<lambda>m'. m'\<lparr>lm_termination_reason := Some reason\<rparr>) (move m TERMINATED))"

definition apply_signal :: "LiveMarketState \<Rightarrow> SignalKind \<Rightarrow> LiveMarketState res" where
  "apply_signal m kind =
     (if lm_connection m = TERMINATED then Inr m
      else case kind of
        SIG_CONNECTED \<Rightarrow>
          if lm_connection m \<in> {CONNECTED, RECOVERING} then Inr m
          else if lm_connection m = DISCONNECTED
          then (let m1 = m\<lparr>lm_reconnects := Suc (lm_reconnects m)\<rparr> in
                if max_reconnects (lm_limits m1) < lm_reconnects m1
                then terminate m1 RECONNECT_LIMIT
                else move m1 RECOVERING)
          else move m CONNECTED
      | SIG_DISCONNECTED \<Rightarrow>
          if lm_connection m = DISCONNECTED then Inr m
          else rmap (\<lambda>m'. m'\<lparr>lm_books := (\<lambda>tf. map_option mark_disconnected (lm_books m' tf))\<rparr>)
                 (move m DISCONNECTED)
      | END_OF_STREAM \<Rightarrow> terminate m REASON_END_OF_STREAM
      | OVERFLOW \<Rightarrow> terminate m OVERLOADED)"

definition reject ::
  "LiveMarketState \<Rightarrow> Timeframe option \<Rightarrow> RejectionCode \<Rightarrow> moment
     \<Rightarrow> LiveMarketState \<times> ApplyOutcome checked" where
  "reject m tf c received =
     (m\<lparr>lm_rejection_counts := (lm_rejection_counts m)(c := Suc (lm_rejection_counts m c)),
        lm_rejections := push_bounded (max_recorded_issues (lm_limits m)) (lm_rejections m)
          \<lparr>rr_timeframe = tf, rr_code = c, rr_received_at = received\<rparr>\<rparr>, Inl c)"

fun timeframe_in :: "RawCandleEvent \<Rightarrow> Timeframe list \<Rightarrow> Timeframe option" where
  "timeframe_in raw [] = None"
| "timeframe_in raw (tf # tfs) =
     (if raw_timeframe raw = PyStr (timeframe_value tf) then Some tf else timeframe_in raw tfs)"

definition awaiting_any :: "LiveMarketState \<Rightarrow> bool" where
  "awaiting_any m =
     list_ex (\<lambda>tf. case lm_books m tf of None \<Rightarrow> False | Some b \<Rightarrow> b_awaiting_continuity b)
       all_timeframes"

definition apply_event ::
  "LiveMarketState \<Rightarrow> RawCandleEvent \<Rightarrow> moment
     \<Rightarrow> (LiveMarketState \<times> ApplyOutcome checked) res" where
  "apply_event m raw received =
     (let tf = timeframe_in raw (lm_timeframes m) in
      if lm_connection m \<notin> {CONNECTED, RECOVERING} then Inr (reject m tf NOT_CONNECTED received)
      else case tf of
        None \<Rightarrow> Inr (reject m None WRONG_STREAM received)
      | Some t \<Rightarrow>
          rbind (validate raw \<lparr>key_symbol = lm_symbol m, key_timeframe = t\<rparr> received (lm_limits m))
            (\<lambda>checked. case checked of
               Inl c \<Rightarrow> Inr (reject m (Some t) c received)
             | Inr obs \<Rightarrow>
                 rbind (book_of m t) (\<lambda>b.
                 rbind (apply_obs b obs) (\<lambda>(b', outcome).
                   let m' = m\<lparr>lm_books := (lm_books m)(t \<mapsto> b')\<rparr> in
                   case outcome of
                     Inl c \<Rightarrow> Inr (reject m' (Some t) c received)
                   | Inr out \<Rightarrow>
                       if lm_connection m' = RECOVERING \<and> \<not> awaiting_any m'
                       then rmap (\<lambda>m2. (m2, Inr out)) (move m' CONNECTED)
                       else Inr (m', Inr out)))))"

end
