(* ===== verification/Live_State_Props.thy ===== *)
theory Live_State_Props
  imports Live_State
begin

text \<open>
  The subscription's invariant and properties. Its books are used through the interface
  \<open>candle_book\<close>, interpreted on the model of \<open>CandleBook\<close>.
\<close>

section \<open>A family of books\<close>

text \<open>What the subscription relies on of each of its books, keyed by timeframe.\<close>

definition family :: "('k \<Rightarrow> 'b \<Rightarrow> bool) \<Rightarrow> ('k \<Rightarrow> 'b option) \<Rightarrow> bool" where
  "family good m \<longleftrightarrow> (\<forall>k b. m k = Some b \<longrightarrow> good k b)"

locale candle_book =
  fixes valid :: "'c \<Rightarrow> bool" and good :: "'c \<Rightarrow> 'k \<Rightarrow> 'b \<Rightarrow> bool" and fresh :: "'c \<Rightarrow> 'k \<Rightarrow> 'b"
    and disconnect :: "'b \<Rightarrow> 'b"
    and apply_item :: "'b \<Rightarrow> 'o \<Rightarrow> 'e + ('b \<times> 'r)" and accepts :: "'k \<Rightarrow> 'o \<Rightarrow> bool"
    and complete :: "'b \<Rightarrow> bool" and contiguous :: "'b \<Rightarrow> bool"
  assumes fresh_good: "valid l \<Longrightarrow> good l k (fresh l k)"
    and disconnect_good: "good l k b \<Longrightarrow> good l k (disconnect b)"
    and apply_good: "good l k b \<Longrightarrow> accepts k x \<Longrightarrow> \<exists>c r. apply_item b x = Inr (c, r) \<and> good l k c"
    and complete_contiguous: "good l k b \<Longrightarrow> complete b \<Longrightarrow> contiguous b"
begin

lemma family_fresh: "valid l \<Longrightarrow> family (good l) (map_of (map (\<lambda>k. (k, fresh l k)) ks))"
  by (auto simp: family_def map_of_map_restrict restrict_map_def fresh_good split: if_splits)

lemma family_disconnect: "family (good l) m \<Longrightarrow> family (good l) (\<lambda>k. map_option disconnect (m k))"
  by (auto simp: family_def disconnect_good)

lemma family_apply:
  assumes "family (good l) m" and "m k = Some b" and "accepts k x"
  shows "\<exists>c r. apply_item b x = Inr (c, r) \<and> family (good l) (m(k \<mapsto> c))"
  using assms apply_good [of l k b x] by (fastforce simp: family_def)

lemma family_contiguous: "family (good l) m \<Longrightarrow> m k = Some b \<Longrightarrow> complete b \<Longrightarrow> contiguous b"
  by (auto simp: family_def intro: complete_contiguous)

end

definition heard_aware :: "CandleBook \<Rightarrow> bool" where
  "heard_aware b \<longleftrightarrow> (case b_last_received_at b of None \<Rightarrow> True | Some t \<Rightarrow> is_aware t)"

definition live_book :: "LiveLimits \<Rightarrow> Timeframe \<Rightarrow> CandleBook \<Rightarrow> bool" where
  "live_book l tf b \<longleftrightarrow> book_ok tf l b \<and> heard_aware b"

definition deliverable :: "Timeframe \<Rightarrow> Observation \<Rightarrow> bool" where
  "deliverable tf x \<longleftrightarrow> bar_timeframe (candle x) = tf \<and> is_aware (received_at x)"

lemma heard_ops [simp]:
  "heard_aware (trim b) = heard_aware b"
  "heard_aware (fst (place b x)) = heard_aware b"
  "heard_aware (b\<lparr>b_sequenced := v\<rparr>) = heard_aware b"
  "heard_aware (b\<lparr>b_forming := v2\<rparr>) = heard_aware b"
  "heard_aware (mark_disconnected b) = heard_aware b"
  "is_aware (received_at x) \<Longrightarrow> heard_aware (touch b x)"
proof -
  have e: "b_last_received_at (trim_excess c) = b_last_received_at c" for c
  proof (induction c rule: trim_excess.induct)
    case (1 c)
    show ?case by (subst trim_excess.simps) (use 1 in \<open>simp add: trim_oldest_def Let_def\<close>)
  qed
  have "b_last_received_at (retire_missing c) = b_last_received_at c"
    "b_last_received_at (retire_discontinuities c) = b_last_received_at c" for c
    by (simp_all add: retire_missing_def retire_discontinuities_def Let_def
        split: option.split bool.split)
  then show "heard_aware (trim b) = heard_aware b"
    by (simp add: heard_aware_def trim_def Let_def e)
  have [simp]: "b_last_received_at (check_coverage c t n) = b_last_received_at c" for c t n
    by (simp add: check_coverage_def record_missing_def record_discontinuity_def Let_def
        split: option.split)
  show "heard_aware (fst (place b x)) = heard_aware b"
    by (cases "b_last_sequence b"; cases "sequence x")
      (simp_all add: heard_aware_def place_def place_sequenced_def place_unsequenced_def
        record_discontinuity_def append_candle_def Let_def)
  show "heard_aware (b\<lparr>b_sequenced := v\<rparr>) = heard_aware b"
    "heard_aware (b\<lparr>b_forming := v2\<rparr>) = heard_aware b"
    "heard_aware (mark_disconnected b) = heard_aware b"
    "is_aware (received_at x) \<Longrightarrow> heard_aware (touch b x)"
    by (simp_all add: heard_aware_def mark_disconnected_def touch_def)
qed

lemma heard_settle: "is_aware (received_at x) \<Longrightarrow> heard_aware (settle b x out)"
  by (simp add: settle_def Let_def) (simp add: heard_aware_def touch_def)

lemma apply_live:
  assumes "live_book l tf b" and "deliverable tf x"
  shows "\<exists>c r. apply_obs b x = Inr (c, r) \<and> live_book l tf c"
proof -
  have tf: "b_timeframe b = tf" and ok: "book_ok tf l b" and h: "heard_aware b"
    using assms(1) by (simp_all add: live_book_def book_ok_def configured_def)
  obtain c r where a: "apply_obs b x = Inr (c, r)"
    using assms(2) tf by (cases "apply_obs b x") (auto simp: apply_obs_def deliverable_def split: if_splits)
  have "heard_aware c"
  proof (cases "is_closed (candle x)")
    case False
    then show ?thesis
      using a h assms(2) by (auto simp: apply_obs_def apply_forming_def deliverable_def split: if_splits)
  next
    case True
    have p: "heard_aware d" if "place (b\<lparr>b_sequenced := Some s\<rparr>) x = (d, q)" for s d q
      using heard_ops(2) [of "b\<lparr>b_sequenced := Some s\<rparr>" x] that h by simp
    have "heard_aware (b\<lparr>b_duplicates := v\<rparr>)" "heard_aware (b\<lparr>b_conflicts := w\<rparr>)" for v w
      using h by (simp_all add: heard_aware_def)
    then show ?thesis
      using a h True assms(2)
      by (auto simp: apply_obs_def apply_closed_def repeat_closed_def Let_def deliverable_def
          heard_settle dest: p split: option.splits if_splits prod.splits sum.splits)
  qed
  then show ?thesis using a apply_obs_ok [OF ok a] by (simp add: live_book_def)
qed

interpretation books: candle_book limits_ok live_book "\<lambda>l tf. new_book tf l" mark_disconnected
  apply_obs deliverable "\<lambda>b. integrity b = COMPLETE" "\<lambda>b. successively (step_exact b) (confirmed b)"
proof
  show "limits_ok l \<Longrightarrow> live_book l k (new_book k l)" for l k
    using new_book_ok by (simp add: live_book_def heard_aware_def new_book_def)
  show "live_book l k b \<Longrightarrow> live_book l k (mark_disconnected b)" for l k b
    by (simp add: live_book_def book_ok_def mark_disconnected_inv configured_simps)
  show "live_book l k b \<Longrightarrow> deliverable k x \<Longrightarrow>
      \<exists>c r. apply_obs b x = Inr (c, r) \<and> live_book l k c" for l k b x
    by (rule apply_live)
  show "live_book l k b \<Longrightarrow> integrity b = COMPLETE \<Longrightarrow> successively (step_exact b) (confirmed b)"
    for l k b
    using successively_plain by (auto simp: live_book_def book_ok_def integrity_def confirmed_def
        split: if_splits)
qed


section \<open>The invariant of a subscription\<close>

definition awaiting :: "LiveMarketState \<Rightarrow> Timeframe \<Rightarrow> bool" where
  "awaiting m tf \<longleftrightarrow> (case lm_books m tf of None \<Rightarrow> False | Some b \<Rightarrow> b_awaiting_continuity b)"

lemma awaiting_any_iff: "awaiting_any m \<longleftrightarrow> (\<exists>tf. awaiting m tf)"
proof -
  have "set all_timeframes = UNIV"
    using Timeframe.exhaust by (auto simp: all_timeframes_def)
  then show ?thesis by (simp add: awaiting_any_def awaiting_def [symmetric] list_ex_iff)
qed

text \<open>How the connection and the books' continuity go together.\<close>

definition phase_inv :: "LiveMarketState \<Rightarrow> bool" where
  "phase_inv m \<longleftrightarrow>
     (lm_connection m \<in> {INITIALIZING, CONNECTED} \<longrightarrow> (\<forall>tf. \<not> awaiting m tf))
     \<and> (lm_connection m = DISCONNECTED \<longrightarrow> (\<forall>tf \<in> set (lm_timeframes m). awaiting m tf))
     \<and> (lm_connection m = RECOVERING \<longrightarrow> (\<exists>tf. awaiting m tf))"

definition bounds_inv :: "LiveMarketState \<Rightarrow> bool" where
  "bounds_inv m \<longleftrightarrow> length (lm_rejections m) \<le> max_recorded_issues (lm_limits m)
     \<and> lm_reconnects m \<le> Suc (max_reconnects (lm_limits m))
     \<and> (max_reconnects (lm_limits m) < lm_reconnects m \<longrightarrow> lm_connection m = TERMINATED)
     \<and> (lm_connection m = TERMINATED \<longleftrightarrow> lm_termination_reason m \<noteq> None)"

definition setup_inv :: "LiveMarketState \<Rightarrow> bool" where
  "setup_inv m \<longleftrightarrow> limits_ok (lm_limits m) \<and> lm_timeframes m \<noteq> [] \<and> distinct (lm_timeframes m)
     \<and> (\<forall>tf \<in> set (lm_timeframes m). lm_thresholds m tf \<noteq> None)
     \<and> dom (lm_books m) = set (lm_timeframes m)
     \<and> family (live_book (lm_limits m)) (lm_books m)"

definition state_inv :: "LiveMarketState \<Rightarrow> bool" where
  "state_inv m \<longleftrightarrow> setup_inv m \<and> phase_inv m \<and> bounds_inv m"

lemma make_state_inv:
  assumes "limits_ok l" and "make_state s tfs prov policy l = Inr m"
  shows "state_inv m"
proof -
  have m: "tfs \<noteq> []" "distinct tfs" "\<forall>tf \<in> set tfs. policy tf \<noteq> None"
    and e: "m = \<lparr>lm_symbol = s, lm_timeframes = tfs, lm_provenance = prov,
            lm_thresholds = policy, lm_limits = l, lm_connection = INITIALIZING,
            lm_termination_reason = None, lm_reconnects = 0,
            lm_books = map_of (map (\<lambda>tf. (tf, new_book tf l)) tfs), lm_rejections = [],
            lm_rejection_counts = (\<lambda>_. 0)\<rparr>"
    using assms(2) by (auto simp: make_state_def res_simps traverse_Inr threshold_def
        list_all2_conv_all_nth in_set_conv_nth split: option.splits) force
  have "setup_inv m"
    using m assms(1) books.family_fresh [OF assms(1), of tfs]
    by (simp add: setup_inv_def e dom_map_of_conv_image_fst image_image)
  moreover have "phase_inv m"
    by (auto simp: phase_inv_def awaiting_def e map_of_map_restrict restrict_map_def new_book_def)
  moreover have "bounds_inv m" by (simp add: bounds_inv_def e)
  ultimately show ?thesis by (simp add: state_inv_def)
qed

datatype live_input = Signal SignalKind | Event RawCandleEvent int int

text \<open>Receive times are read from the process's own clock, which is aware.\<close>

fun live_step :: "LiveMarketState \<Rightarrow> live_input \<Rightarrow> LiveMarketState res" where
  "live_step m (Signal k) = apply_signal m k"
| "live_step m (Event raw t off) = rmap fst (apply_event m raw (Aware t off))"

lemma reject_inv: "state_inv m \<Longrightarrow> state_inv (fst (reject m tf c r))"
  by (auto simp: state_inv_def setup_inv_def phase_inv_def bounds_inv_def awaiting_def reject_def
      length_push_bounded)

lemma move_eq: "c \<in> set (transitions (lm_connection m)) \<Longrightarrow> move m c = Inr (m\<lparr>lm_connection := c\<rparr>)"
  by (simp add: move_def)

lemma terminate_total:
  assumes "state_inv m"
  shows "\<exists>m'. terminate m r = Inr m' \<and> state_inv m'"
proof (cases "lm_connection m = TERMINATED")
  case True
  then show ?thesis using assms by (simp add: terminate_def)
next
  case False
  then have "TERMINATED \<in> set (transitions (lm_connection m))" by (cases "lm_connection m") auto
  then show ?thesis using False assms
    by (auto simp: terminate_def move_def state_inv_def setup_inv_def phase_inv_def bounds_inv_def)
qed

lemma reconnect_total:
  assumes "state_inv m" and "lm_connection m = DISCONNECTED"
  shows "\<exists>m'. apply_signal m SIG_CONNECTED = Inr m' \<and> state_inv m'"
proof (cases "max_reconnects (lm_limits m) < Suc (lm_reconnects m)")
  case True
  then show ?thesis using assms
    by (auto simp: apply_signal_def Let_def terminate_def move_def state_inv_def setup_inv_def
        phase_inv_def bounds_inv_def)
next
  case False
  have "\<exists>tf. awaiting m tf"
    using assms by (auto simp: state_inv_def phase_inv_def setup_inv_def neq_Nil_conv)
  then show ?thesis using False assms
    by (auto simp: apply_signal_def Let_def move_def state_inv_def setup_inv_def
        phase_inv_def bounds_inv_def awaiting_def)
qed

lemma disconnect_total:
  assumes "state_inv m" and "lm_connection m \<notin> {DISCONNECTED, TERMINATED}"
  shows "\<exists>m'. apply_signal m SIG_DISCONNECTED = Inr m' \<and> state_inv m'"
proof -
  let ?m = "m\<lparr>lm_connection := DISCONNECTED,
    lm_books := (\<lambda>tf. map_option mark_disconnected (lm_books m tf))\<rparr>"
  have "DISCONNECTED \<in> set (transitions (lm_connection m))"
    using assms(2) by (cases "lm_connection m") auto
  then have "apply_signal m SIG_DISCONNECTED = Inr ?m"
    using assms(2) by (simp add: apply_signal_def move_eq)
  moreover have "setup_inv ?m"
    using assms(1) books.family_disconnect
    by (auto simp: state_inv_def setup_inv_def dom_def)
  moreover have "phase_inv ?m"
    using assms(1) by (auto simp: phase_inv_def awaiting_def state_inv_def setup_inv_def
        mark_disconnected_def dom_def split: option.splits)
  moreover have "bounds_inv ?m"
    using assms by (auto simp: bounds_inv_def state_inv_def)
  ultimately show ?thesis by (auto simp: state_inv_def)
qed

lemma signal_total:
  assumes "state_inv m"
  shows "\<exists>m'. apply_signal m k = Inr m' \<and> state_inv m'"
proof (cases "lm_connection m = TERMINATED")
  case True
  then show ?thesis using assms by (simp add: apply_signal_def)
next
  case False
  show ?thesis
  proof (cases k)
    case SIG_CONNECTED
    show ?thesis
    proof (cases "lm_connection m = INITIALIZING")
      case True
      then show ?thesis using assms SIG_CONNECTED
        by (auto simp: apply_signal_def move_def state_inv_def setup_inv_def phase_inv_def
            bounds_inv_def awaiting_def)
    next
      case ni: False
      show ?thesis
      proof (cases "lm_connection m = DISCONNECTED")
        case True
        then show ?thesis using reconnect_total [OF assms] SIG_CONNECTED by simp
      next
        case nd: False
        then have "apply_signal m k = Inr m"
          using ni False SIG_CONNECTED by (cases "lm_connection m") (simp_all add: apply_signal_def)
        then show ?thesis using assms by simp
      qed
    qed
  next
    case SIG_DISCONNECTED
    show ?thesis
    proof (cases "lm_connection m = DISCONNECTED")
      case True
      then show ?thesis using assms SIG_DISCONNECTED by (simp add: apply_signal_def)
    qed (use disconnect_total [OF assms] False SIG_DISCONNECTED in simp)
  next
    case END_OF_STREAM
    then show ?thesis using terminate_total [OF assms] False by (simp add: apply_signal_def)
  next
    case OVERFLOW
    then show ?thesis using terminate_total [OF assms] False by (simp add: apply_signal_def)
  qed
qed

lemma timeframe_in_Some: "timeframe_in raw tfs = Some tf \<Longrightarrow> tf \<in> set tfs"
  by (induction tfs) (auto split: if_splits)

lemma validate_deliverable:
  assumes "validate raw k r l = Inr (Inr x)"
  shows "deliverable (key_timeframe k) x"
  using assms by (auto simp: validate_def validate_raw_def deliverable_def res_simps split: if_splits)

lemma book_replaced:
  assumes inv: "state_inv m" and live: "lm_connection m \<in> {CONNECTED, RECOVERING}"
    and b: "lm_books m tf = Some b" and fam: "family (live_book (lm_limits m)) ((lm_books m)(tf \<mapsto> c))"
    and aw: "b_awaiting_continuity c \<longrightarrow> b_awaiting_continuity b"
  shows "if lm_connection m = RECOVERING \<and> \<not> awaiting_any (m\<lparr>lm_books := (lm_books m)(tf \<mapsto> c)\<rparr>)
    then state_inv (m\<lparr>lm_books := (lm_books m)(tf \<mapsto> c), lm_connection := CONNECTED\<rparr>)
    else state_inv (m\<lparr>lm_books := (lm_books m)(tf \<mapsto> c)\<rparr>)"
proof -
  let ?m = "m\<lparr>lm_books := (lm_books m)(tf \<mapsto> c)\<rparr>"
  have aw': "awaiting ?m t \<longrightarrow> awaiting m t" for t
    using aw b by (simp add: awaiting_def)
  have set1: "setup_inv ?m" "setup_inv (?m\<lparr>lm_connection := CONNECTED\<rparr>)"
    using inv fam b by (auto simp: state_inv_def setup_inv_def)
  have bnd: "bounds_inv ?m" "bounds_inv (?m\<lparr>lm_connection := CONNECTED\<rparr>)"
    using inv live by (auto simp: state_inv_def bounds_inv_def)
  have same: "awaiting (?m\<lparr>lm_connection := CONNECTED\<rparr>) = awaiting ?m"
    by (simp add: fun_eq_iff awaiting_def)
  show ?thesis
  proof (cases "lm_connection m = RECOVERING \<and> \<not> awaiting_any ?m")
    case True
    then have "phase_inv (?m\<lparr>lm_connection := CONNECTED\<rparr>)"
      by (simp add: phase_inv_def awaiting_any_iff same)
    then show ?thesis using True set1 bnd by (simp add: state_inv_def)
  next
    case False
    moreover have "lm_connection m = CONNECTED \<longrightarrow> (\<forall>t. \<not> awaiting ?m t)"
      using inv aw' by (auto simp: state_inv_def phase_inv_def)
    ultimately have "phase_inv ?m"
      using live by (auto simp: phase_inv_def awaiting_any_iff)
    then show ?thesis using False set1 bnd by (auto simp: state_inv_def)
  qed
qed

lemma trim_awaiting [simp]: "b_awaiting_continuity (trim b) = b_awaiting_continuity b"
proof -
  have e: "b_awaiting_continuity (trim_excess c) = b_awaiting_continuity c" for c
  proof (induction c rule: trim_excess.induct)
    case (1 c)
    show ?case by (subst trim_excess.simps) (use 1 in \<open>simp add: trim_oldest_def Let_def\<close>)
  qed
  have "b_awaiting_continuity (retire_missing c) = b_awaiting_continuity c"
    "b_awaiting_continuity (retire_discontinuities c) = b_awaiting_continuity c" for c
    by (simp_all add: retire_missing_def retire_discontinuities_def Let_def
        split: option.split bool.split)
  then show ?thesis by (simp add: trim_def Let_def e)
qed

lemma place_awaiting: "b_awaiting_continuity (fst (place b x)) = b_awaiting_continuity b"
proof -
  have [simp]: "b_awaiting_continuity (check_coverage c t n) = b_awaiting_continuity c" for c t n
    by (simp add: check_coverage_def record_missing_def record_discontinuity_def Let_def
        split: option.split)
  show ?thesis
    by (cases "b_last_sequence b"; cases "sequence x")
      (simp_all add: place_def place_sequenced_def place_unsequenced_def record_discontinuity_def
        append_candle_def Let_def)
qed

lemma settle_awaiting:
  "b_awaiting_continuity (settle b x out) = (b_awaiting_continuity b \<and> out \<noteq> ACCEPTED)"
  by (simp add: settle_def Let_def touch_def split: option.split)

text \<open>Only an accepted candle proves continuity; nothing but a disconnection withdraws it.\<close>

lemma apply_awaiting:
  assumes "apply_obs b x = Inr (c, r)"
  shows "b_awaiting_continuity c = (b_awaiting_continuity b \<and> r \<noteq> Inr ACCEPTED)"
proof (cases "is_closed (candle x)")
  case False
  then show ?thesis
    using assms by (auto simp: apply_obs_def apply_forming_def touch_def split: if_splits)
next
  case True
  have p: "b_awaiting_continuity d = b_awaiting_continuity b"
    if "place (b\<lparr>b_sequenced := Some s\<rparr>) x = (d, q)" for s d q
    using place_awaiting [of "b\<lparr>b_sequenced := Some s\<rparr>" x] that by simp
  show ?thesis
    using assms True
    by (auto simp: apply_obs_def apply_closed_def repeat_closed_def Let_def settle_awaiting
        dest: p split: option.splits if_splits prod.splits sum.splits)
qed

lemma event_total:
  assumes inv: "state_inv m"
  shows "\<exists>m' r. apply_event m raw (Aware t off) = Inr (m', r) \<and> state_inv m'"
proof -
  let ?now = "Aware t off"
  have rej: "\<exists>m' r. Inr (reject m tf c ?now) = (Inr (m', r) :: (LiveMarketState \<times> ApplyOutcome checked) res)
      \<and> state_inv m'" for tf c
    using reject_inv [OF inv] by (metis surj_pair fst_conv)
  show ?thesis
  proof (cases "lm_connection m \<in> {CONNECTED, RECOVERING}")
    case False
    then have "apply_event m raw ?now = Inr (reject m (timeframe_in raw (lm_timeframes m)) NOT_CONNECTED ?now)"
      by (simp add: apply_event_def)
    then show ?thesis using rej by simp
  next
    case live: True
    show ?thesis
    proof (cases "timeframe_in raw (lm_timeframes m)")
      case None
      then have "apply_event m raw ?now = Inr (reject m None WRONG_STREAM ?now)"
        using live by (auto simp: apply_event_def)
      then show ?thesis using rej by simp
    next
      case tf: (Some tf)
      let ?v = "validate raw \<lparr>key_symbol = lm_symbol m, key_timeframe = tf\<rparr> ?now (lm_limits m)"
      obtain v where v: "?v = Inr v" by (simp add: validate_def)
      show ?thesis
      proof (cases v)
        case (Inl c)
        then have "apply_event m raw ?now = Inr (reject m (Some tf) c ?now)"
          using live tf v by (auto simp: apply_event_def)
        then show ?thesis using rej by simp
      next
        case obs: (Inr x)
        have fam: "family (live_book (lm_limits m)) (lm_books m)"
          using inv by (simp add: state_inv_def setup_inv_def)
        obtain b where b: "lm_books m tf = Some b"
          using timeframe_in_Some [OF tf] inv by (auto simp: state_inv_def setup_inv_def dom_def)
        have d: "deliverable tf x" using validate_deliverable v obs by fastforce
        obtain c r where a: "apply_obs b x = Inr (c, r)"
          and fam': "family (live_book (lm_limits m)) ((lm_books m)(tf \<mapsto> c))"
          using books.family_apply [OF fam b d] by blast
        have aw: "b_awaiting_continuity c = (b_awaiting_continuity b \<and> r \<noteq> Inr ACCEPTED)"
          by (rule apply_awaiting [OF a])
        let ?m = "m\<lparr>lm_books := (lm_books m)(tf \<mapsto> c)\<rparr>"
        note rep = book_replaced [OF inv live b fam']
        show ?thesis
        proof (cases r)
          case (Inl e)
          have same: "awaiting ?m = awaiting m"
            using aw Inl b by (auto simp: fun_eq_iff awaiting_def)
          have "state_inv ?m"
            using rep aw inv live by (auto simp: awaiting_any_iff same state_inv_def phase_inv_def
                split: if_splits)
          then have "state_inv (fst (reject ?m (Some tf) e ?now))" by (rule reject_inv)
          moreover have "apply_event m raw ?now = Inr (reject ?m (Some tf) e ?now)"
            using live tf v obs b a Inl by (auto simp: apply_event_def book_of_def)
          ultimately show ?thesis by (metis surj_pair fst_conv)
        next
          case (Inr out)
          have "apply_event m raw ?now =
              (if lm_connection m = RECOVERING \<and> \<not> awaiting_any ?m
               then Inr (?m\<lparr>lm_connection := CONNECTED\<rparr>, Inr out) else Inr (?m, Inr out))"
            using live tf v obs b a Inr by (auto simp: apply_event_def book_of_def Let_def move_def)
          then show ?thesis using rep aw by (auto split: if_splits)
        qed
      qed
    qed
  qed
qed

lemma live_step_total:
  assumes "state_inv m"
  shows "\<exists>m'. live_step m i = Inr m' \<and> state_inv m'"
proof (cases i)
  case (Signal k)
  then show ?thesis using signal_total [OF assms] by simp
next
  case (Event raw t off)
  then show ?thesis using event_total [OF assms, of raw t off] by (auto simp: res_simps)
qed

interpretation subscription: total_machine live_step state_inv
  by unfold_locales (metis live_step_total sum.inject(2))+


lemma reachable_inv:
  assumes "limits_ok l" and "make_state s tfs prov pol l = Inr m0" and "run_all live_step m0 is = Inr m"
  shows "state_inv m"
  using subscription.run_invar [OF make_state_inv [OF assms(1,2)] assms(3)] .

section \<open>Reading a subscription\<close>

lemma timeframe_status_book:
  assumes "timeframe_status m now tf = Inr ts"
  shows "\<exists>b. lm_books m tf = Some b \<and> ts_book ts = status b \<and> freshness_of m b now = Inr (ts_freshness ts)"
  using assms by (auto simp: timeframe_status_def book_of_def res_simps Let_def split: option.splits)

lemma timeframe_status_total:
  assumes inv: "state_inv m" and tf: "tf \<in> set (lm_timeframes m)"
  shows "\<exists>ts. timeframe_status m (Aware t off) tf = Inr ts"
proof -
  have s: "setup_inv m" using inv by (simp add: state_inv_def)
  obtain b where b: "lm_books m tf = Some b" using s tf by (auto simp: setup_inv_def dom_def)
  then have lb: "live_book (lm_limits m) tf b" using s by (auto simp: setup_inv_def family_def)
  obtain limit where th: "lm_thresholds m tf = Some limit"
    using s tf by (auto simp: setup_inv_def)
  have "b_timeframe b = tf" using lb by (simp add: live_book_def book_ok_def configured_def)
  then obtain f where "freshness_of m b (Aware t off) = Inr f"
    using lb th by (auto simp: freshness_of_def live_book_def heard_aware_def elapsed_def
        threshold_def split: option.splits)
  then show ?thesis using b th by (simp add: timeframe_status_def book_of_def threshold_def Let_def)
qed

lemma traverse_total: "(\<And>x. x \<in> set xs \<Longrightarrow> \<exists>y. f x = Inr y) \<Longrightarrow> \<exists>ys. traverse f xs = Inr ys"
proof (induction xs)
  case (Cons x xs)
  then obtain y ys where "f x = Inr y" "traverse f xs = Inr ys" by fastforce
  then show ?case by simp
qed simp

lemma snapshot_total: "state_inv m \<Longrightarrow> \<exists>s. snapshot m (Aware t off) = Inr s"
  using traverse_total [of "lm_timeframes m" "timeframe_status m (Aware t off)"] timeframe_status_total
  by (fastforce simp: snapshot_def make_snapshot_def)

lemma in_snapshot:
  assumes "snapshot m now = Inr s" and "ts \<in> set (ss_timeframes s)"
  shows "\<exists>tf \<in> set (lm_timeframes m). timeframe_status m now tf = Inr ts"
proof -
  obtain tss where t: "traverse (timeframe_status m now) (lm_timeframes m) = Inr tss"
    and e: "ss_timeframes s = tss"
    using assms(1) by (auto simp: snapshot_def make_snapshot_def res_simps split: if_splits)
  then have "list_all2 (\<lambda>x y. timeframe_status m now x = Inr y) (lm_timeframes m) tss"
    by (simp add: traverse_Inr)
  then show ?thesis using assms(2) e
    by (auto simp: list_all2_conv_all_nth in_set_conv_nth) (metis nth_mem)
qed

lemma only_if_Nil [simp]: "only_if c x = [] \<longleftrightarrow> \<not> c"
  by (simp add: only_if_def)

lemma only_if_False [simp]: "only_if False x = []" "only_if True x = [x]"
  by (simp_all add: only_if_def)

lemma available_facts:
  assumes "timeframe_status m now tf = Inr ts" and "ts_availability ts = AVAILABLE"
  shows "lm_connection m \<in> {CONNECTED, RECOVERING} \<and> ts_freshness ts = FRESH
    \<and> st_integrity (ts_book ts) = COMPLETE \<and> st_closed_count (ts_book ts) \<noteq> 0
    \<and> \<not> st_awaiting_continuity (ts_book ts)"
  using assms
  by (auto simp: timeframe_status_def res_simps Let_def issue_reasons_def connection_reasons_def
      freshness_reasons_def split: if_splits ConnectionState.splits Freshness.splits)

text \<open>The books an event leaves: unchanged, or one of them after a validated observation.\<close>

definition books_after ::
  "LiveMarketState \<Rightarrow> RawCandleEvent \<Rightarrow> moment \<Rightarrow> (Timeframe \<Rightarrow> CandleBook option) \<Rightarrow> bool" where
  "books_after m raw now books \<longleftrightarrow> books = lm_books m \<or>
     (\<exists>tf b x c q. tf \<in> set (lm_timeframes m) \<and> lm_books m tf = Some b \<and> apply_obs b x = Inr (c, q)
        \<and> validate raw \<lparr>key_symbol = lm_symbol m, key_timeframe = tf\<rparr> now (lm_limits m) = Inr (Inr x)
        \<and> books = (lm_books m)(tf \<mapsto> c))"

lemma books_after_same: "books_after m raw now (lm_books m)"
  by (simp add: books_after_def)

lemma apply_event_cases:
  assumes "apply_event m raw now = Inr (m', r)"
  obtains (refused) tf c books where "books_after m raw now books"
      and "(m', r) = reject (m\<lparr>lm_books := books\<rparr>) tf c now"
      and "lm_connection m \<notin> {CONNECTED, RECOVERING} \<longrightarrow> books = lm_books m"
    | (applied) out books where "books_after m raw now books"
      and "lm_connection m \<in> {CONNECTED, RECOVERING}" "r = Inr out"
      and "m' = m\<lparr>lm_books := books\<rparr> \<or> m' = m\<lparr>lm_books := books, lm_connection := CONNECTED\<rparr>"
proof (cases "lm_connection m \<in> {CONNECTED, RECOVERING}")
  case False
  then have "(m', r) = reject (m\<lparr>lm_books := lm_books m\<rparr>) (timeframe_in raw (lm_timeframes m)) NOT_CONNECTED now"
    using assms by (simp add: apply_event_def)
  then show ?thesis using refused [OF books_after_same] by blast
next
  case live: True
  show ?thesis
  proof (cases "timeframe_in raw (lm_timeframes m)")
    case None
    then have "(m', r) = reject (m\<lparr>lm_books := lm_books m\<rparr>) None WRONG_STREAM now"
      using assms live by (auto simp: apply_event_def)
    then show ?thesis using refused [OF books_after_same] by blast
  next
    case tf: (Some tf)
    obtain v where v: "validate raw \<lparr>key_symbol = lm_symbol m, key_timeframe = tf\<rparr> now (lm_limits m) = Inr v"
      using assms live tf by (auto simp: apply_event_def res_simps)
    show ?thesis
    proof (cases v)
      case (Inl c)
      then have "(m', r) = reject (m\<lparr>lm_books := lm_books m\<rparr>) (Some tf) c now"
        using assms live tf v by (auto simp: apply_event_def)
      then show ?thesis using refused [OF books_after_same] by blast
    next
      case (Inr x)
      obtain b where b: "lm_books m tf = Some b"
        using assms live tf v Inr by (auto simp: apply_event_def book_of_def split: option.splits)
      obtain c q where a: "apply_obs b x = Inr (c, q)"
        using assms live tf v Inr b by (auto simp: apply_event_def book_of_def res_simps)
      let ?m = "m\<lparr>lm_books := (lm_books m)(tf \<mapsto> c)\<rparr>"
      have ba: "books_after m raw now ((lm_books m)(tf \<mapsto> c))"
        using timeframe_in_Some [OF tf] v b a Inr unfolding books_after_def by blast
      show ?thesis
      proof (cases q)
        case (Inl e)
        then have "(m', r) = reject ?m (Some tf) e now"
          using assms live tf v \<open>v = Inr x\<close> b a by (auto simp: apply_event_def book_of_def)
        then show ?thesis using refused [OF ba] live by blast
      next
        case (Inr out)
        have "r = Inr out \<and> (m' = ?m \<or> m' = ?m\<lparr>lm_connection := CONNECTED\<rparr>)"
          using assms live tf v \<open>v = Inr x\<close> b a Inr
          by (auto simp: apply_event_def book_of_def Let_def move_def split: if_splits)
        then show ?thesis using applied [OF ba live] by simp
      qed
    qed
  qed
qed


section \<open>What the books hold has been validated\<close>

lemma apply_obs_history:
  assumes "book_ok tf l b" and "apply_obs b x = Inr (c, r)" and "y \<in> set (b_closed c)"
  shows "y \<in> set (b_closed b) \<or> y = x \<and> is_closed (candle x)"
proof (cases "r \<in> {Inr ACCEPTED, Inr LATE_FILL}")
  case False
  then show ?thesis using kept_closed [OF assms(1,2)] assms(3) by simp
next
  case True
  then obtain out where r: "r = Inr out" "out \<in> {ACCEPTED, LATE_FILL}" by auto
  then have a: "apply_obs b x = Inr (c, Inr out)" using assms(2) by simp
  have "is_closed (candle x)"
    using a r by (auto simp: apply_obs_def apply_forming_def split: if_splits)
  moreover have "set (b_closed c) \<subseteq> insert x (set (b_closed b))"
    using placed_history(3) [OF assms(1) fresh_placement(2,1) [OF assms(1) a r(2)]]
  proof (elim disjE conjE exE)
    assume "b_closed c = drop (Suc (length (b_closed b)) - max_closed_candles l) (b_closed b @ [x])"
    then have "set (b_closed c) \<subseteq> set (b_closed b @ [x])" by (simp only: set_drop_subset)
    then show ?thesis by simp
  next
    fix p assume "b_closed c =
      drop (Suc (length (b_closed b)) - max_closed_candles l) (insert_at p x (b_closed b))"
    then have "set (b_closed c) \<subseteq> set (insert_at p x (b_closed b))" by (simp only: set_drop_subset)
    then show ?thesis by simp
  qed
  ultimately show ?thesis using assms(3) by blast
qed

definition confirmed_all :: "(Timeframe \<Rightarrow> Observation \<Rightarrow> bool) \<Rightarrow> LiveMarketState \<Rightarrow> bool" where
  "confirmed_all P m \<longleftrightarrow>
     (\<forall>tf b x. lm_books m tf = Some b \<longrightarrow> x \<in> set (confirmed b) \<longrightarrow> P tf x)"

definition validated :: "string \<Rightarrow> LiveLimits \<Rightarrow> Timeframe \<Rightarrow> Observation \<Rightarrow> bool" where
  "validated s l tf x \<longleftrightarrow> is_closed (candle x) \<and>
     observation_sound \<lparr>key_symbol = s, key_timeframe = tf\<rparr> l (received_at x) x"

lemma frame_setup:
  "apply_signal m k = Inr m' \<Longrightarrow> lm_symbol m' = lm_symbol m \<and> lm_limits m' = lm_limits m
     \<and> (\<forall>tf b. lm_books m' tf = Some b \<longrightarrow> (\<exists>b0. lm_books m tf = Some b0 \<and> b_closed b = b_closed b0))"
proof -
  assume a: "apply_signal m k = Inr m'"
  have mv: "lm_symbol n' = lm_symbol n \<and> lm_limits n' = lm_limits n \<and> lm_books n' = lm_books n"
    if "move n c = Inr n'" for n n' c
    using that by (auto simp: move_def split: if_splits)
  have tm: "lm_symbol n' = lm_symbol n \<and> lm_limits n' = lm_limits n \<and> lm_books n' = lm_books n"
    if "terminate n c = Inr n'" for n n' c
    using that by (auto simp: terminate_def res_simps split: if_splits dest!: mv)
  show ?thesis
    using a by (cases k) (auto simp: apply_signal_def Let_def res_simps mark_disconnected_def
        split: if_splits dest!: mv tm)
qed

lemma step_validated:
  assumes lim: "limits_finite (lm_limits m)" and inv: "state_inv m" and st: "live_step m i = Inr m'"
    and old: "confirmed_all (validated (lm_symbol m) (lm_limits m)) m"
  shows "confirmed_all (validated (lm_symbol m') (lm_limits m')) m' \<and> lm_symbol m' = lm_symbol m
    \<and> lm_limits m' = lm_limits m"
proof (cases i)
  case (Signal k)
  then show ?thesis
    using frame_setup [of m k m'] st old by (fastforce simp: confirmed_all_def confirmed_def)
next
  case (Event raw t off)
  let ?now = "Aware t off"
  obtain r where ev: "apply_event m raw ?now = Inr (m', r)"
    using st Event by (auto simp: res_simps)
  have new: "confirmed_all (validated (lm_symbol m) (lm_limits m)) (m\<lparr>lm_books := books\<rparr>)"
    if ba: "books_after m raw ?now books" for books
  proof (cases "books = lm_books m")
    case True
    then show ?thesis using old by (simp add: confirmed_all_def)
  next
    case False
    then obtain tf b x c q where b: "lm_books m tf = Some b" "apply_obs b x = Inr (c, q)"
      and v: "validate raw \<lparr>key_symbol = lm_symbol m, key_timeframe = tf\<rparr> ?now (lm_limits m) = Inr (Inr x)"
      and bs: "books = (lm_books m)(tf \<mapsto> c)"
      using ba unfolding books_after_def by blast
    have ok: "book_ok tf (lm_limits m) b"
      using inv b(1) by (auto simp: state_inv_def setup_inv_def family_def live_book_def)
    have "observation_sound \<lparr>key_symbol = lm_symbol m, key_timeframe = tf\<rparr> (lm_limits m) ?now x"
      using validate_raw_sound [OF lim] v by (auto simp: validate_def)
    moreover from this have "received_at x = ?now" by (simp add: observation_sound_def)
    ultimately have "is_closed (candle x) \<longrightarrow> validated (lm_symbol m) (lm_limits m) tf x"
      by (simp add: validated_def)
    then show ?thesis
      using old apply_obs_history [OF ok b(2)] b(1)
      by (auto simp: confirmed_all_def bs confirmed_def)
  qed
  from ev show ?thesis
  proof (cases rule: apply_event_cases)
    case (refused tf c books)
    then show ?thesis using new [OF refused(1)] by (simp add: reject_def confirmed_all_def)
  next
    case (applied out books)
    then show ?thesis using new [OF applied(1)] by (auto simp: confirmed_all_def)
  qed
qed

lemma run_validated:
  assumes "state_inv m" and "limits_finite (lm_limits m)" and "run_all live_step m is = Inr m'"
    and "confirmed_all (validated (lm_symbol m) (lm_limits m)) m"
  shows "confirmed_all (validated (lm_symbol m) (lm_limits m)) m'"
  using assms
proof (induction "is" arbitrary: m)
  case (Cons i "is")
  then obtain n where n: "live_step m i = Inr n" "run_all live_step n is = Inr m'"
    by (auto simp: res_simps)
  note st = step_validated [OF Cons.prems(2,1) n(1) Cons.prems(4)]
  have "state_inv n" using live_step_total [OF Cons.prems(1), of i] n(1) by auto
  then show ?case using Cons.IH [OF _ _ n(2)] st Cons.prems(2) by metis
qed simp

end
