(* ===== verification/Live_Alerts.thy ===== *)
theory Live_Alerts
  imports Live_State_Props
begin

text \<open>
  \<open>app/domain/live/alerts.py\<close>: alert candidates derived from a snapshot. The numbers a detail text
  quotes are arguments of its constructor.
\<close>

datatype AlertKind =
    DATA_STALE
  | PROVIDER_DISCONNECTED
  | RECOVERY_PENDING
  | DATA_GAP
  | DATA_DISCONTINUITY
  | DATA_CONFLICT
  | CONTINUITY_UNPROVEN
  | INVALID_OBSERVATIONS
  | STREAM_OVERLOADED
  | STREAM_ENDED

datatype AlertDetail =
    PlainText
  | EndedBecause "TerminationReason option"
  | MissingCandles nat bool
  | Jumps nat nat
  | Refused nat

record AlertCandidate =
  al_kind :: AlertKind
  al_timeframe :: "Timeframe option"
  al_detail :: AlertDetail

definition alert :: "AlertKind \<Rightarrow> Timeframe option \<Rightarrow> AlertDetail \<Rightarrow> AlertCandidate" where
  "alert k tf d = \<lparr>al_kind = k, al_timeframe = tf, al_detail = d\<rparr>"

definition connection_alerts :: "MarketStateSnapshot \<Rightarrow> AlertCandidate list" where
  "connection_alerts s =
     (case ss_connection s of
        DISCONNECTED \<Rightarrow> [alert PROVIDER_DISCONNECTED None PlainText]
      | RECOVERING \<Rightarrow> [alert RECOVERY_PENDING None PlainText]
      | TERMINATED \<Rightarrow>
          if ss_termination_reason s = Some OVERLOADED
          then [alert STREAM_OVERLOADED None PlainText]
          else [alert STREAM_ENDED None (EndedBecause (ss_termination_reason s))]
      | _ \<Rightarrow> [])"

definition timeframe_alerts :: "TimeframeStatus \<Rightarrow> AlertCandidate list" where
  "timeframe_alerts i =
     (let b = ts_book i; tf = Some (st_timeframe b) in
      only_if (ts_freshness i = STALE) (alert DATA_STALE tf PlainText)
      @ (case st_integrity b of
           GAPPED \<Rightarrow>
             [alert DATA_GAP tf (MissingCandles (st_missing_sequences b) (st_missing_overflowed b))]
         | DISCONTINUOUS \<Rightarrow>
             [alert DATA_DISCONTINUITY tf (Jumps (st_temporal_gaps b) (st_sequence_mismatches b))]
         | UNVERIFIED \<Rightarrow> only_if (st_forming_ahead b) (alert CONTINUITY_UNPROVEN tf PlainText)
         | CONFLICTED \<Rightarrow> [alert DATA_CONFLICT tf PlainText]
         | COMPLETE \<Rightarrow> []))"

definition all_codes :: "RejectionCode list" where
  "all_codes =
     [MALFORMED, NAIVE_TIMESTAMP, WRONG_STREAM, INVALID_SYMBOL, MISALIGNED_OPEN_TIME, NON_DECIMAL,
      NON_FINITE, NON_POSITIVE_PRICE, OUT_OF_BOUNDS, NEGATIVE_VOLUME, INCONSISTENT_OHLC,
      PREMATURE_CLOSE, FORMING_OUTSIDE_INTERVAL, FUTURE_EVENT, INVALID_SEQUENCE, ORDER_VIOLATION,
      LATE_UNSEQUENCED, MIXED_SEQUENCING, STALE_FORMING, NOT_CONNECTED]"

definition rejected_total :: "(RejectionCode \<Rightarrow> nat) \<Rightarrow> nat" where
  "rejected_total counts = sum_list (map counts all_codes)"

definition alert_candidates :: "MarketStateSnapshot \<Rightarrow> AlertCandidate list" where
  "alert_candidates s =
     connection_alerts s @ concat (map timeframe_alerts (ss_timeframes s))
     @ (let n = rejected_total (ss_rejection_counts s) in
        only_if (n \<noteq> 0) (alert INVALID_OBSERVATIONS None (Refused n)))"

section \<open>Refused observations are counted\<close>

lemma all_codes: "set all_codes = UNIV" "distinct all_codes"
  using RejectionCode.exhaust by (auto simp: all_codes_def)

lemma rejected_total_update:
  "rejected_total (f(c := Suc (f c))) = Suc (rejected_total f)"
proof -
  have "sum_list (map (f(c := Suc (f c))) cs) = sum_list (map f cs) + (if c \<in> set cs then 1 else 0)"
    if "distinct cs" for cs :: "RejectionCode list"
    using that by (induction cs) auto
  from this [OF all_codes(2)] show ?thesis by (simp add: rejected_total_def all_codes(1))
qed

text \<open>The number of observations refused along a run.\<close>

fun refusals :: "LiveMarketState \<Rightarrow> live_input list \<Rightarrow> nat" where
  "refusals m [] = 0"
| "refusals m (Signal k # is) =
     (case live_step m (Signal k) of Inl e \<Rightarrow> 0 | Inr m' \<Rightarrow> refusals m' is)"
| "refusals m (Event raw t off # is) =
     (case apply_event m raw (Aware t off) of
        Inl e \<Rightarrow> 0
      | Inr (m', Inl c) \<Rightarrow> Suc (refusals m' is)
      | Inr (m', Inr out) \<Rightarrow> refusals m' is)"

lemma counts_frame:
  "terminate m r = Inr m' \<Longrightarrow> lm_rejection_counts m' = lm_rejection_counts m"
  "move m c = Inr m' \<Longrightarrow> lm_rejection_counts m' = lm_rejection_counts m"
  by (auto simp: terminate_def move_def res_simps split: if_splits)

lemma signal_counts:
  "apply_signal m k = Inr m' \<Longrightarrow> lm_rejection_counts m' = lm_rejection_counts m"
  by (cases k) (auto simp: apply_signal_def Let_def res_simps dest!: counts_frame split: if_splits)

lemma event_counts:
  assumes "apply_event m raw now = Inr (m', r)"
  shows "lm_rejection_counts m' = (case r of
      Inl c \<Rightarrow> (lm_rejection_counts m)(c := Suc (lm_rejection_counts m c))
    | Inr out \<Rightarrow> lm_rejection_counts m)"
  using assms by (cases rule: apply_event_cases) (auto simp: reject_def)

lemma refusals_counted:
  assumes "run_all live_step m is = Inr m'"
  shows "rejected_total (lm_rejection_counts m') =
     rejected_total (lm_rejection_counts m) + refusals m is"
  using assms
proof (induction m "is" rule: refusals.induct)
  case (2 m k "is")
  then show ?case using signal_counts [of m k] by (fastforce simp: res_simps)
next
  case (3 m raw t off "is")
  from 3(3) obtain m1 r where a: "apply_event m raw (Aware t off) = Inr (m1, r)"
    and run: "run_all live_step m1 is = Inr m'"
    by (auto simp: res_simps)
  show ?case
    using 3(1,2) a run event_counts [OF a]
    by (cases r) (auto simp: rejected_total_update simp del: fun_upd_apply)
qed simp

end
