(* ===== verification/Live_Properties.thy ===== *)
theory Live_Properties
  imports Live_Alerts
begin

text \<open>
  The properties of a subscription: what its state, its snapshots and its alerts promise along every
  sequence of provider signals and raw events.
\<close>

section \<open>Example\<close>

definition sample_policy :: "Timeframe \<Rightarrow> int option" where
  "sample_policy = [M1 \<mapsto> 150 * 1000000]"

definition sample_state :: "LiveMarketState res" where
  "sample_state =
     make_state ''F_XU030'' [M1] SIMULATED_HISTORICAL_STREAM sample_policy default_limits"

definition raw_candle :: "int \<Rightarrow> PyObj \<Rightarrow> RawCandleEvent" where
  "raw_candle slot price =
     \<lparr>raw_symbol = PyStr ''F_XU030'', raw_timeframe = PyStr ''1M'',
      raw_open_time = PyDatetime (Aware (slot * minute) 0), raw_open = price, raw_high = price,
      raw_low = price, raw_close = price, raw_volume = PyDecimal (DFin False 5 0),
      raw_closed = PyBool True, raw_event_time = PyDatetime (Aware ((slot + 1) * minute) 0),
      raw_sequence = PyInt slot, raw_published_at = PyNone\<rparr>"

definition sample_feed :: "live_input list" where
  "sample_feed =
     [Signal SIG_CONNECTED, Event (raw_candle 0 (PyDecimal (DFin False 100 0))) minute 0,
      Event (raw_candle 1 PyNone) (2 * minute) 0,
      Event (raw_candle 1 (PyDecimal (DFin False 101 0))) (2 * minute) 0]"

named_theorems live_eval

lemmas live_eval_rules [live_eval] = sample_state_def sample_policy_def sample_feed_def raw_candle_def
  make_state_def threshold_def apply_signal_def move_def terminate_def apply_event_def reject_def
  validate_def validate_raw_def checked_symbol_def checked_time_def checked_price_def
  checked_volume_def checked_shape_def checked_published_def checked_sequence_def bounded_scale_def
  aligned_timeframe_def on_interval_grid_def symbol_matches_def dec_max_def dec_min_def
  awaiting_any_def all_timeframes_def dec_of_int_def scaled_def signed_def dec_zero_def book_of_def symbol_char_def dec_le_def
  snapshot_def timeframe_status_def freshness_of_def elapsed_def status_def issue_reasons_def
  connection_reasons_def freshness_reasons_def make_snapshot_def available_timeframes_def


lemma sample_feed_runs:
  "got sample_state (\<lambda>m. got (run_all live_step m sample_feed) (\<lambda>m'.
     lm_connection m' = CONNECTED \<and>
     got (snapshot m' (Aware (3 * minute) 0)) (\<lambda>s. available_timeframes s = [M1])))"
  by (simp add: live_eval book_eval dec_eval Let_def cong: let_weak_cong)

definition sample_reconnect :: "live_input list" where
  "sample_reconnect = sample_feed @ [Signal SIG_DISCONNECTED, Signal SIG_CONNECTED]"

lemma sample_reconnect_runs:
  "got sample_state (\<lambda>m. got (run_all live_step m sample_reconnect)
     (\<lambda>m'. lm_connection m' = RECOVERING \<and> lm_reconnects m' = 1))"
  by (simp add: sample_reconnect_def live_eval book_eval dec_eval Let_def cong: let_weak_cong)

definition sample_ended :: "live_input list" where
  "sample_ended = [Signal SIG_CONNECTED, Signal OVERFLOW]"

lemma sample_ended_runs:
  "got sample_state (\<lambda>m. got (run_all live_step m sample_ended)
     (\<lambda>m'. lm_connection m' = TERMINATED \<and> got (run_all live_step m' sample_feed) (\<lambda>m''. True)))"
  by (simp add: sample_ended_def live_eval book_eval dec_eval Let_def cong: let_weak_cong)

section \<open>Properties\<close>


lemma sample_made: "sample_state = Inr m \<Longrightarrow>
    make_state ''F_XU030'' [M1] SIMULATED_HISTORICAL_STREAM sample_policy default_limits = Inr m"
  by (simp add: sample_state_def)


text \<open>
  C8: a timeframe is reported available only when it is: the stream is connected or recovering, its
  own continuity is proven, its confirmed history is non-empty and gapless, and a valid observation
  arrived no longer ago than its freshness threshold.
\<close>

theorem available_means_usable:
  assumes "limits_ok l" and "make_state s tfs prov pol l = Inr m0" and "run_all live_step m0 is = Inr m"
    and "snapshot m now = Inr snap" and "tf \<in> set (available_timeframes snap)"
  shows "lm_connection m \<in> {CONNECTED, RECOVERING} \<and>
    (\<exists>b r limit. lm_books m tf = Some b \<and> confirmed b \<noteq> [] \<and> integrity b = COMPLETE
       \<and> successively (step_exact b) (confirmed b) \<and> \<not> b_awaiting_continuity b
       \<and> b_last_received_at b = Some r \<and> lm_thresholds m tf = Some limit
       \<and> instant now - instant r \<le> limit)"
proof -
  have inv: "state_inv m" by (rule reachable_inv [OF assms(1-3)])
  obtain ts where ts: "ts \<in> set (ss_timeframes snap)" "ts_availability ts = AVAILABLE"
    "st_timeframe (ts_book ts) = tf"
    using assms(5) by (auto simp: available_timeframes_def)
  obtain tf' where tf': "timeframe_status m now tf' = Inr ts"
    using in_snapshot [OF assms(4) ts(1)] by blast
  obtain b where b: "lm_books m tf' = Some b" "ts_book ts = status b"
    "freshness_of m b now = Inr (ts_freshness ts)"
    using timeframe_status_book [OF tf'] by blast
  note fam = inv [unfolded state_inv_def setup_inv_def]
  have lb: "live_book (lm_limits m) tf' b" using fam b(1) by (auto simp: family_def)
  then have same: "tf' = tf" "b_timeframe b = tf"
    using ts(3) b(2) by (auto simp: live_book_def book_ok_def configured_def status_def Let_def)
  note av = available_facts [OF tf' ts(2)]
  have i: "integrity b = COMPLETE" using av b(2) by (simp add: status_def Let_def)
  have "successively (step_exact b) (confirmed b)"
    using books.family_contiguous [of "lm_limits m" "lm_books m" tf' b] fam b(1) i by blast
  moreover have "\<exists>r limit. b_last_received_at b = Some r \<and> lm_thresholds m tf = Some limit
      \<and> instant now - instant r \<le> limit"
    using av b(3) same by (auto simp: freshness_of_def elapsed_def threshold_def res_simps
        split: option.splits if_splits)
  ultimately show ?thesis
    using av b same i by (auto simp: status_def Let_def confirmed_def)
qed

theorem available_means_usable_witness:
  "got sample_state (\<lambda>m. got (run_all live_step m sample_feed) (\<lambda>m'.
     \<exists>b. lm_books m' M1 = Some b \<and> confirmed b \<noteq> [] \<and> successively (step_exact b) (confirmed b)))"
proof (rule gotE [OF sample_feed_runs])
  fix m assume m: "sample_state = Inr m"
    and g: "got (run_all live_step m sample_feed) (\<lambda>m'. lm_connection m' = CONNECTED \<and>
     got (snapshot m' (Aware (3 * minute) 0)) (\<lambda>s. available_timeframes s = [M1]))"
  then obtain m' snap where "run_all live_step m sample_feed = Inr m'"
    and "snapshot m' (Aware (3 * minute) 0) = Inr snap" "available_timeframes snap = [M1]"
    by (auto simp: got_iff)
  then show ?thesis
    using available_means_usable [OF default_limits_ok sample_made [OF m]] by (fastforce simp: m)
qed

text \<open>
  C9: connection and continuity never disagree. While a subscription is CONNECTED no timeframe is
  waiting for proof of continuity, while it is DISCONNECTED every one is, and it stays RECOVERING as
  long as any is: a reconnection alone never counts as recovered coverage.
\<close>

theorem connection_matches_continuity:
  assumes "limits_ok l" and "make_state s tfs prov pol l = Inr m0" and "run_all live_step m0 is = Inr m"
  shows "case lm_connection m of
      CONNECTED \<Rightarrow> (\<forall>tf. \<not> awaiting m tf)
    | INITIALIZING \<Rightarrow> (\<forall>tf. \<not> awaiting m tf)
    | DISCONNECTED \<Rightarrow> list_all (awaiting m) (lm_timeframes m)
    | RECOVERING \<Rightarrow> (\<exists>tf. awaiting m tf)
    | TERMINATED \<Rightarrow> lm_termination_reason m \<noteq> None"
  using reachable_inv [OF assms]
  by (auto simp: state_inv_def phase_inv_def bounds_inv_def list_all_iff split: ConnectionState.split)

theorem connection_matches_continuity_witness:
  "got sample_state (\<lambda>m. got (run_all live_step m sample_reconnect) (\<lambda>m'. \<exists>tf. awaiting m' tf))"
proof (rule gotE [OF sample_reconnect_runs])
  fix m assume m: "sample_state = Inr m"
    and g: "got (run_all live_step m sample_reconnect)
      (\<lambda>m'. lm_connection m' = RECOVERING \<and> lm_reconnects m' = 1)"
  then obtain m' where "run_all live_step m sample_reconnect = Inr m'" "lm_connection m' = RECOVERING"
    by (auto simp: got_iff)
  then show ?thesis
    using connection_matches_continuity [OF default_limits_ok sample_made [OF m], of sample_reconnect]
    by (simp add: m)
qed

text \<open>
  C10: a stream that has ended stays ended. Once a subscription is TERMINATED, no signal or event
  revives it, changes the reason it ended, its reconnect count or any of its books.
\<close>

lemma ended_step:
  assumes "lm_connection m = TERMINATED" and "live_step m i = Inr m'"
  shows "lm_connection m' = TERMINATED \<and> lm_termination_reason m' = lm_termination_reason m
    \<and> lm_books m' = lm_books m \<and> lm_reconnects m' = lm_reconnects m"
proof (cases i)
  case (Signal k)
  then show ?thesis using assms by (simp add: apply_signal_def)
next
  case (Event raw t off)
  then show ?thesis using assms by (auto simp: res_simps apply_event_def reject_def)
qed

theorem ended_stream_is_final:
  assumes "lm_connection m = TERMINATED" and "run_all live_step m is = Inr m'"
  shows "lm_connection m' = TERMINATED \<and> lm_termination_reason m' = lm_termination_reason m
    \<and> lm_books m' = lm_books m \<and> lm_reconnects m' = lm_reconnects m"
  using assms
proof (induction "is" arbitrary: m)
  case (Cons i "is")
  then obtain n where n: "live_step m i = Inr n" "run_all live_step n is = Inr m'"
    by (auto simp: res_simps)
  show ?case using Cons.IH [OF _ n(2)] ended_step [OF Cons.prems(1) n(1)] by metis
qed simp

theorem ended_stream_is_final_witness:
  "got sample_state (\<lambda>m. got (run_all live_step m sample_ended) (\<lambda>m'.
     got (run_all live_step m' sample_feed) (\<lambda>m''.
       lm_connection m'' = TERMINATED \<and> lm_books m'' = lm_books m')))"
proof (rule gotE [OF sample_ended_runs])
  fix m assume m: "sample_state = Inr m"
    and g: "got (run_all live_step m sample_ended)
     (\<lambda>m'. lm_connection m' = TERMINATED \<and> got (run_all live_step m' sample_feed) (\<lambda>m''. True))"
  then obtain m' m'' where r: "run_all live_step m sample_ended = Inr m'" "lm_connection m' = TERMINATED"
    "run_all live_step m' sample_feed = Inr m''"
    by (auto simp: got_iff)
  show ?thesis using ended_stream_is_final [OF r(2,3)] r by (simp add: m)
qed

lemma step_limits:
  assumes "live_step m i = Inr m'"
  shows "lm_limits m' = lm_limits m"
proof (cases i)
  case (Signal k)
  then show ?thesis using assms frame_setup by auto
next
  case (Event raw t off)
  then obtain r where "apply_event m raw (Aware t off) = Inr (m', r)"
    using assms by (auto simp: res_simps)
  then show ?thesis by (cases rule: apply_event_cases) (auto simp: reject_def)
qed

lemma run_limits: "run_all live_step m is = Inr m' \<Longrightarrow> lm_limits m' = lm_limits m"
  by (induction "is" arbitrary: m) (auto simp: res_simps dest: step_limits)

text \<open>
  Refused observations are all counted and none is kept without bound. The counters sum to the
  number of events refused since the start, the log of recent refusals and the reconnect count stay
  within their limits, and exceeding the reconnect limit ends the stream.
\<close>

theorem refusals_counted_and_bounded:
  assumes "limits_ok l" and "make_state s tfs prov pol l = Inr m0" and "run_all live_step m0 is = Inr m"
  shows "rejected_total (lm_rejection_counts m) = refusals m0 is
    \<and> length (lm_rejections m) \<le> max_recorded_issues l
    \<and> (lm_reconnects m \<le> max_reconnects l \<or>
       lm_reconnects m = Suc (max_reconnects l) \<and> lm_connection m = TERMINATED)"
proof -
  have zero: "rejected_total (lm_rejection_counts m0) = 0"
    using assms(2) by (auto simp: make_state_def res_simps rejected_total_def)
  have "lm_limits m = l"
    using run_limits [OF assms(3)] assms(2) by (auto simp: make_state_def res_simps)
  then show ?thesis
    using reachable_inv [OF assms] refusals_counted [OF assms(3)] zero
    by (auto simp: state_inv_def bounds_inv_def)
qed

theorem refusals_counted_and_bounded_witness:
  "got sample_state (\<lambda>m. got (run_all live_step m sample_feed) (\<lambda>m'.
     rejected_total (lm_rejection_counts m') = refusals m sample_feed))"
proof (rule gotE [OF sample_feed_runs])
  fix m assume m: "sample_state = Inr m"
    and g: "got (run_all live_step m sample_feed) (\<lambda>m'. lm_connection m' = CONNECTED \<and>
     got (snapshot m' (Aware (3 * minute) 0)) (\<lambda>s. available_timeframes s = [M1]))"
  then show ?thesis
    using refusals_counted_and_bounded [OF default_limits_ok sample_made [OF m], of sample_feed]
    by (auto simp: m got_iff)
qed

text \<open>
  C12: alerts are complete for a connected stream. When the snapshot of a CONNECTED subscription
  raises no alert at all, every timeframe that has received an observation and confirmed a candle is
  available, and nothing has been refused.
\<close>

lemma integrity_status: "st_integrity (status b) = integrity b"
  by (simp add: status_def Let_def)

lemma complete_status:
  assumes "integrity b = COMPLETE"
  shows "issue_reasons (status b) = []"
  using assms by (simp add: issue_reasons_def status_def Let_def integrity_def split: if_splits)

theorem no_alert_means_available:
  assumes "limits_ok l" and "make_state s tfs prov pol l = Inr m0" and "run_all live_step m0 is = Inr m"
    and "snapshot m now = Inr snap" and "lm_connection m = CONNECTED" and "alert_candidates snap = []"
    and "ts \<in> set (ss_timeframes snap)"
  shows "rejected_total (lm_rejection_counts m) = 0 \<and>
    (ts_freshness ts = NO_DATA \<or> st_closed_count (ts_book ts) = 0 \<or> ts_availability ts = AVAILABLE)"
proof -
  have inv: "state_inv m" by (rule reachable_inv [OF assms(1-3)])
  obtain tf where tf: "timeframe_status m now tf = Inr ts"
    using in_snapshot [OF assms(4,7)] by blast
  obtain b where b: "lm_books m tf = Some b" "ts_book ts = status b"
    using timeframe_status_book [OF tf] by blast
  have none: "timeframe_alerts ts = []" and z: "rejected_total (ss_rejection_counts snap) = 0"
    using assms(6,7) by (auto simp: alert_candidates_def Let_def)
  have "ss_rejection_counts snap = lm_rejection_counts m"
    using assms(4) by (auto simp: snapshot_def make_snapshot_def res_simps split: if_splits)
  have "\<not> b_awaiting_continuity b"
    using inv assms(5) b(1) by (auto simp: state_inv_def phase_inv_def awaiting_def dest: spec [of _ tf])
  then have "integrity b = COMPLETE"
    using none b(2) by (auto simp: timeframe_alerts_def Let_def status_def integrity_def split: if_splits)
  moreover have "ts_freshness ts \<noteq> STALE" using none by (auto simp: timeframe_alerts_def Let_def)
  ultimately have "ts_freshness ts = NO_DATA \<or> st_closed_count (ts_book ts) = 0 \<or> ts_availability ts = AVAILABLE"
    using tf b assms(5) complete_status [of b]
    by (cases "ts_freshness ts")
      (auto simp: timeframe_status_def book_of_def res_simps Let_def connection_reasons_def
        freshness_reasons_def integrity_status split: if_splits)
  then show ?thesis using z \<open>ss_rejection_counts snap = _\<close> by simp
qed


lemma sample_quiet_runs:
  "got sample_state (\<lambda>m. got (run_all live_step m (take 2 sample_feed)) (\<lambda>m'.
     lm_connection m' = CONNECTED \<and>
     got (snapshot m' (Aware (2 * minute) 0)) (\<lambda>s. alert_candidates s = []
       \<and> list_all (\<lambda>ts. ts_freshness ts = FRESH \<and> st_closed_count (ts_book ts) = 1)
           (ss_timeframes s) \<and> length (ss_timeframes s) = 1)))"
  by (simp add: live_eval book_eval dec_eval alert_candidates_def connection_alerts_def
      timeframe_alerts_def rejected_total_def all_codes_def Let_def cong: let_weak_cong)

theorem no_alert_means_available_witness:
  "got sample_state (\<lambda>m. got (run_all live_step m (take 2 sample_feed)) (\<lambda>m'.
     got (snapshot m' (Aware (2 * minute) 0)) (\<lambda>s. ts_availability (hd (ss_timeframes s)) = AVAILABLE)))"
proof (rule gotE [OF sample_quiet_runs])
  fix m assume m: "sample_state = Inr m"
    and g: "got (run_all live_step m (take 2 sample_feed)) (\<lambda>m'. lm_connection m' = CONNECTED \<and>
     got (snapshot m' (Aware (2 * minute) 0)) (\<lambda>s. alert_candidates s = []
       \<and> list_all (\<lambda>ts. ts_freshness ts = FRESH \<and> st_closed_count (ts_book ts) = 1)
           (ss_timeframes s) \<and> length (ss_timeframes s) = 1))"
  then obtain m' snap where r: "run_all live_step m (take 2 sample_feed) = Inr m'"
    "lm_connection m' = CONNECTED" "snapshot m' (Aware (2 * minute) 0) = Inr snap"
    "alert_candidates snap = []" "length (ss_timeframes snap) = 1"
    and l: "list_all (\<lambda>ts. ts_freshness ts = FRESH \<and> st_closed_count (ts_book ts) = 1) (ss_timeframes snap)"
    by (auto simp: got_iff)
  obtain ts where ts: "ss_timeframes snap = [ts]" using r(5) by (auto simp: length_Suc_conv)
  show ?thesis
    using no_alert_means_available [OF default_limits_ok sample_made [OF m] r(1,3,2,4), of ts] ts l r(1,3)
    by (simp add: m)
qed


lemma default_limits_finite: "limits_finite default_limits"
  by (simp add: limits_finite_def default_limits_def dec_of_int_def)


end
