(* ===== verification/Event_Buffer.thy ===== *)
theory Event_Buffer
  imports Live_Validation
begin

text \<open>
  \<open>app/application/live/buffer.py\<close>: the bounded buffer between a push source and the reader. The
  source calls \<open>offer\<close> and \<open>close\<close>; the reader runs the generator \<open>drain\<close>, of which \<open>drain_next\<close> is one
  resumption up to the next value, the wait or the return. The event loop interleaves these calls;
  a run is their sequence.
\<close>

record EventBuffer =
  bf_capacity :: nat
  bf_items :: "StreamItem list"
  bf_overflowed :: bool
  bf_closed :: bool
  bf_refused :: nat
  bf_returned :: bool

definition make_buffer :: "nat \<Rightarrow> EventBuffer res" where
  "make_buffer capacity =
     (if capacity < 1 then Inl ValueError
      else Inr \<lparr>bf_capacity = capacity, bf_items = [], bf_overflowed = False, bf_closed = False,
                bf_refused = 0, bf_returned = False\<rparr>)"

definition offer :: "EventBuffer \<Rightarrow> StreamItem \<Rightarrow> EventBuffer \<times> bool" where
  "offer b x =
     (if bf_closed b \<or> bf_overflowed b then (b\<lparr>bf_refused := Suc (bf_refused b)\<rparr>, False)
      else if bf_capacity b \<le> length (bf_items b)
      then (b\<lparr>bf_overflowed := True, bf_refused := Suc (bf_refused b)\<rparr>, False)
      else (b\<lparr>bf_items := bf_items b @ [x]\<rparr>, True))"

definition close_buffer :: "EventBuffer \<Rightarrow> EventBuffer" where
  "close_buffer b = b\<lparr>bf_closed := True\<rparr>"

datatype DrainStep = Yielded StreamItem | Waiting | Returned

definition drain_next :: "EventBuffer \<Rightarrow> EventBuffer \<times> DrainStep" where
  "drain_next b =
     (if bf_returned b then (b, Returned)
      else case bf_items b of
        x # xs \<Rightarrow> (b\<lparr>bf_items := xs\<rparr>, Yielded x)
      | [] \<Rightarrow>
          if bf_overflowed b then (b\<lparr>bf_returned := True\<rparr>, Yielded (SignalItem OVERFLOW))
          else if bf_closed b then (b\<lparr>bf_returned := True\<rparr>, Returned)
          else (b, Waiting))"

section \<open>Interleavings\<close>

datatype BufferCall = Offer StreamItem | Close | Resume

text \<open>A run with what the source was told was accepted and what the reader received.\<close>

record BufferRun =
  br_buffer :: EventBuffer
  br_accepted :: "StreamItem list"
  br_received :: "StreamItem list"
  br_lost :: nat

definition buffer_call :: "BufferRun \<Rightarrow> BufferCall \<Rightarrow> BufferRun" where
  "buffer_call r c =
     (case c of
        Offer x \<Rightarrow>
          (case offer (br_buffer r) x of
             (b, True) \<Rightarrow> r\<lparr>br_buffer := b, br_accepted := br_accepted r @ [x]\<rparr>
           | (b, False) \<Rightarrow>
               r\<lparr>br_buffer := b,
                 br_lost := br_lost r + (if bf_closed (br_buffer r) then 0 else 1)\<rparr>)
      | Close \<Rightarrow> r\<lparr>br_buffer := close_buffer (br_buffer r)\<rparr>
      | Resume \<Rightarrow>
          (case drain_next (br_buffer r) of
             (b, Yielded x) \<Rightarrow> r\<lparr>br_buffer := b, br_received := br_received r @ [x]\<rparr>
           | (b, _) \<Rightarrow> r\<lparr>br_buffer := b\<rparr>))"

definition buffer_run :: "EventBuffer \<Rightarrow> BufferCall list \<Rightarrow> BufferRun" where
  "buffer_run b cs =
     foldl buffer_call \<lparr>br_buffer = b, br_accepted = [], br_received = [], br_lost = 0\<rparr> cs"

definition buffer_inv :: "nat \<Rightarrow> BufferRun \<Rightarrow> bool" where
  "buffer_inv n r \<longleftrightarrow>
     (let b = br_buffer r in
      bf_capacity b = n \<and> length (bf_items b) \<le> n
      \<and> (br_lost r = 0 \<longleftrightarrow> \<not> bf_overflowed b)
      \<and> (bf_returned b \<longrightarrow> bf_items b = [] \<and> (bf_overflowed b \<or> bf_closed b))
      \<and> (if bf_returned b \<and> bf_overflowed b
         then br_received r = br_accepted r @ [SignalItem OVERFLOW]
         else br_accepted r = br_received r @ bf_items b))"

lemma buffer_call_inv:
  assumes inv: "buffer_inv n r"
  shows "buffer_inv n (buffer_call r c)"
proof -
  let ?b = "br_buffer r"
  show ?thesis
  proof (cases c)
    case (Offer x)
    show ?thesis
    proof (cases "bf_closed ?b \<or> bf_overflowed ?b")
      case True
      then have "buffer_call r c = r\<lparr>br_buffer := ?b\<lparr>bf_refused := Suc (bf_refused ?b)\<rparr>,
          br_lost := br_lost r + (if bf_closed ?b then 0 else 1)\<rparr>"
        by (simp add: Offer buffer_call_def offer_def)
      then show ?thesis
        using inv True by (cases "bf_closed ?b"; cases "bf_overflowed ?b") (simp_all add: buffer_inv_def Let_def)
    next
      case open_buffer: False
      then have "\<not> bf_returned ?b" using inv by (auto simp: buffer_inv_def Let_def)
      then show ?thesis
        using inv open_buffer
        by (cases "bf_capacity ?b \<le> length (bf_items ?b)")
          (simp_all add: Offer buffer_call_def offer_def buffer_inv_def Let_def)
    qed
  next
    case Close
    then show ?thesis using inv by (simp add: buffer_inv_def buffer_call_def close_buffer_def Let_def)
  next
    case Resume
    then show ?thesis
      using inv by (cases "bf_returned ?b"; cases "bf_items ?b"; cases "bf_overflowed ?b")
        (simp_all add: buffer_inv_def buffer_call_def drain_next_def Let_def)
  qed
qed

lemma buffer_foldl_inv: "buffer_inv n r \<Longrightarrow> buffer_inv n (foldl buffer_call r cs)"
  by (induction cs arbitrary: r) (simp_all add: buffer_call_inv)

lemma drained:
  "bf_overflowed (br_buffer r) \<or> bf_closed (br_buffer r) \<Longrightarrow>
     bf_returned (br_buffer (foldl buffer_call r (replicate (Suc (length (bf_items (br_buffer r)))) Resume)))"
proof (induction "length (bf_items (br_buffer r))" arbitrary: r)
  case 0
  then show ?case by (auto simp: buffer_call_def drain_next_def)
next
  case (Suc k)
  then obtain x xs where x: "bf_items (br_buffer r) = x # xs" by (cases "bf_items (br_buffer r)") auto
  have ret: "bf_returned (br_buffer (foldl buffer_call q cs))" if "bf_returned (br_buffer q)"
    "cs = replicate j Resume" for q cs j
    using that by (induction j arbitrary: q cs) (simp_all add: buffer_call_def drain_next_def)
  show ?case
  proof (cases "bf_returned (br_buffer r)")
    case True
    then show ?thesis using ret by blast
  next
    case False
    let ?r = "buffer_call r Resume"
    have "bf_items (br_buffer ?r) = xs" "bf_overflowed (br_buffer ?r) = bf_overflowed (br_buffer r)"
      "bf_closed (br_buffer ?r) = bf_closed (br_buffer r)"
      using x False by (simp_all add: buffer_call_def drain_next_def)
    then show ?thesis using Suc.hyps(1) [of ?r] Suc.hyps(2) Suc.prems x by simp
  qed
qed

section \<open>Property\<close>

text \<open>
  C14: the buffer never loses an event silently. Whatever the interleaving of offers, closing and
  resumptions of the reader, the buffer holds at most its capacity; the reader has received exactly
  the accepted items in order, less those still queued; and once the generator has returned, it has
  delivered everything accepted, followed by OVERFLOW if and only if an offer was refused before the
  buffer was closed. A buffer that is closed or has overflowed is drained to its end in one
  resumption more than it holds items.
\<close>

theorem no_event_lost_silently:
  assumes "make_buffer n = Inr b0" and "r = buffer_run b0 cs" and "b = br_buffer r"
  shows "length (bf_items b) \<le> n
    \<and> (\<not> bf_returned b \<longrightarrow> br_received r @ bf_items b = br_accepted r)
    \<and> (bf_returned b \<longrightarrow> br_received r =
         br_accepted r @ (if br_lost r = 0 then [] else [SignalItem OVERFLOW]))
    \<and> (bf_overflowed b \<or> bf_closed b \<longrightarrow>
         bf_returned (br_buffer (buffer_run b0 (cs @ replicate (Suc (length (bf_items b))) Resume))))"
proof -
  have "buffer_inv n \<lparr>br_buffer = b0, br_accepted = [], br_received = [], br_lost = 0\<rparr>"
    using assms(1) by (auto simp: make_buffer_def buffer_inv_def Let_def split: if_splits)
  then have "buffer_inv n r" using buffer_foldl_inv assms(2) by (simp add: buffer_run_def)
  moreover have "bf_overflowed b \<or> bf_closed b \<longrightarrow>
         bf_returned (br_buffer (buffer_run b0 (cs @ replicate (Suc (length (bf_items b))) Resume)))"
    using drained [of r] assms(2,3) by (simp add: buffer_run_def)
  ultimately show ?thesis using assms(3) by (auto simp: buffer_inv_def Let_def)
qed

definition sample_buffer :: EventBuffer where
  "sample_buffer = \<lparr>bf_capacity = 1, bf_items = [], bf_overflowed = False, bf_closed = False,
     bf_refused = 0, bf_returned = False\<rparr>"

definition sample_calls :: "BufferCall list" where
  "sample_calls = [Offer (SignalItem SIG_CONNECTED), Offer (SignalItem SIG_DISCONNECTED), Resume, Resume]"

theorem no_event_lost_silently_witness:
  "br_received (buffer_run sample_buffer sample_calls) = [SignalItem SIG_CONNECTED, SignalItem OVERFLOW]"
proof -
  have m: "make_buffer 1 = Inr sample_buffer" by (simp add: make_buffer_def sample_buffer_def)
  have "bf_returned (br_buffer (buffer_run sample_buffer sample_calls))"
    "br_accepted (buffer_run sample_buffer sample_calls) = [SignalItem SIG_CONNECTED]"
    "br_lost (buffer_run sample_buffer sample_calls) = 1"
    by (simp_all add: buffer_run_def sample_buffer_def sample_calls_def buffer_call_def offer_def
        drain_next_def)
  then show ?thesis using no_event_lost_silently [OF m refl refl, of sample_calls] by simp
qed

end
