(* ===== verification/Instrument.thy ===== *)
theory Instrument
  imports Common
begin

text \<open>
  \<open>app/domain/instrument\<close>: asset classes and which of them are implemented, the identity of an
  instrument, and the \<open>ProductPolicy\<close> protocol, a record with a field per member. Members that may
  raise return \<open>exn + 'a\<close>. The name of the operation a guard is called for only appears in messages
  and is left out.
\<close>

section \<open>Asset classes (asset_class.py)\<close>

datatype AssetClass = FUTURES | EQUITY | CRYPTO_SPOT | CRYPTO_PERPETUAL | FX

datatype ImplementationStatus = IMPLEMENTED | NOT_IMPLEMENTED

fun IMPLEMENTATION :: "AssetClass \<Rightarrow> ImplementationStatus" where
  "IMPLEMENTATION FUTURES = IMPLEMENTED"
| "IMPLEMENTATION EQUITY = NOT_IMPLEMENTED"
| "IMPLEMENTATION CRYPTO_SPOT = NOT_IMPLEMENTED"
| "IMPLEMENTATION CRYPTO_PERPETUAL = NOT_IMPLEMENTED"
| "IMPLEMENTATION FX = NOT_IMPLEMENTED"

definition is_implemented :: "AssetClass \<Rightarrow> bool" where
  "is_implemented a = (IMPLEMENTATION a = IMPLEMENTED)"

definition require_implemented :: "AssetClass \<Rightarrow> unit res" where
  "require_implemented a = check (is_implemented a) UnsupportedAssetClassError"

definition all_asset_classes :: "AssetClass list" where
  "all_asset_classes = [FUTURES, EQUITY, CRYPTO_SPOT, CRYPTO_PERPETUAL, FX]"

definition implemented_asset_classes :: "AssetClass list" where
  "implemented_asset_classes = filter is_implemented all_asset_classes"

section \<open>Identity (identity.py)\<close>

record InstrumentId =
  in_symbol :: string
  in_asset_class :: "AssetClass VerifiedValue"
  in_quote_currency :: "string VerifiedValue option"

definition make_instrument :: "InstrumentId \<Rightarrow> InstrumentId res" where
  "make_instrument i =
     rbind (check (canonical_symbol (in_symbol i) \<noteq> []) InstrumentIdentityError) (\<lambda>_.
     rbind (case in_quote_currency i of
              None \<Rightarrow> Inr ()
            | Some q \<Rightarrow> check (strip (vvalue q) \<noteq> []) InstrumentIdentityError) (\<lambda>_.
       Inr i))"

definition classification_is_verified :: "InstrumentId \<Rightarrow> bool" where
  "classification_is_verified i = is_authoritative (in_asset_class i)"

definition user_declared :: "string \<Rightarrow> AssetClass \<Rightarrow> InstrumentId res" where
  "user_declared symbol a =
     make_instrument
       \<lparr>in_symbol = symbol,
        in_asset_class =
          \<lparr>vvalue = a, vstatus = UNVERIFIED_STATUS, vsource = ''user input'', vas_of = None,
           vnote = Some ''declared by the user; not established by any market source''\<rparr>,
        in_quote_currency = None\<rparr>"

section \<open>The product policy (policy.py)\<close>

datatype Support = SUPPORTED | UNSUPPORTED | UNKNOWN_SUPPORT

record ProductCapabilities =
  cap_margin :: Support
  cap_expiry :: Support
  cap_short_selling :: Support
  cap_fractional_quantity :: Support
  cap_funding :: Support
  cap_open_interest :: Support

record ProductVocabulary =
  voc_unit :: string
  voc_unit_counted :: string
  voc_point_value :: string
  voc_point_value_qualified :: string

datatype TickFeasibility = ON_GRID | OFF_GRID | TICK_UNVERIFIED | TICK_MISSING

datatype MarginFeasibility = MARGIN_KNOWN | MARGIN_UNVERIFIED | MARGIN_MISSING

text \<open>The detail text of a check, as a constructor with the values it quotes.\<close>

datatype GridDetail =
    NoTickSize
  | TickSizeNotVerified VerificationStatus
  | NotWholeTicks "(string \<times> dec) list" dec
  | OnTheGrid dec

record PriceIncrementCheck =
  pi_feasibility :: TickFeasibility
  pi_detail :: GridDetail

record MarginRequirement =
  mr_feasibility :: MarginFeasibility
  mr_per_unit :: "dec option"

definition make_margin_requirement :: "MarginFeasibility \<Rightarrow> dec option \<Rightarrow> MarginRequirement res" where
  "make_margin_requirement f m =
     (if (f = MARGIN_KNOWN) \<noteq> (m \<noteq> None) then Inl ValueError
      else Inr \<lparr>mr_feasibility = f, mr_per_unit = m\<rparr>)"

record ProductPolicy =
  pp_instrument :: "InstrumentId res"
  pp_capabilities :: ProductCapabilities
  pp_vocabulary :: ProductVocabulary
  pp_require_calculable :: "unit res"
  pp_point_value :: "dec VerifiedValue"
  pp_price_increment :: "dec VerifiedValue option"
  pp_price_increment_check :: "dec \<Rightarrow> dec \<Rightarrow> PriceIncrementCheck res"
  pp_margin_requirement :: "MarginRequirement res"

definition require_product_calculable :: "ProductPolicy \<Rightarrow> unit res" where
  "require_product_calculable p =
     rbind (pp_instrument p) (\<lambda>i.
     rbind (require_implemented (vvalue (in_asset_class i))) (\<lambda>_.
     rbind (check (cap_fractional_quantity (pp_capabilities p) = UNSUPPORTED)
              UnsupportedQuantitySemanticsError) (\<lambda>_.
       pp_require_calculable p)))"

section \<open>Lemmas\<close>

lemma only_futures_implemented [simp]: "is_implemented a \<longleftrightarrow> a = FUTURES"
  by (cases a) (simp_all add: is_implemented_def)

lemma calculable_implemented:
  "require_product_calculable p = Inr u \<Longrightarrow>
     \<exists>i. pp_instrument p = Inr i \<and> vvalue (in_asset_class i) = FUTURES
       \<and> cap_fractional_quantity (pp_capabilities p) = UNSUPPORTED \<and> pp_require_calculable p = Inr ()"
  by (auto simp: require_product_calculable_def require_implemented_def res_simps)

section \<open>What the money engines rely on\<close>

text \<open>
  The contract of a product, for the engines that turn a price into money: whenever the product
  passes its own guard, a verified point value is a positive finite amount, a known margin is a
  positive finite amount, and the check of two levels returns, answering ON_GRID only for a
  verified increment both levels are whole multiples of.
\<close>

definition whole_steps :: "dec \<Rightarrow> dec \<Rightarrow> bool" where
  "whole_steps p tick \<longleftrightarrow> (\<exists>k::int. dval p = of_int k * dval tick)"

locale money_product =
  fixes listed :: "'c \<Rightarrow> bool" and product :: "'c \<Rightarrow> ProductPolicy"
  assumes point_positive: "listed c \<Longrightarrow> is_authoritative (pp_point_value (product c)) \<Longrightarrow>
      is_finite (vvalue (pp_point_value (product c))) \<and> 0 < dval (vvalue (pp_point_value (product c)))"
    and margin_positive: "listed c \<Longrightarrow> pp_margin_requirement (product c) = Inr r \<Longrightarrow>
      mr_per_unit r = Some m \<Longrightarrow> is_finite m \<and> 0 < dval m \<and> mr_feasibility r = MARGIN_KNOWN"
    and margin_known: "listed c \<Longrightarrow> pp_margin_requirement (product c) = Inr r \<Longrightarrow>
      mr_per_unit r = None \<Longrightarrow> mr_feasibility r \<noteq> MARGIN_KNOWN"
    and on_grid_whole: "listed c \<Longrightarrow> is_finite e \<Longrightarrow> is_finite s \<Longrightarrow>
      pp_price_increment_check (product c) e s = Inr g \<Longrightarrow> pi_feasibility g = ON_GRID \<Longrightarrow>
      \<exists>t. pp_price_increment (product c) = Some t \<and> is_authoritative t \<and>
        whole_steps e (vvalue t) \<and> whole_steps s (vvalue t)"

end
