(* ===== verification/Futures.thy ===== *)
theory Futures
  imports Instrument
begin

text \<open>
  \<open>app/domain/futures\<close>: the contract record and its validation, the expiry verdict, the product
  policy built on a contract, basis and open-interest readings. A \<open>date\<close> is the number of its day,
  counted from the epoch. Messages are left out; what a caller can tell apart is a constructor.
\<close>

section \<open>Contract and quote (contract.py)\<close>

datatype SettlementType = CASH | PHYSICAL

datatype ValuationModel = LINEAR | INVERSE | QUANTO

datatype ContractState = ACTIVE | EXPIRED | UNKNOWN_STATE

record ContractExpiry =
  expiry_date :: "int VerifiedValue"
  last_trading_time :: "moment VerifiedValue option"

record FuturesContract =
  fc_symbol :: string
  fc_underlying_symbol :: string
  fc_contract_name :: string
  fc_multiplier :: "dec VerifiedValue"
  fc_tick_size :: "dec VerifiedValue"
  fc_tick_value :: "dec VerifiedValue option"
  fc_initial_margin :: "dec VerifiedValue option"
  fc_maintenance_margin :: "dec VerifiedValue option"
  fc_expiry :: "ContractExpiry option"
  fc_settlement :: "SettlementType VerifiedValue option"
  fc_trading_session :: "string VerifiedValue option"
  fc_valuation :: ValuationModel
  fc_classification :: "AssetClass VerifiedValue option"

definition require_positive :: "exn \<Rightarrow> dec \<Rightarrow> unit res" where
  "require_positive e v =
     (if \<not> is_finite v then Inl e else if dec_le v dec_zero then Inl e else Inr ())"

definition require_optional_positive :: "dec option \<Rightarrow> unit res" where
  "require_optional_positive v =
     (case v of None \<Rightarrow> Inr () | Some d \<Rightarrow> require_positive ContractValidationError d)"

definition require_optional_non_negative :: "dec option \<Rightarrow> unit res" where
  "require_optional_non_negative v =
     (case v of
        None \<Rightarrow> Inr ()
      | Some d \<Rightarrow>
          if \<not> is_finite d then Inl ContractValidationError
          else if dec_less d dec_zero then Inl ContractValidationError else Inr ())"

definition make_contract :: "FuturesContract \<Rightarrow> FuturesContract res" where
  "make_contract c =
     rbind (check (strip (fc_symbol c) \<noteq> []) ContractValidationError) (\<lambda>_.
     rbind (check (case fc_classification c of None \<Rightarrow> True | Some a \<Rightarrow> vvalue a = FUTURES)
              ContractValidationError) (\<lambda>_.
     rbind (require_positive ContractValidationError (vvalue (fc_multiplier c))) (\<lambda>_.
     rbind (require_positive ContractValidationError (vvalue (fc_tick_size c))) (\<lambda>_.
     rbind (require_optional_positive (map_option vvalue (fc_tick_value c))) (\<lambda>_.
     rbind (require_optional_positive (map_option vvalue (fc_initial_margin c))) (\<lambda>_.
     rbind (case fc_maintenance_margin c of
              None \<Rightarrow> Inr ()
            | Some m \<Rightarrow>
                rbind (py_less (vvalue m) dec_zero) (\<lambda>neg.
                  check (\<not> neg) ContractValidationError)) (\<lambda>_.
       Inr c)))))))"

definition authoritative_value :: "dec VerifiedValue option \<Rightarrow> dec option" where
  "authoritative_value f =
     (case f of None \<Rightarrow> None | Some v \<Rightarrow> if is_authoritative v then Some (vvalue v) else None)"

definition authoritative_multiplier :: "FuturesContract \<Rightarrow> dec option" where
  "authoritative_multiplier c = authoritative_value (Some (fc_multiplier c))"

definition authoritative_tick_size :: "FuturesContract \<Rightarrow> dec option" where
  "authoritative_tick_size c = authoritative_value (Some (fc_tick_size c))"

definition authoritative_initial_margin :: "FuturesContract \<Rightarrow> dec option" where
  "authoritative_initial_margin c = authoritative_value (fc_initial_margin c)"

definition requires_linear_valuation :: "FuturesContract \<Rightarrow> unit res" where
  "requires_linear_valuation c = check (fc_valuation c = LINEAR) UnsupportedValuationModelError"

record FuturesQuote =
  fq_symbol :: string
  fq_observed_at :: moment
  fq_futures_price :: "dec option"
  fq_spot_price :: "dec option"
  fq_open_interest :: "dec option"
  fq_volume :: "dec option"

definition make_quote :: "FuturesQuote \<Rightarrow> FuturesQuote res" where
  "make_quote q =
     rbind (check (is_aware (fq_observed_at q)) ContractValidationError) (\<lambda>_.
     rbind (require_optional_positive (fq_futures_price q)) (\<lambda>_.
     rbind (require_optional_positive (fq_spot_price q)) (\<lambda>_.
     rbind (require_optional_non_negative (fq_open_interest q)) (\<lambda>_.
     rbind (require_optional_non_negative (fq_volume q)) (\<lambda>_. Inr q)))))"

definition require_matching_quote :: "FuturesContract \<Rightarrow> FuturesQuote \<Rightarrow> unit res" where
  "require_matching_quote c q =
     check (same_instrument (canonical_symbol (fc_symbol c)) (canonical_symbol (fq_symbol q)))
       QuoteMismatchError"

definition require_same_instrument :: "FuturesQuote \<Rightarrow> FuturesQuote \<Rightarrow> unit res" where
  "require_same_instrument p q =
     check (same_instrument (canonical_symbol (fq_symbol p)) (canonical_symbol (fq_symbol q)))
       QuoteMismatchError"

section \<open>Validation (validation.py)\<close>

datatype ContractIssueCode =
    PRICE_OFF_TICK_GRID
  | TICK_VALUE_INCONSISTENT
  | TICK_VALUE_UNCHECKABLE
  | UNVERIFIED_MULTIPLIER
  | UNVERIFIED_TICK_SIZE
  | UNVERIFIED_MARGIN
  | MISSING_MARGIN
  | UNVERIFIED_EXPIRY
  | MISSING_EXPIRY
  | UNSOURCED_VERIFIED_FACT
  | UNDATED_VERIFIED_FACT

record ContractIssue =
  ci_code :: ContractIssueCode
  ci_blocking :: bool

definition issue :: "ContractIssueCode \<Rightarrow> bool \<Rightarrow> ContractIssue" where
  "issue c b = \<lparr>ci_code = c, ci_blocking = b\<rparr>"

record TickGridResult =
  tg_price :: dec
  tg_tick_size :: dec
  tg_on_grid :: bool
  tg_remainder :: dec
  tg_nearest_lower :: dec
  tg_nearest_upper :: dec

definition check_tick_grid :: "dec \<Rightarrow> dec \<Rightarrow> TickGridResult res" where
  "check_tick_grid price tick =
     rbind (py_le tick dec_zero) (\<lambda>bad.
     rbind (check (\<not> bad) ValueError) (\<lambda>_.
     rbind (dec_mod default_context price tick) (\<lambda>remainder.
     rbind (dec_sub default_context price remainder) (\<lambda>lower.
     rbind (if dec_eq remainder dec_zero then Inr lower else dec_add default_context lower tick)
       (\<lambda>upper.
       Inr \<lparr>tg_price = price, tg_tick_size = tick, tg_on_grid = dec_eq remainder dec_zero,
            tg_remainder = remainder, tg_nearest_lower = lower, tg_nearest_upper = upper\<rparr>)))))"

definition check_tick_value :: "FuturesContract \<Rightarrow> ContractIssue option res" where
  "check_tick_value c =
     (case fc_tick_value c of
        None \<Rightarrow> Inr None
      | Some tv \<Rightarrow>
          if fc_valuation c \<noteq> LINEAR then Inr (Some (issue TICK_VALUE_UNCHECKABLE False))
          else rbind (dec_mul default_context (vvalue (fc_tick_size c)) (vvalue (fc_multiplier c)))
            (\<lambda>expected.
              Inr (if \<not> dec_eq (vvalue tv) expected
                   then Some (issue TICK_VALUE_INCONSISTENT True) else None)))"

text \<open>What \<open>provenance_issues\<close> reads of a fact: whether it claims to be current, its source, its date.\<close>

definition provenance :: "'a VerifiedValue \<Rightarrow> bool \<times> string \<times> bool" where
  "provenance v = (is_authoritative v, vsource v, vas_of v \<noteq> None)"

definition named_facts :: "FuturesContract \<Rightarrow> (bool \<times> string \<times> bool) option list" where
  "named_facts c =
     [Some (provenance (fc_multiplier c)), Some (provenance (fc_tick_size c)),
      map_option provenance (fc_tick_value c), map_option provenance (fc_initial_margin c),
      map_option provenance (fc_maintenance_margin c), map_option provenance (fc_settlement c),
      map_option provenance (fc_trading_session c), map_option provenance (fc_classification c)]
     @ (case fc_expiry c of
          None \<Rightarrow> []
        | Some e \<Rightarrow> [Some (provenance (expiry_date e)), map_option provenance (last_trading_time e)])"

fun fact_issues :: "(bool \<times> string \<times> bool) option \<Rightarrow> ContractIssue list" where
  "fact_issues None = []"
| "fact_issues (Some (current, src, dated)) =
     (if \<not> current then []
      else (if strip src = [] then [issue UNSOURCED_VERIFIED_FACT True] else [])
           @ (if \<not> dated then [issue UNDATED_VERIFIED_FACT False] else []))"

definition provenance_issues :: "FuturesContract \<Rightarrow> ContractIssue list" where
  "provenance_issues c = concat (map fact_issues (named_facts c))"

definition contract_issues :: "FuturesContract \<Rightarrow> ContractIssue list res" where
  "contract_issues c =
     rbind (check_tick_value c) (\<lambda>tick.
       Inr ((if \<not> is_authoritative (fc_multiplier c) then [issue UNVERIFIED_MULTIPLIER True] else [])
         @ (if \<not> is_authoritative (fc_tick_size c) then [issue UNVERIFIED_TICK_SIZE False] else [])
         @ (case fc_initial_margin c of
              None \<Rightarrow> [issue MISSING_MARGIN False]
            | Some m \<Rightarrow> if \<not> is_authoritative m then [issue UNVERIFIED_MARGIN False] else [])
         @ (case fc_expiry c of
              None \<Rightarrow> [issue MISSING_EXPIRY False]
            | Some e \<Rightarrow> if \<not> is_authoritative (expiry_date e) then [issue UNVERIFIED_EXPIRY False]
                        else [])
         @ (case tick of None \<Rightarrow> [] | Some i \<Rightarrow> [i])
         @ provenance_issues c))"

definition blocking_issues :: "FuturesContract \<Rightarrow> ContractIssue list res" where
  "blocking_issues c = rmap (filter ci_blocking) (contract_issues c)"

definition require_calculable :: "FuturesContract \<Rightarrow> unit res" where
  "require_calculable c =
     rbind (check_tick_value c) (\<lambda>tick.
       check (case tick of None \<Rightarrow> True | Some i \<Rightarrow> \<not> ci_blocking i) ContractValidationError)"

record ContractStateResult =
  cs_state :: ContractState
  cs_evaluated_at :: moment
  cs_days_to_expiry :: "int option"

text \<open>\<open>datetime.date()\<close>: the day of the moment's own local time.\<close>

fun local_day :: "moment \<Rightarrow> int" where
  "local_day (Naive t) = t div (24 * 60 * minute)"
| "local_day (Aware t off) = (t + off) div (24 * 60 * minute)"

definition state_result :: "ContractState \<Rightarrow> moment \<Rightarrow> int option \<Rightarrow> ContractStateResult" where
  "state_result s now d = \<lparr>cs_state = s, cs_evaluated_at = now, cs_days_to_expiry = d\<rparr>"

definition contract_state :: "FuturesContract \<Rightarrow> moment \<Rightarrow> ContractStateResult res" where
  "contract_state c now =
     (if \<not> is_aware now then Inl ValueError
      else case fc_expiry c of
        None \<Rightarrow> Inr (state_result UNKNOWN_STATE now None)
      | Some e \<Rightarrow>
          if \<not> is_authoritative (expiry_date e) then Inr (state_result UNKNOWN_STATE now None)
          else
            let expiry = vvalue (expiry_date e); today = local_day now; days = expiry - today in
            case last_trading_time e of
              Some lt \<Rightarrow>
                if is_authoritative lt
                then rbind (check (is_aware (vvalue lt)) TypeError) (\<lambda>_.
                       Inr (state_result (if instant (vvalue lt) \<le> instant now then EXPIRED else ACTIVE)
                              now (Some days)))
                else Inr (state_result (if expiry < today then EXPIRED
                                        else if today < expiry then ACTIVE else UNKNOWN_STATE)
                            now (Some days))
            | None \<Rightarrow> Inr (state_result (if expiry < today then EXPIRED
                                        else if today < expiry then ACTIVE else UNKNOWN_STATE)
                            now (Some days)))"

definition implied_tick_value :: "FuturesContract \<Rightarrow> dec option res" where
  "implied_tick_value c =
     rbind (requires_linear_valuation c) (\<lambda>_.
       case (authoritative_tick_size c, authoritative_multiplier c) of
         (Some t, Some m) \<Rightarrow> rmap Some (dec_mul default_context t m)
       | _ \<Rightarrow> Inr None)"

definition ticks_between :: "dec \<Rightarrow> dec \<Rightarrow> dec \<Rightarrow> dec option res" where
  "ticks_between a b tick =
     rbind (dec_sub default_context a b) (\<lambda>d. safe_ratio (dec_abs default_context d) tick)"


section \<open>The product policy (policy.py)\<close>

definition FUTURES_CAPABILITIES :: ProductCapabilities where
  "FUTURES_CAPABILITIES =
     \<lparr>cap_margin = SUPPORTED, cap_expiry = SUPPORTED, cap_short_selling = SUPPORTED,
      cap_fractional_quantity = UNSUPPORTED, cap_funding = UNSUPPORTED,
      cap_open_interest = SUPPORTED\<rparr>"

definition FUTURES_VOCABULARY :: ProductVocabulary where
  "FUTURES_VOCABULARY =
     \<lparr>voc_unit = ''contract'', voc_unit_counted = ''contract(s)'',
      voc_point_value = ''multiplier'', voc_point_value_qualified = ''contract multiplier''\<rparr>"

definition classification :: "FuturesContract \<Rightarrow> AssetClass VerifiedValue" where
  "classification c =
     (case fc_classification c of
        Some v \<Rightarrow> v
      | None \<Rightarrow> \<lparr>vvalue = FUTURES, vstatus = UNVERIFIED_STATUS, vsource = ''futures contract record'',
                  vas_of = None,
                  vnote = Some (''the record is modelled as a futures contract, but no source classified '' @
                    ''it; numeric specification facts do not establish a product class'')\<rparr>)"

fun off_grid :: "dec \<Rightarrow> (string \<times> dec) list \<Rightarrow> (string \<times> dec) list res" where
  "off_grid tick [] = Inr []"
| "off_grid tick ((n, p) # ps) =
     rbind (check_tick_grid p tick) (\<lambda>g.
     rbind (off_grid tick ps) (\<lambda>rest. Inr (if tg_on_grid g then rest else (n, p) # rest)))"

definition futures_increment_check ::
  "FuturesContract \<Rightarrow> dec \<Rightarrow> dec \<Rightarrow> PriceIncrementCheck res" where
  "futures_increment_check c entry stop =
     (case authoritative_tick_size c of
        None \<Rightarrow>
          Inr (if is_authoritative (fc_tick_size c)
               then \<lparr>pi_feasibility = TICK_MISSING, pi_detail = NoTickSize\<rparr>
               else \<lparr>pi_feasibility = TICK_UNVERIFIED,
                     pi_detail = TickSizeNotVerified (vstatus (fc_tick_size c))\<rparr>)
      | Some tick \<Rightarrow>
          rbind (off_grid tick [(''entry'', entry), (''stop'', stop)]) (\<lambda>offenders.
            Inr (if offenders \<noteq> []
                 then \<lparr>pi_feasibility = OFF_GRID, pi_detail = NotWholeTicks offenders tick\<rparr>
                 else \<lparr>pi_feasibility = ON_GRID, pi_detail = OnTheGrid tick\<rparr>)))"

definition futures_margin_requirement :: "FuturesContract \<Rightarrow> MarginRequirement res" where
  "futures_margin_requirement c =
     (if fc_initial_margin c = None then make_margin_requirement MARGIN_MISSING None
      else case authoritative_initial_margin c of
        None \<Rightarrow> make_margin_requirement MARGIN_UNVERIFIED None
      | Some m \<Rightarrow> make_margin_requirement MARGIN_KNOWN (Some m))"

definition futures_product :: "FuturesContract \<Rightarrow> ProductPolicy" where
  "futures_product c =
     \<lparr>pp_instrument =
        make_instrument \<lparr>in_symbol = fc_symbol c, in_asset_class = classification c,
                         in_quote_currency = None\<rparr>,
      pp_capabilities = FUTURES_CAPABILITIES, pp_vocabulary = FUTURES_VOCABULARY,
      pp_require_calculable = rbind (requires_linear_valuation c) (\<lambda>_. require_calculable c),
      pp_point_value = fc_multiplier c, pp_price_increment = Some (fc_tick_size c),
      pp_price_increment_check = futures_increment_check c,
      pp_margin_requirement = futures_margin_requirement c\<rparr>"

section \<open>Basis (basis.py)\<close>

datatype BasisContext = PREMIUM | DISCOUNT | FLAT | BASIS_UNAVAILABLE

definition make_basis_policy :: "dec \<Rightarrow> dec res" where
  "make_basis_policy tolerance =
     rbind (py_less tolerance dec_zero) (\<lambda>neg. if neg then Inl ValueError else Inr tolerance)"

record BasisResult =
  ba_context :: BasisContext
  ba_basis :: "dec option"
  ba_ratio :: "dec option"
  ba_futures_price :: "dec option"
  ba_spot_price :: "dec option"

definition calculate_basis :: "dec option \<Rightarrow> dec option \<Rightarrow> dec \<Rightarrow> BasisResult res" where
  "calculate_basis fp sp tolerance =
     (case (fp, sp) of
        (Some f, Some s) \<Rightarrow>
          rbind (dec_sub default_context f s) (\<lambda>basis.
          rbind (safe_ratio basis s) (\<lambda>ratio.
          case ratio of
            None \<Rightarrow> Inr \<lparr>ba_context = BASIS_UNAVAILABLE, ba_basis = Some basis, ba_ratio = None,
                       ba_futures_price = fp, ba_spot_price = sp\<rparr>
          | Some r \<Rightarrow>
              rbind (py_le (dec_abs default_context r) tolerance) (\<lambda>flat.
              rbind (if flat then Inr FLAT
                     else rmap (\<lambda>up. if up then PREMIUM else DISCOUNT) (py_less dec_zero basis))
                (\<lambda>ctx.
                Inr \<lparr>ba_context = ctx, ba_basis = Some basis, ba_ratio = Some r,
                     ba_futures_price = fp, ba_spot_price = sp\<rparr>))))
      | _ \<Rightarrow> Inr \<lparr>ba_context = BASIS_UNAVAILABLE, ba_basis = None, ba_ratio = None,
                  ba_futures_price = fp, ba_spot_price = sp\<rparr>)"

definition basis_percent :: "BasisResult \<Rightarrow> dec option res" where
  "basis_percent b = as_percent (ba_ratio b)"

definition calculate_contract_basis ::
  "FuturesContract \<Rightarrow> FuturesQuote \<Rightarrow> dec \<Rightarrow> BasisResult res" where
  "calculate_contract_basis c q tolerance =
     rbind (require_matching_quote c q) (\<lambda>_.
       calculate_basis (fq_futures_price q) (fq_spot_price q) tolerance)"

section \<open>Open interest (open_interest.py)\<close>

datatype OpenInterestContext =
    NEW_LONG_PARTICIPATION
  | SHORT_COVERING
  | NEW_SHORT_PARTICIPATION
  | LIQUIDATION
  | UNCHANGED
  | INSUFFICIENT_DATA

record OpenInterestPolicy =
  price_tolerance :: dec
  open_interest_tolerance :: dec

definition make_open_interest_policy :: "OpenInterestPolicy \<Rightarrow> OpenInterestPolicy res" where
  "make_open_interest_policy p =
     rbind (py_less (price_tolerance p) dec_zero) (\<lambda>n1.
     rbind (check (\<not> n1) ValueError) (\<lambda>_.
     rbind (py_less (open_interest_tolerance p) dec_zero) (\<lambda>n2.
     rbind (check (\<not> n2) ValueError) (\<lambda>_. Inr p))))"

record OpenInterestReading =
  oi_context :: OpenInterestContext
  oi_price_change :: "dec option"
  oi_interest_change :: "dec option"

definition is_informative :: "OpenInterestReading \<Rightarrow> bool" where
  "is_informative r = (oi_context r \<notin> {UNCHANGED, INSUFFICIENT_DATA})"

definition movement_context :: "bool \<Rightarrow> bool \<Rightarrow> OpenInterestContext" where
  "movement_context rising_price rising_interest =
     (if rising_price \<and> rising_interest then NEW_LONG_PARTICIPATION
      else if rising_price \<and> \<not> rising_interest then SHORT_COVERING
      else if \<not> rising_price \<and> rising_interest then NEW_SHORT_PARTICIPATION
      else LIQUIDATION)"

definition read_open_interest ::
  "FuturesQuote \<Rightarrow> FuturesQuote \<Rightarrow> OpenInterestPolicy \<Rightarrow> OpenInterestReading res" where
  "read_open_interest previous current settings =
     rbind (require_same_instrument previous current) (\<lambda>_.
     case (fq_futures_price previous, fq_futures_price current) of
       (Some p0, Some p1) \<Rightarrow>
         rbind (dec_sub default_context p1 p0) (\<lambda>dp.
         case (fq_open_interest previous, fq_open_interest current) of
           (Some i0, Some i1) \<Rightarrow>
             rbind (dec_sub default_context i1 i0) (\<lambda>di.
             rbind (py_less (price_tolerance settings) (dec_abs default_context dp)) (\<lambda>pm.
             rbind (py_less (open_interest_tolerance settings) (dec_abs default_context di)) (\<lambda>im.
             if \<not> pm \<or> \<not> im
             then Inr \<lparr>oi_context = UNCHANGED, oi_price_change = Some dp, oi_interest_change = Some di\<rparr>
             else
               rbind (py_less dec_zero dp) (\<lambda>up.
               rbind (py_less dec_zero di) (\<lambda>more.
                 Inr \<lparr>oi_context = movement_context up more, oi_price_change = Some dp,
                      oi_interest_change = Some di\<rparr>)))))
         | _ \<Rightarrow> Inr \<lparr>oi_context = INSUFFICIENT_DATA, oi_price_change = Some dp,
                    oi_interest_change = None\<rparr>)
     | _ \<Rightarrow> Inr \<lparr>oi_context = INSUFFICIENT_DATA, oi_price_change = None, oi_interest_change = None\<rparr>)"

definition read_contract_open_interest ::
  "FuturesContract \<Rightarrow> FuturesQuote \<Rightarrow> FuturesQuote \<Rightarrow> OpenInterestPolicy
     \<Rightarrow> OpenInterestReading res" where
  "read_contract_open_interest c previous current settings =
     rbind (require_matching_quote c previous) (\<lambda>_.
     rbind (require_matching_quote c current) (\<lambda>_.
       read_open_interest previous current settings))"

section \<open>The contract of a product, discharged by futures\<close>

lemma scaled_nat: "scaled s c e m = signed s (c * 10 ^ nat (e - m))"
  by (simp add: scaled_def signed_def)

lemma dec_mod_whole:
  assumes fin: "is_finite p" "is_finite t" and r: "dec_mod x p t = Inr r" "dec_eq r dec_zero"
    and prec: "0 < prec x"
  shows "whole_steps p t"
proof -
  obtain s c e s' c' e' where pt: "p = DFin s c e" "t = DFin s' c' e'"
    using fin by (metis is_finite.elims(2))
  define m where "m = min e e'"
  define a where "a = c * 10 ^ nat (e - m)"
  define b where "b = c' * 10 ^ nat (e' - m)"
  have "r = dec_fix x s (a mod b) m"
    using r(1) by (simp add: pt Let_def m_def a_def b_def split: if_splits)
  then have "a mod b = 0"
    using r(2) dec_fix_sgn [OF prec, of s "a mod b" m] by (auto simp: dec_eq_zero_iff split: if_splits)
  then obtain q where q: "a = b * q" by (auto simp: dvd_def)
  have p: "dval p = of_int (signed s a) * 10 powi m"
    using dval_scaled [of m e s c] by (simp add: pt scaled_nat a_def m_def)
  have t: "dval t = of_int (signed s' b) * 10 powi m"
    using dval_scaled [of m e' s' c'] by (simp add: pt scaled_nat b_def m_def)
  have "dval p = of_int (if s = s' then int q else - int q) * dval t"
    unfolding p t by (simp add: q signed_def)
  then show ?thesis unfolding whole_steps_def by blast
qed

definition made_contract :: "FuturesContract \<Rightarrow> bool" where
  "made_contract c = (make_contract c = Inr c)"

lemma made_contract_facts:
  assumes "make_contract c = Inr d"
  shows "d = c" and "is_finite (vvalue (fc_multiplier c))" "0 < dval (vvalue (fc_multiplier c))"
    and "is_finite (vvalue (fc_tick_size c))" "0 < dval (vvalue (fc_tick_size c))"
    and "fc_initial_margin c = Some m \<Longrightarrow> is_finite (vvalue m) \<and> 0 < dval (vvalue m)"
  using assms
  by (auto simp: make_contract_def res_simps require_positive_def require_optional_positive_def
      dec_le_iff dec_zero_def split: if_splits option.splits)

lemma off_grid_Nil:
  assumes "off_grid tick ps = Inr []" and "is_finite tick"
  shows "\<forall>(n, p) \<in> set ps. is_finite p \<longrightarrow> whole_steps p tick"
  using assms
proof (induction ps)
  case (Cons a ps)
  obtain n p where a: "a = (n, p)" by force
  obtain g where g: "check_tick_grid p tick = Inr g" "tg_on_grid g" "off_grid tick ps = Inr []"
    using Cons.prems by (auto simp: a res_simps split: if_splits)
  then obtain r where "dec_mod default_context p tick = Inr r" "dec_eq r dec_zero"
    by (auto simp: check_tick_grid_def res_simps split: if_splits)
  then have "is_finite p \<longrightarrow> whole_steps p tick"
    using dec_mod_whole [OF _ Cons.prems(2), of p default_context r] by simp
  then show ?case using Cons.IH [OF g(3) Cons.prems(2)] a by auto
qed simp

interpretation futures: money_product made_contract futures_product
proof
  fix c assume "made_contract c"
  then have made: "make_contract c = Inr c" by (simp add: made_contract_def)
  note facts = made_contract_facts [OF made]
  show "is_finite (vvalue (pp_point_value (futures_product c))) \<and>
      0 < dval (vvalue (pp_point_value (futures_product c)))"
    using facts by (simp add: futures_product_def)
  show "is_finite m \<and> 0 < dval m \<and> mr_feasibility r = MARGIN_KNOWN"
    if "pp_margin_requirement (futures_product c) = Inr r" "mr_per_unit r = Some m" for r m
    using that facts
    by (auto simp: futures_product_def futures_margin_requirement_def make_margin_requirement_def
        authoritative_initial_margin_def authoritative_value_def split: if_splits option.splits)
  show "mr_feasibility r \<noteq> MARGIN_KNOWN"
    if "pp_margin_requirement (futures_product c) = Inr r" "mr_per_unit r = None" for r
    using that
    by (auto simp: futures_product_def futures_margin_requirement_def make_margin_requirement_def
        split: if_splits option.splits)
  show "\<exists>t. pp_price_increment (futures_product c) = Some t \<and> is_authoritative t \<and>
        whole_steps e (vvalue t) \<and> whole_steps s (vvalue t)"
    if fin: "is_finite e" "is_finite s"
      and g: "pp_price_increment_check (futures_product c) e s = Inr g" "pi_feasibility g = ON_GRID"
    for e s g
  proof -
    have "off_grid (vvalue (fc_tick_size c)) [(''entry'', e), (''stop'', s)] = Inr []"
      and auth: "is_authoritative (fc_tick_size c)"
      using g by (auto simp: futures_product_def futures_increment_check_def res_simps
          authoritative_tick_size_def authoritative_value_def split: option.splits if_splits)
    then show ?thesis
      using off_grid_Nil [OF _ facts(4)] fin auth by (fastforce simp: futures_product_def)
  qed
qed

end
