(* ===== verification/Sizing.thy ===== *)
theory Sizing
  imports Futures
begin

text \<open>
  \<open>app/domain/risk/sizing.py\<close>: how many whole units a risk budget, a margin and the user's own cap
  allow. The comparisons the code makes with \<open><=\<close> and \<open><\<close> raise on a NaN, as \<open>py_le\<close> and \<open>py_less\<close>
  do; the reason text is a constructor with the values it quotes.
\<close>

section \<open>Inputs\<close>

datatype RiskMode = FIXED | PERCENTAGE

datatype SizingOutcome = ALLOWED | NOT_PERMITTED | UNDETERMINED | INVALID

record RiskPolicy =
  rp_mode :: RiskMode
  rp_fixed_risk :: "dec option"
  rp_risk_ratio :: "dec option"
  rp_max_contracts :: "int option"
  rp_max_margin_utilisation :: dec
  rp_max_effective_leverage :: dec

definition make_risk_policy :: "RiskPolicy \<Rightarrow> RiskPolicy res" where
  "make_risk_policy p =
     rbind (case rp_mode p of
              FIXED \<Rightarrow>
                (case rp_fixed_risk p of
                   None \<Rightarrow> Inl RiskInputError
                 | Some r \<Rightarrow> rbind (py_le r dec_zero) (\<lambda>bad. check (\<not> bad) RiskInputError))
            | PERCENTAGE \<Rightarrow>
                (case rp_risk_ratio p of
                   None \<Rightarrow> Inl RiskInputError
                 | Some r \<Rightarrow>
                     rbind (py_less dec_zero r) (\<lambda>pos.
                     rbind (if pos then py_le r (dec_of_int 1) else Inr False) (\<lambda>ok.
                       check ok RiskInputError)))) (\<lambda>_.
     rbind (check (case rp_max_contracts p of None \<Rightarrow> True | Some n \<Rightarrow> 0 \<le> n) RiskInputError) (\<lambda>_.
     rbind (py_le (rp_max_margin_utilisation p) dec_zero) (\<lambda>b1.
     rbind (check (\<not> b1) RiskInputError) (\<lambda>_.
     rbind (py_le (rp_max_effective_leverage p) dec_zero) (\<lambda>b2.
     rbind (check (\<not> b2) RiskInputError) (\<lambda>_. Inr p))))))"

definition risk_amount :: "RiskPolicy \<Rightarrow> dec \<Rightarrow> dec res" where
  "risk_amount p equity =
     (case rp_mode p of
        FIXED \<Rightarrow> (case rp_fixed_risk p of None \<Rightarrow> Inl RiskInputError | Some r \<Rightarrow> Inr r)
      | PERCENTAGE \<Rightarrow>
          (case rp_risk_ratio p of
             None \<Rightarrow> Inl RiskInputError
           | Some r \<Rightarrow> dec_mul default_context equity r))"

record AccountState =
  ac_equity :: dec
  ac_used_margin :: dec

definition make_account :: "AccountState \<Rightarrow> AccountState res" where
  "make_account a =
     rbind (check (is_finite (ac_equity a)) RiskInputError) (\<lambda>_.
     rbind (py_less (ac_used_margin a) dec_zero) (\<lambda>neg.
     rbind (check (\<not> neg) RiskInputError) (\<lambda>_. Inr a)))"

definition free_margin :: "AccountState \<Rightarrow> dec res" where
  "free_margin a = dec_sub default_context (ac_equity a) (ac_used_margin a)"

definition available_for_new_positions :: "AccountState \<Rightarrow> dec res" where
  "available_for_new_positions a =
     rbind (free_margin a) (\<lambda>free.
     rbind (py_less dec_zero free) (\<lambda>pos. Inr (if pos then free else dec_zero)))"

definition is_in_deficit :: "AccountState \<Rightarrow> bool res" where
  "is_in_deficit a = rbind (free_margin a) (\<lambda>free. py_less free dec_zero)"

definition margin_deficit :: "AccountState \<Rightarrow> dec res" where
  "margin_deficit a =
     rbind (free_margin a) (\<lambda>free.
     rbind (py_less free dec_zero) (\<lambda>neg.
       Inr (if neg then dec_minus default_context free else dec_zero)))"

section \<open>The answer\<close>

datatype Binding = ByRisk | ByMargin | ByCap

datatype Blocker = NoInitialMargin | MarginNotVerified | TickBlocker GridDetail

datatype SizingReason =
    NotTradeable Direction
  | BadEntry dec
  | BadStop dec
  | BadEquity dec
  | PointNotVerified VerificationStatus
  | StopOnWrongSide Direction dec dec
  | ZeroLoss
  | LevelsOffGrid GridDetail
  | OneUnitExceedsRisk dec dec
  | BlockedBy int "Blocker list"
  | NoneBoundBy Binding
  | PermittedBoundBy int Binding

record PositionSizing =
  sz_outcome :: SizingOutcome
  sz_reason :: SizingReason
  sz_risk_amount :: "dec option"
  sz_stop_distance :: "dec option"
  sz_loss_per_contract :: "dec option"
  sz_maximum_by_risk :: "int option"
  sz_maximum_by_margin :: "int option"
  sz_margin_feasibility :: MarginFeasibility
  sz_tick_feasibility :: TickFeasibility
  sz_allowed_contracts :: "int option"
  sz_policy_limit :: "int option"

definition is_tradeable :: "PositionSizing \<Rightarrow> bool" where
  "is_tradeable s = (sz_outcome s = ALLOWED)"

definition risk_ratio_of_account :: "PositionSizing \<Rightarrow> dec \<Rightarrow> dec option res" where
  "risk_ratio_of_account s equity =
     (case sz_risk_amount s of None \<Rightarrow> Inr None | Some r \<Rightarrow> safe_ratio r equity)"

definition risk_percent_of_account :: "PositionSizing \<Rightarrow> dec \<Rightarrow> dec option res" where
  "risk_percent_of_account s equity = rbind (risk_ratio_of_account s equity) as_percent"

definition invalid_sizing :: "SizingReason \<Rightarrow> TickFeasibility \<Rightarrow> PositionSizing" where
  "invalid_sizing reason tick =
     \<lparr>sz_outcome = INVALID, sz_reason = reason, sz_risk_amount = None, sz_stop_distance = None,
      sz_loss_per_contract = None, sz_maximum_by_risk = None, sz_maximum_by_margin = None,
      sz_margin_feasibility = MARGIN_MISSING, sz_tick_feasibility = tick,
      sz_allowed_contracts = None, sz_policy_limit = None\<rparr>"

definition stop_distance :: "Direction \<Rightarrow> dec \<Rightarrow> dec \<Rightarrow> dec option res" where
  "stop_distance d entry stop =
     (case d of
        LONG \<Rightarrow> rbind (py_less stop entry) (\<lambda>ok.
          if ok then rmap Some (dec_sub default_context entry stop) else Inr None)
      | SHORT \<Rightarrow> rbind (py_less entry stop) (\<lambda>ok.
          if ok then rmap Some (dec_sub default_context stop entry) else Inr None)
      | NEUTRAL \<Rightarrow> Inr None)"

definition margin_capacity :: "ProductPolicy \<Rightarrow> AccountState \<Rightarrow> (MarginFeasibility \<times> int) res" where
  "margin_capacity p a =
     rbind (pp_margin_requirement p) (\<lambda>r.
     case mr_per_unit r of
       None \<Rightarrow> Inr (mr_feasibility r, 0)
     | Some m \<Rightarrow>
         rbind (available_for_new_positions a) (\<lambda>free.
         rbind (floor_divide free m) (\<lambda>capacity.
           Inr (MARGIN_KNOWN, case capacity of None \<Rightarrow> 0 | Some k \<Rightarrow> max k 0))))"

text \<open>\<open>min\<close> over the options in order: the first of the smallest.\<close>

definition binding_constraint :: "int \<Rightarrow> int \<Rightarrow> int option \<Rightarrow> Binding" where
  "binding_constraint by_risk by_margin cap =
     (let b = (if by_margin < by_risk then ByMargin else ByRisk);
          v = min by_risk by_margin
      in case cap of None \<Rightarrow> b | Some c \<Rightarrow> if c < v then ByCap else b)"

definition blockers :: "MarginFeasibility \<Rightarrow> TickFeasibility \<Rightarrow> GridDetail \<Rightarrow> Blocker list" where
  "blockers f tick detail =
     (case f of MARGIN_MISSING \<Rightarrow> [NoInitialMargin] | MARGIN_UNVERIFIED \<Rightarrow> [MarginNotVerified]
              | MARGIN_KNOWN \<Rightarrow> [])
     @ (if tick \<noteq> ON_GRID then [TickBlocker detail] else [])"

text \<open>The decision, once the risk budget, the loss per unit and both maxima are known.\<close>

definition decide_size ::
  "dec \<Rightarrow> dec \<Rightarrow> dec \<Rightarrow> int \<Rightarrow> MarginFeasibility \<Rightarrow> int \<Rightarrow> PriceIncrementCheck \<Rightarrow> int option
     \<Rightarrow> PositionSizing" where
  "decide_size budget distance loss by_risk f capacity grid cap =
     (let tick = pi_feasibility grid;
          by_margin = (if f = MARGIN_KNOWN then Some capacity else None);
          base = \<lparr>sz_outcome = INVALID, sz_reason = ZeroLoss, sz_risk_amount = Some budget,
            sz_stop_distance = Some distance, sz_loss_per_contract = Some loss,
            sz_maximum_by_risk = Some by_risk, sz_maximum_by_margin = by_margin,
            sz_margin_feasibility = f, sz_tick_feasibility = tick, sz_allowed_contracts = None,
            sz_policy_limit = cap\<rparr>
      in
        if by_risk \<le> 0
        then base\<lparr>sz_outcome := NOT_PERMITTED, sz_reason := OneUnitExceedsRisk loss budget,
               sz_maximum_by_risk := Some 0, sz_allowed_contracts := Some 0\<rparr>
        else if f \<noteq> MARGIN_KNOWN \<or> tick \<noteq> ON_GRID
        then base\<lparr>sz_outcome := UNDETERMINED,
               sz_reason := BlockedBy by_risk (blockers f tick (pi_detail grid))\<rparr>
        else
          let allowed = (case cap of None \<Rightarrow> min by_risk capacity
                         | Some c \<Rightarrow> min (min by_risk capacity) c);
              bound = binding_constraint by_risk capacity cap
          in if allowed \<le> 0
             then base\<lparr>sz_outcome := NOT_PERMITTED, sz_reason := NoneBoundBy bound,
                    sz_allowed_contracts := Some 0\<rparr>
             else base\<lparr>sz_outcome := ALLOWED, sz_reason := PermittedBoundBy allowed bound,
                    sz_allowed_contracts := Some allowed\<rparr>)"

text \<open>The checks of the request, up to the verified point value: the first reason to refuse it.\<close>

definition refused_request ::
  "Direction \<Rightarrow> dec \<Rightarrow> dec \<Rightarrow> ProductPolicy \<Rightarrow> AccountState \<Rightarrow> SizingReason option res" where
  "refused_request d entry stop p a =
     (if d \<notin> {LONG, SHORT} then Inr (Some (NotTradeable d))
      else rbind (py_le entry dec_zero) (\<lambda>e0.
      if e0 \<or> \<not> is_finite entry then Inr (Some (BadEntry entry))
      else rbind (py_le stop dec_zero) (\<lambda>s0.
      if s0 \<or> \<not> is_finite stop then Inr (Some (BadStop stop))
      else rbind (py_le (ac_equity a) dec_zero) (\<lambda>q0.
        Inr (if q0 then Some (BadEquity (ac_equity a))
             else if \<not> is_authoritative (pp_point_value p)
             then Some (PointNotVerified (vstatus (pp_point_value p)))
             else None)))))"

text \<open>The work on an accepted request.\<close>

definition size_request ::
  "Direction \<Rightarrow> dec \<Rightarrow> dec \<Rightarrow> ProductPolicy \<Rightarrow> AccountState \<Rightarrow> RiskPolicy \<Rightarrow> PositionSizing res" where
  "size_request d entry stop p a policy =
     rbind (stop_distance d entry stop) (\<lambda>dist.
     case dist of
       None \<Rightarrow> Inr (invalid_sizing (StopOnWrongSide d entry stop) TICK_MISSING)
     | Some distance \<Rightarrow>
         rbind (risk_amount policy (ac_equity a)) (\<lambda>budget.
         rbind (dec_mul default_context distance (vvalue (pp_point_value p))) (\<lambda>loss.
         rbind (floor_divide budget loss) (\<lambda>by_risk.
         case by_risk of
           None \<Rightarrow> Inr (invalid_sizing ZeroLoss TICK_MISSING)
         | Some n \<Rightarrow>
             rbind (pp_price_increment_check p entry stop) (\<lambda>grid.
             if pi_feasibility grid = OFF_GRID
             then Inr (invalid_sizing (LevelsOffGrid (pi_detail grid)) OFF_GRID)
             else rbind (margin_capacity p a) (\<lambda>(f, capacity).
               Inr (decide_size budget distance loss n f capacity grid
                      (rp_max_contracts policy))))))))"

definition size_for_product ::
  "Direction \<Rightarrow> dec \<Rightarrow> dec \<Rightarrow> ProductPolicy \<Rightarrow> AccountState \<Rightarrow> RiskPolicy \<Rightarrow> PositionSizing res" where
  "size_for_product d entry stop p a policy =
     rbind (require_product_calculable p) (\<lambda>_.
     rbind (refused_request d entry stop p a) (\<lambda>refused.
     case refused of
       Some reason \<Rightarrow> Inr (invalid_sizing reason TICK_MISSING)
     | None \<Rightarrow> size_request d entry stop p a policy))"

definition size_position ::
  "Direction \<Rightarrow> dec \<Rightarrow> dec \<Rightarrow> FuturesContract \<Rightarrow> AccountState \<Rightarrow> RiskPolicy \<Rightarrow> PositionSizing res" where
  "size_position d entry stop c a policy =
     size_for_product d entry stop (futures_product c) a policy"

end
