(* ===== verification/Money.thy ===== *)
theory Money
  imports Sizing
begin

text \<open>
  \<open>app/domain/risk/pnl.py\<close>, \<open>reward.py\<close>, \<open>margin.py\<close> and \<open>whatif.py\<close>: profit and loss, risk/reward, the
  margin panel and the what-if simulator, and the futures entry points of \<open>app/domain/futures/risk.py\<close>.
\<close>

section \<open>Profit and loss (pnl.py)\<close>

datatype CostCompleteness = COSTS_COMPLETE | COSTS_PARTIAL | COSTS_UNKNOWN

record TradeCosts =
  tc_commission :: "dec option"
  tc_fees :: "dec option"
  tc_slippage :: "dec option"

definition cost_components :: "TradeCosts \<Rightarrow> dec option list" where
  "cost_components c = [tc_commission c, tc_fees c, tc_slippage c]"

fun check_costs :: "dec option list \<Rightarrow> unit res" where
  "check_costs [] = Inr ()"
| "check_costs (None # vs) = check_costs vs"
| "check_costs (Some v # vs) =
     (if \<not> is_finite v then Inl PnLInputError
      else if dec_less v dec_zero then Inl PnLInputError else check_costs vs)"

definition make_costs :: "TradeCosts \<Rightarrow> TradeCosts res" where
  "make_costs c = rmap (\<lambda>_. c) (check_costs (cost_components c))"

definition costs_empty :: "TradeCosts \<Rightarrow> bool" where
  "costs_empty c = list_all (\<lambda>v. v = None) (cost_components c)"

definition completeness :: "TradeCosts \<Rightarrow> CostCompleteness" where
  "completeness c =
     (if list_all (\<lambda>v. v \<noteq> None) (cost_components c) then COSTS_COMPLETE
      else if list_ex (\<lambda>v. v \<noteq> None) (cost_components c) then COSTS_PARTIAL
      else COSTS_UNKNOWN)"

text \<open>\<open>sum\<close> of the supplied components, from \<open>Decimal(0)\<close>.\<close>

fun sum_known :: "dec \<Rightarrow> dec option list \<Rightarrow> dec res" where
  "sum_known acc [] = Inr acc"
| "sum_known acc (None # vs) = sum_known acc vs"
| "sum_known acc (Some v # vs) = rbind (dec_add default_context acc v) (\<lambda>s. sum_known s vs)"

definition known_total :: "TradeCosts \<Rightarrow> dec option res" where
  "known_total c =
     (if costs_empty c then Inr None else rmap Some (sum_known dec_zero (cost_components c)))"

definition missing_components :: "TradeCosts \<Rightarrow> string list" where
  "missing_components c =
     map fst (filter (\<lambda>(n, v). v = None)
       (zip [''commission'', ''fees'', ''slippage''] (cost_components c)))"

record PnLResult =
  pl_direction :: Direction
  pl_entry_price :: dec
  pl_exit_price :: dec
  pl_contracts :: int
  pl_multiplier :: dec
  pl_gross :: dec
  pl_costs :: "TradeCosts option"
  pl_cost_completeness :: CostCompleteness
  pl_net :: "dec option"
  pl_net_upper_bound :: "dec option"

definition points :: "PnLResult \<Rightarrow> dec res" where
  "points r =
     rbind (dec_sub default_context (pl_exit_price r) (pl_entry_price r)) (\<lambda>move.
       normalise_zero (if pl_direction r = LONG then move else dec_minus default_context move))"

definition return_on_account :: "PnLResult \<Rightarrow> dec \<Rightarrow> dec option res" where
  "return_on_account r equity = safe_ratio (pl_gross r) equity"

definition return_on_account_percent :: "PnLResult \<Rightarrow> dec \<Rightarrow> dec option res" where
  "return_on_account_percent r equity = rbind (return_on_account r equity) as_percent"

definition return_on_margin :: "PnLResult \<Rightarrow> dec \<Rightarrow> dec option res" where
  "return_on_margin r margin = safe_ratio (pl_gross r) margin"

definition r_multiple :: "PnLResult \<Rightarrow> dec \<Rightarrow> dec option res" where
  "r_multiple r initial = safe_ratio (pl_gross r) initial"

definition gross_pnl :: "Direction \<Rightarrow> dec \<Rightarrow> dec \<Rightarrow> dec \<Rightarrow> int \<Rightarrow> dec res" where
  "gross_pnl d entry exit multiplier contracts =
     rbind (require_positive PnLInputError entry) (\<lambda>_.
     rbind (require_positive PnLInputError exit) (\<lambda>_.
     rbind (require_positive PnLInputError multiplier) (\<lambda>_.
     rbind (check (0 < contracts) PnLInputError) (\<lambda>_.
     rbind (case d of
              LONG \<Rightarrow> dec_sub default_context exit entry
            | SHORT \<Rightarrow> dec_sub default_context entry exit
            | NEUTRAL \<Rightarrow> Inl PnLInputError) (\<lambda>move.
     rbind (dec_mul default_context move multiplier) (\<lambda>per_unit.
     rbind (dec_mul default_context per_unit (dec_of_int contracts)) normalise_zero))))))"

definition calculate_pnl ::
  "Direction \<Rightarrow> dec \<Rightarrow> dec \<Rightarrow> dec \<Rightarrow> int \<Rightarrow> TradeCosts option \<Rightarrow> PnLResult res" where
  "calculate_pnl d entry exit multiplier contracts costs =
     rbind (gross_pnl d entry exit multiplier contracts) (\<lambda>gross.
     rbind (case costs of None \<Rightarrow> Inr None | Some c \<Rightarrow> known_total c) (\<lambda>known.
     rbind (case known of
              None \<Rightarrow> Inr None
            | Some k \<Rightarrow> rmap Some (rbind (dec_sub default_context gross k) normalise_zero)) (\<lambda>bound.
       let full = (case costs of None \<Rightarrow> COSTS_UNKNOWN | Some c \<Rightarrow> completeness c) in
       Inr \<lparr>pl_direction = d, pl_entry_price = entry, pl_exit_price = exit,
            pl_contracts = contracts, pl_multiplier = multiplier, pl_gross = gross,
            pl_costs = costs, pl_cost_completeness = full,
            pl_net = (if full = COSTS_COMPLETE then bound else None),
            pl_net_upper_bound = bound\<rparr>)))"

definition pnl_for_product ::
  "ProductPolicy \<Rightarrow> Direction \<Rightarrow> dec \<Rightarrow> dec \<Rightarrow> int \<Rightarrow> TradeCosts option \<Rightarrow> PnLResult res" where
  "pnl_for_product p d entry exit contracts costs =
     rbind (require_product_calculable p) (\<lambda>_.
     rbind (require_authoritative (pp_point_value p)) (\<lambda>multiplier.
       calculate_pnl d entry exit multiplier contracts costs))"

section \<open>Risk/reward (reward.py)\<close>

datatype RewardReason = WrongSideStop | NotATradeDirection | WrongSideTarget | RewardOverRisk dec dec

record RiskReward =
  rr_direction :: Direction
  rr_entry_price :: dec
  rr_stop_price :: dec
  rr_target_price :: dec
  rr_risk_distance :: "dec option"
  rr_reward_distance :: "dec option"
  rr_ratio :: "dec option"
  rr_reason :: RewardReason

definition reward_is_valid :: "RiskReward \<Rightarrow> bool" where
  "reward_is_valid r = (rr_ratio r \<noteq> None)"

definition invalid_reward ::
  "Direction \<Rightarrow> dec \<Rightarrow> dec \<Rightarrow> dec \<Rightarrow> dec option \<Rightarrow> RewardReason \<Rightarrow> RiskReward" where
  "invalid_reward d entry stop target risk reason =
     \<lparr>rr_direction = d, rr_entry_price = entry, rr_stop_price = stop, rr_target_price = target,
      rr_risk_distance = risk, rr_reward_distance = None, rr_ratio = None, rr_reason = reason\<rparr>"

definition risk_reward :: "Direction \<Rightarrow> dec \<Rightarrow> dec \<Rightarrow> dec \<Rightarrow> RiskReward res" where
  "risk_reward d entry stop target =
     rbind (stop_distance d entry stop) (\<lambda>distance.
     case distance of
       None \<Rightarrow> Inr (invalid_reward d entry stop target None WrongSideStop)
     | Some risk \<Rightarrow>
         if d = NEUTRAL then Inr (invalid_reward d entry stop target (Some risk) NotATradeDirection)
         else rbind (if d = LONG then dec_sub default_context target entry
                     else dec_sub default_context entry target) (\<lambda>reward.
         rbind (py_le reward dec_zero) (\<lambda>wrong.
         if wrong then Inr (invalid_reward d entry stop target (Some risk) WrongSideTarget)
         else rbind (safe_ratio reward risk) (\<lambda>ratio.
           Inr \<lparr>rr_direction = d, rr_entry_price = entry, rr_stop_price = stop,
                rr_target_price = target, rr_risk_distance = Some risk,
                rr_reward_distance = Some reward, rr_ratio = ratio,
                rr_reason = RewardOverRisk reward risk\<rparr>))))"

definition risk_reward_targets ::
  "Direction \<Rightarrow> dec \<Rightarrow> dec \<Rightarrow> dec list \<Rightarrow> RiskReward list res" where
  "risk_reward_targets d entry stop targets = traverse (risk_reward d entry stop) targets"

section \<open>Margin panel (margin.py)\<close>

datatype RiskWarningCode =
    HIGH_MARGIN_UTILIZATION
  | EXCESSIVE_EFFECTIVE_LEVERAGE
  | RISK_LIMIT_EXCEEDED
  | MARGIN_UNKNOWN_WARNING
  | MARGIN_DEFICIT

record RiskWarning =
  rw_code :: RiskWarningCode
  rw_observed :: "dec option"
  rw_threshold :: "dec option"

record MarginAssessment =
  ma_account_equity :: dec
  ma_used_margin :: dec
  ma_free_margin :: dec
  ma_contracts :: int
  ma_notional_exposure :: "dec option"
  ma_effective_leverage :: "dec option"
  ma_required_margin :: "dec option"
  ma_resulting_used_margin :: "dec option"
  ma_margin_utilisation :: "dec option"
  ma_remaining_free_margin :: "dec option"
  ma_margin_deficit :: dec
  ma_available_for_new_positions :: dec
  ma_risk_to_stop :: "dec option"
  ma_margin_feasibility :: MarginFeasibility
  ma_warnings :: "RiskWarning list"

definition margin_utilisation_percent :: "MarginAssessment \<Rightarrow> dec option res" where
  "margin_utilisation_percent m = as_percent (ma_margin_utilisation m)"

definition notional_exposure :: "dec \<Rightarrow> dec \<Rightarrow> int \<Rightarrow> dec res" where
  "notional_exposure entry multiplier contracts =
     rbind (dec_mul default_context entry multiplier) (\<lambda>v.
       dec_mul default_context v (dec_of_int contracts))"

definition effective_leverage :: "dec \<Rightarrow> dec \<Rightarrow> dec option res" where
  "effective_leverage exposure equity = safe_ratio exposure equity"

text \<open>A warning raised when an observed value, if there is one, exceeds its limit.\<close>

definition above_limit :: "RiskWarningCode \<Rightarrow> dec option \<Rightarrow> dec \<Rightarrow> RiskWarning list res" where
  "above_limit code observed limit =
     (case observed of
        None \<Rightarrow> Inr []
      | Some v \<Rightarrow> rbind (py_less limit v) (\<lambda>above.
          Inr (if above
               then [\<lparr>rw_code = code, rw_observed = Some v, rw_threshold = Some limit\<rparr>]
               else [])))"

definition margin_warnings ::
  "MarginFeasibility \<Rightarrow> dec option \<Rightarrow> dec option \<Rightarrow> dec option \<Rightarrow> AccountState \<Rightarrow> RiskPolicy
     \<Rightarrow> RiskWarning list res" where
  "margin_warnings f utilisation leverage risk_to_stop a policy =
     rbind (is_in_deficit a) (\<lambda>deficit.
     rbind (if deficit
            then rmap (\<lambda>v. [\<lparr>rw_code = MARGIN_DEFICIT, rw_observed = Some v, rw_threshold = None\<rparr>])
                   (margin_deficit a)
            else Inr []) (\<lambda>w1.
     rbind (above_limit HIGH_MARGIN_UTILIZATION utilisation (rp_max_margin_utilisation policy)) (\<lambda>w3.
     rbind (above_limit EXCESSIVE_EFFECTIVE_LEVERAGE leverage (rp_max_effective_leverage policy)) (\<lambda>w4.
     rbind (if risk_to_stop = None then Inr []
            else rbind (risk_amount policy (ac_equity a)) (above_limit RISK_LIMIT_EXCEEDED risk_to_stop))
       (\<lambda>w5.
       Inr (w1
         @ (if f \<noteq> MARGIN_KNOWN
            then [\<lparr>rw_code = MARGIN_UNKNOWN_WARNING, rw_observed = None, rw_threshold = None\<rparr>]
            else [])
         @ w3 @ w4 @ w5))))))"

text \<open>Required margin, resulting used margin, utilisation and what stays free, when they are known.\<close>

definition margin_figures ::
  "dec option \<Rightarrow> int \<Rightarrow> AccountState \<Rightarrow> (dec option \<times> dec option \<times> dec option \<times> dec option) res" where
  "margin_figures per_unit contracts a =
     (case per_unit of
        Some m \<Rightarrow>
          if 0 < contracts
          then rbind (dec_mul default_context m (dec_of_int contracts)) (\<lambda>required.
               rbind (dec_add default_context (ac_used_margin a) required) (\<lambda>used.
               rbind (safe_ratio used (ac_equity a)) (\<lambda>utilisation.
               rbind (dec_sub default_context (ac_equity a) used) (\<lambda>remaining.
                 Inr (Some required, Some used, utilisation, Some remaining)))))
          else Inr (None, None, None, None)
      | None \<Rightarrow> Inr (None, None, None, None))"

definition assess_margin_for_product ::
  "ProductPolicy \<Rightarrow> AccountState \<Rightarrow> dec \<Rightarrow> int \<Rightarrow> RiskPolicy \<Rightarrow> dec option \<Rightarrow> MarginAssessment res" where
  "assess_margin_for_product p a entry contracts policy risk_to_stop =
     rbind (require_product_calculable p) (\<lambda>_.
     rbind (if is_authoritative (pp_point_value p) \<and> 0 < contracts
            then rmap Some (notional_exposure entry (vvalue (pp_point_value p)) contracts)
            else Inr None) (\<lambda>exposure.
     rbind (case exposure of None \<Rightarrow> Inr None | Some x \<Rightarrow> effective_leverage x (ac_equity a)) (\<lambda>leverage.
     rbind (pp_margin_requirement p) (\<lambda>req.
     rbind (margin_figures (mr_per_unit req) contracts a) (\<lambda>(required, used, utilisation, remaining).
     rbind (margin_warnings (mr_feasibility req) utilisation leverage risk_to_stop a policy) (\<lambda>warnings.
     rbind (free_margin a) (\<lambda>free.
     rbind (margin_deficit a) (\<lambda>deficit.
     rbind (available_for_new_positions a) (\<lambda>available.
       Inr \<lparr>ma_account_equity = ac_equity a, ma_used_margin = ac_used_margin a,
            ma_free_margin = free, ma_contracts = contracts, ma_notional_exposure = exposure,
            ma_effective_leverage = leverage, ma_required_margin = required,
            ma_resulting_used_margin = used, ma_margin_utilisation = utilisation,
            ma_remaining_free_margin = remaining, ma_margin_deficit = deficit,
            ma_available_for_new_positions = available, ma_risk_to_stop = risk_to_stop,
            ma_margin_feasibility = mr_feasibility req, ma_warnings = warnings\<rparr>)))))))))"

section \<open>What-if (whatif.py)\<close>

record WhatIfScenario =
  wi_price :: dec
  wi_gross_pnl :: dec
  wi_account_ratio :: "dec option"
  wi_r_multiple :: "dec option"

definition account_percent :: "WhatIfScenario \<Rightarrow> dec option res" where
  "account_percent s = as_percent (wi_account_ratio s)"

record WhatIfResult =
  wr_direction :: Direction
  wr_entry_price :: dec
  wr_contracts :: int
  wr_multiplier :: dec
  wr_account_equity :: dec
  wr_initial_risk :: "dec option"
  wr_scenarios :: "WhatIfScenario list"

definition scenario ::
  "Direction \<Rightarrow> dec \<Rightarrow> dec \<Rightarrow> int \<Rightarrow> dec \<Rightarrow> dec option \<Rightarrow> dec \<Rightarrow> WhatIfScenario res" where
  "scenario d entry multiplier contracts equity initial_risk price =
     rbind (gross_pnl d entry price multiplier contracts) (\<lambda>pnl.
     rbind (safe_ratio pnl equity) (\<lambda>ratio.
     rbind (case initial_risk of None \<Rightarrow> Inr None | Some r \<Rightarrow> safe_ratio pnl r) (\<lambda>rm.
       Inr \<lparr>wi_price = price, wi_gross_pnl = pnl, wi_account_ratio = ratio, wi_r_multiple = rm\<rparr>)))"

definition simulate ::
  "Direction \<Rightarrow> dec \<Rightarrow> dec \<Rightarrow> int \<Rightarrow> dec \<Rightarrow> dec list \<Rightarrow> dec option \<Rightarrow> WhatIfResult res" where
  "simulate d entry multiplier contracts equity prices initial_risk =
     rmap (\<lambda>ss. \<lparr>wr_direction = d, wr_entry_price = entry, wr_contracts = contracts,
                wr_multiplier = multiplier, wr_account_equity = equity,
                wr_initial_risk = initial_risk, wr_scenarios = ss\<rparr>)
       (traverse (scenario d entry multiplier contracts equity initial_risk) prices)"

definition simulate_for_product ::
  "ProductPolicy \<Rightarrow> Direction \<Rightarrow> dec \<Rightarrow> int \<Rightarrow> dec \<Rightarrow> dec list \<Rightarrow> dec option \<Rightarrow> WhatIfResult res" where
  "simulate_for_product p d entry contracts equity prices initial_risk =
     rbind (require_product_calculable p) (\<lambda>_.
     rbind (require_authoritative (pp_point_value p)) (\<lambda>multiplier.
       simulate d entry multiplier contracts equity prices initial_risk))"

section \<open>Futures entry points (futures/risk.py)\<close>

definition assess_margin ::
  "FuturesContract \<Rightarrow> AccountState \<Rightarrow> dec \<Rightarrow> int \<Rightarrow> RiskPolicy \<Rightarrow> dec option \<Rightarrow> MarginAssessment res" where
  "assess_margin c a entry contracts policy risk_to_stop =
     assess_margin_for_product (futures_product c) a entry contracts policy risk_to_stop"

definition calculate_contract_pnl ::
  "FuturesContract \<Rightarrow> Direction \<Rightarrow> dec \<Rightarrow> dec \<Rightarrow> int \<Rightarrow> TradeCosts option \<Rightarrow> PnLResult res" where
  "calculate_contract_pnl c d entry exit contracts costs =
     pnl_for_product (futures_product c) d entry exit contracts costs"

definition simulate_contract ::
  "FuturesContract \<Rightarrow> Direction \<Rightarrow> dec \<Rightarrow> int \<Rightarrow> dec \<Rightarrow> dec list \<Rightarrow> dec option \<Rightarrow> WhatIfResult res" where
  "simulate_contract c d entry contracts equity prices initial_risk =
     simulate_for_product (futures_product c) d entry contracts equity prices initial_risk"

end
