(* ===== verification/Py_Text.thy ===== *)
theory Py_Text
  imports Common
begin

text \<open>
  The texts the code writes and reads: integers, decimals in plain notation (\<open>format(value, "f")\<close>)
  and in scientific notation (\<open>str\<close>), \<open>Decimal(text)\<close> and \<open>datetime.isoformat()\<close>. The lemma
  \<open>parse_plain_text\<close> is the round trip of the stored ledgers: what is read back is the same value,
  with the same exponent unless that was positive.
\<close>

section \<open>Integers\<close>

definition digit_char :: "nat \<Rightarrow> char" where
  "digit_char d = char_of (48 + d)"

definition is_digit :: "char \<Rightarrow> bool" where
  "is_digit c = (48 \<le> (of_char c :: nat) \<and> (of_char c :: nat) \<le> 57)"

fun nat_str :: "nat \<Rightarrow> string" where
  "nat_str n = (if n < 10 then [digit_char n] else nat_str (n div 10) @ [digit_char (n mod 10)])"

declare nat_str.simps [simp del]

definition int_str :: "int \<Rightarrow> string" where
  "int_str n = (if n < 0 then ''-'' @ nat_str (nat (- n)) else nat_str (nat n))"

definition digits_val :: "string \<Rightarrow> nat" where
  "digits_val s = foldl (\<lambda>a c. 10 * a + (of_char c - 48)) 0 s"

text \<open>Leading zeros up to a width, as \<open>zfill\<close> of an unsigned number.\<close>

definition pad :: "nat \<Rightarrow> string \<Rightarrow> string" where
  "pad k s = replicate (k - length s) CHR ''0'' @ s"

section \<open>Decimal to text\<close>

text \<open>\<open>format(value, "f")\<close>: no exponent is ever written; a zero of positive exponent is written \<open>0\<close>.\<close>

definition point_at :: "nat \<Rightarrow> string \<Rightarrow> string" where
  "point_at k s = take (length s - k) s @ ''.'' @ drop (length s - k) s"

fun plain_text :: "dec \<Rightarrow> string" where
  "plain_text (DFin s c e) =
     (if s then ''-'' else '''') @
     (if 0 \<le> e then (if c = 0 then ''0'' else nat_str c @ replicate (nat e) CHR ''0'')
      else point_at (nat (- e)) (pad (Suc (nat (- e))) (nat_str c)))"
| "plain_text (DInf s) = (if s then ''-'' else '''') @ ''Infinity''"
| "plain_text DNaN = ''NaN''"

text \<open>\<open>str(value)\<close>: scientific notation unless the exponent is at most zero and the first digit is
  not below the sixth decimal place.\<close>

fun sci_text :: "dec \<Rightarrow> string" where
  "sci_text (DFin s c e) =
     (let ds = nat_str c; left = e + int (length ds) in
      (if s then ''-'' else '''') @
      (if e \<le> 0 \<and> - 6 < left
       then (if e = 0 then ds else point_at (nat (- e)) (pad (Suc (nat (- e))) ds))
       else (if length ds = 1 then ds else point_at (length ds - 1) ds)
            @ (if left = 1 then '''' else ''E'' @ (if 1 \<le> left then ''+'' else '''') @ int_str (left - 1))))"
| "sci_text (DInf s) = (if s then ''-'' else '''') @ ''Infinity''"
| "sci_text DNaN = ''NaN''"

section \<open>Text to decimal\<close>

definition split_sign :: "string \<Rightarrow> bool \<times> string" where
  "split_sign t =
     (case t of
        c # r \<Rightarrow> if c = CHR ''-'' then (True, r) else if c = CHR ''+'' then (False, r) else (False, t)
      | [] \<Rightarrow> (False, []))"

definition lower_char :: "char \<Rightarrow> char" where
  "lower_char c = (if 65 \<le> (of_char c :: nat) \<and> (of_char c :: nat) \<le> 90
                   then char_of ((of_char c :: nat) + 32) else c)"

text \<open>The exponent part: nothing, or \<open>E\<close>, an optional sign and digits to the end.\<close>

definition parse_exponent :: "string \<Rightarrow> int option" where
  "parse_exponent t =
     (case t of
        [] \<Rightarrow> Some 0
      | c # r \<Rightarrow>
          (let (neg, ds) = split_sign r in
           if lower_char c = CHR ''e'' \<and> ds \<noteq> [] \<and> list_all is_digit ds
           then Some (signed neg (digits_val ds)) else None))"

definition parse_number :: "bool \<Rightarrow> string \<Rightarrow> dec option" where
  "parse_number s t =
     (let ip = takeWhile is_digit t; r = dropWhile is_digit t;
          (fp, r') = (case r of
                        c # q \<Rightarrow> if c = CHR ''.'' then (takeWhile is_digit q, dropWhile is_digit q)
                                else ([], r)
                      | [] \<Rightarrow> ([], []))
      in if ip @ fp = [] then None
         else map_option (\<lambda>x. DFin s (digits_val (ip @ fp)) (x - int (length fp)))
                (parse_exponent r'))"

text \<open>\<open>Decimal(text)\<close>: surrounding blanks and underscores are dropped; text that is not a number
  raises \<open>InvalidOperation\<close>. A NaN payload is read and not kept.\<close>

definition dec_parse :: "string \<Rightarrow> dec res" where
  "dec_parse text =
     (let (s, t) = split_sign (filter (\<lambda>c. c \<noteq> CHR ''_'') (strip text));
          w = map lower_char t
      in if w = ''inf'' \<or> w = ''infinity'' then Inr (DInf s)
         else if take 3 w = ''nan'' \<and> list_all is_digit (drop 3 w)
              \<or> take 4 w = ''snan'' \<and> list_all is_digit (drop 4 w) then Inr DNaN
         else case parse_number s t of None \<Rightarrow> Inl InvalidOperation | Some d \<Rightarrow> Inr d)"

section \<open>Timestamps to text\<close>

text \<open>
  \<open>datetime.isoformat()\<close> of a moment whose instants count microseconds from 1970-01-01. The civil
  date is computed from the day number over the 400-year cycle, in years that begin in March.
\<close>

definition civil :: "int \<Rightarrow> int \<times> int \<times> int" where
  "civil day =
     (let z = day + 719468;
          era = z div 146097;
          doe = z mod 146097;
          yoe = (doe - doe div 1460 + doe div 36524 - doe div 146096) div 365;
          doy = doe - (365 * yoe + yoe div 4 - yoe div 100);
          mp = (5 * doy + 2) div 153;
          d = doy - (153 * mp + 2) div 5 + 1;
          m = (if mp < 10 then mp + 3 else mp - 9)
      in (yoe + era * 400 + (if m \<le> 2 then 1 else 0), m, d))"

definition two :: "int \<Rightarrow> string" where
  "two n = pad 2 (nat_str (nat n))"

definition micro :: int where "micro = 1000000"

text \<open>\<open>HH:MM:SS\<close> and, when there are any, the microseconds.\<close>

definition clock_text :: "int \<Rightarrow> string" where
  "clock_text t =
     two (t div (3600 * micro)) @ '':'' @ two (t div (60 * micro) mod 60) @ '':''
     @ two (t div micro mod 60)
     @ (if t mod micro = 0 then '''' else ''.'' @ pad 6 (nat_str (nat (t mod micro))))"

text \<open>A UTC offset: sign, hours and minutes, and seconds when they are not zero.\<close>

definition offset_text :: "int \<Rightarrow> string" where
  "offset_text off =
     (let a = \<bar>off\<bar> in
      (if off < 0 then ''-'' else ''+'')
      @ (if a mod (60 * micro) = 0 then take 5 (clock_text a) else clock_text a))"

definition local_text :: "int \<Rightarrow> string" where
  "local_text t =
     (let (y, m, d) = civil (t div (86400 * micro)) in
      pad 4 (nat_str (nat y)) @ ''-'' @ two m @ ''-'' @ two d @ ''T'' @ clock_text (t mod (86400 * micro)))"

fun isoformat :: "moment \<Rightarrow> string" where
  "isoformat (Naive t) = local_text t"
| "isoformat (Aware t off) = local_text (t + off) @ offset_text off"

section \<open>Lemmas\<close>

lemma digit_char_val [simp]: "d < 10 \<Longrightarrow> (of_char (digit_char d) :: nat) = 48 + d"
  by (simp add: digit_char_def)

lemma digits_val_snoc: "digits_val (s @ [c]) = 10 * digits_val s + (of_char c - 48)"
  by (simp add: digits_val_def)

lemma digits_val_Nil [simp]: "digits_val [] = 0"
  by (simp add: digits_val_def)

lemma digits_val_nat_str [simp]: "digits_val (nat_str n) = n"
proof (induction n rule: nat_str.induct)
  case (1 n)
  show ?case
  proof (cases "n < 10")
    case True
    then show ?thesis using digits_val_snoc [of "[]" "digit_char n"]
      by (simp add: nat_str.simps [of n])
  next
    case False
    then show ?thesis using 1 by (simp add: nat_str.simps [of n] digits_val_snoc)
  qed
qed

lemma is_digit_char: "d < 10 \<Longrightarrow> is_digit (digit_char d)"
  by (simp add: is_digit_def)

lemma nat_str_digits [simp]: "list_all is_digit (nat_str n)"
proof (induction n rule: nat_str.induct)
  case (1 n)
  then show ?case by (simp add: nat_str.simps [of n] is_digit_char)
qed

lemma nat_str_nonempty [simp]: "nat_str n \<noteq> []"
  by (subst nat_str.simps) simp

lemma zero_char [simp]: "(of_char CHR ''0'' :: nat) = 48" "is_digit CHR ''0''"
  by (simp_all add: of_char_def is_digit_def)

lemma digits_val_zeros [simp]: "digits_val (replicate k CHR ''0'' @ s) = digits_val s"
  by (induction k) (simp_all add: digits_val_def)

lemma digits_val_more_zeros [simp]: "digits_val (s @ replicate k CHR ''0'') = digits_val s * 10 ^ k"
proof (induction k)
  case (Suc k)
  have "s @ replicate (Suc k) CHR ''0'' = (s @ replicate k CHR ''0'') @ [CHR ''0'']"
    by (simp add: replicate_append_same)
  then show ?case using Suc by (simp only: digits_val_snoc) simp
qed simp

lemma pad_facts [simp]:
  "list_all is_digit s \<Longrightarrow> list_all is_digit (pad k s)" "digits_val (pad k s) = digits_val s"
  "length (pad k s) = max k (length s)"
  by (auto simp: pad_def list_all_iff)

text \<open>The value of a decimal with the exponent its plain notation keeps.\<close>

fun plain :: "dec \<Rightarrow> dec" where
  "plain (DFin s c e) = (if 0 \<le> e then DFin s (c * 10 ^ nat e) 0 else DFin s c e)"
| "plain d = d"

lemma not_digit [simp]:
  "\<not> is_digit CHR ''.''" "\<not> is_digit CHR ''-''" "\<not> is_digit CHR ''+''" "\<not> is_digit CHR ''_''"
  by (simp_all add: is_digit_def of_char_def)

lemma digits_split:
  assumes "list_all is_digit ip" and "r = [] \<or> \<not> is_digit (hd r)"
  shows "takeWhile is_digit (ip @ r) = ip" and "dropWhile is_digit (ip @ r) = r"
proof -
  have "takeWhile is_digit r = []" "dropWhile is_digit r = r" using assms(2) by (cases r; simp)+
  then show "takeWhile is_digit (ip @ r) = ip" "dropWhile is_digit (ip @ r) = r"
    using assms(1) by (simp_all add: list_all_iff)
qed

lemma parse_digits:
  assumes "list_all is_digit ip" and "ip \<noteq> []"
  shows "parse_number s ip = Some (DFin s (digits_val ip) 0)"
proof -
  have "takeWhile is_digit ip = ip" "dropWhile is_digit ip = []"
    using digits_split [OF assms(1), of "[]"] by simp_all
  then show ?thesis using assms(2) by (simp add: parse_number_def parse_exponent_def Let_def
      del: takeWhile_eq_all_conv dropWhile_eq_Nil_conv)
qed

lemma parse_fraction:
  assumes "list_all is_digit ip" and "list_all is_digit fp" and "ip @ fp \<noteq> []"
  shows "parse_number s (ip @ ''.'' @ fp) = Some (DFin s (digits_val (ip @ fp)) (- int (length fp)))"
proof -
  have "takeWhile is_digit (ip @ ''.'' @ fp) = ip" "dropWhile is_digit (ip @ ''.'' @ fp) = ''.'' @ fp"
    using digits_split [OF assms(1), of "''.'' @ fp"] by simp_all
  moreover have "takeWhile is_digit fp = fp" "dropWhile is_digit fp = []"
    using digits_split [OF assms(2), of "[]"] by simp_all
  ultimately show ?thesis using assms(3) by (simp add: parse_number_def parse_exponent_def Let_def
      del: takeWhile_eq_all_conv dropWhile_eq_Nil_conv)
qed

text \<open>A text of digits and points is read as it is: nothing in it is dropped, and it names no special
  value.\<close>

definition number_char :: "char \<Rightarrow> bool" where
  "number_char c \<longleftrightarrow> is_digit c \<or> c = CHR ''.''"

lemma number_char_codes: "number_char c \<Longrightarrow> (of_char c :: nat) \<in> {46, 48, 49, 50, 51, 52, 53, 54, 55, 56, 57}"
proof -
  assume "number_char c"
  moreover have "(of_char CHR ''.'' :: nat) = 46" by (simp add: of_char_def)
  ultimately have "(of_char c :: nat) = 46 \<or> 48 \<le> (of_char c :: nat) \<and> (of_char c :: nat) \<le> 57"
    by (auto simp only: number_char_def is_digit_def)
  then show ?thesis unfolding insert_iff empty_iff by presburger
qed

lemma number_char_facts:
  assumes "number_char c"
  shows "\<not> is_space c" "c \<noteq> CHR ''_''" "c \<noteq> CHR ''-''" "c \<noteq> CHR ''+''" "lower_char c = c"
    "c \<noteq> CHR ''i''" "c \<noteq> CHR ''n''" "c \<noteq> CHR ''s''"
proof -
  have n: "(of_char c :: nat) \<in> {46, 48, 49, 50, 51, 52, 53, 54, 55, 56, 57}"
    by (rule number_char_codes [OF assms])
  show "\<not> is_space c" "lower_char c = c"
    using n by (auto simp: is_space_def lower_char_def Let_def)
  have codes: "(of_char CHR ''_'' :: nat) = 95" "(of_char CHR ''-'' :: nat) = 45"
    "(of_char CHR ''+'' :: nat) = 43" "(of_char CHR ''i'' :: nat) = 105"
    "(of_char CHR ''n'' :: nat) = 110" "(of_char CHR ''s'' :: nat) = 115"
    by (simp_all add: of_char_def)
  show "c \<noteq> CHR ''_''" "c \<noteq> CHR ''-''" "c \<noteq> CHR ''+''"
    "c \<noteq> CHR ''i''" "c \<noteq> CHR ''n''" "c \<noteq> CHR ''s''"
    using n codes by fastforce+
qed

lemma strip_plain:
  assumes "t \<noteq> []" and "\<not> is_space (hd t)" and "\<not> is_space (last t)"
  shows "strip t = t"
proof -
  have "dropWhile is_space t = t" using assms(1,2) by (cases t) simp_all
  moreover have "dropWhile is_space (rev t) = rev t"
    using assms(1,3) by (cases "rev t") (auto simp: last_rev [symmetric] hd_rev)
  ultimately show ?thesis by (simp add: strip_def)
qed

lemma dec_parse_number:
  assumes chars: "list_all number_char t" and "t \<noteq> []" and num: "parse_number s t = Some d"
  shows "dec_parse ((if s then ''-'' else '''') @ t) = Inr d"
proof -
  let ?x = "(if s then ''-'' else '''') @ t"
  obtain c r where t: "t = c # r" using assms(2) by (cases t) auto
  have c: "number_char c" "number_char (last t)" using chars t by (auto simp: list_all_iff)
  have minus: "\<not> is_space CHR ''-''" by (simp add: is_space_def of_char_def)
  have "strip ?x = ?x"
    by (rule strip_plain) (use t c minus number_char_facts in auto)
  moreover have "filter (\<lambda>c. c \<noteq> CHR ''_'') ?x = ?x"
    using chars number_char_facts(2) by (auto simp: list_all_iff filter_id_conv)
  moreover have "split_sign ?x = (s, t)"
    using c(1) t number_char_facts by (auto simp: split_sign_def)
  moreover have low: "map lower_char t = t"
    using chars number_char_facts(5) by (auto simp: list_all_iff intro: map_idI)
  moreover have "t \<noteq> ''inf''" "t \<noteq> ''infinity''" "take 3 t \<noteq> ''nan''" "take 4 t \<noteq> ''snan''"
    using t c(1) number_char_facts(6-8) [OF c(1)] by auto
  ultimately show ?thesis using num by (simp add: dec_parse_def)
qed

text \<open>Reading back the plain notation gives the value with the exponent that notation keeps.\<close>

lemma parse_plain_text: "dec_parse (plain_text d) = Inr (plain d)"
proof (cases d)
  case (DFin s c e)
  have digits: "list_all number_char t" if "list_all is_digit t" for t
    using that by (auto simp: list_all_iff number_char_def)
  show ?thesis
  proof (cases "0 \<le> e")
    case True
    define ip where "ip = (if c = 0 then ''0'' else nat_str c @ replicate (nat e) CHR ''0'')"
    have ip: "list_all is_digit ip" "ip \<noteq> []" "digits_val ip = c * 10 ^ nat e"
    proof -
      have zeros: "list_all is_digit (nat_str c @ replicate (nat e) CHR ''0'')"
        using nat_str_digits [of c] by (auto simp: list_all_iff)
      show "list_all is_digit ip" "ip \<noteq> []" using zeros by (simp_all add: ip_def)
      show "digits_val ip = c * 10 ^ nat e"
        using digits_val_zeros [of 1 "[]"] by (simp add: ip_def)
    qed
    show ?thesis
      using dec_parse_number [OF digits [OF ip(1)] ip(2) parse_digits [OF ip(1,2), of s]] True DFin ip(3)
      by (simp add: ip_def)
  next
    case False
    define k w where "k = nat (- e)" and "w = pad (Suc k) (nat_str c)"
    define ip fp where "ip = take (length w - k) w" and "fp = drop (length w - k) w"
    have w: "list_all is_digit w" "Suc k \<le> length w" "digits_val w = c" "w = ip @ fp"
      by (simp_all add: w_def ip_def fp_def)
    have f: "list_all is_digit ip" "list_all is_digit fp" using w(1) by (simp_all add: w(4))
    have "length fp = k" "w \<noteq> []" using w(2) by (auto simp: fp_def)
    note f = f this
    have num: "parse_number s (ip @ ''.'' @ fp) = Some (DFin s c e)"
      using parse_fraction [OF f(1,2)] f w False by (simp add: k_def)
    have chars: "list_all number_char (ip @ ''.'' @ fp)"
      using digits [OF f(1)] digits [OF f(2)] by (simp add: number_char_def)
    show ?thesis
      using dec_parse_number [OF chars _ num] False DFin
      by (simp add: point_at_def k_def [symmetric] w_def [symmetric] ip_def [symmetric] fp_def [symmetric])
  qed
next
  case (DInf s)
  have "dec_parse (plain_text (DInf False)) = Inr (DInf False)"
    "dec_parse (plain_text (DInf True)) = Inr (DInf True)" by code_simp+
  then show ?thesis using DInf by (cases s) simp_all
next
  case DNaN
  have "dec_parse (plain_text DNaN) = Inr DNaN" by code_simp
  then show ?thesis using DNaN by simp
qed

lemma plain_dval [simp]: "dval (plain d) = dval d"
  by (cases d) (auto simp: signed_def power_int_def)

lemma plain_idem [simp]: "plain (plain d) = plain d"
  by (cases d) auto

lemma plain_finite [simp]: "is_finite (plain d) = is_finite d"
  by (cases d) auto

lemma digit_char_0: "digit_char 0 = CHR ''0''"
  by code_simp

lemma nat_str_shift: "0 < c \<Longrightarrow> nat_str (c * 10 ^ n) = nat_str c @ replicate n CHR ''0''"
proof (induction n)
  case (Suc n)
  have "nat_str (c * 10 ^ Suc n) = nat_str (c * 10 ^ n) @ ''0''"
    using Suc.prems by (subst nat_str.simps) (auto simp: digit_char_0)
  then show ?case using Suc by (simp add: replicate_append_same)
qed simp

lemma plain_text_plain [simp]: "plain_text (plain d) = plain_text d"
  by (cases d) (auto simp: nat_str_shift)

lemma plain_text_inj: "plain_text a = plain_text b \<longleftrightarrow> plain a = plain b"
proof
  assume "plain_text a = plain_text b"
  then show "plain a = plain b" using parse_plain_text [of a] parse_plain_text [of b] by simp
next
  assume "plain a = plain b"
  then show "plain_text a = plain_text b"
    using plain_text_plain [of a] plain_text_plain [of b] by simp
qed

end
