(* ===== verification/Paper_Model.thy ===== *)
theory Paper_Model
  imports Money Live_Validation Py_Text
begin

text \<open>
  \<open>app/domain/paper/rules.py\<close> and \<open>model.py\<close>: the simulation rules a paper position carries, the
  specification a person writes with the checks of its constructor, the ledger event and the
  position. The data of an event is a dict of strings, kept as an association list; events are
  compared as the code compares them (\<open>same_event\<close>).
\<close>

section \<open>Simulation rules (rules.py)\<close>

definition SIMULATION_RULES_VERSION :: string where
  "SIMULATION_RULES_VERSION = ''paper-sim/v1''"

definition SUPPORTED_RULES_VERSIONS :: "string list" where
  "SUPPORTED_RULES_VERSIONS = [SIMULATION_RULES_VERSION]"

definition ENTRY_MODEL :: string where "ENTRY_MODEL = ''NEXT_BAR_OPEN''"

definition STOP_FILL_MODEL :: string where "STOP_FILL_MODEL = ''STOP_PRICE_OR_GAPPED_OPEN''"

definition TARGET_FILL_MODEL :: string where "TARGET_FILL_MODEL = ''TARGET_PRICE_NO_IMPROVEMENT''"

definition MANUAL_EXIT_MODEL :: string where "MANUAL_EXIT_MODEL = ''NEXT_BAR_OPEN''"

datatype SameBarPolicy = STOP_FIRST | HALT

fun same_bar_value :: "SameBarPolicy \<Rightarrow> string" where
  "same_bar_value STOP_FIRST = ''STOP_FIRST''"
| "same_bar_value HALT = ''HALT''"

datatype SlippageMode = ZERO_SLIPPAGE | FIXED_POINTS

fun slippage_mode_value :: "SlippageMode \<Rightarrow> string" where
  "slippage_mode_value ZERO_SLIPPAGE = ''ZERO''"
| "slippage_mode_value FIXED_POINTS = ''FIXED_POINTS''"

datatype FeeMode = NOT_MODELLED | USER_DEFINED_PER_UNIT

fun fee_mode_value :: "FeeMode \<Rightarrow> string" where
  "fee_mode_value NOT_MODELLED = ''NOT_MODELLED''"
| "fee_mode_value USER_DEFINED_PER_UNIT = ''USER_DEFINED_PER_UNIT''"

record SlippagePolicy =
  sl_mode :: SlippageMode
  sl_points :: "dec option"

definition make_slippage :: "SlippagePolicy \<Rightarrow> SlippagePolicy res" where
  "make_slippage s =
     (case (sl_mode s, sl_points s) of
        (ZERO_SLIPPAGE, None) \<Rightarrow> Inr s
      | (ZERO_SLIPPAGE, Some _) \<Rightarrow> Inl SimulationPolicyError
      | (FIXED_POINTS, None) \<Rightarrow> Inl SimulationPolicyError
      | (FIXED_POINTS, Some p) \<Rightarrow>
          if \<not> is_finite p \<or> dec_le p dec_zero then Inl SimulationPolicyError else Inr s)"

definition slip_amount :: "SlippagePolicy \<Rightarrow> dec" where
  "slip_amount s = (case sl_points s of Some p \<Rightarrow> p | None \<Rightarrow> dec_zero)"

record FeePolicy =
  fee_mode :: FeeMode
  fee_per_unit :: "dec option"

definition make_fees :: "FeePolicy \<Rightarrow> FeePolicy res" where
  "make_fees f =
     (case (fee_mode f, fee_per_unit f) of
        (NOT_MODELLED, None) \<Rightarrow> Inr f
      | (NOT_MODELLED, Some _) \<Rightarrow> Inl SimulationPolicyError
      | (USER_DEFINED_PER_UNIT, None) \<Rightarrow> Inl SimulationPolicyError
      | (USER_DEFINED_PER_UNIT, Some p) \<Rightarrow>
          if \<not> is_finite p \<or> dec_less p dec_zero then Inl SimulationPolicyError else Inr f)"

definition fees_modelled :: "FeePolicy \<Rightarrow> bool" where
  "fees_modelled f = (fee_mode f = USER_DEFINED_PER_UNIT)"

definition fee_for :: "FeePolicy \<Rightarrow> int \<Rightarrow> dec option res" where
  "fee_for f quantity =
     (case fee_per_unit f of
        None \<Rightarrow> Inr None
      | Some p \<Rightarrow> rmap Some (dec_mul default_context p (dec_of_int quantity)))"

record SimulationPolicy =
  sp_rules_version :: string
  sp_same_bar :: SameBarPolicy
  sp_slippage :: SlippagePolicy
  sp_fees :: FeePolicy

definition make_simulation_policy :: "SimulationPolicy \<Rightarrow> SimulationPolicy res" where
  "make_simulation_policy p =
     (if sp_rules_version p \<notin> set SUPPORTED_RULES_VERSIONS then Inl SimulationPolicyError else Inr p)"

definition adverse_price :: "dec \<Rightarrow> dec \<Rightarrow> Direction \<Rightarrow> bool \<Rightarrow> dec res" where
  "adverse_price price pts d entering =
     (case d of
        LONG \<Rightarrow> if entering then dec_add default_context price pts
                else dec_sub default_context price pts
      | SHORT \<Rightarrow> if entering then dec_sub default_context price pts
                 else dec_add default_context price pts
      | NEUTRAL \<Rightarrow> Inl SimulationPolicyError)"

section \<open>States, events and specifications (model.py)\<close>

definition MAX_TARGETS :: nat where "MAX_TARGETS = 5"

definition MAX_NOTE_LENGTH :: nat where "MAX_NOTE_LENGTH = 280"

datatype PositionState =
    PENDING_ENTRY | OPEN | PARTIALLY_CLOSED | AMBIGUOUS_HALTED | CLOSED | CANCELLED | REJECTED

definition is_terminal :: "PositionState \<Rightarrow> bool" where
  "is_terminal s = (s \<in> {CLOSED, CANCELLED, REJECTED})"

definition has_exposure :: "PositionState \<Rightarrow> bool" where
  "has_exposure s = (s \<in> {OPEN, PARTIALLY_CLOSED, AMBIGUOUS_HALTED})"

datatype PaperEventType =
    POSITION_CREATED | OBSERVATION_APPLIED | ENTRY_FILLED | ENTRY_REJECTED | TARGET_FILLED
  | STOP_FILLED | SAME_BAR_AMBIGUITY | CLOSE_REQUESTED | MANUAL_EXIT_FILLED
  | STOP_MOVED_TO_BREAKEVEN | POSITION_CANCELLED | POSITION_CLOSED

definition INPUT_EVENT_TYPES :: "PaperEventType list" where
  "INPUT_EVENT_TYPES =
     [POSITION_CREATED, OBSERVATION_APPLIED, CLOSE_REQUESTED, STOP_MOVED_TO_BREAKEVEN,
      POSITION_CANCELLED]"

datatype PositionOrigin = USER_CREATED | STRATEGY_BACKTEST

fun origin_value :: "PositionOrigin \<Rightarrow> string" where
  "origin_value USER_CREATED = ''USER_CREATED''"
| "origin_value STRATEGY_BACKTEST = ''STRATEGY_BACKTEST''"

record TargetSpec =
  tgt_price :: dec
  tgt_quantity :: int

record PositionSpec =
  ps_position_id :: string
  ps_symbol :: string
  ps_direction :: Direction
  ps_quantity :: int
  ps_intended_entry :: dec
  ps_stop :: dec
  ps_targets :: "TargetSpec list"
  ps_timeframe :: Timeframe
  ps_decision_time :: moment
  ps_policy :: SimulationPolicy
  ps_origin :: PositionOrigin
  ps_note :: "string option"

definition require_price :: "dec \<Rightarrow> unit res" where
  "require_price v =
     rbind (check (is_finite v) PaperInputError) (\<lambda>_. check (\<not> dec_le v dec_zero) PaperInputError)"

text \<open>The loop over the targets: each beyond the previous level; returns the units allocated.\<close>

fun check_targets :: "bool \<Rightarrow> dec \<Rightarrow> int \<Rightarrow> TargetSpec list \<Rightarrow> int res" where
  "check_targets long previous allocated [] = Inr allocated"
| "check_targets long previous allocated (t # ts) =
     rbind (require_price (tgt_price t)) (\<lambda>_.
     rbind (check (1 \<le> tgt_quantity t) PaperInputError) (\<lambda>_.
     rbind (check (if long then dec_less previous (tgt_price t) else dec_less (tgt_price t) previous)
              PaperInputError) (\<lambda>_.
       check_targets long (tgt_price t) (allocated + tgt_quantity t) ts)))"

definition note_ok :: "string option \<Rightarrow> bool" where
  "note_ok note =
     (case note of
        None \<Rightarrow> True
      | Some s \<Rightarrow> length s \<le> MAX_NOTE_LENGTH
          \<and> list_all (\<lambda>c. 32 \<le> (of_char c :: nat) \<or> (of_char c :: nat) = 9) s)"

definition make_spec :: "PositionSpec \<Rightarrow> PositionSpec res" where
  "make_spec s =
     (let long = (ps_direction s = LONG) in
      rbind (check (strip (ps_position_id s) \<noteq> []) PaperInputError) (\<lambda>_.
      rbind (check (strip (ps_symbol s) \<noteq> []) PaperInputError) (\<lambda>_.
      rbind (check (ps_direction s \<in> {LONG, SHORT}) PaperInputError) (\<lambda>_.
      rbind (check (1 \<le> ps_quantity s) PaperInputError) (\<lambda>_.
      rbind (require_price (ps_intended_entry s)) (\<lambda>_.
      rbind (require_price (ps_stop s)) (\<lambda>_.
      rbind (check (is_aware (ps_decision_time s)) PaperInputError) (\<lambda>_.
      rbind (check (ps_targets s \<noteq> []) PaperInputError) (\<lambda>_.
      rbind (check (length (ps_targets s) \<le> MAX_TARGETS) PaperInputError) (\<lambda>_.
      rbind (check (\<not> (if long then dec_le (ps_intended_entry s) (ps_stop s)
                       else dec_le (ps_stop s) (ps_intended_entry s))) PaperInputError) (\<lambda>_.
      rbind (check_targets long (ps_intended_entry s) 0 (ps_targets s)) (\<lambda>allocated.
      rbind (check (allocated \<le> ps_quantity s) PaperInputError) (\<lambda>_.
      rbind (check (note_ok (ps_note s)) PaperInputError) (\<lambda>_.
        Inr s))))))))))))))"

record RiskApproval =
  ra_outcome :: SizingOutcome
  ra_allowed_units :: "int option"
  ra_reason :: string

text \<open>The wording of a sizing reason is a parameter.\<close>

definition from_sizing :: "(SizingReason \<Rightarrow> string) \<Rightarrow> PositionSizing \<Rightarrow> RiskApproval" where
  "from_sizing wording z =
     \<lparr>ra_outcome = sz_outcome z, ra_allowed_units = sz_allowed_contracts z,
      ra_reason = wording (sz_reason z)\<rparr>"

type_synonym event_data = "(string \<times> string) list"

record PaperEvent =
  ev_sequence :: nat
  ev_type :: PaperEventType
  ev_market_time :: "moment option"
  ev_data :: event_data

text \<open>Equality of two dicts, and of two datetimes: aware ones by their instants.\<close>

definition same_data :: "event_data \<Rightarrow> event_data \<Rightarrow> bool" where
  "same_data a b = list_all (\<lambda>k. map_of a k = map_of b k) (map fst a @ map fst b)"

fun same_time :: "moment \<Rightarrow> moment \<Rightarrow> bool" where
  "same_time (Naive t) (Naive u) = (t = u)"
| "same_time (Aware t _) (Aware u _) = (t = u)"
| "same_time _ _ = False"

fun same_time_opt :: "moment option \<Rightarrow> moment option \<Rightarrow> bool" where
  "same_time_opt None None = True"
| "same_time_opt (Some t) (Some u) = same_time t u"
| "same_time_opt _ _ = False"

definition same_event :: "PaperEvent \<Rightarrow> PaperEvent \<Rightarrow> bool" where
  "same_event a b =
     (ev_sequence a = ev_sequence b \<and> ev_type a = ev_type b
      \<and> same_time_opt (ev_market_time a) (ev_market_time b) \<and> same_data (ev_data a) (ev_data b))"

record TargetState =
  tt_spec :: TargetSpec
  tt_filled :: bool
  tt_fill_price :: "dec option"

record PaperPosition =
  po_spec :: PositionSpec
  po_approval :: RiskApproval
  po_state :: PositionState
  po_remaining :: int
  po_stop :: dec
  po_targets :: "TargetState list"
  po_events :: "PaperEvent list"
  po_entry_fill_price :: "dec option"
  po_entry_time :: "moment option"
  po_realized_gross :: dec
  po_fees_total :: "dec option"
  po_last_bar_time :: "moment option"
  po_last_mark :: "dec option"
  po_close_pending :: bool
  po_bars_applied :: nat

definition filled_quantity :: "PaperPosition \<Rightarrow> int" where
  "filled_quantity p = (if po_entry_fill_price p \<noteq> None then ps_quantity (po_spec p) else 0)"

definition closed_quantity :: "PaperPosition \<Rightarrow> int" where
  "closed_quantity p = filled_quantity p - po_remaining p"

definition realized_net :: "PaperPosition \<Rightarrow> dec option res" where
  "realized_net p =
     (case po_fees_total p of
        None \<Rightarrow> Inr None
      | Some f \<Rightarrow> rmap Some (dec_sub default_context (po_realized_gross p) f))"

definition next_sequence :: "PaperPosition \<Rightarrow> nat" where
  "next_sequence p = length (po_events p) + 1"

section \<open>Lemmas\<close>

lemma same_time_refl [simp]: "same_time t t"
  by (cases t) simp_all

lemma same_event_refl [simp]: "same_event e e"
  by (cases "ev_market_time e") (simp_all add: same_event_def same_data_def list_all_iff)

lemma same_time_aware: "is_aware a \<Longrightarrow> is_aware b \<Longrightarrow> same_time a b \<longleftrightarrow> instant a = instant b"
  by (cases a; cases b) simp_all

lemma require_price_iff: "require_price v = Inr u \<longleftrightarrow> is_finite v \<and> 0 < dval v"
  by (cases "is_finite v") (auto simp: require_price_def dec_le_iff res_simps)

text \<open>A specification that passed its constructor.\<close>

definition made_spec :: "PositionSpec \<Rightarrow> bool" where
  "made_spec s \<longleftrightarrow> make_spec s = Inr s
     \<and> make_slippage (sp_slippage (ps_policy s)) = Inr (sp_slippage (ps_policy s))
     \<and> make_fees (sp_fees (ps_policy s)) = Inr (sp_fees (ps_policy s))
     \<and> make_simulation_policy (ps_policy s) = Inr (ps_policy s)"

definition target_ok :: "TargetSpec \<Rightarrow> bool" where
  "target_ok t \<longleftrightarrow> is_finite (tgt_price t) \<and> 0 < dval (tgt_price t) \<and> 1 \<le> tgt_quantity t"

lemma check_targets_sound:
  assumes "check_targets long previous n ts = Inr m"
  shows "m = n + sum_list (map tgt_quantity ts)" and "list_all target_ok ts"
  using assms by (induction ts arbitrary: previous n) (fastforce simp: res_simps require_price_iff target_ok_def)+

lemma made_spec_facts:
  assumes "made_spec s"
  shows "ps_direction s \<in> {LONG, SHORT}" and "1 \<le> ps_quantity s"
    and "is_finite (ps_intended_entry s)" "0 < dval (ps_intended_entry s)"
    and "is_finite (ps_stop s)" "0 < dval (ps_stop s)"
    and "is_aware (ps_decision_time s)" and "ps_targets s \<noteq> []"
    and "list_all target_ok (ps_targets s)"
    and "sum_list (map tgt_quantity (ps_targets s)) \<le> ps_quantity s"
    and "is_finite (slip_amount (sp_slippage (ps_policy s)))" "0 \<le> dval (slip_amount (sp_slippage (ps_policy s)))"
proof -
  obtain n where t: "check_targets (ps_direction s = LONG) (ps_intended_entry s) 0 (ps_targets s) = Inr n"
    and n: "n \<le> ps_quantity s"
    using assms by (auto simp: made_spec_def make_spec_def Let_def res_simps)
  show "list_all target_ok (ps_targets s)" "sum_list (map tgt_quantity (ps_targets s)) \<le> ps_quantity s"
    using check_targets_sound [OF t] n by simp_all
  show "ps_direction s \<in> {LONG, SHORT}" "1 \<le> ps_quantity s"
    "is_finite (ps_intended_entry s)" "0 < dval (ps_intended_entry s)"
    "is_finite (ps_stop s)" "0 < dval (ps_stop s)" "is_aware (ps_decision_time s)" "ps_targets s \<noteq> []"
    using assms by (auto simp: made_spec_def make_spec_def Let_def res_simps require_price_iff)
  have sl: "make_slippage (sp_slippage (ps_policy s)) = Inr (sp_slippage (ps_policy s))"
    using assms by (simp add: made_spec_def)
  show "is_finite (slip_amount (sp_slippage (ps_policy s)))" "0 \<le> dval (slip_amount (sp_slippage (ps_policy s)))"
    using sl by (auto simp: make_slippage_def slip_amount_def dec_le_iff split: SlippageMode.splits option.splits if_splits)
qed

end
