(* ===== verification/Paper_Engine.thy ===== *)
theory Paper_Engine
  imports Paper_Model
begin

text \<open>
  \<open>app/domain/paper/engine.py\<close>: pure functions from a position and one input to the next position.
  The class \<open>_Builder\<close> is the record \<open>Builder\<close> with its methods as functions that return the builder
  changed; the specification and the product, which it only reads, are arguments. A refusal is an
  exception value with its code; the wording of a refusal is not kept, that of an event is, since the
  ledger is compared with it.
\<close>

section \<open>Texts\<close>

definition optional_text :: "dec option \<Rightarrow> string" where
  "optional_text v = (case v of None \<Rightarrow> '''' | Some d \<Rightarrow> plain_text d)"

definition flag_text :: "bool \<Rightarrow> string" where
  "flag_text b = (if b then ''true'' else ''false'')"

fun join :: "string \<Rightarrow> string list \<Rightarrow> string" where
  "join sep [] = ''''"
| "join sep [x] = x"
| "join sep (x # y # xs) = x @ sep @ join sep (y # xs)"

definition anchor_text :: "moment option \<Rightarrow> string" where
  "anchor_text t = (case t of Some m \<Rightarrow> isoformat m | None \<Rightarrow> ''NONE'')"

fun asset_class_value :: "AssetClass \<Rightarrow> string" where
  "asset_class_value FUTURES = ''FUTURES''"
| "asset_class_value EQUITY = ''EQUITY''"
| "asset_class_value CRYPTO_SPOT = ''CRYPTO_SPOT''"
| "asset_class_value CRYPTO_PERPETUAL = ''CRYPTO_PERPETUAL''"
| "asset_class_value FX = ''FX''"

fun status_value :: "VerificationStatus \<Rightarrow> string" where
  "status_value VERIFIED_CURRENT_FACT = ''VERIFIED_CURRENT_FACT''"
| "status_value DEVELOPMENT_DEFAULT = ''DEVELOPMENT_DEFAULT''"
| "status_value TEST_FIXTURE = ''TEST_FIXTURE''"
| "status_value MOCK_DATA = ''MOCK_DATA''"
| "status_value UNVERIFIED_STATUS = ''UNVERIFIED''"

fun outcome_value :: "SizingOutcome \<Rightarrow> string" where
  "outcome_value ALLOWED = ''ALLOWED''"
| "outcome_value NOT_PERMITTED = ''NOT_PERMITTED''"
| "outcome_value UNDETERMINED = ''UNDETERMINED''"
| "outcome_value INVALID = ''INVALID''"

section \<open>Opening\<close>

definition creation_data :: "PositionSpec \<Rightarrow> RiskApproval \<Rightarrow> ProductPolicy \<Rightarrow> event_data res" where
  "creation_data s a product =
     rbind (pp_instrument product) (\<lambda>i.
       let point = pp_point_value product; policy = ps_policy s in
       Inr
        [(''origin'', origin_value (ps_origin s)),
         (''symbol'', ps_symbol s),
         (''asset_class'', asset_class_value (vvalue (in_asset_class i))),
         (''asset_class_status'', status_value (vstatus (in_asset_class i))),
         (''direction'', direction_value (ps_direction s)),
         (''quantity'', int_str (ps_quantity s)),
         (''unit'', voc_unit (pp_vocabulary product)),
         (''intended_entry'', plain_text (ps_intended_entry s)),
         (''stop'', plain_text (ps_stop s)),
         (''timeframe'', timeframe_value (ps_timeframe s)),
         (''targets'', join '';''
            (map (\<lambda>t. plain_text (tgt_price t) @ ''x'' @ int_str (tgt_quantity t)) (ps_targets s))),
         (''rules_version'', sp_rules_version policy),
         (''same_bar'', same_bar_value (sp_same_bar policy)),
         (''slippage_mode'', slippage_mode_value (sl_mode (sp_slippage policy))),
         (''slippage_points'', optional_text (sl_points (sp_slippage policy))),
         (''fee_mode'', fee_mode_value (fee_mode (sp_fees policy))),
         (''fee_per_unit'', optional_text (fee_per_unit (sp_fees policy))),
         (''entry_model'', ENTRY_MODEL),
         (''risk_outcome'', outcome_value (ra_outcome a)),
         (''risk_allowed_units'', case ra_allowed_units a of None \<Rightarrow> '''' | Some n \<Rightarrow> int_str n),
         (''risk_reason'', ra_reason a),
         (''point_value'', plain_text (vvalue point)),
         (''point_value_status'', status_value (vstatus point)),
         (''point_value_source'', vsource point),
         (''note'', case ps_note s of None \<Rightarrow> '''' | Some n \<Rightarrow> n)])"

text \<open>The \<open>try\<close> around \<open>require_product_calculable\<close>.\<close>

definition calculable_or_refuse :: "ProductPolicy \<Rightarrow> unit res" where
  "calculable_or_refuse product =
     (case require_product_calculable product of
        Inr u \<Rightarrow> Inr u
      | Inl e \<Rightarrow>
          if e = UnsupportedAssetClassError then refuse UNSUPPORTED_ASSET_CLASS
          else if e = UnverifiedFinancialFactError \<or> is_value_error e then refuse PRODUCT_NOT_CALCULABLE
          else Inl e)"

definition require_product :: "ProductPolicy \<Rightarrow> PositionSpec \<Rightarrow> unit res" where
  "require_product product s =
     rbind (pp_instrument product) (\<lambda>i.
     rbind (if same_instrument (in_symbol i) (ps_symbol s) then Inr () else refuse SYMBOL_MISMATCH) (\<lambda>_.
     rbind (calculable_or_refuse product) (\<lambda>_.
       if is_authoritative (pp_point_value product) then Inr () else refuse POINT_VALUE_UNVERIFIED)))"

definition require_allowed :: "PositionSpec \<Rightarrow> RiskApproval \<Rightarrow> unit res" where
  "require_allowed s a =
     (case ra_allowed_units a of
        None \<Rightarrow> refuse RISK_NOT_ALLOWED
      | Some n \<Rightarrow>
          if ra_outcome a \<noteq> ALLOWED then refuse RISK_NOT_ALLOWED
          else if n < ps_quantity s then refuse QUANTITY_EXCEEDS_RISK else Inr ())"

text \<open>All checks are computed before the first one is looked at.\<close>

definition require_executable :: "PositionSpec \<Rightarrow> ProductPolicy \<Rightarrow> unit res" where
  "require_executable s product =
     rbind (traverse (\<lambda>price. pp_price_increment_check product price (ps_stop s))
              (ps_intended_entry s # map tgt_price (ps_targets s))) (\<lambda>checks.
       if list_all (\<lambda>k. pi_feasibility k = ON_GRID) checks then Inr ()
       else refuse LEVELS_NOT_EXECUTABLE)"

definition open_position ::
  "PositionSpec \<Rightarrow> RiskApproval \<Rightarrow> ProductPolicy \<Rightarrow> PaperPosition res" where
  "open_position s a product =
     rbind (require_product product s) (\<lambda>_.
     rbind (require_allowed s a) (\<lambda>_.
     rbind (require_executable s product) (\<lambda>_.
     rbind (creation_data s a product) (\<lambda>data.
       Inr \<lparr>po_spec = s, po_approval = a, po_state = PENDING_ENTRY, po_remaining = 0,
            po_stop = ps_stop s,
            po_targets = map (\<lambda>t. \<lparr>tt_spec = t, tt_filled = False, tt_fill_price = None\<rparr>) (ps_targets s),
            po_events = [\<lparr>ev_sequence = 1, ev_type = POSITION_CREATED,
                          ev_market_time = Some (ps_decision_time s), ev_data = data\<rparr>],
            po_entry_fill_price = None, po_entry_time = None, po_realized_gross = dec_zero,
            po_fees_total = (if fees_modelled (sp_fees (ps_policy s)) then Some dec_zero else None),
            po_last_bar_time = None, po_last_mark = None, po_close_pending = False,
            po_bars_applied = 0\<rparr>))))"

section \<open>The builder of one bar\<close>

record Builder =
  bd_events :: "PaperEvent list"
  bd_state :: PositionState
  bd_remaining :: int
  bd_stop :: dec
  bd_targets :: "TargetState list"
  bd_entry :: "dec option"
  bd_entry_time :: "moment option"
  bd_gross :: dec
  bd_fees :: "dec option"
  bd_close_pending :: bool

definition start_builder :: "PaperPosition \<Rightarrow> Builder" where
  "start_builder p =
     \<lparr>bd_events = po_events p, bd_state = po_state p, bd_remaining = po_remaining p,
      bd_stop = po_stop p, bd_targets = po_targets p, bd_entry = po_entry_fill_price p,
      bd_entry_time = po_entry_time p, bd_gross = po_realized_gross p, bd_fees = po_fees_total p,
      bd_close_pending = po_close_pending p\<rparr>"

definition emit :: "PaperEventType \<Rightarrow> moment \<Rightarrow> event_data \<Rightarrow> Builder \<Rightarrow> Builder" where
  "emit kind t data b =
     b\<lparr>bd_events := bd_events b @
        [\<lparr>ev_sequence = length (bd_events b) + 1, ev_type = kind, ev_market_time = Some t,
          ev_data = data\<rparr>]\<rparr>"

definition require_positive_fill :: "dec \<Rightarrow> unit res" where
  "require_positive_fill fill =
     rbind (py_le fill dec_zero) (\<lambda>bad. if bad then refuse FILL_NOT_POSITIVE else Inr ())"

text \<open>\<open>self.fees_total or Decimal(0)\<close>: a zero total is falsy.\<close>

definition charge :: "dec option \<Rightarrow> Builder \<Rightarrow> Builder res" where
  "charge fee b =
     (case fee of
        None \<Rightarrow> Inr b
      | Some f \<Rightarrow>
          (let base = (case bd_fees b of
                         Some t \<Rightarrow> if dec_is_zero t then dec_zero else t
                       | None \<Rightarrow> dec_zero)
           in rmap (\<lambda>t. b\<lparr>bd_fees := Some t\<rparr>) (dec_add default_context base f)))"

definition product_gross :: "ProductPolicy \<Rightarrow> Direction \<Rightarrow> dec \<Rightarrow> dec \<Rightarrow> int \<Rightarrow> dec res" where
  "product_gross product d entry mark quantity =
     rmap pl_gross (pnl_for_product product d entry mark quantity None)"

text \<open>\<open>_exit\<close>: the gross result of closing some units at a fill, with the fee charged.\<close>

definition exit_units ::
  "PositionSpec \<Rightarrow> ProductPolicy \<Rightarrow> dec \<Rightarrow> int \<Rightarrow> Builder \<Rightarrow> (Builder \<times> dec \<times> dec option) res" where
  "exit_units s product fill quantity b =
     rbind (require_positive_fill fill) (\<lambda>_.
     case bd_entry b of
       None \<Rightarrow> refuse INVALID_TRANSITION
     | Some entry \<Rightarrow>
         if quantity < 1 \<or> bd_remaining b < quantity then refuse INVALID_TRANSITION
         else
           rbind (case product_gross product (ps_direction s) entry fill quantity of
                    Inl e \<Rightarrow> if e = PnLInputError then refuse FILL_NOT_POSITIVE else Inl e
                  | Inr g \<Rightarrow> Inr g) (\<lambda>gross.
           rbind (fee_for (sp_fees (ps_policy s)) quantity) (\<lambda>fee.
           rbind (charge fee b) (\<lambda>b1.
           rbind (dec_add default_context (bd_gross b1) gross) (\<lambda>total.
             Inr (b1\<lparr>bd_gross := total, bd_remaining := bd_remaining b1 - quantity\<rparr>, gross, fee))))))"

definition slippage :: "PositionSpec \<Rightarrow> dec" where
  "slippage s = slip_amount (sp_slippage (ps_policy s))"

section \<open>Entry\<close>

text \<open>Prices are finite here (the specification and the bar are validated), so the comparisons of the
  code do not raise and are written as booleans.\<close>

datatype Breach = BeyondStop | BeyondFirstTarget

definition entry_breach :: "bool \<Rightarrow> dec \<Rightarrow> dec \<Rightarrow> dec \<Rightarrow> Breach option" where
  "entry_breach long fill stop first =
     (if (if long then dec_le fill stop else dec_le stop fill) then Some BeyondStop
      else if (if long then dec_le first fill else dec_le fill first) then Some BeyondFirstTarget
      else None)"

fun breach_text :: "Breach \<Rightarrow> string" where
  "breach_text BeyondStop = ''at or beyond the stop''"
| "breach_text BeyondFirstTarget = ''at or beyond the first target''"

definition rejection_data :: "PositionSpec \<Rightarrow> Candle \<Rightarrow> dec \<Rightarrow> Breach \<Rightarrow> event_data" where
  "rejection_data s bar fill breach =
     [(''intended_entry'', plain_text (ps_intended_entry s)),
      (''open'', plain_text (bar_open bar)),
      (''slippage'', plain_text (slippage s)),
      (''would_fill'', plain_text fill),
      (''reason'', ''the entry would have filled at '' @ sci_text fill @ '', '' @ breach_text breach
         @ ''; the plan the risk engine approved no longer exists, so no position was opened'')]"

definition entry_data :: "PositionSpec \<Rightarrow> Candle \<Rightarrow> dec \<Rightarrow> dec option \<Rightarrow> dec \<Rightarrow> event_data" where
  "entry_data s bar fill fee diff =
     [(''model'', ENTRY_MODEL),
      (''intended_entry'', plain_text (ps_intended_entry s)),
      (''reference_price'', plain_text (bar_open bar)),
      (''slippage'', plain_text (slippage s)),
      (''fill_price'', plain_text fill),
      (''quantity'', int_str (ps_quantity s)),
      (''fee'', optional_text fee),
      (''difference_from_intended'', plain_text diff)]"

definition fill_entry :: "PositionSpec \<Rightarrow> Candle \<Rightarrow> dec \<Rightarrow> Builder \<Rightarrow> Builder res" where
  "fill_entry s bar fill b =
     rbind (require_positive_fill fill) (\<lambda>_.
     rbind (fee_for (sp_fees (ps_policy s)) (ps_quantity s)) (\<lambda>fee.
     rbind (charge fee b) (\<lambda>b1.
     rbind (dec_sub default_context fill (ps_intended_entry s)) (\<lambda>diff.
       Inr (emit ENTRY_FILLED (open_time bar) (entry_data s bar fill fee diff)
         (b1\<lparr>bd_entry := Some fill, bd_entry_time := Some (open_time bar),
             bd_remaining := ps_quantity s, bd_state := OPEN\<rparr>))))))"

definition enter :: "PositionSpec \<Rightarrow> Candle \<Rightarrow> Builder \<Rightarrow> (Builder \<times> bool) res" where
  "enter s bar b =
     rbind (adverse_price (bar_open bar) (slippage s) (ps_direction s) True) (\<lambda>fill.
     case entry_breach (ps_direction s = LONG) fill (bd_stop b)
            (tgt_price (tt_spec (hd (bd_targets b)))) of
       Some breach \<Rightarrow>
         Inr ((emit ENTRY_REJECTED (open_time bar) (rejection_data s bar fill breach) b)
                \<lparr>bd_state := REJECTED\<rparr>, False)
     | None \<Rightarrow> rmap (\<lambda>b1. (b1, True)) (fill_entry s bar fill b))"

section \<open>Exits\<close>

definition indices_text :: "nat list \<Rightarrow> string" where
  "indices_text is = join '','' (map (\<lambda>i. nat_str (i + 1)) is)"

definition stop_data ::
  "PositionSpec \<Rightarrow> dec \<Rightarrow> dec \<Rightarrow> bool \<Rightarrow> nat list \<Rightarrow> int \<Rightarrow> Builder \<Rightarrow> dec \<Rightarrow> dec option \<Rightarrow> event_data" where
  "stop_data s reference fill gap ambiguous quantity b gross fee =
     [(''model'', STOP_FILL_MODEL),
      (''trigger_price'', plain_text (bd_stop b)),
      (''reference_price'', plain_text reference),
      (''slippage'', plain_text (slippage s)),
      (''fill_price'', plain_text fill),
      (''quantity'', int_str quantity),
      (''gap'', flag_text gap),
      (''ambiguous'', flag_text (ambiguous \<noteq> [])),
      (''targets_also_touched'', indices_text ambiguous),
      (''gross_pnl'', plain_text gross),
      (''fee'', optional_text fee),
      (''remaining'', int_str (bd_remaining b))]"

definition exit_stop ::
  "PositionSpec \<Rightarrow> ProductPolicy \<Rightarrow> Candle \<Rightarrow> dec \<Rightarrow> bool \<Rightarrow> nat list \<Rightarrow> Builder \<Rightarrow> Builder res" where
  "exit_stop s product bar reference gap ambiguous b =
     rbind (adverse_price reference (slippage s) (ps_direction s) False) (\<lambda>fill.
     rbind (exit_units s product fill (bd_remaining b) b) (\<lambda>(b1, gross, fee).
       Inr (emit STOP_FILLED (open_time bar)
              (stop_data s reference fill gap ambiguous (bd_remaining b) b1 gross fee) b1)))"

definition target_data ::
  "Candle \<Rightarrow> nat \<Rightarrow> dec \<Rightarrow> bool \<Rightarrow> int \<Rightarrow> int \<Rightarrow> dec \<Rightarrow> dec option \<Rightarrow> event_data" where
  "target_data bar i fill gap quantity remaining gross fee =
     [(''model'', TARGET_FILL_MODEL),
      (''target'', nat_str (i + 1)),
      (''trigger_price'', plain_text fill),
      (''reference_price'', plain_text (if gap then bar_open bar else fill)),
      (''fill_price'', plain_text fill),
      (''quantity'', int_str quantity),
      (''gap'', flag_text gap),
      (''gross_pnl'', plain_text gross),
      (''fee'', optional_text fee),
      (''remaining'', int_str remaining)]"

definition exit_target ::
  "PositionSpec \<Rightarrow> ProductPolicy \<Rightarrow> Candle \<Rightarrow> nat \<Rightarrow> bool \<Rightarrow> Builder \<Rightarrow> Builder res" where
  "exit_target s product bar i gap b =
     (let target = bd_targets b ! i; quantity = tgt_quantity (tt_spec target);
          fill = tgt_price (tt_spec target)
      in if bd_remaining b < quantity then refuse INVALID_TRANSITION
         else rbind (exit_units s product fill quantity b) (\<lambda>(b1, gross, fee).
           let b2 = emit TARGET_FILLED (open_time bar)
                 (target_data bar i fill gap quantity (bd_remaining b1) gross fee)
                 (b1\<lparr>bd_targets := (bd_targets b1)
                        [i := target\<lparr>tt_filled := True, tt_fill_price := Some fill\<rparr>]\<rparr>)
           in Inr (if 0 < bd_remaining b2 \<and> bd_state b2 = OPEN
                   then b2\<lparr>bd_state := PARTIALLY_CLOSED\<rparr> else b2)))"

definition manual_data ::
  "PositionSpec \<Rightarrow> Candle \<Rightarrow> dec \<Rightarrow> int \<Rightarrow> int \<Rightarrow> dec \<Rightarrow> dec option \<Rightarrow> event_data" where
  "manual_data s bar fill quantity remaining gross fee =
     [(''model'', MANUAL_EXIT_MODEL),
      (''reference_price'', plain_text (bar_open bar)),
      (''slippage'', plain_text (slippage s)),
      (''fill_price'', plain_text fill),
      (''quantity'', int_str quantity),
      (''gross_pnl'', plain_text gross),
      (''fee'', optional_text fee),
      (''remaining'', int_str remaining)]"

definition manual_exit :: "PositionSpec \<Rightarrow> ProductPolicy \<Rightarrow> Candle \<Rightarrow> Builder \<Rightarrow> Builder res" where
  "manual_exit s product bar b =
     rbind (adverse_price (bar_open bar) (slippage s) (ps_direction s) False) (\<lambda>fill.
     rbind (exit_units s product fill (bd_remaining b) b) (\<lambda>(b1, gross, fee).
       Inr (emit MANUAL_EXIT_FILLED (open_time bar)
              (manual_data s bar fill (bd_remaining b) (bd_remaining b1) gross fee)
              (b1\<lparr>bd_close_pending := False\<rparr>))))"

section \<open>One bar\<close>

text \<open>The loop of \<open>at_open\<close> over the targets, by index: filled ones are skipped, the first one the open
  has not reached ends it.\<close>

fun open_targets ::
  "PositionSpec \<Rightarrow> ProductPolicy \<Rightarrow> Candle \<Rightarrow> nat list \<Rightarrow> Builder \<Rightarrow> Builder res" where
  "open_targets s product bar [] b = Inr b"
| "open_targets s product bar (i # is) b =
     (let target = bd_targets b ! i; level = tgt_price (tt_spec target) in
      if tt_filled target \<or> bd_remaining b = 0 then open_targets s product bar is b
      else if \<not> (if ps_direction s = LONG then dec_le level (bar_open bar)
                 else dec_le (bar_open bar) level)
      then Inr b
      else rbind (exit_target s product bar i (\<not> dec_eq (bar_open bar) level) b)
             (open_targets s product bar is))"

definition at_open :: "PositionSpec \<Rightarrow> ProductPolicy \<Rightarrow> Candle \<Rightarrow> Builder \<Rightarrow> Builder res" where
  "at_open s product bar b =
     (if (if ps_direction s = LONG then dec_le (bar_open bar) (bd_stop b)
          else dec_le (bd_stop b) (bar_open bar))
      then exit_stop s product bar (bar_open bar) (\<not> dec_eq (bar_open bar) (bd_stop b)) [] b
      else open_targets s product bar [0 ..< length (bd_targets b)] b)"

definition stop_touched :: "PositionSpec \<Rightarrow> Candle \<Rightarrow> Builder \<Rightarrow> bool" where
  "stop_touched s bar b =
     (if ps_direction s = LONG then dec_le (bar_low bar) (bd_stop b)
      else dec_le (bd_stop b) (bar_high bar))"

definition touched_targets :: "PositionSpec \<Rightarrow> Candle \<Rightarrow> Builder \<Rightarrow> nat list" where
  "touched_targets s bar b =
     filter (\<lambda>i. let target = bd_targets b ! i; level = tgt_price (tt_spec target) in
               \<not> tt_filled target
               \<and> (if ps_direction s = LONG then dec_le level (bar_high bar)
                  else dec_le (bar_low bar) level)) [0 ..< length (bd_targets b)]"

fun exit_targets ::
  "PositionSpec \<Rightarrow> ProductPolicy \<Rightarrow> Candle \<Rightarrow> nat list \<Rightarrow> Builder \<Rightarrow> Builder res" where
  "exit_targets s product bar [] b = Inr b"
| "exit_targets s product bar (i # is) b =
     (if bd_remaining b = 0 then Inr b
      else rbind (exit_target s product bar i False b) (exit_targets s product bar is))"

definition ambiguity_data :: "PositionSpec \<Rightarrow> Candle \<Rightarrow> nat list \<Rightarrow> Builder \<Rightarrow> event_data" where
  "ambiguity_data s bar touched b =
     [(''stop'', plain_text (bd_stop b)),
      (''targets_touched'', indices_text touched),
      (''high'', plain_text (bar_high bar)),
      (''low'', plain_text (bar_low bar)),
      (''policy'', same_bar_value (sp_same_bar (ps_policy s))),
      (''reason'', ''this bar reached both the stop and a target; OHLC records no order inside a bar, ''
         @ ''so which came first is unknown'')]"

definition intrabar :: "PositionSpec \<Rightarrow> ProductPolicy \<Rightarrow> Candle \<Rightarrow> Builder \<Rightarrow> Builder res" where
  "intrabar s product bar b =
     (let touched = touched_targets s bar b in
      if stop_touched s bar b \<and> touched \<noteq> []
      then (let b1 = emit SAME_BAR_AMBIGUITY (open_time bar) (ambiguity_data s bar touched b) b in
            if sp_same_bar (ps_policy s) = STOP_FIRST
            then exit_stop s product bar (bd_stop b1) False touched b1
            else Inr (b1\<lparr>bd_state := AMBIGUOUS_HALTED\<rparr>))
      else if stop_touched s bar b then exit_stop s product bar (bd_stop b) False [] b
      else exit_targets s product bar touched b)"

definition finish :: "Candle \<Rightarrow> Builder \<Rightarrow> Builder res" where
  "finish bar b =
     (if has_exposure (bd_state b) \<and> bd_remaining b = 0
      then rbind (case bd_fees b of
                    None \<Rightarrow> Inr None
                  | Some f \<Rightarrow> rmap Some (dec_sub default_context (bd_gross b) f)) (\<lambda>net.
             Inr (emit POSITION_CLOSED (open_time bar)
               [(''realized_gross'', plain_text (bd_gross b)),
                (''fees_total'', optional_text (bd_fees b)),
                (''realized_net'', optional_text net)] (b\<lparr>bd_state := CLOSED\<rparr>)))
      else Inr b)"

definition bar_events :: "PaperEvent list \<Rightarrow> PaperEvent list" where
  "bar_events es = filter (\<lambda>e. ev_type e = OBSERVATION_APPLIED) es"

definition build :: "PaperPosition \<Rightarrow> Builder \<Rightarrow> PaperPosition res" where
  "build p b =
     (let bars = bar_events (bd_events b); latest = last bars in
      rbind (case map_of (ev_data latest) ''close'' of None \<Rightarrow> Inl KeyError | Some t \<Rightarrow> dec_parse t)
        (\<lambda>mark.
          Inr (p\<lparr>po_state := bd_state b, po_remaining := bd_remaining b, po_stop := bd_stop b,
                po_targets := bd_targets b, po_events := bd_events b,
                po_entry_fill_price := bd_entry b, po_entry_time := bd_entry_time b,
                po_realized_gross := bd_gross b, po_fees_total := bd_fees b,
                po_last_bar_time := ev_market_time latest, po_last_mark := Some mark,
                po_close_pending := (bd_close_pending b \<and> has_exposure (bd_state b)),
                po_bars_applied := length bars\<rparr>)))"

section \<open>Inputs\<close>

definition positive_finite :: "dec \<Rightarrow> bool" where
  "positive_finite v = (is_finite v \<and> dec_less dec_zero v)"

definition bar_is_valid :: "PositionSpec \<Rightarrow> Candle \<Rightarrow> bool" where
  "bar_is_valid s bar =
     (same_instrument (bar_symbol bar) (ps_symbol s) \<and> bar_timeframe bar = ps_timeframe s
      \<and> is_closed bar \<and> is_aware (open_time bar)
      \<and> list_all positive_finite [bar_open bar, bar_high bar, bar_low bar, bar_close bar]
      \<and> \<not> dec_less (bar_high bar) (dec_max (dec_max (bar_open bar) (bar_close bar)) (bar_low bar))
      \<and> \<not> dec_less (dec_min (bar_open bar) (bar_close bar)) (bar_low bar))"

definition validate_bar :: "PaperPosition \<Rightarrow> Candle \<Rightarrow> unit res" where
  "validate_bar p bar = (if bar_is_valid (po_spec p) bar then Inr () else refuse INVALID_OBSERVATION)"

definition bar_data :: "Candle \<Rightarrow> event_data" where
  "bar_data bar =
     [(''open'', plain_text (bar_open bar)), (''high'', plain_text (bar_high bar)),
      (''low'', plain_text (bar_low bar)), (''close'', plain_text (bar_close bar)),
      (''volume'', plain_text (bar_volume bar))]"

definition applied_bar :: "PaperPosition \<Rightarrow> moment \<Rightarrow> event_data option" where
  "applied_bar p t =
     map_option ev_data
       (find (\<lambda>e. ev_type e = OBSERVATION_APPLIED \<and> same_time_opt (ev_market_time e) (Some t))
         (po_events p))"

text \<open>A bar not after the last applied one: a repeat that changes nothing, or a refusal.\<close>

definition repeat_bar :: "PaperPosition \<Rightarrow> Candle \<Rightarrow> PaperPosition res" where
  "repeat_bar p bar =
     (case applied_bar p (open_time bar) of
        None \<Rightarrow> refuse OUT_OF_ORDER
      | Some previous \<Rightarrow>
          if \<not> same_data previous (bar_data bar) then refuse CONFLICTING_OBSERVATION else Inr p)"

text \<open>The bar on the builder, once it was recorded.\<close>

definition process_bar :: "PositionSpec \<Rightarrow> ProductPolicy \<Rightarrow> Candle \<Rightarrow> Builder \<Rightarrow> Builder res" where
  "process_bar s product bar b =
     (if bd_state b = PENDING_ENTRY
      then rbind (enter s bar b) (\<lambda>(b1, entered).
             if entered then intrabar s product bar b1 else Inr b1)
      else if bd_close_pending b then manual_exit s product bar b
      else if bd_state b = AMBIGUOUS_HALTED then Inr b
      else rbind (at_open s product bar b) (\<lambda>b1.
             if 0 < bd_remaining b1 then intrabar s product bar b1 else Inr b1))"

definition new_bar :: "PaperPosition \<Rightarrow> Candle \<Rightarrow> ProductPolicy \<Rightarrow> PaperPosition res" where
  "new_bar p bar product =
     rbind (process_bar (po_spec p) product bar
              (emit OBSERVATION_APPLIED (open_time bar) (bar_data bar) (start_builder p))) (\<lambda>b.
     rbind (finish bar b) (build p))"

definition apply_observation :: "PaperPosition \<Rightarrow> Candle \<Rightarrow> ProductPolicy \<Rightarrow> PaperPosition res" where
  "apply_observation p bar product =
     rbind (validate_bar p bar) (\<lambda>_.
     let t = instant (open_time bar) in
     if (case po_last_bar_time p of None \<Rightarrow> False | Some l \<Rightarrow> t \<le> instant l) then repeat_bar p bar
     else if (case po_last_bar_time p of
                None \<Rightarrow> False
              | Some l \<Rightarrow> t < instant l + duration_of (ps_timeframe (po_spec p)))
     then refuse OUT_OF_ORDER
     else if t < instant (ps_decision_time (po_spec p)) then refuse OBSERVATION_BEFORE_DECISION
     else if is_terminal (po_state p) then refuse INVALID_TRANSITION
     else new_bar p bar product)"

definition add_event ::
  "PaperEventType \<Rightarrow> moment option \<Rightarrow> event_data \<Rightarrow> PaperPosition \<Rightarrow> PaperPosition" where
  "add_event kind t data p =
     p\<lparr>po_events := po_events p @
        [\<lparr>ev_sequence = next_sequence p, ev_type = kind, ev_market_time = t, ev_data = data\<rparr>]\<rparr>"

definition request_close :: "PaperPosition \<Rightarrow> PaperPosition res" where
  "request_close p =
     (if po_close_pending p then Inr p
      else if \<not> has_exposure (po_state p) then refuse INVALID_TRANSITION
      else Inr ((add_event CLOSE_REQUESTED (po_last_bar_time p)
                  [(''fills_at'', MANUAL_EXIT_MODEL), (''remaining'', int_str (po_remaining p)),
                   (''effective_after_bar'', anchor_text (po_last_bar_time p))] p)
                 \<lparr>po_close_pending := True\<rparr>))"

definition move_stop_to_breakeven :: "PaperPosition \<Rightarrow> PaperPosition res" where
  "move_stop_to_breakeven p =
     (if po_state p \<notin> {OPEN, PARTIALLY_CLOSED} then refuse INVALID_TRANSITION
      else case (po_entry_fill_price p, po_last_mark p) of
        (Some entry, Some mark) \<Rightarrow>
          if dec_eq (po_stop p) entry then Inr p
          else if (if ps_direction (po_spec p) = LONG then dec_le mark entry else dec_le entry mark)
          then refuse BREAKEVEN_NOT_PROTECTIVE
          else Inr ((add_event STOP_MOVED_TO_BREAKEVEN (po_last_bar_time p)
                      [(''from'', plain_text (po_stop p)), (''to'', plain_text entry),
                       (''protects'', int_str (po_remaining p)),
                       (''effective_after_bar'', anchor_text (po_last_bar_time p))] p)
                     \<lparr>po_stop := entry\<rparr>)
      | _ \<Rightarrow> refuse INVALID_TRANSITION)"

definition cancel :: "PaperPosition \<Rightarrow> PaperPosition res" where
  "cancel p =
     (if po_state p = CANCELLED then Inr p
      else if po_state p \<noteq> PENDING_ENTRY then refuse INVALID_TRANSITION
      else Inr ((add_event POSITION_CANCELLED None
                  [(''reason'', ''cancelled by the user before the entry filled'')] p)
                 \<lparr>po_state := CANCELLED\<rparr>))"

definition unrealized_gross :: "PaperPosition \<Rightarrow> ProductPolicy \<Rightarrow> dec option res" where
  "unrealized_gross p product =
     (if is_terminal (po_state p) then Inr (Some dec_zero)
      else case (po_entry_fill_price p, po_last_mark p) of
        (Some entry, Some mark) \<Rightarrow>
          if po_remaining p = 0 then Inr None
          else rmap Some (product_gross product (ps_direction (po_spec p)) entry mark (po_remaining p))
      | _ \<Rightarrow> Inr None)"

section \<open>Replay\<close>

datatype PaperInput = BarInput Candle | CloseInput | BreakevenInput | CancelInput

definition apply_input :: "ProductPolicy \<Rightarrow> PaperPosition \<Rightarrow> PaperInput \<Rightarrow> PaperPosition res" where
  "apply_input product p item =
     (case item of
        BarInput bar \<Rightarrow> apply_observation p bar product
      | CloseInput \<Rightarrow> request_close p
      | BreakevenInput \<Rightarrow> move_stop_to_breakeven p
      | CancelInput \<Rightarrow> cancel p)"

definition replay ::
  "PositionSpec \<Rightarrow> RiskApproval \<Rightarrow> ProductPolicy \<Rightarrow> PaperInput list \<Rightarrow> PaperPosition res" where
  "replay s a product inputs =
     rbind (open_position s a product) (\<lambda>p. run_all (apply_input product) p inputs)"

definition stored_decimal :: "event_data \<Rightarrow> string \<Rightarrow> dec res" where
  "stored_decimal data key =
     (case map_of data key of None \<Rightarrow> refuse REPLAY_DIVERGED | Some t \<Rightarrow> dec_parse t)"

text \<open>A missing key is refused before any value is read.\<close>

definition bar_from_event :: "PositionSpec \<Rightarrow> PaperEvent \<Rightarrow> Candle res" where
  "bar_from_event s e =
     (let data = ev_data e in
      if list_ex (\<lambda>k. map_of data k = None) [''open'', ''high'', ''low'', ''close'', ''volume'']
      then refuse REPLAY_DIVERGED
      else case ev_market_time e of
        None \<Rightarrow> refuse REPLAY_DIVERGED
      | Some t \<Rightarrow>
          rbind (stored_decimal data ''open'') (\<lambda>o1.
          rbind (stored_decimal data ''high'') (\<lambda>h.
          rbind (stored_decimal data ''low'') (\<lambda>l.
          rbind (stored_decimal data ''close'') (\<lambda>c.
          rbind (stored_decimal data ''volume'') (\<lambda>v.
            Inr \<lparr>bar_symbol = ps_symbol s, bar_timeframe = ps_timeframe s, open_time = t,
                 bar_open = o1, bar_high = h, bar_low = l, bar_close = c, bar_volume = v,
                 is_closed = True, open_interest = None\<rparr>))))))"

definition input_of :: "PositionSpec \<Rightarrow> PaperEvent \<Rightarrow> PaperInput res" where
  "input_of s e =
     (case ev_type e of
        OBSERVATION_APPLIED \<Rightarrow> rmap BarInput (bar_from_event s e)
      | CLOSE_REQUESTED \<Rightarrow> Inr CloseInput
      | STOP_MOVED_TO_BREAKEVEN \<Rightarrow> Inr BreakevenInput
      | _ \<Rightarrow> Inr CancelInput)"

definition replayed :: "PaperEvent \<Rightarrow> bool" where
  "replayed e = (ev_type e \<in> set INPUT_EVENT_TYPES \<and> ev_type e \<noteq> POSITION_CREATED)"

definition inputs_from_events :: "PositionSpec \<Rightarrow> PaperEvent list \<Rightarrow> PaperInput list res" where
  "inputs_from_events s es = traverse (input_of s) (filter replayed es)"

definition rebuild ::
  "PositionSpec \<Rightarrow> RiskApproval \<Rightarrow> ProductPolicy \<Rightarrow> PaperEvent list \<Rightarrow> PaperPosition res" where
  "rebuild s a product es =
     rbind (inputs_from_events s es) (\<lambda>inputs.
     rbind (replay s a product inputs) (\<lambda>p.
       if list_all2 same_event (po_events p) es then Inr p else refuse REPLAY_DIVERGED))"

end
