(* ===== verification/Sizing_Props.thy ===== *)
theory Sizing_Props
  imports Sizing
begin

text \<open>
  The properties of position sizing. Every lemma about a product is proved in \<open>money_product\<close>, the
  contract of \<open>Instrument\<close>, and reaches futures through its interpretation.
\<close>

section \<open>Validated inputs\<close>

definition made_account :: "AccountState \<Rightarrow> bool" where
  "made_account a \<longleftrightarrow> make_account a = Inr a"

definition made_policy :: "RiskPolicy \<Rightarrow> bool" where
  "made_policy p \<longleftrightarrow> make_risk_policy p = Inr p"

lemma made_account_facts:
  assumes "made_account a"
  shows "is_finite (ac_equity a)" and "\<not> is_nan (ac_used_margin a)"
    and "\<not> dec_less (ac_used_margin a) dec_zero"
  using assms by (auto simp: made_account_def make_account_def res_simps py_less_def split: if_splits)

lemma positive_or_infinite:
  "py_le r dec_zero = Inr False \<Longrightarrow> r = DInf False \<or> is_finite r \<and> 0 < dval r"
proof (cases "is_finite r")
  case True
  then show "py_le r dec_zero = Inr False \<Longrightarrow> r = DInf False \<or> is_finite r \<and> 0 < dval r"
    by (simp add: py_le_finite)
next
  case False
  then show "py_le r dec_zero = Inr False \<Longrightarrow> r = DInf False \<or> is_finite r \<and> 0 < dval r"
    by (cases r) (auto simp: py_le_def dec_le_def dec_zero_def split: if_splits)
qed

text \<open>The budget a validated policy states is positive; only a fixed one can be infinite.\<close>

lemma budget_positive:
  assumes "made_policy p" and "is_finite equity" and "0 < dval equity"
    and "risk_amount p equity = Inr b"
  shows "b = DInf False \<or> is_finite b \<and> 0 < dval b"
proof (cases "rp_mode p")
  case FIXED
  then have "py_le b dec_zero = Inr False"
    using assms(1,4) by (auto simp: made_policy_def make_risk_policy_def risk_amount_def res_simps
        split: option.splits)
  then show ?thesis by (rule positive_or_infinite)
next
  case PERCENTAGE
  then obtain r where r: "rp_risk_ratio p = Some r" and b: "dec_mul default_context equity r = Inr b"
    using assms(4) by (auto simp: risk_amount_def split: option.splits)
  have pr: "py_less dec_zero r = Inr True" "py_le r (dec_of_int 1) = Inr True"
    using assms(1) PERCENTAGE r
    by (auto simp: made_policy_def make_risk_policy_def res_simps split: if_splits)
  then have fr: "is_finite r"
    by (cases r) (auto simp: py_less_def py_le_def dec_le_def dec_of_int_def dec_zero_def split: if_splits)
  then have "0 < dval r" using pr by (simp add: py_less_finite)
  moreover have "is_finite b"
    by (rule dec_ops_fin(3) [OF b assms(2) fr])
  moreover have "sgn (dval b) = 1"
    using dec_mul_sgn [OF _ assms(2) fr b] calculation assms(3) by simp
  ultimately show ?thesis by (simp add: sgn_1_pos)
qed

lemma available_nonneg:
  assumes "made_account a" and "available_for_new_positions a = Inr free"
  shows "is_finite free" and "0 \<le> dval free"
proof -
  note a = made_account_facts [OF assms(1)]
  obtain fm where fm: "free_margin a = Inr fm"
    using assms(2) by (auto simp: available_for_new_positions_def res_simps)
  then have free: "free = (if dec_less dec_zero fm then fm else dec_zero)"
    using assms(2) by (auto simp: available_for_new_positions_def res_simps py_less_def split: if_splits)
  have "is_finite fm" if "dec_less dec_zero fm"
    using fm a that by (cases "ac_equity a"; cases "ac_used_margin a")
      (auto simp: free_margin_def dec_sub_def dec_zero_def fin_add_def Let_def split: if_splits)
  then show "is_finite free" "0 \<le> dval free"
    by (auto simp: free dec_less_iff split: if_splits)
qed

lemma stop_distance_pos:
  assumes "is_finite e" and "is_finite s" and "stop_distance d e s = Inr (Some gap)"
  shows "is_finite gap" and "0 < dval gap" and "d \<noteq> NEUTRAL"
    and "d = LONG \<Longrightarrow> dval s < dval e" and "d = SHORT \<Longrightarrow> dval e < dval s"
proof -
  have *: "is_finite r \<and> 0 < dval r" if "dec_sub default_context x y = Inr r" "is_finite x" "is_finite y"
    "dval y < dval x" for x y r
  proof -
    have "sgn (dval r) = 1" using dec_sub_sgn [OF _ that(2,3,1)] that(4) by simp
    moreover have "is_finite r" by (rule dec_ops_fin(2) [OF that(1-3)])
    ultimately show ?thesis by (simp add: sgn_1_pos)
  qed
  have "is_finite gap \<and> 0 < dval gap \<and> d \<noteq> NEUTRAL \<and> (d = LONG \<longrightarrow> dval s < dval e)
      \<and> (d = SHORT \<longrightarrow> dval e < dval s)"
  proof (cases d)
    case LONG
    then have "dval s < dval e" "dec_sub default_context e s = Inr gap"
      using assms by (simp_all add: stop_distance_def py_less_finite res_simps split: if_splits)
    then show ?thesis using * [of e s gap] assms(1,2) LONG by simp
  next
    case SHORT
    then have "dval e < dval s" "dec_sub default_context s e = Inr gap"
      using assms by (simp_all add: stop_distance_def py_less_finite res_simps split: if_splits)
    then show ?thesis using * [of s e gap] assms(1,2) SHORT by simp
  next
    case NEUTRAL
    then show ?thesis using assms(3) by (simp add: stop_distance_def)
  qed
  then show "is_finite gap" "0 < dval gap" "d \<noteq> NEUTRAL"
    "d = LONG \<Longrightarrow> dval s < dval e" "d = SHORT \<Longrightarrow> dval e < dval s" by simp_all
qed

section \<open>Sizing a product that keeps its contract\<close>

lemma invalid_sizing_loss [simp]: "sz_loss_per_contract (invalid_sizing r t) = None"
  by (simp add: invalid_sizing_def)

lemma decide_size_loss [simp]: "sz_loss_per_contract (decide_size b dd ll n f c g cap) = Some ll"
  by (simp add: decide_size_def Let_def)

lemma accepted_request:
  assumes "refused_request d e s p a = Inr None"
  shows "d \<in> {LONG, SHORT} \<and> is_finite e \<and> is_finite s \<and> py_le e dec_zero = Inr False
    \<and> py_le s dec_zero = Inr False \<and> py_le (ac_equity a) dec_zero = Inr False
    \<and> is_authoritative (pp_point_value p)"
  using assms unfolding refused_request_def by (auto simp: res_simps split: if_splits)

lemma sized_request:
  assumes "size_request d e s p a policy = Inr z" and "sz_loss_per_contract z = Some loss"
  shows "\<exists>gap budget n grid f capacity. stop_distance d e s = Inr (Some gap)
    \<and> risk_amount policy (ac_equity a) = Inr budget
    \<and> dec_mul default_context gap (vvalue (pp_point_value p)) = Inr loss
    \<and> floor_divide budget loss = Inr (Some n)
    \<and> pp_price_increment_check p e s = Inr grid \<and> margin_capacity p a = Inr (f, capacity)
    \<and> z = decide_size budget gap loss n f capacity grid (rp_max_contracts policy)"
proof -
  obtain gap where g: "stop_distance d e s = Inr (Some gap)"
    using assms by (auto simp: size_request_def res_simps split: option.splits)
  obtain budget ll where b: "risk_amount policy (ac_equity a) = Inr budget"
    "dec_mul default_context gap (vvalue (pp_point_value p)) = Inr ll"
    using assms(1) by (auto simp: size_request_def res_simps g)
  obtain n where n: "floor_divide budget ll = Inr (Some n)"
    using assms by (auto simp: size_request_def res_simps g b split: option.splits)
  obtain grid where gr: "pp_price_increment_check p e s = Inr grid"
    using assms(1) by (auto simp: size_request_def res_simps g b n)
  have "pi_feasibility grid \<noteq> OFF_GRID"
    using assms by (auto simp: size_request_def g b n gr)
  then obtain f capacity where "margin_capacity p a = Inr (f, capacity)"
    "z = decide_size budget gap ll n f capacity grid (rp_max_contracts policy)"
    using assms(1) by (auto simp: size_request_def res_simps g b n gr)
  then show ?thesis using g b n gr assms(2) by auto
qed

lemma sized_steps:
  assumes "size_for_product d e s p a policy = Inr z" and "sz_loss_per_contract z = Some loss"
  shows "require_product_calculable p = Inr ()" and "refused_request d e s p a = Inr None"
    and "size_request d e s p a policy = Inr z"
proof -
  obtain r where r: "require_product_calculable p = Inr ()" "refused_request d e s p a = Inr r"
    using assms(1) by (auto simp: size_for_product_def res_simps)
  moreover have "r = None" using assms r by (cases r) (auto simp: size_for_product_def)
  ultimately show "require_product_calculable p = Inr ()" "refused_request d e s p a = Inr None"
    "size_request d e s p a policy = Inr z"
    using assms(1) by (simp_all add: size_for_product_def)
qed

lemma decide_allowed:
  assumes "sz_outcome (decide_size b g loss n f cap grid c) = ALLOWED"
  shows "0 < n \<and> f = MARGIN_KNOWN \<and> pi_feasibility grid = ON_GRID \<and>
    (\<exists>k. sz_allowed_contracts (decide_size b g loss n f cap grid c) = Some k \<and> 1 \<le> k
      \<and> k = (case c of None \<Rightarrow> min n cap | Some m \<Rightarrow> min (min n cap) m))"
  using assms by (auto simp: decide_size_def Let_def split: if_splits)

context money_product
begin

text \<open>What an answer that carries a loss per unit was computed from.\<close>

lemma sized_facts:
  assumes c: "listed c" and a: "made_account a" and p: "made_policy policy"
    and z: "size_for_product d e s (product c) a policy = Inr z"
    and loss: "sz_loss_per_contract z = Some loss"
  shows "\<exists>gap budget n grid f capacity.
    (d \<in> {LONG, SHORT} \<and> is_finite e \<and> is_finite s \<and> is_authoritative (pp_point_value (product c)))
    \<and> stop_distance d e s = Inr (Some gap) \<and> risk_amount policy (ac_equity a) = Inr budget
    \<and> pp_price_increment_check (product c) e s = Inr grid
    \<and> margin_capacity (product c) a = Inr (f, capacity)
    \<and> z = decide_size budget gap loss n f capacity grid (rp_max_contracts policy)
    \<and> is_finite budget \<and> 0 < dval budget \<and> is_finite loss \<and> 0 < dval loss
    \<and> 0 \<le> n \<and> of_int n * dval loss \<le> dval budget
    \<and> (dval budget < 10 ^ 28 * dval loss \<longrightarrow> dval budget < (of_int n + 1) * dval loss)"
proof -
  note st = sized_steps [OF z loss]
  note acc = accepted_request [OF st(2)]
  obtain gap budget n grid f capacity where h: "stop_distance d e s = Inr (Some gap)"
    "risk_amount policy (ac_equity a) = Inr budget"
    "dec_mul default_context gap (vvalue (pp_point_value (product c))) = Inr loss"
    "floor_divide budget loss = Inr (Some n)"
    "pp_price_increment_check (product c) e s = Inr grid" "margin_capacity (product c) a = Inr (f, capacity)"
    "z = decide_size budget gap loss n f capacity grid (rp_max_contracts policy)"
    using sized_request [OF st(3) loss] by blast
  note pt = point_positive [OF c]
  note dist = stop_distance_pos [OF _ _ h(1)]
  have lossf: "is_finite loss" by (rule dec_ops_fin(3) [OF h(3)]) (use dist pt acc in simp_all)
  have "sgn (dval loss) = 1" using dec_mul_sgn [OF _ _ _ h(3)] dist pt acc by simp
  then have lossp: "0 < dval loss" by (simp add: sgn_1_pos)
  have eq: "is_finite (ac_equity a)" by (rule made_account_facts(1) [OF a])
  then have "0 < dval (ac_equity a)" using acc by (simp add: py_le_finite)
  then have "budget = DInf False \<or> is_finite budget \<and> 0 < dval budget"
    using budget_positive [OF p eq _ h(2)] by simp
  moreover have "budget \<noteq> DInf False"
    using h(4) lossf by (cases loss) (auto simp: floor_divide_def split: if_splits)
  ultimately have bf: "is_finite budget" "0 < dval budget" by simp_all
  obtain n' where n': "floor_divide budget loss = Inr (Some n')" "0 \<le> n'"
    "of_int n' * dval loss \<le> dval budget"
    "dval budget < 10 ^ 28 * dval loss \<Longrightarrow> dval budget < (of_int n' + 1) * dval loss"
    using floor_divide_bounds [OF bf(1) lossf _ lossp] bf(2) by (metis less_imp_le)
  then have "n' = n" using h(4) by simp
  then show ?thesis using n' h acc bf lossf lossp by blast
qed

text \<open>A unit that costs more than the budget is refused, and an unknown constraint never allows.\<close>

lemma refused_size:
  assumes c: "listed c" and a: "made_account a" and p: "made_policy policy"
    and z: "size_for_product d e s (product c) a policy = Inr z"
    and loss: "sz_loss_per_contract z = Some loss" and budget: "sz_risk_amount z = Some budget"
  shows "(dval budget < dval loss \<longrightarrow> sz_outcome z = NOT_PERMITTED \<and> sz_allowed_contracts z = Some 0)
    \<and> (sz_margin_feasibility z \<noteq> MARGIN_KNOWN \<or> sz_tick_feasibility z \<noteq> ON_GRID \<longrightarrow>
         sz_outcome z \<noteq> ALLOWED \<and> (sz_allowed_contracts z = None \<or> sz_allowed_contracts z = Some 0))
    \<and> (sz_margin_feasibility z \<noteq> MARGIN_KNOWN \<longrightarrow> sz_maximum_by_margin z = None)"
proof -
  obtain gap b n grid f capacity where
    z: "z = decide_size b gap loss n f capacity grid (rp_max_contracts policy)"
    and lp: "0 < dval loss" and n: "0 \<le> n" "of_int n * dval loss \<le> dval b"
    using sized_facts [OF c a p z loss] by blast
  have b: "b = budget" using budget by (simp add: z decide_size_def Let_def split: if_splits)
  have "n \<le> 0" if "dval budget < dval loss"
  proof (rule ccontr)
    assume "\<not> n \<le> 0"
    then have "1 * dval loss \<le> of_int n * dval loss" using lp by (intro mult_right_mono) simp_all
    then show False using n(2) that b by simp
  qed
  then show ?thesis by (auto simp: z b decide_size_def Let_def)
qed

text \<open>An allowed size, with everything it was measured against.\<close>

lemma allowed_size:
  assumes c: "listed c" and a: "made_account a" and p: "made_policy policy"
    and z: "size_for_product d e s (product c) a policy = Inr z" "sz_outcome z = ALLOWED"
  shows "\<exists>k loss budget m free t. sz_allowed_contracts z = Some k \<and> 1 \<le> k
    \<and> sz_loss_per_contract z = Some loss \<and> is_finite loss \<and> 0 < dval loss
    \<and> risk_amount policy (ac_equity a) = Inr budget \<and> is_finite budget
    \<and> of_int k * dval loss \<le> dval budget
    \<and> pp_margin_requirement (product c) = Inr \<lparr>mr_feasibility = MARGIN_KNOWN, mr_per_unit = Some m\<rparr>
    \<and> available_for_new_positions a = Inr free \<and> of_int k * dval m \<le> dval free
    \<and> (case rp_max_contracts policy of None \<Rightarrow> True | Some n \<Rightarrow> k \<le> n)
    \<and> (dval budget < 10 ^ 28 * dval loss \<longrightarrow> dval free < 10 ^ 28 * dval m \<longrightarrow>
         dval budget < (of_int k + 1) * dval loss \<or> dval free < (of_int k + 1) * dval m
         \<or> rp_max_contracts policy = Some k)
    \<and> is_authoritative (pp_point_value (product c))
    \<and> pp_price_increment (product c) = Some t \<and> is_authoritative t
    \<and> whole_steps e (vvalue t) \<and> whole_steps s (vvalue t)
    \<and> (d = LONG \<and> dval s < dval e \<or> d = SHORT \<and> dval e < dval s)"
proof -
  have nz: "sz_loss_per_contract z \<noteq> None"
  proof
    assume none: "sz_loss_per_contract z = None"
    have "sz_outcome z = INVALID"
      using z(1) none by (auto simp: size_for_product_def size_request_def res_simps invalid_sizing_def
          split: option.splits if_splits)
    then show False using z(2) by simp
  qed
  then obtain loss where loss: "sz_loss_per_contract z = Some loss" by auto
  obtain gap budget n grid f capacity where
    acc: "d \<in> {LONG, SHORT} \<and> is_finite e \<and> is_finite s \<and> is_authoritative (pp_point_value (product c))"
    and h: "stop_distance d e s = Inr (Some gap)" "risk_amount policy (ac_equity a) = Inr budget"
      "pp_price_increment_check (product c) e s = Inr grid"
      "margin_capacity (product c) a = Inr (f, capacity)"
      "z = decide_size budget gap loss n f capacity grid (rp_max_contracts policy)"
    and bf: "is_finite budget" "0 < dval budget" and lossf: "is_finite loss" and lossp: "0 < dval loss"
    and n: "0 \<le> n" "of_int n * dval loss \<le> dval budget"
      "dval budget < 10 ^ 28 * dval loss \<longrightarrow> dval budget < (of_int n + 1) * dval loss"
    using sized_facts [OF c a p z(1) loss] by blast
  have alw: "0 < n" "f = MARGIN_KNOWN" "pi_feasibility grid = ON_GRID"
    using decide_allowed [of budget gap loss n f capacity grid "rp_max_contracts policy"] z(2) h(5) by auto
  obtain k where k: "sz_allowed_contracts z = Some k" "1 \<le> k"
    "k = (case rp_max_contracts policy of None \<Rightarrow> min n capacity | Some m \<Rightarrow> min (min n capacity) m)"
    using decide_allowed [of budget gap loss n f capacity grid "rp_max_contracts policy"] z(2) h(5) by auto
  note dist = stop_distance_pos [OF _ _ h(1)]
  obtain r where r: "pp_margin_requirement (product c) = Inr r"
    using h(4) by (auto simp: margin_capacity_def res_simps)
  obtain m where m: "mr_per_unit r = Some m"
    using h(4) alw(2) r margin_known [OF c r] by (cases "mr_per_unit r") (auto simp: margin_capacity_def)
  note mp = margin_positive [OF c r m]
  obtain free cc where free: "available_for_new_positions a = Inr free" "floor_divide free m = Inr cc"
    "capacity = (case cc of None \<Rightarrow> 0 | Some x \<Rightarrow> max x 0)"
    using h(4) r m by (auto simp: margin_capacity_def res_simps)
  note av = available_nonneg [OF a free(1)]
  obtain x where x: "floor_divide free m = Inr (Some x)" "0 \<le> x" "of_int x * dval m \<le> dval free"
    "dval free < 10 ^ 28 * dval m \<Longrightarrow> dval free < (of_int x + 1) * dval m"
    using floor_divide_bounds [OF av(1) _ av(2)] mp by metis
  then have cap: "of_int capacity * dval m \<le> dval free"
    "dval free < 10 ^ 28 * dval m \<Longrightarrow> dval free < (of_int capacity + 1) * dval m"
    using free by simp_all
  have le: "k \<le> n" "k \<le> capacity" using k(3) by (auto split: option.splits)
  have mono: "of_int k * v \<le> of_int j * v" if "k \<le> j" "0 < v" for j :: int and v :: rat
    using that by simp
  have "of_int k * dval loss \<le> dval budget" using mono [OF le(1) lossp] n(2) by linarith
  moreover have "of_int k * dval m \<le> dval free" using mono [OF le(2), of "dval m"] mp cap(1) by linarith
  moreover have "k = n \<or> k = capacity \<or> rp_max_contracts policy = Some k"
    using k(3) by (auto split: option.splits simp: min_def)
  moreover obtain t where "pp_price_increment (product c) = Some t" "is_authoritative t"
    "whole_steps e (vvalue t)" "whole_steps s (vvalue t)"
    using on_grid_whole [OF c _ _ h(3) alw(3)] acc by blast
  moreover have "r = \<lparr>mr_feasibility = MARGIN_KNOWN, mr_per_unit = Some m\<rparr>"
    using mp m by (cases r) simp
  moreover have "case rp_max_contracts policy of None \<Rightarrow> True | Some n \<Rightarrow> k \<le> n"
    using k(3) by (auto split: option.splits)
  moreover have "d = LONG \<and> dval s < dval e \<or> d = SHORT \<and> dval e < dval s"
    using dist acc by auto
  ultimately show ?thesis
    using k loss lossf lossp h(2) bf free(1) r acc n(3) cap(2) by blast
qed

end

section \<open>Example\<close>

definition verified :: "'a \<Rightarrow> 'a VerifiedValue" where
  "verified v = \<lparr>vvalue = v, vstatus = VERIFIED_CURRENT_FACT, vsource = ''exchange'',
     vas_of = Some (Aware 0 0), vnote = None\<rparr>"

definition sample_contract :: "nat \<Rightarrow> dec VerifiedValue option \<Rightarrow> FuturesContract" where
  "sample_contract multiplier margin =
     \<lparr>fc_symbol = ''F_XU030'', fc_underlying_symbol = ''XU030'', fc_contract_name = ''index future'',
      fc_multiplier = verified (DFin False multiplier 0), fc_tick_size = verified (DFin False 5 (-2)),
      fc_tick_value = None, fc_initial_margin = margin, fc_maintenance_margin = None,
      fc_expiry = None, fc_settlement = None, fc_trading_session = None, fc_valuation = LINEAR,
      fc_classification = None\<rparr>"

definition sample_account :: AccountState where
  "sample_account = \<lparr>ac_equity = DFin False 2500 0, ac_used_margin = dec_zero\<rparr>"

definition sample_risk :: RiskPolicy where
  "sample_risk =
     \<lparr>rp_mode = FIXED, rp_fixed_risk = Some (DFin False 75 0), rp_risk_ratio = None,
      rp_max_contracts = None, rp_max_margin_utilisation = DFin False 5 (-1),
      rp_max_effective_leverage = DFin False 5 0\<rparr>"

named_theorems risk_eval

lemmas risk_eval_rules [risk_eval] = verified_def sample_contract_def sample_account_def sample_risk_def
  size_position_def size_for_product_def refused_request_def size_request_def decide_size_def
  futures_product_def require_product_calculable_def make_instrument_def classification_def
  canonical_symbol_def strip_def is_space_def require_implemented_def FUTURES_CAPABILITIES_def
  requires_linear_valuation_def require_calculable_def check_tick_value_def stop_distance_def
  risk_amount_def futures_increment_check_def authoritative_tick_size_def authoritative_value_def
  is_authoritative_def status_is_authoritative_def check_tick_grid_def margin_capacity_def
  futures_margin_requirement_def authoritative_initial_margin_def make_margin_requirement_def
  available_for_new_positions_def free_margin_def binding_constraint_def floor_divide_def
  py_le_def py_less_def dec_le_def scaled_def signed_def dec_zero_def dec_sub_def fin_add_def
  dec_fix_def fin_div_def strip_zeros.simps round_coeff_def make_account_def make_risk_policy_def
  made_account_def made_policy_def made_contract_def make_contract_def require_positive_def
  require_optional_positive_def dec_of_int_def blockers_def

lemma sample_sizing_made:
  "made_contract (sample_contract 10 (Some (verified (DFin False 250 0))))"
  "made_account sample_account" "made_policy sample_risk"
  by (simp_all add: risk_eval dec_eval)

lemma sample_sized:
  "got (size_position LONG (DFin False 105 0) (DFin False 104 0)
     (sample_contract 10 (Some (verified (DFin False 250 0)))) sample_account sample_risk)
     (\<lambda>z. sz_outcome z = ALLOWED \<and> sz_allowed_contracts z = Some 7)"
  by (simp add: risk_eval dec_eval Let_def cong: let_weak_cong)

section \<open>Properties\<close>






lemma sample_refused:
  "made_contract (sample_contract 100 None)"
  "got (size_position LONG (DFin False 105 0) (DFin False 104 0) (sample_contract 100 None)
     sample_account sample_risk) (\<lambda>z. sz_loss_per_contract z = Some (DFin False 100 0)
       \<and> sz_risk_amount z = Some (DFin False 75 0))"
  by (simp_all add: risk_eval dec_eval Let_def cong: let_weak_cong)


end
