(* ===== verification/Paper_Inv.thy ===== *)
theory Paper_Inv
  imports Paper_Engine Money_Props
begin

text \<open>
  The invariant of the builder of a bar (\<open>builder_ok\<close>) and what each of its methods does: it keeps the
  invariant, adds only derived events at the time of the bar, follows the abstract life of a position
  (\<open>paper_edge\<close>) and leaves the stop alone (\<open>good_step\<close>).
\<close>

section \<open>The abstract life of a position\<close>

text \<open>The transitions a person is told about; every engine input must follow them.\<close>

inductive paper_edge :: "PositionState \<Rightarrow> PositionState \<Rightarrow> bool" where
  entered: "paper_edge PENDING_ENTRY OPEN"
| rejected: "paper_edge PENDING_ENTRY REJECTED"
| cancelled: "paper_edge PENDING_ENTRY CANCELLED"
| scaled_out: "paper_edge OPEN PARTIALLY_CLOSED"
| halted: "s \<in> {OPEN, PARTIALLY_CLOSED} \<Longrightarrow> paper_edge s AMBIGUOUS_HALTED"
| closed: "has_exposure s \<Longrightarrow> paper_edge s CLOSED"

inductive_cases pending_edge: "paper_edge PENDING_ENTRY s"
inductive_simps paper_edge_to_pending: "paper_edge s PENDING_ENTRY"

section \<open>The ledger\<close>

definition numbered :: "PaperEvent list \<Rightarrow> bool" where
  "numbered es \<longleftrightarrow> map ev_sequence es = [1 ..< Suc (length es)]"

lemma numbered_snoc: "numbered (es @ [e]) \<longleftrightarrow> numbered es \<and> ev_sequence e = Suc (length es)"
  by (auto simp: numbered_def)

definition derived :: "moment \<Rightarrow> PaperEvent \<Rightarrow> bool" where
  "derived t e \<longleftrightarrow> ev_type e \<notin> set INPUT_EVENT_TYPES \<and> ev_market_time e = Some t"

text \<open>What one bar adds after recording the bar: derived events, at the time of the bar.\<close>

definition extends :: "moment \<Rightarrow> PaperEvent list \<Rightarrow> PaperEvent list \<Rightarrow> bool" where
  "extends t es es' \<longleftrightarrow> (\<exists>new. es' = es @ new \<and> list_all (derived t) new)"

lemma extends_refl [simp]: "extends t es es"
  by (simp add: extends_def)

lemma extends_snoc: "extends t es es' \<Longrightarrow> derived t e \<Longrightarrow> extends t es (es' @ [e])"
  by (auto simp: extends_def)

lemma extends_trans: "extends t a b \<Longrightarrow> extends t b c \<Longrightarrow> extends t a c"
  unfolding extends_def by (metis append.assoc list_all_append)

text \<open>The units an event of the ledger says were closed, read from its text.\<close>

definition exit_types :: "PaperEventType list" where
  "exit_types = [STOP_FILLED, TARGET_FILLED, MANUAL_EXIT_FILLED]"

definition event_units :: "PaperEvent \<Rightarrow> int" where
  "event_units e =
     (if ev_type e \<in> set exit_types
      then (case map_of (ev_data e) ''quantity'' of None \<Rightarrow> 0 | Some t \<Rightarrow> int (digits_val t)) else 0)"

definition ledger_units :: "PaperEvent list \<Rightarrow> int" where
  "ledger_units es = sum_list (map event_units es)"

lemma ledger_units_append [simp]: "ledger_units (es @ fs) = ledger_units es + ledger_units fs"
  by (simp add: ledger_units_def)

lemma ledger_units_Nil [simp]: "ledger_units [] = 0"
  by (simp add: ledger_units_def)

lemma ledger_units_single: "ledger_units [e] = event_units e"
  by (simp add: ledger_units_def)

section \<open>The invariant of the builder\<close>

definition filled_units :: "TargetState list \<Rightarrow> int" where
  "filled_units ts = sum_list (map (\<lambda>t. if tt_filled t then tgt_quantity (tt_spec t) else 0) ts)"

definition none_filled :: "TargetState list \<Rightarrow> bool" where
  "none_filled ts \<longleftrightarrow> list_all (\<lambda>t. \<not> tt_filled t) ts"

text \<open>The units of a position in a given state. Inside a bar an exposed position may already have no
  unit left: \<open>finish\<close> closes it.\<close>

fun units_ok :: "int \<Rightarrow> PositionState \<Rightarrow> int \<Rightarrow> TargetState list \<Rightarrow> bool" where
  "units_ok n OPEN r ts = (0 \<le> r \<and> (0 < r \<longrightarrow> r = n \<and> none_filled ts))"
| "units_ok n PARTIALLY_CLOSED r ts =
     (0 \<le> r \<and> (0 < r \<longrightarrow> r = n - filled_units ts \<and> 0 < filled_units ts))"
| "units_ok n AMBIGUOUS_HALTED r ts = (0 \<le> r \<and> (0 < r \<longrightarrow> r = n - filled_units ts))"
| "units_ok n CLOSED r ts = (r = 0)"
| "units_ok n _ r ts = (r = 0 \<and> none_filled ts)"

definition entered_state :: "PositionState \<Rightarrow> bool" where
  "entered_state st \<longleftrightarrow> has_exposure st \<or> st = CLOSED"

definition positive :: "dec \<Rightarrow> bool" where
  "positive v \<longleftrightarrow> is_finite v \<and> 0 < dval v"

text \<open>What the builder and the position share, and its invariant.\<close>

definition core_ok :: "PositionSpec \<Rightarrow> PaperEvent list \<Rightarrow> PositionState \<Rightarrow> int \<Rightarrow> dec \<Rightarrow> TargetState list
    \<Rightarrow> dec option \<Rightarrow> dec \<Rightarrow> dec option \<Rightarrow> bool" where
  "core_ok s es st r stop ts entry gross fees \<longleftrightarrow>
     numbered es \<and> map tt_spec ts = ps_targets s \<and> positive stop \<and> is_finite gross
     \<and> (case fees of None \<Rightarrow> \<not> fees_modelled (sp_fees (ps_policy s))
          | Some f \<Rightarrow> fees_modelled (sp_fees (ps_policy s)) \<and> is_finite f)
     \<and> units_ok (ps_quantity s) st r ts
     \<and> (case entry of None \<Rightarrow> \<not> entered_state st \<and> ledger_units es = 0
          | Some e \<Rightarrow> entered_state st \<and> positive e \<and> ledger_units es = ps_quantity s - r)"


definition builder_ok :: "PositionSpec \<Rightarrow> Builder \<Rightarrow> bool" where
  "builder_ok s b \<longleftrightarrow> core_ok s (bd_events b) (bd_state b) (bd_remaining b) (bd_stop b) (bd_targets b)
     (bd_entry b) (bd_gross b) (bd_fees b)"

text \<open>What every method of the builder does for a bar that opened at \<open>t\<close>.\<close>

definition good_step :: "PositionSpec \<Rightarrow> moment \<Rightarrow> Builder \<Rightarrow> Builder \<Rightarrow> bool" where
  "good_step s t b b' \<longleftrightarrow> builder_ok s b' \<and> extends t (bd_events b) (bd_events b')
     \<and> paper_edge\<^sup>*\<^sup>* (bd_state b) (bd_state b') \<and> bd_stop b' = bd_stop b"

lemma good_step_refl: "builder_ok s b \<Longrightarrow> good_step s t b b"
  by (simp add: good_step_def)

lemma good_step_trans: "good_step s t a b \<Longrightarrow> good_step s t b c \<Longrightarrow> good_step s t a c"
  by (auto simp: good_step_def intro: extends_trans)

lemma good_step_ok: "good_step s t a b \<Longrightarrow> builder_ok s b"
  by (simp add: good_step_def)

section \<open>Numbers in texts\<close>

lemma digits_val_int_str: "0 \<le> n \<Longrightarrow> int (digits_val (int_str n)) = n"
  by (simp add: int_str_def)

section \<open>The steps of an exit\<close>

lemma positive_fill_iff: "is_finite f \<Longrightarrow> require_positive_fill f = Inr u \<longleftrightarrow> positive f"
  by (auto simp: require_positive_fill_def py_le_finite positive_def res_simps split: if_splits)

lemma adverse_finite:
  assumes "adverse_price price pts d entering = Inr fill" and "is_finite price" and "is_finite pts"
  shows "is_finite fill"
  using assms dec_ops_fin by (auto simp: adverse_price_def split: Direction.splits if_splits)

lemma charge_facts:
  assumes "charge fee b = Inr b1"
    and "\<And>f. fee = Some f \<Longrightarrow> is_finite f" and "\<And>f. bd_fees b = Some f \<Longrightarrow> is_finite f"
  shows "\<exists>total. b1 = b\<lparr>bd_fees := total\<rparr> \<and> (fee = None \<longrightarrow> total = bd_fees b)
    \<and> (fee \<noteq> None \<longrightarrow> (\<exists>f. total = Some f \<and> is_finite f))"
  using assms dec_ops_fin
  by (fastforce simp: charge_def Let_def res_simps split: option.splits if_splits)

lemma fee_for_facts:
  assumes "made_spec s" and "fee_for (sp_fees (ps_policy s)) n = Inr fee"
  shows "fee \<noteq> None \<longleftrightarrow> fees_modelled (sp_fees (ps_policy s))" and "\<And>f. fee = Some f \<Longrightarrow> is_finite f"
proof -
  have m: "make_fees (sp_fees (ps_policy s)) = Inr (sp_fees (ps_policy s))"
    using assms(1) by (simp add: made_spec_def)
  show "fee \<noteq> None \<longleftrightarrow> fees_modelled (sp_fees (ps_policy s))" "\<And>f. fee = Some f \<Longrightarrow> is_finite f"
    using m assms(2) dec_ops_fin
    by (auto simp: make_fees_def fee_for_def fees_modelled_def res_simps split: FeeMode.splits option.splits if_splits)
qed

lemma product_gross_facts:
  assumes "product_gross product d e x n = Inr g"
  shows "is_finite g" and "positive e" and "positive x" and "1 \<le> n" and "d \<noteq> NEUTRAL"
proof -
  obtain m where g: "gross_pnl d e x m n = Inr g"
    using assms by (auto simp: product_gross_def pnl_for_product_def calculate_pnl_def Let_def res_simps)
  have v: "valid_trade e x m n" "tradeable d" using gross_pnl_Inr [OF g] by auto
  then show "is_finite g" using gross_pnl_valid [OF v] g by auto
  show "positive e" "positive x" "1 \<le> n" "d \<noteq> NEUTRAL"
    using v by (auto simp: valid_trade_def tradeable_def positive_def)
qed

lemma exit_units_facts:
  assumes ex: "exit_units s product fill n b = Inr (b1, gross, fee)"
    and made: "made_spec s" and ok: "builder_ok s b"
  shows "\<exists>total fees. b1 = b\<lparr>bd_gross := total, bd_fees := fees, bd_remaining := bd_remaining b - n\<rparr>
      \<and> is_finite total
      \<and> (case fees of None \<Rightarrow> \<not> fees_modelled (sp_fees (ps_policy s))
          | Some f \<Rightarrow> fees_modelled (sp_fees (ps_policy s)) \<and> is_finite f)
      \<and> 1 \<le> n \<and> n \<le> bd_remaining b \<and> bd_entry b \<noteq> None \<and> positive fill"
proof -
  obtain entry g b2 total where e: "bd_entry b = Some entry" "1 \<le> n" "n \<le> bd_remaining b"
    and g: "product_gross product (ps_direction s) entry fill n = Inr g"
    and f: "fee_for (sp_fees (ps_policy s)) n = Inr fee" and c: "charge fee b = Inr b2"
    and t: "dec_add default_context (bd_gross b2) g = Inr total"
    and b1: "b1 = b2\<lparr>bd_gross := total, bd_remaining := bd_remaining b2 - n\<rparr>"
    using ex by (auto simp: exit_units_def res_simps split: option.splits if_splits sum.splits)
  have core: "is_finite (bd_gross b)" "\<And>f. bd_fees b = Some f \<Longrightarrow> is_finite f"
    "bd_fees b = None \<longleftrightarrow> \<not> fees_modelled (sp_fees (ps_policy s))"
    using ok by (auto simp: builder_ok_def core_ok_def split: option.splits)
  obtain fees where b2: "b2 = b\<lparr>bd_fees := fees\<rparr>" and fees: "fee = None \<longrightarrow> fees = bd_fees b"
    "fee \<noteq> None \<longrightarrow> (\<exists>f. fees = Some f \<and> is_finite f)"
    using charge_facts [OF c fee_for_facts(2) [OF made f] core(2)] by auto
  have "is_finite total"
    using dec_ops_fin(1) [OF t] product_gross_facts(1) [OF g] core(1) by (simp add: b2)
  moreover have "case fees of None \<Rightarrow> \<not> fees_modelled (sp_fees (ps_policy s))
          | Some f \<Rightarrow> fees_modelled (sp_fees (ps_policy s)) \<and> is_finite f"
    using fees core fee_for_facts(1) [OF made f] by (cases fee) (auto split: option.splits)
  ultimately show ?thesis
    using b1 b2 e product_gross_facts(3) [OF g]
    by (intro exI [of _ total] exI [of _ fees]) simp
qed

text \<open>Adding a derived event that closes no unit.\<close>

lemma emit_simps [simp]:
  "bd_state (emit k t d b) = bd_state b" "bd_remaining (emit k t d b) = bd_remaining b"
  "bd_stop (emit k t d b) = bd_stop b" "bd_targets (emit k t d b) = bd_targets b"
  "bd_entry (emit k t d b) = bd_entry b" "bd_gross (emit k t d b) = bd_gross b"
  "bd_fees (emit k t d b) = bd_fees b" "bd_close_pending (emit k t d b) = bd_close_pending b"
  "bd_entry_time (emit k t d b) = bd_entry_time b"
  by (simp_all add: emit_def)

lemma emit_events: "bd_events (emit k t d b) = bd_events b @
    [\<lparr>ev_sequence = length (bd_events b) + 1, ev_type = k, ev_market_time = Some t, ev_data = d\<rparr>]"
  by (simp add: emit_def)

lemma core_ok_quiet:
  assumes "core_ok s es st r stop ts entry gross fees" and "event_units e = 0"
    and "ev_sequence e = Suc (length es)"
  shows "core_ok s (es @ [e]) st r stop ts entry gross fees"
  using assms by (auto simp: core_ok_def numbered_snoc ledger_units_single split: option.splits)

lemma core_ok_exit:
  assumes "core_ok s es st r stop ts entry gross fees" and "event_units e = n"
    and "ev_sequence e = Suc (length es)" and "map tt_spec ts' = map tt_spec ts"
    and "units_ok (ps_quantity s) st' (r - n) ts'" and "entered_state st'" and "entry \<noteq> None"
    and "is_finite gross'"
    and "case fees' of None \<Rightarrow> \<not> fees_modelled (sp_fees (ps_policy s))
          | Some f \<Rightarrow> fees_modelled (sp_fees (ps_policy s)) \<and> is_finite f"
  shows "core_ok s (es @ [e]) st' (r - n) stop ts' entry gross' fees'"
  using assms by (auto simp: core_ok_def numbered_snoc ledger_units_single split: option.splits)

lemma emit_quiet:
  assumes "builder_ok s b" and "k \<notin> set INPUT_EVENT_TYPES" and "k \<notin> set exit_types"
  shows "good_step s t b (emit k t d b)"
  using assms
  by (auto simp: good_step_def builder_ok_def emit_events event_units_def derived_def
      intro!: core_ok_quiet extends_snoc)

text \<open>Every remaining unit leaves at once: a stop, or a manual exit.\<close>

lemma all_units_out:
  assumes ok: "builder_ok s b" and made: "made_spec s" and st: "has_exposure (bd_state b)"
    and ex: "exit_units s product fill (bd_remaining b) b = Inr (b1, gross, fee)"
    and k: "k \<in> set exit_types" and data: "map_of d ''quantity'' = Some (int_str (bd_remaining b))"
  shows "good_step s t b (emit k t d (b1\<lparr>bd_close_pending := c\<rparr>))" and "bd_remaining b1 = 0"
    and "bd_state b1 = bd_state b"
proof -
  let ?e = "\<lparr>ev_sequence = length (bd_events b) + 1, ev_type = k, ev_market_time = Some t, ev_data = d\<rparr>"
  obtain total fees where b1: "b1 = b\<lparr>bd_gross := total, bd_fees := fees, bd_remaining := 0\<rparr>"
    and f: "is_finite total" "1 \<le> bd_remaining b" "bd_entry b \<noteq> None"
      "case fees of None \<Rightarrow> \<not> fees_modelled (sp_fees (ps_policy s))
          | Some f \<Rightarrow> fees_modelled (sp_fees (ps_policy s)) \<and> is_finite f"
    using exit_units_facts [OF ex made ok] by auto
  have units: "event_units ?e = bd_remaining b"
    using k data f(2) digits_val_int_str by (simp add: event_units_def)
  have "units_ok (ps_quantity s) (bd_state b) (bd_remaining b - bd_remaining b) (bd_targets b)"
    using ok st by (cases "bd_state b") (auto simp: builder_ok_def core_ok_def has_exposure_def)
  then have "core_ok s (bd_events b @ [?e]) (bd_state b) (bd_remaining b - bd_remaining b)
      (bd_stop b) (bd_targets b) (bd_entry b) total fees"
    using ok st units f
    by (intro core_ok_exit) (auto simp: builder_ok_def entered_state_def)
  moreover have "derived t ?e"
    using k by (auto simp: derived_def exit_types_def INPUT_EVENT_TYPES_def)
  ultimately show "good_step s t b (emit k t d (b1\<lparr>bd_close_pending := c\<rparr>))"
    by (simp add: good_step_def builder_ok_def emit_events b1 extends_snoc)
  show "bd_remaining b1 = 0" "bd_state b1 = bd_state b" by (simp_all add: b1)
qed


section \<open>Every method of the builder\<close>

lemma exit_data_quantity [simp]:
  "map_of (stop_data s reference fill gap amb n b gross fee) ''quantity'' = Some (int_str n)"
  "map_of (target_data bar i fill gap n r gross fee) ''quantity'' = Some (int_str n)"
  "map_of (manual_data s bar fill n r gross fee) ''quantity'' = Some (int_str n)"
  by (simp_all add: stop_data_def target_data_def manual_data_def)

lemma not_exposed_no_units:
  "builder_ok s b \<Longrightarrow> bd_entry b = None \<longleftrightarrow> \<not> entered_state (bd_state b)"
  by (auto simp: builder_ok_def core_ok_def split: option.splits)

lemma exit_stop_step:
  assumes "exit_stop s product bar reference gap amb b = Inr b'"
    and "builder_ok s b" and "made_spec s" and "has_exposure (bd_state b)"
  shows "good_step s (open_time bar) b b'" and "bd_remaining b' = 0"
    and "bd_state b' = bd_state b"
proof -
  obtain fill b1 gross fee d where ex: "exit_units s product fill (bd_remaining b) b = Inr (b1, gross, fee)"
    and d: "d = stop_data s reference fill gap amb (bd_remaining b) b1 gross fee"
    and b': "b' = emit STOP_FILLED (open_time bar) d b1"
    using assms(1) by (auto simp: exit_stop_def res_simps)
  have same: "b1 = b1\<lparr>bd_close_pending := bd_close_pending b1\<rparr>" by simp
  note out = all_units_out(1) [OF assms(2-4) ex, where k = STOP_FILLED and d = d
      and t = "open_time bar" and c = "bd_close_pending b1"]
    all_units_out(2,3) [OF assms(2-4) ex, where k = STOP_FILLED and d = d]
  show "good_step s (open_time bar) b b'" "bd_remaining b' = 0" "bd_state b' = bd_state b"
    using out d b' same by (simp_all add: exit_types_def)
qed

lemma manual_exit_step:
  assumes "manual_exit s product bar b = Inr b'"
    and "builder_ok s b" and "made_spec s" and "has_exposure (bd_state b)"
  shows "good_step s (open_time bar) b b'" and "bd_remaining b' = 0" and "bd_state b' = bd_state b"
    and "\<not> bd_close_pending b'"
proof -
  obtain fill b1 gross fee d where ex: "exit_units s product fill (bd_remaining b) b = Inr (b1, gross, fee)"
    and d: "d = manual_data s bar fill (bd_remaining b) (bd_remaining b1) gross fee"
    and b': "b' = emit MANUAL_EXIT_FILLED (open_time bar) d (b1\<lparr>bd_close_pending := False\<rparr>)"
    using assms(1) by (auto simp: manual_exit_def res_simps)
  note out = all_units_out(1) [OF assms(2-4) ex, where k = MANUAL_EXIT_FILLED and d = d
      and t = "open_time bar" and c = False]
    all_units_out(2,3) [OF assms(2-4) ex, where k = MANUAL_EXIT_FILLED and d = d]
  show "good_step s (open_time bar) b b'" "bd_remaining b' = 0" "bd_state b' = bd_state b"
    "\<not> bd_close_pending b'"
    using out d b' by (simp_all add: exit_types_def)
qed

lemma map_update_same: "f x = f (xs ! i) \<Longrightarrow> map f (xs[i := x]) = map f xs"
  by (induction xs arbitrary: i) (auto split: nat.splits)

lemma filled_units_update:
  assumes "i < length ts" and "\<not> tt_filled (ts ! i)" and "tt_filled t" and "tt_spec t = tt_spec (ts ! i)"
  shows "filled_units (ts[i := t]) = filled_units ts + tgt_quantity (tt_spec t)"
  using assms
proof (induction ts arbitrary: i)
  case (Cons u us)
  then show ?case by (cases i) (auto simp: filled_units_def)
qed simp

lemma none_filled_units: "none_filled ts \<Longrightarrow> filled_units ts = 0"
  by (induction ts) (auto simp: none_filled_def filled_units_def)

text \<open>A target that fills: the position is closed by it, or scaled out.\<close>

lemma exit_target_step:
  assumes "exit_target s product bar i gap b = Inr b'"
    and ok: "builder_ok s b" and made: "made_spec s"
    and st: "bd_state b \<in> {OPEN, PARTIALLY_CLOSED}" and r: "0 < bd_remaining b"
    and i: "i < length (bd_targets b)" "\<not> tt_filled (bd_targets b ! i)"
  shows "good_step s (open_time bar) b b'" and "bd_state b' \<in> {OPEN, PARTIALLY_CLOSED}"
    and "bd_remaining b' = bd_remaining b - tgt_quantity (tt_spec (bd_targets b ! i))"
    and "\<And>j. j \<noteq> i \<Longrightarrow> bd_targets b' ! j = bd_targets b ! j"
    and "length (bd_targets b') = length (bd_targets b)"
    and "bd_close_pending b' = bd_close_pending b"
proof -
  define n fill where "n = tgt_quantity (tt_spec (bd_targets b ! i))"
    and "fill = tgt_price (tt_spec (bd_targets b ! i))"
  define ts where "ts = (bd_targets b)[i := (bd_targets b ! i)\<lparr>tt_filled := True, tt_fill_price := Some fill\<rparr>]"
  obtain b1 gross fee where ex: "exit_units s product fill n b = Inr (b1, gross, fee)"
    using assms(1) by (auto simp: exit_target_def Let_def n_def fill_def res_simps split: if_splits)
  obtain total fees where b1: "b1 = b\<lparr>bd_gross := total, bd_fees := fees, bd_remaining := bd_remaining b - n\<rparr>"
    and f: "is_finite total" "1 \<le> n" "n \<le> bd_remaining b" "bd_entry b \<noteq> None"
      "case fees of None \<Rightarrow> \<not> fees_modelled (sp_fees (ps_policy s))
          | Some f \<Rightarrow> fees_modelled (sp_fees (ps_policy s)) \<and> is_finite f"
    using exit_units_facts [OF ex made ok] by auto
  define st' where "st' = (if 0 < bd_remaining b - n then PARTIALLY_CLOSED else bd_state b)"
  define e where "e = \<lparr>ev_sequence = Suc (length (bd_events b)), ev_type = TARGET_FILLED,
    ev_market_time = Some (open_time bar),
    ev_data = target_data bar i fill gap n (bd_remaining b - n) gross fee\<rparr>"
  have e: "ev_sequence e = Suc (length (bd_events b))" "ev_type e = TARGET_FILLED"
      "ev_market_time e = Some (open_time bar)" "map_of (ev_data e) ''quantity'' = Some (int_str n)"
    by (simp_all add: e_def)
  have "b' = (let b2 = emit TARGET_FILLED (open_time bar)
      (target_data bar i fill gap n (bd_remaining b1) gross fee) (b1\<lparr>bd_targets := ts\<rparr>)
    in if 0 < bd_remaining b2 \<and> bd_state b2 = OPEN then b2\<lparr>bd_state := PARTIALLY_CLOSED\<rparr> else b2)"
    using assms(1) ex f(3) by (auto simp: exit_target_def Let_def n_def fill_def ts_def b1)
  then have b': "bd_events b' = bd_events b @ [e]" "bd_state b' = st'" "bd_remaining b' = bd_remaining b - n"
      "bd_targets b' = ts" "bd_stop b' = bd_stop b" "bd_entry b' = bd_entry b" "bd_gross b' = total"
      "bd_fees b' = fees" "bd_close_pending b' = bd_close_pending b"
    using st by (auto simp: Let_def b1 emit_events e_def st'_def)
  have units: "event_units e = n"
    using e(2,4) f(2) digits_val_int_str by (simp add: event_units_def exit_types_def)
  have specs: "map tt_spec ts = map tt_spec (bd_targets b)"
    by (simp add: ts_def map_update_same)
  have fu: "filled_units ts = filled_units (bd_targets b) + n"
    using filled_units_update [OF i] by (simp add: ts_def n_def)
  have "units_ok (ps_quantity s) st' (bd_remaining b - n) ts"
    using ok st r f fu none_filled_units [of "bd_targets b"]
    by (auto simp: builder_ok_def core_ok_def st'_def)
  moreover have "entered_state st'"
    using st by (auto simp: st'_def entered_state_def has_exposure_def)
  ultimately have "builder_ok s b'"
    using ok e(1) units specs f(1,4,5) b' unfolding builder_ok_def
    by (auto intro!: core_ok_exit)
  moreover have "derived (open_time bar) e"
    using e by (simp add: derived_def INPUT_EVENT_TYPES_def)
  moreover have "paper_edge\<^sup>*\<^sup>* (bd_state b) st'"
    using st scaled_out by (auto simp: st'_def)
  ultimately show "good_step s (open_time bar) b b'"
    using b' by (simp add: good_step_def extends_snoc)
  show "bd_state b' \<in> {OPEN, PARTIALLY_CLOSED}" using b' st by (simp add: st'_def)
  show "bd_remaining b' = bd_remaining b - tgt_quantity (tt_spec (bd_targets b ! i))"
    "bd_close_pending b' = bd_close_pending b" using b' by (simp_all add: n_def)
  show "bd_targets b' ! j = bd_targets b ! j" if "j \<noteq> i" for j using that b' by (simp add: ts_def)
  show "length (bd_targets b') = length (bd_targets b)" using b' by (simp add: ts_def)
qed


text \<open>What an exposed builder is after the exits of a bar: still exposed.\<close>

definition live_step :: "PositionSpec \<Rightarrow> moment \<Rightarrow> Builder \<Rightarrow> Builder \<Rightarrow> bool" where
  "live_step s t b b' \<longleftrightarrow> good_step s t b b' \<and> bd_close_pending b' = bd_close_pending b
     \<and> length (bd_targets b') = length (bd_targets b)
     \<and> bd_state b' \<in> {OPEN, PARTIALLY_CLOSED}"

lemma live_step_refl:
  "builder_ok s b \<Longrightarrow> bd_state b \<in> {OPEN, PARTIALLY_CLOSED} \<Longrightarrow> live_step s t b b"
  by (simp add: live_step_def good_step_refl)

lemma live_step_trans: "live_step s t a b \<Longrightarrow> live_step s t b c \<Longrightarrow> live_step s t a c"
  by (auto simp: live_step_def intro: good_step_trans)

lemma remaining_nonneg: "builder_ok s b \<Longrightarrow> 0 \<le> bd_remaining b"
  by (cases "bd_state b") (auto simp: builder_ok_def core_ok_def)

lemma open_targets_step:
  assumes "open_targets s product bar is b = Inr b'"
    and "builder_ok s b" and "made_spec s" and "bd_state b \<in> {OPEN, PARTIALLY_CLOSED}"
    and "\<forall>i\<in>set is. i < length (bd_targets b)"
  shows "live_step s (open_time bar) b b'"
  using assms
proof (induction "is" arbitrary: b)
  case (Cons i "is")
  show ?case
  proof (cases "tt_filled (bd_targets b ! i) \<or> bd_remaining b = 0")
    case True
    then show ?thesis using Cons by (auto simp: Let_def)
  next
    case False
    then have r: "0 < bd_remaining b" using remaining_nonneg [OF Cons.prems(2)] by simp
    show ?thesis
    proof (cases "open_targets s product bar (i # is) b = Inr b")
      case True
      then show ?thesis using Cons.prems live_step_refl by auto
    next
      case nb: False
      obtain g b1 where e: "exit_target s product bar i g b = Inr b1"
        and rest: "open_targets s product bar is b1 = Inr b'"
        using Cons.prems(1) False nb by (auto simp: Let_def res_simps split: if_splits)
      have i: "i < length (bd_targets b)" "\<not> tt_filled (bd_targets b ! i)"
        using Cons.prems(5) False by auto
      note x = exit_target_step [OF e Cons.prems(2-4) r i]
      have l: "live_step s (open_time bar) b b1"
        using x by (simp add: live_step_def)
      have "live_step s (open_time bar) b1 b'"
        using Cons.IH [OF rest good_step_ok [OF x(1)] Cons.prems(3) x(2)] x(5) Cons.prems(5) by auto
      with l show ?thesis by (rule live_step_trans)
    qed
  qed
qed (auto simp: live_step_refl)

lemma exit_targets_step:
  assumes "exit_targets s product bar is b = Inr b'"
    and "builder_ok s b" and "made_spec s" and "bd_state b \<in> {OPEN, PARTIALLY_CLOSED}"
    and "\<forall>i\<in>set is. i < length (bd_targets b) \<and> \<not> tt_filled (bd_targets b ! i)" and "distinct is"
  shows "live_step s (open_time bar) b b'"
  using assms
proof (induction "is" arbitrary: b)
  case (Cons i "is")
  show ?case
  proof (cases "bd_remaining b = 0")
    case True
    then show ?thesis using Cons.prems live_step_refl by auto
  next
    case False
    then have r: "0 < bd_remaining b" using remaining_nonneg [OF Cons.prems(2)] by simp
    obtain b1 where e: "exit_target s product bar i False b = Inr b1"
      and rest: "exit_targets s product bar is b1 = Inr b'"
      using Cons.prems(1) False by (auto simp: res_simps)
    have i: "i < length (bd_targets b)" "\<not> tt_filled (bd_targets b ! i)"
      using Cons.prems(5) by auto
    note x = exit_target_step [OF e Cons.prems(2-4) r i]
    have l: "live_step s (open_time bar) b b1" using x by (simp add: live_step_def)
    have "\<forall>j\<in>set is. j < length (bd_targets b1) \<and> \<not> tt_filled (bd_targets b1 ! j)"
    proof
      fix j assume j: "j \<in> set is"
      then have "j \<noteq> i" using Cons.prems(6) by auto
      then show "j < length (bd_targets b1) \<and> \<not> tt_filled (bd_targets b1 ! j)"
        using x(4) [of j] x(5) Cons.prems(5) j by auto
    qed
    then have "live_step s (open_time bar) b1 b'"
      using Cons.IH [OF rest good_step_ok [OF x(1)] Cons.prems(3) x(2)] Cons.prems(6) by auto
    with l show ?thesis by (rule live_step_trans)
  qed
qed (auto simp: live_step_refl)

lemma exit_stop_live:
  assumes "exit_stop s product bar reference gap amb b = Inr b'"
    and "builder_ok s b" and "made_spec s" and "bd_state b \<in> {OPEN, PARTIALLY_CLOSED}"
  shows "good_step s (open_time bar) b b'" and "bd_state b' \<in> {OPEN, PARTIALLY_CLOSED}"
    and "bd_remaining b' = 0"
proof -
  have "has_exposure (bd_state b)" using assms(4) by (auto simp: has_exposure_def)
  note x = exit_stop_step [OF assms(1-3) this]
  then show "good_step s (open_time bar) b b'" "bd_state b' \<in> {OPEN, PARTIALLY_CLOSED}"
    "bd_remaining b' = 0" using assms(4) by simp_all
qed

text \<open>A builder that is exposed in the sense of the state machine, with the step that led there.\<close>

definition exposed_step :: "PositionSpec \<Rightarrow> moment \<Rightarrow> Builder \<Rightarrow> Builder \<Rightarrow> bool" where
  "exposed_step s t b b' \<longleftrightarrow> good_step s t b b' \<and> has_exposure (bd_state b')"

lemma live_exposed: "live_step s t b b' \<Longrightarrow> exposed_step s t b b'"
  by (auto simp: live_step_def exposed_step_def has_exposure_def)

lemma at_open_step:
  assumes "at_open s product bar b = Inr b'"
    and "builder_ok s b" and "made_spec s" and "bd_state b \<in> {OPEN, PARTIALLY_CLOSED}"
  shows "good_step s (open_time bar) b b'" and "bd_state b' \<in> {OPEN, PARTIALLY_CLOSED}"
proof -
  have "good_step s (open_time bar) b b' \<and> bd_state b' \<in> {OPEN, PARTIALLY_CLOSED}"
  proof (cases "if ps_direction s = LONG then dec_le (bar_open bar) (bd_stop b)
          else dec_le (bd_stop b) (bar_open bar)")
    case True
    then show ?thesis using exit_stop_live [OF _ assms(2-4)] assms(1) unfolding at_open_def by metis
  next
    case False
    then have "open_targets s product bar [0 ..< length (bd_targets b)] b = Inr b'"
      using assms(1) by (simp add: at_open_def del: open_targets.simps)
    from open_targets_step [OF this assms(2-4)] show ?thesis by (auto simp: live_step_def)
  qed
  then show "good_step s (open_time bar) b b'" "bd_state b' \<in> {OPEN, PARTIALLY_CLOSED}" by simp_all
qed

lemma touched_targets_facts:
  "\<forall>i\<in>set (touched_targets s bar b). i < length (bd_targets b) \<and> \<not> tt_filled (bd_targets b ! i)"
  "distinct (touched_targets s bar b)"
  by (auto simp: touched_targets_def Let_def)

lemma halt_step:
  assumes "builder_ok s b" and "bd_state b \<in> {OPEN, PARTIALLY_CLOSED}" and "0 < bd_remaining b"
  shows "exposed_step s t b (b\<lparr>bd_state := AMBIGUOUS_HALTED\<rparr>)"
proof -
  have "paper_edge (bd_state b) AMBIGUOUS_HALTED" using assms(2) by (rule halted)
  then show ?thesis
    using assms none_filled_units [of "bd_targets b"]
    by (auto simp: exposed_step_def good_step_def builder_ok_def core_ok_def has_exposure_def
        entered_state_def split: option.splits)
qed

lemma intrabar_step:
  assumes "intrabar s product bar b = Inr b'"
    and "builder_ok s b" and "made_spec s" and "bd_state b \<in> {OPEN, PARTIALLY_CLOSED}"
    and "0 < bd_remaining b"
  shows "exposed_step s (open_time bar) b b'"
proof -
  let ?touched = "touched_targets s bar b"
  define b1 where "b1 = emit SAME_BAR_AMBIGUITY (open_time bar) (ambiguity_data s bar ?touched b) b"
  have q: "good_step s (open_time bar) b b1"
    unfolding b1_def by (rule emit_quiet [OF assms(2)]) (simp_all add: INPUT_EVENT_TYPES_def exit_types_def)
  have b1: "bd_state b1 \<in> {OPEN, PARTIALLY_CLOSED}" "0 < bd_remaining b1"
    using assms(4,5) by (simp_all add: b1_def)
  consider (first) "exit_stop s product bar (bd_stop b1) False ?touched b1 = Inr b'"
    | (halt) "b' = b1\<lparr>bd_state := AMBIGUOUS_HALTED\<rparr>"
    | (stop) "exit_stop s product bar (bd_stop b) False [] b = Inr b'"
    | (targets) "exit_targets s product bar ?touched b = Inr b'"
    using assms(1) unfolding intrabar_def b1_def [symmetric] Let_def
    by (metis Inr_inject)
  then show ?thesis
  proof cases
    case first
    then show ?thesis
      using exit_stop_live [OF first good_step_ok [OF q] assms(3) b1(1)] q
      by (auto simp: exposed_step_def has_exposure_def intro: good_step_trans)
  next
    case halt
    then show ?thesis
      using halt_step [OF good_step_ok [OF q] b1, of "open_time bar"] q
      by (auto simp: exposed_step_def intro: good_step_trans)
  next
    case stop
    then show ?thesis
      using exit_stop_live [OF stop assms(2-4)] by (auto simp: exposed_step_def has_exposure_def)
  next
    case targets
    then show ?thesis
      using exit_targets_step [OF targets assms(2-4) touched_targets_facts] live_exposed by blast
  qed
qed


lemma enter_step:
  assumes "enter s bar b = Inr (b', entered)" and ok: "builder_ok s b" and made: "made_spec s"
    and st: "bd_state b = PENDING_ENTRY" and price: "is_finite (bar_open bar)"
  shows "good_step s (open_time bar) b b'" and "bd_close_pending b' = bd_close_pending b"
    and "if entered then bd_state b' = OPEN \<and> 0 < bd_remaining b' else bd_state b' = REJECTED"
proof -
  let ?t = "open_time bar"
  obtain fill where fill: "adverse_price (bar_open bar) (slippage s) (ps_direction s) True = Inr fill"
    "is_finite fill"
    using assms(1) adverse_finite [OF _ price] made_spec_facts(11) [OF made]
    by (auto simp: enter_def res_simps slippage_def)
  have none: "bd_entry b = None" using not_exposed_no_units [OF ok] st
    by (simp add: entered_state_def has_exposure_def)
  consider (rej) breach where "\<not> entered"
      "b' = (emit ENTRY_REJECTED ?t (rejection_data s bar fill breach) b)\<lparr>bd_state := REJECTED\<rparr>"
    | (in1) "entered" "fill_entry s bar fill b = Inr b'"
    using assms(1) fill(1) by (auto simp: enter_def res_simps split: option.splits)
  then have "good_step s ?t b b' \<and> bd_close_pending b' = bd_close_pending b
    \<and> (if entered then bd_state b' = OPEN \<and> 0 < bd_remaining b' else bd_state b' = REJECTED)"
  proof cases
    case rej
    define b1 where "b1 = emit ENTRY_REJECTED ?t (rejection_data s bar fill breach) b"
    have q: "good_step s ?t b b1"
      unfolding b1_def by (rule emit_quiet [OF ok]) (simp_all add: INPUT_EVENT_TYPES_def exit_types_def)
    have same: "bd_state b1 = PENDING_ENTRY" "bd_entry b1 = None" "bd_close_pending b1 = bd_close_pending b"
      using st none by (simp_all add: b1_def)
    have "builder_ok s b'"
      using good_step_ok [OF q] same none rej(2)
      by (auto simp: b1_def [symmetric] builder_ok_def core_ok_def entered_state_def has_exposure_def)
    then show ?thesis
      using q same st rej paper_edge.rejected by (auto simp: good_step_def b1_def [symmetric])
  next
    case in1
    obtain fee b1 diff where f: "positive fill" "fee_for (sp_fees (ps_policy s)) (ps_quantity s) = Inr fee"
      "charge fee b = Inr b1"
      and b': "b' = emit ENTRY_FILLED ?t (entry_data s bar fill fee diff)
         (b1\<lparr>bd_entry := Some fill, bd_entry_time := Some ?t, bd_remaining := ps_quantity s, bd_state := OPEN\<rparr>)"
      using in1(2) positive_fill_iff [OF fill(2)] by (auto simp: fill_entry_def res_simps)
    have core: "\<And>f. bd_fees b = Some f \<Longrightarrow> is_finite f"
      "bd_fees b = None \<longleftrightarrow> \<not> fees_modelled (sp_fees (ps_policy s))"
      using ok by (auto simp: builder_ok_def core_ok_def split: option.splits)
    obtain fees where b1: "b1 = b\<lparr>bd_fees := fees\<rparr>" and fees: "fee = None \<longrightarrow> fees = bd_fees b"
      "fee \<noteq> None \<longrightarrow> (\<exists>f. fees = Some f \<and> is_finite f)"
      using charge_facts [OF f(3) fee_for_facts(2) [OF made f(2)] core(1)] by auto
    have fo: "case fees of None \<Rightarrow> \<not> fees_modelled (sp_fees (ps_policy s))
          | Some f \<Rightarrow> fees_modelled (sp_fees (ps_policy s)) \<and> is_finite f"
      using fees core fee_for_facts(1) [OF made f(2)] by (cases fee) (auto split: option.splits)
    define b2 where "b2 = b1\<lparr>bd_entry := Some fill, bd_entry_time := Some ?t,
      bd_remaining := ps_quantity s, bd_state := OPEN\<rparr>"
    have "builder_ok s b2"
      using ok none st f(1) fo made_spec_facts(2) [OF made]
      by (auto simp: b2_def b1 builder_ok_def core_ok_def entered_state_def has_exposure_def)
    from emit_quiet [OF this, of ENTRY_FILLED ?t "entry_data s bar fill fee diff"]
    have g: "good_step s ?t b2 b'" by (simp add: b' b2_def INPUT_EVENT_TYPES_def exit_types_def)
    show ?thesis
      using g in1(1) st made_spec_facts(2) [OF made] paper_edge.entered b'
      by (auto simp: good_step_def b2_def b1)
  qed
  then show "good_step s ?t b b'" "bd_close_pending b' = bd_close_pending b"
    "if entered then bd_state b' = OPEN \<and> 0 < bd_remaining b' else bd_state b' = REJECTED"
    by simp_all
qed

text \<open>The states a bar may leave: the remaining quantity says whether \<open>finish\<close> closes the position.\<close>

lemma process_bar_step:
  assumes p: "process_bar s product bar b = Inr b'" and ok: "builder_ok s b" and made: "made_spec s"
    and price: "is_finite (bar_open bar)" and live: "\<not> is_terminal (bd_state b)"
    and pend: "bd_close_pending b \<Longrightarrow> has_exposure (bd_state b)"
    and r: "has_exposure (bd_state b) \<Longrightarrow> 0 < bd_remaining b"
  shows "good_step s (open_time bar) b b'" and "has_exposure (bd_state b') \<or> bd_state b' = REJECTED"
    and "bd_state b = PENDING_ENTRY \<Longrightarrow> bd_state b' \<noteq> PENDING_ENTRY"
proof -
  let ?t = "open_time bar"
  have "good_step s ?t b b' \<and> (has_exposure (bd_state b') \<or> bd_state b' = REJECTED)"
  proof (cases "bd_state b = PENDING_ENTRY")
    case True
    obtain b1 entered where e: "enter s bar b = Inr (b1, entered)"
      and rest: "if entered then intrabar s product bar b1 = Inr b' else b' = b1"
      using p True by (auto simp: process_bar_def res_simps split: if_splits)
    note st = enter_step [OF e ok made True price]
    show ?thesis
    proof (cases entered)
      case True
      then have "exposed_step s ?t b1 b'"
        using rest st intrabar_step [OF _ good_step_ok [OF st(1)] made] by auto
      then show ?thesis using st(1) by (auto simp: exposed_step_def intro: good_step_trans)
    qed (use st rest in auto)
  next
    case notpending: False
    then have ex: "has_exposure (bd_state b)" "0 < bd_remaining b"
      using live r by (cases "bd_state b"; simp add: is_terminal_def has_exposure_def)+
    consider (manual) "manual_exit s product bar b = Inr b'" | (frozen) "b' = b"
      | (trade) b1 where "bd_state b \<in> {OPEN, PARTIALLY_CLOSED}" "at_open s product bar b = Inr b1"
          "if 0 < bd_remaining b1 then intrabar s product bar b1 = Inr b' else b' = b1"
    proof (cases "bd_close_pending b \<or> bd_state b = AMBIGUOUS_HALTED")
      case True
      then show ?thesis using p notpending that(1,2) by (auto simp: process_bar_def split: if_splits)
    next
      case False
      have "bd_state b \<in> {OPEN, PARTIALLY_CLOSED}"
        using ex(1) False by (auto simp: has_exposure_def)
      moreover obtain b1 where "at_open s product bar b = Inr b1"
        "if 0 < bd_remaining b1 then intrabar s product bar b1 = Inr b' else b' = b1"
        using p notpending False by (auto simp: process_bar_def res_simps split: if_splits)
      ultimately show ?thesis by (rule that(3))
    qed
    then show ?thesis
    proof cases
      case manual
      then show ?thesis using manual_exit_step [OF manual ok made ex(1)] ex(1) by simp
    next
      case frozen
      then show ?thesis using ok ex(1) by (simp add: good_step_refl)
    next
      case trade
      note o1 = at_open_step [OF trade(2) ok made trade(1)]
      show ?thesis
      proof (cases "0 < bd_remaining b1")
        case True
        then have "exposed_step s ?t b1 b'"
          using trade(3) intrabar_step [OF _ good_step_ok [OF o1(1)] made o1(2) True] by simp
        then show ?thesis using o1(1) by (auto simp: exposed_step_def intro: good_step_trans)
      next
        case False
        then show ?thesis using trade(3) o1 by (auto simp: has_exposure_def)
      qed
    qed
  qed
  then show "good_step s ?t b b'" "has_exposure (bd_state b') \<or> bd_state b' = REJECTED"
    "bd_state b = PENDING_ENTRY \<Longrightarrow> bd_state b' \<noteq> PENDING_ENTRY"
    by (auto simp: has_exposure_def)
qed

lemma finish_step:
  assumes "finish bar b = Inr b'" and ok: "builder_ok s b" and ex: "has_exposure (bd_state b) \<or> bd_state b = REJECTED"
  shows "good_step s (open_time bar) b b'" and "has_exposure (bd_state b') \<Longrightarrow> 0 < bd_remaining b'"
    and "bd_state b' = PENDING_ENTRY \<longleftrightarrow> False" and "bd_state b' \<noteq> CANCELLED"
proof -
  let ?t = "open_time bar"
  have "good_step s ?t b b' \<and> (has_exposure (bd_state b') \<longrightarrow> 0 < bd_remaining b')
    \<and> bd_state b' \<noteq> PENDING_ENTRY \<and> bd_state b' \<noteq> CANCELLED"
  proof (cases "has_exposure (bd_state b) \<and> bd_remaining b = 0")
    case True
    then obtain data where b': "b' = emit POSITION_CLOSED ?t data (b\<lparr>bd_state := CLOSED\<rparr>)"
      using assms(1) by (auto simp: finish_def res_simps)
    have ok1: "builder_ok s (b\<lparr>bd_state := CLOSED\<rparr>)"
      using ok True by (auto simp: builder_ok_def core_ok_def entered_state_def split: option.splits)
    have "good_step s ?t (b\<lparr>bd_state := CLOSED\<rparr>) b'"
      unfolding b' by (rule emit_quiet [OF ok1]) (simp_all add: INPUT_EVENT_TYPES_def exit_types_def)
    moreover have "paper_edge (bd_state b) CLOSED" using True by (simp add: paper_edge.closed)
    ultimately show ?thesis
      using b' by (auto simp: good_step_def has_exposure_def)
  next
    case False
    then have "b' = b" using assms(1) by (auto simp: finish_def)
    then show ?thesis
      using False ok ex remaining_nonneg [OF ok] good_step_refl [OF ok] by (auto simp: has_exposure_def)
  qed
  then show "good_step s ?t b b'" "has_exposure (bd_state b') \<Longrightarrow> 0 < bd_remaining b'"
    "bd_state b' = PENDING_ENTRY \<longleftrightarrow> False" "bd_state b' \<noteq> CANCELLED" by simp_all
qed

end
