(* ===== verification/Paper_Position.thy ===== *)
theory Paper_Position
  imports Paper_Inv
begin

text \<open>
  The invariant of a paper position (\<open>paper_inv\<close>), kept by every input of the engine
  (\<open>apply_input_inv\<close>, the interpretation \<open>paper\<close> of \<open>fallible_machine\<close>), and what no input changes: the
  specification, the approval, the events already in the ledger, and a terminal position altogether.
\<close>

section \<open>The invariant of a position\<close>

text \<open>An entry of the ledger that records a bar the engine accepted.\<close>

definition stored_bar :: "PositionSpec \<Rightarrow> PaperEvent \<Rightarrow> bool" where
  "stored_bar s e \<longleftrightarrow> (\<exists>bar. bar_is_valid s bar \<and> ev_type e = OBSERVATION_APPLIED
     \<and> ev_market_time e = Some (open_time bar) \<and> ev_data e = bar_data bar)"

definition event_instant :: "PaperEvent \<Rightarrow> int" where
  "event_instant e = (case ev_market_time e of Some t \<Rightarrow> instant t | None \<Rightarrow> 0)"

definition bars_ok :: "PositionSpec \<Rightarrow> PaperEvent list \<Rightarrow> bool" where
  "bars_ok s bars \<longleftrightarrow> list_all (stored_bar s) bars
     \<and> successively (\<lambda>a b. event_instant a + duration_of (ps_timeframe s) \<le> event_instant b) bars
     \<and> (\<forall>e\<in>set bars. instant (ps_decision_time s) \<le> event_instant e)"

definition paper_inv :: "PaperPosition \<Rightarrow> bool" where
  "paper_inv p \<longleftrightarrow>
     made_spec (po_spec p)
     \<and> core_ok (po_spec p) (po_events p) (po_state p) (po_remaining p) (po_stop p) (po_targets p)
         (po_entry_fill_price p) (po_realized_gross p) (po_fees_total p)
     \<and> (has_exposure (po_state p) \<longrightarrow> 0 < po_remaining p \<and> (\<exists>m. po_last_mark p = Some m \<and> positive m))
     \<and> (po_close_pending p \<longrightarrow> has_exposure (po_state p))
     \<and> bars_ok (po_spec p) (bar_events (po_events p))
     \<and> po_bars_applied p = length (bar_events (po_events p))
     \<and> po_last_bar_time p = (if bar_events (po_events p) = [] then None
         else ev_market_time (last (bar_events (po_events p))))
     \<and> (\<exists>e es. po_events p = e # es \<and> ev_type e = POSITION_CREATED
         \<and> list_all (\<lambda>x. ev_type x \<noteq> POSITION_CREATED) es)"

lemma bar_events_append [simp]: "bar_events (xs @ ys) = bar_events xs @ bar_events ys"
  by (simp add: bar_events_def)

lemma bar_events_derived: "list_all (derived t) es \<Longrightarrow> bar_events es = []"
  by (auto simp: bar_events_def derived_def INPUT_EVENT_TYPES_def list_all_iff filter_empty_conv)

lemma bar_events_single: "bar_events [e] = (if ev_type e = OBSERVATION_APPLIED then [e] else [])"
  by (simp add: bar_events_def)

lemma open_inv:
  assumes "open_position s a product = Inr p" and "made_spec s"
  shows "paper_inv p" and "po_spec p = s" and "po_state p = PENDING_ENTRY"
    and "po_approval p = a" and "length (po_events p) = 1"
proof -
  obtain data where p: "p = \<lparr>po_spec = s, po_approval = a, po_state = PENDING_ENTRY, po_remaining = 0,
            po_stop = ps_stop s,
            po_targets = map (\<lambda>t. \<lparr>tt_spec = t, tt_filled = False, tt_fill_price = None\<rparr>) (ps_targets s),
            po_events = [\<lparr>ev_sequence = 1, ev_type = POSITION_CREATED,
                          ev_market_time = Some (ps_decision_time s), ev_data = data\<rparr>],
            po_entry_fill_price = None, po_entry_time = None, po_realized_gross = dec_zero,
            po_fees_total = (if fees_modelled (sp_fees (ps_policy s)) then Some dec_zero else None),
            po_last_bar_time = None, po_last_mark = None, po_close_pending = False,
            po_bars_applied = 0\<rparr>"
    using assms(1) by (auto simp: open_position_def res_simps)
  have core: "core_ok s (po_events p) PENDING_ENTRY 0 (ps_stop s) (po_targets p) None dec_zero
      (po_fees_total p)"
    using made_spec_facts(5,6) [OF assms(2)]
    by (auto simp: p core_ok_def numbered_def positive_def none_filled_def list_all_iff o_def
        entered_state_def has_exposure_def ledger_units_def event_units_def exit_types_def)
  show "paper_inv p"
    using core assms(2) by (simp add: paper_inv_def p bar_events_def bars_ok_def has_exposure_def)
  show "po_spec p = s" "po_state p = PENDING_ENTRY" "po_approval p = a" "length (po_events p) = 1"
    by (simp_all add: p)
qed

section \<open>One bar\<close>

lemma bar_is_valid_facts:
  assumes "bar_is_valid s bar"
  shows "positive (bar_open bar)" "positive (bar_high bar)" "positive (bar_low bar)"
    "positive (bar_close bar)" "is_aware (open_time bar)"
  using assms by (auto simp: bar_is_valid_def positive_finite_def positive_def dec_less_iff)

lemma start_builder_ok: "paper_inv p \<Longrightarrow> builder_ok (po_spec p) (start_builder p)"
  by (simp add: paper_inv_def builder_ok_def start_builder_def)

text \<open>What a bar that is applied does to the position: the ledger gains the bar and then derived
  events, and the state moves along the abstract life.\<close>

lemma new_bar_facts:
  assumes new: "new_bar p bar product = Inr p'" and inv: "paper_inv p"
    and valid: "bar_is_valid (po_spec p) bar" and live: "\<not> is_terminal (po_state p)"
  shows "\<exists>new. po_events p' = po_events p @
        \<lparr>ev_sequence = Suc (length (po_events p)), ev_type = OBSERVATION_APPLIED,
         ev_market_time = Some (open_time bar), ev_data = bar_data bar\<rparr> # new
      \<and> list_all (derived (open_time bar)) new"
    and "core_ok (po_spec p) (po_events p') (po_state p') (po_remaining p') (po_stop p') (po_targets p')
         (po_entry_fill_price p') (po_realized_gross p') (po_fees_total p')"
    and "paper_edge\<^sup>*\<^sup>* (po_state p) (po_state p')"
    and "po_spec p' = po_spec p" and "po_approval p' = po_approval p"
    and "has_exposure (po_state p') \<Longrightarrow> 0 < po_remaining p'"
    and "po_close_pending p' \<Longrightarrow> has_exposure (po_state p')"
    and "po_last_bar_time p' = Some (open_time bar)" and "po_last_mark p' = Some (plain (bar_close bar))"
    and "po_bars_applied p' = Suc (length (bar_events (po_events p)))"
    and "po_stop p' = po_stop p"
proof -
  let ?t = "open_time bar" and ?s = "po_spec p"
  let ?e = "\<lparr>ev_sequence = Suc (length (po_events p)), ev_type = OBSERVATION_APPLIED,
         ev_market_time = Some ?t, ev_data = bar_data bar\<rparr>"
  define b0 where "b0 = emit OBSERVATION_APPLIED ?t (bar_data bar) (start_builder p)"
  obtain b1 b2 where b1: "process_bar ?s product bar b0 = Inr b1" and b2: "finish bar b1 = Inr b2"
    and p': "build p b2 = Inr p'"
    using new by (auto simp: new_bar_def b0_def res_simps)
  have made: "made_spec ?s" using inv by (simp add: paper_inv_def)
  have ok0: "builder_ok ?s b0"
    using start_builder_ok [OF inv]
    by (auto simp: b0_def builder_ok_def emit_events event_units_def exit_types_def start_builder_def
        intro!: core_ok_quiet)
  have price: "is_finite (bar_open bar)"
    using bar_is_valid_facts(1) [OF valid] by (simp add: positive_def)
  have st0: "bd_state b0 = po_state p" "bd_close_pending b0 = po_close_pending p"
    "bd_remaining b0 = po_remaining p" "bd_events b0 = po_events p @ [?e]" "bd_stop b0 = po_stop p"
    by (simp_all add: b0_def start_builder_def emit_events)
  note x = process_bar_step [OF b1 ok0 made price]
  have s1: "good_step ?s ?t b0 b1" "has_exposure (bd_state b1) \<or> bd_state b1 = REJECTED"
    using x inv live by (simp_all add: st0 paper_inv_def)
  note f = finish_step [OF b2 good_step_ok [OF s1(1)] s1(2)]
  have g: "good_step ?s ?t b0 b2" using s1(1) f(1) by (rule good_step_trans)
  then obtain new where ev: "bd_events b2 = po_events p @ ?e # new" "list_all (derived ?t) new"
    by (auto simp: good_step_def extends_def st0)
  have bars: "bar_events (bd_events b2) = bar_events (po_events p) @ [?e]"
    using bar_events_derived [OF ev(2)] bar_events_append [of "[?e]" new] by (simp add: ev(1) bar_events_single)
  have p'_eq: "p' = p\<lparr>po_state := bd_state b2, po_remaining := bd_remaining b2, po_stop := bd_stop b2,
                po_targets := bd_targets b2, po_events := bd_events b2,
                po_entry_fill_price := bd_entry b2, po_entry_time := bd_entry_time b2,
                po_realized_gross := bd_gross b2, po_fees_total := bd_fees b2,
                po_last_bar_time := Some ?t, po_last_mark := Some (plain (bar_close bar)),
                po_close_pending := (bd_close_pending b2 \<and> has_exposure (bd_state b2)),
                po_bars_applied := Suc (length (bar_events (po_events p)))\<rparr>"
    using p' by (simp add: build_def bars bar_data_def parse_plain_text)
  show "\<exists>new. po_events p' = po_events p @ ?e # new \<and> list_all (derived ?t) new"
    using ev by (simp add: p'_eq)
  show "core_ok ?s (po_events p') (po_state p') (po_remaining p') (po_stop p') (po_targets p')
         (po_entry_fill_price p') (po_realized_gross p') (po_fees_total p')"
    using good_step_ok [OF g] by (simp add: p'_eq builder_ok_def)
  show "paper_edge\<^sup>*\<^sup>* (po_state p) (po_state p')" "po_stop p' = po_stop p"
    using g by (simp_all add: p'_eq good_step_def st0)
  show "po_spec p' = ?s" "po_approval p' = po_approval p"
    "has_exposure (po_state p') \<Longrightarrow> 0 < po_remaining p'"
    "po_close_pending p' \<Longrightarrow> has_exposure (po_state p')"
    "po_last_bar_time p' = Some ?t" "po_last_mark p' = Some (plain (bar_close bar))"
    "po_bars_applied p' = Suc (length (bar_events (po_events p)))"
    using f(2) by (simp_all add: p'_eq)
qed

lemma plain_positive [simp]: "positive (plain v) = positive v"
  by (simp add: positive_def)

lemma new_bar_inv:
  assumes new: "new_bar p bar product = Inr p'" and inv: "paper_inv p"
    and valid: "bar_is_valid (po_spec p) bar" and live: "\<not> is_terminal (po_state p)"
    and after: "\<And>l. po_last_bar_time p = Some l \<Longrightarrow>
        instant l + duration_of (ps_timeframe (po_spec p)) \<le> instant (open_time bar)"
    and decided: "instant (ps_decision_time (po_spec p)) \<le> instant (open_time bar)"
  shows "paper_inv p'"
proof -
  let ?e = "\<lparr>ev_sequence = Suc (length (po_events p)), ev_type = OBSERVATION_APPLIED,
         ev_market_time = Some (open_time bar), ev_data = bar_data bar\<rparr>"
  note f = new_bar_facts [OF new inv valid live]
  obtain nw where ev: "po_events p' = po_events p @ ?e # nw" "list_all (derived (open_time bar)) nw"
    using f(1) by blast
  have bars: "bar_events (po_events p') = bar_events (po_events p) @ [?e]"
    using bar_events_derived [OF ev(2)] bar_events_append [of "[?e]" nw] by (simp add: ev(1) bar_events_single)
  have stored: "stored_bar (po_spec p) ?e" using valid by (auto simp: stored_bar_def)
  have spaced: "event_instant (last (bar_events (po_events p))) + duration_of (ps_timeframe (po_spec p))
      \<le> event_instant ?e" if ne: "bar_events (po_events p) \<noteq> []"
  proof -
    have "stored_bar (po_spec p) (last (bar_events (po_events p)))"
      using inv ne by (auto simp: paper_inv_def bars_ok_def list_all_iff)
    then obtain l where "ev_market_time (last (bar_events (po_events p))) = Some l"
      by (auto simp: stored_bar_def)
    then show ?thesis using after [of l] inv ne by (simp add: paper_inv_def event_instant_def)
  qed
  have "bars_ok (po_spec p) (bar_events (po_events p'))"
    using inv stored decided spaced
    by (auto simp: paper_inv_def bars_ok_def bars successively_append_iff event_instant_def)
  moreover have "\<exists>e es. po_events p' = e # es \<and> ev_type e = POSITION_CREATED
         \<and> list_all (\<lambda>x. ev_type x \<noteq> POSITION_CREATED) es"
    using inv ev by (auto simp: paper_inv_def derived_def INPUT_EVENT_TYPES_def list_all_iff)
  ultimately show ?thesis
    using f inv bars bar_is_valid_facts(4) [OF valid] by (auto simp: paper_inv_def)
qed

section \<open>The other inputs\<close>

text \<open>An input of a person adds one event that is neither a bar nor an exit.\<close>

lemma add_event_inv:
  assumes inv: "paper_inv p" and k: "k \<notin> {OBSERVATION_APPLIED, POSITION_CREATED}" "k \<notin> set exit_types"
  shows "paper_inv (add_event k t d p)"
proof -
  let ?e = "\<lparr>ev_sequence = next_sequence p, ev_type = k, ev_market_time = t, ev_data = d\<rparr>"
  have core: "core_ok (po_spec p) (po_events p @ [?e]) (po_state p) (po_remaining p) (po_stop p)
      (po_targets p) (po_entry_fill_price p) (po_realized_gross p) (po_fees_total p)"
    using inv k(2) by (intro core_ok_quiet) (auto simp: paper_inv_def event_units_def next_sequence_def)
  have bars: "bar_events (po_events p @ [?e]) = bar_events (po_events p)"
    using k(1) by (simp add: bar_events_single)
  show ?thesis
    using inv core k(1) by (auto simp: paper_inv_def add_event_def bars simp del: bar_events_append)
qed

lemma request_close_cases:
  assumes "request_close p = Inr p'"
  obtains (pending) "p' = p"
    | (asked) t d where "has_exposure (po_state p)"
      "p' = (add_event CLOSE_REQUESTED t d p)\<lparr>po_close_pending := True\<rparr>"
  using assms unfolding request_close_def by (metis Inr_inject refuse_not_Inr)

lemma request_close_inv:
  assumes "request_close p = Inr p'" and inv: "paper_inv p"
  shows "paper_inv p'"
proof -
  from assms(1) show ?thesis
  proof (cases rule: request_close_cases)
    case (asked t d)
    have "paper_inv (add_event CLOSE_REQUESTED t d p)"
      by (rule add_event_inv [OF inv]) (simp_all add: exit_types_def)
    moreover have "po_state (add_event CLOSE_REQUESTED t d p) = po_state p" by (simp add: add_event_def)
    ultimately show ?thesis using asked by (simp add: paper_inv_def)
  qed (use inv in simp)
qed

lemma breakeven_inv:
  assumes "move_stop_to_breakeven p = Inr p'" and inv: "paper_inv p"
  shows "paper_inv p'"
proof -
  consider "p' = p" | entry d where "po_entry_fill_price p = Some entry"
      "p' = (add_event STOP_MOVED_TO_BREAKEVEN (po_last_bar_time p) d p)\<lparr>po_stop := entry\<rparr>"
    using assms(1) by (auto simp: move_stop_to_breakeven_def split: if_splits option.splits)
  then show ?thesis
  proof cases
    case 2
    have "paper_inv (add_event STOP_MOVED_TO_BREAKEVEN (po_last_bar_time p) d p)"
      by (rule add_event_inv [OF inv]) (simp_all add: exit_types_def)
    moreover have "positive entry" using inv 2(1) by (auto simp: paper_inv_def core_ok_def)
    ultimately show ?thesis using 2 by (auto simp: paper_inv_def core_ok_def)
  qed (use inv in simp)
qed

lemma cancel_inv:
  assumes "cancel p = Inr p'" and inv: "paper_inv p"
  shows "paper_inv p'"
proof -
  consider "p' = p" | d where "po_state p = PENDING_ENTRY"
      "p' = (add_event POSITION_CANCELLED None d p)\<lparr>po_state := CANCELLED\<rparr>"
    using assms(1) by (auto simp: cancel_def split: if_splits)
  then show ?thesis
  proof cases
    case 2
    have "paper_inv (add_event POSITION_CANCELLED None d p)"
      by (rule add_event_inv [OF inv]) (simp_all add: exit_types_def)
    then show ?thesis
      using 2 by (auto simp: paper_inv_def core_ok_def entered_state_def has_exposure_def add_event_def
          split: option.splits)
  qed (use inv in simp)
qed

text \<open>A bar is a repeat, or is applied in order.\<close>

lemma apply_observation_cases:
  assumes "apply_observation p bar product = Inr p'"
  obtains (again) "p' = p" "repeat_bar p bar = Inr p" "bar_is_valid (po_spec p) bar"
      "\<exists>l. po_last_bar_time p = Some l \<and> instant (open_time bar) \<le> instant l"
    | (fresh) "new_bar p bar product = Inr p'" "bar_is_valid (po_spec p) bar"
      "\<not> is_terminal (po_state p)"
      "\<And>l. po_last_bar_time p = Some l \<Longrightarrow>
        instant l + duration_of (ps_timeframe (po_spec p)) \<le> instant (open_time bar)"
      "instant (ps_decision_time (po_spec p)) \<le> instant (open_time bar)"
proof -
  have v: "bar_is_valid (po_spec p) bar"
    using assms by (auto simp: apply_observation_def validate_bar_def res_simps split: if_splits)
  show ?thesis
  proof (cases "case po_last_bar_time p of None \<Rightarrow> False | Some l \<Rightarrow> instant (open_time bar) \<le> instant l")
    case True
    then have r: "repeat_bar p bar = Inr p'"
      using assms v by (auto simp: apply_observation_def validate_bar_def Let_def)
    moreover have "p' = p" using r by (auto simp: repeat_bar_def split: option.splits if_splits)
    ultimately show ?thesis using again v True by (auto split: option.splits)
  next
    case False
    then show ?thesis
      using assms v
      by (intro fresh) (auto simp: apply_observation_def validate_bar_def Let_def split: option.splits if_splits)
  qed
qed

lemma apply_input_inv:
  assumes "apply_input product p item = Inr p'" and inv: "paper_inv p"
  shows "paper_inv p'"
proof (cases item)
  case (BarInput bar)
  then have "apply_observation p bar product = Inr p'" using assms(1) by (simp add: apply_input_def)
  then show ?thesis
    by (cases rule: apply_observation_cases) (use inv new_bar_inv in auto)
qed (use assms request_close_inv breakeven_inv cancel_inv in \<open>auto simp: apply_input_def\<close>)

text \<open>The engine as a machine whose inputs may be refused.\<close>

interpretation paper: fallible_machine "apply_input product" paper_inv for product
  by unfold_locales (rule apply_input_inv)

lemma replay_inv:
  assumes "replay s a product inputs = Inr p" and "made_spec s"
  shows "paper_inv p"
proof -
  obtain p0 where p0: "open_position s a product = Inr p0" "run_all (apply_input product) p0 inputs = Inr p"
    using assms(1) by (auto simp: replay_def res_simps)
  show ?thesis using paper.run_invar [OF open_inv(1) [OF p0(1) assms(2)] p0(2)] .
qed

section \<open>What no input changes\<close>

lemma apply_input_frame:
  assumes "apply_input product p item = Inr p'" and inv: "paper_inv p"
  shows "po_spec p' = po_spec p" and "po_approval p' = po_approval p"
    and "\<exists>new. po_events p' = po_events p @ new" and "paper_edge\<^sup>*\<^sup>* (po_state p) (po_state p')"
    and "is_terminal (po_state p) \<Longrightarrow> p' = p"
proof -
  have "po_spec p' = po_spec p \<and> po_approval p' = po_approval p
    \<and> (\<exists>new. po_events p' = po_events p @ new) \<and> paper_edge\<^sup>*\<^sup>* (po_state p) (po_state p')
    \<and> (is_terminal (po_state p) \<longrightarrow> p' = p)"
  proof (cases item)
    case (BarInput bar)
    then have "apply_observation p bar product = Inr p'" using assms(1) by (simp add: apply_input_def)
    then show ?thesis
    proof (cases rule: apply_observation_cases)
      case again
      then show ?thesis by simp
    next
      case fresh
      from new_bar_facts [OF fresh(1) inv fresh(2,3)] show ?thesis using fresh(3) by blast
    qed
  next
    case CloseInput
    then have "request_close p = Inr p'" using assms(1) by (simp add: apply_input_def)
    then show ?thesis
      by (cases rule: request_close_cases) (auto simp: add_event_def has_exposure_def is_terminal_def)
  next
    case BreakevenInput
    then show ?thesis using assms
      by (auto simp: apply_input_def move_stop_to_breakeven_def add_event_def is_terminal_def
          split: if_splits option.splits)
  next
    case CancelInput
    then show ?thesis using assms paper_edge.cancelled
      by (auto simp: apply_input_def cancel_def add_event_def is_terminal_def split: if_splits)
  qed
  then show "po_spec p' = po_spec p" "po_approval p' = po_approval p"
    "\<exists>new. po_events p' = po_events p @ new" "paper_edge\<^sup>*\<^sup>* (po_state p) (po_state p')"
    "is_terminal (po_state p) \<Longrightarrow> p' = p" by blast+
qed

lemma run_frame:
  assumes "run_all (apply_input product) p inputs = Inr p'" and "paper_inv p"
  shows "po_spec p' = po_spec p \<and> po_approval p' = po_approval p
    \<and> (\<exists>new. po_events p' = po_events p @ new) \<and> paper_edge\<^sup>*\<^sup>* (po_state p) (po_state p')
    \<and> (is_terminal (po_state p) \<longrightarrow> p' = p)"
  using assms
proof (induction inputs arbitrary: p)
  case (Cons i "is")
  obtain q where q: "apply_input product p i = Inr q" "run_all (apply_input product) q is = Inr p'"
    using Cons.prems(1) by (auto simp: res_simps)
  have "paper_inv q" using apply_input_inv [OF q(1) Cons.prems(2)] .
  from Cons.IH [OF q(2) this] apply_input_frame [OF q(1) Cons.prems(2)]
  show ?case by (auto intro: rtranclp_trans)
qed simp

end
