(* ===== verification/Paper_Props.thy ===== *)
theory Paper_Props
  imports Paper_Position
begin

text \<open>
  What the paper engine promises of a position over its whole life: units, states, the origin of
  fills, and that a ledger rebuilds the position it came from.
\<close>

section \<open>A sample life\<close>

definition sample_product :: ProductPolicy where
  "sample_product = futures_product (sample_contract 10 (Some (verified (DFin False 250 0))))"

definition sample_rules :: "SameBarPolicy \<Rightarrow> SimulationPolicy" where
  "sample_rules same_bar =
     \<lparr>sp_rules_version = SIMULATION_RULES_VERSION, sp_same_bar = same_bar,
      sp_slippage = \<lparr>sl_mode = ZERO_SLIPPAGE, sl_points = None\<rparr>,
      sp_fees = \<lparr>fee_mode = USER_DEFINED_PER_UNIT, fee_per_unit = Some (DFin False 25 (-2))\<rparr>\<rparr>"

definition sample_spec :: PositionSpec where
  "sample_spec =
     \<lparr>ps_position_id = ''p-1'', ps_symbol = ''F_XU030'', ps_direction = LONG, ps_quantity = 3,
      ps_intended_entry = DFin False 105 0, ps_stop = DFin False 104 0,
      ps_targets = [\<lparr>tgt_price = DFin False 106 0, tgt_quantity = 1\<rparr>,
                    \<lparr>tgt_price = DFin False 108 0, tgt_quantity = 1\<rparr>],
      ps_timeframe = M15, ps_decision_time = Aware 0 0, ps_policy = sample_rules STOP_FIRST,
      ps_origin = USER_CREATED, ps_note = None\<rparr>"

definition sample_approval :: RiskApproval where
  "sample_approval = \<lparr>ra_outcome = ALLOWED, ra_allowed_units = Some 7, ra_reason = ''7 permitted''\<rparr>"

definition sample_bar :: "int \<Rightarrow> nat \<Rightarrow> nat \<Rightarrow> nat \<Rightarrow> nat \<Rightarrow> Candle" where
  "sample_bar n a h l c =
     \<lparr>bar_symbol = ''F_XU030'', bar_timeframe = M15, open_time = Aware (n * 15 * minute) 0,
      bar_open = DFin False a (-1), bar_high = DFin False h (-1), bar_low = DFin False l (-1),
      bar_close = DFin False c (-1), bar_volume = DFin False 10 0, is_closed = True,
      open_interest = None\<rparr>"

text \<open>Entered at 105, scaled out at the first target, stop moved to breakeven, and stopped by a gap.\<close>

definition sample_inputs :: "PaperInput list" where
  "sample_inputs =
     [BarInput (sample_bar 0 1050 1055 1045 1050), BarInput (sample_bar 1 1055 1065 1050 1060),
      BarInput (sample_bar 1 1055 1065 1050 1060), BreakevenInput,
      BarInput (sample_bar 2 1045 1055 1040 1050)]"

named_theorems paper_eval

lemmas paper_eval_rules [paper_eval] = sample_product_def sample_rules_def sample_spec_def
  sample_approval_def sample_bar_def sample_inputs_def made_spec_def make_spec_def make_slippage_def
  make_fees_def make_simulation_policy_def SUPPORTED_RULES_VERSIONS_def SIMULATION_RULES_VERSION_def
  require_price_def MAX_TARGETS_def note_ok_def strip_def is_space_def

lemma sample_spec_made: "made_spec sample_spec"
  by (simp add: paper_eval risk_eval dec_eval Let_def)

lemmas engine_eval_rules [paper_eval] = replay_def apply_input_def open_position_def
  require_product_def same_instrument_def canonical_symbol_def calculable_or_refuse_def
  require_allowed_def require_executable_def creation_data_def apply_observation_def
  validate_bar_def bar_is_valid_def positive_finite_def repeat_bar_def applied_bar_def new_bar_def
  process_bar_def enter_def fill_entry_def adverse_price_def slippage_def slip_amount_def
  entry_breach_def require_positive_fill_def fee_for_def charge_def intrabar_def touched_targets_def
  stop_touched_def at_open_def exit_stop_def exit_target_def manual_exit_def exit_units_def
  product_gross_def pnl_for_product_def calculate_pnl_def gross_pnl_def require_positive_def
  normalise_zero_def finish_def build_def bar_events_def bar_data_def parse_plain_text
  start_builder_def emit_def fees_modelled_def has_exposure_def is_terminal_def duration_of_def
  minute_def move_stop_to_breakeven_def request_close_def cancel_def add_event_def next_sequence_def
  require_authoritative_def same_data_def dec_max_def dec_min_def slip_amount_def positive_finite_def

lemma sample_opens:
  "got (open_position sample_spec sample_approval sample_product) (\<lambda>p. po_state p = PENDING_ENTRY)"
  by (simp add: paper_eval risk_eval dec_eval Let_def del: plain_text.simps cong: let_weak_cong)

lemma sample_replays:
  "got (replay sample_spec sample_approval sample_product sample_inputs)
     (\<lambda>p. po_state p = CLOSED \<and> po_remaining p = 0 \<and> po_bars_applied p = 3 \<and> length (po_events p) = 9)"
  by (simp add: paper_eval risk_eval dec_eval Let_def del: plain_text.simps cong: let_weak_cong)

section \<open>Where derived events come from\<close>

definition from_bars :: "PaperEvent list \<Rightarrow> bool" where
  "from_bars es \<longleftrightarrow> (\<forall>e\<in>set es. ev_type e \<notin> set INPUT_EVENT_TYPES \<longrightarrow>
     (\<exists>b\<in>set (bar_events es). ev_market_time b = ev_market_time e))"

lemma from_bars_input:
  "from_bars es \<Longrightarrow> ev_type e \<in> set INPUT_EVENT_TYPES \<Longrightarrow> from_bars (es @ [e])"
  by (auto simp: from_bars_def)

lemma from_bars_bar:
  assumes "from_bars es" and "ev_type e = OBSERVATION_APPLIED" "ev_market_time e = Some t"
    and "list_all (derived t) new"
  shows "from_bars (es @ e # new)"
proof -
  have "e \<in> set (bar_events (es @ e # new))" using assms(2) by (simp add: bar_events_def)
  then show ?thesis
    using assms by (fastforce simp: from_bars_def list_all_iff derived_def bar_events_def INPUT_EVENT_TYPES_def)
qed

lemma apply_input_ledger:
  assumes "apply_input product p item = Inr p'" and inv: "paper_inv p"
  obtains (same) "p' = p"
    | (bar) bar new where "item = BarInput bar" "new_bar p bar product = Inr p'"
        "apply_observation p bar product = Inr p'" "bar_is_valid (po_spec p) bar"
        "po_events p' = po_events p @ \<lparr>ev_sequence = Suc (length (po_events p)),
           ev_type = OBSERVATION_APPLIED, ev_market_time = Some (open_time bar), ev_data = bar_data bar\<rparr> # new"
        "list_all (derived (open_time bar)) new"
    | (person) e where "po_events p' = po_events p @ [e]"
        "item = CloseInput \<and> ev_type e = CLOSE_REQUESTED
         \<or> item = BreakevenInput \<and> ev_type e = STOP_MOVED_TO_BREAKEVEN
         \<or> item = CancelInput \<and> ev_type e = POSITION_CANCELLED"
proof (cases item)
  case (BarInput bar1)
  then have ap: "apply_observation p bar1 product = Inr p'" using assms(1) by (simp add: apply_input_def)
  then show ?thesis
  proof (cases rule: apply_observation_cases)
    case again
    then show ?thesis using same by simp
  next
    case fresh
    then show ?thesis using new_bar_facts(1) [OF fresh(1) inv fresh(2,3)] bar [OF BarInput fresh(1) ap fresh(2)]
      by blast
  qed
next
  case CloseInput
  then have "request_close p = Inr p'" using assms(1) by (simp add: apply_input_def)
  then show ?thesis
    by (cases rule: request_close_cases) (use same person CloseInput in \<open>auto simp: add_event_def\<close>)
next
  case BreakevenInput
  then show ?thesis using assms(1) same person
    by (auto simp: apply_input_def move_stop_to_breakeven_def add_event_def split: if_splits option.splits)
next
  case CancelInput
  then show ?thesis using assms(1) same person
    by (auto simp: apply_input_def cancel_def add_event_def split: if_splits)
qed

lemma run_from_bars:
  assumes "run_all (apply_input product) p inputs = Inr p'" and "paper_inv p" and "from_bars (po_events p)"
  shows "from_bars (po_events p')"
  using assms
proof (induction inputs arbitrary: p)
  case (Cons i "is")
  obtain q where q: "apply_input product p i = Inr q" "run_all (apply_input product) q is = Inr p'"
    using Cons.prems(1) by (auto simp: res_simps)
  have "from_bars (po_events q)"
    using q(1) Cons.prems(2)
  proof (cases rule: apply_input_ledger)
    case (person e)
    then show ?thesis using Cons.prems(3) from_bars_input by (auto simp: INPUT_EVENT_TYPES_def)
  qed (use Cons.prems(3) from_bars_bar in auto)
  then show ?case using Cons.IH [OF q(2) apply_input_inv [OF q(1) Cons.prems(2)]] by simp
qed simp

lemma successively_spaced:
  assumes "successively (\<lambda>a b. f a + d \<le> f b) xs" and "0 < (d :: int)"
  shows "sorted_wrt (\<lambda>a b. f a + d \<le> f b) xs"
  using assms by (subst successively_conv_sorted_wrt [symmetric]) (auto simp: transp_def)

section \<open>Properties\<close>

text \<open>
  C21: the ledger accounts for every unit. After any inputs a position accepted, its events are
  numbered from one without a gap; the units the exit events say were closed are exactly the units
  the position says are closed; an OPEN position has its whole quantity, a PARTIALLY_CLOSED one
  strictly less, an exposed one at least one unit, and a position without exposure has none.
\<close>

theorem every_unit_is_accounted:
  assumes "made_spec s" and "replay s a product inputs = Inr p"
  shows "map ev_sequence (po_events p) = [1 ..< Suc (length (po_events p))]
    \<and> ledger_units (po_events p) = closed_quantity p
    \<and> 0 \<le> closed_quantity p \<and> closed_quantity p \<le> filled_quantity p
    \<and> (po_state p = OPEN \<longrightarrow> po_remaining p = ps_quantity (po_spec p))
    \<and> (po_state p = PARTIALLY_CLOSED \<longrightarrow> po_remaining p < ps_quantity (po_spec p))
    \<and> (if has_exposure (po_state p) then 0 < po_remaining p else po_remaining p = 0)"
proof -
  have inv: "paper_inv p" by (rule replay_inv [OF assms(2,1)])
  then have core: "core_ok (po_spec p) (po_events p) (po_state p) (po_remaining p) (po_stop p)
      (po_targets p) (po_entry_fill_price p) (po_realized_gross p) (po_fees_total p)"
    and r: "has_exposure (po_state p) \<Longrightarrow> 0 < po_remaining p"
    by (simp_all add: paper_inv_def)
  have none: "po_remaining p = 0" if "\<not> has_exposure (po_state p)"
    using core that by (cases "po_state p") (auto simp: core_ok_def has_exposure_def)
  have nonneg: "0 \<le> filled_units (po_targets p)"
  proof -
    have "list_all target_ok (map tt_spec (po_targets p))"
      using core made_spec_facts(9) inv by (simp add: core_ok_def paper_inv_def)
    then show ?thesis unfolding filled_units_def
      by (intro sum_list_nonneg) (auto simp: list_all_iff target_ok_def)
  qed
  have le: "po_remaining p \<le> ps_quantity (po_spec p)" if "po_entry_fill_price p \<noteq> None"
    using core r none nonneg that made_spec_facts(2) [of "po_spec p"] inv
    by (cases "po_state p") (auto simp: core_ok_def has_exposure_def paper_inv_def entered_state_def)
  have "0 \<le> po_remaining p" using r none by force
  have entry: "po_entry_fill_price p = None \<Longrightarrow> po_remaining p = 0 \<and> ledger_units (po_events p) = 0"
    using core none by (auto simp: core_ok_def entered_state_def)
  have units: "ledger_units (po_events p) = closed_quantity p"
    using core entry by (cases "po_entry_fill_price p") (auto simp: core_ok_def closed_quantity_def filled_quantity_def)
  have "0 \<le> closed_quantity p" "closed_quantity p \<le> filled_quantity p"
    using entry le \<open>0 \<le> po_remaining p\<close> by (auto simp: closed_quantity_def filled_quantity_def)
  moreover have "map ev_sequence (po_events p) = [1 ..< Suc (length (po_events p))]"
    using core by (simp add: core_ok_def numbered_def)
  moreover have "po_state p = OPEN \<longrightarrow> po_remaining p = ps_quantity (po_spec p)"
    "po_state p = PARTIALLY_CLOSED \<longrightarrow> po_remaining p < ps_quantity (po_spec p)"
    using core r by (auto simp: core_ok_def has_exposure_def)
  ultimately show ?thesis using units none r by auto
qed

theorem every_unit_is_accounted_witness:
  "\<exists>p. replay sample_spec sample_approval sample_product sample_inputs = Inr p
     \<and> ledger_units (po_events p) = closed_quantity p \<and> po_remaining p = 0"
proof (rule gotE [OF sample_replays])
  fix p assume p: "replay sample_spec sample_approval sample_product sample_inputs = Inr p"
    and r: "po_state p = CLOSED \<and> po_remaining p = 0 \<and> po_bars_applied p = 3 \<and> length (po_events p) = 9"
  then show ?thesis using every_unit_is_accounted [OF sample_spec_made p] by blast
qed

lemma replay_spec:
  assumes "replay s a product inputs = Inr p" and "made_spec s"
  shows "po_spec p = s" and "po_approval p = a"
proof -
  obtain p0 where p0: "open_position s a product = Inr p0" "run_all (apply_input product) p0 inputs = Inr p"
    using assms(1) by (auto simp: replay_def res_simps)
  note start = open_inv [OF p0(1) assms(2)]
  show "po_spec p = s" "po_approval p = a" using run_frame [OF p0(2) start(1)] start by auto
qed

text \<open>
  C22: the engine refines the abstract life of a position. Whatever inputs were accepted, the state
  was reached along the transitions of \<open>paper_edge\<close> from PENDING_ENTRY and every later one follows
  them; the ledger only grows, the specification and the approval stay, and a CLOSED, CANCELLED or
  REJECTED position never changes again.
\<close>

theorem engine_follows_the_life:
  assumes "made_spec s" and "replay s a product inputs = Inr p"
    and "run_all (apply_input product) p later = Inr p'"
  shows "paper_edge\<^sup>*\<^sup>* PENDING_ENTRY (po_state p) \<and> paper_edge\<^sup>*\<^sup>* (po_state p) (po_state p')
    \<and> po_spec p' = s \<and> po_approval p' = a \<and> (\<exists>new. po_events p' = po_events p @ new)
    \<and> (is_terminal (po_state p) \<longrightarrow> p' = p)"
proof -
  obtain p0 where p0: "open_position s a product = Inr p0" "run_all (apply_input product) p0 inputs = Inr p"
    using assms(2) by (auto simp: replay_def res_simps)
  note start = open_inv [OF p0(1) assms(1)]
  show ?thesis
    using run_frame [OF p0(2) start(1)] run_frame [OF assms(3) replay_inv [OF assms(2,1)]] start by auto
qed

theorem engine_follows_the_life_witness:
  "\<exists>p. replay sample_spec sample_approval sample_product sample_inputs = Inr p
     \<and> paper_edge\<^sup>*\<^sup>* PENDING_ENTRY (po_state p) \<and> po_state p = CLOSED \<and> po_spec p = sample_spec"
proof (rule gotE [OF sample_replays])
  fix p assume p: "replay sample_spec sample_approval sample_product sample_inputs = Inr p"
    and r: "po_state p = CLOSED \<and> po_remaining p = 0 \<and> po_bars_applied p = 3 \<and> length (po_events p) = 9"
  show ?thesis
    using engine_follows_the_life [OF sample_spec_made p, of "[]" p] p r by auto
qed

text \<open>
  C23: no fill looks ahead or into the past. Every bar in the ledger of a position passed the checks,
  opened at or after the decision, and at least one interval after the bar before it; and every event
  the engine derived (entry, fill, halt, close-out) carries the time of such a bar.
\<close>

theorem fills_come_from_later_bars:
  assumes "made_spec s" and "replay s a product inputs = Inr p"
  shows "(\<forall>e\<in>set (po_events p). ev_type e \<notin> set INPUT_EVENT_TYPES \<longrightarrow>
      (\<exists>b\<in>set (bar_events (po_events p)). ev_market_time b = ev_market_time e))
    \<and> (\<forall>b\<in>set (bar_events (po_events p)). \<exists>bar. bar_is_valid (po_spec p) bar
        \<and> ev_market_time b = Some (open_time bar) \<and> ev_data b = bar_data bar
        \<and> instant (ps_decision_time (po_spec p)) \<le> instant (open_time bar))
    \<and> sorted_wrt (\<lambda>a b. event_instant a + duration_of (ps_timeframe (po_spec p)) \<le> event_instant b)
        (bar_events (po_events p))"
proof -
  obtain p0 where p0: "open_position s a product = Inr p0" "run_all (apply_input product) p0 inputs = Inr p"
    using assms(2) by (auto simp: replay_def res_simps)
  note start = open_inv [OF p0(1) assms(1)]
  have "from_bars (po_events p0)"
    using p0(1) by (auto simp: open_position_def res_simps from_bars_def INPUT_EVENT_TYPES_def)
  then have "from_bars (po_events p)" using run_from_bars [OF p0(2) start(1)] by simp
  moreover have bars: "bars_ok (po_spec p) (bar_events (po_events p))"
    using replay_inv [OF assms(2,1)] by (simp add: paper_inv_def)
  moreover have "\<exists>bar. bar_is_valid (po_spec p) bar
        \<and> ev_market_time b = Some (open_time bar) \<and> ev_data b = bar_data bar
        \<and> instant (ps_decision_time (po_spec p)) \<le> instant (open_time bar)"
    if "b \<in> set (bar_events (po_events p))" for b
    using bars that by (fastforce simp: bars_ok_def list_all_iff stored_bar_def event_instant_def)
  ultimately show ?thesis
    using successively_spaced [of event_instant "duration_of (ps_timeframe (po_spec p))"]
    by (auto simp: from_bars_def bars_ok_def)
qed

theorem fills_come_from_later_bars_witness:
  "\<exists>p. replay sample_spec sample_approval sample_product sample_inputs = Inr p
     \<and> length (bar_events (po_events p)) = 3
     \<and> sorted_wrt (\<lambda>a b. event_instant a + duration_of M15 \<le> event_instant b) (bar_events (po_events p))"
proof (rule gotE [OF sample_replays])
  fix p assume p: "replay sample_spec sample_approval sample_product sample_inputs = Inr p"
    and r: "po_state p = CLOSED \<and> po_remaining p = 0 \<and> po_bars_applied p = 3 \<and> length (po_events p) = 9"
  have "po_spec p = sample_spec" using replay_spec [OF p sample_spec_made] by simp
  moreover have "po_bars_applied p = length (bar_events (po_events p))"
    using replay_inv [OF p sample_spec_made] by (simp add: paper_inv_def)
  ultimately show ?thesis
    using fills_come_from_later_bars [OF sample_spec_made p] p r by (simp add: sample_spec_def)
qed

section \<open>A ledger rebuilds its position\<close>

text \<open>The engine reads neither the spelling of the symbol of a bar nor its open interest.\<close>

abbreviation relabel :: "string \<Rightarrow> dec option \<Rightarrow> Candle \<Rightarrow> Candle" where
  "relabel x y bar \<equiv> bar\<lparr>bar_symbol := x, open_interest := y\<rparr>"

lemma relabel_exit_target: "exit_target s product (relabel x y bar) = exit_target s product bar"
  by (intro ext) (simp add: exit_target_def target_data_def Let_def cong: prod.case_cong if_cong)

lemma relabel_open_targets:
  "open_targets s product (relabel x y bar) is = open_targets s product bar is"
proof (induction "is")
  case (Cons i "is")
  show ?case by (rule ext) (simp add: Cons relabel_exit_target Let_def cong: if_cong)
qed (simp add: fun_eq_iff)

lemma relabel_exit_targets:
  "exit_targets s product (relabel x y bar) is = exit_targets s product bar is"
proof (induction "is")
  case (Cons i "is")
  show ?case by (rule ext) (simp add: Cons relabel_exit_target Let_def cong: if_cong)
qed (simp add: fun_eq_iff)

lemma relabel_new_bar: "new_bar p (relabel x y bar) product = new_bar p bar product"
  by (simp add: new_bar_def process_bar_def enter_def fill_entry_def entry_data_def rejection_data_def
      intrabar_def touched_targets_def stop_touched_def ambiguity_data_def exit_stop_def at_open_def
      relabel_open_targets relabel_exit_targets manual_exit_def manual_data_def finish_def bar_data_def Let_def
      cong: if_cong prod.case_cong option.case_cong)

lemma relabel_valid:
  "bar_is_valid s bar \<Longrightarrow> bar_is_valid s (relabel (ps_symbol s) y bar)"
  by (simp add: bar_is_valid_def same_instrument_def)

text \<open>Applying a bar in order is processing it.\<close>

lemma apply_fresh:
  assumes "apply_observation p bar product = Inr p'" and "new_bar p bar product = Inr p'" and "p' \<noteq> p"
  shows "apply_observation p (relabel (ps_symbol (po_spec p)) y bar) product = Inr p'"
  using assms(1)
proof (cases rule: apply_observation_cases)
  case fresh
  have d: "0 < duration_of (ps_timeframe (po_spec p))" by simp
  have "\<not> instant (open_time bar) \<le> instant l"
    "\<not> instant (open_time bar) < instant l + duration_of (ps_timeframe (po_spec p))"
    if "po_last_bar_time p = Some l" for l
    using fresh(4) [OF that] d by linarith+
  then show ?thesis
    using fresh relabel_valid [OF fresh(2), of y] assms(2)
    by (auto simp: apply_observation_def validate_bar_def Let_def relabel_new_bar split: option.splits)
qed (use assms in simp)

text \<open>Prices whose stored text is read back as they were: no positive exponent.\<close>

definition keeps_text :: "Candle \<Rightarrow> bool" where
  "keeps_text bar \<longleftrightarrow> list_all (\<lambda>v. plain v = v)
     [bar_open bar, bar_high bar, bar_low bar, bar_close bar, bar_volume bar]"

lemma stored_bar_read:
  assumes "ev_market_time e = Some (open_time bar)" and "ev_data e = bar_data bar"
    and "keeps_text bar" and "bar_is_valid s bar"
  shows "bar_from_event s e = Inr (relabel (ps_symbol s) None bar)"
  using assms
  by (simp add: bar_from_event_def bar_data_def stored_decimal_def parse_plain_text keeps_text_def
      bar_is_valid_def)

text \<open>The inputs a ledger records, and what they lead back to.\<close>

definition recorded :: "ProductPolicy \<Rightarrow> PaperPosition \<Rightarrow> PaperPosition \<Rightarrow> bool" where
  "recorded product p0 p \<longleftrightarrow> (\<exists>is. inputs_from_events (po_spec p0) (po_events p) = Inr is
     \<and> run_all (apply_input product) p0 is = Inr p)"

lemma traverse_snoc: "traverse f (xs @ [y]) = rbind (traverse f xs) (\<lambda>ys. rmap (\<lambda>z. ys @ [z]) (f y))"
  by (induction xs) (auto simp: rmap_def rbind_assoc)

lemma replayed_derived: "list_all (derived t) es \<Longrightarrow> filter replayed es = []"
  by (auto simp: replayed_def derived_def list_all_iff filter_empty_conv)

lemma recorded_step:
  assumes rec: "recorded product p0 p" and spec: "po_spec p = po_spec p0"
    and ap: "apply_input product p item = Inr p'" and inv: "paper_inv p"
    and kept: "\<And>bar. item = BarInput bar \<Longrightarrow> keeps_text bar"
  shows "recorded product p0 p'"
  using ap inv
proof (cases rule: apply_input_ledger)
  case same
  then show ?thesis using rec by simp
next
  case (bar b new)
  obtain "is" where i: "inputs_from_events (po_spec p0) (po_events p) = Inr is"
    "run_all (apply_input product) p0 is = Inr p" using rec by (auto simp: recorded_def)
  have ne: "p' \<noteq> p" using bar(5) by auto
  let ?e = "\<lparr>ev_sequence = Suc (length (po_events p)), ev_type = OBSERVATION_APPLIED,
    ev_market_time = Some (open_time b), ev_data = bar_data b\<rparr>"
  let ?b = "relabel (ps_symbol (po_spec p0)) None b"
  have "bar_from_event (po_spec p0) ?e = Inr ?b"
    using kept [OF bar(1)] bar(4) by (intro stored_bar_read) (simp_all add: spec)
  then have "inputs_from_events (po_spec p0) (po_events p') = Inr (is @ [BarInput ?b])"
    using i(1) replayed_derived [OF bar(6)]
    by (simp add: inputs_from_events_def bar(5) replayed_def INPUT_EVENT_TYPES_def traverse_snoc input_of_def)
  moreover have "apply_input product p (BarInput ?b) = Inr p'"
    using apply_fresh [OF bar(3,2) ne, of None] by (simp add: apply_input_def spec)
  ultimately show ?thesis using i(2) by (auto simp: recorded_def run_all_snoc)
next
  case (person e)
  obtain "is" where i: "inputs_from_events (po_spec p0) (po_events p) = Inr is"
    "run_all (apply_input product) p0 is = Inr p" using rec by (auto simp: recorded_def)
  have "replayed e" "input_of (po_spec p0) e = Inr item"
    using person(2) by (auto simp: replayed_def INPUT_EVENT_TYPES_def input_of_def)
  then have "inputs_from_events (po_spec p0) (po_events p') = Inr (is @ [item])"
    using i(1) by (simp add: inputs_from_events_def person(1) traverse_snoc)
  then show ?thesis using i(2) ap by (auto simp: recorded_def run_all_snoc)
qed

lemma recorded_run:
  assumes "run_all (apply_input product) p inputs = Inr p'" and "paper_inv p"
    and "recorded product p0 p" and "po_spec p = po_spec p0"
    and "\<forall>bar. BarInput bar \<in> set inputs \<longrightarrow> keeps_text bar"
  shows "recorded product p0 p'"
  using assms
proof (induction inputs arbitrary: p)
  case (Cons i "is")
  obtain q where q: "apply_input product p i = Inr q" "run_all (apply_input product) q is = Inr p'"
    using Cons.prems(1) by (auto simp: res_simps)
  show ?case
    using Cons.IH [OF q(2) apply_input_inv [OF q(1) Cons.prems(2)]]
      recorded_step [OF Cons.prems(3,4) q(1) Cons.prems(2)] apply_input_frame(1) [OF q(1) Cons.prems(2)]
      Cons.prems(4,5) by auto
qed simp



section \<open>A bar again\<close>

lemma find_none_then: "find P xs = None \<Longrightarrow> P y \<Longrightarrow> find P (xs @ y # ys) = Some y"
  by (induction xs) (auto split: if_splits)

lemma sorted_wrt_last: "sorted_wrt R xs \<Longrightarrow> x \<in> set xs \<Longrightarrow> x = last xs \<or> R x (last xs)"
  by (induction xs) auto

lemma applied_bar_found:
  assumes inv: "paper_inv p" and new: "new_bar p bar product = Inr p'"
    and valid: "bar_is_valid (po_spec p) bar" and live: "\<not> is_terminal (po_state p)"
    and after: "\<And>l. po_last_bar_time p = Some l \<Longrightarrow>
        instant l + duration_of (ps_timeframe (po_spec p)) \<le> instant (open_time bar)"
    and t: "is_aware t" "instant t = instant (open_time bar)"
  shows "applied_bar p' t = Some (bar_data bar)"
proof -
  let ?P = "\<lambda>e. ev_type e = OBSERVATION_APPLIED \<and> same_time_opt (ev_market_time e) (Some t)"
  let ?e = "\<lparr>ev_sequence = Suc (length (po_events p)), ev_type = OBSERVATION_APPLIED,
         ev_market_time = Some (open_time bar), ev_data = bar_data bar\<rparr>"
  let ?bars = "bar_events (po_events p)"
  obtain nw where ev: "po_events p' = po_events p @ ?e # nw"
    using new_bar_facts(1) [OF new inv valid live] by blast
  have bars: "bars_ok (po_spec p) ?bars" using inv by (simp add: paper_inv_def)
  have earlier: "event_instant e < instant (open_time bar)" if e: "e \<in> set ?bars" for e
  proof -
    have ne: "?bars \<noteq> []" using e by auto
    have sorted: "sorted_wrt (\<lambda>a b. event_instant a + duration_of (ps_timeframe (po_spec p)) \<le> event_instant b) ?bars"
      using bars by (intro successively_spaced) (simp_all add: bars_ok_def)
    have "event_instant e \<le> event_instant (last ?bars)"
      using sorted_wrt_last [OF sorted e]
    proof
      assume "event_instant e + duration_of (ps_timeframe (po_spec p)) \<le> event_instant (last ?bars)"
      with duration_pos [of "ps_timeframe (po_spec p)"] show ?thesis by linarith
    qed simp
    have "stored_bar (po_spec p) (last ?bars)"
      using bars ne by (auto simp: bars_ok_def list_all_iff)
    then obtain l where l: "ev_market_time (last ?bars) = Some l" by (auto simp: stored_bar_def)
    have "event_instant (last ?bars) = instant l" by (simp add: event_instant_def l)
    moreover have "instant l + duration_of (ps_timeframe (po_spec p)) \<le> instant (open_time bar)"
      using after [of l] inv ne l by (simp add: paper_inv_def)
    ultimately show ?thesis using duration_pos [of "ps_timeframe (po_spec p)"] \<open>event_instant e \<le> _\<close> by linarith
  qed
  have "find ?P (po_events p) = None"
  proof (rule ccontr)
    assume "find ?P (po_events p) \<noteq> None"
    then obtain e where e: "e \<in> set (po_events p)" "?P e" by (auto simp: find_None_iff)
    then have b: "e \<in> set ?bars" by (simp add: bar_events_def)
    then obtain u where u: "ev_market_time e = Some u" "is_aware u"
      using bars bar_is_valid_facts(5) by (fastforce simp: bars_ok_def list_all_iff stored_bar_def)
    then show False
      using earlier [OF b] e(2) t same_time_aware [of u t] by (simp add: event_instant_def)
  qed
  moreover have "?P ?e"
    using t bar_is_valid_facts(5) [OF valid] by (simp add: same_time_aware)
  ultimately show ?thesis by (simp add: applied_bar_def ev find_none_then)
qed


lemma applied_again:
  assumes ap: "apply_observation p bar product = Inr p'" and fresh: "p' \<noteq> p" and inv: "paper_inv p"
    and again: "bar_is_valid (po_spec p) bar2" "instant (open_time bar2) = instant (open_time bar)"
  shows "apply_observation p' bar2 product =
     (if same_data (bar_data bar) (bar_data bar2) then Inr p' else refuse CONFLICTING_OBSERVATION)"
  using ap
proof (cases rule: apply_observation_cases)
  case fresh
  note f = new_bar_facts [OF fresh(1) inv fresh(2,3)]
  have "applied_bar p' (open_time bar2) = Some (bar_data bar)"
    using applied_bar_found [OF inv fresh(1-4)] bar_is_valid_facts(5) [OF again(1)] again(2) by simp
  then show ?thesis
    using f(4,8) again
    by (simp add: apply_observation_def validate_bar_def repeat_bar_def)
qed (use fresh in simp)

text \<open>
  C25: a bar counts once. After a bar was applied, offering a bar of the same opening instant again,
  however it writes its symbol, changes nothing when its prices and volume are written the same, and
  is refused as conflicting otherwise; in neither case does the ledger grow.
\<close>

theorem bar_counts_once:
  assumes "made_spec s" and "replay s a product inputs = Inr p"
    and "apply_observation p bar product = Inr p'" and "p' \<noteq> p"
    and "bar_is_valid s bar2" and "instant (open_time bar2) = instant (open_time bar)"
  shows "apply_observation p' bar2 product =
     (if same_data (bar_data bar) (bar_data bar2) then Inr p' else refuse CONFLICTING_OBSERVATION)"
  using applied_again [OF assms(3,4) replay_inv [OF assms(2,1)]] replay_spec [OF assms(2,1)] assms(5,6)
  by simp

lemma sample_pending:
  "got (replay sample_spec sample_approval sample_product []) (\<lambda>p. length (po_events p) = 1
     \<and> got (apply_observation p (sample_bar 0 1050 1055 1045 1050) sample_product)
         (\<lambda>p'. length (po_events p') = 3))"
  by (simp add: paper_eval risk_eval dec_eval Let_def del: plain_text.simps cong: let_weak_cong)

theorem bar_counts_once_witness:
  "\<exists>p p'. replay sample_spec sample_approval sample_product [] = Inr p
     \<and> apply_observation p (sample_bar 0 1050 1055 1045 1050) sample_product = Inr p' \<and> p' \<noteq> p
     \<and> apply_observation p' (sample_bar 0 1050 1055 1045 1050) sample_product = Inr p'"
proof (rule gotE [OF sample_pending], elim conjE, erule gotE)
  let ?bar = "sample_bar 0 1050 1055 1045 1050"
  fix p p' assume p: "replay sample_spec sample_approval sample_product [] = Inr p"
    and l: "length (po_events p) = 1" "length (po_events p') = 3"
    and ap: "apply_observation p ?bar sample_product = Inr p'"
  have valid: "bar_is_valid sample_spec ?bar" by (simp add: paper_eval risk_eval dec_eval)
  have ne: "p' \<noteq> p" using l by auto
  have "same_data (bar_data ?bar) (bar_data ?bar)" by (simp add: same_data_def list_all_iff)
  then show ?thesis
    using bar_counts_once [OF sample_spec_made p ap ne valid refl] p ap ne by auto
qed

end
