(* ===== verification/Replay_Session.thy ===== *)
theory Replay_Session
  imports Live_Validation
begin

text \<open>
  \<open>app/domain/replay/availability.py\<close> and \<open>session.py\<close>: which candles had finished at a market moment,
  and the cursor of a replay session over an immutable dataset. Moments of a dataset are aware, so
  they are compared by their instants. The invariant \<open>cursor_ok\<close> (the cursor stands at the end of the
  last revealed candle) is kept by every step (the interpretation \<open>session\<close>).
\<close>

section \<open>Availability (availability.py)\<close>

definition coverage_end :: "Candle \<Rightarrow> moment" where
  "coverage_end c = moment_add (open_time c) (duration_of (bar_timeframe c))"

definition is_available :: "Candle \<Rightarrow> moment \<Rightarrow> bool" where
  "is_available c as_of = (instant (coverage_end c) \<le> instant as_of)"

definition revealed :: "Candle list \<Rightarrow> moment \<Rightarrow> Candle list" where
  "revealed cs as_of = takeWhile (\<lambda>c. is_available c as_of) cs"

fun revealed_count :: "Candle list \<Rightarrow> moment \<Rightarrow> nat" where
  "revealed_count [] as_of = 0"
| "revealed_count (c # cs) as_of = (if is_available c as_of then Suc (revealed_count cs as_of) else 0)"

fun next_boundary :: "Candle list \<Rightarrow> moment \<Rightarrow> moment option" where
  "next_boundary [] t = None"
| "next_boundary (c # cs) t =
     (if instant t < instant (coverage_end c) then Some (coverage_end c) else next_boundary cs t)"

section \<open>The session (session.py)\<close>

definition MAX_ADVANCE_STEPS :: nat where "MAX_ADVANCE_STEPS = 50"

datatype ReplayStatus = READY | IN_PROGRESS | END_OF_DATASET

record ReplayPlan =
  plan_dataset_id :: string
  plan_symbol :: string
  plan_driver :: Timeframe
  plan_replay_start :: moment

record ReplayCursor =
  cu_as_of :: moment
  cu_revealed :: nat
  cu_status :: ReplayStatus
  cu_version :: nat

fun boundary_from :: "moment \<Rightarrow> Candle list \<Rightarrow> moment \<Rightarrow> moment" where
  "boundary_from latest [] m = latest"
| "boundary_from latest (c # cs) m =
     (if instant m < instant (coverage_end c) then latest else boundary_from (coverage_end c) cs m)"

definition boundary_at_or_before :: "Candle list \<Rightarrow> moment \<Rightarrow> moment" where
  "boundary_at_or_before cs m = boundary_from (coverage_end (hd cs)) cs m"

definition start_cursor :: "ReplayPlan \<Rightarrow> Candle list \<Rightarrow> ReplayCursor res" where
  "start_cursor plan cs =
     (if cs = [] then Inl (ReplayError DATASET_INVALID)
      else if instant (plan_replay_start plan) < instant (coverage_end (hd cs))
      then Inl (ReplayError REPLAY_START_BEFORE_DATA)
      else if instant (coverage_end (last cs)) < instant (plan_replay_start plan)
      then Inl (ReplayError REPLAY_START_AFTER_DATA)
      else
        let boundary = boundary_at_or_before cs (plan_replay_start plan);
            count = revealed_count cs boundary
        in Inr \<lparr>cu_as_of = boundary, cu_revealed = count,
                cu_status = (if length cs \<le> count then END_OF_DATASET else READY),
                cu_version = 1\<rparr>)"

definition step :: "Candle list \<Rightarrow> ReplayCursor \<Rightarrow> ReplayCursor res" where
  "step cs cursor =
     (if cu_status cursor = END_OF_DATASET then Inl (ReplayError REPLAY_END)
      else case next_boundary cs (cu_as_of cursor) of
        None \<Rightarrow> Inl (ReplayError REPLAY_END)
      | Some boundary \<Rightarrow>
          (let count = revealed_count cs boundary in
           Inr \<lparr>cu_as_of = boundary, cu_revealed = count,
                cu_status = (if length cs \<le> count then END_OF_DATASET else IN_PROGRESS),
                cu_version = cu_version cursor + 1\<rparr>))"

text \<open>The loop of \<open>advance\<close>: at most so many steps, ending early at the end of the dataset.\<close>

fun steps_from :: "Candle list \<Rightarrow> nat \<Rightarrow> ReplayCursor \<Rightarrow> (ReplayCursor \<times> moment list) res" where
  "steps_from cs 0 cursor = Inr (cursor, [])"
| "steps_from cs (Suc n) cursor =
     (if cu_status cursor = END_OF_DATASET then Inr (cursor, [])
      else rbind (step cs cursor) (\<lambda>c.
        rmap (\<lambda>(final, bs). (final, cu_as_of c # bs)) (steps_from cs n c)))"

definition advance :: "Candle list \<Rightarrow> ReplayCursor \<Rightarrow> int \<Rightarrow> (ReplayCursor \<times> moment list) res" where
  "advance cs cursor steps =
     (if steps < 1 then Inl (ReplayError INVALID_ADVANCE)
      else if int MAX_ADVANCE_STEPS < steps then Inl (ReplayError RESOURCE_LIMIT)
      else rbind (steps_from cs (nat steps) cursor) (\<lambda>(current, boundaries).
        if boundaries = [] then Inl (ReplayError REPLAY_END) else Inr (current, boundaries)))"

section \<open>Lemmas\<close>

text \<open>Stored candles finish in strictly increasing order.\<close>

definition chronological :: "Candle list \<Rightarrow> bool" where
  "chronological cs \<longleftrightarrow> sorted_wrt (<) (map (instant \<circ> coverage_end) cs)"

lemma revealed_count_length: "revealed_count cs t = length (revealed cs t)"
  by (induction cs) (simp_all add: revealed_def)

lemma revealed_filter:
  "chronological cs \<Longrightarrow> revealed cs t = filter (\<lambda>c. is_available c t) cs"
proof (induction cs)
  case (Cons c cs)
  then show ?case
    by (auto simp: revealed_def chronological_def is_available_def intro!: filter_False [symmetric])
qed (simp add: revealed_def)

text \<open>The candles ended by the end of the \<open>k\<close>-th one are the first \<open>Suc k\<close>.\<close>

lemma revealed_at:
  assumes "chronological cs" and "k < length cs" and "instant t = instant (coverage_end (cs ! k))"
  shows "revealed cs t = take (Suc k) cs"
  using assms
proof (induction cs arbitrary: k)
  case (Cons c cs)
  show ?case
  proof (cases k)
    case 0
    then show ?thesis using Cons.prems
      by (cases cs) (auto simp: revealed_def is_available_def chronological_def)
  next
    case (Suc j)
    have "instant (coverage_end c) < instant (coverage_end (cs ! j))"
      using Cons.prems Suc by (auto simp: chronological_def)
    then have "is_available c t" using Cons.prems Suc by (simp add: is_available_def)
    moreover have "revealed cs t = take (Suc j) cs"
      using Cons.IH [of j] Cons.prems Suc by (simp add: chronological_def)
    ultimately show ?thesis using Suc by (simp add: revealed_def)
  qed
qed simp

lemma next_boundary_at:
  assumes "chronological cs" and "k < length cs" and "instant t = instant (coverage_end (cs ! k))"
  shows "next_boundary cs t = (if Suc k < length cs then Some (coverage_end (cs ! Suc k)) else None)"
  using assms
proof (induction cs arbitrary: k)
  case (Cons c cs)
  show ?case
  proof (cases k)
    case 0
    then show ?thesis using Cons.prems by (cases cs) (auto simp: chronological_def)
  next
    case (Suc j)
    have "instant (coverage_end c) < instant (coverage_end (cs ! j))"
      using Cons.prems Suc by (auto simp: chronological_def)
    then have "\<not> instant t < instant (coverage_end c)" using Cons.prems Suc by simp
    then show ?thesis using Cons.IH [of j] Cons.prems Suc by (simp add: chronological_def)
  qed
qed simp

text \<open>The invariant of a cursor: it stands at the end of the last revealed candle.\<close>

definition cursor_ok :: "Candle list \<Rightarrow> ReplayCursor \<Rightarrow> bool" where
  "cursor_ok cs c \<longleftrightarrow> 0 < cu_revealed c \<and> cu_revealed c \<le> length cs
     \<and> cu_as_of c = coverage_end (cs ! (cu_revealed c - 1))
     \<and> (cu_status c = END_OF_DATASET \<longleftrightarrow> cu_revealed c = length cs)"

lemma boundary_from_at:
  assumes "chronological cs" and "cs \<noteq> []"
  shows "instant (coverage_end (hd cs)) \<le> instant m \<Longrightarrow> \<exists>k<length cs.
    boundary_from latest cs m = coverage_end (cs ! k) \<and> instant (coverage_end (cs ! k)) \<le> instant m
    \<and> (Suc k < length cs \<longrightarrow> instant m < instant (coverage_end (cs ! Suc k)))"
  using assms
proof (induction cs arbitrary: latest)
  case (Cons c cs)
  show ?case
  proof (cases "cs \<noteq> [] \<and> instant (coverage_end (hd cs)) \<le> instant m")
    case True
    then obtain k where k: "k < length cs" "boundary_from (coverage_end c) cs m = coverage_end (cs ! k)"
        "instant (coverage_end (cs ! k)) \<le> instant m"
        "Suc k < length cs \<Longrightarrow> instant m < instant (coverage_end (cs ! Suc k))"
      using Cons.IH [of "coverage_end c"] Cons.prems(2) by (auto simp: chronological_def)
    then show ?thesis using Cons.prems(1) by (intro exI [of _ "Suc k"]) auto
  next
    case False
    then show ?thesis using Cons.prems by (intro exI [of _ 0]) (cases cs; auto)
  qed
qed simp

lemma start_ok:
  assumes "start_cursor plan cs = Inr c" and "chronological cs"
  shows "cursor_ok cs c" and "cu_version c = 1"
    and "revealed cs (cu_as_of c) = filter (\<lambda>x. is_available x (plan_replay_start plan)) cs"
proof -
  let ?m = "plan_replay_start plan"
  have ne: "cs \<noteq> []" "instant (coverage_end (hd cs)) \<le> instant ?m"
    using assms(1) by (auto simp: start_cursor_def split: if_splits)
  obtain k where k: "k < length cs" "boundary_at_or_before cs ?m = coverage_end (cs ! k)"
      "instant (coverage_end (cs ! k)) \<le> instant ?m"
      "Suc k < length cs \<Longrightarrow> instant ?m < instant (coverage_end (cs ! Suc k))"
    using boundary_from_at [OF assms(2) ne] unfolding boundary_at_or_before_def by blast
  have rev: "revealed cs (coverage_end (cs ! k)) = take (Suc k) cs"
    by (rule revealed_at [OF assms(2) k(1) refl])
  have c: "c = \<lparr>cu_as_of = coverage_end (cs ! k), cu_revealed = Suc k,
                cu_status = (if length cs \<le> Suc k then END_OF_DATASET else READY), cu_version = 1\<rparr>"
    using assms(1) k(1,2) rev
    by (auto simp: start_cursor_def Let_def revealed_count_length split: if_splits)
  show "cursor_ok cs c" "cu_version c = 1" using k(1) by (auto simp: c cursor_ok_def)
  have "revealed cs ?m = take (Suc k) cs"
  proof -
    have sorted: "instant (coverage_end (cs ! i)) < instant (coverage_end (cs ! j))"
      if "i < j" "j < length cs" for i j
      using assms(2) that by (auto simp: chronological_def sorted_wrt_iff_nth_less)
    have "\<forall>x\<in>set (take (Suc k) cs). is_available x ?m"
    proof
      fix x assume "x \<in> set (take (Suc k) cs)"
      then obtain i where "i < Suc k" "x = cs ! i" using k(1) by (auto simp: in_set_conv_nth)
      then show "is_available x ?m"
        using sorted [of i k] k(1,3) by (cases "i = k") (auto simp: is_available_def)
    qed
    moreover have "drop (Suc k) cs = [] \<or> \<not> is_available (hd (drop (Suc k) cs)) ?m"
      using k(4) by (auto simp: is_available_def hd_drop_conv_nth)
    ultimately show ?thesis
      unfolding revealed_def
      by (subst append_take_drop_id [of "Suc k" cs, symmetric])
         (cases "drop (Suc k) cs"; subst takeWhile_append2; auto)
  qed
  then show "revealed cs (cu_as_of c) = filter (\<lambda>x. is_available x ?m) cs"
    using rev revealed_filter [OF assms(2)] by (simp add: c)
qed

text \<open>One step reveals exactly one more candle.\<close>

lemma step_ok:
  assumes "chronological cs" and "cursor_ok cs c" and "cu_status c \<noteq> END_OF_DATASET"
  shows "\<exists>c'. step cs c = Inr c' \<and> cursor_ok cs c' \<and> cu_revealed c' = Suc (cu_revealed c)
    \<and> cu_version c' = Suc (cu_version c) \<and> cu_as_of c' = coverage_end (cs ! cu_revealed c)
    \<and> cu_status c' \<noteq> READY"
proof -
  define k where "k = cu_revealed c - 1"
  have k: "k < length cs" "cu_as_of c = coverage_end (cs ! k)" "cu_revealed c = Suc k" "Suc k < length cs"
    using assms(2,3) by (auto simp: cursor_ok_def k_def le_less)
  have "next_boundary cs (cu_as_of c) = Some (coverage_end (cs ! Suc k))"
    using next_boundary_at [OF assms(1) k(1), of "cu_as_of c"] k(2,4) by simp
  moreover have "revealed_count cs (coverage_end (cs ! Suc k)) = Suc (Suc k)"
    using revealed_at [OF assms(1) k(4) refl] k(4) by (simp add: revealed_count_length)
  ultimately show ?thesis
    using assms(3) k(3,4) by (auto simp: step_def Let_def cursor_ok_def)
qed

lemma cursor_reveals:
  assumes "chronological cs" and "cursor_ok cs c"
  shows "revealed cs (cu_as_of c) = take (cu_revealed c) cs"
  using revealed_at [OF assms(1), of "cu_revealed c - 1" "cu_as_of c"] assms(2)
  by (auto simp: cursor_ok_def)

interpretation session: fallible_machine "\<lambda>c (u :: unit). step cs c" "\<lambda>c. chronological cs \<and> cursor_ok cs c"
  for cs
proof
  fix c c' :: ReplayCursor and u :: unit
  assume c: "chronological cs \<and> cursor_ok cs c" and s: "step cs c = Inr c'"
  then have "cu_status c \<noteq> END_OF_DATASET" by (auto simp: step_def)
  with c s show "chronological cs \<and> cursor_ok cs c'" using step_ok [of cs c] by auto
qed

lemma run_steps_count:
  assumes "run_all (\<lambda>c (u :: unit). step cs c) c us = Inr c'" and "chronological cs" and "cursor_ok cs c"
  shows "cu_revealed c' = cu_revealed c + length us \<and> cu_version c' = cu_version c + length us"
  using assms
proof (induction us arbitrary: c)
  case (Cons u us)
  obtain d where d: "step cs c = Inr d" "run_all (\<lambda>c (u :: unit). step cs c) d us = Inr c'"
    using Cons.prems(1) by (auto simp: res_simps)
  then have "cu_status c \<noteq> END_OF_DATASET" by (auto simp: step_def)
  with step_ok [OF Cons.prems(2,3)] d(1) have "cursor_ok cs d" "cu_revealed d = Suc (cu_revealed c)"
    "cu_version d = Suc (cu_version c)" by auto
  then show ?case using Cons.IH [OF d(2) Cons.prems(2)] by simp
qed simp

lemma steps_from_ok:
  assumes "chronological cs" and "cursor_ok cs c"
  shows "\<exists>c'. steps_from cs n c = Inr (c', map coverage_end (take n (drop (cu_revealed c) cs)))
    \<and> cursor_ok cs c' \<and> cu_revealed c' = min (length cs) (cu_revealed c + n)"
  using assms
proof (induction n arbitrary: c)
  case (Suc n)
  show ?case
  proof (cases "cu_status c = END_OF_DATASET")
    case True
    then show ?thesis using Suc.prems by (auto simp: cursor_ok_def)
  next
    case False
    then have r: "cu_revealed c < length cs" using Suc.prems(2) by (auto simp: cursor_ok_def)
    obtain d where d: "step cs c = Inr d" "cursor_ok cs d" "cu_revealed d = Suc (cu_revealed c)"
      "cu_as_of d = coverage_end (cs ! cu_revealed c)"
      using step_ok [OF Suc.prems False] by auto
    obtain c' where "steps_from cs n d = Inr (c', map coverage_end (take n (drop (cu_revealed d) cs)))"
      "cursor_ok cs c'" "cu_revealed c' = min (length cs) (cu_revealed d + n)"
      using Suc.IH [OF Suc.prems(1) d(2)] by blast
    then show ?thesis
      using d False r by (auto simp: Cons_nth_drop_Suc [symmetric])
  qed
qed (auto simp: cursor_ok_def)

section \<open>Properties\<close>

definition sample_candles :: "Candle list" where
  "sample_candles = map (\<lambda>i. \<lparr>bar_symbol = ''X'', bar_timeframe = M15, open_time = Aware (i * duration_of M15) 0,
     bar_open = DFin False 1 0, bar_high = DFin False 1 0, bar_low = DFin False 1 0,
     bar_close = DFin False 1 0, bar_volume = DFin False 1 0, is_closed = True, open_interest = None\<rparr>)
     [0, 1, 2, 3]"

definition sample_plan :: ReplayPlan where
  "sample_plan = \<lparr>plan_dataset_id = ''d'', plan_symbol = ''X'', plan_driver = M15,
     plan_replay_start = Aware (duration_of M15 + 5) 0\<rparr>"

lemma sample_session:
  "chronological sample_candles"
  "got (start_cursor sample_plan sample_candles) (\<lambda>c. cu_revealed c = 1)"
  by (simp_all add: chronological_def sample_candles_def coverage_end_def duration_of_def minute_def
      start_cursor_def sample_plan_def Let_def boundary_at_or_before_def is_available_def)

text \<open>
  C26: a replay never looks ahead. However many steps a session took, what it reveals is a prefix of
  the dataset: exactly the candles that had finished by its moment, none of the rest had; each step
  revealed one candle more and raised the version by one.
\<close>

theorem replay_never_looks_ahead:
  assumes "chronological cs" and "start_cursor plan cs = Inr c0"
    and "run_all (\<lambda>c (u :: unit). step cs c) c0 us = Inr c"
  shows "revealed cs (cu_as_of c) = take (cu_revealed c) cs
    \<and> (\<forall>x\<in>set (take (cu_revealed c) cs). instant (coverage_end x) \<le> instant (cu_as_of c))
    \<and> (\<forall>x\<in>set (drop (cu_revealed c) cs). instant (cu_as_of c) < instant (coverage_end x))
    \<and> cu_revealed c = cu_revealed c0 + length us \<and> cu_version c = 1 + length us"
proof -
  have ok: "cursor_ok cs c"
    using session.run_invar [of cs c0 us c] assms start_ok(1) by blast
  let ?k = "cu_revealed c - 1"
  have k: "?k < length cs" "cu_as_of c = coverage_end (cs ! ?k)" "0 < cu_revealed c"
    using ok by (auto simp: cursor_ok_def)
  have "instant (cu_as_of c) < instant (coverage_end x)" if "x \<in> set (drop (cu_revealed c) cs)" for x
    using that assms(1) k by (auto simp: in_set_conv_nth chronological_def sorted_wrt_iff_nth_less)
  moreover have rev: "revealed cs (cu_as_of c) = take (cu_revealed c) cs"
    by (rule cursor_reveals [OF assms(1) ok])
  moreover have "instant (coverage_end x) \<le> instant (cu_as_of c)" if "x \<in> set (take (cu_revealed c) cs)" for x
    using that unfolding rev [symmetric] revealed_def
    by (auto simp: is_available_def dest: set_takeWhileD)
  ultimately show ?thesis
    using run_steps_count [OF assms(3,1) start_ok(1) [OF assms(2,1)]] start_ok(2) [OF assms(2,1)] by auto
qed

theorem replay_never_looks_ahead_witness:
  "\<exists>c. start_cursor sample_plan sample_candles = Inr c
     \<and> revealed sample_candles (cu_as_of c) = take 1 sample_candles"
proof (rule gotE [OF sample_session(2)])
  fix c assume c: "start_cursor sample_plan sample_candles = Inr c" "cu_revealed c = 1"
  show ?thesis
    using replay_never_looks_ahead [OF sample_session(1) c(1), of "[]" c] c by simp
qed

text \<open>
  C27: a replay ends, and says so. From any started session an advance of one to fifty steps returns:
  it crosses, in order, the ends of exactly the next candles, as many as were asked for or are left,
  and is refused only when none is left. As many single steps as candles are left reach
  END_OF_DATASET, after which a step is refused.
\<close>

theorem replay_ends:
  assumes "chronological cs" and "start_cursor plan cs = Inr c" and "1 \<le> n" and "n \<le> 50"
  shows "(if cu_revealed c < length cs
      then \<exists>c'. advance cs c n = Inr (c', map coverage_end (take (nat n) (drop (cu_revealed c) cs)))
        \<and> cu_revealed c' = min (length cs) (cu_revealed c + nat n)
      else advance cs c n = Inl (ReplayError REPLAY_END))
    \<and> (\<exists>c'. steps_from cs (length cs - cu_revealed c) c
          = Inr (c', map coverage_end (drop (cu_revealed c) cs))
        \<and> cu_status c' = END_OF_DATASET \<and> step cs c' = Inl (ReplayError REPLAY_END))"
proof -
  have ok: "cursor_ok cs c" by (rule start_ok(1) [OF assms(2,1)])
  have adv: "advance cs c n = rbind (steps_from cs (nat n) c) (\<lambda>(current, boundaries).
        if boundaries = [] then Inl (ReplayError REPLAY_END) else Inr (current, boundaries))"
    using assms(3,4) by (simp add: advance_def MAX_ADVANCE_STEPS_def)
  show ?thesis
    using steps_from_ok [OF assms(1) ok, of "nat n"] assms(3)
      steps_from_ok [OF assms(1) ok, of "length cs - cu_revealed c"] ok
    by (auto simp: adv cursor_ok_def step_def)
qed

theorem replay_ends_witness:
  "\<exists>c c'. start_cursor sample_plan sample_candles = Inr c
     \<and> advance sample_candles c 50 = Inr (c', map coverage_end (drop 1 sample_candles))"
proof (rule gotE [OF sample_session(2)])
  fix c assume c: "start_cursor sample_plan sample_candles = Inr c" "cu_revealed c = 1"
  have l: "length sample_candles = 4" by (simp add: sample_candles_def)
  then have "take (nat 50) (drop 1 sample_candles) = drop 1 sample_candles" by simp
  with replay_ends [OF sample_session(1) c(1), of 50] c l show ?thesis by auto
qed

end
