(* ===== verification/Performance.thy ===== *)
theory Performance
  imports Live_Validation "HOL-Library.Product_Lexorder" "HOL-Library.List_Lexorder" "HOL-Library.Char_ord"
begin

text \<open>
  \<open>app/domain/performance/model.py\<close> and \<open>engine.py\<close>: what is computed from the outcomes of positions.
  A metric is a record that either carries a value or a reason; the texts of reasons are constructors.
  Amounts come from ledgers and are finite, market times are aware.
\<close>

section \<open>The model (model.py)\<close>

datatype Population =
    POP_PENDING_ENTRY | POP_OPEN | ENTERED_PARTIALLY_CLOSED | POP_AMBIGUOUS_HALTED | POP_CLOSED
  | POP_CANCELLED | POP_REJECTED

definition pop_entered :: "Population \<Rightarrow> bool" where
  "pop_entered p = (p \<in> {POP_OPEN, ENTERED_PARTIALLY_CLOSED, POP_AMBIGUOUS_HALTED, POP_CLOSED})"

definition pop_completed :: "Population \<Rightarrow> bool" where
  "pop_completed p = (p = POP_CLOSED)"

definition pop_open_exposure :: "Population \<Rightarrow> bool" where
  "pop_open_exposure p = (p \<in> {POP_OPEN, ENTERED_PARTIALLY_CLOSED, POP_AMBIGUOUS_HALTED})"

datatype Outcome = WIN | LOSS | BREAKEVEN

datatype PnlBasis = REALIZED_GROSS | REALIZED_NET

datatype MetricStatus = AVAILABLE_METRIC | UNAVAILABLE_METRIC | PARTIAL_COVERAGE | NOT_IMPLEMENTED_METRIC

record Coverage =
  covered :: nat
  cov_total :: nat

definition cov_complete :: "Coverage \<Rightarrow> bool" where
  "cov_complete c = (covered c = cov_total c)"

definition cov_empty :: "Coverage \<Rightarrow> bool" where
  "cov_empty c = (cov_total c = 0)"

text \<open>The reason texts, as constructors.\<close>

datatype MetricReason =
    NoCompletedPositions
  | NoFeesModelled
  | PartlyCosted nat nat
  | NoExitFilled
  | NoPositionOpen
  | MarksMissing
  | NoWinner
  | NoLoser
  | NoCapitalHistory
  | NoRDenominator
  | NoExcursionSemantics
  | NoReturnSeries

record Metric =
  mt_status :: MetricStatus
  mt_value :: "dec option"
  mt_basis :: "PnlBasis option"
  mt_sample_size :: nat
  mt_coverage :: "Coverage option"
  mt_reason :: "MetricReason option"
  mt_numerator :: "nat option"
  mt_denominator :: "nat option"

definition make_metric :: "Metric \<Rightarrow> Metric res" where
  "make_metric m =
     (if mt_status m = AVAILABLE_METRIC \<and> mt_value m = None then Inl ValueError
      else if mt_status m \<noteq> AVAILABLE_METRIC \<and> mt_value m \<noteq> None then Inl ValueError
      else if mt_status m \<noteq> AVAILABLE_METRIC \<and> mt_reason m = None then Inl ValueError
      else Inr m)"

text \<open>The helpers return the metric they construct; its constructor never refuses it.\<close>

definition available :: "dec \<Rightarrow> PnlBasis option \<Rightarrow> nat \<Rightarrow> Coverage option \<Rightarrow> (nat \<times> nat) option \<Rightarrow> Metric" where
  "available v basis n c rate =
     \<lparr>mt_status = AVAILABLE_METRIC, mt_value = Some v, mt_basis = basis, mt_sample_size = n,
      mt_coverage = c, mt_reason = None, mt_numerator = map_option fst rate,
      mt_denominator = map_option snd rate\<rparr>"

definition unavailable ::
  "MetricReason \<Rightarrow> PnlBasis option \<Rightarrow> nat \<Rightarrow> Coverage option \<Rightarrow> MetricStatus \<Rightarrow> Metric" where
  "unavailable reason basis n c st =
     \<lparr>mt_status = st, mt_value = None, mt_basis = basis, mt_sample_size = n, mt_coverage = c,
      mt_reason = Some reason, mt_numerator = None, mt_denominator = None\<rparr>"

lemma metric_made:
  "make_metric (available v basis n c rate) = Inr (available v basis n c rate)"
  "st \<noteq> AVAILABLE_METRIC \<Longrightarrow>
     make_metric (unavailable reason basis n c st) = Inr (unavailable reason basis n c st)"
  by (simp_all add: make_metric_def available_def unavailable_def)

record InstrumentIdentity =
  ii_symbol :: string
  ii_asset_class :: string

definition instrument_key :: "InstrumentIdentity \<Rightarrow> string \<times> string" where
  "instrument_key i = (ii_asset_class i, ii_symbol i)"

record RealizedFill =
  rf_amount :: dec
  rf_fee :: "dec option"
  rf_market_time :: moment

text \<open>Market times are aware and compared by their instants.\<close>

definition in_window :: "moment option \<Rightarrow> moment option \<Rightarrow> moment \<Rightarrow> bool" where
  "in_window start stop t =
     ((case start of Some s \<Rightarrow> instant s \<le> instant t | None \<Rightarrow> True)
      \<and> (case stop of Some e \<Rightarrow> instant t \<le> instant e | None \<Rightarrow> True))"

record PositionOutcome =
  oc_position_id :: string
  oc_instrument :: InstrumentIdentity
  oc_direction :: Direction
  oc_timeframe :: Timeframe
  oc_quantity :: int
  oc_population :: Population
  oc_realized_gross :: dec
  oc_fees_total :: "dec option"
  oc_realized_net :: "dec option"
  oc_unrealized_gross :: "dec option"
  oc_fee_mode :: string
  oc_decision_time :: moment
  oc_entry_time :: "moment option"
  oc_terminal_time :: "moment option"
  oc_fills :: "RealizedFill list"
  oc_source :: string

definition make_outcome :: "PositionOutcome \<Rightarrow> PositionOutcome res" where
  "make_outcome r =
     (if pop_completed (oc_population r) \<and> oc_terminal_time r = None then Inl ValueError
      else if oc_fees_total r = None \<and> oc_realized_net r \<noteq> None then Inl ValueError
      else Inr r)"

definition oc_fees_modelled :: "PositionOutcome \<Rightarrow> bool" where
  "oc_fees_modelled r = (oc_fees_total r \<noteq> None)"

definition amount_on :: "PnlBasis \<Rightarrow> PositionOutcome \<Rightarrow> dec option" where
  "amount_on basis r =
     (if basis = REALIZED_GROSS then Some (oc_realized_gross r) else oc_realized_net r)"

text \<open>Ledger amounts are finite, so their comparisons do not raise.\<close>

definition outcome_of :: "dec \<Rightarrow> Outcome" where
  "outcome_of a = (if dec_less dec_zero a then WIN else if dec_less a dec_zero then LOSS else BREAKEVEN)"

definition outcome_on :: "PnlBasis \<Rightarrow> PositionOutcome \<Rightarrow> Outcome option" where
  "outcome_on basis r = map_option outcome_of (amount_on basis r)"

definition order_key :: "PositionOutcome \<Rightarrow> int \<times> string" where
  "order_key r = (case oc_terminal_time r of Some t \<Rightarrow> instant t | None \<Rightarrow> 0, oc_position_id r)"

section \<open>Populations and ordering (engine.py)\<close>

record PopulationCounts =
  pc_total :: nat
  pc_pending_entry :: nat
  pc_open_positions :: nat
  pc_partially_closed :: nat
  pc_ambiguous_halted :: nat
  pc_closed :: nat
  pc_cancelled :: nat
  pc_rejected :: nat

definition pc_entered :: "PopulationCounts \<Rightarrow> nat" where
  "pc_entered c = pc_open_positions c + pc_partially_closed c + pc_ambiguous_halted c + pc_closed c"

definition pc_open_exposure :: "PopulationCounts \<Rightarrow> nat" where
  "pc_open_exposure c = pc_open_positions c + pc_partially_closed c + pc_ambiguous_halted c"

definition pc_never_entered :: "PopulationCounts \<Rightarrow> nat" where
  "pc_never_entered c = pc_pending_entry c + pc_cancelled c + pc_rejected c"

fun tally :: "(Population \<Rightarrow> nat) \<Rightarrow> PositionOutcome list \<Rightarrow> Population \<Rightarrow> nat" where
  "tally t [] = t"
| "tally t (r # rs) = tally (t(oc_population r := Suc (t (oc_population r)))) rs"

definition count_populations :: "PositionOutcome list \<Rightarrow> PopulationCounts" where
  "count_populations rs =
     (let t = tally (\<lambda>_. 0) rs in
      \<lparr>pc_total = length rs, pc_pending_entry = t POP_PENDING_ENTRY, pc_open_positions = t POP_OPEN,
       pc_partially_closed = t ENTERED_PARTIALLY_CLOSED, pc_ambiguous_halted = t POP_AMBIGUOUS_HALTED,
       pc_closed = t POP_CLOSED, pc_cancelled = t POP_CANCELLED, pc_rejected = t POP_REJECTED\<rparr>)"

definition chosen :: "moment option \<Rightarrow> moment option \<Rightarrow> PositionOutcome \<Rightarrow> bool" where
  "chosen start stop r =
     (pop_completed (oc_population r)
      \<and> (case oc_terminal_time r of Some t \<Rightarrow> in_window start stop t | None \<Rightarrow> True))"

definition completed ::
  "PositionOutcome list \<Rightarrow> moment option \<Rightarrow> moment option \<Rightarrow> PositionOutcome list" where
  "completed rs start stop = sort_key order_key (filter (chosen start stop) rs)"

definition fee_coverage :: "PositionOutcome list \<Rightarrow> Coverage" where
  "fee_coverage sample =
     \<lparr>covered = length (filter oc_fees_modelled sample), cov_total = length sample\<rparr>"

datatype BasisReason = DefaultBasis | EveryFeeModelled | SomeFeesModelled nat nat

definition choose_basis :: "PositionOutcome list \<Rightarrow> PnlBasis \<times> BasisReason \<times> Coverage" where
  "choose_basis sample =
     (let c = fee_coverage sample in
      if cov_empty c then (REALIZED_GROSS, DefaultBasis, c)
      else if cov_complete c then (REALIZED_NET, EveryFeeModelled, c)
      else (REALIZED_GROSS, SomeFeesModelled (covered c) (cov_total c), c))"

section \<open>Money\<close>

text \<open>\<open>sum(values, ZERO)\<close>.\<close>

fun dec_sum :: "dec \<Rightarrow> dec list \<Rightarrow> dec res" where
  "dec_sum acc [] = Inr acc"
| "dec_sum acc (v # vs) = rbind (dec_add default_context acc v) (\<lambda>s. dec_sum s vs)"

definition some_of :: "'a option list \<Rightarrow> 'a list" where
  "some_of vs = List.map_filter id vs"

definition realized_gross_total :: "PositionOutcome list \<Rightarrow> Metric res" where
  "realized_gross_total sample =
     (if sample = [] then Inr (unavailable NoCompletedPositions None 0 None UNAVAILABLE_METRIC)
      else rmap (\<lambda>t. available t (Some REALIZED_GROSS) (length sample) None None)
             (dec_sum dec_zero (map oc_realized_gross sample)))"

definition fees_known_total :: "PositionOutcome list \<Rightarrow> Metric res" where
  "fees_known_total sample =
     (let c = fee_coverage sample in
      if cov_empty c then Inr (unavailable NoCompletedPositions None 0 (Some c) UNAVAILABLE_METRIC)
      else if covered c = 0
      then Inr (unavailable NoFeesModelled None (length sample) (Some c) UNAVAILABLE_METRIC)
      else rmap (\<lambda>t. available t None (covered c) (Some c) None)
             (dec_sum dec_zero (some_of (map oc_fees_total sample))))"

definition realized_net_total :: "PositionOutcome list \<Rightarrow> Metric res" where
  "realized_net_total sample =
     (let c = fee_coverage sample in
      if cov_empty c then Inr (unavailable NoCompletedPositions None 0 (Some c) UNAVAILABLE_METRIC)
      else if covered c = 0
      then Inr (unavailable NoFeesModelled (Some REALIZED_NET) (length sample) (Some c) UNAVAILABLE_METRIC)
      else if \<not> cov_complete c
      then Inr (unavailable (PartlyCosted (covered c) (cov_total c)) (Some REALIZED_NET)
                  (length sample) (Some c) PARTIAL_COVERAGE)
      else rmap (\<lambda>t. available t (Some REALIZED_NET) (length sample) (Some c) None)
             (dec_sum dec_zero (some_of (map oc_realized_net sample))))"

record RealizedAccounting =
  ac_fill_count :: nat
  ac_position_count :: nat
  ac_from_completed :: nat
  ac_from_open :: nat
  ac_gross :: Metric
  ac_fees_known :: Metric
  ac_net :: Metric
  ac_coverage :: Coverage

text \<open>The fills of a record that fall in the window.\<close>

definition selected_fills ::
  "moment option \<Rightarrow> moment option \<Rightarrow> PositionOutcome \<Rightarrow> RealizedFill list" where
  "selected_fills start stop r = filter (\<lambda>f. in_window start stop (rf_market_time f)) (oc_fills r)"

definition fill_net :: "RealizedFill list \<Rightarrow> Coverage \<Rightarrow> dec \<Rightarrow> dec \<Rightarrow> Metric res" where
  "fill_net fills c gross fees =
     (if cov_complete c
      then rmap (\<lambda>n. available n (Some REALIZED_NET) (length fills) (Some c) None)
             (dec_sub default_context gross fees)
      else if covered c = 0
      then Inr (unavailable NoFeesModelled (Some REALIZED_NET) 0 (Some c) UNAVAILABLE_METRIC)
      else Inr (unavailable (PartlyCosted (covered c) (length fills)) (Some REALIZED_NET) 0 (Some c)
                  PARTIAL_COVERAGE))"

definition realized_accounting ::
  "PositionOutcome list \<Rightarrow> moment option \<Rightarrow> moment option \<Rightarrow> RealizedAccounting res" where
  "realized_accounting rs start stop =
     (let touched = filter (\<lambda>r. selected_fills start stop r \<noteq> []) rs;
          fills = concat (map (selected_fills start stop) touched);
          c = \<lparr>covered = length (filter (\<lambda>f. rf_fee f \<noteq> None) fills), cov_total = length fills\<rparr>
      in if fills = []
         then Inr \<lparr>ac_fill_count = 0, ac_position_count = 0, ac_from_completed = 0, ac_from_open = 0,
                ac_gross = unavailable NoExitFilled (Some REALIZED_GROSS) 0 None UNAVAILABLE_METRIC,
                ac_fees_known = unavailable NoExitFilled None 0 None UNAVAILABLE_METRIC,
                ac_net = unavailable NoExitFilled (Some REALIZED_NET) 0 None UNAVAILABLE_METRIC,
                ac_coverage = c\<rparr>
         else rbind (dec_sum dec_zero (map rf_amount fills)) (\<lambda>gross.
              rbind (dec_sum dec_zero (some_of (map rf_fee fills))) (\<lambda>fees.
              rbind (fill_net fills c gross fees) (\<lambda>net.
                Inr \<lparr>ac_fill_count = length fills, ac_position_count = length touched,
                     ac_from_completed =
                       length (filter (\<lambda>r. pop_completed (oc_population r)) touched),
                     ac_from_open =
                       length (filter (\<lambda>r. \<not> pop_completed (oc_population r)) touched),
                     ac_gross = available gross (Some REALIZED_GROSS) (length fills) None None,
                     ac_fees_known =
                       (if covered c \<noteq> 0 then available fees None (covered c) (Some c) None
                        else unavailable NoFeesModelled None 0 (Some c) UNAVAILABLE_METRIC),
                     ac_net = net, ac_coverage = c\<rparr>))))"

definition unrealized_gross_open :: "PositionOutcome list \<Rightarrow> Metric res" where
  "unrealized_gross_open rs =
     (let exposed = filter (\<lambda>r. pop_open_exposure (oc_population r)) rs;
          known = some_of (map oc_unrealized_gross exposed);
          c = \<lparr>covered = length known, cov_total = length exposed\<rparr>
      in if exposed = [] then Inr (unavailable NoPositionOpen None 0 None UNAVAILABLE_METRIC)
         else if \<not> cov_complete c
         then Inr (unavailable MarksMissing None 0 (Some c) PARTIAL_COVERAGE)
         else rmap (\<lambda>t. available t (Some REALIZED_GROSS) (length exposed) (Some c) None)
                (dec_sum dec_zero known))"

section \<open>Trade-level statistics\<close>

text \<open>\<open>value.quantize(Decimal("0.0001"), rounding=ROUND_HALF_UP)\<close>.\<close>

fun quantize4 :: "dec \<Rightarrow> dec res" where
  "quantize4 (DFin s c e) =
     (let q = (if - 4 \<le> e then c * 10 ^ nat (e + 4)
               else round_coeff ROUND_HALF_UP s c (nat (- 4 - e)))
      in if 28 < ndigits q then Inl InvalidOperation else Inr (DFin s q (- 4)))"
| "quantize4 (DInf s) = Inl InvalidOperation"
| "quantize4 DNaN = Inr DNaN"

definition quotient4 :: "dec \<Rightarrow> dec \<Rightarrow> dec res" where
  "quotient4 a b = rbind (dec_div default_context a b) quantize4"

definition classify :: "PositionOutcome list \<Rightarrow> PnlBasis \<Rightarrow> nat \<times> nat \<times> nat" where
  "classify sample basis =
     (let os = map (outcome_on basis) sample in
      (count_list os (Some WIN), count_list os (Some LOSS), count_list os (Some BREAKEVEN)))"

definition win_rate :: "PositionOutcome list \<Rightarrow> PnlBasis \<Rightarrow> Metric res" where
  "win_rate sample basis =
     (if sample = [] then Inr (unavailable NoCompletedPositions (Some basis) 0 None UNAVAILABLE_METRIC)
      else
        let wins = fst (classify sample basis); n = length sample in
        rbind (dec_div default_context (dec_of_int (int wins)) (dec_of_int (int n))) (\<lambda>q.
        rbind (dec_mul default_context q (dec_of_int 100)) (\<lambda>p.
        rmap (\<lambda>rate. available rate (Some basis) n None (Some (wins, n))) (quantize4 p))))"

definition amounts_on :: "PnlBasis \<Rightarrow> PositionOutcome list \<Rightarrow> dec list" where
  "amounts_on basis sample = some_of (map (amount_on basis) sample)"

definition gains :: "PositionOutcome list \<Rightarrow> PnlBasis \<Rightarrow> dec list" where
  "gains sample basis = filter (\<lambda>a. dec_less dec_zero a) (amounts_on basis sample)"

definition losings :: "PositionOutcome list \<Rightarrow> PnlBasis \<Rightarrow> dec list" where
  "losings sample basis =
     map (dec_minus default_context) (filter (\<lambda>a. dec_less a dec_zero) (amounts_on basis sample))"

definition mean4 :: "dec list \<Rightarrow> dec res" where
  "mean4 vs = rbind (dec_sum dec_zero vs) (\<lambda>s. quotient4 s (dec_of_int (int (length vs))))"

definition average_of :: "dec list \<Rightarrow> MetricReason \<Rightarrow> PnlBasis \<Rightarrow> Metric res" where
  "average_of vs reason basis =
     (if vs = [] then Inr (unavailable reason (Some basis) 0 None UNAVAILABLE_METRIC)
      else rmap (\<lambda>m. available m (Some basis) (length vs) None None) (mean4 vs))"

definition average_win :: "PositionOutcome list \<Rightarrow> PnlBasis \<Rightarrow> Metric res" where
  "average_win sample basis = average_of (gains sample basis) NoWinner basis"

definition average_loss :: "PositionOutcome list \<Rightarrow> PnlBasis \<Rightarrow> Metric res" where
  "average_loss sample basis = average_of (losings sample basis) NoLoser basis"

definition profit_factor :: "PositionOutcome list \<Rightarrow> PnlBasis \<Rightarrow> Metric res" where
  "profit_factor sample basis =
     (if sample = [] then Inr (unavailable NoCompletedPositions (Some basis) 0 None UNAVAILABLE_METRIC)
      else
        rbind (dec_sum dec_zero (gains sample basis)) (\<lambda>g.
        rbind (dec_sum dec_zero (losings sample basis)) (\<lambda>l.
          if dec_eq l dec_zero
          then Inr (unavailable NoLoser (Some basis) (length sample) None UNAVAILABLE_METRIC)
          else rmap (\<lambda>f. available f (Some basis) (length sample) None None) (quotient4 g l))))"

text \<open>An empty list of amounts divides by \<open>Decimal(0)\<close> and raises.\<close>

definition expectancy :: "PositionOutcome list \<Rightarrow> PnlBasis \<Rightarrow> Metric res" where
  "expectancy sample basis =
     (if sample = [] then Inr (unavailable NoCompletedPositions (Some basis) 0 None UNAVAILABLE_METRIC)
      else rmap (\<lambda>m. available m (Some basis) (length (amounts_on basis sample)) None None)
             (mean4 (amounts_on basis sample)))"

section \<open>Curve, drawdown, streaks\<close>

record TimelinePoint =
  tp_position_id :: string
  tp_terminal_time :: "moment option"
  tp_amount :: dec
  tp_cumulative :: dec

fun timeline_from :: "PnlBasis \<Rightarrow> dec \<Rightarrow> PositionOutcome list \<Rightarrow> TimelinePoint list res" where
  "timeline_from basis running [] = Inr []"
| "timeline_from basis running (r # rs) =
     (case amount_on basis r of
        None \<Rightarrow> timeline_from basis running rs
      | Some a \<Rightarrow>
          rbind (dec_add default_context running a) (\<lambda>total.
          rmap ((#) \<lparr>tp_position_id = oc_position_id r, tp_terminal_time = oc_terminal_time r,
                      tp_amount = a, tp_cumulative = total\<rparr>) (timeline_from basis total rs)))"

definition timeline :: "PositionOutcome list \<Rightarrow> PnlBasis \<Rightarrow> TimelinePoint list res" where
  "timeline sample basis = timeline_from basis dec_zero sample"

text \<open>\<open>max(a, b)\<close> keeps the first of equal values.\<close>

fun drawdown_from :: "dec \<Rightarrow> dec \<Rightarrow> TimelinePoint list \<Rightarrow> dec res" where
  "drawdown_from peak worst [] = Inr worst"
| "drawdown_from peak worst (p # ps) =
     (let peak' = dec_max peak (tp_cumulative p) in
      rbind (dec_sub default_context peak' (tp_cumulative p)) (\<lambda>fall.
        drawdown_from peak' (dec_max worst fall) ps))"

definition max_drawdown_absolute :: "TimelinePoint list \<Rightarrow> PnlBasis \<Rightarrow> Metric res" where
  "max_drawdown_absolute ps basis =
     (if ps = [] then Inr (unavailable NoCompletedPositions (Some basis) 0 None UNAVAILABLE_METRIC)
      else rmap (\<lambda>w. available w (Some basis) (length ps) None None)
             (drawdown_from (tp_cumulative (hd ps)) dec_zero ps))"

record Streaks =
  sk_current_kind :: "Outcome option"
  sk_current_length :: nat
  sk_max_win :: nat
  sk_max_loss :: nat

definition streak_step :: "Streaks \<Rightarrow> Outcome \<Rightarrow> Streaks" where
  "streak_step k x =
     (if x = BREAKEVEN then k\<lparr>sk_current_kind := None, sk_current_length := 0\<rparr>
      else
        let n = (if sk_current_kind k = Some x then sk_current_length k + 1 else 1);
            k1 = k\<lparr>sk_current_kind := Some x, sk_current_length := n\<rparr>
        in if x = WIN then k1\<lparr>sk_max_win := max (sk_max_win k1) n\<rparr>
           else k1\<lparr>sk_max_loss := max (sk_max_loss k1) n\<rparr>)"

definition streaks :: "PositionOutcome list \<Rightarrow> PnlBasis \<Rightarrow> Streaks" where
  "streaks sample basis =
     foldl streak_step
       \<lparr>sk_current_kind = None, sk_current_length = 0, sk_max_win = 0, sk_max_loss = 0\<rparr>
       (some_of (map (outcome_on basis) sample))"

section \<open>Assembly\<close>

record PerformanceSummary =
  su_basis :: PnlBasis
  su_basis_reason :: BasisReason
  su_counts :: PopulationCounts
  su_sample_size :: nat
  su_fill_count :: nat
  su_wins :: nat
  su_losses :: nat
  su_breakevens :: nat
  su_fee_coverage :: Coverage
  su_accounting :: RealizedAccounting
  su_realized_gross :: Metric
  su_fees_known :: Metric
  su_realized_net :: Metric
  su_unrealized_gross_open :: Metric
  su_win_rate :: Metric
  su_average_win :: Metric
  su_average_loss :: Metric
  su_profit_factor :: Metric
  su_expectancy :: Metric
  su_max_drawdown_absolute :: Metric
  su_absent :: "(string \<times> Metric) list"
  su_streaks :: Streaks
  su_timeline :: "TimelinePoint list"

definition unavailable_by_design :: "(string \<times> Metric) list" where
  "unavailable_by_design =
     [(''drawdown_percentage'', unavailable NoCapitalHistory None 0 None UNAVAILABLE_METRIC),
      (''realized_r_expectancy'', unavailable NoRDenominator None 0 None NOT_IMPLEMENTED_METRIC),
      (''mae'', unavailable NoExcursionSemantics None 0 None NOT_IMPLEMENTED_METRIC),
      (''mfe'', unavailable NoExcursionSemantics None 0 None NOT_IMPLEMENTED_METRIC),
      (''sharpe_ratio'', unavailable NoReturnSeries None 0 None NOT_IMPLEMENTED_METRIC),
      (''sortino_ratio'', unavailable NoReturnSeries None 0 None NOT_IMPLEMENTED_METRIC),
      (''annualised_return'', unavailable NoReturnSeries None 0 None NOT_IMPLEMENTED_METRIC)]"

definition summarise ::
  "PositionOutcome list \<Rightarrow> nat \<Rightarrow> moment option \<Rightarrow> moment option \<Rightarrow> PerformanceSummary res" where
  "summarise rs fill_count start stop =
     (let sample = completed rs start stop;
          (basis, reason, c) = choose_basis sample;
          (wins, losses, evens) = classify sample basis
      in rbind (timeline sample basis) (\<lambda>ps.
         rbind (realized_accounting rs start stop) (\<lambda>acc.
         rbind (realized_gross_total sample) (\<lambda>gross.
         rbind (fees_known_total sample) (\<lambda>fees.
         rbind (realized_net_total sample) (\<lambda>net.
         rbind (unrealized_gross_open rs) (\<lambda>opn.
         rbind (win_rate sample basis) (\<lambda>wr.
         rbind (average_win sample basis) (\<lambda>aw.
         rbind (average_loss sample basis) (\<lambda>al.
         rbind (profit_factor sample basis) (\<lambda>pf.
         rbind (expectancy sample basis) (\<lambda>ex.
         rbind (max_drawdown_absolute ps basis) (\<lambda>dd.
           Inr \<lparr>su_basis = basis, su_basis_reason = reason, su_counts = count_populations rs,
                su_sample_size = length sample, su_fill_count = fill_count, su_wins = wins,
                su_losses = losses, su_breakevens = evens, su_fee_coverage = c,
                su_accounting = acc, su_realized_gross = gross, su_fees_known = fees,
                su_realized_net = net, su_unrealized_gross_open = opn, su_win_rate = wr,
                su_average_win = aw, su_average_loss = al, su_profit_factor = pf,
                su_expectancy = ex, su_max_drawdown_absolute = dd,
                su_absent = unavailable_by_design, su_streaks = streaks sample basis,
                su_timeline = ps\<rparr>)))))))))))))"

section \<open>Breakdowns\<close>

record GroupPerformance =
  gp_key :: string
  gp_label :: string
  gp_counts :: PopulationCounts
  gp_sample_size :: nat
  gp_wins :: nat
  gp_losses :: nat
  gp_breakevens :: nat
  gp_realized_gross :: Metric
  gp_realized_net :: Metric
  gp_win_rate :: Metric
  gp_expectancy :: Metric

text \<open>The buckets, in the order their keys first appear.\<close>

fun bucket :: "'k \<Rightarrow> 'a \<Rightarrow> ('k \<times> 'a list) list \<Rightarrow> ('k \<times> 'a list) list" where
  "bucket k x [] = [(k, [x])]"
| "bucket k x ((k', xs) # bs) =
     (if k = k' then (k', xs @ [x]) # bs else (k', xs) # bucket k x bs)"

definition buckets :: "('a \<Rightarrow> 'k) \<Rightarrow> 'a list \<Rightarrow> ('k \<times> 'a list) list" where
  "buckets key_of rs = foldl (\<lambda>bs r. bucket (key_of r) r bs) [] rs"

definition group_row :: "(string \<times> string) \<times> PositionOutcome list \<Rightarrow> GroupPerformance res" where
  "group_row g =
     (case g of ((key, label), members) \<Rightarrow>
       let sample = completed members None None;
           basis = fst (choose_basis sample);
           (wins, losses, evens) = classify sample basis
       in rbind (realized_gross_total sample) (\<lambda>gross.
          rbind (realized_net_total sample) (\<lambda>net.
          rbind (win_rate sample basis) (\<lambda>wr.
          rbind (expectancy sample basis) (\<lambda>ex.
            Inr \<lparr>gp_key = key, gp_label = label, gp_counts = count_populations members,
                 gp_sample_size = length sample, gp_wins = wins, gp_losses = losses,
                 gp_breakevens = evens, gp_realized_gross = gross, gp_realized_net = net,
                 gp_win_rate = wr, gp_expectancy = ex\<rparr>)))))"

definition group_by :: "(PositionOutcome \<Rightarrow> string \<times> string) \<Rightarrow> PositionOutcome list \<Rightarrow> GroupPerformance list res" where
  "group_by key_of rs =
     rmap (sort_key (\<lambda>row. (- int (gp_sample_size row), gp_key row)))
       (traverse group_row (buckets key_of rs))"

definition by_direction :: "PositionOutcome list \<Rightarrow> GroupPerformance list res" where
  "by_direction =
     group_by (\<lambda>r. (direction_value (oc_direction r), direction_value (oc_direction r)))"

definition by_instrument :: "PositionOutcome list \<Rightarrow> GroupPerformance list res" where
  "by_instrument =
     group_by (\<lambda>r. (ii_asset_class (oc_instrument r) @ '':'' @ ii_symbol (oc_instrument r),
                    ii_symbol (oc_instrument r)))"

definition by_timeframe :: "PositionOutcome list \<Rightarrow> GroupPerformance list res" where
  "by_timeframe =
     group_by (\<lambda>r. (timeframe_value (oc_timeframe r), timeframe_value (oc_timeframe r)))"

end
