(* ===== verification/Performance_Props.thy ===== *)
theory Performance_Props
  imports "HOL-Library.Multiset" Performance
begin

text \<open>
  What the performance engine promises: populations that partition the positions, independence of the
  order of rows, streaks equal to the longest runs, an exact curve and drawdown, and breakdowns that
  partition the sample. The references (\<open>longest_run\<close>, \<open>partial_sums\<close>, the pairwise falls) are stated
  without the loops of the code.
\<close>

section \<open>Counting\<close>

lemma tally_count: "tally t rs p = t p + count_list (map oc_population rs) p"
  by (induction rs arbitrary: t) auto

lemma count_all_populations:
  "length rs = sum_list (map (count_list (map oc_population rs))
     [POP_PENDING_ENTRY, POP_OPEN, ENTERED_PARTIALLY_CLOSED, POP_AMBIGUOUS_HALTED, POP_CLOSED,
      POP_CANCELLED, POP_REJECTED])"
proof (induction rs)
  case (Cons r rs)
  then show ?case by (cases "oc_population r") auto
qed simp

lemma counts_partition:
  "pc_entered (count_populations rs) + pc_never_entered (count_populations rs) = length rs"
  using count_all_populations [of rs]
  by (simp add: pc_entered_def pc_never_entered_def count_populations_def Let_def tally_count)

lemma count_populations_closed: "pc_closed (count_populations rs) = length (filter (\<lambda>r. pop_completed (oc_population r)) rs)"
  by (induction rs) (auto simp: count_populations_def Let_def tally_count pop_completed_def)

text \<open>A record whose net is known when its fees are.\<close>

definition well_costed :: "PositionOutcome \<Rightarrow> bool" where
  "well_costed r \<longleftrightarrow> (oc_realized_net r = None \<longleftrightarrow> oc_fees_total r = None)"

lemma basis_computable:
  assumes "\<forall>r\<in>set sample. well_costed r" and "fst (choose_basis sample) = basis"
  shows "\<forall>r\<in>set sample. amount_on basis r \<noteq> None"
proof (cases "basis = REALIZED_NET")
  case True
  then have "length (filter oc_fees_modelled sample) = length sample"
    using assms(2) by (auto simp: choose_basis_def Let_def cov_complete_def fee_coverage_def split: if_splits)
  then have "\<forall>r\<in>set sample. oc_fees_modelled r"
    by (metis filter_True filter_id_conv length_filter_less nat_neq_iff)
  then show ?thesis
    using assms(1) True by (auto simp: amount_on_def well_costed_def oc_fees_modelled_def)
next
  case False
  then have "basis = REALIZED_GROSS" by (cases basis) simp_all
  then show ?thesis by (simp add: amount_on_def)
qed

lemma classify_partition:
  assumes "\<forall>r\<in>set sample. amount_on basis r \<noteq> None"
  shows "(case classify sample basis of (w, l, b) \<Rightarrow> w + l + b) = length sample"
  using assms
proof (induction sample)
  case (Cons r rs)
  then obtain a where "amount_on basis r = Some a" by auto
  then show ?case
    using Cons by (cases "outcome_of a") (auto simp: classify_def Let_def outcome_on_def)
qed (simp add: classify_def Let_def)

section \<open>Order\<close>

lemma order_key_inj:
  assumes "distinct (map oc_position_id rs)"
  shows "inj_on order_key (set rs)"
  using assms by (auto simp: inj_on_def order_key_def distinct_map)

lemma completed_permuted:
  assumes "mset rs = mset rs'" and "distinct (map oc_position_id rs)"
  shows "completed rs start stop = completed rs' start stop"
proof -
  let ?f = "filter (chosen start stop)"
  have "inj_on order_key (set (?f rs))"
    using order_key_inj [OF assms(2)] by (rule inj_on_subset) auto
  moreover have "mset (?f rs) = mset (?f rs')" using assms(1) by (metis mset_filter)
  ultimately show ?thesis
    unfolding completed_def by (intro sort_key_inj_key_eq) simp_all
qed


section \<open>Streaks\<close>

text \<open>The longest run of one outcome, as a reference: the longest block of the list that consists of it.\<close>

definition has_run :: "Outcome list \<Rightarrow> Outcome \<Rightarrow> nat \<Rightarrow> bool" where
  "has_run os x n \<longleftrightarrow> (\<exists>as bs. os = as @ replicate n x @ bs)"

definition longest_run :: "Outcome list \<Rightarrow> Outcome \<Rightarrow> nat \<Rightarrow> bool" where
  "longest_run os x n \<longleftrightarrow> has_run os x n \<and> (\<forall>m. has_run os x m \<longrightarrow> m \<le> n)"

text \<open>The run a list ends with.\<close>

definition final_run :: "Outcome \<Rightarrow> Outcome list \<Rightarrow> nat" where
  "final_run x os = length (takeWhile (\<lambda>y. y = x) (rev os))"

lemma final_run_snoc: "final_run x (os @ [y]) = (if y = x then Suc (final_run x os) else 0)"
  by (simp add: final_run_def)

lemma final_run_block: "\<exists>as. os = as @ replicate (final_run x os) x"
proof -
  let ?t = "takeWhile (\<lambda>y. y = x) (rev os)"
  have "?t = replicate (length ?t) x" by (auto simp: list_eq_iff_nth_eq dest: nth_mem set_takeWhileD)
  moreover have "rev os = ?t @ dropWhile (\<lambda>y. y = x) (rev os)" by simp
  ultimately have "os = rev (dropWhile (\<lambda>y. y = x) (rev os)) @ replicate (final_run x os) x"
    unfolding final_run_def by (metis rev_append rev_replicate rev_rev_ident)
  then show ?thesis by blast
qed

lemma block_final_run: "os = as @ replicate m x \<Longrightarrow> m \<le> final_run x os"
  by (simp add: final_run_def takeWhile_append)

lemma has_run_snoc:
  "has_run (os @ [y]) x m \<longleftrightarrow> has_run os x m \<or> (y = x \<and> m \<le> Suc (final_run x os))"
proof
  assume "has_run (os @ [y]) x m"
  then obtain as bs where ab: "os @ [y] = as @ replicate m x @ bs" by (auto simp: has_run_def)
  show "has_run os x m \<or> (y = x \<and> m \<le> Suc (final_run x os))"
  proof (cases bs rule: rev_cases)
    case Nil
    show ?thesis
    proof (cases m)
      case (Suc k)
      then have "os @ [y] = (as @ replicate k x) @ [x]" using ab Nil by (simp add: replicate_append_same)
      then show ?thesis using block_final_run [of os as k x] Suc by simp
    qed (auto simp: has_run_def)
  next
    case (snoc bs' z)
    then have "os = as @ replicate m x @ bs'" using ab by (metis append.assoc butlast_snoc)
    then show ?thesis by (auto simp: has_run_def)
  qed
next
  assume "has_run os x m \<or> (y = x \<and> m \<le> Suc (final_run x os))"
  then show "has_run (os @ [y]) x m"
  proof
    assume "has_run os x m"
    then obtain as bs where "os = as @ replicate m x @ bs" by (auto simp: has_run_def)
    then have "os @ [y] = as @ replicate m x @ (bs @ [y])" by simp
    then show ?thesis unfolding has_run_def by blast
  next
    assume y: "y = x \<and> m \<le> Suc (final_run x os)"
    obtain as where as: "os = as @ replicate (final_run x os) x" using final_run_block by blast
    have "os @ [y] = as @ replicate (Suc (final_run x os)) x"
      using y by (subst as) (simp add: replicate_append_same)
    also have "\<dots> = (as @ replicate (Suc (final_run x os) - m) x) @ replicate m x @ []"
      using y by (simp add: replicate_add [symmetric])
    finally show ?thesis unfolding has_run_def by blast
  qed
qed

lemma longest_run_snoc:
  assumes "longest_run os x n"
  shows "longest_run (os @ [y]) x (if y = x then max n (Suc (final_run x os)) else n)"
  using assms by (auto simp: longest_run_def has_run_snoc max_def)

text \<open>The state of the loop says the run the outcomes end with and the longest ones so far.\<close>

definition streaks_ok :: "Outcome list \<Rightarrow> Streaks \<Rightarrow> bool" where
  "streaks_ok os k \<longleftrightarrow>
     longest_run os WIN (sk_max_win k) \<and> longest_run os LOSS (sk_max_loss k)
     \<and> (case sk_current_kind k of
          None \<Rightarrow> sk_current_length k = 0 \<and> final_run WIN os = 0 \<and> final_run LOSS os = 0
        | Some x \<Rightarrow> x \<noteq> BREAKEVEN \<and> sk_current_length k = final_run x os \<and> 0 < final_run x os)"

lemma final_run_exclusive: "0 < final_run x os \<Longrightarrow> x \<noteq> y \<Longrightarrow> final_run y os = 0"
  by (cases os rule: rev_cases) (auto simp: final_run_snoc final_run_def)

lemma streak_step_ok: "streaks_ok os k \<Longrightarrow> streaks_ok (os @ [x]) (streak_step k x)"
  using longest_run_snoc [of os WIN _ x] longest_run_snoc [of os LOSS _ x]
  by (cases x) (auto simp: streaks_ok_def streak_step_def Let_def final_run_snoc
      dest: final_run_exclusive split: option.splits if_splits)

lemma streaks_fold_ok:
  "streaks_ok os k \<Longrightarrow> streaks_ok (os @ xs) (foldl streak_step k xs)"
proof (induction xs arbitrary: os k)
  case (Cons x xs)
  show ?case using Cons.IH [OF streak_step_ok [OF Cons.prems]] by simp
qed simp

lemma streaks_sound: "streaks_ok (some_of (map (outcome_on basis) sample)) (streaks sample basis)"
proof -
  have "longest_run [] x 0" for x by (simp add: longest_run_def has_run_def)
  then have "streaks_ok [] \<lparr>sk_current_kind = None, sk_current_length = 0, sk_max_win = 0, sk_max_loss = 0\<rparr>"
    by (simp add: streaks_ok_def final_run_def)
  from streaks_fold_ok [OF this, of "some_of (map (outcome_on basis) sample)"]
  show ?thesis by (simp add: streaks_def)
qed

section \<open>Amounts that are added exactly\<close>

text \<open>At most eight decimal places and a magnitude below a bound: no sum or difference of such
  amounts is rounded as long as the bound stays under \<open>10 ^ 20\<close>.\<close>

definition money :: "rat \<Rightarrow> dec \<Rightarrow> bool" where
  "money n a \<longleftrightarrow> (case a of DFin s c e \<Rightarrow> - 8 \<le> e \<and> e \<le> 0 \<and> \<bar>dval a\<bar> \<le> n | _ \<Rightarrow> False)"

lemma money_finite: "money n a \<Longrightarrow> is_finite a"
  by (cases a) (simp_all add: money_def)

lemma money_mono: "money n a \<Longrightarrow> n \<le> m \<Longrightarrow> money m a"
  by (cases a) (auto simp: money_def)

lemma money_add:
  assumes "money n a" and "money m b" and "n + m < 10 ^ 20"
  shows "\<exists>d. dec_add default_context a b = Inr d \<and> money (n + m) d \<and> dval d = dval a + dval b"
proof -
  obtain s c e s' c' e' where ab: "a = DFin s c e" "b = DFin s' c' e'"
    and e: "- 8 \<le> e" "e \<le> 0" "- 8 \<le> e'" "e' \<le> 0"
    and v: "\<bar>dval a\<bar> \<le> n" "\<bar>dval b\<bar> \<le> m"
    using assms(1,2) by (auto simp: money_def split: dec.splits)
  define g where "g = min e e'"
  define t where "t = scaled s c e g + scaled s' c' e' g"
  have g: "- 8 \<le> g" "g \<le> 0" using e by (auto simp: g_def)
  have sum: "dval a + dval b = of_int t * 10 powi g"
    unfolding ab t_def g_def by (rule dval_sum_scaled)
  have p: "(10::rat) powi g = 1 / 10 ^ nat (- g)"
    using g by (simp add: power_int_def inverse_eq_divide power_one_over)
  have "(10::rat) ^ nat (- g) \<le> 10 ^ 8" using g by (intro power_increasing) auto
  have "\<bar>of_int t :: rat\<bar> = \<bar>dval a + dval b\<bar> * 10 ^ nat (- g)"
    by (simp add: sum p abs_mult)
  also have "\<dots> \<le> (n + m) * 10 ^ nat (- g)"
    using v by (intro mult_right_mono) auto
  also have "\<dots> \<le> (n + m) * 10 ^ 8"
    using v \<open>(10::rat) ^ nat (- g) \<le> 10 ^ 8\<close> by (intro mult_left_mono) auto
  also have "\<dots> < 10 ^ 20 * 10 ^ 8" using assms(3) by simp
  finally have "\<bar>of_int t :: rat\<bar> < of_int (10 ^ 28)" by simp
  then have "\<bar>t\<bar> < 10 ^ 28" by (simp only: of_int_abs [symmetric] of_int_less_iff)
  then have t: "ndigits (nat \<bar>t\<bar>) \<le> 28" by (simp add: ndigits_le_iff nat_less_iff)
  obtain sg where d: "dec_add default_context a b = Inr (DFin sg (nat \<bar>t\<bar>) g)"
    and sg: "t \<noteq> 0 \<Longrightarrow> sg = (t < 0)"
    using t by (auto simp: ab fin_add_def Let_def dec_fix_exact default_context_def g_def [symmetric] t_def [symmetric])
  have "dval (DFin sg (nat \<bar>t\<bar>) g) = of_int t * 10 powi g"
    using sg by (cases "t = 0") (auto simp: signed_def)
  then have "dval (DFin sg (nat \<bar>t\<bar>) g) = dval a + dval b" by (simp add: sum)
  moreover have "money (n + m) (DFin sg (nat \<bar>t\<bar>) g)"
    using g v calculation unfolding money_def by (auto simp del: dval.simps)
  ultimately show ?thesis using d by blast
qed

lemma money_sub:
  assumes "money n a" and "money m b" and "n + m < 10 ^ 20"
  shows "\<exists>d. dec_sub default_context a b = Inr d \<and> money (n + m) d \<and> dval d = dval a - dval b"
proof -
  have neg: "dval (dec_neg b) = - dval b"
    by (cases b) (auto simp: signed_def)
  have "money m (dec_neg b)"
    using assms(2) neg by (cases b) (auto simp: money_def simp del: dval.simps)
  from money_add [OF assms(1) this assms(3)] show ?thesis by (simp add: dec_sub_def neg)
qed

text \<open>The curve is the curve of partial sums.\<close>

fun partial_sums :: "rat \<Rightarrow> rat list \<Rightarrow> rat list" where
  "partial_sums s [] = []"
| "partial_sums s (v # vs) = (s + v) # partial_sums (s + v) vs"

lemma timeline_sums:
  assumes "\<forall>a\<in>set (amounts_on basis sample). money B a" and "money n running"
    and "n + B * of_nat (length (amounts_on basis sample)) < 10 ^ 20"
  shows "\<exists>ps. timeline_from basis running sample = Inr ps
    \<and> map (\<lambda>p. dval (tp_cumulative p)) ps = partial_sums (dval running) (map dval (amounts_on basis sample))
    \<and> (\<forall>p\<in>set ps. money (n + B * of_nat (length (amounts_on basis sample))) (tp_cumulative p))"
  using assms
proof (induction sample arbitrary: running n)
  case (Cons r rs)
  show ?case
  proof (cases "amount_on basis r")
    case None
    then show ?thesis using Cons by (auto simp: amounts_on_def some_of_def map_filter_simps)
  next
    case (Some a)
    have am: "amounts_on basis (r # rs) = a # amounts_on basis rs"
      by (simp add: amounts_on_def some_of_def map_filter_simps Some)
    have B: "money B a" "0 \<le> B" using Cons.prems(1) am by (auto simp: money_def split: dec.splits)
    have nonneg: "0 \<le> B * of_nat (length (amounts_on basis rs))" using B by simp
    have split: "n + B * of_nat (length (amounts_on basis (r # rs))) =
        (n + B) + B * of_nat (length (amounts_on basis rs))"
      by (simp add: am algebra_simps)
    obtain d where d: "dec_add default_context running a = Inr d" "money (n + B) d"
      "dval d = dval running + dval a"
      using money_add [OF Cons.prems(2) B(1)] Cons.prems(3) split nonneg by auto
    obtain ps where ps: "timeline_from basis d rs = Inr ps"
      "map (\<lambda>p. dval (tp_cumulative p)) ps = partial_sums (dval d) (map dval (amounts_on basis rs))"
      "\<forall>p\<in>set ps. money (n + B + B * of_nat (length (amounts_on basis rs))) (tp_cumulative p)"
      using Cons.IH [OF _ d(2)] Cons.prems(1,3) split am by auto
    have "money (n + B + B * of_nat (length (amounts_on basis rs))) d"
      using money_mono [OF d(2)] nonneg by simp
    then show ?thesis
      using ps d Some unfolding split by (auto simp: am rmap_def)
  qed
qed (auto simp: amounts_on_def some_of_def map_filter_simps)

text \<open>The drawdown is the largest fall from an earlier (or the same) point.\<close>

lemma drawdown_sound:
  assumes "\<forall>p\<in>set ps. money B (tp_cumulative p)" and "money B peak" and "is_finite worst" and "B + B < 10 ^ 20"
    and "0 \<le> dval worst"
  shows "\<exists>w. drawdown_from peak worst ps = Inr w \<and> is_finite w
    \<and> dval worst \<le> dval w
    \<and> (\<forall>j<length ps. dval peak - dval (tp_cumulative (ps ! j)) \<le> dval w)
    \<and> (\<forall>j<length ps. \<forall>i\<le>j. dval (tp_cumulative (ps ! i)) - dval (tp_cumulative (ps ! j)) \<le> dval w)
    \<and> (dval w = dval worst \<or> (\<exists>j<length ps. dval w = dval peak - dval (tp_cumulative (ps ! j))
         \<or> (\<exists>i\<le>j. dval w = dval (tp_cumulative (ps ! i)) - dval (tp_cumulative (ps ! j)))))"
  using assms
proof (induction ps arbitrary: peak worst)
  case (Cons p ps)
  let ?c = "tp_cumulative p"
  have c: "money B ?c" using Cons.prems(1) by simp
  define peak' where "peak' = dec_max peak ?c"
  have pk: "money B peak'" "dval peak' = max (dval peak) (dval ?c)"
    using c Cons.prems(2) dval_max [OF money_finite [OF Cons.prems(2)] money_finite [OF c]]
    by (auto simp: peak'_def dec_max_def)
  obtain f where f: "dec_sub default_context peak' ?c = Inr f" "money (B + B) f" "dval f = dval peak' - dval ?c"
    using money_sub [OF pk(1) c Cons.prems(4)] by blast
  define worst' where "worst' = dec_max worst f"
  have w': "is_finite worst'" "dval worst' = max (dval worst) (dval f)"
    using Cons.prems(3) money_finite [OF f(2)] dval_max [of worst f] dec_max_finite
    by (auto simp: worst'_def)
  have tail: "\<forall>p\<in>set ps. money B (tp_cumulative p)" "0 \<le> dval worst'"
    using Cons.prems(1,5) w'(2) by auto
  from Cons.IH [OF tail(1) pk(1) w'(1) Cons.prems(4) tail(2)]
  obtain w where w: "drawdown_from peak' worst' ps = Inr w" "is_finite w" "dval worst' \<le> dval w"
     and w4: "\<forall>j<length ps. dval peak' - dval (tp_cumulative (ps ! j)) \<le> dval w"
     and w5: "\<forall>j<length ps. \<forall>i\<le>j.
        dval (tp_cumulative (ps ! i)) - dval (tp_cumulative (ps ! j)) \<le> dval w"
     and att: "dval w = dval worst' \<or> (\<exists>j<length ps. dval w = dval peak' - dval (tp_cumulative (ps ! j))
         \<or> (\<exists>i\<le>j. dval w = dval (tp_cumulative (ps ! i)) - dval (tp_cumulative (ps ! j))))"
    by blast
  have run: "drawdown_from peak worst (p # ps) = Inr w"
    using f w(1) by (simp add: peak'_def [symmetric] worst'_def [symmetric] Let_def)
  have le: "dval worst \<le> dval w" "dval peak - dval ?c \<le> dval w" "0 \<le> dval w"
    using w(3) w'(2) f(3) pk(2) Cons.prems(5) by auto
  have peak: "dval peak - dval (tp_cumulative ((p # ps) ! j)) \<le> dval w" if "j < length (p # ps)" for j
    using that le w4 [rule_format, of "j - 1"] pk(2) by (cases j) auto
  have pair: "dval (tp_cumulative ((p # ps) ! i)) - dval (tp_cumulative ((p # ps) ! j)) \<le> dval w"
    if "j < length (p # ps)" "i \<le> j" for i j
  proof (cases j)
    case 0
    then show ?thesis using that le by simp
  next
    case (Suc k)
    show ?thesis
      using that Suc w4 [rule_format, of k] w5 [rule_format, of k "i - 1"] pk(2) by (cases i) auto
  qed
  have attained: "dval w = dval worst \<or> (\<exists>j<length (p # ps).
      dval w = dval peak - dval (tp_cumulative ((p # ps) ! j))
      \<or> (\<exists>i\<le>j. dval w = dval (tp_cumulative ((p # ps) ! i)) - dval (tp_cumulative ((p # ps) ! j))))"
    using att
  proof (elim disjE exE conjE)
    assume "dval w = dval worst'"
    then consider "dval w = dval worst" | "dval w = dval peak - dval ?c" | "dval w = dval ?c - dval ?c"
      using w'(2) f(3) pk(2) by (auto simp: max_def split: if_splits)
    then show ?thesis by cases force+
  next
    fix j assume j: "j < length ps" "dval w = dval peak' - dval (tp_cumulative (ps ! j))"
    then consider "dval w = dval peak - dval (tp_cumulative ((p # ps) ! Suc j))"
      | "dval w = dval (tp_cumulative ((p # ps) ! 0)) - dval (tp_cumulative ((p # ps) ! Suc j))"
      using pk(2) by (auto simp: max_def split: if_splits)
    then show ?thesis using j(1) by cases (intro disjI2 exI [of _ "Suc j"], force)+
  next
    fix j i assume "j < length ps" "i \<le> j"
      "dval w = dval (tp_cumulative (ps ! i)) - dval (tp_cumulative (ps ! j))"
    then have "Suc j < length (p # ps)" "Suc i \<le> Suc j" "dval w =
        dval (tp_cumulative ((p # ps) ! Suc i)) - dval (tp_cumulative ((p # ps) ! Suc j))" by simp_all
    then show ?thesis by blast
  qed
  show ?case using run w(2) le peak pair attained by blast
qed simp

section \<open>Buckets\<close>

definition buckets_ok :: "('a \<Rightarrow> 'k) \<Rightarrow> 'a list \<Rightarrow> ('k \<times> 'a list) list \<Rightarrow> bool" where
  "buckets_ok f rs bs \<longleftrightarrow> distinct (map fst bs) \<and> mset (concat (map snd bs)) = mset rs
     \<and> (\<forall>(k, xs)\<in>set bs. xs \<noteq> [] \<and> (\<forall>x\<in>set xs. f x = k))"

lemma bucket_keys: "fst ` set (bucket k x bs) = insert k (fst ` set bs)"
  by (induction k x bs rule: bucket.induct) auto

lemma bucket_ok:
  "buckets_ok f rs bs \<Longrightarrow> buckets_ok f (rs @ [x]) (bucket (f x) x bs)"
proof (induction bs arbitrary: rs)
  case Nil
  then show ?case by (simp add: buckets_ok_def)
next
  case (Cons b bs)
  obtain k xs where b: "b = (k, xs)" by (cases b)
  define rest where "rest = concat (map snd bs)"
  have tail: "buckets_ok f rest bs" using Cons.prems by (auto simp: buckets_ok_def b rest_def)
  show ?case
  proof (cases "f x = k")
    case True
    then show ?thesis using Cons.prems by (auto simp: buckets_ok_def b)
  next
    case False
    have "k \<notin> fst ` set (bucket (f x) x bs)"
      using Cons.prems False by (auto simp: bucket_keys buckets_ok_def b)
    then show ?thesis
      using Cons.IH [OF tail] Cons.prems False
      by (auto simp: buckets_ok_def b rest_def)
  qed
qed

lemma buckets_partition: "buckets_ok f rs (buckets f rs)"
proof -
  have "buckets_ok f (ys @ rs) (foldl (\<lambda>bs r. bucket (f r) r bs) bs rs)" if "buckets_ok f ys bs" for ys bs
    using that
  proof (induction rs arbitrary: ys bs)
    case (Cons r rs)
    show ?case using Cons.IH [OF bucket_ok [OF Cons.prems, of r]] by simp
  qed simp
  from this [of "[]" "[]"] show ?thesis by (simp add: buckets_def buckets_ok_def)
qed

lemma group_row_size:
  "group_row g = Inr row \<Longrightarrow> gp_sample_size row = length (completed (snd g) None None)
     \<and> gp_key row = fst (fst g)"
  by (auto simp: group_row_def Let_def res_simps split: prod.splits)

section \<open>Properties\<close>

definition sample_outcome :: "string \<Rightarrow> Population \<Rightarrow> int \<Rightarrow> dec \<Rightarrow> PositionOutcome" where
  "sample_outcome i pop t a =
     \<lparr>oc_position_id = i, oc_instrument = \<lparr>ii_symbol = ''X'', ii_asset_class = ''FUTURES''\<rparr>,
      oc_direction = LONG, oc_timeframe = M15, oc_quantity = 1, oc_population = pop,
      oc_realized_gross = a, oc_fees_total = Some dec_zero, oc_realized_net = Some a,
      oc_unrealized_gross = None, oc_fee_mode = ''USER_DEFINED_PER_UNIT'', oc_decision_time = Aware 0 0,
      oc_entry_time = Some (Aware 0 0), oc_terminal_time = Some (Aware t 0), oc_fills = [],
      oc_source = ''PAPER_SIMULATION''\<rparr>"

definition sample_outcomes :: "PositionOutcome list" where
  "sample_outcomes =
     [sample_outcome ''b'' POP_CLOSED 1 (DFin False 5 0), sample_outcome ''a'' POP_CLOSED 0 (DFin False 7 0),
      sample_outcome ''c'' POP_CLOSED 2 (DFin True 9 0), sample_outcome ''d'' POP_CANCELLED 2 dec_zero]"

text \<open>
  C28: one position is one trade. Every position is counted in exactly one population, and entered
  plus never entered make the total. The sample of every statistic is the CLOSED positions, each
  once; on the basis that is chosen, wins, losses and breakevens add up to the sample: nothing is
  dropped and nothing counted twice.
\<close>

theorem one_position_one_trade:
  assumes "\<forall>r\<in>set rs. well_costed r"
  shows "pc_entered (count_populations rs) + pc_never_entered (count_populations rs) = length rs
    \<and> mset (completed rs None None) = filter_mset (\<lambda>r. pop_completed (oc_population r)) (mset rs)
    \<and> pc_closed (count_populations rs) = length (completed rs None None)
    \<and> (case classify (completed rs start stop) (fst (choose_basis (completed rs start stop))) of
        (wins, losses, evens) \<Rightarrow> wins + losses + evens = length (completed rs start stop))"
proof -
  have none: "chosen None None = (\<lambda>r. pop_completed (oc_population r))"
    by (auto simp: chosen_def in_window_def fun_eq_iff split: option.splits)
  have "\<forall>r\<in>set (completed rs start stop). well_costed r"
    using assms by (auto simp: completed_def)
  from classify_partition [OF basis_computable [OF this refl]]
  show ?thesis
    using counts_partition [of rs] count_populations_closed [of rs]
    by (auto simp: completed_def none)
qed

theorem one_position_one_trade_witness:
  "length (completed sample_outcomes None None) = 3
   \<and> (case classify (completed sample_outcomes None None) REALIZED_NET of
        (w, l, e) \<Rightarrow> w + l + e = 3)"
proof -
  have "\<forall>r\<in>set sample_outcomes. well_costed r"
    by (simp add: sample_outcomes_def sample_outcome_def well_costed_def)
  note t = one_position_one_trade [OF this, of None None]
  have n: "length (completed sample_outcomes None None) = 3"
    by (simp add: completed_def sample_outcomes_def sample_outcome_def chosen_def pop_completed_def
        in_window_def)
  have "\<forall>r\<in>set (completed sample_outcomes None None). oc_fees_modelled r"
    by (auto simp: completed_def sample_outcomes_def sample_outcome_def oc_fees_modelled_def)
  then have "fst (choose_basis (completed sample_outcomes None None)) = REALIZED_NET"
    using n by (simp add: choose_basis_def fee_coverage_def cov_empty_def cov_complete_def Let_def)
  then show ?thesis using t n by simp
qed

text \<open>
  C29: the order of the rows does not matter. Two lists with the same positions, in any order, give
  the same populations, the same basis and the same sample in the same order, and so the same value
  of every statistic computed from it, the curve, the drawdown and the streaks included.
\<close>

theorem row_order_is_irrelevant:
  assumes "mset rs = mset rs'" and "distinct (map oc_position_id rs)"
  shows "completed rs start stop = completed rs' start stop
    \<and> count_populations rs = count_populations rs'
    \<and> (\<forall>basis. timeline (completed rs start stop) basis = timeline (completed rs' start stop) basis
        \<and> streaks (completed rs start stop) basis = streaks (completed rs' start stop) basis
        \<and> expectancy (completed rs start stop) basis = expectancy (completed rs' start stop) basis)"
proof -
  have "completed rs start stop = completed rs' start stop" by (rule completed_permuted [OF assms])
  moreover have "count_list (map oc_population rs) p = count_list (map oc_population rs') p" for p
    using assms(1) by (metis count_mset mset_map)
  then have "count_populations rs = count_populations rs'"
    using arg_cong [OF assms(1), of size] by (simp add: count_populations_def Let_def tally_count)
  ultimately show ?thesis by simp
qed

theorem row_order_is_irrelevant_witness:
  "completed (rev sample_outcomes) None None = completed sample_outcomes None None"
proof -
  have "mset (rev sample_outcomes) = mset sample_outcomes"
    "distinct (map oc_position_id (rev sample_outcomes))"
    by (simp_all add: sample_outcomes_def sample_outcome_def)
  from row_order_is_irrelevant [OF this] show ?thesis by simp
qed

text \<open>
  C30: streaks are the longest runs. The reported winning and losing streaks are the lengths of the
  longest blocks of consecutive wins and of consecutive losses in closing order; the current streak
  is the run the sample ends with, and a breakeven ends both kinds.
\<close>

theorem streaks_are_longest_runs:
  "longest_run (some_of (map (outcome_on basis) sample)) WIN (sk_max_win (streaks sample basis))
   \<and> longest_run (some_of (map (outcome_on basis) sample)) LOSS (sk_max_loss (streaks sample basis))
   \<and> (case sk_current_kind (streaks sample basis) of
        None \<Rightarrow> sk_current_length (streaks sample basis) = 0
          \<and> (\<forall>x. x \<noteq> BREAKEVEN \<longrightarrow> final_run x (some_of (map (outcome_on basis) sample)) = 0)
      | Some x \<Rightarrow> x \<noteq> BREAKEVEN
          \<and> sk_current_length (streaks sample basis) = final_run x (some_of (map (outcome_on basis) sample)))"
  using streaks_sound [of basis sample] unfolding streaks_ok_def
  by (auto split: option.splits) (metis Outcome.exhaust)+

theorem streaks_are_longest_runs_witness:
  "longest_run [WIN, WIN, LOSS] WIN
     (sk_max_win (streaks [sample_outcome ''a'' POP_CLOSED 0 (DFin False 7 0),
        sample_outcome ''b'' POP_CLOSED 1 (DFin False 1 0), sample_outcome ''c'' POP_CLOSED 2 (DFin True 9 0)]
        REALIZED_NET))"
proof -
  let ?s = "[sample_outcome ''a'' POP_CLOSED 0 (DFin False 7 0),
        sample_outcome ''b'' POP_CLOSED 1 (DFin False 1 0), sample_outcome ''c'' POP_CLOSED 2 (DFin True 9 0)]"
  have "some_of (map (outcome_on REALIZED_NET) ?s) = [WIN, WIN, LOSS]"
    by (simp add: some_of_def map_filter_simps outcome_on_def amount_on_def sample_outcome_def
        outcome_of_def dec_zero_def scaled_def signed_def)
  then show ?thesis using streaks_are_longest_runs [of REALIZED_NET ?s] by simp
qed

text \<open>
  C31: the curve and its drawdown are exact. For amounts with at most eight decimal places and small
  enough that a sum of all of them stays below \<open>10 ^ 20 / 2\<close>, the curve is returned and is the list of
  partial sums of the amounts, and the reported drawdown is the largest fall from a point of the curve
  to the same or a later one: no fall exceeds it, and some fall attains it.
\<close>

theorem drawdown_is_largest_fall:
  assumes "\<forall>a\<in>set (amounts_on basis sample). money B a" and "0 \<le> B" and "amounts_on basis sample \<noteq> []"
    and "2 * (B * of_nat (length (amounts_on basis sample))) < 10 ^ 20"
  shows "\<exists>ps m w. timeline sample basis = Inr ps
    \<and> map (\<lambda>p. dval (tp_cumulative p)) ps = partial_sums 0 (map dval (amounts_on basis sample))
    \<and> max_drawdown_absolute ps basis = Inr m \<and> mt_value m = Some w
    \<and> (\<forall>j<length ps. \<forall>i\<le>j. dval (tp_cumulative (ps ! i)) - dval (tp_cumulative (ps ! j)) \<le> dval w)
    \<and> (\<exists>j<length ps. \<exists>i\<le>j. dval w = dval (tp_cumulative (ps ! i)) - dval (tp_cumulative (ps ! j)))"
proof -
  let ?n = "B * of_nat (length (amounts_on basis sample))"
  have n: "0 \<le> ?n" using assms(2) by simp
  have zero: "money 0 dec_zero" by (simp add: money_def dec_zero_def signed_def)
  obtain ps where ps: "timeline sample basis = Inr ps"
    and sums: "map (\<lambda>p. dval (tp_cumulative p)) ps = partial_sums 0 (map dval (amounts_on basis sample))"
    and bound: "\<forall>p\<in>set ps. money ?n (tp_cumulative p)"
    using timeline_sums [OF assms(1) zero] assms(4) n by (auto simp: timeline_def)
  have len: "length (partial_sums s vs) = length vs" for s vs by (induction vs arbitrary: s) auto
  have ne: "ps \<noteq> []" using arg_cong [OF sums, of length] assms(3) by (auto simp: len)
  then have hd: "money ?n (tp_cumulative (hd ps))" using bound by simp
  have two: "?n + ?n < 10 ^ 20" using assms(4) by simp
  have dz: "is_finite dec_zero" "0 \<le> dval dec_zero" by simp_all
  obtain w where w: "drawdown_from (tp_cumulative (hd ps)) dec_zero ps = Inr w"
     and le: "\<forall>j<length ps. \<forall>i\<le>j. dval (tp_cumulative (ps ! i)) - dval (tp_cumulative (ps ! j)) \<le> dval w"
     and att: "dval w = dval dec_zero \<or> (\<exists>j<length ps.
        dval w = dval (tp_cumulative (hd ps)) - dval (tp_cumulative (ps ! j))
         \<or> (\<exists>i\<le>j. dval w = dval (tp_cumulative (ps ! i)) - dval (tp_cumulative (ps ! j))))"
    using drawdown_sound [OF bound hd dz(1) two dz(2)] by blast
  have "\<exists>j<length ps. \<exists>i\<le>j. dval w = dval (tp_cumulative (ps ! i)) - dval (tp_cumulative (ps ! j))"
    using att
  proof (elim disjE exE conjE)
    assume "dval w = dval dec_zero"
    then show ?thesis using ne by (intro exI [of _ 0]) auto
  next
    fix j assume "j < length ps" "dval w = dval (tp_cumulative (hd ps)) - dval (tp_cumulative (ps ! j))"
    then show ?thesis using ne by (intro exI [of _ j]) (auto simp: hd_conv_nth)
  qed blast
  then show ?thesis using ps sums w le ne by (auto simp: max_drawdown_absolute_def available_def)
qed

theorem drawdown_is_largest_fall_witness:
  "\<exists>ps m w. timeline [sample_outcome ''a'' POP_CLOSED 0 (DFin False 7 0),
       sample_outcome ''b'' POP_CLOSED 1 (DFin True 9 0)] REALIZED_NET = Inr ps
     \<and> max_drawdown_absolute ps REALIZED_NET = Inr m \<and> mt_value m = Some w
     \<and> (\<exists>j<length ps. \<exists>i\<le>j. dval w = dval (tp_cumulative (ps ! i)) - dval (tp_cumulative (ps ! j)))"
proof -
  let ?s = "[sample_outcome ''a'' POP_CLOSED 0 (DFin False 7 0), sample_outcome ''b'' POP_CLOSED 1 (DFin True 9 0)]"
  have am: "amounts_on REALIZED_NET ?s = [DFin False 7 0, DFin True 9 0]"
    by (simp add: amounts_on_def some_of_def map_filter_simps amount_on_def sample_outcome_def)
  have "\<forall>a\<in>set (amounts_on REALIZED_NET ?s). money 9 a"
    by (simp add: am money_def signed_def)
  from drawdown_is_largest_fall [OF this] show ?thesis by (simp add: am) blast
qed

text \<open>
  C32: a breakdown is a partition. However positions are grouped, every one of them is in exactly one
  row: the sample sizes of the rows add up to the sample size of the whole selection, and each row is
  computed from the positions with its key.
\<close>

theorem groups_partition_the_sample:
  assumes "group_by key_of rs = Inr rows"
  shows "sum_list (map gp_sample_size rows) = length (completed rs None None)
    \<and> mset (concat (map snd (buckets key_of rs))) = mset rs
    \<and> (\<forall>(k, members)\<in>set (buckets key_of rs). \<forall>r\<in>set members. key_of r = k)
    \<and> length rows = length (buckets key_of rs) \<and> distinct (map fst (buckets key_of rs))"
proof -
  let ?bs = "buckets key_of rs"
  have ok: "buckets_ok key_of rs ?bs" by (rule buckets_partition)
  obtain rows0 where r0: "traverse group_row ?bs = Inr rows0"
    and rows: "rows = sort_key (\<lambda>row. (- int (gp_sample_size row), gp_key row)) rows0"
    using assms by (auto simp: group_by_def res_simps)
  have all: "list_all2 (\<lambda>b row. group_row b = Inr row) ?bs rows0" using r0 by (simp add: traverse_Inr)
  have sizes: "map gp_sample_size rows0 = map (\<lambda>b. length (completed (snd b) None None)) ?bs"
    using all by (induction rule: list_all2_induct) (auto dest: group_row_size)
  have len: "length (completed xs None None) = size (filter_mset (chosen None None) (mset xs))" for xs
    by (simp add: completed_def flip: size_mset mset_filter)
  have "sum_list (map (\<lambda>b. size (filter_mset (chosen None None) (mset (snd b)))) bs) =
      size (filter_mset (chosen None None) (mset (concat (map snd bs))))" for bs :: "((string \<times> string) \<times> PositionOutcome list) list"
    by (induction bs) auto
  from this [of ?bs] have "sum_list (map gp_sample_size rows0) = length (completed rs None None)"
    using ok by (simp only: sizes len) (simp add: buckets_ok_def)
  moreover have "mset rows = mset rows0" by (simp add: rows)
  then have "sum_list (map gp_sample_size rows) = sum_list (map gp_sample_size rows0)"
    by (metis mset_map sum_mset_sum_list)
  moreover have "length rows = length ?bs"
    using list_all2_lengthD [OF all] by (simp add: rows)
  ultimately show ?thesis using ok by (auto simp: buckets_ok_def)
qed

theorem groups_partition_the_sample_witness:
  "\<exists>rows. by_direction [sample_outcome ''d'' POP_CANCELLED 2 dec_zero] = Inr rows
     \<and> sum_list (map gp_sample_size rows) = 0"
proof -
  let ?rs = "[sample_outcome ''d'' POP_CANCELLED 2 dec_zero]"
  have "got (by_direction ?rs) (\<lambda>_. True)"
    by (simp add: by_direction_def group_by_def buckets_def group_row_def completed_def chosen_def
        pop_completed_def sample_outcome_def realized_gross_total_def realized_net_total_def
        win_rate_def expectancy_def fee_coverage_def cov_empty_def Let_def classify_def)
  then obtain rows where r: "by_direction ?rs = Inr rows" by (auto elim: gotE)
  have "completed ?rs None None = []"
    by (simp add: completed_def chosen_def pop_completed_def sample_outcome_def)
  then show ?thesis
    using groups_partition_the_sample [of _ ?rs rows] r by (simp add: by_direction_def)
qed

end
