(* ===== verification/Shadow.thy ===== *)
theory Shadow
  imports Live_Validation
begin

text \<open>
The shadow run (\<open>domain/shadow/run.py\<close>, \<open>decision.py\<close>, \<open>eligibility.py\<close>, \<open>outcome.py\<close>): the limits,
the journal entry with the checks of its constructor, whether a rule may be evaluated on the
evidence held, and where the market went after a decision that named an entry, a stop and targets.
Timeframe readings and evidence are kept as text, as the code keeps them; the wording of a
reason is left out, its facts are kept.
\<close>

section \<open>The run and its limits (run.py)\<close>

datatype ShadowRunStatus = OBSERVING | ENDED

datatype EndReason =
    STREAM_ENDED | CANCELLED_RUN | OBSERVATION_LIMIT | PROVIDER_ERROR | EVALUATION_ERROR | SHUTDOWN
  | INTERRUPTED

record ShadowLimits =
  max_runs :: int
  max_observations :: int
  max_journal_page :: int
  max_pending_records :: int
  max_excluded_reasons :: int
  max_reason_length :: int
  max_evidence_timeframes :: int
  max_outcome_window :: int
  max_open_watches :: int
  max_outcome_page :: int

definition default_shadow_limits :: ShadowLimits where
  "default_shadow_limits =
     \<lparr>max_runs = 4, max_observations = 5000, max_journal_page = 100, max_pending_records = 512,
      max_excluded_reasons = 8, max_reason_length = 300, max_evidence_timeframes = 8,
      max_outcome_window = 24, max_open_watches = 500, max_outcome_page = 100\<rparr>"

definition make_shadow_limits :: "ShadowLimits \<Rightarrow> ShadowLimits res" where
  "make_shadow_limits l =
     (if list_ex (\<lambda>v. v < 1)
           [max_runs l, max_observations l, max_journal_page l, max_pending_records l,
            max_excluded_reasons l, max_reason_length l, max_evidence_timeframes l,
            max_outcome_window l, max_open_watches l, max_outcome_page l]
      then Inl ValueError else Inr l)"

section \<open>Journal entries (decision.py)\<close>

datatype ShadowOutcome = NO_SIGNAL | WAIT | ENTRY_INTENT | EXIT_INTENT | SH_UNAVAILABLE | SH_REFUSED

datatype FinancialState =
    NOT_APPLICABLE | NOT_CONFIGURED | METADATA_UNAVAILABLE | FIN_APPROVED | FIN_REFUSED
  | FIN_UNDETERMINED

datatype JournalEntryKind = DECISION | OPERATIONAL

datatype OperationalKind =
    RUN_OPENED | RUN_ENDED | PROVIDER_DISCONNECTED | PROVIDER_RECOVERING | DATA_GAP
  | CONFLICTING_CORRECTION | LATE_FILL_ENTRY | OBSERVATION_REFUSED | DECISION_SUPERSEDED
  | EVALUATION_FAILED

record TimeframeReadings =
  tr_timeframe :: Timeframe
  tr_ema_fast :: "string option"
  tr_ema_slow :: "string option"
  tr_rsi :: "string option"
  tr_atr :: "string option"
  tr_adx :: "string option"

record TimeframeEvidence =
  te_timeframe :: Timeframe
  te_available :: bool
  te_freshness :: string
  te_integrity :: string
  te_confirmed_count :: int
  te_reasons :: "string list"
  te_last_coverage_end :: "moment option"

record ShadowEvidence =
  ev_provenance :: string
  ev_market_currency :: string
  ev_connection :: string
  ev_bars_available :: int
  ev_included :: "Timeframe list"
  ev_excluded :: "TimeframeEvidence list"
  ev_readings :: "TimeframeReadings list"
  ev_timeframes :: "TimeframeEvidence list"
  ev_regime :: "string option"
  ev_suitability :: "string option"
  ev_setup_quality :: "string option"
  ev_analysis_market_as_of :: "moment option"

record EntrySketch =
  es_direction :: Direction
  es_intended_entry :: dec
  es_stop :: dec
  es_targets :: "(dec \<times> int) list"
  es_requested_quantity :: int
  es_approved_quantity :: "int option"

record ShadowDecision =
  sd_kind :: JournalEntryKind
  sd_sequence :: int
  sd_decision_key :: string
  sd_market_boundary :: "moment option"
  sd_recorded_at :: moment
  sd_outcome :: "ShadowOutcome option"
  sd_reason :: string
  sd_strategy_kind :: "string option"
  sd_operational :: "OperationalKind option"
  sd_direction :: "Direction option"
  sd_entry :: "EntrySketch option"
  sd_financial_state :: FinancialState
  sd_risk_outcome :: "string option"
  sd_risk_reason :: "string option"
  sd_evidence :: "ShadowEvidence option"
  sd_input_fingerprint :: "string option"
  sd_supersedes :: "string option"
  sd_fields :: "(string \<times> string) list"

definition make_decision :: "ShadowDecision \<Rightarrow> ShadowDecision res" where
  "make_decision d =
     (if sd_kind d = DECISION \<and> sd_outcome d = None then Inl ValueError
      else if sd_kind d = OPERATIONAL \<and> sd_operational d = None then Inl ValueError
      else if sd_entry d \<noteq> None \<and> sd_outcome d \<notin> {Some ENTRY_INTENT, Some SH_REFUSED}
      then Inl ValueError
      else if sd_financial_state d = FIN_APPROVED \<and> sd_entry d = None then Inl ValueError
      else Inr d)"

section \<open>Eligibility (eligibility.py)\<close>

datatype EligibilityCode = EVIDENCE_UNAVAILABLE | WARM_UP_INCOMPLETE | ELIGIBLE

text \<open>The stated reasons, without their English wording.\<close>

datatype EligibilityReason =
  NotSubscribed Timeframe | Blocked Timeframe "string list" | WarmUpShort Timeframe int int

record Eligibility =
  el_permitted :: bool
  el_code :: EligibilityCode
  el_reasons :: "EligibilityReason list"

text \<open>A dict built from the evidence: the last item of a timeframe wins.\<close>

definition evidence_for :: "TimeframeEvidence list \<Rightarrow> Timeframe \<Rightarrow> TimeframeEvidence option" where
  "evidence_for evidence = map_of (map (\<lambda>e. (te_timeframe e, e)) (rev evidence))"

definition block_reason :: "TimeframeEvidence list \<Rightarrow> Timeframe \<Rightarrow> EligibilityReason list" where
  "block_reason evidence tf =
     (case evidence_for evidence tf of
        None \<Rightarrow> [NotSubscribed tf]
      | Some e \<Rightarrow> if te_available e then [] else [Blocked tf (te_reasons e)])"

definition eligible_for_evaluation ::
  "Timeframe \<Rightarrow> Timeframe list \<Rightarrow> TimeframeEvidence list \<Rightarrow> int \<Rightarrow> Eligibility res" where
  "eligible_for_evaluation driver required evidence warm_up =
     (let needed = driver # filter (\<lambda>tf. tf \<noteq> driver) required;
          reasons = concat (map (block_reason evidence) needed)
      in if reasons \<noteq> []
         then Inr \<lparr>el_permitted = False, el_code = EVIDENCE_UNAVAILABLE, el_reasons = reasons\<rparr>
         else case evidence_for evidence driver of
           None \<Rightarrow> Inl KeyError
         | Some e \<Rightarrow>
             if te_confirmed_count e < warm_up
             then Inr \<lparr>el_permitted = False, el_code = WARM_UP_INCOMPLETE,
                       el_reasons = [WarmUpShort driver (te_confirmed_count e) warm_up]\<rparr>
             else Inr \<lparr>el_permitted = True, el_code = ELIGIBLE, el_reasons = []\<rparr>)"

text \<open>A rule is evaluated exactly when every timeframe it needs is available and the driver has
  its warm-up; the evaluation never raises and reads nothing about the other timeframes.\<close>

definition tf_available :: "TimeframeEvidence list \<Rightarrow> Timeframe \<Rightarrow> bool" where
  "tf_available evidence tf = (case evidence_for evidence tf of None \<Rightarrow> False | Some e \<Rightarrow> te_available e)"

lemma block_reason_nil: "block_reason evidence tf = [] \<longleftrightarrow> tf_available evidence tf"
  by (auto simp: block_reason_def tf_available_def split: option.splits)

lemma concat_nil_iff: "concat (map f xs) = [] \<longleftrightarrow> (\<forall>x \<in> set xs. f x = [])"
  by (induction xs) auto

lemma eligible_iff:
  "\<exists>r. eligible_for_evaluation driver required evidence warm_up = Inr r
     \<and> (el_permitted r \<longleftrightarrow> (\<forall>tf \<in> insert driver (set required). tf_available evidence tf)
            \<and> warm_up \<le> (case evidence_for evidence driver of Some e \<Rightarrow> te_confirmed_count e | None \<Rightarrow> 0))
     \<and> (el_permitted r \<longleftrightarrow> el_code r = ELIGIBLE) \<and> (el_permitted r \<longleftrightarrow> el_reasons r = [])"
  unfolding eligible_for_evaluation_def Let_def concat_nil_iff block_reason_nil
  by (cases "evidence_for evidence driver")
    (auto simp: concat_nil_iff block_reason_nil tf_available_def)

section \<open>What price did afterwards (outcome.py)\<close>

datatype OutcomeState = NOT_EVALUATED | PENDING | OBSERVED | UNAVAILABLE | INVALIDATED

datatype LevelEvent =
    NONE_REACHED | STOP_LEVEL_TOUCHED | TARGET_LEVEL_TOUCHED | BOTH_LEVELS_TOUCHED_SAME_BAR
  | NOT_OBSERVED

datatype UnresolvedReason = NoLaterCandle | SkippedInterval | WindowNeverClosed nat int

record PriceDevelopment =
  pd_state :: OutcomeState
  pd_event :: LevelEvent
  pd_observed_from :: "moment option"
  pd_observed_to :: "moment option"
  pd_candles_observed :: nat
  pd_event_at :: "moment option"
  pd_target_ordinal :: "int option"
  pd_best_price :: "dec option"
  pd_worst_price :: "dec option"
  pd_last_close :: "dec option"
  pd_ambiguous :: bool
  pd_unresolved_reason :: "UnresolvedReason option"

definition make_development :: "PriceDevelopment \<Rightarrow> PriceDevelopment res" where
  "make_development d =
     (if pd_state d = OBSERVED \<and> pd_event d = NOT_OBSERVED then Inl ValueError
      else if pd_state d = UNAVAILABLE \<and> pd_unresolved_reason d = None then Inl ValueError
      else if pd_ambiguous d \<and> pd_event d \<noteq> BOTH_LEVELS_TOUCHED_SAME_BAR then Inl ValueError
      else Inr d)"

definition coverage_end_of :: "Candle \<Rightarrow> moment" where
  "coverage_end_of c = moment_add (open_time c) (duration_of (bar_timeframe c))"

text \<open>Market moments are aware and compared by their instants.\<close>

definition eligible_forward_candles :: "Candle list \<Rightarrow> moment \<Rightarrow> int \<Rightarrow> Candle list" where
  "eligible_forward_candles cs boundary limit =
     (if 0 < limit
      then take (nat limit) (filter (\<lambda>c. instant boundary \<le> instant (open_time c)) cs) else [])"

fun gap_from :: "int \<Rightarrow> int \<Rightarrow> nat \<Rightarrow> Candle list \<Rightarrow> nat option" where
  "gap_from step expected i [] = None"
| "gap_from step expected i (c # cs) =
     (if instant (open_time c) \<noteq> expected then Some i
      else gap_from step (instant (open_time c) + step) (Suc i) cs)"

definition has_gap :: "Candle list \<Rightarrow> Timeframe \<Rightarrow> moment \<Rightarrow> nat option" where
  "has_gap cs tf boundary = gap_from (duration_of tf) (instant boundary) 0 cs"

text \<open>\<open>min\<close> and \<open>max\<close> with a key keep the first of equal targets.\<close>

fun first_best :: "(dec \<Rightarrow> dec \<Rightarrow> bool) \<Rightarrow> (dec \<times> int) list \<Rightarrow> (dec \<times> int) option" where
  "first_best better [] = None"
| "first_best better (x # xs) =
     (case first_best better xs of
        None \<Rightarrow> Some x
      | Some y \<Rightarrow> if better (fst y) (fst x) then Some y else Some x)"

definition target_touched :: "Candle \<Rightarrow> (dec \<times> int) list \<Rightarrow> bool \<Rightarrow> (dec \<times> int) option" where
  "target_touched c targets long =
     (let reached = filter (\<lambda>t. if long then dec_le (fst t) (bar_high c) else dec_le (bar_low c) (fst t)) targets
      in if long then first_best dec_less reached else first_best (\<lambda>a b. dec_less b a) reached)"

definition stop_level_touched :: "Candle \<Rightarrow> dec \<Rightarrow> bool \<Rightarrow> bool" where
  "stop_level_touched c stop long = (if long then dec_le (bar_low c) stop else dec_le stop (bar_high c))"

text \<open>What one candle says about the levels.\<close>

definition candle_event :: "dec \<Rightarrow> (dec \<times> int) list \<Rightarrow> bool \<Rightarrow> Candle \<Rightarrow> (LevelEvent \<times> int option) option" where
  "candle_event stop targets long c =
     (case (stop_level_touched c stop long, target_touched c targets long) of
        (True, Some t) \<Rightarrow> Some (BOTH_LEVELS_TOUCHED_SAME_BAR, Some (snd t))
      | (True, None) \<Rightarrow> Some (STOP_LEVEL_TOUCHED, None)
      | (False, Some t) \<Rightarrow> Some (TARGET_LEVEL_TOUCHED, Some (snd t))
      | (False, None) \<Rightarrow> None)"

text \<open>The levels are compared with every candle looked at, so a NaN level raises as soon as one
  candle is usable; candle prices are finite.\<close>

definition levels_comparable :: "dec \<Rightarrow> (dec \<times> int) list \<Rightarrow> bool" where
  "levels_comparable stop targets = (\<not> is_nan stop \<and> list_all (\<lambda>t. \<not> is_nan (fst t)) targets)"

record Scan =
  sc_best :: "dec option"
  sc_worst :: "dec option"
  sc_event :: LevelEvent
  sc_event_at :: "moment option"
  sc_ordinal :: "int option"

definition widen :: "bool \<Rightarrow> Candle \<Rightarrow> Scan \<Rightarrow> Scan" where
  "widen long c s =
     (let favourable = (if long then bar_high c else bar_low c);
          adverse = (if long then bar_low c else bar_high c)
      in case (sc_best s, sc_worst s) of
           (Some b, Some w) \<Rightarrow>
             if long then s\<lparr>sc_best := Some (dec_max b favourable), sc_worst := Some (dec_min w adverse)\<rparr>
             else s\<lparr>sc_best := Some (dec_min b favourable), sc_worst := Some (dec_max w adverse)\<rparr>
         | _ \<Rightarrow> s\<lparr>sc_best := Some favourable, sc_worst := Some adverse\<rparr>)"

fun scan_candles :: "dec \<Rightarrow> (dec \<times> int) list \<Rightarrow> bool \<Rightarrow> Candle list \<Rightarrow> Scan \<Rightarrow> Scan" where
  "scan_candles stop targets long [] s = s"
| "scan_candles stop targets long (c # cs) s =
     (case candle_event stop targets long c of
        None \<Rightarrow> scan_candles stop targets long cs (widen long c s)
      | Some (e, n) \<Rightarrow>
          (widen long c s)\<lparr>sc_event := e, sc_event_at := Some (coverage_end_of c), sc_ordinal := n\<rparr>)"

fun index_from :: "nat \<Rightarrow> moment \<Rightarrow> Candle list \<Rightarrow> nat option" where
  "index_from i t [] = None"
| "index_from i t (c # cs) =
     (if instant (coverage_end_of c) = instant t then Some i else index_from (Suc i) t cs)"

definition index_of_coverage :: "Candle list \<Rightarrow> moment \<Rightarrow> nat" where
  "index_of_coverage cs t = (case index_from 0 t cs of Some i \<Rightarrow> i | None \<Rightarrow> length cs - 1)"

definition last_of :: "'a list \<Rightarrow> 'a option" where
  "last_of xs = (if xs = [] then None else Some (last xs))"

definition stated ::
  "Candle list \<Rightarrow> Scan \<Rightarrow> OutcomeState \<Rightarrow> UnresolvedReason option \<Rightarrow> PriceDevelopment res" where
  "stated usable s state reason =
     (let observed = (case sc_event_at s of
                        None \<Rightarrow> usable
                      | Some t \<Rightarrow> take (Suc (index_of_coverage usable t)) usable)
      in make_development
           \<lparr>pd_state = state, pd_event = sc_event s,
            pd_observed_from = (if usable = [] then None else Some (coverage_end_of (hd usable))),
            pd_observed_to = map_option coverage_end_of (last_of observed),
            pd_candles_observed = length observed, pd_event_at = sc_event_at s,
            pd_target_ordinal = sc_ordinal s, pd_best_price = sc_best s, pd_worst_price = sc_worst s,
            pd_last_close = map_option bar_close (last_of observed),
            pd_ambiguous = (sc_event s = BOTH_LEVELS_TOUCHED_SAME_BAR),
            pd_unresolved_reason = reason\<rparr>)"

definition nothing_seen :: "OutcomeState \<Rightarrow> UnresolvedReason option \<Rightarrow> PriceDevelopment" where
  "nothing_seen state reason =
     \<lparr>pd_state = state, pd_event = NOT_OBSERVED, pd_observed_from = None, pd_observed_to = None,
      pd_candles_observed = 0, pd_event_at = None, pd_target_ordinal = None, pd_best_price = None,
      pd_worst_price = None, pd_last_close = None, pd_ambiguous = False,
      pd_unresolved_reason = reason\<rparr>"

definition fresh_scan :: Scan where
  "fresh_scan = \<lparr>sc_best = None, sc_worst = None, sc_event = NONE_REACHED, sc_event_at = None,
     sc_ordinal = None\<rparr>"

definition observe_development ::
  "Direction \<Rightarrow> dec \<Rightarrow> (dec \<times> int) list \<Rightarrow> moment \<Rightarrow> Timeframe \<Rightarrow> Candle list \<Rightarrow> int \<Rightarrow> bool
     \<Rightarrow> PriceDevelopment res" where
  "observe_development d stop targets boundary tf cs window exhausted =
     (let forward = eligible_forward_candles cs boundary window in
      if forward = []
      then make_development (if exhausted then nothing_seen UNAVAILABLE (Some NoLaterCandle)
                             else nothing_seen PENDING None)
      else
        let gap = has_gap forward tf boundary;
            usable = (case gap of None \<Rightarrow> forward | Some i \<Rightarrow> take i forward);
            s = scan_candles stop targets (d = LONG) usable fresh_scan
        in if usable \<noteq> [] \<and> \<not> levels_comparable stop targets then Inl InvalidOperation
           else if sc_event_at s \<noteq> None then stated usable s OBSERVED None
           else if gap \<noteq> None then stated usable s UNAVAILABLE (Some SkippedInterval)
           else if window \<le> int (length usable) then stated usable s OBSERVED None
           else if exhausted
           then stated usable s UNAVAILABLE (Some (WindowNeverClosed (length usable) window))
           else stated usable s PENDING None)"

text \<open>\<open>ShadowOutcomeRecord\<close>: an outcome may only observe what came after the decision.\<close>

record ShadowOutcomeRecord =
  sr_run_id :: string
  sr_decision_key :: string
  sr_sequence :: int
  sr_outcome_key :: string
  sr_recorded_at :: moment
  sr_decision_boundary :: moment
  sr_direction :: Direction
  sr_development :: PriceDevelopment

definition make_outcome_record :: "ShadowOutcomeRecord \<Rightarrow> ShadowOutcomeRecord res" where
  "make_outcome_record r =
     (case pd_observed_from (sr_development r) of
        None \<Rightarrow> Inr r
      | Some t \<Rightarrow> if instant t \<le> instant (sr_decision_boundary r) then Inl ValueError else Inr r)"

end
