(* ===== verification/Shadow_Props.thy ===== *)
theory Shadow_Props
  imports Shadow
begin

text \<open>
What a development promises: it is read from the unbroken run of candles that opened at or after the
decision (\<open>contig_prefix\<close> is the reference for the index the code's gap check returns), stops at the
first candle that reached a level, and is final once it has a verdict.
\<close>

section \<open>The candles that follow one another from the boundary\<close>

fun contig_prefix :: "int \<Rightarrow> int \<Rightarrow> Candle list \<Rightarrow> Candle list" where
  "contig_prefix s e [] = []"
| "contig_prefix s e (c # cs) =
     (if instant (open_time c) = e then c # contig_prefix s (e + s) cs else [])"

lemma gap_from_le: "gap_from s e i cs = Some k \<Longrightarrow> i \<le> k"
  by (induction s e i cs rule: gap_from.induct) (fastforce split: if_splits)+

lemma gap_from_None: "gap_from s e i cs = None \<longleftrightarrow> contig_prefix s e cs = cs"
  by (induction cs arbitrary: e i) auto

lemma gap_from_take: "gap_from s e i cs = Some k \<Longrightarrow> take (k - i) cs = contig_prefix s e cs"
proof (induction cs arbitrary: e i)
  case (Cons c cs)
  show ?case
  proof (cases "instant (open_time c) = e")
    case True
    then have g: "gap_from s (e + s) (Suc i) cs = Some k" using Cons.prems by simp
    then obtain m where "k = Suc i + m" using gap_from_le le_Suc_ex by blast
    then show ?thesis using Cons.IH [OF g] True by (simp add: Suc_diff_le)
  qed (use Cons.prems in simp)
qed simp

lemma usable_is_contig_prefix:
  "(case has_gap cs tf b of None \<Rightarrow> cs | Some i \<Rightarrow> take i cs)
     = contig_prefix (duration_of tf) (instant b) cs"
  "has_gap cs tf b \<noteq> None \<longleftrightarrow> contig_prefix (duration_of tf) (instant b) cs \<noteq> cs"
  using gap_from_take [of "duration_of tf" "instant b" 0 cs]
    gap_from_None [of "duration_of tf" "instant b" 0 cs]
  by (auto simp: has_gap_def split: option.splits)

lemma contig_prefix_nth:
  "i < length (contig_prefix s e cs) \<Longrightarrow> instant (open_time (contig_prefix s e cs ! i)) = e + int i * s"
proof (induction cs arbitrary: e i)
  case (Cons c cs)
  then show ?case by (cases i) (auto split: if_splits simp: algebra_simps)
qed simp

lemma contig_prefix_take: "contig_prefix s e cs = take (length (contig_prefix s e cs)) cs"
  by (induction cs arbitrary: e) auto

lemma contig_prefix_append:
  "contig_prefix s e (xs @ ys) = contig_prefix s e xs
     @ (if contig_prefix s e xs = xs then contig_prefix s (e + int (length xs) * s) ys else [])"
  by (induction xs arbitrary: e) (auto simp: algebra_simps)

lemma contig_prefix_less:
  "contig_prefix s e cs \<noteq> cs \<Longrightarrow> length (contig_prefix s e cs) < length cs"
  by (induction cs arbitrary: e) auto

lemma append_parts: "xs = ys @ zs \<Longrightarrow> length xs = length ys + length zs \<and> (ys = xs \<longleftrightarrow> zs = [])"
  by simp

section \<open>Where the scan stops\<close>

definition hit :: "dec \<Rightarrow> (dec \<times> int) list \<Rightarrow> bool \<Rightarrow> Candle \<Rightarrow> bool" where
  "hit stop targets long c = (candle_event stop targets long c \<noteq> None)"

definition first_hit :: "dec \<Rightarrow> (dec \<times> int) list \<Rightarrow> bool \<Rightarrow> Candle list \<Rightarrow> nat" where
  "first_hit stop targets long cs = length (takeWhile (\<lambda>c. \<not> hit stop targets long c) cs)"

definition seen_part :: "dec \<Rightarrow> (dec \<times> int) list \<Rightarrow> bool \<Rightarrow> Candle list \<Rightarrow> Candle list" where
  "seen_part stop targets long cs = take (Suc (first_hit stop targets long cs)) cs"

lemma seen_part_Cons:
  "seen_part stop targets long (c # cs) =
     c # (if hit stop targets long c then [] else seen_part stop targets long cs)"
  by (simp add: seen_part_def first_hit_def)

lemma seen_part_Nil [simp]: "seen_part stop targets long [] = []"
  by (simp add: seen_part_def)

lemma first_hit_le: "first_hit stop targets long cs \<le> length cs"
  by (simp add: first_hit_def length_takeWhile_le)

lemma widen_simps [simp]:
  "sc_event (widen l c s) = sc_event s" "sc_event_at (widen l c s) = sc_event_at s"
  "sc_ordinal (widen l c s) = sc_ordinal s"
  by (auto simp: widen_def Let_def split: option.splits)

lemma scan_event_at:
  "sc_event_at s = None \<Longrightarrow>
   sc_event_at (scan_candles stop targets long cs s) =
     (if first_hit stop targets long cs < length cs
      then Some (coverage_end_of (cs ! first_hit stop targets long cs)) else None)"
  by (induction cs arbitrary: s) (auto simp: first_hit_def hit_def split: option.splits)

lemma scan_event_none:
  "sc_event s = NONE_REACHED \<Longrightarrow> \<not> first_hit stop targets long cs < length cs \<Longrightarrow>
   sc_event (scan_candles stop targets long cs s) = NONE_REACHED"
  by (induction cs arbitrary: s) (auto simp: first_hit_def hit_def split: option.splits)

lemma scan_event_some:
  "first_hit stop targets long cs < length cs \<Longrightarrow>
   candle_event stop targets long (cs ! first_hit stop targets long cs)
     = Some (sc_event (scan_candles stop targets long cs s), sc_ordinal (scan_candles stop targets long cs s))"
  by (induction cs arbitrary: s) (auto simp: first_hit_def hit_def split: option.splits)

lemma candle_event_named:
  "candle_event stop targets long c = Some (e, n) \<Longrightarrow> e \<noteq> NOT_OBSERVED \<and> e \<noteq> NONE_REACHED"
  by (auto simp: candle_event_def split: bool.splits option.splits)

lemma scan_append:
  "first_hit stop targets long xs < length xs \<Longrightarrow>
   scan_candles stop targets long (xs @ ys) s = scan_candles stop targets long xs s"
  by (induction xs arbitrary: s) (auto simp: first_hit_def hit_def split: option.splits)

section \<open>The furthest prices\<close>

lemma scan_best_worst:
  assumes "sc_best s = Some b" "sc_worst s = Some w"
  shows "sc_best (scan_candles stop targets long cs s) =
      Some (foldl (if long then dec_max else dec_min) b
              (map (if long then bar_high else bar_low) (seen_part stop targets long cs)))"
    and "sc_worst (scan_candles stop targets long cs s) =
      Some (foldl (if long then dec_min else dec_max) w
              (map (if long then bar_low else bar_high) (seen_part stop targets long cs)))"
  using assms
  by (induction cs arbitrary: s b w)
    (auto simp: seen_part_Cons hit_def widen_def Let_def split: option.splits)

definition furthest :: "(dec \<Rightarrow> dec \<Rightarrow> dec) \<Rightarrow> (Candle \<Rightarrow> dec) \<Rightarrow> Candle list \<Rightarrow> dec option" where
  "furthest pick price cs = (case cs of [] \<Rightarrow> None | c # cs' \<Rightarrow> Some (foldl pick (price c) (map price cs')))"

lemma scan_furthest:
  "sc_best (scan_candles stop targets long cs fresh_scan) =
     furthest (if long then dec_max else dec_min) (if long then bar_high else bar_low) (seen_part stop targets long cs)"
  "sc_worst (scan_candles stop targets long cs fresh_scan) =
     furthest (if long then dec_min else dec_max) (if long then bar_low else bar_high) (seen_part stop targets long cs)"
proof -
  let ?w = "\<lambda>c. widen long c fresh_scan"
  have start: "\<And>c. sc_best (?w c) = Some (if long then bar_high c else bar_low c)"
    "\<And>c. sc_worst (?w c) = Some (if long then bar_low c else bar_high c)"
    by (simp_all add: widen_def fresh_scan_def)
  show "sc_best (scan_candles stop targets long cs fresh_scan) =
     furthest (if long then dec_max else dec_min) (if long then bar_high else bar_low) (seen_part stop targets long cs)"
  proof (cases cs)
    case (Cons c cs')
    then show ?thesis
      using scan_best_worst(1) [where long = long and stop = stop and targets = targets and cs = cs',
          OF start [of c]] start [of c]
      by (auto simp: furthest_def seen_part_Cons hit_def split: option.splits)
  qed (simp add: fresh_scan_def furthest_def)
  show "sc_worst (scan_candles stop targets long cs fresh_scan) =
     furthest (if long then dec_min else dec_max) (if long then bar_low else bar_high) (seen_part stop targets long cs)"
  proof (cases cs)
    case (Cons c cs')
    then show ?thesis
      using scan_best_worst(2) [where long = long and stop = stop and targets = targets and cs = cs',
          OF start [of c]] start [of c]
      by (auto simp: furthest_def seen_part_Cons hit_def split: option.splits)
  qed (simp add: fresh_scan_def furthest_def)
qed

section \<open>The candles a development has taken into account\<close>

lemma index_from_prefix:
  "k < length xs \<Longrightarrow> instant (coverage_end_of (xs ! k)) = instant t \<Longrightarrow>
   index_from i t (xs @ ys) = index_from i t xs \<and> index_from i t xs \<noteq> None"
proof (induction xs arbitrary: i k)
  case (Cons c xs)
  then show ?case by (cases k) auto
qed simp

lemma index_from_first:
  assumes "k < length cs" "instant (coverage_end_of (cs ! k)) = instant t"
    "\<And>j. j < k \<Longrightarrow> instant (coverage_end_of (cs ! j)) \<noteq> instant t"
  shows "index_from i t cs = Some (i + k)"
  using assms
proof (induction cs arbitrary: i k)
  case (Cons c cs)
  show ?case
  proof (cases k)
    case 0 then show ?thesis using Cons.prems by simp
  next
    case (Suc m)
    have "instant (coverage_end_of c) \<noteq> instant t" using Cons.prems(3) [of 0] Suc by simp
    moreover have "index_from (Suc i) t cs = Some (Suc i + m)"
    proof (rule Cons.IH)
      show "m < length cs" "instant (coverage_end_of (cs ! m)) = instant t" using Cons.prems Suc by auto
      show "instant (coverage_end_of (cs ! j)) \<noteq> instant t" if "j < m" for j
        using Cons.prems(3) [of "Suc j"] Suc that by simp
    qed
    ultimately show ?thesis using Suc by simp
  qed
qed simp

lemma instant_moment_add [simp]: "instant (moment_add t d) = instant t + d"
  by (cases t) simp_all

lemma coverage_of_contig:
  assumes "i < length (contig_prefix (duration_of tf) e cs)" "\<forall>c \<in> set cs. bar_timeframe c = tf"
  shows "instant (coverage_end_of (contig_prefix (duration_of tf) e cs ! i)) = e + int (Suc i) * duration_of tf"
proof -
  have "contig_prefix (duration_of tf) e cs ! i \<in> set cs"
    using assms(1) contig_prefix_take by (metis in_set_takeD nth_mem)
  then have "bar_timeframe (contig_prefix (duration_of tf) e cs ! i) = tf" using assms(2) by blast
  then show ?thesis
    using contig_prefix_nth [OF assms(1)] by (simp add: coverage_end_of_def algebra_simps)
qed

lemma index_of_coverage_contig:
  assumes "k < length (contig_prefix (duration_of tf) e cs)" "\<forall>c \<in> set cs. bar_timeframe c = tf"
  defines "u \<equiv> contig_prefix (duration_of tf) e cs"
  shows "index_of_coverage u (coverage_end_of (u ! k)) = k"
proof -
  have d: "0 < duration_of tf" by (rule duration_pos)
  have "index_from 0 (coverage_end_of (u ! k)) u = Some (0 + k)"
  proof (rule index_from_first)
    show "k < length u" using assms(1) u_def by simp
    show "instant (coverage_end_of (u ! j)) \<noteq> instant (coverage_end_of (u ! k))" if "j < k" for j
      using coverage_of_contig [of j tf e cs] coverage_of_contig [of k tf e cs] assms(1,2) that d
      by (simp add: u_def order.strict_trans [OF that] less_imp_neq [OF d, symmetric])
  qed simp
  then show ?thesis by (simp add: index_of_coverage_def)
qed

lemma make_development_Inr: "make_development d = Inr r \<Longrightarrow> r = d"
  by (simp add: make_development_def split: if_splits)

lemma stated_fields:
  assumes "stated u s st re = Inr r"
  defines "seen \<equiv> (case sc_event_at s of None \<Rightarrow> u | Some t \<Rightarrow> take (Suc (index_of_coverage u t)) u)"
  shows "pd_event r = sc_event s" "pd_target_ordinal r = sc_ordinal s" "pd_event_at r = sc_event_at s"
    "pd_candles_observed r = length seen" "pd_best_price r = sc_best s" "pd_worst_price r = sc_worst s"
    "pd_observed_to r = map_option coverage_end_of (last_of seen)"
  using assms(1) by (auto simp: stated_def Let_def seen_def dest!: make_development_Inr)

lemma index_from_less: "index_from i t cs = Some k \<Longrightarrow> k < i + length cs"
  by (induction i t cs rule: index_from.induct) (auto split: if_splits)

lemma stated_append:
  assumes "sc_event_at s = Some t" "k < length u" "instant (coverage_end_of (u ! k)) = instant t"
  shows "stated (u @ y) s st re = stated u s st re"
proof -
  obtain i where i: "index_from 0 t u = Some i" "index_from 0 t (u @ y) = Some i"
    using index_from_prefix [OF assms(2,3), of 0 y] by auto
  have "i < length u" using index_from_less [OF i(1)] by simp
  moreover have "u \<noteq> []" using assms(2) by auto
  ultimately show ?thesis
    using assms(1) i by (simp add: stated_def index_of_coverage_def)
qed

lemma fresh_scan_simps [simp]: "sc_event_at fresh_scan = None" "sc_event fresh_scan = NONE_REACHED"
  by (simp_all add: fresh_scan_def)

lemma observed_is_seen:
  fixes e :: int
  assumes "\<forall>c \<in> set cs. bar_timeframe c = tf"
  defines "u \<equiv> contig_prefix (duration_of tf) e cs"
  shows "(case sc_event_at (scan_candles stop targets long u fresh_scan) of None \<Rightarrow> u
          | Some t \<Rightarrow> take (Suc (index_of_coverage u t)) u) = seen_part stop targets long u"
  using index_of_coverage_contig [OF _ assms(1), of "first_hit stop targets long u" e] first_hit_le [of stop targets long u]
  by (simp add: scan_event_at seen_part_def u_def)

lemma observe_seen_eq:
  fixes tf :: Timeframe and d :: Direction and stop :: dec and targets :: "(dec \<times> int) list"
  assumes "eligible_forward_candles cs b w \<noteq> []"
  defines "u \<equiv> contig_prefix (duration_of tf) (instant b) (eligible_forward_candles cs b w)"
  defines "s \<equiv> scan_candles stop targets (d = LONG) u fresh_scan"
  shows "observe_development d stop targets b tf cs w ex =
     (if u \<noteq> [] \<and> \<not> levels_comparable stop targets then Inl InvalidOperation
      else if sc_event_at s \<noteq> None then stated u s OBSERVED None
      else if u \<noteq> eligible_forward_candles cs b w then stated u s UNAVAILABLE (Some SkippedInterval)
      else if w \<le> int (length u) then stated u s OBSERVED None
      else if ex then stated u s UNAVAILABLE (Some (WindowNeverClosed (length u) w))
      else stated u s PENDING None)"
  unfolding observe_development_def Let_def usable_is_contig_prefix u_def [symmetric] s_def [symmetric]
  using assms(1) by (rule if_not_P)

lemma observe_cases [consumes 1]:
  assumes "observe_development d stop targets b tf cs w ex = Inr r"
  defines "F \<equiv> eligible_forward_candles cs b w"
  defines "u \<equiv> contig_prefix (duration_of tf) (instant b) F"
  defines "s \<equiv> scan_candles stop targets (d = LONG) u fresh_scan"
  obtains (blank) "F = []" "r = nothing_seen (pd_state r) (pd_unresolved_reason r)" "pd_state r \<noteq> OBSERVED"
      "pd_unresolved_reason r \<noteq> Some SkippedInterval"
  | (seen) "F \<noteq> []" "stated u s (pd_state r) (pd_unresolved_reason r) = Inr r"
    "pd_state r = OBSERVED \<longleftrightarrow> sc_event_at s \<noteq> None \<or> u = F \<and> w \<le> int (length u)"
    "pd_unresolved_reason r = Some SkippedInterval \<longleftrightarrow> sc_event_at s = None \<and> u \<noteq> F"
    "u = [] \<or> levels_comparable stop targets" "pd_state r = OBSERVED \<Longrightarrow> pd_unresolved_reason r = None"
    "pd_unresolved_reason r = Some SkippedInterval \<Longrightarrow> pd_state r = UNAVAILABLE"
proof (cases "F = []")
  case True
  then show ?thesis
    using assms(1) that(1)
    by (auto simp: observe_development_def F_def Let_def nothing_seen_def dest!: make_development_Inr split: if_splits)
next
  case False
  have kept: "pd_state r' = st \<and> pd_unresolved_reason r' = re" if "stated u' s' st re = Inr r'" for u' s' st re r'
    using that by (auto simp: stated_def Let_def dest!: make_development_Inr)
  have lc: "u = [] \<or> levels_comparable stop targets"
    and e: "(if sc_event_at s \<noteq> None then stated u s OBSERVED None
      else if u \<noteq> F then stated u s UNAVAILABLE (Some SkippedInterval)
      else if w \<le> int (length u) then stated u s OBSERVED None
      else if ex then stated u s UNAVAILABLE (Some (WindowNeverClosed (length u) w))
      else stated u s PENDING None) = Inr r"
    using assms(1) observe_seen_eq [OF False [unfolded F_def], of d stop targets tf ex]
    unfolding F_def [symmetric] u_def [symmetric] s_def [symmetric]
    by (cases "u = F"; simp split: if_split_asm)+
  obtain st re where st: "stated u s st re = Inr r"
    "st = OBSERVED \<longleftrightarrow> sc_event_at s \<noteq> None \<or> u = F \<and> w \<le> int (length u)"
    "re = Some SkippedInterval \<longleftrightarrow> sc_event_at s = None \<and> u \<noteq> F" "st = OBSERVED \<Longrightarrow> re = None"
    "re = Some SkippedInterval \<Longrightarrow> st = UNAVAILABLE"
  proof (cases "sc_event_at s \<noteq> None")
    case True then show ?thesis using e that [of OBSERVED None] by simp
  next
    case ev: False
    show ?thesis
    proof (cases "u = F")
      case False then show ?thesis using e ev that [of UNAVAILABLE "Some SkippedInterval"] by simp
    next
      case True
      then show ?thesis
        using e ev that [of OBSERVED None] that [of PENDING None]
          that [of UNAVAILABLE "Some (WindowNeverClosed (length u) w)"]
        by (cases "w \<le> int (length u)"; cases ex; simp)
    qed
  qed
  have "pd_state r = st" "pd_unresolved_reason r = re" using kept [OF st(1)] by simp_all
  then show ?thesis using that(2) False st lc by simp
qed

lemma eligible_forward_length: "int (length (eligible_forward_candles cs b w)) \<le> max 0 w"
  by (auto simp: eligible_forward_candles_def min_def)

lemma seen_part_last:
  "seen_part stop targets long u \<noteq> [] \<Longrightarrow>
   hit stop targets long (last (seen_part stop targets long u)) \<longleftrightarrow> first_hit stop targets long u < length u"
proof (induction u)
  case (Cons c u)
  have "seen_part stop targets long u = [] \<Longrightarrow> u = []" by (simp add: seen_part_def)
  then show ?case using Cons by (auto simp: seen_part_Cons first_hit_def)
qed simp

lemma seen_part_no_hit:
  "\<not> first_hit stop targets long u < length u \<Longrightarrow> seen_part stop targets long u = u"
  by (simp add: seen_part_def)

lemma seen_part_butlast:
  "c \<in> set (butlast (seen_part stop targets long u)) \<Longrightarrow> \<not> hit stop targets long c"
  by (induction u) (auto simp: seen_part_Cons split: if_splits)

lemma seen_part_hit:
  "first_hit stop targets long u < length u \<Longrightarrow>
   last (seen_part stop targets long u) = u ! first_hit stop targets long u"
  by (simp add: seen_part_def take_Suc_conv_app_nth)

lemma last_moment_of_contig:
  assumes tf: "\<forall>c \<in> set cs. bar_timeframe c = tf"
    and p: "contig_prefix (duration_of tf) e cs = seen @ rest" "seen \<noteq> []"
  shows "instant (coverage_end_of (last seen)) = e + int (length seen) * duration_of tf"
proof -
  have "length seen - 1 < length (contig_prefix (duration_of tf) e cs)" using p by (cases seen) simp_all
  from coverage_of_contig [OF this tf] show ?thesis
    using p by (simp add: last_conv_nth nth_append)
qed

section \<open>Properties\<close>

text \<open>C33: Whatever a development states was read from candles that opened at or after the decision, one
  after the other from the decision moment on and inside the window: a straddling candle, a candle
  behind a skipped interval and a candle after the one that reached a level are never used. A level
  is reported exactly when the last candle looked at reached it, the verdict is OBSERVED exactly then
  or when the whole window was looked at, and the furthest prices are those of these candles.\<close>

theorem development_is_forward_and_contiguous:
  assumes tf: "\<forall>c \<in> set cs. bar_timeframe c = tf"
    and r: "observe_development d stop targets b tf cs w ex = Inr r"
  shows "\<exists>seen rest. eligible_forward_candles cs b w = seen @ rest
    \<and> pd_candles_observed r = length seen \<and> int (length seen) \<le> max 0 w
    \<and> (\<forall>i < length seen. instant (open_time (seen ! i)) = instant b + int i * duration_of tf)
    \<and> (\<forall>c \<in> set (butlast seen). candle_event stop targets (d = LONG) c = None)
    \<and> (pd_event_at r \<noteq> None \<longleftrightarrow>
         seen \<noteq> [] \<and> candle_event stop targets (d = LONG) (last seen) = Some (pd_event r, pd_target_ordinal r))
    \<and> (pd_state r = OBSERVED \<longleftrightarrow> pd_event_at r \<noteq> None \<or> seen \<noteq> [] \<and> int (length seen) = w)
    \<and> pd_best_price r = furthest (if d = LONG then dec_max else dec_min)
                           (if d = LONG then bar_high else bar_low) seen
    \<and> pd_worst_price r = furthest (if d = LONG then dec_min else dec_max)
                            (if d = LONG then bar_low else bar_high) seen
    \<and> map_option instant (pd_observed_to r) =
         (if seen = [] then None else Some (instant b + int (length seen) * duration_of tf))"
  using r
proof (cases rule: observe_cases)
  case blank
  have "eligible_forward_candles cs b w = [] @ []
    \<and> pd_candles_observed r = 0 \<and> pd_event_at r = None \<and> pd_best_price r = None
    \<and> pd_worst_price r = None \<and> pd_observed_to r = None"
    using blank(1) arg_cong [OF blank(2), of pd_candles_observed] arg_cong [OF blank(2), of pd_event_at]
      arg_cong [OF blank(2), of pd_best_price] arg_cong [OF blank(2), of pd_worst_price]
      arg_cong [OF blank(2), of pd_observed_to]
    by (simp add: nothing_seen_def)
  then show ?thesis using blank(3) by (intro exI [of _ "[]"]) (simp add: furthest_def)
next
  case seen
  let ?F = "eligible_forward_candles cs b w"
  let ?u = "contig_prefix (duration_of tf) (instant b) ?F"
  let ?long = "d = LONG"
  let ?s = "scan_candles stop targets ?long ?u fresh_scan"
  let ?v = "seen_part stop targets ?long ?u"
  let ?k = "first_hit stop targets ?long ?u"
  have tfF: "\<forall>c \<in> set ?F. bar_timeframe c = tf"
    using tf by (auto simp: eligible_forward_candles_def dest: in_set_takeD)
  note r' = stated_fields [OF seen(2), unfolded observed_is_seen [OF tfF]]
  obtain r1 where r1: "?u = ?v @ r1"
    by (metis append_take_drop_id seen_part_def)
  obtain r2 where r2: "?F = ?u @ r2"
    using contig_prefix_take by (metis append_take_drop_id)
  have lenu: "length ?F = length ?u + length r2" "?u = ?F \<longleftrightarrow> r2 = []"
    using append_parts [OF r2] by blast+
  have len: "int (length ?F) \<le> max 0 w" by (rule eligible_forward_length)
  have lenv: "length ?v \<le> length ?u" "length ?u \<le> length ?F"
    using r1 r2 by (metis le_add1 length_append)+
  have whole: "?F = ?v @ (r1 @ r2)" using r1 r2 by (metis append_assoc)
  have bound: "int (length ?v) \<le> max 0 w" using len lenv by linarith
  have nth: "\<forall>i < length ?v. instant (open_time (?v ! i)) = instant b + int i * duration_of tf"
    using contig_prefix_nth [of _ "duration_of tf" "instant b" ?F] lenv r1
    by (metis nth_append order.strict_trans2)
  have extremes: "pd_best_price r = furthest (if ?long then dec_max else dec_min)
      (if ?long then bar_high else bar_low) ?v"
    "pd_worst_price r = furthest (if ?long then dec_min else dec_max)
      (if ?long then bar_low else bar_high) ?v"
    using r'(5,6) scan_furthest by simp_all
  have none: "\<forall>c \<in> set (butlast ?v). candle_event stop targets ?long c = None"
    using seen_part_butlast unfolding hit_def by blast
  have at: "pd_event_at r \<noteq> None \<longleftrightarrow> ?k < length ?u" by (simp add: r' scan_event_at)
  have ev: "pd_event_at r \<noteq> None \<longleftrightarrow>
      ?v \<noteq> [] \<and> candle_event stop targets ?long (last ?v) = Some (pd_event r, pd_target_ordinal r)"
    using seen_part_last [of stop targets ?long ?u] scan_event_some [of stop targets ?long ?u fresh_scan]
      seen_part_hit [of stop targets ?long ?u]
    unfolding at r'(1,2) hit_def by (cases "?v = []") (force simp: seen_part_def)+
  have st: "pd_state r = OBSERVED \<longleftrightarrow> pd_event_at r \<noteq> None \<or> ?v \<noteq> [] \<and> int (length ?v) = w"
  proof (cases "?k < length ?u")
    case True then show ?thesis using seen(3) at by (simp add: r' [symmetric])
  next
    case False
    then have v: "?v = ?u" by (rule seen_part_no_hit)
    have "?u = ?F \<and> w \<le> int (length ?u) \<longleftrightarrow> ?u \<noteq> [] \<and> int (length ?u) = w"
      using len seen(1) lenu by (auto simp: max_def split: if_splits)
    then show ?thesis using seen(3) at False by (simp add: r' [symmetric] v)
  qed
  have to: "map_option instant (pd_observed_to r) =
      (if ?v = [] then None else Some (instant b + int (length ?v) * duration_of tf))"
    using last_moment_of_contig [OF tfF r1] by (simp add: r' last_of_def)
  show ?thesis
    by (rule exI [of _ ?v], rule exI [of _ "r1 @ r2"], intro conjI)
      (fact whole r'(4) bound nth none ev st extremes to)+
qed

text \<open>C34: A verdict is final: once a level was reached, the window was completed or an interval was
  skipped, candles confirmed later and the end of the stream change nothing of the development.\<close>

theorem verdict_is_final:
  assumes r: "observe_development d stop targets b tf cs w ex = Inr r"
    and final: "pd_state r = OBSERVED \<or> pd_unresolved_reason r = Some SkippedInterval"
  shows "observe_development d stop targets b tf (cs @ more_cs) w ex' = Inr r"
  using r
proof (cases rule: observe_cases)
  case blank
  then show ?thesis using final by simp
next
  case seen
  let ?F = "eligible_forward_candles cs b w"
  let ?F' = "eligible_forward_candles (cs @ more_cs) b w"
  let ?u = "contig_prefix (duration_of tf) (instant b) ?F"
  let ?u' = "contig_prefix (duration_of tf) (instant b) ?F'"
  let ?s = "scan_candles stop targets (d = LONG) ?u fresh_scan"
  let ?more = "filter (\<lambda>c. instant b \<le> instant (open_time c)) more_cs"
  let ?x = "if 0 < w then take (nat w - length ?F) ?more else []"
  have F': "?F' = ?F @ ?x" "w \<le> int (length ?F) \<Longrightarrow> ?x = []"
    by (auto simp: eligible_forward_candles_def min_def)
  obtain y where u': "?u' = ?u @ y" "w \<le> int (length ?F) \<Longrightarrow> ?u' = ?u" "?u \<noteq> ?F \<Longrightarrow> ?u' = ?u"
    using F' contig_prefix_append [of "duration_of tf" "instant b" ?F ?x] by simp
  have F'_ne: "?F' \<noteq> []" using seen(1) F'(1) by simp
  note eq = observe_seen_eq [OF F'_ne, of d stop targets tf ex']
  show ?thesis
  proof (cases "sc_event_at ?s")
    case None
    then have c: "?u \<noteq> ?F \<or> w \<le> int (length ?F)"
      using final seen(3,4) by auto
    have u1: "?u' = ?u" using u'(2,3) c by blast
    have u2: "?u' = ?F' \<longleftrightarrow> ?u = ?F"
    proof (cases "?u = ?F")
      case True
      then have "w \<le> int (length ?F)" using c by simp
      then have "?F' = ?F" using F' by (metis append_Nil2)
      then show ?thesis by (simp only:)
    next
      case False
      then have "length ?u < length ?F'"
        using contig_prefix_less append_parts [OF F'(1)] by (metis trans_less_add1)
      then show ?thesis using False u1 by (metis less_irrefl)
    qed
    note u = u1 u2
    show ?thesis
    proof (cases "?u = ?F")
      case True
      then have w: "w \<le> int (length ?u)" using c by simp
      then have "pd_state r = OBSERVED" using seen(3) True by simp
      then show ?thesis
        unfolding eq unfolding u2 unfolding u1 using None seen(2,5,6) True w by simp
    next
      case False
      then have "pd_unresolved_reason r = Some SkippedInterval" using seen(4) None by simp
      then show ?thesis
        unfolding eq unfolding u2 unfolding u1 using None seen(2,5,7) False by simp
    qed
  next
    case (Some t)
    then have k: "first_hit stop targets (d = LONG) ?u < length ?u"
      "t = coverage_end_of (?u ! first_hit stop targets (d = LONG) ?u)"
      by (simp_all add: scan_event_at split: if_splits)
    then have s': "scan_candles stop targets (d = LONG) ?u' fresh_scan = ?s"
      unfolding u'(1) by (intro scan_append)
    have "stated ?u' ?s (pd_state r) (pd_unresolved_reason r) = Inr r"
      unfolding u'(1) using seen(2) stated_append [OF Some k(1)] k(2) by simp
    moreover have "pd_state r = OBSERVED" "?u \<noteq> []"
      using seen(3) Some k(1) by auto
    ultimately show ?thesis
      unfolding eq s' using Some seen(5,6) by simp
  qed
qed

definition followed_bar :: "int \<Rightarrow> int \<Rightarrow> int \<Rightarrow> Candle" where
  "followed_bar t l h =
     \<lparr>bar_symbol = ''X'', bar_timeframe = M5, open_time = Aware (t * duration_of M5) 0,
      bar_open = dec_of_int l, bar_high = dec_of_int h, bar_low = dec_of_int l, bar_close = dec_of_int h,
      bar_volume = dec_of_int 1, is_closed = True, open_interest = None\<rparr>"

definition followed_bars :: "Candle list" where
  "followed_bars = [followed_bar (-1) 80 120, followed_bar 0 95 105, followed_bar 1 85 115]"

definition followed_result :: PriceDevelopment where
  "followed_result =
     \<lparr>pd_state = OBSERVED, pd_event = BOTH_LEVELS_TOUCHED_SAME_BAR,
      pd_observed_from = Some (Aware (duration_of M5) 0), pd_observed_to = Some (Aware (2 * duration_of M5) 0),
      pd_candles_observed = 2, pd_event_at = Some (Aware (2 * duration_of M5) 0),
      pd_target_ordinal = Some 1, pd_best_price = Some (dec_of_int 115),
      pd_worst_price = Some (dec_of_int 85), pd_last_close = Some (dec_of_int 115), pd_ambiguous = True,
      pd_unresolved_reason = None\<rparr>"

lemma followed_observed:
  "observe_development LONG (dec_of_int 90) [(dec_of_int 110, 1)] (Aware 0 0) M5 followed_bars 3 False
     = Inr followed_result"
  by (simp add: observe_development_def eligible_forward_candles_def followed_bars_def followed_bar_def
      has_gap_def candle_event_def stop_level_touched_def target_touched_def dec_of_int_def dec_le_def scaled_def
      signed_def levels_comparable_def widen_def fresh_scan_def stated_def make_development_def Let_def
      coverage_end_of_def index_of_coverage_def last_of_def dec_max_def dec_min_def followed_result_def
      duration_of_def minute_def)

theorem development_is_forward_and_contiguous_witness:
  "\<exists>seen rest. eligible_forward_candles followed_bars (Aware 0 0) 3 = seen @ rest
     \<and> pd_candles_observed followed_result = length seen
     \<and> candle_event (dec_of_int 90) [(dec_of_int 110, 1)] True (last seen)
         = Some (BOTH_LEVELS_TOUCHED_SAME_BAR, Some 1)"
  using development_is_forward_and_contiguous [OF _ followed_observed]
  by (auto simp: followed_bars_def followed_bar_def followed_result_def)

theorem verdict_is_final_witness:
  "observe_development LONG (dec_of_int 90) [(dec_of_int 110, 1)] (Aware 0 0) M5
     (followed_bars @ [followed_bar 2 70 130]) 3 True = Inr followed_result"
  using followed_observed by (rule verdict_is_final) (simp add: followed_result_def)

end
