(* ===== verification/Py_Float.thy ===== *)
theory Py_Float
  imports Py_Text
begin

text \<open>
Python's \<open>float\<close>: a finite double by the rational it stands for, rounding to the nearest double with
ties to even, the arithmetic and comparisons the code uses, \<open>float(Decimal)\<close>, \<open>str(float)\<close> (the
shortest digits that read back as the same double) and \<open>Decimal(str(float))\<close>.
\<close>

section \<open>The number behind a float\<close>

text \<open>A finite float by its value; the sign of a zero is not kept.\<close>

datatype flt = FNum (fval: rat) | FInf bool | FNan

fun bits :: "nat \<Rightarrow> nat" where
  "bits n = (if n = 0 then 0 else Suc (bits (n div 2)))"

declare bits.simps [simp del]

text \<open>The exponent of the leading bit: \<open>2 ^ e \<le> x < 2 ^ (e + 1)\<close>.\<close>

definition lead_bit :: "rat \<Rightarrow> int" where
  "lead_bit x = (if 1 \<le> x then int (bits (nat \<lfloor>x\<rfloor>)) - 1 else - int (bits (nat (\<lceil>1 / x\<rceil> - 1))))"

definition nearest_even :: "rat \<Rightarrow> int" where
  "nearest_even y =
     (let f = \<lfloor>y\<rfloor>; d = y - of_int f
      in if d < 1 / 2 then f else if 1 / 2 < d then f + 1 else if even f then f else f + 1)"

text \<open>The spacing of doubles near \<open>x\<close>: 53 significant bits, and subnormals below \<open>2 ^ -1022\<close>.\<close>

definition spacing :: "rat \<Rightarrow> int" where
  "spacing x = max (lead_bit \<bar>x\<bar> - 52) (- 1074)"

definition fround :: "rat \<Rightarrow> flt" where
  "fround x =
     (if x = 0 then FNum 0
      else let u = 2 powi spacing x; v = of_int (nearest_even (x / u)) * u
           in if 2 ^ 1024 \<le> \<bar>v\<bar> then FInf (x < 0) else FNum v)"

section \<open>Arithmetic and comparison\<close>

fun fadd :: "flt \<Rightarrow> flt \<Rightarrow> flt" where
  "fadd (FNum x) (FNum y) = fround (x + y)"
| "fadd (FInf s) (FInf t) = (if s = t then FInf s else FNan)"
| "fadd (FInf s) (FNum _) = FInf s"
| "fadd (FNum _) (FInf s) = FInf s"
| "fadd _ _ = FNan"

fun fneg :: "flt \<Rightarrow> flt" where
  "fneg (FNum x) = FNum (- x)"
| "fneg (FInf s) = FInf (\<not> s)"
| "fneg FNan = FNan"

definition fsub :: "flt \<Rightarrow> flt \<Rightarrow> flt" where
  "fsub a b = fadd a (fneg b)"

fun fmul :: "flt \<Rightarrow> flt \<Rightarrow> flt" where
  "fmul (FNum x) (FNum y) = fround (x * y)"
| "fmul (FInf s) (FInf t) = FInf (s \<noteq> t)"
| "fmul (FInf s) (FNum x) = (if x = 0 then FNan else FInf (s \<noteq> (x < 0)))"
| "fmul (FNum x) (FInf s) = (if x = 0 then FNan else FInf (s \<noteq> (x < 0)))"
| "fmul _ _ = FNan"

text \<open>Python raises \<open>ZeroDivisionError\<close> where the hardware would answer infinity or NaN.\<close>

fun fdiv :: "flt \<Rightarrow> flt \<Rightarrow> flt option" where
  "fdiv a (FNum y) =
     (if y = 0 then None
      else case a of FNum x \<Rightarrow> Some (fround (x / y)) | FInf s \<Rightarrow> Some (FInf (s \<noteq> (y < 0))) | FNan \<Rightarrow> Some FNan)"
| "fdiv (FNum _) (FInf _) = Some (FNum 0)"
| "fdiv _ _ = Some FNan"

fun flt_less :: "flt \<Rightarrow> flt \<Rightarrow> bool" where
  "flt_less (FNum x) (FNum y) = (x < y)"
| "flt_less (FNum _) (FInf s) = (\<not> s)"
| "flt_less (FInf s) (FNum _) = s"
| "flt_less (FInf s) (FInf t) = (s \<and> \<not> t)"
| "flt_less _ _ = False"

fun flt_le :: "flt \<Rightarrow> flt \<Rightarrow> bool" where
  "flt_le (FNum x) (FNum y) = (x \<le> y)"
| "flt_le (FNum _) (FInf s) = (\<not> s)"
| "flt_le (FInf s) (FNum _) = s"
| "flt_le (FInf s) (FInf t) = (s \<or> \<not> t)"
| "flt_le _ _ = False"

text \<open>\<open>float(value)\<close> of a decimal.\<close>

fun flt_of_dec :: "dec \<Rightarrow> flt" where
  "flt_of_dec (DFin s c e) = fround (dval (DFin s c e))"
| "flt_of_dec (DInf s) = FInf s"
| "flt_of_dec DNaN = FNan"

section \<open>The shortest text of a float\<close>

definition lead_digit :: "rat \<Rightarrow> int" where
  "lead_digit x = (if 1 \<le> x then int (ndigits (nat \<lfloor>x\<rfloor>)) - 1 else - int (ndigits (nat (\<lceil>1 / x\<rceil> - 1))))"

text \<open>\<open>x\<close> cut to \<open>n\<close> significant digits, as coefficient and exponent.\<close>

definition cut_to :: "nat \<Rightarrow> rat \<Rightarrow> nat \<times> int" where
  "cut_to n x = (let e = lead_digit x - int n + 1 in (nat (nearest_even (x / 10 powi e)), e))"

fun first_exact :: "nat list \<Rightarrow> rat \<Rightarrow> nat \<times> int" where
  "first_exact [] x = cut_to 17 x"
| "first_exact (n # ns) x =
     (let (c, e) = cut_to n x in
      if fround (of_nat c * 10 powi e) = FNum x then (c, e) else first_exact ns x)"

text \<open>The fewest digits that read back as the same float, without trailing zeros.\<close>

definition shortest :: "rat \<Rightarrow> nat \<times> int" where
  "shortest x = (let (c, e) = first_exact [1..<17] x in strip_zeros c e (e + int (ndigits c)))"

text \<open>\<open>Decimal(str(x))\<close>: a plain text with a fractional part for exponents -4 to 15, else scientific.\<close>

fun dec_of_float :: "flt \<Rightarrow> dec" where
  "dec_of_float (FNum x) =
     (if x = 0 then DFin False 0 (- 1)
      else let (c, e) = shortest \<bar>x\<bar>; point = e + int (ndigits c)
           in if - 4 < point \<and> point \<le> 16 \<and> 0 \<le> e then DFin (x < 0) (c * 10 ^ nat (e + 1)) (- 1)
              else DFin (x < 0) c e)"
| "dec_of_float (FInf s) = DInf s"
| "dec_of_float FNan = DNaN"

fun float_text :: "flt \<Rightarrow> string" where
  "float_text (FNum x) =
     (case dec_of_float (FNum x) of
        DFin s c e \<Rightarrow>
          (let ds = nat_str c; point = e + int (length ds) in
           if - 4 < point \<and> point \<le> 16 then plain_text (DFin s c e)
           else (if s then ''-'' else '''') @ (if length ds = 1 then ds else point_at (length ds - 1) ds)
                @ ''e'' @ (if point < 1 then ''-'' else ''+'') @ two \<bar>point - 1\<bar>)
      | _ \<Rightarrow> [])"
| "float_text (FInf s) = (if s then ''-inf'' else ''inf'')"
| "float_text FNan = ''nan''"

end
