(* ===== verification/Backtest_Policy.thy ===== *)
theory Backtest_Policy
  imports Py_Float Live_Validation Instrument
begin

text \<open>
What a backtest strategy may see and answer (\<open>app/domain/backtest/policy.py\<close>), and how the levels it
derives are put on the price grid (\<open>levels.py\<close>). A level is characterised by the multiple of the
increment it lands on (\<open>level_spec\<close>), for prices that decimal arithmetic handles exactly
(\<open>grid_exact\<close>).
\<close>

section \<open>Decisions (policy.py)\<close>

datatype DecisionKind = NO_SIGNAL | WAIT | ENTRY_INTENT | EXIT_INTENT

record TargetLevel =
  tl_price :: dec
  tl_quantity :: int

record EntryIntent =
  ei_direction :: Direction
  ei_intended_entry :: dec
  ei_stop :: dec
  ei_targets :: "TargetLevel list"
  ei_quantity :: int

definition usable_price :: "dec \<Rightarrow> bool" where
  "usable_price p = (is_finite p \<and> \<not> dec_le p dec_zero)"

definition make_intent :: "EntryIntent \<Rightarrow> EntryIntent res" where
  "make_intent i =
     (if ei_direction i \<notin> {LONG, SHORT} \<or> ei_quantity i < 1 \<or> ei_targets i = []
         \<or> \<not> usable_price (ei_intended_entry i) \<or> \<not> usable_price (ei_stop i)
      then Inl StrategyInputError else Inr i)"

record StrategyDecision =
  dn_kind :: DecisionKind
  dn_reason :: string
  dn_entry :: "EntryIntent option"

definition make_strategy_decision :: "StrategyDecision \<Rightarrow> StrategyDecision res" where
  "make_strategy_decision d =
     (if strip (dn_reason d) = [] then Inl StrategyInputError
      else if (dn_kind d = ENTRY_INTENT) \<noteq> (dn_entry d \<noteq> None) then Inl StrategyInputError
      else Inr d)"

definition no_signal :: "string \<Rightarrow> StrategyDecision res" where
  "no_signal r = make_strategy_decision \<lparr>dn_kind = NO_SIGNAL, dn_reason = r, dn_entry = None\<rparr>"

definition wait :: "string \<Rightarrow> StrategyDecision res" where
  "wait r = make_strategy_decision \<lparr>dn_kind = WAIT, dn_reason = r, dn_entry = None\<rparr>"

definition exit_now :: "string \<Rightarrow> StrategyDecision res" where
  "exit_now r = make_strategy_decision \<lparr>dn_kind = EXIT_INTENT, dn_reason = r, dn_entry = None\<rparr>"

definition enter_decision :: "EntryIntent \<Rightarrow> string \<Rightarrow> StrategyDecision res" where
  "enter_decision i r = make_strategy_decision \<lparr>dn_kind = ENTRY_INTENT, dn_reason = r, dn_entry = Some i\<rparr>"

section \<open>What a rule sees\<close>

record Readings =
  rd_ema_fast :: "flt option"
  rd_ema_slow :: "flt option"
  rd_rsi :: "flt option"
  rd_atr :: "flt option"
  rd_adx :: "flt option"

definition no_readings :: Readings where
  "no_readings = \<lparr>rd_ema_fast = None, rd_ema_slow = None, rd_rsi = None, rd_atr = None, rd_adx = None\<rparr>"

definition readings_complete :: "Readings \<Rightarrow> bool" where
  "readings_complete r =
     list_all (\<lambda>v. v \<noteq> None) [rd_ema_fast r, rd_ema_slow r, rd_rsi r, rd_atr r, rd_adx r]"

record StrategyContext =
  sx_as_of :: moment
  sx_symbol :: string
  sx_driver :: Timeframe
  sx_bar :: Candle
  sx_current :: Readings
  sx_previous :: Readings
  sx_higher :: "(Timeframe \<times> Readings) list"
  sx_bars_available :: nat
  sx_has_open_position :: bool

definition make_context :: "StrategyContext \<Rightarrow> StrategyContext res" where
  "make_context c =
     (if \<not> is_aware (sx_as_of c) then Inl StrategyInputError
      else if \<not> is_closed (sx_bar c) then Inl StrategyInputError else Inr c)"

section \<open>Executable levels (levels.py)\<close>

record Alignment =
  al_intent :: EntryIntent
  al_increment :: dec
  al_moved :: "string list"

definition alignment_note :: "Alignment \<Rightarrow> string" where
  "alignment_note a =
     (if al_moved a = [] then ''levels already sit on the '' @ sci_text (al_increment a) @ '' grid''
      else concat (tl (concat (map (\<lambda>m. ['', '', m]) (al_moved a))))
           @ '' moved away from the entry onto the '' @ sci_text (al_increment a) @ '' grid'')"

definition require_increment :: "dec \<Rightarrow> unit res" where
  "require_increment increment =
     rbind (py_le increment dec_zero) (\<lambda>bad. check (\<not> bad) ValueError)"

definition price_on_grid :: "dec \<Rightarrow> dec \<Rightarrow> bool res" where
  "price_on_grid price increment =
     rbind (require_increment increment) (\<lambda>_.
       rmap (\<lambda>r. dec_eq r dec_zero) (dec_mod default_context price increment))"

definition away_from :: "dec \<Rightarrow> dec \<Rightarrow> dec \<Rightarrow> dec res" where
  "away_from entry price increment =
     rbind (require_increment increment) (\<lambda>_.
     rbind (dec_mod default_context price increment) (\<lambda>remainder.
       if dec_eq remainder dec_zero \<or> dec_eq price entry then Inr price
       else rbind (dec_sub default_context price remainder) (\<lambda>lower.
            rbind (py_less price entry) (\<lambda>below.
              if below then Inr lower else dec_add default_context lower increment))))"

fun align_targets :: "dec \<Rightarrow> dec \<Rightarrow> nat \<Rightarrow> TargetLevel list \<Rightarrow> (TargetLevel list \<times> string list) res" where
  "align_targets entry increment n [] = Inr ([], [])"
| "align_targets entry increment n (l # ls) =
     rbind (away_from entry (tl_price l) increment) (\<lambda>price.
     rbind (align_targets entry increment (Suc n) ls) (\<lambda>(rest, moved).
       Inr (\<lparr>tl_price = price, tl_quantity = tl_quantity l\<rparr> # rest,
            if dec_eq price (tl_price l) then moved else (''target '' @ nat_str n) # moved)))"

definition align_intent :: "EntryIntent \<Rightarrow> dec \<Rightarrow> Alignment res" where
  "align_intent intent increment =
     rbind (away_from (ei_intended_entry intent) (ei_stop intent) increment) (\<lambda>stop.
     rbind (align_targets (ei_intended_entry intent) increment 1 (ei_targets intent)) (\<lambda>(targets, moved).
     rbind (make_intent (intent\<lparr>ei_stop := stop, ei_targets := targets\<rparr>)) (\<lambda>aligned.
       Inr \<lparr>al_intent = aligned, al_increment = increment,
            al_moved = (if dec_eq stop (ei_stop intent) then moved else ''stop'' # moved)\<rparr>)))"

section \<open>Where a level goes\<close>

text \<open>Price and increment written to the finer of their exponents, with room for one step more.\<close>

fun grid_exact :: "dec \<Rightarrow> dec \<Rightarrow> bool" where
  "grid_exact (DFin s c e) (DFin s' c' e') =
     (c * 10 ^ nat (e - min e e') + c' * 10 ^ nat (e' - min e e') < 10 ^ 28)"
| "grid_exact _ _ = False"

definition level_spec :: "rat \<Rightarrow> rat \<Rightarrow> rat \<Rightarrow> rat" where
  "level_spec entry price inc =
     (if price = entry then price
      else if price < entry then of_int \<lfloor>price / inc\<rfloor> * inc else of_int \<lceil>price / inc\<rceil> * inc)"

lemma floor_of_nat_div: "0 < b \<Longrightarrow> \<lfloor>(of_nat a / of_nat b :: rat)\<rfloor> = int (a div b)"
  by (metis floor_divide_of_int_eq of_int_of_nat_eq zdiv_int)

lemma ceiling_of_nat_div:
  assumes "0 < b" "a mod b \<noteq> 0"
  shows "\<lceil>(of_nat a / of_nat b :: rat)\<rceil> = int (a div b) + 1"
proof -
  have "(of_nat a / of_nat b :: rat) \<notin> \<int>"
  proof
    assume "(of_nat a / of_nat b :: rat) \<in> \<int>"
    then obtain k :: int where k: "(of_nat a :: rat) = of_int k * of_nat b"
      using assms(1) by (auto elim!: Ints_cases simp: field_simps)
    then have "int a = k * int b" by (metis of_int_eq_iff of_int_mult of_int_of_nat_eq)
    then have "int a mod int b = 0" by simp
    then show False using assms(2) by (metis of_nat_eq_0_iff zmod_int)
  qed
  then have "(of_nat a / of_nat b :: rat) \<noteq> of_int (int (a div b))" by (metis Ints_of_int)
  then show ?thesis using floor_of_nat_div [OF assms(1), of a] by (simp add: ceiling_altdef)
qed

lemma fin_add_nat:
  "scaled s c e (min e e') + scaled s' c' e' (min e e') = int t \<Longrightarrow> \<not> (s \<and> s') \<Longrightarrow>
   rounding_mode x \<noteq> ROUND_FLOOR \<Longrightarrow> fin_add x s c e s' c' e' = dec_fix x False t (min e e')"
  by (cases s; cases s'; simp add: fin_add_def Let_def)

lemma away_from_level:
  assumes p: "is_finite p" "0 < dval p" and i: "is_finite inc" "0 < dval inc"
    and x: "grid_exact p inc" and e: "is_finite entry"
  obtains q where "away_from entry p inc = Inr q" "is_finite q"
    "dval q = level_spec (dval entry) (dval p) (dval inc)"
proof -
  obtain c e0 where pd: "p = DFin False c e0" "0 < c" using p by (rule pos_fin)
  obtain c' e' where id: "inc = DFin False c' e'" "0 < c'" using i by (rule pos_fin)
  define m where "m = min e0 e'"
  define a where "a = c * 10 ^ nat (e0 - m)"
  define b where "b = c' * 10 ^ nat (e' - m)"
  have ab: "a + b < 10 ^ 28" using x by (simp add: pd id a_def b_def m_def)
  have b0: "0 < b" using id by (simp add: b_def)
  have vp: "dval p = of_nat a * 10 powi m"
    using dval_scaled [of m e0 False c] by (simp add: pd a_def m_def scaled_def)
  have vi: "dval inc = of_nat b * 10 powi m"
    using dval_scaled [of m e' False c'] by (simp add: id b_def m_def scaled_def)
  have quot: "dval p / dval inc = of_nat a / of_nat b" by (simp add: vp vi)
  have small: "n \<le> a + b \<Longrightarrow> dec_fix default_context s n m = DFin s n m" for n s
    using ab ndigits_le_iff [of 28 n] by (simp add: dec_fix_exact default_context_def)
  have inc_ok: "require_increment inc = Inr ()"
    using i by (simp add: require_increment_def py_le_finite res_simps)
  have "a < 10 ^ 28" using ab by simp
  then have "a div b < 10 ^ 28" by (rule le_less_trans [OF div_le_dividend])
  then have r: "dec_mod default_context p inc = Inr (DFin False (a mod b) m)"
    using pd id small [of "a mod b" False] mod_less_eq_dividend [of a b]
    by (simp add: Let_def m_def [symmetric] a_def [symmetric] b_def [symmetric] default_context_def trans_le_add1)
  show thesis
  proof (cases "a mod b = 0 \<or> dval p = dval entry")
    case True
    have "dec_eq (DFin False (a mod b) m) dec_zero \<or> dec_eq p entry"
      using True p e by (auto simp: dec_eq_iff)
    then have "away_from entry p inc = Inr p" using inc_ok r by (simp add: away_from_def res_simps)
    moreover have "dval p = level_spec (dval entry) (dval p) (dval inc)"
    proof (cases "dval p = dval entry")
      case False
      then have "a = b * (a div b)" using True by (metis add.right_neutral mult_div_mod_eq)
      then have "(of_nat a / of_nat b :: rat) = of_int (int (a div b))"
        using b0 by (metis (mono_tags) nonzero_mult_div_cancel_left of_int_of_nat_eq of_nat_0_eq_iff of_nat_mult not_less_zero)
      then show ?thesis using i False quot by (simp add: level_spec_def) (metis ceiling_of_int floor_of_int nonzero_eq_divide_eq less_irrefl)
    qed (simp add: level_spec_def)
    ultimately show thesis using p that by blast
  next
    case False
    then have ne: "\<not> dec_eq (DFin False (a mod b) m) dec_zero" "\<not> dec_eq p entry"
      using p e by (auto simp: dec_eq_iff)
    have mp: "min e0 m = m" "min m e' = m" by (simp_all add: m_def)
    have sa: "scaled False c e0 m = int a" and sb: "scaled False c' e' m = int b"
      by (simp_all add: scaled_def a_def b_def)
    have le: "a mod b \<le> a" by simp
    have rest: "a - a mod b = b * (a div b)" by (metis minus_mod_eq_mult_div)
    have low: "dec_sub default_context p (DFin False (a mod b) m) = Inr (DFin False (a - a mod b) m)"
      using small [of "a - a mod b"] sa
      by (simp add: pd dec_sub_def fin_add_nat [of _ _ _ _ _ _ "a - a mod b"] mp default_context_def scaled_def
          of_nat_diff [OF le])
    have up: "dec_add default_context (DFin False (a - a mod b) m) inc = Inr (DFin False (a - a mod b + b) m)"
      using small [of "a - a mod b + b"] sb
        fin_add_nat [of False "a - a mod b" m e' False c' "a - a mod b + b" default_context]
      by (simp add: id mp default_context_def scaled_def of_nat_diff [OF trans_le_add1 [OF le]])
    have nz: "a mod b \<noteq> 0" using False by simp
    have v: "dval (DFin False (a - a mod b) m) = of_int \<lfloor>dval p / dval inc\<rfloor> * dval inc"
      "dval (DFin False (a - a mod b + b) m) = of_int \<lceil>dval p / dval inc\<rceil> * dval inc"
      unfolding quot unfolding floor_of_nat_div [OF b0] ceiling_of_nat_div [OF b0 nz] unfolding vi
      by (simp_all add: rest algebra_simps)
    show thesis
    proof (cases "dval p < dval entry")
      case True
      then show thesis
        using that [of "DFin False (a - a mod b) m"] inc_ok r ne low v(1) p e
        by (simp add: away_from_def res_simps py_less_finite level_spec_def)
    next
      case below: False
      then show thesis
        using that [of "DFin False (a - a mod b + b) m"] inc_ok r ne low up v(2) p e False
        by (simp add: away_from_def res_simps py_less_finite level_spec_def)
    qed
  qed
qed


section \<open>Properties\<close>

lemma floor_step:
  assumes "0 < (i::rat)"
  shows "of_int \<lfloor>p / i\<rfloor> * i \<le> p" "p < of_int \<lfloor>p / i\<rfloor> * i + i"
    "p \<le> of_int \<lceil>p / i\<rceil> * i" "of_int \<lceil>p / i\<rceil> * i < p + i"
  using assms floor_divide_lower [of i p] floor_divide_upper [of i p] ceiling_divide_upper [of i p]
    ceiling_divide_lower [of i p]
  by (simp_all add: algebra_simps)

text \<open>On the grid, on the same side of the entry, never nearer and less than one step further.\<close>

definition moved_away :: "rat \<Rightarrow> rat \<Rightarrow> rat \<Rightarrow> rat \<Rightarrow> bool" where
  "moved_away entry inc p q =
     (if p = entry then q = p
      else (\<exists>k::int. q = of_int k * inc) \<and> \<bar>p - entry\<bar> \<le> \<bar>q - entry\<bar> \<and> \<bar>q - p\<bar> < inc
        \<and> (q < entry \<longleftrightarrow> p < entry))"

lemma level_spec_moves_away: "0 < inc \<Longrightarrow> moved_away entry inc p (level_spec entry p inc)"
  using floor_step [of inc p] by (auto simp: level_spec_def moved_away_def)

lemma level_spec_stable: "0 < inc \<Longrightarrow> level_spec entry (level_spec entry p inc) inc = level_spec entry p inc"
  using floor_step [of inc p] by (auto simp: level_spec_def)

lemma align_targets_levels:
  assumes "align_targets entry inc n ls = Inr (ts, moved)"
    and "is_finite inc" "0 < dval inc" "is_finite entry"
    and "list_all (\<lambda>l. is_finite (tl_price l) \<and> 0 < dval (tl_price l) \<and> grid_exact (tl_price l) inc) ls"
  shows "list_all2 (\<lambda>l t. tl_quantity t = tl_quantity l \<and> is_finite (tl_price t)
      \<and> dval (tl_price t) = level_spec (dval entry) (dval (tl_price l)) (dval inc)) ls ts"
  using assms(1,5)
proof (induction ls arbitrary: n ts moved)
  case (Cons l ls)
  obtain q where q: "away_from entry (tl_price l) inc = Inr q" "is_finite q"
      "dval q = level_spec (dval entry) (dval (tl_price l)) (dval inc)"
    using away_from_level [of "tl_price l" inc entry] assms(2-4) Cons.prems(2) by auto
  then show ?case using Cons by (auto simp: res_simps split: if_splits)
qed (simp add: res_simps)

lemma make_intent_Inr: "make_intent i = Inr j \<Longrightarrow> j = i"
  by (simp add: make_intent_def split: if_splits)


definition sample_intent :: EntryIntent where
  "sample_intent =
     \<lparr>ei_direction = LONG, ei_intended_entry = DFin False 11120 (- 2), ei_stop = DFin False 1101450 (- 4),
      ei_targets = [\<lparr>tl_price = DFin False 1133099 (- 4), tl_quantity = 2\<rparr>], ei_quantity = 2\<rparr>"

definition sample_aligned :: EntryIntent where
  "sample_aligned = sample_intent\<lparr>ei_stop := DFin False 1101000 (- 4),
      ei_targets := [\<lparr>tl_price = DFin False 1133500 (- 4), tl_quantity = 2\<rparr>]\<rparr>"

lemmas policy_eval = align_intent_def away_from_def require_increment_def py_le_def dec_le_def scaled_def
  signed_def default_context_def fin_add_def dec_fix_def dec_sub_def make_intent_def usable_price_def py_less_def dec_zero_def

lemma sample_alignment:
  "align_intent sample_intent (DFin False 5 (- 2)) =
     Inr \<lparr>al_intent = sample_aligned, al_increment = DFin False 5 (- 2),
          al_moved = [''stop'', ''target 1'']\<rparr>"
  by (simp add: policy_eval sample_intent_def sample_aligned_def res_simps dec_eval Let_def nat_str.simps digit_char_def char_of_def bit_Suc_0_iff)


text \<open>An increment above the stop of a long intent drives the stop to zero, which the constructor of
  the aligned intent refuses with \<open>StrategyInputError\<close>.\<close>

lemma alignment_can_raise:
  "make_intent i = Inr i \<and> align_intent i (DFin False 1 0) = Inl StrategyInputError"
  if "i = \<lparr>ei_direction = LONG, ei_intended_entry = DFin False 2 0, ei_stop = DFin False 5 (- 1),
      ei_targets = [\<lparr>tl_price = DFin False 3 0, tl_quantity = 1\<rparr>], ei_quantity = 1\<rparr>"
  using that by (simp add: policy_eval res_simps dec_eval Let_def)

end
