(* ===== verification/Ema_Crossover.thy ===== *)
theory Ema_Crossover
  imports Backtest_Policy
begin

text \<open>
The reference strategy (\<open>app/domain/backtest/strategies/ema_crossover.py\<close>): its settings with the
checks of the constructor, the crossing of the two averages and the decision of one boundary. Its
indicator readings are floats, its levels decimals computed from the text of the ATR reading.
\<close>

definition IDENTIFIER :: string where "IDENTIFIER = ''ema-crossover-atr''"

definition VERSION :: string where "VERSION = ''1.0.0''"

record EmaCrossoverSettings =
  es_fast_period :: int
  es_slow_period :: int
  es_atr_stop_multiple :: dec
  es_atr_target_multiple :: dec
  es_adx_minimum :: "flt option"
  es_quantity :: int
  es_allow_long :: bool
  es_allow_short :: bool

definition default_settings :: EmaCrossoverSettings where
  "default_settings =
     \<lparr>es_fast_period = 9, es_slow_period = 20, es_atr_stop_multiple = DFin False 15 (- 1),
      es_atr_target_multiple = DFin False 30 (- 1), es_adx_minimum = Some (FNum 20), es_quantity = 1,
      es_allow_long = True, es_allow_short = True\<rparr>"

definition multiple_ok :: "dec \<Rightarrow> bool" where
  "multiple_ok v = (is_finite v \<and> \<not> dec_le v dec_zero)"

definition make_settings :: "EmaCrossoverSettings \<Rightarrow> EmaCrossoverSettings res" where
  "make_settings s =
     (if es_fast_period s < 1 \<or> es_slow_period s < 1 then Inl StrategyInputError
      else if es_slow_period s \<le> es_fast_period s then Inl StrategyInputError
      else if \<not> multiple_ok (es_atr_stop_multiple s) \<or> \<not> multiple_ok (es_atr_target_multiple s)
      then Inl StrategyInputError
      else if (case es_adx_minimum s of
                 None \<Rightarrow> False | Some m \<Rightarrow> \<not> (flt_le (FNum 0) m \<and> flt_le m (FNum 100)))
      then Inl StrategyInputError
      else if es_quantity s < 1 then Inl StrategyInputError
      else if \<not> (es_allow_long s \<or> es_allow_short s) then Inl StrategyInputError
      else Inr s)"

definition warm_up_bars :: "EmaCrossoverSettings \<Rightarrow> int" where
  "warm_up_bars s = es_slow_period s + 1"

definition readings_usable :: "Readings \<Rightarrow> EmaCrossoverSettings \<Rightarrow> bool" where
  "readings_usable r s =
     list_all (\<lambda>v. v \<noteq> None)
       ([rd_ema_fast r, rd_ema_slow r, rd_atr r] @ (if es_adx_minimum s = None then [] else [rd_adx r]))"

text \<open>Which way the fast average crossed the slow one on this candle.\<close>

definition crossing :: "StrategyContext \<Rightarrow> Direction option" where
  "crossing x =
     (case (rd_ema_fast (sx_previous x), rd_ema_slow (sx_previous x),
            rd_ema_fast (sx_current x), rd_ema_slow (sx_current x)) of
        (Some pf, Some ps, Some cf, Some cs) \<Rightarrow>
          if flt_le pf ps \<and> flt_less cs cf then Some LONG
          else if flt_le ps pf \<and> flt_less cf cs then Some SHORT
          else None
      | _ \<Rightarrow> None)"

definition lower_direction :: "Direction \<Rightarrow> string" where
  "lower_direction d = map lower_char (direction_value d)"

text \<open>The levels of an entry, from the close and the ATR reading.\<close>

definition entry_levels ::
  "EmaCrossoverSettings \<Rightarrow> Direction \<Rightarrow> dec \<Rightarrow> flt \<Rightarrow> (dec \<times> dec) res" where
  "entry_levels s d entry atr =
     rbind (dec_mul default_context (dec_of_float atr) (es_atr_stop_multiple s)) (\<lambda>distance.
     rbind (dec_mul default_context (dec_of_float atr) (es_atr_target_multiple s)) (\<lambda>reward.
       if d = LONG
       then rbind (dec_sub default_context entry distance) (\<lambda>stop.
            rbind (dec_add default_context entry reward) (\<lambda>target. Inr (stop, target)))
       else rbind (dec_add default_context entry distance) (\<lambda>stop.
            rbind (dec_sub default_context entry reward) (\<lambda>target. Inr (stop, target)))))"

definition propose_entry ::
  "EmaCrossoverSettings \<Rightarrow> Direction \<Rightarrow> dec \<Rightarrow> flt \<Rightarrow> StrategyDecision res" where
  "propose_entry s d entry atr =
     rbind (entry_levels s d entry atr) (\<lambda>(stop, target).
     rbind (py_le stop dec_zero) (\<lambda>bad_stop.
     rbind (if bad_stop then Inr True else py_le target dec_zero) (\<lambda>bad.
       if bad then wait ''the ATR stop or target would fall at or below zero on this candle''
       else rbind (make_intent
                     \<lparr>ei_direction = d, ei_intended_entry = entry, ei_stop = stop,
                      ei_targets = [\<lparr>tl_price = target, tl_quantity = es_quantity s\<rparr>],
                      ei_quantity = es_quantity s\<rparr>) (\<lambda>intent.
              enter_decision intent
                (lower_direction d @ '' EMA'' @ int_str (es_fast_period s) @ ''/EMA''
                 @ int_str (es_slow_period s) @ '' crossover confirmed on this candle'')))))"

definition below_trend_floor :: "EmaCrossoverSettings \<Rightarrow> flt option \<Rightarrow> bool" where
  "below_trend_floor s adx =
     (case es_adx_minimum s of
        None \<Rightarrow> False
      | Some m \<Rightarrow> (case adx of None \<Rightarrow> True | Some a \<Rightarrow> flt_less a m))"

definition optional_float_text :: "flt option \<Rightarrow> string" where
  "optional_float_text v = (case v of None \<Rightarrow> ''None'' | Some x \<Rightarrow> float_text x)"

definition decide :: "EmaCrossoverSettings \<Rightarrow> StrategyContext \<Rightarrow> StrategyDecision res" where
  "decide s x =
     (if int (sx_bars_available x) < warm_up_bars s
      then wait (nat_str (sx_bars_available x) @ '' of '' @ int_str (warm_up_bars s)
                 @ '' warm-up candles confirmed'')
      else if \<not> readings_usable (sx_current x) s \<or> \<not> readings_usable (sx_previous x) s
      then wait ''an indicator this rule reads is still warming up''
      else if sx_has_open_position x
      then (case crossing x of
              None \<Rightarrow> no_signal ''holding; no opposite crossover''
            | Some d \<Rightarrow> exit_now (lower_direction d @ '' crossover against the open position''))
      else (case crossing x of
              None \<Rightarrow> no_signal ''no crossover on this candle''
            | Some d \<Rightarrow>
                if d = LONG \<and> \<not> es_allow_long s
                then no_signal ''long entries are not eligible in this run''
                else if d = SHORT \<and> \<not> es_allow_short s
                then no_signal ''short entries are not eligible in this run''
                else if below_trend_floor s (rd_adx (sx_current x))
                then no_signal (''ADX '' @ optional_float_text (rd_adx (sx_current x)) @ '' is below the ''
                                @ optional_float_text (es_adx_minimum s) @ '' trend floor'')
                else (case rd_atr (sx_current x) of
                        None \<Rightarrow> wait ''ATR has no usable reading at this candle''
                      | Some atr \<Rightarrow>
                          if flt_le atr (FNum 0) then wait ''ATR has no usable reading at this candle''
                          else propose_entry s d (bar_close (sx_bar x)) atr)))"

section \<open>What a proposed entry looks like\<close>

lemma make_strategy_decision_Inr: "make_strategy_decision d = Inr e \<Longrightarrow> e = d"
  by (simp add: make_strategy_decision_def split: if_splits)

lemma decision_kinds:
  "no_signal r = Inr d \<Longrightarrow> dn_kind d = NO_SIGNAL \<and> dn_entry d = None"
  "wait r = Inr d \<Longrightarrow> dn_kind d = WAIT \<and> dn_entry d = None"
  "exit_now r = Inr d \<Longrightarrow> dn_kind d = EXIT_INTENT \<and> dn_entry d = None"
  "enter_decision i r = Inr d \<Longrightarrow> dn_kind d = ENTRY_INTENT \<and> dn_entry d = Some i"
  by (auto simp: no_signal_def wait_def exit_now_def enter_decision_def dest!: make_strategy_decision_Inr)

lemma flt_strict: "flt_less a b \<Longrightarrow> \<not> flt_le b a"
  by (cases a; cases b) auto

text \<open>The rule fires once: a crossing is not seen again at the next boundary.\<close>

lemma crossing_fires_once:
  assumes "crossing x = Some d" and "sx_previous y = sx_current x"
  shows "crossing y \<noteq> Some d"
  using assms by (auto simp: crossing_def flt_strict split: option.splits if_splits)

lemma made_intent: "make_intent j = Inr i \<Longrightarrow> i = j \<and> make_intent i = Inr i"
  by (simp add: make_intent_def split: if_splits)

lemma propose_entry_facts:
  assumes "propose_entry s d entry atr = Inr r" and "dn_kind r = ENTRY_INTENT"
  shows "\<exists>i. dn_entry r = Some i \<and> make_intent i = Inr i \<and> ei_direction i = d \<and> ei_intended_entry i = entry
    \<and> ei_quantity i = es_quantity s \<and> map tl_quantity (ei_targets i) = [es_quantity s]"
  using assms
  by (auto simp: propose_entry_def res_simps split: if_splits dest!: decision_kinds dest: made_intent)

text \<open>An entry is proposed only by a crossing of this candle, without an open position, after the
  warm-up, in an eligible direction; its quantity is the configured one and its entry the close.\<close>

lemma entry_only_on_a_crossing:
  assumes "decide s x = Inr r" and "dn_kind r = ENTRY_INTENT"
  shows "\<exists>i. dn_entry r = Some i \<and> make_intent i = Inr i \<and> \<not> sx_has_open_position x
    \<and> warm_up_bars s \<le> int (sx_bars_available x) \<and> crossing x = Some (ei_direction i)
    \<and> (ei_direction i = LONG \<longrightarrow> es_allow_long s) \<and> (ei_direction i = SHORT \<longrightarrow> es_allow_short s)
    \<and> \<not> below_trend_floor s (rd_adx (sx_current x))
    \<and> ei_intended_entry i = bar_close (sx_bar x) \<and> ei_quantity i = es_quantity s"
  using assms
  by (auto simp: decide_def split: if_splits option.splits dest!: decision_kinds dest: propose_entry_facts)

end
