(* ===== verification/Backtest_Run.thy ===== *)
theory Backtest_Run
  imports Paper_Position Backtest_Policy Replay_Session
begin

text \<open>
The backtest runner: \<open>app/domain/backtest/run.py\<close> and \<open>registry.py\<close>, the confirmed readings of
\<open>app/application/strategy/context.py\<close> and the causal walk of \<open>app/application/backtest/service.py\<close>
(\<open>_evaluate\<close>, \<open>_attempt_entry\<close>, \<open>_handle_open\<close>). The strategy, the indicator readings of a series, the
wording of reasons and the SHA-256 suffix of an identifier are parameters; storage is left out.
\<close>

section \<open>The run and what it may cost (run.py)\<close>

datatype RunStatus = RUN_PENDING | RUNNING | FAILED | COMPLETED

definition run_is_terminal :: "RunStatus \<Rightarrow> bool" where
  "run_is_terminal s = (s \<in> {COMPLETED, FAILED})"

record RunBounds =
  rb_max_boundaries :: nat
  rb_max_positions :: nat
  rb_max_warm_up_bars :: int

definition default_bounds :: RunBounds where
  "default_bounds = \<lparr>rb_max_boundaries = 2500, rb_max_positions = 200, rb_max_warm_up_bars = 500\<rparr>"

definition check_boundaries :: "RunBounds \<Rightarrow> nat \<Rightarrow> unit res" where
  "check_boundaries b n = check (n \<le> rb_max_boundaries b) (BacktestError BT_RESOURCE_LIMIT)"

definition check_positions :: "RunBounds \<Rightarrow> nat \<Rightarrow> unit res" where
  "check_positions b n = check (n \<le> rb_max_positions b) (BacktestError BT_RESOURCE_LIMIT)"

record RunInterval =
  ri_start :: moment
  ri_end :: moment

definition make_interval :: "RunInterval \<Rightarrow> RunInterval res" where
  "make_interval i =
     (if \<not> is_aware (ri_start i) \<or> \<not> is_aware (ri_end i) then Inl (BacktestError BT_INTERVAL_INVALID)
      else if instant (ri_end i) \<le> instant (ri_start i) then Inl (BacktestError BT_INTERVAL_INVALID)
      else Inr i)"

datatype DecisionOutcome =
    OUT_NO_SIGNAL | OUT_WAIT | ENTERED | REFUSED_BY_RISK | REFUSED_BY_ENGINE | EXIT_REQUESTED | HOLDING

fun decision_outcome_value :: "DecisionOutcome \<Rightarrow> string" where
  "decision_outcome_value OUT_NO_SIGNAL = ''NO_SIGNAL''"
| "decision_outcome_value OUT_WAIT = ''WAIT''"
| "decision_outcome_value ENTERED = ''ENTERED''"
| "decision_outcome_value REFUSED_BY_RISK = ''REFUSED_BY_RISK''"
| "decision_outcome_value REFUSED_BY_ENGINE = ''REFUSED_BY_ENGINE''"
| "decision_outcome_value EXIT_REQUESTED = ''EXIT_REQUESTED''"
| "decision_outcome_value HOLDING = ''HOLDING''"

record DecisionRecord =
  dr_sequence :: nat
  dr_as_of :: moment
  dr_outcome :: DecisionOutcome
  dr_reason :: string
  dr_bars_available :: nat
  dr_position_id :: "string option"
  dr_risk_outcome :: "string option"
  dr_risk_reason :: "string option"
  dr_direction :: "string option"

definition make_decision_record :: "DecisionRecord \<Rightarrow> DecisionRecord res" where
  "make_decision_record r =
     (if dr_sequence r < 1 then Inl (BacktestError BT_TRACE_INVALID)
      else if \<not> is_aware (dr_as_of r) then Inl (BacktestError BT_TRACE_INVALID)
      else if dr_outcome r = ENTERED \<and> dr_position_id r = None then Inl (BacktestError BT_TRACE_INVALID)
      else Inr r)"

section \<open>The strategies this runner implements (registry.py)\<close>

definition SUPPORTED_STRATEGIES :: "(string \<times> string list) list" where
  "SUPPORTED_STRATEGIES = [(''ema-crossover-atr'', [''1.0.0''])]"

definition require_supported_rules :: "(string \<times> string list) list \<Rightarrow> string \<Rightarrow> string \<Rightarrow> unit res" where
  "require_supported_rules table identifier version =
     (case map_of table identifier of
        None \<Rightarrow> Inl (BacktestError BT_STRATEGY_UNSUPPORTED)
      | Some known \<Rightarrow>
          check (version \<in> set known) (BacktestError BT_STRATEGY_VERSION_UNSUPPORTED))"

section \<open>Confirmed readings (application/strategy/context.py)\<close>

definition value_at :: "'a option list option \<Rightarrow> int \<Rightarrow> 'a option" where
  "value_at values index =
     (case values of
        None \<Rightarrow> None
      | Some vs \<Rightarrow> if index < 0 \<or> int (length vs) \<le> index then None else vs ! nat index)"

record HigherSeries =
  hs_timeframe :: Timeframe
  hs_candles :: "Candle list"
  hs_readings :: "Readings list"

text \<open>The readings of the last candle of the closed prefix; a timeframe without one is absent.\<close>

definition confirmed_one :: "moment \<Rightarrow> HigherSeries \<Rightarrow> (Timeframe \<times> Readings) list res" where
  "confirmed_one boundary h =
     (let n = length (takeWhile (\<lambda>c. instant (coverage_end c) \<le> instant boundary) (hs_candles h)) in
      if n = 0 then Inr []
      else if n \<le> length (hs_readings h) then Inr [(hs_timeframe h, hs_readings h ! (n - 1))]
      else Inl KeyError)"

definition confirmed_higher :: "HigherSeries list \<Rightarrow> moment \<Rightarrow> (Timeframe \<times> Readings) list res" where
  "confirmed_higher hs boundary = rmap concat (traverse (confirmed_one boundary) hs)"

section \<open>The request and the result (application/backtest)\<close>

record StrategyPolicy =
  st_identifier :: string
  st_version :: string
  st_warm_up_bars :: int
  st_decide :: "StrategyContext \<Rightarrow> StrategyDecision res"

record RunRequest =
  rq_attempt_key :: string
  rq_dataset_id :: string
  rq_driver :: Timeframe
  rq_interval :: RunInterval
  rq_strategy :: StrategyPolicy
  rq_account :: AccountState
  rq_risk :: RiskPolicy
  rq_simulation :: SimulationPolicy

record BacktestPosition =
  bp_position_id :: string
  bp_ordinal :: nat
  bp_spec :: PositionSpec
  bp_approval :: RiskApproval
  bp_events :: "PaperEvent list"

record BacktestResult =
  br_boundaries_evaluated :: nat
  br_first_boundary :: moment
  br_last_boundary :: moment
  br_decisions :: "DecisionRecord list"
  br_positions :: "BacktestPosition list"

text \<open>What one walk reads: the request and the bounds, the market and its readings, the frozen product,
  the wording of a sizing reason and of an engine refusal, and the hash that shortens attempt key and ordinal to a suffix.\<close>

record Market =
  mk_driver :: "Candle list"
  mk_readings :: "Readings list"
  mk_higher :: "HigherSeries list"

record Runner =
  rn_request :: RunRequest
  rn_bounds :: RunBounds
  rn_product :: ProductPolicy
  rn_wording :: "SizingReason \<Rightarrow> string"
  rn_refusal_text :: "refusal_code \<Rightarrow> PositionSpec \<Rightarrow> string"
  rn_suffix :: "string \<Rightarrow> nat \<Rightarrow> string"

section \<open>One boundary\<close>

record Walk =
  wk_decisions :: "DecisionRecord list"
  wk_positions :: "BacktestPosition list"
  wk_open :: "PaperPosition option"
  wk_open_ordinal :: nat
  wk_sequence :: nat

definition start_walk :: Walk where
  "start_walk = \<lparr>wk_decisions = [], wk_positions = [], wk_open = None, wk_open_ordinal = 0, wk_sequence = 0\<rparr>"

definition plain_record ::
  "nat \<Rightarrow> moment \<Rightarrow> DecisionOutcome \<Rightarrow> string \<Rightarrow> StrategyContext \<Rightarrow> string option \<Rightarrow> DecisionRecord res" where
  "plain_record n t outcome reason x pid =
     make_decision_record
       \<lparr>dr_sequence = n, dr_as_of = t, dr_outcome = outcome, dr_reason = reason,
        dr_bars_available = sx_bars_available x, dr_position_id = pid, dr_risk_outcome = None,
        dr_risk_reason = None, dr_direction = None\<rparr>"

definition frozen :: "BacktestPosition \<Rightarrow> PaperPosition \<Rightarrow> BacktestPosition" where
  "frozen r p = r\<lparr>bp_events := po_events p\<rparr>"

text \<open>\<open>positions[open_ordinal - 1] = _frozen(...)\<close>, when the position has ended.\<close>

definition store_if_terminal :: "PaperPosition \<Rightarrow> Walk \<Rightarrow> Walk" where
  "store_if_terminal p w =
     (if is_terminal (po_state p)
      then let i = wk_open_ordinal w - 1 in
           w\<lparr>wk_positions := (wk_positions w)[i := frozen (wk_positions w ! i) p], wk_open := None\<rparr>
      else w\<lparr>wk_open := Some p\<rparr>)"

definition feed_open :: "Runner \<Rightarrow> Candle \<Rightarrow> Walk \<Rightarrow> Walk res" where
  "feed_open rn bar w =
     (case wk_open w of
        None \<Rightarrow> Inr w
      | Some p \<Rightarrow> rmap (\<lambda>p'. store_if_terminal p' w) (apply_observation p bar (rn_product rn)))"

definition handle_open ::
  "nat \<Rightarrow> moment \<Rightarrow> StrategyContext \<Rightarrow> StrategyDecision \<Rightarrow> PaperPosition
     \<Rightarrow> (DecisionRecord \<times> PaperPosition) res" where
  "handle_open n t x d p =
     (let pid = Some (ps_position_id (po_spec p)) in
      if dn_kind d = EXIT_INTENT \<and> \<not> po_close_pending p
      then rbind (plain_record n t EXIT_REQUESTED (dn_reason d) x pid) (\<lambda>r.
           rmap (\<lambda>p'. (r, p')) (request_close p))
      else rmap (\<lambda>r. (r, p)) (plain_record n t HOLDING (dn_reason d) x pid))"

definition aligned :: "EntryIntent \<Rightarrow> ProductPolicy \<Rightarrow> (EntryIntent \<times> Alignment option) res" where
  "aligned intent product =
     (case pp_price_increment product of
        None \<Rightarrow> Inr (intent, None)
      | Some inc \<Rightarrow>
          if \<not> is_authoritative inc then Inr (intent, None)
          else rmap (\<lambda>a. (al_intent a, Some a)) (align_intent intent (vvalue inc)))"

definition entry_record ::
  "nat \<Rightarrow> moment \<Rightarrow> DecisionOutcome \<Rightarrow> string \<Rightarrow> StrategyContext \<Rightarrow> string option
     \<Rightarrow> (SizingReason \<Rightarrow> string) \<Rightarrow> PositionSizing \<Rightarrow> Direction \<Rightarrow> DecisionRecord res" where
  "entry_record n t outcome reason x pid wording z d =
     make_decision_record
       \<lparr>dr_sequence = n, dr_as_of = t, dr_outcome = outcome, dr_reason = reason,
        dr_bars_available = sx_bars_available x, dr_position_id = pid,
        dr_risk_outcome = Some (outcome_value (sz_outcome z)), dr_risk_reason = Some (wording (sz_reason z)),
        dr_direction = Some (direction_value d)\<rparr>"

definition entry_spec ::
  "RunRequest \<Rightarrow> string \<Rightarrow> moment \<Rightarrow> string \<Rightarrow> EntryIntent \<Rightarrow> int \<Rightarrow> PositionSpec" where
  "entry_spec rq pid t symbol i units =
     \<lparr>ps_position_id = pid, ps_symbol = symbol, ps_direction = ei_direction i, ps_quantity = units,
      ps_intended_entry = ei_intended_entry i, ps_stop = ei_stop i,
      ps_targets = map (\<lambda>l. \<lparr>tgt_price = tl_price l, tgt_quantity = min (tl_quantity l) units\<rparr>) (ei_targets i),
      ps_timeframe = rq_driver rq, ps_decision_time = t, ps_policy = rq_simulation rq,
      ps_origin = STRATEGY_BACKTEST, ps_note = None\<rparr>"

text \<open>The part of \<open>_attempt_entry\<close> after the sizing: a refusal of the engine is recorded, every other
  exception leaves the walk.\<close>

definition refusal_of :: "exn \<Rightarrow> refusal_code option" where
  "refusal_of e = (case e of PaperRefusalError code \<Rightarrow> Some code | _ \<Rightarrow> None)"

definition open_approved ::
  "Runner \<Rightarrow> nat \<Rightarrow> moment \<Rightarrow> StrategyContext \<Rightarrow> string \<Rightarrow> PositionSizing \<Rightarrow> int \<Rightarrow> EntryIntent \<Rightarrow> nat
     \<Rightarrow> (PaperPosition option \<times> DecisionRecord) res" where
  "open_approved rn n t x reason z k intent ordinal =
     (let rq = rn_request rn; d = ei_direction intent;
          pid = ''BP-'' @ rn_suffix rn (rq_attempt_key rq) ordinal in
      rbind (make_spec (entry_spec rq pid t (sx_symbol x) intent (min (ei_quantity intent) k))) (\<lambda>spec.
      case open_position spec (from_sizing (rn_wording rn) z) (rn_product rn) of
        Inr p \<Rightarrow>
          rmap (Pair (Some p))
            (entry_record n t ENTERED reason x (Some (ps_position_id spec)) (rn_wording rn) z d)
      | Inl e \<Rightarrow>
          (case refusal_of e of
             Some code \<Rightarrow>
               rmap (Pair None)
                 (entry_record n t REFUSED_BY_ENGINE (rn_refusal_text rn code spec) x None (rn_wording rn) z d)
           | None \<Rightarrow> Inl e)))"

definition sized_units :: "PositionSizing \<Rightarrow> int option" where
  "sized_units z =
     (if sz_outcome z = ALLOWED
      then case sz_allowed_contracts z of Some k \<Rightarrow> if k = 0 then None else Some k | None \<Rightarrow> None
      else None)"

text \<open>\<open>_attempt_entry\<close>: grid, then risk, then the engine.\<close>

definition attempt_entry ::
  "Runner \<Rightarrow> nat \<Rightarrow> moment \<Rightarrow> StrategyContext \<Rightarrow> EntryIntent \<Rightarrow> string \<Rightarrow> nat
     \<Rightarrow> (PaperPosition option \<times> DecisionRecord) res" where
  "attempt_entry rn n t x intent0 reason0 ordinal =
     rbind (aligned intent0 (rn_product rn)) (\<lambda>(intent, al).
     let reason = (case al of
                     Some a \<Rightarrow> if al_moved a \<noteq> [] then reason0 @ ''; '' @ alignment_note a else reason0
                   | None \<Rightarrow> reason0) in
     rbind (size_for_product (ei_direction intent) (ei_intended_entry intent) (ei_stop intent)
              (rn_product rn) (rq_account (rn_request rn)) (rq_risk (rn_request rn))) (\<lambda>z.
     case sized_units z of
       None \<Rightarrow>
         rmap (Pair None)
           (entry_record n t REFUSED_BY_RISK reason x None (rn_wording rn) z (ei_direction intent))
     | Some k \<Rightarrow> open_approved rn n t x reason z k intent ordinal))"

definition boundary_context ::
  "Runner \<Rightarrow> Market \<Rightarrow> nat \<Rightarrow> moment \<Rightarrow> bool \<Rightarrow> StrategyContext res" where
  "boundary_context rn mk index boundary opened =
     (let bar = mk_driver mk ! index in
      rbind (confirmed_higher (mk_higher mk) boundary) (\<lambda>higher.
      make_context
        \<lparr>sx_as_of = boundary, sx_symbol = bar_symbol bar, sx_driver = rq_driver (rn_request rn), sx_bar = bar,
         sx_current = mk_readings mk ! index,
         sx_previous = (if index = 0 then no_readings else mk_readings mk ! (index - 1)),
         sx_higher = higher, sx_bars_available = Suc index, sx_has_open_position = opened\<rparr>))"

definition add_record :: "Walk \<Rightarrow> DecisionRecord \<Rightarrow> Walk" where
  "add_record w r = w\<lparr>wk_decisions := wk_decisions w @ [r]\<rparr>"

definition add_position :: "PaperPosition \<Rightarrow> Walk \<Rightarrow> Walk" where
  "add_position p w =
     w\<lparr>wk_positions := wk_positions w @
          [\<lparr>bp_position_id = ps_position_id (po_spec p), bp_ordinal = Suc (length (wk_positions w)),
            bp_spec = po_spec p, bp_approval = po_approval p, bp_events = po_events p\<rparr>],
       wk_open := Some p, wk_open_ordinal := Suc (length (wk_positions w))\<rparr>"

definition take_entry ::
  "Runner \<Rightarrow> nat \<Rightarrow> moment \<Rightarrow> StrategyContext \<Rightarrow> StrategyDecision \<Rightarrow> Walk \<Rightarrow> Walk res" where
  "take_entry rn n t x d w =
     (case dn_entry d of
        None \<Rightarrow> Inl AssertionError
      | Some i \<Rightarrow>
          rbind (attempt_entry rn n t x i (dn_reason d) (Suc (length (wk_positions w)))) (\<lambda>(opened, r).
          let w' = add_record w r in
          case opened of
            None \<Rightarrow> Inr w'
          | Some p \<Rightarrow>
              rmap (\<lambda>_. add_position p w') (check_positions (rn_bounds rn) (Suc (length (wk_positions w))))))"

definition act_on_decision ::
  "Runner \<Rightarrow> nat \<Rightarrow> moment \<Rightarrow> StrategyContext \<Rightarrow> StrategyDecision \<Rightarrow> Walk \<Rightarrow> Walk res" where
  "act_on_decision rn n t x d w =
     (case wk_open w of
        Some p \<Rightarrow> rmap (\<lambda>(r, p'). store_if_terminal p' (add_record w r)) (handle_open n t x d p)
      | None \<Rightarrow>
          if dn_kind d = WAIT
          then rmap (add_record w) (plain_record n t OUT_WAIT (dn_reason d) x None)
          else if dn_kind d \<in> {NO_SIGNAL, EXIT_INTENT}
          then rmap (add_record w) (plain_record n t OUT_NO_SIGNAL (dn_reason d) x None)
          else take_entry rn n t x d w)"

text \<open>The body of the loop: the bar goes to the open position first, then the rule is asked.\<close>

definition evaluate_boundary :: "Runner \<Rightarrow> Market \<Rightarrow> Walk \<Rightarrow> nat \<times> moment \<Rightarrow> Walk res" where
  "evaluate_boundary rn mk w0 b =
     (let n = Suc (wk_sequence w0) in
      rbind (feed_open rn (mk_driver mk ! fst b) (w0\<lparr>wk_sequence := n\<rparr>)) (\<lambda>w.
      rbind (boundary_context rn mk (fst b) (snd b) (wk_open w \<noteq> None)) (\<lambda>x.
      rbind (st_decide (rq_strategy (rn_request rn)) x) (\<lambda>d.
        act_on_decision rn n (snd b) x d w))))"

section \<open>The whole walk\<close>

definition named :: "string \<Rightarrow> Candle list \<Rightarrow> Candle list" where
  "named symbol cs = map (\<lambda>c. c\<lparr>bar_symbol := symbol\<rparr>) cs"

text \<open>Every driver boundary inside the window, with its index.\<close>

definition boundaries_in :: "Candle list \<Rightarrow> RunInterval \<Rightarrow> (nat \<times> moment) list" where
  "boundaries_in cs i =
     filter (\<lambda>(_, t). instant (ri_start i) \<le> instant t \<and> instant t \<le> instant (ri_end i))
       (enumerate 0 (map coverage_end cs))"

text \<open>The dataset ended while a position was open: it stays open, with its ledger so far.\<close>

definition close_walk :: "Walk \<Rightarrow> BacktestPosition list" where
  "close_walk w =
     (case wk_open w of
        None \<Rightarrow> wk_positions w
      | Some p \<Rightarrow> let i = wk_open_ordinal w - 1 in (wk_positions w)[i := frozen (wk_positions w ! i) p])"

definition market_of :: "(Candle list \<Rightarrow> Readings list) \<Rightarrow> Candle list \<Rightarrow> (Timeframe \<times> Candle list) list \<Rightarrow> Market" where
  "market_of readings_of driver higher =
     \<lparr>mk_driver = driver, mk_readings = readings_of driver,
      mk_higher = map (\<lambda>(tf, cs). \<lparr>hs_timeframe = tf, hs_candles = cs, hs_readings = readings_of cs\<rparr>) higher\<rparr>"

definition evaluate ::
  "Runner \<Rightarrow> (Candle list \<Rightarrow> Readings list) \<Rightarrow> Candle list \<Rightarrow> (Timeframe \<times> Candle list) list
     \<Rightarrow> BacktestResult res" where
  "evaluate rn readings_of driver higher =
     (let rq = rn_request rn; bs = boundaries_in driver (rq_interval rq) in
      if bs = [] then Inl (BacktestError BT_INTERVAL_EMPTY)
      else
        rbind (check_boundaries (rn_bounds rn) (length bs)) (\<lambda>_.
        if rb_max_warm_up_bars (rn_bounds rn) < st_warm_up_bars (rq_strategy rq)
        then Inl (BacktestError BT_RESOURCE_LIMIT)
        else
          rbind (run_all (evaluate_boundary rn (market_of readings_of driver higher)) start_walk bs) (\<lambda>w.
            Inr \<lparr>br_boundaries_evaluated = length bs, br_first_boundary = snd (hd bs),
                 br_last_boundary = snd (last bs), br_decisions = wk_decisions w,
                 br_positions = close_walk w\<rparr>)))"

section \<open>What a dataset must satisfy first\<close>

text \<open>\<open>_require_dataset_on_grid\<close> and \<open>_require_slippage_on_grid\<close>: only against a verified increment.\<close>

datatype GridRefusal = DATASET_OFF_PRODUCT_GRID | SLIPPAGE_OFF_PRODUCT_GRID

fun first_off_grid :: "dec \<Rightarrow> dec list \<Rightarrow> bool res" where
  "first_off_grid tick [] = Inr False"
| "first_off_grid tick (p # ps) =
     rbind (price_on_grid p tick) (\<lambda>ok. if ok then first_off_grid tick ps else Inr True)"

definition dataset_on_grid :: "Candle list \<Rightarrow> ProductPolicy \<Rightarrow> GridRefusal option res" where
  "dataset_on_grid driver product =
     (case pp_price_increment product of
        None \<Rightarrow> Inr None
      | Some inc \<Rightarrow>
          if \<not> is_authoritative inc then Inr None
          else rmap (\<lambda>bad. if bad then Some DATASET_OFF_PRODUCT_GRID else None)
                 (first_off_grid (vvalue inc)
                    (concat (map (\<lambda>c. [bar_open c, bar_high c, bar_low c, bar_close c]) driver))))"

definition slippage_on_grid :: "SimulationPolicy \<Rightarrow> ProductPolicy \<Rightarrow> GridRefusal option res" where
  "slippage_on_grid simulation product =
     (case sl_points (sp_slippage simulation) of
        None \<Rightarrow> Inr None
      | Some pts \<Rightarrow>
          if dec_eq pts dec_zero then Inr None
          else case pp_price_increment product of
            None \<Rightarrow> Inr None
          | Some inc \<Rightarrow>
              if \<not> is_authoritative inc then Inr None
              else rmap (\<lambda>ok. if ok then None else Some SLIPPAGE_OFF_PRODUCT_GRID)
                     (price_on_grid pts (vvalue inc)))"

section \<open>What the trace says\<close>

fun count_outcome :: "DecisionOutcome \<Rightarrow> DecisionRecord list \<Rightarrow> nat" where
  "count_outcome k [] = 0"
| "count_outcome k (r # rs) = (if dr_outcome r = k then 1 else 0) + count_outcome k rs"

text \<open>\<open>_decision_counts\<close>: in the order in which the outcomes first occurred.\<close>

fun decision_counts :: "DecisionRecord list \<Rightarrow> (string \<times> nat) list \<Rightarrow> (string \<times> nat) list" where
  "decision_counts [] counts = counts"
| "decision_counts (r # rs) counts =
     (let k = decision_outcome_value (dr_outcome r) in
      decision_counts rs
        (if map_of counts k = None then counts @ [(k, 1)]
         else map (\<lambda>(k', n). (k', if k' = k then Suc n else n)) counts))"

definition validated_key :: "(char \<Rightarrow> bool) \<Rightarrow> string \<Rightarrow> string option" where
  "validated_key isalnum key =
     (let s = strip key in
      if 16 \<le> length s \<and> length s \<le> 128 \<and> list_all (\<lambda>c. isalnum c \<or> c = CHR ''-'' \<or> c = CHR ''_'') s
      then Some s else None)"

end
