(* ===== verification/Backtest_Walk.thy ===== *)
theory Backtest_Walk
  imports Backtest_Run Sizing_Props
begin

text \<open>
Lemmas on the causal walk of a backtest: what one boundary does (\<open>act_cases\<close>), the invariant of the
walk (\<open>walk_inv\<close>: the trace is numbered, one position at most is open, every recorded position is
what the paper engine made of its specification), that a walk only adds (\<open>only_adds\<close>), and that a
boundary reads nothing that has not closed (\<open>agree_until\<close>).
\<close>

section \<open>What one boundary does\<close>

lemma make_decision_record_Inr: "make_decision_record r = Inr r' \<Longrightarrow> r' = r"
  by (simp add: make_decision_record_def split: if_splits)

lemma plain_record_facts:
  "plain_record n t k reason x pid = Inr r \<Longrightarrow>
   dr_sequence r = n \<and> dr_as_of r = t \<and> dr_outcome r = k \<and> dr_position_id r = pid"
  by (auto simp: plain_record_def dest!: make_decision_record_Inr)

lemma entry_record_facts:
  "entry_record n t k reason x pid wording z d = Inr r \<Longrightarrow>
   dr_sequence r = n \<and> dr_as_of r = t \<and> dr_outcome r = k \<and> dr_position_id r = pid"
  by (auto simp: entry_record_def dest!: make_decision_record_Inr)

lemma evaluate_boundary_cases:
  assumes "evaluate_boundary rn mk w0 b = Inr w'"
  obtains w x d where "feed_open rn (mk_driver mk ! fst b) (w0\<lparr>wk_sequence := Suc (wk_sequence w0)\<rparr>) = Inr w"
    "boundary_context rn mk (fst b) (snd b) (wk_open w \<noteq> None) = Inr x"
    "st_decide (rq_strategy (rn_request rn)) x = Inr d"
    "act_on_decision rn (Suc (wk_sequence w0)) (snd b) x d w = Inr w'"
  using assms by (auto simp: evaluate_boundary_def Let_def res_simps)

lemma handle_open_facts:
  assumes "handle_open n t x d p = Inr (r, p')"
  shows "dr_sequence r = n \<and> dr_as_of r = t \<and> dr_outcome r \<noteq> ENTERED" "p' = p \<or> request_close p = Inr p'"
  using assms by (auto simp: handle_open_def Let_def res_simps split: if_splits dest!: plain_record_facts)

text \<open>The four things a decision can lead to.\<close>

lemma act_cases:
  assumes "act_on_decision rn n t x d w = Inr w'"
  obtains (holding) p r p' where "wk_open w = Some p" "handle_open n t x d p = Inr (r, p')"
      "w' = store_if_terminal p' (add_record w r)"
  | (quiet) r where "wk_open w = None" "w' = add_record w r" "dr_sequence r = n" "dr_as_of r = t"
      "dr_outcome r \<noteq> ENTERED"
  | (refused) i r where "wk_open w = None" "w' = add_record w r"
      "attempt_entry rn n t x i (dn_reason d) (Suc (length (wk_positions w))) = Inr (None, r)"
  | (entered) i r p where "wk_open w = None" "w' = add_position p (add_record w r)"
      "attempt_entry rn n t x i (dn_reason d) (Suc (length (wk_positions w))) = Inr (Some p, r)"
      "Suc (length (wk_positions w)) \<le> rb_max_positions (rn_bounds rn)"
proof (cases "wk_open w")
  case (Some p)
  then show ?thesis using assms that(1) by (auto simp: act_on_decision_def res_simps)
next
  case None
  show ?thesis
  proof (cases "dn_kind d = ENTRY_INTENT")
    case False
    then have "dn_kind d = WAIT \<or> dn_kind d \<in> {NO_SIGNAL, EXIT_INTENT}" by (cases "dn_kind d") auto
    then show ?thesis
      using assms None that(2)
      by (auto simp: act_on_decision_def res_simps split: if_splits dest!: plain_record_facts)
  next
    case True
    then have "take_entry rn n t x d w = Inr w'" using assms None by (simp add: act_on_decision_def)
    then obtain i o_p r where a: "attempt_entry rn n t x i (dn_reason d) (Suc (length (wk_positions w))) = Inr (o_p, r)"
      and c: "(case o_p of None \<Rightarrow> Inr (add_record w r)
          | Some p \<Rightarrow> rmap (\<lambda>_. add_position p (add_record w r))
              (check_positions (rn_bounds rn) (Suc (length (wk_positions w))))) = Inr w'"
      by (cases "dn_entry d") (auto simp: take_entry_def rbind_Inr_iff Let_def)
    show ?thesis
    proof (cases o_p)
      case None
      then show thesis using that(3) [OF \<open>wk_open w = None\<close>, of r i] a c by simp
    next
      case (Some p)
      then show thesis using that(4) [OF \<open>wk_open w = None\<close>, of p r i] a c
        by (auto simp: check_positions_def res_simps)
    qed
  qed
qed

text \<open>A position is opened only from an allowed size, with at most that size and the rule's own.\<close>

definition approved :: "Runner \<Rightarrow> PositionSpec \<Rightarrow> RiskApproval \<Rightarrow> bool" where
  "approved rn s a \<longleftrightarrow>
     (\<exists>z k q. size_for_product (ps_direction s) (ps_intended_entry s) (ps_stop s) (rn_product rn)
          (rq_account (rn_request rn)) (rq_risk (rn_request rn)) = Inr z
        \<and> sz_outcome z = ALLOWED \<and> sz_allowed_contracts z = Some k \<and> ps_quantity s = min q k
        \<and> a = from_sizing (rn_wording rn) z)"

lemma make_spec_Inr: "make_spec s = Inr s' \<Longrightarrow> s' = s \<and> make_spec s = Inr s"
  by (auto simp: make_spec_def Let_def res_simps)

lemma open_approved_cases:
  assumes "open_approved rn n t x reason z k intent ordinal = Inr (o_p, r)"
  obtains (refused) "o_p = None" "dr_sequence r = n" "dr_as_of r = t" "dr_outcome r = REFUSED_BY_ENGINE"
  | (opened) p pid spec where "o_p = Some p" "dr_sequence r = n" "dr_as_of r = t" "dr_outcome r = ENTERED"
      "dr_position_id r = Some (ps_position_id spec)"
      "spec = entry_spec (rn_request rn) pid t (sx_symbol x) intent (min (ei_quantity intent) k)"
      "make_spec spec = Inr spec" "open_position spec (from_sizing (rn_wording rn) z) (rn_product rn) = Inr p"
proof -
  let ?spec = "\<lambda>pid. entry_spec (rn_request rn) pid t (sx_symbol x) intent (min (ei_quantity intent) k)"
  let ?open = "\<lambda>spec. open_position spec (from_sizing (rn_wording rn) z) (rn_product rn)"
  obtain pid spec where s: "make_spec (?spec pid) = Inr spec"
    and c: "(case ?open spec of
        Inr p \<Rightarrow> rmap (Pair (Some p))
            (entry_record n t ENTERED reason x (Some (ps_position_id spec)) (rn_wording rn) z (ei_direction intent))
      | Inl e \<Rightarrow> (case refusal_of e of
             Some code \<Rightarrow> rmap (Pair None)
                 (entry_record n t REFUSED_BY_ENGINE (rn_refusal_text rn code spec) x None (rn_wording rn) z
                    (ei_direction intent))
           | None \<Rightarrow> Inl e)) = Inr (o_p, r)"
    using assms unfolding open_approved_def Let_def rbind_Inr_iff by blast
  note e = make_spec_Inr [OF s]
  show thesis
  proof (cases "?open spec")
    case (Inl ex)
    then show thesis using c that(1) by (auto simp: res_simps split: option.split_asm dest!: entry_record_facts)
  next
    case (Inr p)
    then show thesis using c that(2) e by (auto simp: res_simps dest!: entry_record_facts)
  qed
qed

lemma attempt_entry_cases:
  assumes "attempt_entry rn n t x i reason0 ordinal = Inr (o_p, r)"
  obtains (by_risk) "o_p = None" "dr_sequence r = n" "dr_as_of r = t" "dr_outcome r = REFUSED_BY_RISK"
  | (sized) reason z k intent where "size_for_product (ei_direction intent) (ei_intended_entry intent)
        (ei_stop intent) (rn_product rn) (rq_account (rn_request rn)) (rq_risk (rn_request rn)) = Inr z"
      "sz_outcome z = ALLOWED" "sz_allowed_contracts z = Some k"
      "open_approved rn n t x reason z k intent ordinal = Inr (o_p, r)"
proof -
  from assms obtain intent al reason z where z: "size_for_product (ei_direction intent)
        (ei_intended_entry intent) (ei_stop intent) (rn_product rn) (rq_account (rn_request rn))
        (rq_risk (rn_request rn)) = Inr z"
    and c: "(case sized_units z of
       None \<Rightarrow> rmap (Pair None)
           (entry_record n t REFUSED_BY_RISK reason x None (rn_wording rn) z (ei_direction intent))
     | Some k \<Rightarrow> open_approved rn n t x reason z k intent ordinal) = Inr (o_p, r)"
    unfolding attempt_entry_def Let_def by (auto simp: rbind_Inr_iff)
  show thesis
  proof (cases "sized_units z")
    case None
    then show thesis using c that(1) by (auto simp: res_simps dest!: entry_record_facts)
  next
    case (Some k)
    then have "sz_outcome z = ALLOWED" "sz_allowed_contracts z = Some k"
      by (auto simp: sized_units_def split: if_splits option.splits)
    then show thesis using c that(2) [OF z] Some by simp
  qed
qed

lemma attempt_entry_refused:
  assumes "attempt_entry rn n t x i reason ordinal = Inr (None, r)"
  shows "dr_sequence r = n" "dr_as_of r = t" "dr_outcome r \<noteq> ENTERED"
  using assms by (auto elim!: attempt_entry_cases open_approved_cases)

lemma attempt_entry_opened:
  assumes "attempt_entry rn n t x i reason ordinal = Inr (Some p, r)"
  shows "dr_sequence r = n" "dr_as_of r = t" "dr_outcome r = ENTERED"
    "dr_position_id r = Some (ps_position_id (po_spec p))"
    "approved rn (po_spec p) (po_approval p)"
    "open_position (po_spec p) (po_approval p) (rn_product rn) = Inr p"
    "make_spec (po_spec p) = Inr (po_spec p)" "ps_policy (po_spec p) = rq_simulation (rn_request rn)"
    "ps_decision_time (po_spec p) = t"
proof -
  obtain reason z k intent where z: "size_for_product (ei_direction intent) (ei_intended_entry intent)
        (ei_stop intent) (rn_product rn) (rq_account (rn_request rn)) (rq_risk (rn_request rn)) = Inr z"
      "sz_outcome z = ALLOWED" "sz_allowed_contracts z = Some k"
    and "open_approved rn n t x reason z k intent ordinal = Inr (Some p, r)"
    using assms by (elim attempt_entry_cases) auto
  then obtain pid spec where r: "dr_sequence r = n" "dr_as_of r = t" "dr_outcome r = ENTERED"
      "dr_position_id r = Some (ps_position_id spec)"
    and e: "spec = entry_spec (rn_request rn) pid t (sx_symbol x) intent (min (ei_quantity intent) k)"
      "make_spec spec = Inr spec"
    and o: "open_position spec (from_sizing (rn_wording rn) z) (rn_product rn) = Inr p"
    by (elim open_approved_cases) auto
  have p: "po_spec p = spec" "po_approval p = from_sizing (rn_wording rn) z"
    using o by (auto simp: open_position_def res_simps)
  show "dr_sequence r = n" "dr_as_of r = t" "dr_outcome r = ENTERED"
    "dr_position_id r = Some (ps_position_id (po_spec p))"
    "open_position (po_spec p) (po_approval p) (rn_product rn) = Inr p"
    "make_spec (po_spec p) = Inr (po_spec p)" using r o e(2) p by simp_all
  show "approved rn (po_spec p) (po_approval p)"
    unfolding approved_def p using z e(1) by (auto simp: entry_spec_def)
  show "ps_policy (po_spec p) = rq_simulation (rn_request rn)" "ps_decision_time (po_spec p) = t"
    unfolding p using e(1) by (simp_all add: entry_spec_def)
qed


section \<open>The invariant of the walk\<close>

text \<open>A recorded position is what the paper engine made of its specification and some inputs.\<close>

definition engine_made :: "ProductPolicy \<Rightarrow> PositionSpec \<Rightarrow> RiskApproval \<Rightarrow> PaperPosition \<Rightarrow> bool" where
  "engine_made product s a p \<longleftrightarrow> (\<exists>inputs. replay s a product inputs = Inr p) \<and> po_spec p = s \<and> po_approval p = a"

definition settled :: "ProductPolicy \<Rightarrow> BacktestPosition \<Rightarrow> bool" where
  "settled product r \<longleftrightarrow> (\<exists>p. engine_made product (bp_spec r) (bp_approval r) p
     \<and> bp_events r = po_events p \<and> is_terminal (po_state p))"

definition still_open :: "ProductPolicy \<Rightarrow> BacktestPosition \<Rightarrow> PaperPosition \<Rightarrow> bool" where
  "still_open product r p \<longleftrightarrow> engine_made product (bp_spec r) (bp_approval r) p \<and> \<not> is_terminal (po_state p)"

definition position_recorded :: "Runner \<Rightarrow> BacktestPosition \<Rightarrow> bool" where
  "position_recorded rn r \<longleftrightarrow> bp_position_id r = ps_position_id (bp_spec r) \<and> make_spec (bp_spec r) = Inr (bp_spec r)
     \<and> ps_policy (bp_spec r) = rq_simulation (rn_request rn) \<and> approved rn (bp_spec r) (bp_approval r)"

definition open_ok :: "ProductPolicy \<Rightarrow> Walk \<Rightarrow> bool" where
  "open_ok product w =
     (case wk_open w of
        None \<Rightarrow> list_all (settled product) (wk_positions w)
      | Some p \<Rightarrow> wk_positions w \<noteq> [] \<and> wk_open_ordinal w = length (wk_positions w)
          \<and> list_all (settled product) (butlast (wk_positions w))
          \<and> still_open product (last (wk_positions w)) p)"

definition trace_ok :: "Walk \<Rightarrow> bool" where
  "trace_ok w \<longleftrightarrow> map dr_sequence (wk_decisions w) = [1..<Suc (wk_sequence w)]
     \<and> map dr_position_id (filter (\<lambda>r. dr_outcome r = ENTERED) (wk_decisions w))
         = map (\<lambda>r. Some (bp_position_id r)) (wk_positions w)"

definition positions_ok :: "Runner \<Rightarrow> Walk \<Rightarrow> bool" where
  "positions_ok rn w \<longleftrightarrow> open_ok (rn_product rn) w \<and> list_all (position_recorded rn) (wk_positions w)
     \<and> map bp_ordinal (wk_positions w) = [1..<Suc (length (wk_positions w))]
     \<and> length (wk_positions w) \<le> rb_max_positions (rn_bounds rn)"

definition walk_inv :: "Runner \<Rightarrow> Walk \<Rightarrow> bool" where
  "walk_inv rn w \<longleftrightarrow> positions_ok rn w \<and> trace_ok w"

lemma start_walk_inv: "walk_inv rn start_walk"
  by (simp add: walk_inv_def positions_ok_def start_walk_def trace_ok_def open_ok_def)

text \<open>One more input to the open position.\<close>

lemma engine_made_step:
  assumes m: "engine_made product s a p" and spec: "make_spec s = Inr s" "made_spec s"
    and i: "apply_input product p item = Inr p'"
  shows "engine_made product s a p'"
proof -
  obtain inputs where r: "replay s a product inputs = Inr p" using m by (auto simp: engine_made_def)
  have inv: "paper_inv p" by (rule replay_inv [OF r spec(2)])
  have "replay s a product (inputs @ [item]) = Inr p'"
    using r i by (auto simp: replay_def run_all_snoc res_simps)
  then show ?thesis
    using m apply_input_frame(1,2) [OF i inv] by (auto simp: engine_made_def)
qed

definition made_simulation :: "SimulationPolicy \<Rightarrow> bool" where
  "made_simulation p \<longleftrightarrow> make_slippage (sp_slippage p) = Inr (sp_slippage p)
     \<and> make_fees (sp_fees p) = Inr (sp_fees p) \<and> make_simulation_policy p = Inr p"

lemma position_recorded_made:
  "position_recorded rn r \<Longrightarrow> made_simulation (rq_simulation (rn_request rn)) \<Longrightarrow> made_spec (bp_spec r)"
  by (simp add: position_recorded_def made_simulation_def made_spec_def)

lemma store_if_terminal_simps [simp]:
  "wk_decisions (store_if_terminal p w) = wk_decisions w" "wk_sequence (store_if_terminal p w) = wk_sequence w"
  "length (wk_positions (store_if_terminal p w)) = length (wk_positions w)"
  by (simp_all add: store_if_terminal_def Let_def)

lemma open_ok_split:
  assumes "open_ok product w" "wk_open w = Some p"
  obtains rs r where "wk_positions w = rs @ [r]" "wk_open_ordinal w = Suc (length rs)"
      "list_all (settled product) rs" "still_open product r p"
  using assms by (cases "wk_positions w" rule: rev_cases) (auto simp: open_ok_def)

lemma store_positions:
  assumes "positions_ok rn w" "wk_open w = Some p"
    and e: "engine_made (rn_product rn) (po_spec p) (po_approval p) p'"
  shows "positions_ok rn (store_if_terminal p' w)"
    and "map bp_position_id (wk_positions (store_if_terminal p' w)) = map bp_position_id (wk_positions w)"
proof -
  have "open_ok (rn_product rn) w" using assms(1) by (simp add: positions_ok_def)
  then obtain rs r where w: "wk_positions w = rs @ [r]" "wk_open_ordinal w = Suc (length rs)"
      "list_all (settled (rn_product rn)) rs" "still_open (rn_product rn) r p"
    using assms(2) by (rule open_ok_split)
  have same: "po_spec p = bp_spec r" "po_approval p = bp_approval r"
    using w(4) by (auto simp: still_open_def engine_made_def)
  have "open_ok (rn_product rn) (store_if_terminal p' w)"
    using w e same by (auto simp: store_if_terminal_def open_ok_def frozen_def settled_def still_open_def)
  then show "positions_ok rn (store_if_terminal p' w)"
    using assms(1) w by (auto simp: positions_ok_def store_if_terminal_def frozen_def position_recorded_def)
  show "map bp_position_id (wk_positions (store_if_terminal p' w)) = map bp_position_id (wk_positions w)"
    using w by (simp add: store_if_terminal_def frozen_def)
qed

lemma open_made_spec:
  assumes "positions_ok rn w" "wk_open w = Some p" "made_simulation (rq_simulation (rn_request rn))"
  shows "made_spec (po_spec p)" and "make_spec (po_spec p) = Inr (po_spec p)"
    and "engine_made (rn_product rn) (po_spec p) (po_approval p) p"
proof -
  have "open_ok (rn_product rn) w" using assms(1) by (simp add: positions_ok_def)
  then obtain rs r where w: "wk_positions w = rs @ [r]" "still_open (rn_product rn) r p"
    using assms(2) by (rule open_ok_split)
  have "position_recorded rn r" using assms(1) w by (simp add: positions_ok_def)
  then show "made_spec (po_spec p)" "make_spec (po_spec p) = Inr (po_spec p)"
      "engine_made (rn_product rn) (po_spec p) (po_approval p) p"
    using w(2) position_recorded_made [of rn r] assms(3)
    by (auto simp: still_open_def engine_made_def position_recorded_def)
qed

lemma fed_position:
  assumes "positions_ok rn w" "wk_open w = Some p" "made_simulation (rq_simulation (rn_request rn))"
    and "apply_input (rn_product rn) p item = Inr p'"
  shows "engine_made (rn_product rn) (po_spec p) (po_approval p) p'"
  using engine_made_step [OF open_made_spec(3) [OF assms(1-3)] open_made_spec(2,1) [OF assms(1-3)] assms(4)] .

lemma feed_open_inv:
  assumes "feed_open rn bar w = Inr w'" and "positions_ok rn w"
    and sim: "made_simulation (rq_simulation (rn_request rn))"
  shows "positions_ok rn w'" "wk_decisions w' = wk_decisions w" "wk_sequence w' = wk_sequence w"
    "map bp_position_id (wk_positions w') = map bp_position_id (wk_positions w)"
proof -
  have "positions_ok rn w' \<and> wk_decisions w' = wk_decisions w \<and> wk_sequence w' = wk_sequence w
    \<and> map bp_position_id (wk_positions w') = map bp_position_id (wk_positions w)"
  proof (cases "wk_open w")
    case None then show ?thesis using assms by (simp add: feed_open_def)
  next
    case (Some p)
    then obtain p' where p': "apply_observation p bar (rn_product rn) = Inr p'" "w' = store_if_terminal p' w"
      using assms(1) by (auto simp: feed_open_def res_simps)
    have "engine_made (rn_product rn) (po_spec p) (po_approval p) p'"
      by (rule fed_position [OF assms(2) Some sim, of "BarInput bar"]) (simp add: apply_input_def p'(1))
    then show ?thesis using store_positions [OF assms(2) Some] p'(2) by simp
  qed
  then show "positions_ok rn w'" "wk_decisions w' = wk_decisions w" "wk_sequence w' = wk_sequence w"
    "map bp_position_id (wk_positions w') = map bp_position_id (wk_positions w)" by simp_all
qed

lemma add_record_simps [simp]:
  "wk_decisions (add_record w r) = wk_decisions w @ [r]" "wk_positions (add_record w r) = wk_positions w"
  "wk_open (add_record w r) = wk_open w" "wk_open_ordinal (add_record w r) = wk_open_ordinal w"
  "wk_sequence (add_record w r) = wk_sequence w"
  by (simp_all add: add_record_def)

lemma positions_ok_cong:
  assumes "wk_positions w' = wk_positions w" "wk_open w' = wk_open w" "wk_open_ordinal w' = wk_open_ordinal w"
  shows "positions_ok rn w' = positions_ok rn w"
  unfolding positions_ok_def open_ok_def assms by (rule refl)

text \<open>What a decision adds: one record, and the position it names when it is ENTERED.\<close>

lemma act_inv:
  assumes "act_on_decision rn n t x d w = Inr w'" and ok: "positions_ok rn w"
    and sim: "made_simulation (rq_simulation (rn_request rn))"
  shows "\<exists>r new. positions_ok rn w' \<and> wk_sequence w' = wk_sequence w \<and> wk_decisions w' = wk_decisions w @ [r]
    \<and> dr_sequence r = n \<and> dr_as_of r = t
    \<and> map bp_position_id (wk_positions w') = map bp_position_id (wk_positions w) @ new
    \<and> (if dr_outcome r = ENTERED then map Some new = [dr_position_id r] else new = [])"
  using assms(1)
proof (cases rule: act_cases)
  case (holding p r p')
  have ok': "positions_ok rn (add_record w r)" using ok by (subst positions_ok_cong [of _ w]) simp_all
  have "engine_made (rn_product rn) (po_spec p) (po_approval p) p'"
    using handle_open_facts(2) [OF holding(2)] open_made_spec(3) [OF ok holding(1) sim]
      fed_position [OF ok holding(1) sim, of CloseInput p'] by (auto simp: apply_input_def)
  then show ?thesis
    using store_positions [OF ok', of p p'] holding handle_open_facts(1) [OF holding(2)] by auto
next
  case (quiet r)
  then show ?thesis using ok positions_ok_cong [of "add_record w r" w rn] by auto
next
  case (refused i r)
  then show ?thesis
    using ok positions_ok_cong [of "add_record w r" w rn] attempt_entry_refused [OF refused(3)] by auto
next
  case (entered i r p)
  note a = attempt_entry_opened [OF entered(3)]
  have made: "made_spec (po_spec p)" using a(7,8) sim by (simp add: made_spec_def made_simulation_def)
  have e: "engine_made (rn_product rn) (po_spec p) (po_approval p) p"
    using a(6) by (auto simp: engine_made_def replay_def res_simps intro: exI [of _ "[]"])
  have "\<not> is_terminal (po_state p)" using open_inv(3) [OF a(6) made] by (simp add: is_terminal_def)
  then have "positions_ok rn w'"
    using ok entered a(4,5,7,8) e
    by (auto simp: positions_ok_def open_ok_def add_position_def position_recorded_def still_open_def)
  then show ?thesis using entered a(1-4) by (intro exI [of _ r] exI [of _ "[ps_position_id (po_spec p)]"]) (simp add: add_position_def)
qed

lemma evaluate_boundary_inv:
  assumes "evaluate_boundary rn mk w b = Inr w'" and "walk_inv rn w"
    and sim: "made_simulation (rq_simulation (rn_request rn))"
  shows "walk_inv rn w'" "wk_sequence w' = Suc (wk_sequence w)"
    "map dr_as_of (wk_decisions w') = map dr_as_of (wk_decisions w) @ [snd b]"
proof -
  let ?n = "Suc (wk_sequence w)"
  obtain v x d where f: "feed_open rn (mk_driver mk ! fst b) (w\<lparr>wk_sequence := ?n\<rparr>) = Inr v"
    and act: "act_on_decision rn ?n (snd b) x d v = Inr w'"
    using assms(1) by (rule evaluate_boundary_cases)
  have ok: "positions_ok rn (w\<lparr>wk_sequence := ?n\<rparr>)"
    using assms(2) by (subst positions_ok_cong [of _ w]) (simp_all add: walk_inv_def)
  note v = feed_open_inv [OF f ok sim]
  obtain r new where r: "positions_ok rn w'" "wk_sequence w' = wk_sequence v" "wk_decisions w' = wk_decisions v @ [r]"
    "dr_sequence r = ?n" "dr_as_of r = snd b"
    "map bp_position_id (wk_positions w') = map bp_position_id (wk_positions v) @ new"
    "if dr_outcome r = ENTERED then map Some new = [dr_position_id r] else new = []"
    using act_inv [OF act v(1) sim] by blast
  have ids: "map (\<lambda>r. Some (bp_position_id r)) (wk_positions w') =
      map (\<lambda>r. Some (bp_position_id r)) (wk_positions w) @ map Some new"
    using arg_cong [OF r(6) [unfolded v(4)], of "map Some"] by (simp add: comp_def)
  have "trace_ok w'"
    using assms(2) r(2-5,7) v(2,3) unfolding walk_inv_def trace_ok_def ids by (auto split: if_splits)
  then show "walk_inv rn w'" using r(1) by (simp add: walk_inv_def)
  show "wk_sequence w' = ?n" "map dr_as_of (wk_decisions w') = map dr_as_of (wk_decisions w) @ [snd b]"
    using r v by simp_all
qed


section \<open>The result of a run\<close>

lemma walk_inv_run:
  assumes "run_all (evaluate_boundary rn mk) w bs = Inr w'" and "walk_inv rn w"
    and "made_simulation (rq_simulation (rn_request rn))"
  shows "walk_inv rn w' \<and> wk_sequence w' = wk_sequence w + length bs
    \<and> map dr_as_of (wk_decisions w') = map dr_as_of (wk_decisions w) @ map snd bs"
  using assms
proof (induction bs arbitrary: w)
  case (Cons b bs)
  obtain v where v: "evaluate_boundary rn mk w b = Inr v" "run_all (evaluate_boundary rn mk) v bs = Inr w'"
    using Cons.prems(1) by (auto simp: res_simps)
  show ?case
    using Cons.IH [OF v(2)] evaluate_boundary_inv [OF v(1) Cons.prems(2,3)] Cons.prems(3) by simp
qed simp

lemma evaluate_walk:
  assumes "evaluate rn readings_of driver higher = Inr res"
  obtains w where "run_all (evaluate_boundary rn (market_of readings_of driver higher)) start_walk
      (boundaries_in driver (rq_interval (rn_request rn))) = Inr w"
    "br_decisions res = wk_decisions w" "br_positions res = close_walk w"
    "br_boundaries_evaluated res = length (boundaries_in driver (rq_interval (rn_request rn)))"
    "boundaries_in driver (rq_interval (rn_request rn)) \<noteq> []"
  using assms by (auto simp: evaluate_def Let_def res_simps split: if_splits)

text \<open>The recorded positions once the walk is over.\<close>

definition ledger_of :: "ProductPolicy \<Rightarrow> BacktestPosition \<Rightarrow> PaperPosition \<Rightarrow> bool" where
  "ledger_of product r p \<longleftrightarrow> engine_made product (bp_spec r) (bp_approval r) p \<and> bp_events r = po_events p"

lemma settled_iff: "settled product r \<longleftrightarrow> (\<exists>p. ledger_of product r p \<and> is_terminal (po_state p))"
  by (auto simp: settled_def ledger_of_def)

lemma close_walk_positions:
  assumes "positions_ok rn w"
  shows "list_all (position_recorded rn) (close_walk w)"
    and "map bp_ordinal (close_walk w) = [1..<Suc (length (close_walk w))]"
    and "map bp_position_id (close_walk w) = map bp_position_id (wk_positions w)"
    and "list_all (\<lambda>r. \<exists>p. ledger_of (rn_product rn) r p) (close_walk w)"
    and "list_all (\<lambda>r. \<exists>p. ledger_of (rn_product rn) r p \<and> is_terminal (po_state p)) (butlast (close_walk w))"
proof -
  have "list_all (position_recorded rn) (close_walk w) \<and> map bp_ordinal (close_walk w) = [1..<Suc (length (close_walk w))]
    \<and> map bp_position_id (close_walk w) = map bp_position_id (wk_positions w)
    \<and> list_all (\<lambda>r. \<exists>p. ledger_of (rn_product rn) r p) (close_walk w)
    \<and> list_all (\<lambda>r. \<exists>p. ledger_of (rn_product rn) r p \<and> is_terminal (po_state p)) (butlast (close_walk w))"
  proof (cases "wk_open w")
    case None
    then have "list_all (settled (rn_product rn)) (wk_positions w)"
      using assms by (simp add: positions_ok_def open_ok_def)
    then show ?thesis
      using assms None
      by (auto simp: positions_ok_def close_walk_def settled_iff list_all_iff dest!: in_set_butlastD)
  next
    case (Some p)
    have "open_ok (rn_product rn) w" using assms by (simp add: positions_ok_def)
    then obtain rs r where w: "wk_positions w = rs @ [r]" "wk_open_ordinal w = Suc (length rs)"
        "list_all (settled (rn_product rn)) rs" "still_open (rn_product rn) r p"
      using Some by (rule open_ok_split)
    then have last: "ledger_of (rn_product rn) (frozen r p) p" "position_recorded rn (frozen r p) = position_recorded rn r"
        "bp_ordinal (frozen r p) = bp_ordinal r" "bp_position_id (frozen r p) = bp_position_id r"
      by (auto simp: ledger_of_def frozen_def still_open_def engine_made_def position_recorded_def)
    have c: "close_walk w = rs @ [frozen r p]" using w Some by (simp add: close_walk_def)
    have some: "\<forall>x \<in> set rs. \<exists>p. ledger_of (rn_product rn) x p \<and> is_terminal (po_state p)"
      using w(3) by (simp add: list_all_iff settled_iff)
    then have "\<forall>x \<in> set rs. \<exists>p. ledger_of (rn_product rn) x p" by blast
    then show ?thesis
      unfolding c using assms w(1) last some
      by (simp add: positions_ok_def list_all_iff) (metis last(1))
  qed
  then show "list_all (position_recorded rn) (close_walk w)"
    and "map bp_ordinal (close_walk w) = [1..<Suc (length (close_walk w))]"
    and "map bp_position_id (close_walk w) = map bp_position_id (wk_positions w)"
    and "list_all (\<lambda>r. \<exists>p. ledger_of (rn_product rn) r p) (close_walk w)"
    and "list_all (\<lambda>r. \<exists>p. ledger_of (rn_product rn) r p \<and> is_terminal (po_state p)) (butlast (close_walk w))"
    by blast+
qed


section \<open>A walk only adds\<close>

definition grows :: "BacktestPosition \<Rightarrow> BacktestPosition \<Rightarrow> bool" where
  "grows a b \<longleftrightarrow> bp_position_id b = bp_position_id a \<and> bp_spec b = bp_spec a \<and> bp_approval b = bp_approval a
     \<and> (\<exists>new. bp_events b = bp_events a @ new)"

definition only_adds :: "BacktestPosition list \<Rightarrow> BacktestPosition list \<Rightarrow> bool" where
  "only_adds past now \<longleftrightarrow> (\<exists>mid rest. now = mid @ rest \<and> list_all2 grows past mid)"

lemma grows_refl [simp]: "grows a a"
  by (simp add: grows_def)

lemma grows_trans: "grows a b \<Longrightarrow> grows b c \<Longrightarrow> grows a c"
  by (auto simp: grows_def)

lemma only_adds_refl [simp]: "only_adds ps ps"
  unfolding only_adds_def by (rule exI [of _ ps], rule exI [of _ "[]"]) (simp add: list_all2_refl)

lemma only_adds_trans:
  assumes "only_adds a b" "only_adds b c" shows "only_adds a c"
proof -
  obtain m1 r1 where 1: "b = m1 @ r1" "list_all2 grows a m1" using assms(1) by (auto simp: only_adds_def)
  obtain m2 r2 where 2: "c = m2 @ r2" "list_all2 grows b m2" using assms(2) by (auto simp: only_adds_def)
  obtain m3 m4 where 3: "m2 = m3 @ m4" "list_all2 grows m1 m3"
    using 2(2) 1(1) by (auto simp: list_all2_append1)
  have "list_all2 grows a m3"
    using list_all2_trans [of grows grows grows a m1 m3] grows_trans 1(2) 3(2) by blast
  then show ?thesis unfolding only_adds_def using 2(1) 3(1) by auto
qed

lemma only_adds_snoc [simp]: "only_adds ps (ps @ qs)"
  unfolding only_adds_def by (rule exI [of _ ps]) (simp add: list_all2_refl)

lemma close_store:
  assumes "positions_ok rn w" "wk_open w = Some p"
    and sim: "made_simulation (rq_simulation (rn_request rn))"
    and i: "p' = p \<or> apply_input (rn_product rn) p item = Inr p'"
  shows "only_adds (close_walk w) (close_walk (store_if_terminal p' w))"
proof -
  have "open_ok (rn_product rn) w" using assms(1) by (simp add: positions_ok_def)
  then obtain rs r where w: "wk_positions w = rs @ [r]" "wk_open_ordinal w = Suc (length rs)"
    using assms(2) by (rule open_ok_split)
  have e: "engine_made (rn_product rn) (po_spec p) (po_approval p) p" "made_spec (po_spec p)"
    using open_made_spec [OF assms(1,2) sim] by auto
  then obtain inputs where "replay (po_spec p) (po_approval p) (rn_product rn) inputs = Inr p"
    by (auto simp: engine_made_def)
  then have inv: "paper_inv p" using e(2) by (rule replay_inv)
  have "\<exists>new. po_events p' = po_events p @ new"
    using i apply_input_frame(3) [OF _ inv, of "rn_product rn" item p'] by auto
  then have g: "grows (frozen r p) (frozen r p')" by (simp add: grows_def frozen_def)
  have "close_walk w = rs @ [frozen r p]" "close_walk (store_if_terminal p' w) = rs @ [frozen r p']"
    using w assms(2) by (simp_all add: close_walk_def store_if_terminal_def frozen_def)
  then show ?thesis
    unfolding only_adds_def using g
    by (intro exI [of _ "rs @ [frozen r p']"] exI [of _ "[]"]) (simp add: list_all2_append list_all2_refl)
qed

lemma close_walk_cong:
  assumes "wk_positions w' = wk_positions w" "wk_open w' = wk_open w" "wk_open_ordinal w' = wk_open_ordinal w"
  shows "close_walk w' = close_walk w"
  unfolding close_walk_def assms by (rule refl)

lemma act_only_adds:
  assumes "act_on_decision rn n t x d w = Inr w'" and ok: "positions_ok rn w"
    and sim: "made_simulation (rq_simulation (rn_request rn))"
  shows "only_adds (close_walk w) (close_walk w')"
  using assms(1)
proof (cases rule: act_cases)
  case (holding p r p')
  have ok': "positions_ok rn (add_record w r)" using ok by (subst positions_ok_cong [of _ w]) simp_all
  have "p' = p \<or> apply_input (rn_product rn) p CloseInput = Inr p'"
    using handle_open_facts(2) [OF holding(2)] by (simp add: apply_input_def)
  then have "only_adds (close_walk (add_record w r)) (close_walk w')"
    using close_store [OF ok' _ sim] holding by simp
  then show ?thesis by (simp add: close_walk_cong [of "add_record w r" w])
next
  case (quiet r) then show ?thesis by (simp add: close_walk_cong [of "add_record w r" w])
next
  case (refused i r) then show ?thesis by (simp add: close_walk_cong [of "add_record w r" w])
next
  case (entered i r p)
  then show ?thesis by (simp add: close_walk_def add_position_def frozen_def)
qed

lemma boundary_only_adds:
  assumes "evaluate_boundary rn mk w b = Inr w'" and "walk_inv rn w"
    and sim: "made_simulation (rq_simulation (rn_request rn))"
  shows "only_adds (close_walk w) (close_walk w') \<and> (\<exists>r. wk_decisions w' = wk_decisions w @ [r])"
proof -
  let ?w1 = "w\<lparr>wk_sequence := Suc (wk_sequence w)\<rparr>"
  obtain v x d where f: "feed_open rn (mk_driver mk ! fst b) ?w1 = Inr v"
    and act: "act_on_decision rn (Suc (wk_sequence w)) (snd b) x d v = Inr w'"
    using assms(1) by (rule evaluate_boundary_cases)
  have ok: "positions_ok rn ?w1"
    using assms(2) by (subst positions_ok_cong [of _ w]) (simp_all add: walk_inv_def)
  note v = feed_open_inv [OF f ok sim]
  have "only_adds (close_walk ?w1) (close_walk v)"
  proof (cases "wk_open w")
    case None then show ?thesis using f by (simp add: feed_open_def)
  next
    case (Some p)
    then obtain p' where p': "apply_input (rn_product rn) p (BarInput (mk_driver mk ! fst b)) = Inr p'"
        "v = store_if_terminal p' ?w1"
      using f by (auto simp: feed_open_def res_simps apply_input_def)
    then show ?thesis using close_store [OF ok _ sim disjI2 [OF p'(1)]] Some by simp
  qed
  then have "only_adds (close_walk w) (close_walk w')"
    using act_only_adds [OF act v(1) sim] close_walk_cong [of ?w1 w] by (auto intro: only_adds_trans)
  then show ?thesis using act_inv [OF act v(1) sim] v(2) by auto
qed

lemma run_only_adds:
  assumes "run_all (evaluate_boundary rn mk) w bs = Inr w'" and "walk_inv rn w"
    and sim: "made_simulation (rq_simulation (rn_request rn))"
  shows "only_adds (close_walk w) (close_walk w') \<and> (\<exists>rs. wk_decisions w' = wk_decisions w @ rs)"
  using assms(1,2)
proof (induction bs arbitrary: w)
  case (Cons b bs)
  obtain v where v: "evaluate_boundary rn mk w b = Inr v" "run_all (evaluate_boundary rn mk) v bs = Inr w'"
    using Cons.prems(1) by (auto simp: res_simps)
  show ?case
    using boundary_only_adds [OF v(1) Cons.prems(2) sim]
      Cons.IH [OF v(2) evaluate_boundary_inv(1) [OF v(1) Cons.prems(2) sim]]
    by (auto intro: only_adds_trans)
qed simp

section \<open>A boundary reads only what has closed\<close>

definition agree_until :: "nat \<Rightarrow> int \<Rightarrow> Market \<Rightarrow> Market \<Rightarrow> bool" where
  "agree_until n horizon mk mk' \<longleftrightarrow>
     (\<forall>i < n. mk_driver mk ! i = mk_driver mk' ! i \<and> mk_readings mk ! i = mk_readings mk' ! i)
     \<and> (\<forall>t. instant t \<le> horizon \<longrightarrow> confirmed_higher (mk_higher mk) t = confirmed_higher (mk_higher mk') t)"

lemma evaluate_boundary_agrees:
  assumes "agree_until n horizon mk mk'" "fst b < n" "instant (snd b) \<le> horizon"
  shows "evaluate_boundary rn mk w b = evaluate_boundary rn mk' w b"
proof -
  have same: "mk_driver mk ! fst b = mk_driver mk' ! fst b" "mk_readings mk ! fst b = mk_readings mk' ! fst b"
    "confirmed_higher (mk_higher mk) (snd b) = confirmed_higher (mk_higher mk') (snd b)"
    using assms by (auto simp: agree_until_def)
  have prev: "fst b \<noteq> 0 \<Longrightarrow> mk_readings mk ! (fst b - 1) = mk_readings mk' ! (fst b - 1)"
    using assms(1,2) by (simp add: agree_until_def)
  have ctx: "boundary_context rn mk (fst b) (snd b) o' = boundary_context rn mk' (fst b) (snd b) o'" for o'
    unfolding boundary_context_def Let_def same using prev by (cases "fst b = 0") simp_all
  show ?thesis unfolding evaluate_boundary_def Let_def ctx same by (rule refl)
qed

lemma run_agrees:
  assumes "agree_until n horizon mk mk'" "\<forall>b \<in> set bs. fst b < n \<and> instant (snd b) \<le> horizon"
  shows "run_all (evaluate_boundary rn mk) w bs = run_all (evaluate_boundary rn mk') w bs"
  using assms(2)
proof (induction bs arbitrary: w)
  case (Cons b bs)
  then show ?case using evaluate_boundary_agrees [OF assms(1), of b rn w] by simp
qed simp

end
