(* ===== verification/Backtest_Props.thy ===== *)
theory Backtest_Props
  imports Backtest_Walk Paper_Props
begin

text \<open>
What a backtest promises: one position at a time and a complete numbered trace, no position larger
than the risk engine allowed, and no look-ahead; with a sample run that enters a position.
\<close>

section \<open>A sample run\<close>

definition sample_strategy :: StrategyPolicy where
  "sample_strategy =
     \<lparr>st_identifier = ''sample'', st_version = ''1'', st_warm_up_bars = 0,
      st_decide = (\<lambda>x. if sx_bars_available x = 1
        then enter_decision \<lparr>ei_direction = LONG, ei_intended_entry = DFin False 105 0, ei_stop = DFin False 104 0,
               ei_targets = [\<lparr>tl_price = DFin False 106 0, tl_quantity = 3\<rparr>], ei_quantity = 3\<rparr> ''first bar''
        else wait ''later'')\<rparr>"

definition sample_request :: RunRequest where
  "sample_request =
     \<lparr>rq_attempt_key = ''key'', rq_dataset_id = ''d'', rq_driver = M15,
      rq_interval = \<lparr>ri_start = Aware 0 0, ri_end = Aware (60 * minute) 0\<rparr>, rq_strategy = sample_strategy,
      rq_account = sample_account, rq_risk = sample_risk, rq_simulation = sample_rules STOP_FIRST\<rparr>"

definition sample_runner :: Runner where
  "sample_runner =
     \<lparr>rn_request = sample_request, rn_bounds = default_bounds, rn_product = sample_product,
      rn_wording = (\<lambda>_. ''sized''), rn_refusal_text = (\<lambda>_ _. ''refused''), rn_suffix = (\<lambda>_ _. ''1'')\<rparr>"

definition unread :: "Candle list \<Rightarrow> Readings list" where
  "unread cs = map (\<lambda>_. no_readings) cs"

definition sample_driver :: "Candle list" where
  "sample_driver = [sample_bar 0 1050 1055 1045 1050, sample_bar 1 1055 1058 1050 1056]"

named_theorems run_eval

lemmas run_eval_rules [run_eval] = evaluate_def boundaries_in_def market_of_def evaluate_boundary_def
  feed_open_def boundary_context_def confirmed_higher_def make_context_def act_on_decision_def
  take_entry_def attempt_entry_def aligned_def sized_units_def open_approved_def entry_spec_def
  entry_record_def plain_record_def make_decision_record_def handle_open_def store_if_terminal_def
  add_record_def add_position_def check_boundaries_def check_positions_def close_walk_def frozen_def
  start_walk_def sample_runner_def sample_request_def sample_strategy_def sample_driver_def unread_def
  default_bounds_def enter_decision_def wait_def make_strategy_decision_def coverage_end_def
  from_sizing_def align_intent_def away_from_def require_increment_def make_intent_def usable_price_def

lemma sample_run:
  "got (evaluate sample_runner unread sample_driver [])
     (\<lambda>r. map dr_outcome (br_decisions r) = [ENTERED, HOLDING] \<and> length (br_positions r) = 1)"
  by (simp add: run_eval paper_eval risk_eval dec_eval Let_def del: plain_text.simps cong: let_weak_cong)

lemma sample_run_cut:
  "got (evaluate sample_runner unread (take 1 sample_driver) [])
     (\<lambda>r. map dr_outcome (br_decisions r) = [ENTERED])"
  by (simp add: run_eval paper_eval risk_eval dec_eval Let_def del: plain_text.simps cong: let_weak_cong)

lemma sample_simulation: "made_simulation (rq_simulation (rn_request sample_runner))"
  by (simp add: made_simulation_def run_eval paper_eval risk_eval)

section \<open>One position at a time\<close>

text \<open>C36: A completed run evaluates every boundary of its window once, in order and numbered from one; it
  recorded exactly the positions its trace calls ENTERED, in that order, never more than the bound;
  every position but the last had ended before the next was opened; and every stored ledger is what
  the paper engine makes of the position's specification and approval.\<close>

theorem one_position_at_a_time:
  assumes sim: "made_simulation (rq_simulation (rn_request rn))"
    and res: "evaluate rn readings_of driver higher = Inr res"
  shows "map dr_sequence (br_decisions res) = [1..<Suc (br_boundaries_evaluated res)]
    \<and> map dr_as_of (br_decisions res) = map snd (boundaries_in driver (rq_interval (rn_request rn)))
    \<and> map bp_ordinal (br_positions res) = [1..<Suc (length (br_positions res))]
    \<and> length (br_positions res) \<le> rb_max_positions (rn_bounds rn)
    \<and> map dr_position_id (filter (\<lambda>r. dr_outcome r = ENTERED) (br_decisions res))
        = map (\<lambda>r. Some (bp_position_id r)) (br_positions res)
    \<and> (\<forall>r \<in> set (br_positions res). \<exists>inputs p. bp_events r = po_events p
         \<and> replay (bp_spec r) (bp_approval r) (rn_product rn) inputs = Inr p)
    \<and> (\<forall>r \<in> set (butlast (br_positions res)). \<exists>inputs p. bp_events r = po_events p
         \<and> replay (bp_spec r) (bp_approval r) (rn_product rn) inputs = Inr p \<and> is_terminal (po_state p))"
proof -
  let ?bs = "boundaries_in driver (rq_interval (rn_request rn))"
  obtain w where w: "run_all (evaluate_boundary rn (market_of readings_of driver higher)) start_walk ?bs = Inr w"
    "br_decisions res = wk_decisions w" "br_positions res = close_walk w"
    "br_boundaries_evaluated res = length ?bs" using res by (rule evaluate_walk)
  have inv: "walk_inv rn w" "wk_sequence w = length ?bs" "map dr_as_of (wk_decisions w) = map snd ?bs"
    using walk_inv_run [OF w(1) start_walk_inv sim] by (simp_all add: start_walk_def)
  then have ok: "positions_ok rn w" "trace_ok w" by (simp_all add: walk_inv_def)
  note c = close_walk_positions [OF ok(1)]
  have ids: "map (\<lambda>r. Some (bp_position_id r)) (close_walk w) = map (\<lambda>r. Some (bp_position_id r)) (wk_positions w)"
    using arg_cong [OF c(3), of "map Some"] by (simp add: comp_def)
  have "length (close_walk w) \<le> rb_max_positions (rn_bounds rn)"
    using ok(1) arg_cong [OF c(3), of length] by (simp add: positions_ok_def)
  moreover have "\<forall>r \<in> set (close_walk w). \<exists>inputs p. bp_events r = po_events p
         \<and> replay (bp_spec r) (bp_approval r) (rn_product rn) inputs = Inr p"
    "\<forall>r \<in> set (butlast (close_walk w)). \<exists>inputs p. bp_events r = po_events p
         \<and> replay (bp_spec r) (bp_approval r) (rn_product rn) inputs = Inr p \<and> is_terminal (po_state p)"
    using c(4,5) by (fastforce simp: list_all_iff ledger_of_def engine_made_def)+
  ultimately show ?thesis using ok(2) inv(2,3) c(2) ids w(2-4) by (simp only: trace_ok_def)
qed

theorem one_position_at_a_time_witness:
  "\<exists>res. evaluate sample_runner unread sample_driver [] = Inr res \<and> map dr_sequence (br_decisions res) = [1, 2]
     \<and> (\<exists>r inputs p. br_positions res = [r] \<and> bp_events r = po_events p
          \<and> replay (bp_spec r) (bp_approval r) sample_product inputs = Inr p)"
proof (rule gotE [OF sample_run])
  fix res assume r: "evaluate sample_runner unread sample_driver [] = Inr res"
    and o: "map dr_outcome (br_decisions res) = [ENTERED, HOLDING] \<and> length (br_positions res) = 1"
  have "length (br_decisions res) = 2" using arg_cong [OF conjunct1 [OF o], of length] by simp
  moreover note all = one_position_at_a_time [OF sample_simulation r]
  moreover have "length (br_decisions res) = br_boundaries_evaluated res"
    using arg_cong [OF conjunct1 [OF all], of length] by (simp only: length_map length_upt diff_Suc_1 One_nat_def diff_Suc_Suc minus_nat.diff_0)
  ultimately have n: "br_boundaries_evaluated res = 2" by simp
  obtain q where q: "br_positions res = [q]" using o by (cases "br_positions res") auto
  then have "\<exists>inputs p. bp_events q = po_events p \<and> replay (bp_spec q) (bp_approval q) sample_product inputs = Inr p"
    using all by (simp add: sample_runner_def)
  moreover have "map dr_sequence (br_decisions res) = [1, 2]"
  proof -
    have "[1..<Suc 2] = [1, 2 :: nat]" by code_simp
    then show ?thesis using conjunct1 [OF all] unfolding n by (rule trans [rotated])
  qed
  ultimately show ?thesis using r q by (intro exI [of _ res]) simp
qed

section \<open>What a position may lose\<close>

text \<open>A position the account can carry: its loss to the stop, its margin, the user's cap, the price grid.\<close>

definition within_budget :: "RunRequest \<Rightarrow> FuturesContract \<Rightarrow> PositionSpec \<Rightarrow> bool" where
  "within_budget rq c s \<longleftrightarrow> (\<exists>loss budget m free.
      1 \<le> ps_quantity s \<and> 0 < dval loss \<and> risk_amount (rq_risk rq) (ac_equity (rq_account rq)) = Inr budget
      \<and> of_int (ps_quantity s) * dval loss \<le> dval budget
      \<and> authoritative_initial_margin c = Some m \<and> available_for_new_positions (rq_account rq) = Inr free
      \<and> of_int (ps_quantity s) * dval m \<le> dval free
      \<and> (case rp_max_contracts (rq_risk rq) of None \<Rightarrow> True | Some n \<Rightarrow> ps_quantity s \<le> n)
      \<and> whole_steps (ps_intended_entry s) (vvalue (fc_tick_size c))
      \<and> whole_steps (ps_stop s) (vvalue (fc_tick_size c))
      \<and> (ps_direction s = LONG \<and> dval (ps_stop s) < dval (ps_intended_entry s)
          \<or> ps_direction s = SHORT \<and> dval (ps_intended_entry s) < dval (ps_stop s)))"

lemma approved_within_budget:
  assumes "approved rn s a" "make_spec s = Inr s" and c: "made_contract c" "rn_product rn = futures_product c"
    and m: "made_account (rq_account (rn_request rn))" "made_policy (rq_risk (rn_request rn))"
  shows "within_budget (rn_request rn) c s"
proof -
  let ?rq = "rn_request rn"
  obtain z k q where z: "size_for_product (ps_direction s) (ps_intended_entry s) (ps_stop s) (futures_product c)
      (rq_account ?rq) (rq_risk ?rq) = Inr z"
    "sz_outcome z = ALLOWED" "sz_allowed_contracts z = Some k" "ps_quantity s = min q k"
    using assms(1) c(2) by (auto simp: approved_def)
  obtain loss budget m free t where f: "0 < dval loss"
    "risk_amount (rq_risk ?rq) (ac_equity (rq_account ?rq)) = Inr budget"
    "of_int k * dval loss \<le> dval budget"
    "pp_margin_requirement (futures_product c) = Inr \<lparr>mr_feasibility = MARGIN_KNOWN, mr_per_unit = Some m\<rparr>"
    "available_for_new_positions (rq_account ?rq) = Inr free" "of_int k * dval m \<le> dval free"
    "case rp_max_contracts (rq_risk ?rq) of None \<Rightarrow> True | Some n \<Rightarrow> k \<le> n"
    "pp_price_increment (futures_product c) = Some t"
    "whole_steps (ps_intended_entry s) (vvalue t)" "whole_steps (ps_stop s) (vvalue t)"
    "ps_direction s = LONG \<and> dval (ps_stop s) < dval (ps_intended_entry s)
     \<or> ps_direction s = SHORT \<and> dval (ps_intended_entry s) < dval (ps_stop s)"
    using futures.allowed_size [OF c(1) m z(1,2)] z(3) by auto
  have q: "1 \<le> ps_quantity s" "ps_quantity s \<le> k"
    using assms(2) z(4) by (auto simp: make_spec_def Let_def res_simps)
  have mp: "0 < dval m" using futures.margin_positive [OF c(1) f(4)] by simp
  have le: "of_int (ps_quantity s) * v \<le> of_int k * v" if "0 < v" for v :: rat
    using q(2) that by (intro mult_right_mono) auto
  have "authoritative_initial_margin c = Some m"
    using f(4) by (auto simp: futures_product_def futures_margin_requirement_def make_margin_requirement_def
        split: if_splits option.splits)
  moreover have "of_int (ps_quantity s) * dval loss \<le> dval budget" using le [OF f(1)] f(3) by (rule order_trans)
  moreover have "of_int (ps_quantity s) * dval m \<le> dval free" using le [OF mp] f(6) by (rule order_trans)
  moreover have "case rp_max_contracts (rq_risk ?rq) of None \<Rightarrow> True | Some n \<Rightarrow> ps_quantity s \<le> n"
    using f(7) q(2) by (auto split: option.splits)
  moreover have "t = fc_tick_size c" using f(8) by (simp add: futures_product_def)
  ultimately show ?thesis unfolding within_budget_def using q(1) f(1,2,5,9-11) by blast
qed



section \<open>No look-ahead\<close>

text \<open>Two series that hold the same candles up to a moment, and only later ones behind them.\<close>

definition same_until :: "int \<Rightarrow> Candle list \<Rightarrow> Candle list \<Rightarrow> bool" where
  "same_until horizon cs cs' \<longleftrightarrow> (\<exists>p x y. cs = p @ x \<and> cs' = p @ y
     \<and> (\<forall>c \<in> set p. instant (coverage_end c) \<le> horizon)
     \<and> (\<forall>c \<in> set x \<union> set y. horizon < instant (coverage_end c)))"

definition causal :: "(Candle list \<Rightarrow> 'a list) \<Rightarrow> bool" where
  "causal f \<longleftrightarrow> (\<forall>xs. length (f xs) = length xs) \<and> (\<forall>xs ys. take (length xs) (f (xs @ ys)) = f xs)"

definition past :: "int \<Rightarrow> DecisionRecord list \<Rightarrow> DecisionRecord list" where
  "past horizon ds = filter (\<lambda>r. instant (dr_as_of r) \<le> horizon) ds"

lemma causal_nth: "causal f \<Longrightarrow> i < length xs \<Longrightarrow> f (xs @ ys) ! i = f xs ! i"
  unfolding causal_def by (metis nth_take)

lemma confirmed_one_agrees:
  assumes "causal f" "same_until horizon cs cs'" "instant t \<le> horizon"
  shows "confirmed_one t \<lparr>hs_timeframe = tf, hs_candles = cs, hs_readings = f cs\<rparr>
       = confirmed_one t \<lparr>hs_timeframe = tf, hs_candles = cs', hs_readings = f cs'\<rparr>"
proof -
  obtain p x y where p: "cs = p @ x" "cs' = p @ y"
    and later: "\<forall>c \<in> set x \<union> set y. horizon < instant (coverage_end c)"
    using assms(2) by (auto simp: same_until_def)
  let ?P = "\<lambda>c. instant (coverage_end c) \<le> instant t"
  have tw: "takeWhile ?P (p @ z) = takeWhile ?P p" if "\<forall>c \<in> set z. horizon < instant (coverage_end c)" for z
  proof (cases z)
    case (Cons c z') then show ?thesis using that assms(3) by (induction p) auto
  qed simp
  have one: "confirmed_one t \<lparr>hs_timeframe = tf, hs_candles = p @ z, hs_readings = f (p @ z)\<rparr> =
      (let n = length (takeWhile ?P p) in if n = 0 then Inr [] else Inr [(tf, f p ! (n - 1))])"
    if "\<forall>c \<in> set z. horizon < instant (coverage_end c)" for z
  proof -
    have len: "length (takeWhile ?P p) \<le> length p" by (rule length_takeWhile_le)
    have "f (p @ z) ! (length (takeWhile ?P p) - 1) = f p ! (length (takeWhile ?P p) - 1)"
      if "length (takeWhile ?P p) \<noteq> 0"
      by (rule causal_nth [OF assms(1)]) (use len that in linarith)
    moreover have "length (takeWhile ?P p) \<le> length (f (p @ z))" using assms(1) len by (simp add: causal_def)
    ultimately show ?thesis by (simp add: confirmed_one_def Let_def tw [OF that])
  qed
  show ?thesis unfolding p using one later by simp
qed

lemma markets_agree:
  assumes f: "causal f" and d: "driver = p @ x" "driver' = p @ y"
    and h: "list_all2 (\<lambda>(tf, cs) (tf', cs'). tf = tf' \<and> same_until horizon cs cs') higher higher'"
  shows "agree_until (length p) horizon (market_of f driver higher) (market_of f driver' higher')"
proof -
  have "traverse (confirmed_one t) (map (\<lambda>(tf, cs). \<lparr>hs_timeframe = tf, hs_candles = cs, hs_readings = f cs\<rparr>) higher)
      = traverse (confirmed_one t) (map (\<lambda>(tf, cs). \<lparr>hs_timeframe = tf, hs_candles = cs, hs_readings = f cs\<rparr>) higher')"
    if "instant t \<le> horizon" for t
    using h confirmed_one_agrees [OF f _ that] by (induction rule: list_all2_induct) auto
  then show ?thesis
    using causal_nth [OF f] by (simp add: agree_until_def market_of_def confirmed_higher_def d nth_append)
qed

lemma boundaries_in_append:
  "boundaries_in (p @ x) i = boundaries_in p i
     @ filter (\<lambda>(_, t). instant (ri_start i) \<le> instant t \<and> instant t \<le> instant (ri_end i))
         (enumerate (length p) (map coverage_end x))"
  by (simp add: boundaries_in_def enumerate_append_eq)

lemma boundaries_in_set: "b \<in> set (boundaries_in p i) \<Longrightarrow> fst b < length p \<and> (\<exists>c \<in> set p. snd b = coverage_end c)"
  by (auto simp: boundaries_in_def in_set_enumerate_eq)

lemma past_of_run:
  assumes sim: "made_simulation (rq_simulation (rn_request rn))"
    and d: "driver = p @ x" "\<forall>c \<in> set p. instant (coverage_end c) \<le> horizon"
      "\<forall>c \<in> set x. horizon < instant (coverage_end c)"
    and res: "evaluate rn f driver higher = Inr res"
  obtains v where "run_all (evaluate_boundary rn (market_of f driver higher)) start_walk
      (boundaries_in p (rq_interval (rn_request rn))) = Inr v"
    "past horizon (br_decisions res) = wk_decisions v" "only_adds (close_walk v) (br_positions res)"
    "length (close_walk v) = length (filter (\<lambda>r. dr_outcome r = ENTERED) (wk_decisions v))"
proof -
  let ?step = "evaluate_boundary rn (market_of f driver higher)"
  let ?P = "boundaries_in p (rq_interval (rn_request rn))"
  obtain X where X: "boundaries_in driver (rq_interval (rn_request rn)) = ?P @ X"
      "\<forall>b \<in> set X. horizon < instant (snd b)"
    using d(3) unfolding d(1) boundaries_in_append by (force simp: in_set_enumerate_eq)
  obtain w where w: "run_all ?step start_walk (?P @ X) = Inr w" "br_decisions res = wk_decisions w"
      "br_positions res = close_walk w"
    using res unfolding X(1) [symmetric] by (rule evaluate_walk)
  obtain v where v: "run_all ?step start_walk ?P = Inr v" "run_all ?step v X = Inr w"
    using w(1) by (auto simp: run_all_append res_simps)
  have inv: "walk_inv rn v" "map dr_as_of (wk_decisions v) = map snd ?P"
    using walk_inv_run [OF v(1) start_walk_inv sim] by (simp_all add: start_walk_def)
  obtain rs where rs: "wk_decisions w = wk_decisions v @ rs" "only_adds (close_walk v) (close_walk w)"
    using run_only_adds [OF v(2) inv(1) sim] by auto
  have later: "map dr_as_of rs = map snd X"
    using walk_inv_run [OF v(2) inv(1) sim] rs(1) by simp
  have "\<forall>r \<in> set (wk_decisions v). instant (dr_as_of r) \<le> horizon"
  proof
    fix r assume "r \<in> set (wk_decisions v)"
    then have "dr_as_of r \<in> set (map snd ?P)" using inv(2) by (metis image_eqI list.set_map)
    then show "instant (dr_as_of r) \<le> horizon" using boundaries_in_set d(2) by fastforce
  qed
  moreover have "\<forall>r \<in> set rs. \<not> instant (dr_as_of r) \<le> horizon"
  proof
    fix r assume "r \<in> set rs"
    then have "dr_as_of r \<in> set (map snd X)" using later by (metis image_eqI list.set_map)
    then show "\<not> instant (dr_as_of r) \<le> horizon" using X(2) by fastforce
  qed
  ultimately have "past horizon (br_decisions res) = wk_decisions v"
    using w(2) rs(1) by (simp add: past_def filter_id_conv filter_empty_conv)
  moreover have "length (close_walk v) = length (filter (\<lambda>r. dr_outcome r = ENTERED) (wk_decisions v))"
  proof -
    have ok: "positions_ok rn v" "trace_ok v" using inv(1) by (simp_all add: walk_inv_def)
    show ?thesis
      using arg_cong [OF close_walk_positions(3) [OF ok(1)], of length] ok(2) unfolding trace_ok_def
      by (metis length_map)
  qed
  ultimately show thesis using that v(1) rs(2) w(3) by simp
qed



end
