(* ===== verification/Market.thy ===== *)
theory Market
  imports Live_Validation
begin

text \<open>
\<open>app/domain/market/series.py\<close> and \<open>quality.py\<close>: the validated candle series and the data quality engine
that decides which datasets may be calculated on. Issue codes, severities, positions and order are
modelled, the human-readable messages are not. \<open>quality_is_total\<close>: every dataset is assessed, and one
that no rule blocks satisfies every invariant of \<open>ValidatedCandleSeries\<close>, so its construction cannot
raise.
\<close>

section \<open>Series\<close>

record ValidatedCandleSeries =
  series_candles :: "Candle list"
  series_symbol :: string
  series_timeframe :: Timeframe

fun well_ordered :: "string \<Rightarrow> Timeframe \<Rightarrow> moment option \<Rightarrow> Candle list \<Rightarrow> bool" where
  "well_ordered y tf prev [] = True"
| "well_ordered y tf prev (c # cs) =
     (is_closed c \<and> bar_symbol c = y \<and> bar_timeframe c = tf \<and> is_aware (open_time c)
      \<and> (case prev of None \<Rightarrow> True | Some p \<Rightarrow> instant p < instant (open_time c))
      \<and> well_ordered y tf (Some (open_time c)) cs)"

definition validated_series :: "Candle list \<Rightarrow> string \<Rightarrow> Timeframe \<Rightarrow> ValidatedCandleSeries res" where
  "validated_series cs y tf =
     (if well_ordered y tf None cs
      then Inr \<lparr> series_candles = cs, series_symbol = y, series_timeframe = tf \<rparr>
      else Inl InvalidCandleSeriesError)"

definition series_len :: "ValidatedCandleSeries \<Rightarrow> nat" where
  "series_len s = length (series_candles s)"

abbreviation highs :: "ValidatedCandleSeries \<Rightarrow> dec list" where
  "highs s \<equiv> map bar_high (series_candles s)"

abbreviation lows :: "ValidatedCandleSeries \<Rightarrow> dec list" where
  "lows s \<equiv> map bar_low (series_candles s)"

abbreviation closes :: "ValidatedCandleSeries \<Rightarrow> dec list" where
  "closes s \<equiv> map bar_close (series_candles s)"

abbreviation open_times :: "ValidatedCandleSeries \<Rightarrow> moment list" where
  "open_times s \<equiv> map open_time (series_candles s)"

text \<open>The series as it stood after its first \<open>n\<close> candles.\<close>

definition series_take :: "nat \<Rightarrow> ValidatedCandleSeries \<Rightarrow> ValidatedCandleSeries" where
  "series_take n s = s\<lparr>series_candles := take n (series_candles s)\<rparr>"

lemma series_take_simps [simp]:
  "series_candles (series_take n s) = take n (series_candles s)"
  "series_symbol (series_take n s) = series_symbol s"
  "series_len (series_take n s) = min n (series_len s)"
  by (simp_all add: series_take_def series_len_def min.commute)

section \<open>The data quality engine\<close>

datatype DataQualitySeverity = DQ_INFO | DQ_WARNING | DQ_BLOCK

datatype DataQualityVerdict = DQ_ACCEPTED | DQ_ACCEPTED_WITH_WARNINGS | DQ_BLOCKED

datatype DataQualityCode =
    EMPTY_SERIES
  | DQ_NAIVE_TIMESTAMP
  | NON_FINITE_VALUE
  | NEGATIVE_PRICE
  | ZERO_PRICE
  | INVALID_OHLC_RELATIONSHIP
  | DQ_NEGATIVE_VOLUME
  | DQ_FORMING_CANDLE
  | DQ_SYMBOL_MISMATCH
  | TIMEFRAME_MISMATCH
  | DUPLICATE_CANDLE
  | CONFLICTING_DUPLICATE
  | DQ_OUT_OF_ORDER
  | IRREGULAR_INTERVAL
  | MALFORMED_ROW
  | MISSING_CANDLES
  | ZERO_VOLUME
  | EXTREME_MOVE
  | INSUFFICIENT_HISTORY
  | TIMEZONE_NORMALIZED

fun quality_code_value :: "DataQualityCode \<Rightarrow> string" where
  "quality_code_value EMPTY_SERIES = ''EMPTY_SERIES''"
| "quality_code_value DQ_NAIVE_TIMESTAMP = ''NAIVE_TIMESTAMP''"
| "quality_code_value NON_FINITE_VALUE = ''NON_FINITE_VALUE''"
| "quality_code_value NEGATIVE_PRICE = ''NEGATIVE_PRICE''"
| "quality_code_value ZERO_PRICE = ''ZERO_PRICE''"
| "quality_code_value INVALID_OHLC_RELATIONSHIP = ''INVALID_OHLC_RELATIONSHIP''"
| "quality_code_value DQ_NEGATIVE_VOLUME = ''NEGATIVE_VOLUME''"
| "quality_code_value DQ_FORMING_CANDLE = ''FORMING_CANDLE''"
| "quality_code_value DQ_SYMBOL_MISMATCH = ''SYMBOL_MISMATCH''"
| "quality_code_value TIMEFRAME_MISMATCH = ''TIMEFRAME_MISMATCH''"
| "quality_code_value DUPLICATE_CANDLE = ''DUPLICATE_CANDLE''"
| "quality_code_value CONFLICTING_DUPLICATE = ''CONFLICTING_DUPLICATE''"
| "quality_code_value DQ_OUT_OF_ORDER = ''OUT_OF_ORDER''"
| "quality_code_value IRREGULAR_INTERVAL = ''IRREGULAR_INTERVAL''"
| "quality_code_value MALFORMED_ROW = ''MALFORMED_ROW''"
| "quality_code_value MISSING_CANDLES = ''MISSING_CANDLES''"
| "quality_code_value ZERO_VOLUME = ''ZERO_VOLUME''"
| "quality_code_value EXTREME_MOVE = ''EXTREME_MOVE''"
| "quality_code_value INSUFFICIENT_HISTORY = ''INSUFFICIENT_HISTORY''"
| "quality_code_value TIMEZONE_NORMALIZED = ''TIMEZONE_NORMALIZED''"

record DataQualityIssue =
  quality_code :: DataQualityCode
  quality_severity :: DataQualitySeverity
  quality_index :: "nat option"
  quality_time :: "moment option"

definition is_blocking_issue :: "DataQualityIssue \<Rightarrow> bool" where
  "is_blocking_issue i = (quality_severity i = DQ_BLOCK)"

record DataQualityPolicy =
  minimum_candles :: nat
  extreme_move_ratio :: dec
  flag_zero_volume :: bool

definition default_quality_policy :: DataQualityPolicy where
  "default_quality_policy =
     \<lparr> minimum_candles = 2, extreme_move_ratio = DFin False 20 (- 2), flag_zero_volume = True \<rparr>"

record DataQualityReport =
  quality_verdict :: DataQualityVerdict
  quality_issues :: "DataQualityIssue list"
  quality_candle_count :: nat
  quality_symbol :: "string option"
  quality_timeframe :: "Timeframe option"

definition report_blocking_issues :: "DataQualityReport \<Rightarrow> DataQualityIssue list" where
  "report_blocking_issues r = filter is_blocking_issue (quality_issues r)"

record DataQualityAssessment =
  quality_report :: DataQualityReport
  usable_series :: "ValidatedCandleSeries option"

definition candle_issue :: "DataQualityCode \<Rightarrow> DataQualitySeverity \<Rightarrow> nat \<Rightarrow> moment option \<Rightarrow> DataQualityIssue" where
  "candle_issue k v i t =
     \<lparr> quality_code = k, quality_severity = v, quality_index = Some i, quality_time = t \<rparr>"

definition series_issue :: "DataQualityCode \<Rightarrow> DataQualitySeverity \<Rightarrow> DataQualityIssue" where
  "series_issue k v = \<lparr> quality_code = k, quality_severity = v, quality_index = None, quality_time = None \<rparr>"

subsection \<open>One candle\<close>

definition prices_of :: "Candle \<Rightarrow> dec list" where
  "prices_of c = [bar_open c, bar_high c, bar_low c, bar_close c]"

definition numbers_of :: "Candle \<Rightarrow> dec list" where
  "numbers_of c = prices_of c @ [bar_volume c] @ (case open_interest c of None \<Rightarrow> [] | Some d \<Rightarrow> [d])"

text \<open>The comparisons are only reached with finite numbers, where no comparison signals.\<close>

definition check_numbers :: "DataQualityPolicy \<Rightarrow> Candle \<Rightarrow> nat \<Rightarrow> moment option \<Rightarrow> DataQualityIssue list" where
  "check_numbers p c i t =
     (let block = (\<lambda>k. [candle_issue k DQ_BLOCK i t]);
          negative = list_ex (\<lambda>d. dec_less d dec_zero) (prices_of c);
          zero = list_ex (\<lambda>d. dec_eq d dec_zero) (prices_of c)
      in if \<not> list_all is_finite (numbers_of c) then block NON_FINITE_VALUE
         else
           (if negative then block NEGATIVE_PRICE else [])
           @ (if zero then block ZERO_PRICE else [])
           @ (if dec_less (bar_high c) (bar_low c) then block INVALID_OHLC_RELATIONSHIP
              else if dec_less (bar_high c) (dec_max (bar_open c) (bar_close c))
                      \<or> dec_less (dec_min (bar_open c) (bar_close c)) (bar_low c)
                   then block INVALID_OHLC_RELATIONSHIP else [])
           @ (if dec_less (bar_volume c) dec_zero then block DQ_NEGATIVE_VOLUME
              else if dec_eq (bar_volume c) dec_zero \<and> flag_zero_volume p
                   then [candle_issue ZERO_VOLUME DQ_WARNING i t] else [])
           @ (case open_interest c of
                None \<Rightarrow> []
              | Some d \<Rightarrow> if dec_less d dec_zero then block DQ_NEGATIVE_VOLUME else []))"

definition check_candle :: "DataQualityPolicy \<Rightarrow> string \<Rightarrow> Timeframe \<Rightarrow> nat \<Rightarrow> Candle \<Rightarrow> DataQualityIssue list" where
  "check_candle p y tf i c =
     (let t = (if is_aware (open_time c) then Some (open_time c) else None);
          block = (\<lambda>bad k. if bad then [candle_issue k DQ_BLOCK i t] else [])
      in block (\<not> is_aware (open_time c)) DQ_NAIVE_TIMESTAMP
         @ block (\<not> is_closed c) DQ_FORMING_CANDLE
         @ block (bar_symbol c \<noteq> y) DQ_SYMBOL_MISMATCH
         @ block (bar_timeframe c \<noteq> tf) TIMEFRAME_MISMATCH
         @ check_numbers p c i t)"

definition check_candles :: "DataQualityPolicy \<Rightarrow> string \<Rightarrow> Timeframe \<Rightarrow> Candle list \<Rightarrow> DataQualityIssue list" where
  "check_candles p y tf cs = concat (map (\<lambda>(i, c). check_candle p y tf i c) (enumerate 0 cs))"

subsection \<open>Neighbouring candles\<close>

definition same_payload :: "Candle \<Rightarrow> Candle \<Rightarrow> bool" where
  "same_payload a b =
     (dec_eq (bar_open a) (bar_open b) \<and> dec_eq (bar_high a) (bar_high b) \<and> dec_eq (bar_low a) (bar_low b)
      \<and> dec_eq (bar_close a) (bar_close b) \<and> dec_eq (bar_volume a) (bar_volume b))"

definition check_spacing :: "Timeframe \<Rightarrow> nat \<Rightarrow> Candle \<Rightarrow> Candle \<Rightarrow> DataQualityIssue list" where
  "check_spacing tf i previous current =
     (let delta = instant (open_time current) - instant (open_time previous);
          issue = (\<lambda>k v. [candle_issue k v i (Some (open_time current))])
      in if \<not> is_aware (open_time previous) \<or> \<not> is_aware (open_time current) then []
         else if delta = 0 then issue (if same_payload previous current then DUPLICATE_CANDLE else CONFLICTING_DUPLICATE) DQ_BLOCK
         else if delta < 0 then issue DQ_OUT_OF_ORDER DQ_BLOCK
         else if delta mod duration_of tf \<noteq> 0 then issue IRREGULAR_INTERVAL DQ_BLOCK
         else if 0 < delta div duration_of tf - 1 then issue MISSING_CANDLES DQ_WARNING
         else [])"

definition check_move :: "DataQualityPolicy \<Rightarrow> nat \<Rightarrow> Candle \<Rightarrow> Candle \<Rightarrow> DataQualityIssue list res" where
  "check_move p i previous current =
     (if \<not> is_finite (bar_close previous) \<or> \<not> is_finite (bar_close current) then Inr []
      else if dec_le (bar_close previous) dec_zero then Inr []
      else
        rbind (dec_sub default_context (bar_close current) (bar_close previous)) (\<lambda>d.
        rbind (dec_div default_context (dec_abs default_context d) (bar_close previous)) (\<lambda>change.
        rbind (py_less (extreme_move_ratio p) change) (\<lambda>extreme.
          Inr (if extreme
               then [candle_issue EXTREME_MOVE DQ_WARNING i
                       (if is_aware (open_time current) then Some (open_time current) else None)]
               else [])))))"

text \<open>The pairs of neighbours, with the index of the later one.\<close>

fun neighbours :: "nat \<Rightarrow> 'a list \<Rightarrow> (nat \<times> 'a \<times> 'a) list" where
  "neighbours i (x # y # zs) = (Suc i, x, y) # neighbours (Suc i) (y # zs)"
| "neighbours i _ = []"

definition check_sequence :: "Timeframe \<Rightarrow> Candle list \<Rightarrow> DataQualityIssue list" where
  "check_sequence tf cs = concat (map (\<lambda>(i, a, b). check_spacing tf i a b) (neighbours 0 cs))"

definition check_statistics :: "DataQualityPolicy \<Rightarrow> Candle list \<Rightarrow> DataQualityIssue list res" where
  "check_statistics p cs = rmap concat (traverse (\<lambda>(i, a, b). check_move p i a b) (neighbours 0 cs))"

subsection \<open>The assessment\<close>

fun to_utc :: "moment \<Rightarrow> moment" where
  "to_utc (Aware t off) = Aware t 0"
| "to_utc (Naive t) = Naive t"

fun in_utc :: "moment \<Rightarrow> bool" where
  "in_utc (Aware t off) = (off = 0)"
| "in_utc (Naive t) = False"

definition normalize_timezone :: "Candle list \<Rightarrow> Candle list \<times> DataQualityIssue list" where
  "normalize_timezone cs =
     (if list_all (\<lambda>c. in_utc (open_time c)) cs then (cs, [])
      else (map (\<lambda>c. c\<lparr>open_time := to_utc (open_time c)\<rparr>) cs, [series_issue TIMEZONE_NORMALIZED DQ_INFO]))"

definition blocked_assessment :: "DataQualityIssue list \<Rightarrow> nat \<Rightarrow> string option \<Rightarrow> Timeframe option \<Rightarrow> DataQualityAssessment" where
  "blocked_assessment is n y tf =
     \<lparr> quality_report =
         \<lparr> quality_verdict = DQ_BLOCKED, quality_issues = is, quality_candle_count = n,
           quality_symbol = y, quality_timeframe = tf \<rparr>,
       usable_series = None \<rparr>"

definition assess_quality :: "DataQualityPolicy \<Rightarrow> Candle list \<Rightarrow> DataQualityIssue list \<Rightarrow> DataQualityAssessment res" where
  "assess_quality p cs extra =
     (case cs of
        [] \<Rightarrow> Inr (blocked_assessment (extra @ [series_issue EMPTY_SERIES DQ_BLOCK]) 0 None None)
      | c # _ \<Rightarrow>
          (let y = bar_symbol c; tf = bar_timeframe c in
           rbind (check_statistics p cs) (\<lambda>moves.
           let found = extra @ check_candles p y tf cs @ check_sequence tf cs @ moves
                         @ (if length cs < minimum_candles p then [series_issue INSUFFICIENT_HISTORY DQ_WARNING] else [])
           in if list_ex is_blocking_issue found
              then Inr (blocked_assessment found (length cs) (Some y) (Some tf))
              else
                (let (normalized, info) = normalize_timezone cs; every = found @ info;
                     verdict = (if list_ex (\<lambda>i. quality_severity i = DQ_WARNING) every
                                then DQ_ACCEPTED_WITH_WARNINGS else DQ_ACCEPTED)
                 in rbind (validated_series normalized y tf) (\<lambda>series.
                      Inr \<lparr> quality_report =
                              \<lparr> quality_verdict = verdict, quality_issues = every,
                                quality_candle_count = length cs,
                                quality_symbol = Some y, quality_timeframe = Some tf \<rparr>,
                            usable_series = Some series \<rparr>)))))"

section \<open>What an accepted dataset guarantees\<close>

lemma neighbours_nth:
  "(i, a, b) \<in> set (neighbours k cs) \<longleftrightarrow> (\<exists>j. Suc j < length cs \<and> i = Suc (k + j) \<and> a = cs ! j \<and> b = cs ! Suc j)"
proof (induction k cs rule: neighbours.induct)
  case (1 k x y zs)
  have "(\<exists>j. Suc j < length (x # y # zs) \<and> i = Suc (k + j) \<and> a = (x # y # zs) ! j \<and> b = (x # y # zs) ! Suc j)
        \<longleftrightarrow> (i = Suc k \<and> a = x \<and> b = y)
          \<or> (\<exists>j. Suc j < length (y # zs) \<and> i = Suc (Suc k + j) \<and> a = (y # zs) ! j \<and> b = (y # zs) ! Suc j)"
    by (subst ex_nat_split) simp
  then show ?case
    using 1 by simp
qed auto

lemma spacing_block_free:
  assumes "is_aware (open_time a)" "is_aware (open_time b)"
    and "\<not> list_ex is_blocking_issue (check_spacing tf i a b)"
  shows "instant (open_time a) < instant (open_time b)"
  using assms
  by (auto simp: check_spacing_def candle_issue_def is_blocking_issue_def Let_def split: if_splits)

lemma candle_block_free:
  assumes "\<not> list_ex is_blocking_issue (check_candle p y tf i c)"
  shows "is_closed c" "bar_symbol c = y" "bar_timeframe c = tf" "is_aware (open_time c)"
    "list_all is_finite (numbers_of c)" "\<not> list_ex (\<lambda>d. dec_less d dec_zero \<or> dec_eq d dec_zero) (prices_of c)"
    "\<not> dec_less (bar_high c) (dec_max (bar_open c) (bar_close c))"
    "\<not> dec_less (dec_min (bar_open c) (bar_close c)) (bar_low c)"
  using assms
  by (simp_all add: check_candle_def check_numbers_def candle_issue_def is_blocking_issue_def Let_def
      list_ex_append split: if_splits) (auto simp: list_ex_iff)

lemma check_move_returns:
  assumes "\<not> is_nan (extreme_move_ratio p)"
  shows "\<exists>is. check_move p i a b = Inr is"
proof (cases "is_finite (bar_close a) \<and> is_finite (bar_close b) \<and> \<not> dec_le (bar_close a) dec_zero")
  case True
  then have pos: "dval (bar_close a) \<noteq> 0"
    by (auto simp: dec_le_iff dec_zero_def signed_def)
  obtain d where d: "dec_sub default_context (bar_close b) (bar_close a) = Inr d" "is_finite d"
    using True dec_sub_finite by blast
  have "is_finite (dec_abs default_context d)"
    using d(2) by (cases d) simp_all
  then obtain q where "dec_div default_context (dec_abs default_context d) (bar_close a) = Inr q" "is_finite q"
    using True pos dec_div_finite by blast
  then show ?thesis
    using True assms d by (simp add: check_move_def py_less_def)
qed (auto simp: check_move_def)

lemma check_statistics_returns:
  assumes "\<not> is_nan (extreme_move_ratio p)"
  shows "\<exists>is. check_statistics p cs = Inr is"
  using traverse_returns[of "neighbours 0 cs" "\<lambda>(i, a, b). check_move p i a b"] check_move_returns[OF assms]
  by (fastforce simp: check_statistics_def)

text \<open>Candles that no rule blocks form a series the type accepts.\<close>

lemma well_ordered_prev:
  "well_ordered y tf prev cs \<longleftrightarrow>
     (\<forall>c\<in>set cs. is_closed c \<and> bar_symbol c = y \<and> bar_timeframe c = tf \<and> is_aware (open_time c))
     \<and> sorted_wrt (<) ((case prev of None \<Rightarrow> [] | Some p \<Rightarrow> [instant p]) @ map (\<lambda>c. instant (open_time c)) cs)"
proof (induction y tf prev cs rule: well_ordered.induct)
  case (2 y tf prev c cs)
  show ?case
    unfolding well_ordered.simps 2
    by (auto split: option.splits)
qed (simp split: option.splits)

lemma strictly_increasing_nth:
  assumes "\<And>j. Suc j < length xs \<Longrightarrow> f (xs ! j) < f (xs ! Suc j)"
  shows "sorted_wrt (<) (map f xs :: int list)"
  using assms by (subst sorted_wrt_iff_nth_Suc_transp) (simp_all add: transp_on_def)

lemma block_free_well_ordered:
  assumes candles: "\<not> list_ex is_blocking_issue (check_candles p y tf cs)"
    and spacing: "\<not> list_ex is_blocking_issue (check_sequence tf cs)"
  shows "well_ordered y tf None cs"
proof -
  have each: "\<not> list_ex is_blocking_issue (check_candle p y tf i (cs ! i))" if "i < length cs" for i
  proof -
    have "(i, cs ! i) \<in> set (enumerate 0 cs)"
      using that by (simp add: in_set_enumerate_eq)
    then show ?thesis
      using candles by (force simp: check_candles_def list_ex_iff)
  qed
  have "\<forall>c\<in>set cs. is_closed c \<and> bar_symbol c = y \<and> bar_timeframe c = tf \<and> is_aware (open_time c)"
  proof
    fix c
    assume "c \<in> set cs"
    then obtain i where "i < length cs" "c = cs ! i"
      by (auto simp: in_set_conv_nth)
    then show "is_closed c \<and> bar_symbol c = y \<and> bar_timeframe c = tf \<and> is_aware (open_time c)"
      using candle_block_free(1-4)[OF each] by simp
  qed
  moreover have "instant (open_time (cs ! j)) < instant (open_time (cs ! Suc j))" if j: "Suc j < length cs" for j
  proof (rule spacing_block_free)
    show "is_aware (open_time (cs ! j))" "is_aware (open_time (cs ! Suc j))"
      using candle_block_free(4)[OF each] j by simp_all
    have "(Suc j, cs ! j, cs ! Suc j) \<in> set (neighbours 0 cs)"
      using j by (auto simp: neighbours_nth)
    then show "\<not> list_ex is_blocking_issue (check_spacing tf (Suc j) (cs ! j) (cs ! Suc j))"
      using spacing by (force simp: check_sequence_def list_ex_iff)
  qed
  ultimately show ?thesis
    unfolding well_ordered_prev by (simp add: strictly_increasing_nth)
qed

lemma to_utc_same [simp]: "instant (to_utc m) = instant m" "is_aware (to_utc m) = is_aware m"
  by (cases m; simp)+

lemma well_ordered_utc:
  "well_ordered y tf None (map (\<lambda>c. c\<lparr>open_time := to_utc (open_time c)\<rparr>) cs) \<longleftrightarrow> well_ordered y tf None cs"
  by (simp add: well_ordered_prev o_def)

lemma normalized_well_ordered:
  "well_ordered y tf None (fst (normalize_timezone cs)) \<longleftrightarrow> well_ordered y tf None cs"
  by (simp add: normalize_timezone_def well_ordered_utc)

text \<open>
  A dataset is always assessed: with a threshold that is a number nothing raises, not even the
  construction of the validated series, which every accepted dataset satisfies.
\<close>

lemma quality_is_total:
  assumes "\<not> is_nan (extreme_move_ratio p)"
  shows "\<exists>a. assess_quality p cs extra = Inr a
           \<and> (usable_series a = None \<longleftrightarrow> quality_verdict (quality_report a) = DQ_BLOCKED)"
proof (cases cs)
  case (Cons c rest)
  obtain moves where m: "check_statistics p cs = Inr moves"
    using check_statistics_returns[OF assms] by blast
  define found where "found = extra @ check_candles p (bar_symbol c) (bar_timeframe c) cs
      @ check_sequence (bar_timeframe c) cs @ moves
      @ (if length cs < minimum_candles p then [series_issue INSUFFICIENT_HISTORY DQ_WARNING] else [])"
  show ?thesis
  proof (cases "list_ex is_blocking_issue found")
    case True
    then show ?thesis
      using m Cons by (simp add: assess_quality_def Let_def found_def blocked_assessment_def)
  next
    case False
    then have "well_ordered (bar_symbol c) (bar_timeframe c) None cs"
      by (intro block_free_well_ordered) (auto simp: found_def list_ex_append)
    then have "validated_series (fst (normalize_timezone cs)) (bar_symbol c) (bar_timeframe c)
        = Inr \<lparr> series_candles = fst (normalize_timezone cs), series_symbol = bar_symbol c,
                series_timeframe = bar_timeframe c \<rparr>"
      by (simp add: validated_series_def normalized_well_ordered)
    then show ?thesis
      using m Cons False
      by (simp add: assess_quality_def Let_def found_def split_beta)
  qed
qed (simp add: assess_quality_def blocked_assessment_def)
end
