(* ===== verification/Structure_Swings.thy ===== *)
theory Structure_Swings
  imports Market
begin

text \<open>
\<open>app/domain/structure/swings.py\<close> and \<open>market_structure.py\<close>: pivots, the candle that confirms each, the
labels of consecutive swings and the bias they support. A comparison with a NaN raises, so every
scan is a computation that may raise. \<open>detect_swings_take\<close>: the swings of a shorter series are the
swings of the longer one that were confirmed by then.
\<close>

section \<open>Swings (swings.py)\<close>

datatype SwingType = SWING_HIGH | SWING_LOW

record SwingPoint =
  swing_type :: SwingType
  pivot_index :: nat
  pivot_time :: moment
  swing_price :: dec
  swing_confirmed_index :: nat
  swing_confirmed_time :: moment

record SwingConfig =
  swing_left :: nat
  swing_right :: nat
  use_wicks :: bool

definition default_swing_config :: SwingConfig where
  "default_swing_config = \<lparr> swing_left = 2, swing_right = 2, use_wicks = True \<rparr>"

definition make_swing_config :: "int \<Rightarrow> int \<Rightarrow> bool \<Rightarrow> SwingConfig res" where
  "make_swing_config l r w =
     (if l < 1 \<or> r < 1 then Inl ValueError
      else Inr \<lparr> swing_left = nat l, swing_right = nat r, use_wicks = w \<rparr>)"

text \<open>\<open>all(...)\<close> over a generator of comparisons: it stops at the first one that fails.\<close>

fun all_of :: "('a \<Rightarrow> bool res) \<Rightarrow> 'a list \<Rightarrow> bool res" where
  "all_of f [] = Inr True"
| "all_of f (x # xs) = rbind (f x) (\<lambda>b. if b then all_of f xs else Inr False)"

text \<open>Both scans of a pivot run before the two verdicts are combined.\<close>

definition is_pivot :: "(dec \<Rightarrow> dec \<Rightarrow> bool res) \<Rightarrow> (dec \<Rightarrow> dec \<Rightarrow> bool res) \<Rightarrow> SwingConfig \<Rightarrow> dec list \<Rightarrow> nat \<Rightarrow> bool res" where
  "is_pivot left_of right_of cfg vs i =
     rbind (all_of (\<lambda>k. left_of (vs ! i) (vs ! (i - k))) [1..<Suc (swing_left cfg)]) (\<lambda>l.
     rbind (all_of (\<lambda>k. right_of (vs ! i) (vs ! (i + k))) [1..<Suc (swing_right cfg)]) (\<lambda>r.
       Inr (l \<and> r)))"

definition is_pivot_high :: "SwingConfig \<Rightarrow> dec list \<Rightarrow> nat \<Rightarrow> bool res" where
  "is_pivot_high = is_pivot (\<lambda>c v. py_less v c) (\<lambda>c v. py_le v c)"

definition is_pivot_low :: "SwingConfig \<Rightarrow> dec list \<Rightarrow> nat \<Rightarrow> bool res" where
  "is_pivot_low = is_pivot py_less py_le"

definition swing_highs :: "SwingConfig \<Rightarrow> ValidatedCandleSeries \<Rightarrow> dec list" where
  "swing_highs cfg s = (if use_wicks cfg then highs s else closes s)"

definition swing_lows :: "SwingConfig \<Rightarrow> ValidatedCandleSeries \<Rightarrow> dec list" where
  "swing_lows cfg s = (if use_wicks cfg then lows s else closes s)"

definition swing_at :: "SwingType \<Rightarrow> dec list \<Rightarrow> SwingConfig \<Rightarrow> ValidatedCandleSeries \<Rightarrow> nat \<Rightarrow> SwingPoint" where
  "swing_at ty vs cfg s i =
     (let c = i + swing_right cfg in
      \<lparr> swing_type = ty, pivot_index = i, pivot_time = open_times s ! i, swing_price = vs ! i,
        swing_confirmed_index = c, swing_confirmed_time = open_times s ! c \<rparr>)"

definition pivots_at :: "SwingConfig \<Rightarrow> ValidatedCandleSeries \<Rightarrow> nat \<Rightarrow> SwingPoint list res" where
  "pivots_at cfg s i =
     (let hs = swing_highs cfg s; ls = swing_lows cfg s in
      rbind (is_pivot_high cfg hs i) (\<lambda>high.
      rbind (is_pivot_low cfg ls i) (\<lambda>low.
        Inr ((if high then [swing_at SWING_HIGH hs cfg s i] else [])
             @ (if low then [swing_at SWING_LOW ls cfg s i] else [])))))"

definition detect_swings :: "SwingConfig \<Rightarrow> ValidatedCandleSeries \<Rightarrow> SwingPoint list res" where
  "detect_swings cfg s =
     (if series_len s < swing_left cfg + swing_right cfg + 1 then Inr []
      else rmap concat (traverse (pivots_at cfg s) [swing_left cfg..<series_len s - swing_right cfg]))"

definition swings_known_at :: "SwingPoint list \<Rightarrow> nat \<Rightarrow> SwingPoint list" where
  "swings_known_at ss i = filter (\<lambda>s. swing_confirmed_index s \<le> i) ss"

section \<open>Labels and bias (market\_structure.py)\<close>

datatype StructureLabel =
    HIGHER_HIGH
  | LOWER_HIGH
  | EQUAL_HIGH
  | HIGHER_LOW
  | LOWER_LOW
  | EQUAL_LOW
  | FIRST_HIGH
  | FIRST_LOW

datatype StructureBias =
    BIAS_BULLISH
  | BIAS_BEARISH
  | CONTRACTING
  | EXPANDING
  | AMBIGUOUS
  | INSUFFICIENT

fun bias_value :: "StructureBias \<Rightarrow> string" where
  "bias_value BIAS_BULLISH = ''BULLISH''"
| "bias_value BIAS_BEARISH = ''BEARISH''"
| "bias_value CONTRACTING = ''CONTRACTING''"
| "bias_value EXPANDING = ''EXPANDING''"
| "bias_value AMBIGUOUS = ''AMBIGUOUS''"
| "bias_value INSUFFICIENT = ''INSUFFICIENT''"

definition bias_is_directional :: "StructureBias \<Rightarrow> bool" where
  "bias_is_directional b = (b = BIAS_BULLISH \<or> b = BIAS_BEARISH)"

record LabelledSwing =
  labelled_swing :: SwingPoint
  swing_label :: StructureLabel
  previous_swing :: "SwingPoint option"

record MarketStructure =
  labelled :: "LabelledSwing list"
  structure_bias :: StructureBias
  last_high :: "SwingPoint option"
  last_low :: "SwingPoint option"
  last_high_label :: "StructureLabel option"
  last_low_label :: "StructureLabel option"
  alternates :: bool

definition make_label_config :: "dec \<Rightarrow> dec res" where
  "make_label_config tolerance =
     rbind (py_less tolerance dec_zero) (\<lambda>neg. if neg then Inl ValueError else Inr tolerance)"

text \<open>The comparison with the previous swing of the same type: first, equal, higher or lower.\<close>

definition label_of :: "StructureLabel \<Rightarrow> StructureLabel \<Rightarrow> StructureLabel \<Rightarrow> StructureLabel \<Rightarrow> dec \<Rightarrow> SwingPoint option \<Rightarrow> dec \<Rightarrow> StructureLabel res" where
  "label_of first equal higher lower price previous tolerance =
     (case previous of
        None \<Rightarrow> Inr first
      | Some q \<Rightarrow>
          rbind (dec_sub default_context price (swing_price q)) (\<lambda>d.
          rbind (py_le (dec_abs default_context d) tolerance) (\<lambda>eq.
            if eq then Inr equal
            else rbind (py_less (swing_price q) price) (\<lambda>up. Inr (if up then higher else lower)))))"

definition label_high :: "dec \<Rightarrow> SwingPoint option \<Rightarrow> dec \<Rightarrow> StructureLabel res" where
  "label_high = label_of FIRST_HIGH EQUAL_HIGH HIGHER_HIGH LOWER_HIGH"

definition label_low :: "dec \<Rightarrow> SwingPoint option \<Rightarrow> dec \<Rightarrow> StructureLabel res" where
  "label_low = label_of FIRST_LOW EQUAL_LOW HIGHER_LOW LOWER_LOW"

definition derive_bias :: "StructureLabel option \<Rightarrow> StructureLabel option \<Rightarrow> StructureBias" where
  "derive_bias high low =
     (case (high, low) of
        (Some h, Some l) \<Rightarrow>
          (if h \<in> {FIRST_HIGH, FIRST_LOW} \<or> l \<in> {FIRST_HIGH, FIRST_LOW} then INSUFFICIENT
           else if h = EQUAL_HIGH \<or> l = EQUAL_LOW then AMBIGUOUS
           else if h = HIGHER_HIGH \<and> l = HIGHER_LOW then BIAS_BULLISH
           else if h = LOWER_HIGH \<and> l = LOWER_LOW then BIAS_BEARISH
           else if h = LOWER_HIGH \<and> l = HIGHER_LOW then CONTRACTING
           else if h = HIGHER_HIGH \<and> l = LOWER_LOW then EXPANDING
           else AMBIGUOUS)
      | _ \<Rightarrow> INSUFFICIENT)"

record Labelling =
  so_far :: "LabelledSwing list"
  prev_high :: "SwingPoint option"
  prev_low :: "SwingPoint option"
  prev_type :: "SwingType option"
  alternating :: bool

definition label_step :: "dec \<Rightarrow> Labelling \<Rightarrow> SwingPoint \<Rightarrow> Labelling res" where
  "label_step tolerance st q =
     (let alt = alternating st \<and> prev_type st \<noteq> Some (swing_type q);
          st' = st\<lparr>alternating := alt, prev_type := Some (swing_type q)\<rparr>
      in case swing_type q of
           SWING_HIGH \<Rightarrow>
             rmap (\<lambda>l. st'\<lparr>so_far := so_far st @ [\<lparr> labelled_swing = q, swing_label = l, previous_swing = prev_high st \<rparr>],
                           prev_high := Some q\<rparr>)
               (label_high (swing_price q) (prev_high st) tolerance)
         | SWING_LOW \<Rightarrow>
             rmap (\<lambda>l. st'\<lparr>so_far := so_far st @ [\<lparr> labelled_swing = q, swing_label = l, previous_swing = prev_low st \<rparr>],
                           prev_low := Some q\<rparr>)
               (label_low (swing_price q) (prev_low st) tolerance))"

text \<open>The order of the swings: by pivot, a high before a low of the same candle.\<close>

definition swing_order :: "SwingPoint \<Rightarrow> nat" where
  "swing_order q = 2 * pivot_index q + (case swing_type q of SWING_HIGH \<Rightarrow> 0 | SWING_LOW \<Rightarrow> 1)"

definition last_labelled :: "SwingType \<Rightarrow> LabelledSwing list \<Rightarrow> LabelledSwing option" where
  "last_labelled ty ls =
     (case filter (\<lambda>l. swing_type (labelled_swing l) = ty) ls of [] \<Rightarrow> None | x # xs \<Rightarrow> Some (last (x # xs)))"

definition label_swings :: "SwingPoint list \<Rightarrow> dec \<Rightarrow> MarketStructure res" where
  "label_swings ss tolerance =
     rmap (\<lambda>st.
       let h = last_labelled SWING_HIGH (so_far st); l = last_labelled SWING_LOW (so_far st) in
       \<lparr> labelled = so_far st,
         structure_bias = derive_bias (map_option swing_label h) (map_option swing_label l),
         last_high = map_option labelled_swing h, last_low = map_option labelled_swing l,
         last_high_label = map_option swing_label h, last_low_label = map_option swing_label l,
         alternates = alternating st \<rparr>)
       (run_all (label_step tolerance)
         \<lparr> so_far = [], prev_high = None, prev_low = None, prev_type = None, alternating = True \<rparr>
         (sort_key swing_order ss))"

section \<open>Swings are never revised\<close>

lemma all_of_cong: "(\<And>x. x \<in> set xs \<Longrightarrow> f x = g x) \<Longrightarrow> all_of f xs = all_of g xs"
proof (induction xs)
  case (Cons x xs)
  then show ?case
    by (cases "g x") simp_all
qed simp

lemma is_pivot_take:
  assumes "i + swing_right cfg < n" and "n \<le> length vs"
  shows "is_pivot f g cfg (take n vs) i = is_pivot f g cfg vs i"
proof -
  have "all_of (\<lambda>k. f (take n vs ! i) (take n vs ! (i - k))) [1..<Suc (swing_left cfg)]
      = all_of (\<lambda>k. f (vs ! i) (vs ! (i - k))) [1..<Suc (swing_left cfg)]"
    using assms by (intro all_of_cong) simp
  moreover have "all_of (\<lambda>k. g (take n vs ! i) (take n vs ! (i + k))) [1..<Suc (swing_right cfg)]
      = all_of (\<lambda>k. g (vs ! i) (vs ! (i + k))) [1..<Suc (swing_right cfg)]"
    using assms by (intro all_of_cong) auto
  ultimately show ?thesis
    by (simp only: is_pivot_def)
qed

lemma swing_lists_take:
  "swing_highs cfg (series_take n s) = take n (swing_highs cfg s)"
  "swing_lows cfg (series_take n s) = take n (swing_lows cfg s)"
  "length (swing_highs cfg s) = series_len s" "length (swing_lows cfg s) = series_len s"
  by (simp_all add: swing_highs_def swing_lows_def take_map series_len_def)

lemma swing_at_take:
  "i + swing_right cfg < n \<Longrightarrow> swing_at ty (take n vs) cfg (series_take n s) i = swing_at ty vs cfg s i"
  by (simp add: swing_at_def Let_def take_map[symmetric])

lemma pivots_at_take:
  assumes "i + swing_right cfg < n" and "n \<le> series_len s"
  shows "pivots_at cfg (series_take n s) i = pivots_at cfg s i"
  using assms(2)
  by (simp add: pivots_at_def is_pivot_high_def is_pivot_low_def is_pivot_take[OF assms(1)]
      swing_lists_take swing_at_take[OF assms(1)] Let_def cong del: if_weak_cong)

lemma pivots_at_index:
  assumes "pivots_at cfg s i = Inr qs" and "q \<in> set qs"
  shows "pivot_index q = i" "swing_confirmed_index q = i + swing_right cfg"
  using assms by (auto simp: pivots_at_def swing_at_def Let_def res_simps split: if_splits)

text \<open>
  The swings of the first \<open>n\<close> candles are the swings of the whole series that were confirmed by
  then: a later candle adds swings and revises none.
\<close>

lemma detect_swings_take:
  assumes found: "detect_swings cfg s = Inr ss" and n: "n \<le> series_len s"
  shows "detect_swings cfg (series_take n s) = Inr (filter (\<lambda>q. swing_confirmed_index q < n) ss)"
proof (cases "series_len s < swing_left cfg + swing_right cfg + 1")
  case True
  then show ?thesis
    using assms by (auto simp: detect_swings_def)
next
  case False
  define m where "m = max (swing_left cfg) (n - swing_right cfg)"
  have m: "[swing_left cfg..<series_len s - swing_right cfg]
      = [swing_left cfg..<m] @ [m..<series_len s - swing_right cfg]"
    by (rule upt_split_at) (use False n in \<open>auto simp: m_def\<close>)
  obtain a b where a: "traverse (pivots_at cfg s) [swing_left cfg..<m] = Inr a"
    and b: "traverse (pivots_at cfg s) [m..<series_len s - swing_right cfg] = Inr b"
    and ss: "ss = concat a @ concat b"
    using found False by (auto simp: detect_swings_def m traverse_append res_simps)
  have early: "swing_confirmed_index q < n" if q: "q \<in> set (concat a)" for q
  proof -
    obtain qs i where "pivots_at cfg s i = Inr qs" "q \<in> set qs" "i < m" "swing_left cfg \<le> i"
      using q traverse_set[OF a] by force
    then show ?thesis
      using pivots_at_index by (fastforce simp: m_def)
  qed
  have late: "\<not> swing_confirmed_index q < n" if q: "q \<in> set (concat b)" for q
  proof -
    obtain qs i where "pivots_at cfg s i = Inr qs" "q \<in> set qs" "m \<le> i"
      using q traverse_set[OF b] by force
    then show ?thesis
      using pivots_at_index by (fastforce simp: m_def)
  qed
  have "filter (\<lambda>q. swing_confirmed_index q < n) ss = concat a"
    unfolding ss filter_append using early late by (simp add: filter_id_conv filter_empty_conv)
  moreover have "detect_swings cfg (series_take n s) = Inr (concat a)"
  proof (cases "n < swing_left cfg + swing_right cfg + 1")
    case True
    then have "m = swing_left cfg"
      by (auto simp: m_def)
    then show ?thesis
      using a True n by (simp add: detect_swings_def)
  next
    case big: False
    then have "m = n - swing_right cfg"
      by (auto simp: m_def)
    moreover have "traverse (pivots_at cfg (series_take n s)) [swing_left cfg..<n - swing_right cfg]
        = traverse (pivots_at cfg s) [swing_left cfg..<n - swing_right cfg]"
      using n by (intro traverse_cong pivots_at_take) auto
    ultimately show ?thesis
      using a big n by (simp add: detect_swings_def)
  qed
  ultimately show ?thesis
    by simp
qed
end
