(* ===== verification/Structure_Events.thy ===== *)
theory Structure_Events
  imports Structure_Swings Py_Float
begin

text \<open>
\<open>app/domain/structure/events.py\<close>: breaks of the latest unbroken swing, classified by the bias the
swings confirmed so far support. The walk over the candles is an instance of \<open>stamped_walk\<close>, the
interface of every forward walk that stamps what it logs with the candle that settled it;
\<open>structural_events_take\<close>: the events of a shorter series are the events of the longer one that were
confirmed by then.
\<close>

section \<open>Structural events (events.py)\<close>

datatype StructuralEventType = BOS | CHOCH | LEVEL_BREAK

fun event_type_value :: "StructuralEventType \<Rightarrow> string" where
  "event_type_value BOS = ''BOS''"
| "event_type_value CHOCH = ''CHOCH''"
| "event_type_value LEVEL_BREAK = ''LEVEL_BREAK''"

datatype BreakConfirmation = BREAK_CLOSE | BREAK_WICK

record StructuralEvent =
  event_type :: StructuralEventType
  event_direction :: Direction
  broken_level :: dec
  origin_swing :: SwingPoint
  event_index :: nat
  struct_event_time :: moment
  event_confirmed_index :: nat
  event_confirmed_time :: moment
  prior_bias :: StructureBias
  event_confirmation :: BreakConfirmation
  breach_price :: dec
  event_reason :: string

record StructuralEventConfig =
  break_confirmation :: BreakConfirmation
  breach_tolerance :: dec
  event_label_tolerance :: dec

definition make_event_config :: "BreakConfirmation \<Rightarrow> dec \<Rightarrow> dec \<Rightarrow> StructuralEventConfig res" where
  "make_event_config c t l =
     rbind (py_less t dec_zero) (\<lambda>neg.
       if neg then Inl ValueError
       else Inr \<lparr> break_confirmation = c, breach_tolerance = t, event_label_tolerance = l \<rparr>)"

definition latest_unbroken :: "SwingPoint list \<Rightarrow> SwingType \<Rightarrow> nat list \<Rightarrow> SwingPoint option" where
  "latest_unbroken known ty consumed =
     foldl (\<lambda>latest q.
       if swing_type q \<noteq> ty \<or> pivot_index q \<in> set consumed then latest
       else case latest of None \<Rightarrow> Some q
            | Some l \<Rightarrow> if pivot_index l < pivot_index q then Some q else latest) None known"

definition build_event :: "StructuralEventConfig \<Rightarrow> Direction \<Rightarrow> SwingPoint \<Rightarrow> StructureBias \<Rightarrow> nat \<Rightarrow> moment \<Rightarrow> dec \<Rightarrow> StructuralEvent" where
  "build_event cfg d origin bias i t breach =
     (let bullish = (d = LONG);
          headline = ''close '' @ sci_text breach @ '' broke the '' @ (if bullish then ''high'' else ''low'')
            @ '' at '' @ sci_text (swing_price origin);
          (ty, reason) =
            (if \<not> bias_is_directional bias
             then (LEVEL_BREAK, headline @ '' while the structure was '' @ bias_value bias
                    @ ''; neither a continuation nor a reversal can be claimed'')
             else if (bullish \<and> bias = BIAS_BEARISH) \<or> (\<not> bullish \<and> bias = BIAS_BULLISH)
             then (CHOCH, headline @ '' against a '' @ bias_value bias @ '' structure'')
             else (BOS, headline @ '' continuing a '' @ bias_value bias @ '' structure''))
      in \<lparr> event_type = ty, event_direction = d, broken_level = swing_price origin, origin_swing = origin,
           event_index = i, struct_event_time = t, event_confirmed_index = i, event_confirmed_time = t,
           prior_bias = bias, event_confirmation = break_confirmation cfg, breach_price = breach,
           event_reason = reason \<rparr>)"

record EventWalk =
  walk_events :: "StructuralEvent list"
  broken_highs :: "nat list"
  broken_lows :: "nat list"

text \<open>The price that is tested against the level, and the test.\<close>

definition probe_high :: "StructuralEventConfig \<Rightarrow> ValidatedCandleSeries \<Rightarrow> nat \<Rightarrow> dec" where
  "probe_high cfg s i = (if break_confirmation cfg = BREAK_WICK then highs s else closes s) ! i"

definition probe_low :: "StructuralEventConfig \<Rightarrow> ValidatedCandleSeries \<Rightarrow> nat \<Rightarrow> dec" where
  "probe_low cfg s i = (if break_confirmation cfg = BREAK_WICK then lows s else closes s) ! i"

definition broke_above :: "StructuralEventConfig \<Rightarrow> SwingPoint \<Rightarrow> dec \<Rightarrow> bool res" where
  "broke_above cfg q probe =
     rbind (dec_add default_context (swing_price q) (breach_tolerance cfg)) (\<lambda>level. py_less level probe)"

definition broke_below :: "StructuralEventConfig \<Rightarrow> SwingPoint \<Rightarrow> dec \<Rightarrow> bool res" where
  "broke_below cfg q probe =
     rbind (dec_sub default_context (swing_price q) (breach_tolerance cfg)) (\<lambda>level. py_less probe level)"

definition break_high :: "StructuralEventConfig \<Rightarrow> ValidatedCandleSeries \<Rightarrow> SwingPoint list \<Rightarrow> StructureBias \<Rightarrow> nat \<Rightarrow> EventWalk \<Rightarrow> EventWalk res" where
  "break_high cfg s known bias i w =
     (case latest_unbroken known SWING_HIGH (broken_highs w) of
        None \<Rightarrow> Inr w
      | Some q \<Rightarrow>
          rmap (\<lambda>broke.
            if broke
            then w\<lparr>broken_highs := pivot_index q # broken_highs w,
                   walk_events := walk_events w
                     @ [build_event cfg LONG q bias i (open_times s ! i) (probe_high cfg s i)]\<rparr>
            else w) (broke_above cfg q (probe_high cfg s i)))"

definition break_low :: "StructuralEventConfig \<Rightarrow> ValidatedCandleSeries \<Rightarrow> SwingPoint list \<Rightarrow> StructureBias \<Rightarrow> nat \<Rightarrow> EventWalk \<Rightarrow> EventWalk res" where
  "break_low cfg s known bias i w =
     (case latest_unbroken known SWING_LOW (broken_lows w) of
        None \<Rightarrow> Inr w
      | Some q \<Rightarrow>
          rmap (\<lambda>broke.
            if broke
            then w\<lparr>broken_lows := pivot_index q # broken_lows w,
                   walk_events := walk_events w
                     @ [build_event cfg SHORT q bias i (open_times s ! i) (probe_low cfg s i)]\<rparr>
            else w) (broke_below cfg q (probe_low cfg s i)))"

definition event_step :: "StructuralEventConfig \<Rightarrow> ValidatedCandleSeries \<Rightarrow> SwingPoint list \<Rightarrow> EventWalk \<Rightarrow> nat \<Rightarrow> EventWalk res" where
  "event_step cfg s ss w i =
     (let known = swings_known_at ss i in
      if known = [] then Inr w
      else rbind (label_swings known (event_label_tolerance cfg)) (\<lambda>m.
           rbind (break_high cfg s known (structure_bias m) i w) (\<lambda>w'.
             break_low cfg s known (structure_bias m) i w')))"

definition empty_walk :: EventWalk where
  "empty_walk = \<lparr> walk_events = [], broken_highs = [], broken_lows = [] \<rparr>"

definition detect_structural_events :: "StructuralEventConfig \<Rightarrow> ValidatedCandleSeries \<Rightarrow> SwingPoint list \<Rightarrow> StructuralEvent list res" where
  "detect_structural_events cfg s ss =
     (if series_len s = 0 \<or> ss = [] then Inr []
      else rmap walk_events (run_all (event_step cfg s ss) empty_walk [0..<series_len s]))"

section \<open>What an event says, and when\<close>

lemma build_event_facts [simp]:
  "event_confirmed_index (build_event cfg d q b i t p) = i"
  "event_direction (build_event cfg d q b i t p) = d"
  "prior_bias (build_event cfg d q b i t p) = b"
  "origin_swing (build_event cfg d q b i t p) = q"
  "breach_price (build_event cfg d q b i t p) = p"
  "event_type (build_event cfg d q b i t p)
     = (if \<not> bias_is_directional b then LEVEL_BREAK
        else if (d = LONG \<and> b = BIAS_BEARISH) \<or> (d \<noteq> LONG \<and> b = BIAS_BULLISH) then CHOCH else BOS)"
  by (simp_all add: build_event_def Let_def split: if_splits)

lemma break_high_appends:
  assumes "break_high cfg s known b i w = Inr w'"
  shows "\<exists>new. walk_events w' = walk_events w @ new \<and> (\<forall>e\<in>set new. event_confirmed_index e = i)"
  using assms by (auto simp: break_high_def rmap_Inr_iff split: option.splits)

lemma break_low_appends:
  assumes "break_low cfg s known b i w = Inr w'"
  shows "\<exists>new. walk_events w' = walk_events w @ new \<and> (\<forall>e\<in>set new. event_confirmed_index e = i)"
  using assms by (auto simp: break_low_def rmap_Inr_iff split: option.splits)

lemma event_step_appends:
  assumes "event_step cfg s ss w i = Inr w'"
  shows "\<exists>added. walk_events w' = walk_events w @ added \<and> (\<forall>e\<in>set added. event_confirmed_index e = i)"
proof (cases "swings_known_at ss i = []")
  case False
  then obtain b u where "break_high cfg s (swings_known_at ss i) b i w = Inr u"
    "break_low cfg s (swings_known_at ss i) b i u = Inr w'"
    using assms by (auto simp: event_step_def Let_def res_simps)
  then obtain x y where "walk_events u = walk_events w @ x" "\<forall>e\<in>set x. event_confirmed_index e = i"
    "walk_events w' = walk_events u @ y" "\<forall>e\<in>set y. event_confirmed_index e = i"
    by (metis break_high_appends break_low_appends)
  then have "walk_events w' = walk_events w @ (x @ y)" "\<forall>e\<in>set (x @ y). event_confirmed_index e = i"
    by auto
  then show ?thesis
    by blast
qed (use assms in \<open>simp add: event_step_def\<close>)

interpretation events: stamped_walk "event_step cfg s ss" walk_events event_confirmed_index
  by unfold_locales (rule event_step_appends)

lemma known_at_filter:
  "i < n \<Longrightarrow> swings_known_at (filter (\<lambda>q. swing_confirmed_index q < n) ss) i = swings_known_at ss i"
  by (auto simp: swings_known_at_def intro: filter_cong)

lemma event_step_take:
  assumes "i < n"
  shows "event_step cfg (series_take n s) (filter (\<lambda>q. swing_confirmed_index q < n) ss) w i = event_step cfg s ss w i"
  using assms
  by (simp add: event_step_def break_high_def break_low_def probe_high_def probe_low_def known_at_filter
      take_map[symmetric] Let_def cong: if_cong option.case_cong)

text \<open>No break is reported from the future, and none is revised.\<close>

lemma structural_events_take:
  assumes found: "detect_structural_events cfg s ss = Inr es" and n: "n \<le> series_len s"
  shows "detect_structural_events cfg (series_take n s) (filter (\<lambda>q. swing_confirmed_index q < n) ss)
       = Inr (filter (\<lambda>e. event_confirmed_index e < n) es)"
proof (cases "series_len s = 0 \<or> ss = []")
  case True
  then show ?thesis
    using assms by (auto simp: detect_structural_events_def)
next
  case False
  let ?ss = "filter (\<lambda>q. swing_confirmed_index q < n) ss"
  obtain t where t: "run_all (event_step cfg s ss) empty_walk [0..<series_len s] = Inr t" "es = walk_events t"
    using found False by (auto simp: detect_structural_events_def res_simps)
  obtain u where u: "run_all (event_step cfg s ss) empty_walk [0..<n] = Inr u"
    "walk_events u = filter (\<lambda>e. event_confirmed_index e < n) es"
    using events.walk_prefix_upt[OF t(1) n] t(2) by (auto simp: empty_walk_def)
  have same: "run_all (event_step cfg (series_take n s) ?ss) empty_walk [0..<n] = Inr u"
    unfolding u(1)[symmetric] by (intro run_all_cong event_step_take) simp
  show ?thesis
  proof (cases "n = 0 \<or> ?ss = []")
    case True
    have "run_all (event_step cfg (series_take n s) ?ss) empty_walk [0..<n] = Inr empty_walk"
    proof (cases "n = 0")
      case no: False
      then have "?ss = []"
        using True by simp
      then have "event_step cfg (series_take n s) ?ss w i = Inr w" for w i
        by (simp add: event_step_def swings_known_at_def)
      then have "run_all (event_step cfg (series_take n s) ?ss) empty_walk is = Inr empty_walk" for "is"
        by (induction "is") simp_all
      then show ?thesis .
    qed simp
    then have "walk_events u = []"
      unfolding same by (auto simp: empty_walk_def)
    then show ?thesis
      using True u(2) n by (simp add: detect_structural_events_def)
  next
    case some: False
    then show ?thesis
      using same u(2) n by (simp add: detect_structural_events_def)
  qed
qed
end
