(* ===== verification/Float_Builtins.thy ===== *)
theory Float_Builtins
  imports Py_Float
begin

text \<open>
What the analysis code uses of Python's float built-ins: literals, true division, \<open>sum\<close> with its
compensation, \<open>max\<close>, \<open>min\<close>, \<open>round\<close>, \<open>math.isclose\<close>, the fixed formats, and stable sorting by a strict
order, with the comparison of decimals raising on a NaN.
\<close>

text \<open>One value per candle, \<open>None\<close> while it is not computable yet.\<close>

type_synonym indicator = "flt option list"

section \<open>Literals, division and the built-ins on floats\<close>

text \<open>A float literal is the double nearest to the decimal that is written.\<close>

definition flit :: "rat \<Rightarrow> flt" where
  "flit x = fround x"

definition flt_of_int :: "int \<Rightarrow> flt" where
  "flt_of_int n = fround (of_int n)"

definition py_fdiv :: "flt \<Rightarrow> flt \<Rightarrow> flt res" where
  "py_fdiv a b = (case fdiv a b of None \<Rightarrow> Inl ZeroDivisionError | Some q \<Rightarrow> Inr q)"

text \<open>The true division of two integers is rounded once.\<close>

definition py_int_div :: "int \<Rightarrow> int \<Rightarrow> flt res" where
  "py_int_div a b = (if b = 0 then Inl ZeroDivisionError else Inr (fround (of_int a / of_int b)))"

fun flt_eq :: "flt \<Rightarrow> flt \<Rightarrow> bool" where
  "flt_eq (FNum x) (FNum y) = (x = y)"
| "flt_eq (FInf s) (FInf t) = (s = t)"
| "flt_eq _ _ = False"

text \<open>\<open>max(a, b)\<close> and \<open>min(a, b)\<close> keep the first argument unless the second is strictly beyond it.\<close>

definition py_fmax :: "flt \<Rightarrow> flt \<Rightarrow> flt" where
  "py_fmax a b = (if flt_less a b then b else a)"

definition py_fmin :: "flt \<Rightarrow> flt \<Rightarrow> flt" where
  "py_fmin a b = (if flt_less b a then b else a)"

fun flt_abs :: "flt \<Rightarrow> flt" where
  "flt_abs (FNum x) = FNum \<bar>x\<bar>"
| "flt_abs (FInf s) = FInf False"
| "flt_abs FNan = FNan"

definition flt_is_finite :: "flt \<Rightarrow> bool" where
  "flt_is_finite a = (case a of FNum _ \<Rightarrow> True | _ \<Rightarrow> False)"

definition flt_is_inf :: "flt \<Rightarrow> bool" where
  "flt_is_inf a = (case a of FInf _ \<Rightarrow> True | _ \<Rightarrow> False)"

text \<open>
  The built-in \<open>sum\<close> over floats compensates what each addition rounds away (Neumaier) and adds the
  compensation at the end, when it is finite.
\<close>

fun fsum_loop :: "flt \<Rightarrow> flt \<Rightarrow> flt list \<Rightarrow> flt" where
  "fsum_loop acc c [] = (if flt_is_finite c \<and> \<not> flt_eq c (FNum 0) then fadd acc c else acc)"
| "fsum_loop acc c (x # xs) =
     (let t = fadd acc x;
          lost = (if flt_le (flt_abs x) (flt_abs acc) then fadd (fsub acc t) x else fadd (fsub x t) acc)
      in fsum_loop t (fadd c lost) xs)"

fun py_fsum :: "flt list \<Rightarrow> flt" where
  "py_fsum [] = FNum 0"
| "py_fsum (x # xs) = fsum_loop x (FNum 0) xs"

text \<open>\<open>math.isclose(a, b, rel\_tol=r)\<close> with no absolute tolerance.\<close>

definition isclose :: "flt \<Rightarrow> flt \<Rightarrow> flt \<Rightarrow> bool" where
  "isclose r a b =
     (if flt_eq a b then True
      else if flt_is_inf a \<or> flt_is_inf b then False
      else let d = flt_abs (fsub b a) in flt_le d (flt_abs (fmul r b)) \<or> flt_le d (flt_abs (fmul r a)))"

section \<open>\<open>round(x)\<close> and the fixed formats\<close>

fun py_round :: "flt \<Rightarrow> int res" where
  "py_round (FNum x) = Inr (nearest_even x)"
| "py_round (FInf _) = Inl OverflowError"
| "py_round FNan = Inl ValueError"

text \<open>\<open>f"{x:.kf}"\<close>: the exact value of the double, rounded half to even at the \<open>k\<close>-th place.\<close>

definition fixed_digits :: "nat \<Rightarrow> rat \<Rightarrow> string" where
  "fixed_digits k x =
     (let n = nat (nearest_even (\<bar>x\<bar> * 10 ^ k)) in
      if k = 0 then nat_str n else point_at k (pad (Suc k) (nat_str n)))"

fun fixed_text :: "nat \<Rightarrow> flt \<Rightarrow> string" where
  "fixed_text k (FNum x) = (if x < 0 then ''-'' else '''') @ fixed_digits k x"
| "fixed_text k (FInf s) = (if s then ''-inf'' else ''inf'')"
| "fixed_text k FNan = ''nan''"

text \<open>The same with an explicit sign.\<close>

definition signed_text :: "nat \<Rightarrow> flt \<Rightarrow> string" where
  "signed_text k x = (case fixed_text k x of [] \<Rightarrow> [] | c # r \<Rightarrow> if c = CHR ''-'' then c # r else CHR ''+'' # c # r)"

text \<open>\<open>f"{x:+.1%}"\<close>: the double times a hundred, with a percent sign.\<close>

definition percent_text :: "nat \<Rightarrow> flt \<Rightarrow> string" where
  "percent_text k x = signed_text k (fmul x (flt_of_int 100)) @ ''%''"

section \<open>Sorting by a strict order\<close>

text \<open>A stable sort: an element goes before the first one it is less than.\<close>

fun insert_before :: "('a \<Rightarrow> 'a \<Rightarrow> bool) \<Rightarrow> 'a \<Rightarrow> 'a list \<Rightarrow> 'a list" where
  "insert_before lt x [] = [x]"
| "insert_before lt x (y # ys) = (if lt x y then x # y # ys else y # insert_before lt x ys)"

definition sort_less :: "('a \<Rightarrow> 'a \<Rightarrow> bool) \<Rightarrow> 'a list \<Rightarrow> 'a list" where
  "sort_less lt xs = foldl (\<lambda>ys x. insert_before lt x ys) [] xs"

text \<open>Sorting on a decimal key compares every element at least once, so a NaN key raises.\<close>

definition py_sort_dec :: "('a \<Rightarrow> dec) \<Rightarrow> ('a \<Rightarrow> 'a \<Rightarrow> bool) \<Rightarrow> 'a list \<Rightarrow> 'a list res" where
  "py_sort_dec key lt xs =
     (if 2 \<le> length xs \<and> list_ex (\<lambda>x. is_nan (key x)) xs then Inl InvalidOperation else Inr (sort_less lt xs))"

fun fold_res :: "('s \<Rightarrow> 'a \<Rightarrow> 's res) \<Rightarrow> 's \<Rightarrow> 'a list \<Rightarrow> 's res" where
  "fold_res f s [] = Inr s"
| "fold_res f s (x # xs) = rbind (f s x) (\<lambda>t. fold_res f t xs)"

text \<open>\<open>max(values)\<close> and \<open>min(values)\<close> of decimals.\<close>

fun dec_list_max :: "dec list \<Rightarrow> dec res" where
  "dec_list_max [] = Inl ValueError"
| "dec_list_max (x # xs) =
     fold_res (\<lambda>m v. rbind (py_less m v) (\<lambda>b. Inr (if b then v else m))) x xs"

fun dec_list_min :: "dec list \<Rightarrow> dec res" where
  "dec_list_min [] = Inl ValueError"
| "dec_list_min (x # xs) =
     fold_res (\<lambda>m v. rbind (py_less v m) (\<lambda>b. Inr (if b then v else m))) x xs"

lemma sort_less_set [simp]: "set (sort_less lt xs) = set xs"
proof -
  have ins: "set (insert_before lt x ys) = insert x (set ys)" for x ys
    by (induction ys) auto
  have "set (foldl (\<lambda>ys x. insert_before lt x ys) acc xs) = set acc \<union> set xs" for acc
    by (induction xs arbitrary: acc) (auto simp: ins)
  then show ?thesis
    by (simp add: sort_less_def)
qed

lemma sort_less_length [simp]: "length (sort_less lt xs) = length xs"
proof -
  have ins: "length (insert_before lt x ys) = Suc (length ys)" for x ys
    by (induction ys) auto
  have "length (foldl (\<lambda>ys x. insert_before lt x ys) acc xs) = length acc + length xs" for acc
    by (induction xs arbitrary: acc) (auto simp: ins)
  then show ?thesis
    by (simp add: sort_less_def)
qed
end
