(* ===== verification/Structure_Zones.thy ===== *)
theory Structure_Zones
  imports Structure_Events Float_Builtins
begin

text \<open>
\<open>app/domain/structure/zones.py\<close> and the zone history of \<open>engine.py\<close>: clusters of confirmed swings, their
score in float arithmetic (\<open>pow\<close>, the C library's power function, is an argument), and the bands as
each first became knowable. \<open>build_zones_take\<close> and \<open>historical_zones_take\<close>: a zone as of a candle does
not depend on anything after it.
\<close>

section \<open>Zones (zones.py)\<close>

datatype ZoneKind = SUPPORT | RESISTANCE

fun zone_kind_value :: "ZoneKind \<Rightarrow> string" where
  "zone_kind_value SUPPORT = ''SUPPORT''"
| "zone_kind_value RESISTANCE = ''RESISTANCE''"

record ZoneWeights =
  touches_weight :: flt
  recency_weight :: flt
  reaction_weight :: flt
  volume_weight :: flt

definition make_zone_weights :: "flt \<Rightarrow> flt \<Rightarrow> flt \<Rightarrow> flt \<Rightarrow> ZoneWeights res" where
  "make_zone_weights t r a v =
     (if isclose (flit (1 / 10 ^ 9)) (fadd (fadd (fadd t r) a) v) (flit 1)
      then Inr \<lparr> touches_weight = t, recency_weight = r, reaction_weight = a, volume_weight = v \<rparr>
      else Inl ValueError)"

definition default_zone_weights :: ZoneWeights where
  "default_zone_weights =
     \<lparr> touches_weight = flit (35 / 100), recency_weight = flit (25 / 100),
       reaction_weight = flit (25 / 100), volume_weight = flit (15 / 100) \<rparr>"

record ZoneScoreBreakdown =
  touches_score :: flt
  recency_score :: flt
  reaction_score :: flt
  volume_score :: flt

definition breakdown_total :: "ZoneScoreBreakdown \<Rightarrow> ZoneWeights \<Rightarrow> flt" where
  "breakdown_total b w =
     fadd (fadd (fadd (fmul (touches_score b) (touches_weight w)) (fmul (recency_score b) (recency_weight w)))
       (fmul (reaction_score b) (reaction_weight w))) (fmul (volume_score b) (volume_weight w))"

record Zone =
  zone_kind :: ZoneKind
  zone_low :: dec
  zone_high :: dec
  zone_touches :: "SwingPoint list"
  zone_strength :: flt
  zone_breakdown :: ZoneScoreBreakdown
  first_touch_index :: nat
  last_touch_index :: nat
  last_touch_time :: moment
  zone_confirmed_index :: nat

record ZoneConfig =
  cluster_atr_multiple :: flt
  min_touches :: int
  max_touches_for_score :: int
  recency_halflife :: flt
  reaction_atr_target :: flt
  zone_weights :: ZoneWeights

definition zone_config_ok :: "ZoneConfig \<Rightarrow> bool" where
  "zone_config_ok c \<longleftrightarrow> \<not> flt_le (cluster_atr_multiple c) (FNum 0) \<and> 1 \<le> min_touches c
     \<and> \<not> flt_le (recency_halflife c) (FNum 0)"

definition default_zone_config :: ZoneConfig where
  "default_zone_config =
     \<lparr> cluster_atr_multiple = flit (1 / 2), min_touches = 2, max_touches_for_score = 5,
       recency_halflife = flit 50, reaction_atr_target = flit 2, zone_weights = default_zone_weights \<rparr>"

text \<open>The last defined value at or before an index.\<close>

definition last_defined :: "indicator \<Rightarrow> nat \<Rightarrow> flt option" where
  "last_defined vs k = (case filter (\<lambda>v. v \<noteq> None) (rev (take (Suc k) vs)) of [] \<Rightarrow> None | v # _ \<Rightarrow> v)"

definition pivots_of :: "SwingPoint list \<Rightarrow> nat list" where
  "pivots_of = map pivot_index"

text \<open>How far the closes went from one touch up to its confirmation, in ATR; \<open>None\<close> skips the touch.\<close>

definition touch_reaction :: "ZoneKind \<Rightarrow> ValidatedCandleSeries \<Rightarrow> flt \<Rightarrow> nat \<Rightarrow> SwingPoint \<Rightarrow> flt option res" where
  "touch_reaction k s atr as_of q =
     (let end = min as_of (swing_confirmed_index q) in
      if end \<le> pivot_index q then Inr None
      else
        let segment = drop (pivot_index q) (take (Suc end) (closes s)) in
        rbind (case k of
                 RESISTANCE \<Rightarrow> rbind (dec_list_min segment) (\<lambda>m. dec_sub default_context (swing_price q) m)
               | SUPPORT \<Rightarrow> rbind (dec_list_max segment) (\<lambda>m. dec_sub default_context m (swing_price q)))
          (\<lambda>travel. rmap Some (py_fdiv (py_fmax (flt_of_dec travel) (FNum 0)) atr)))"

definition reaction_of :: "ZoneKind \<Rightarrow> ValidatedCandleSeries \<Rightarrow> flt \<Rightarrow> ZoneConfig \<Rightarrow> nat \<Rightarrow> SwingPoint list \<Rightarrow> flt res" where
  "reaction_of k s atr cfg as_of cluster =
     (if flt_le atr (FNum 0) then Inr (FNum 0)
      else rbind (traverse (touch_reaction k s atr as_of) cluster) (\<lambda>rs.
        let reactions = map the (filter (\<lambda>r. r \<noteq> None) rs) in
        if reactions = [] then Inr (FNum 0)
        else rbind (py_fdiv (py_fsum reactions) (flt_of_int (int (length reactions)))) (\<lambda>average.
             rmap (\<lambda>r. py_fmin r (FNum 1)) (py_fdiv average (reaction_atr_target cfg)))))"

definition volume_of :: "SwingPoint list \<Rightarrow> indicator \<Rightarrow> flt res" where
  "volume_of cluster rv =
     (let values = map the (filter (\<lambda>v. v \<noteq> None)
                     (map (\<lambda>q. if pivot_index q < length rv then rv ! pivot_index q else None) cluster))
      in if values = [] then Inr (FNum 0)
         else rbind (py_fdiv (py_fsum values) (flt_of_int (int (length values)))) (\<lambda>average.
              rmap (\<lambda>r. py_fmin r (FNum 1)) (py_fdiv average (FNum 2))))"

text \<open>\<open>pow\<close> is the C library's power function.\<close>

definition build_zone :: "(flt \<Rightarrow> flt \<Rightarrow> flt) \<Rightarrow> ZoneKind \<Rightarrow> ValidatedCandleSeries \<Rightarrow> flt \<Rightarrow> indicator \<Rightarrow> ZoneConfig \<Rightarrow> nat \<Rightarrow> SwingPoint list \<Rightarrow> Zone res" where
  "build_zone pow k s atr rv cfg as_of cluster =
     (let cap = max_touches_for_score cfg; latest = Max (set (pivots_of cluster)) in
      rbind (py_int_div (min (int (length cluster)) cap) cap) (\<lambda>touches.
      rbind (py_fdiv (flt_of_int (int as_of - int latest)) (recency_halflife cfg)) (\<lambda>age.
      rbind (reaction_of k s atr cfg as_of cluster) (\<lambda>reaction.
      rbind (volume_of cluster rv) (\<lambda>volume.
      rbind (dec_list_min (map swing_price cluster)) (\<lambda>low.
      rbind (dec_list_max (map swing_price cluster)) (\<lambda>high.
        let breakdown = \<lparr> touches_score = touches, recency_score = pow (flit (1 / 2)) age,
                          reaction_score = reaction, volume_score = volume \<rparr>
        in Inr \<lparr> zone_kind = k, zone_low = low, zone_high = high,
                 zone_touches = sort_key pivot_index cluster,
                 zone_strength = fmul (flit 100) (breakdown_total breakdown (zone_weights cfg)),
                 zone_breakdown = breakdown,
                 first_touch_index = Min (set (pivots_of cluster)), last_touch_index = latest,
                 last_touch_time = open_times s ! latest,
                 zone_confirmed_index = Max (set (map swing_confirmed_index cluster)) \<rparr>)))))))"

definition price_then_pivot :: "SwingPoint \<Rightarrow> SwingPoint \<Rightarrow> bool" where
  "price_then_pivot a b \<longleftrightarrow>
     (if dec_eq (swing_price a) (swing_price b) then pivot_index a < pivot_index b
      else dec_less (swing_price a) (swing_price b))"

text \<open>Complete linkage: a swing joins the last cluster while the whole spread stays within the tolerance.\<close>

definition join_cluster :: "flt \<Rightarrow> SwingPoint list list \<Rightarrow> SwingPoint \<Rightarrow> SwingPoint list list res" where
  "join_cluster tolerance clusters q =
     (case rev clusters of
        [] \<Rightarrow> Inr [[q]]
      | c # earlier \<Rightarrow>
          rmap (\<lambda>d. if flt_le (flt_of_dec d) tolerance then rev earlier @ [c @ [q]] else clusters @ [[q]])
            (dec_sub default_context (swing_price q) (swing_price (hd c))))"

definition zones_from :: "(flt \<Rightarrow> flt \<Rightarrow> flt) \<Rightarrow> SwingPoint list \<Rightarrow> ZoneKind \<Rightarrow> ValidatedCandleSeries \<Rightarrow> flt \<Rightarrow> indicator \<Rightarrow> ZoneConfig \<Rightarrow> nat \<Rightarrow> Zone list res" where
  "zones_from pow ss k s atr rv cfg as_of =
     (if ss = [] then Inr []
      else
        rbind (py_sort_dec swing_price price_then_pivot ss) (\<lambda>ordered.
        rbind (fold_res (join_cluster (fmul atr (cluster_atr_multiple cfg))) [] ordered) (\<lambda>clusters.
        rbind (traverse (build_zone pow k s atr rv cfg as_of)
                (filter (\<lambda>c. min_touches cfg \<le> int (length c)) clusters)) (\<lambda>zones.
          py_sort_dec zone_low (\<lambda>a b. dec_less (zone_low a) (zone_low b)) zones))))"

text \<open>The zones as of a candle: support first, resistance second, with resistance built first.\<close>

definition build_zones :: "(flt \<Rightarrow> flt \<Rightarrow> flt) \<Rightarrow> ValidatedCandleSeries \<Rightarrow> SwingPoint list \<Rightarrow> indicator \<Rightarrow> indicator \<Rightarrow> ZoneConfig \<Rightarrow> nat option \<Rightarrow> (Zone list \<times> Zone list) res" where
  "build_zones pow s ss atr rv cfg as_of =
     (if ss = [] \<or> series_len s = 0 then Inr ([], [])
      else
        let limit = (case as_of of None \<Rightarrow> series_len s - 1 | Some a \<Rightarrow> min a (series_len s - 1));
            visible = filter (\<lambda>q. swing_confirmed_index q \<le> limit) ss
        in if visible = [] then Inr ([], [])
           else case last_defined atr limit of
                  None \<Rightarrow> Inr ([], [])
                | Some scale \<Rightarrow>
                    (if flt_le scale (FNum 0) then Inr ([], [])
                     else
                       rbind (zones_from pow (filter (\<lambda>q. swing_type q = SWING_HIGH) visible) RESISTANCE s scale rv cfg limit) (\<lambda>resistance.
                       rbind (zones_from pow (filter (\<lambda>q. swing_type q = SWING_LOW) visible) SUPPORT s scale rv cfg limit) (\<lambda>support.
                         Inr (support, resistance)))))"

section \<open>The zones of the past (engine.py)\<close>

type_synonym zone_id = "ZoneKind \<times> string \<times> string"

definition zone_key :: "Zone \<Rightarrow> zone_id" where
  "zone_key z = (zone_kind z, sci_text (zone_low z), sci_text (zone_high z))"

record ZoneHistory =
  seen_zones :: "zone_id list"
  past_zones :: "Zone list"

definition remember_zone :: "nat \<Rightarrow> ZoneHistory \<Rightarrow> Zone \<Rightarrow> ZoneHistory" where
  "remember_zone checkpoint h z =
     (if zone_key z \<in> set (seen_zones h) then h
      else h\<lparr>seen_zones := zone_key z # seen_zones h,
             past_zones := past_zones h @ [z\<lparr>zone_confirmed_index := checkpoint\<rparr>]\<rparr>)"

definition checkpoint_step :: "(flt \<Rightarrow> flt \<Rightarrow> flt) \<Rightarrow> ValidatedCandleSeries \<Rightarrow> SwingPoint list \<Rightarrow> indicator \<Rightarrow> indicator \<Rightarrow> ZoneConfig \<Rightarrow> ZoneHistory \<Rightarrow> nat \<Rightarrow> ZoneHistory res" where
  "checkpoint_step pow s ss atr rv cfg h checkpoint =
     rmap (\<lambda>(support, resistance). foldl (remember_zone checkpoint) h (support @ resistance))
       (build_zones pow s ss atr rv cfg (Some checkpoint))"

definition historical_zones :: "(flt \<Rightarrow> flt \<Rightarrow> flt) \<Rightarrow> ValidatedCandleSeries \<Rightarrow> SwingPoint list \<Rightarrow> indicator \<Rightarrow> indicator \<Rightarrow> ZoneConfig \<Rightarrow> Zone list res" where
  "historical_zones pow s ss atr rv cfg =
     rmap past_zones
       (run_all (checkpoint_step pow s ss atr rv cfg) \<lparr> seen_zones = [], past_zones = [] \<rparr>
         (sorted_list_of_set (set (map swing_confirmed_index ss))))"

section \<open>A zone is built from what was known\<close>

lemma last_defined_take: "c < n \<Longrightarrow> last_defined (take n vs) c = last_defined vs c"
  by (simp add: last_defined_def min_absorb1)

lemma touch_reaction_take:
  "as_of < n \<Longrightarrow> touch_reaction k (series_take n s) atr as_of q = touch_reaction k s atr as_of q"
proof -
  assume "as_of < n"
  then have "min (Suc (min as_of (swing_confirmed_index q))) n = Suc (min as_of (swing_confirmed_index q))"
    by simp
  then show ?thesis
    by (simp add: touch_reaction_def Let_def take_map[symmetric])
qed

lemma reaction_of_take:
  "as_of < n \<Longrightarrow> reaction_of k (series_take n s) atr cfg as_of c = reaction_of k s atr cfg as_of c"
  by (simp add: reaction_of_def touch_reaction_take cong: traverse_cong)

lemma volume_of_take:
  assumes "\<And>q. q \<in> set c \<Longrightarrow> pivot_index q < n"
  shows "volume_of c (take n rv) = volume_of c rv"
proof -
  have "map (\<lambda>q. if pivot_index q < length (take n rv) then take n rv ! pivot_index q else None) c
      = map (\<lambda>q. if pivot_index q < length rv then rv ! pivot_index q else None) c"
    using assms by (intro map_cong) auto
  then show ?thesis
    unfolding volume_of_def by metis
qed

lemma build_zone_take:
  assumes "c \<noteq> []" and pivots: "\<And>q. q \<in> set c \<Longrightarrow> pivot_index q < n" and "as_of < n"
  shows "build_zone pow k (series_take n s) atr (take n rv) cfg as_of c = build_zone pow k s atr rv cfg as_of c"
proof -
  have "Max (set (pivots_of c)) \<in> set (pivots_of c)"
    using assms(1) by (intro Max_in) (simp_all add: pivots_of_def)
  then have "Max (set (pivots_of c)) < n"
    using pivots by (auto simp: pivots_of_def)
  then show ?thesis
    using assms(3) volume_of_take[of c n rv] pivots
    by (simp add: build_zone_def reaction_of_take take_map[symmetric] Let_def)
qed

lemma join_cluster_concat:
  assumes "join_cluster t cs q = Inr ds"
  shows "concat ds = concat cs @ [q]" "[] \<notin> set cs \<Longrightarrow> [] \<notin> set ds"
proof -
  have "cs = rev earlier @ [c]" if "rev cs = c # earlier" for c earlier
    using that by (metis rev.simps(2) rev_rev_ident)
  then show "concat ds = concat cs @ [q]" "[] \<notin> set cs \<Longrightarrow> [] \<notin> set ds"
    using assms by (auto simp: join_cluster_def res_simps split: list.splits if_splits)
qed

lemma clusters_concat:
  assumes "fold_res (join_cluster t) cs qs = Inr ds" and "[] \<notin> set cs"
  shows "concat ds = concat cs @ qs \<and> [] \<notin> set ds"
  using assms
proof (induction qs arbitrary: cs)
  case (Cons q qs)
  then obtain es where es: "join_cluster t cs q = Inr es" "fold_res (join_cluster t) es qs = Inr ds"
    by (auto simp: res_simps)
  then show ?case
    using Cons.IH[OF es(2)] Cons.prems(2) join_cluster_concat[OF es(1)] by simp
qed simp

lemma cluster_members:
  assumes "fold_res (join_cluster t) [] qs = Inr ds" and "d \<in> set ds"
  shows "d \<noteq> []" "set d \<subseteq> set qs"
proof -
  have "concat ds = qs" "[] \<notin> set ds"
    using clusters_concat[OF assms(1)] by simp_all
  then show "d \<noteq> []" "set d \<subseteq> set qs"
    using assms(2) by auto
qed

lemma zones_from_take:
  assumes pivots: "\<And>q. q \<in> set ss \<Longrightarrow> pivot_index q < n" and "as_of < n"
  shows "zones_from pow ss k (series_take n s) atr (take n rv) cfg as_of = zones_from pow ss k s atr rv cfg as_of"
proof (cases "ss = []")
  case False
  have "traverse (build_zone pow k (series_take n s) atr (take n rv) cfg as_of) (filter P cs)
      = traverse (build_zone pow k s atr rv cfg as_of) (filter P cs)"
    if ordered: "py_sort_dec swing_price price_then_pivot ss = Inr qs"
      and clusters: "fold_res (join_cluster t) [] qs = Inr cs" for qs cs t P
  proof (rule traverse_cong, rule build_zone_take)
    fix c
    assume "c \<in> set (filter P cs)"
    then have c: "c \<noteq> []" "set c \<subseteq> set qs"
      using cluster_members[OF clusters] by auto
    moreover have "set qs = set ss"
      using ordered by (auto simp: py_sort_dec_def split: if_splits)
    ultimately show "c \<noteq> []" "\<And>q. q \<in> set c \<Longrightarrow> pivot_index q < n"
      using pivots by auto
    show "as_of < n"
      by fact
  qed
  then show ?thesis
    using False unfolding zones_from_def by (auto intro!: rbind_cong)
qed (simp add: zones_from_def)

definition pivots_first :: "SwingPoint list \<Rightarrow> bool" where
  "pivots_first ss \<longleftrightarrow> (\<forall>q\<in>set ss. pivot_index q \<le> swing_confirmed_index q)"

lemma build_zones_take:
  assumes "pivots_first ss" and "c < n" and "n \<le> series_len s"
  shows "build_zones pow (series_take n s) (filter (\<lambda>q. swing_confirmed_index q < n) ss) (take n atr) (take n rv) cfg (Some c)
       = build_zones pow s ss atr rv cfg (Some c)"
proof -
  let ?v = "filter (\<lambda>q. swing_confirmed_index q \<le> c) ss"
  have v: "filter (\<lambda>q. swing_confirmed_index q \<le> c) (filter (\<lambda>q. swing_confirmed_index q < n) ss) = ?v"
    using assms(2) by (auto intro: filter_cong)
  have same: "zones_from pow (filter P ?v) k (series_take n s) x (take n rv) cfg c
      = zones_from pow (filter P ?v) k s x rv cfg c" for P k x
    using assms by (intro zones_from_take) (force simp: pivots_first_def)+
  have c: "min c (n - Suc 0) = c" "min c (series_len s - Suc 0) = c" "min n (series_len s) = n"
    using assms by auto
  show ?thesis
  proof (cases "?v = []")
    case True
    then show ?thesis
      using v c assms by (auto simp: build_zones_def Let_def)
  next
    case False
    then obtain q where "q \<in> set ss" "swing_confirmed_index q \<le> c"
      by (auto simp: filter_empty_conv)
    then have "ss \<noteq> []" "filter (\<lambda>q. swing_confirmed_index q < n) ss \<noteq> []"
      using assms(2) by (force simp: filter_empty_conv)+
    then show ?thesis
      using False v c assms same
      by (simp add: build_zones_def Let_def last_defined_take split: option.split)
  qed
qed

lemma remember_appends:
  "\<exists>added. past_zones (foldl (remember_zone c) h zs) = past_zones h @ added
         \<and> (\<forall>z\<in>set added. zone_confirmed_index z = c)"
proof (induction zs arbitrary: h)
  case (Cons z zs)
  obtain xs where "past_zones (remember_zone c h z) = past_zones h @ xs" "\<forall>z\<in>set xs. zone_confirmed_index z = c"
    by (cases "zone_key z \<in> set (seen_zones h)") (simp_all add: remember_zone_def)
  moreover obtain ys where "past_zones (foldl (remember_zone c) (remember_zone c h z) zs)
      = past_zones (remember_zone c h z) @ ys" "\<forall>z\<in>set ys. zone_confirmed_index z = c"
    using Cons by blast
  ultimately have "past_zones (foldl (remember_zone c) h (z # zs)) = past_zones h @ (xs @ ys)"
    "\<forall>z\<in>set (xs @ ys). zone_confirmed_index z = c"
    by auto
  then show ?case
    by blast
qed simp

lemma checkpoint_appends:
  "checkpoint_step pow s ss atr rv cfg h c = Inr h' \<Longrightarrow>
     \<exists>added. past_zones h' = past_zones h @ added \<and> (\<forall>z\<in>set added. zone_confirmed_index z = c)"
  using remember_appends by (auto simp: checkpoint_step_def rmap_Inr_iff simp del: foldl_append)

interpretation zones: stamped_walk "checkpoint_step pow s ss atr rv cfg" past_zones zone_confirmed_index
  by unfold_locales (rule checkpoint_appends)

lemma checkpoints_take:
  "sorted_list_of_set (set (map swing_confirmed_index (filter (\<lambda>q. swing_confirmed_index q < n) ss)))
     = filter (\<lambda>i. i < n) (sorted_list_of_set (set (map swing_confirmed_index ss)))"
  by (rule sorted_distinct_set_unique) (auto intro: sorted_wrt_filter)

text \<open>The bands a shorter series knows are the bands of the longer one that existed by then.\<close>

lemma historical_zones_take:
  assumes found: "historical_zones pow s ss atr rv cfg = Inr zs" and "pivots_first ss" and n: "n \<le> series_len s"
  shows "historical_zones pow (series_take n s) (filter (\<lambda>q. swing_confirmed_index q < n) ss) (take n atr) (take n rv) cfg
       = Inr (filter (\<lambda>z. zone_confirmed_index z < n) zs)"
proof -
  let ?cs = "sorted_list_of_set (set (map swing_confirmed_index ss))"
  let ?h = "\<lparr> seen_zones = [], past_zones = [] \<rparr>"
  obtain t where t: "run_all (checkpoint_step pow s ss atr rv cfg) ?h ?cs = Inr t" "zs = past_zones t"
    using found by (auto simp: historical_zones_def rmap_Inr_iff)
  obtain u where u: "run_all (checkpoint_step pow s ss atr rv cfg) ?h (filter (\<lambda>i. i < n) ?cs) = Inr u"
    "past_zones u = filter (\<lambda>z. zone_confirmed_index z < n) zs"
    using zones.walk_prefix[OF t(1), of n] t(2) by auto
  have "run_all (checkpoint_step pow (series_take n s) (filter (\<lambda>q. swing_confirmed_index q < n) ss) (take n atr) (take n rv) cfg)
        ?h (filter (\<lambda>i. i < n) ?cs) = Inr u"
    unfolding u(1)[symmetric]
    by (rule run_all_cong) (use assms build_zones_take in \<open>simp add: checkpoint_step_def\<close>)
  then show ?thesis
    unfolding historical_zones_def checkpoints_take using u(2) by simp
qed
end
