(* ===== verification/Structure_Breakouts.thy ===== *)
theory Structure_Breakouts
  imports Structure_Zones "HOL-Library.Product_Lexorder"
begin

text \<open>
\<open>app/domain/structure/breakouts.py\<close>: the lifecycle of each zone (challenge, breach, and the candle that
settles the breach as confirmed or false) and the retests of confirmed breakouts.
\<open>detect_breakouts_take\<close>, \<open>detect_retests_take\<close>: the events of a shorter series are the events of the
longer one that were confirmed by then.
\<close>

section \<open>Breakouts (breakouts.py)\<close>

datatype BreakoutEventType = CHALLENGE | BREACH | BREAK_CONFIRMED | FALSE_BREAKOUT

datatype VolumeConfirmation = VOLUME_CONFIRMED | VOLUME_WEAK | VOLUME_UNAVAILABLE

record BreakoutEvent =
  breakout_type :: BreakoutEventType
  breakout_direction :: Direction
  breakout_zone :: Zone
  breakout_index :: nat
  breakout_time :: moment
  breakout_confirmed_index :: nat
  breakout_confirmed_time :: moment
  breach_index :: nat
  breakout_price :: dec
  volume_confirmation :: VolumeConfirmation
  breakout_relative_volume :: "flt option"
  breakout_reason :: string

datatype RetestEventType = RETEST_TOUCHED | RETEST_HELD | RETEST_FAILED

record RetestEvent =
  retest_type :: RetestEventType
  retest_direction :: Direction
  retest_zone :: Zone
  retest_breakout_index :: nat
  retest_index :: nat
  retest_time :: moment
  retest_confirmed_index :: nat
  retest_confirmed_time :: moment
  retest_price :: dec
  retest_reason :: string

record BreakoutConfig =
  failure_window :: nat
  retest_window :: nat
  retest_resolution_window :: nat
  volume_confirmation_multiple :: flt

definition default_breakout_config :: BreakoutConfig where
  "default_breakout_config =
     \<lparr> failure_window = 3, retest_window = 20, retest_resolution_window = 5,
       volume_confirmation_multiple = flit (3 / 2) \<rparr>"

definition breakout_config_ok :: "BreakoutConfig \<Rightarrow> bool" where
  "breakout_config_ok c \<longleftrightarrow> 1 \<le> failure_window c \<and> 1 \<le> retest_window c \<and> 1 \<le> retest_resolution_window c
     \<and> \<not> flt_le (volume_confirmation_multiple c) (FNum 0)"

definition volume_confirmation_of :: "indicator \<Rightarrow> nat \<Rightarrow> BreakoutConfig \<Rightarrow> VolumeConfirmation \<times> flt option" where
  "volume_confirmation_of rv i cfg =
     (case (if i < length rv then rv ! i else None) of
        None \<Rightarrow> (VOLUME_UNAVAILABLE, None)
      | Some v \<Rightarrow> (if flt_le (volume_confirmation_multiple cfg) v then VOLUME_CONFIRMED else VOLUME_WEAK, Some v))"

definition band_text :: "Zone \<Rightarrow> string" where
  "band_text z = sci_text (zone_low z) @ ''-'' @ sci_text (zone_high z)"

text \<open>The reasons.\<close>

definition held_reason :: "nat \<Rightarrow> nat \<Rightarrow> string" where
  "held_reason breach window =
     ''the breach at index '' @ nat_str breach @ '' held for '' @ nat_str window @ '' candle(s)''"

definition returned_reason :: "dec \<Rightarrow> nat \<Rightarrow> nat \<Rightarrow> string" where
  "returned_reason close k breach =
     ''close '' @ sci_text close @ '' returned inside the zone '' @ nat_str k
       @ '' candle(s) after the breach at index '' @ nat_str breach"

definition breach_reason :: "dec \<Rightarrow> Zone \<Rightarrow> string" where
  "breach_reason close z = ''close '' @ sci_text close @ '' beyond the zone '' @ band_text z"

definition challenge_reason :: "Zone \<Rightarrow> string" where
  "challenge_reason z = ''price entered the zone without closing beyond '' @ band_text z"

definition retest_reason_of :: "RetestEventType \<Rightarrow> dec \<Rightarrow> Zone \<Rightarrow> string" where
  "retest_reason_of ty close z =
     (case ty of
        RETEST_TOUCHED \<Rightarrow> ''price returned into the broken zone '' @ band_text z
      | RETEST_HELD \<Rightarrow> ''close '' @ sci_text close @ '' left the zone in the breakout direction''
      | RETEST_FAILED \<Rightarrow> ''close '' @ sci_text close @ '' went back through the zone'')"

definition zone_direction :: "Zone \<Rightarrow> Direction" where
  "zone_direction z = (case zone_kind z of RESISTANCE \<Rightarrow> LONG | SUPPORT \<Rightarrow> SHORT)"

definition breakout_event :: "BreakoutEventType \<Rightarrow> Zone \<Rightarrow> ValidatedCandleSeries \<Rightarrow> nat \<Rightarrow> nat \<Rightarrow> VolumeConfirmation \<times> flt option \<Rightarrow> string \<Rightarrow> BreakoutEvent" where
  "breakout_event ty z s i breach v reason =
     \<lparr> breakout_type = ty, breakout_direction = zone_direction z, breakout_zone = z,
       breakout_index = i, breakout_time = open_times s ! i,
       breakout_confirmed_index = i, breakout_confirmed_time = open_times s ! i,
       breach_index = breach, breakout_price = closes s ! i,
       volume_confirmation = fst v, breakout_relative_volume = snd v, breakout_reason = reason \<rparr>"

text \<open>The close is beyond the zone on the breakout side; strictly through it on the other side.\<close>

definition beyond_zone :: "Zone \<Rightarrow> dec \<Rightarrow> bool res" where
  "beyond_zone z close =
     (case zone_kind z of RESISTANCE \<Rightarrow> py_less (zone_high z) close | SUPPORT \<Rightarrow> py_less close (zone_low z))"

definition through_zone :: "Zone \<Rightarrow> dec \<Rightarrow> bool res" where
  "through_zone z close =
     (case zone_kind z of RESISTANCE \<Rightarrow> py_less close (zone_low z) | SUPPORT \<Rightarrow> py_less (zone_high z) close)"

definition returned_to_zone :: "Zone \<Rightarrow> dec \<Rightarrow> bool res" where
  "returned_to_zone z close =
     (case zone_kind z of RESISTANCE \<Rightarrow> py_le close (zone_high z) | SUPPORT \<Rightarrow> py_le (zone_low z) close)"

definition touches_zone :: "Zone \<Rightarrow> ValidatedCandleSeries \<Rightarrow> nat \<Rightarrow> bool res" where
  "touches_zone z s i =
     (case zone_kind z of RESISTANCE \<Rightarrow> py_le (zone_low z) (highs s ! i) | SUPPORT \<Rightarrow> py_le (lows s ! i) (zone_high z))"

text \<open>The candles after a breach, in order: the first return settles it as false; a window that passes
  settles it as confirmed; a window the series does not contain settles nothing.\<close>

fun resolve_breach :: "BreakoutConfig \<Rightarrow> ValidatedCandleSeries \<Rightarrow> Zone \<Rightarrow> nat \<Rightarrow> VolumeConfirmation \<times> flt option \<Rightarrow> nat list \<Rightarrow> BreakoutEvent option res" where
  "resolve_breach cfg s z breach v [] =
     Inr (Some (breakout_event BREAK_CONFIRMED z s (breach + failure_window cfg) breach v
       (held_reason breach (failure_window cfg))))"
| "resolve_breach cfg s z breach v (k # ks) =
     (let i = breach + k in
      if series_len s \<le> i then Inr None
      else rbind (returned_to_zone z (closes s ! i)) (\<lambda>returned.
           if returned
           then Inr (Some (breakout_event FALSE_BREAKOUT z s i breach v
             (returned_reason (closes s ! i) k breach)))
           else resolve_breach cfg s z breach v ks))"

text \<open>A breach and, when the candles to come settle it, its outcome; the first challenge of a zone.\<close>

definition breach_events :: "BreakoutConfig \<Rightarrow> ValidatedCandleSeries \<Rightarrow> Zone \<Rightarrow> indicator \<Rightarrow> nat \<Rightarrow> BreakoutEvent list res" where
  "breach_events cfg s z rv i =
     (let v = volume_confirmation_of rv i cfg in
      rmap (\<lambda>r. breakout_event BREACH z s i i v (breach_reason (closes s ! i) z)
                  # (case r of None \<Rightarrow> [] | Some e \<Rightarrow> [e]))
        (resolve_breach cfg s z i v [1..<Suc (failure_window cfg)]))"

definition challenge_events :: "ValidatedCandleSeries \<Rightarrow> Zone \<Rightarrow> nat \<Rightarrow> bool \<Rightarrow> BreakoutEvent list" where
  "challenge_events s z i first =
     (if first then [breakout_event CHALLENGE z s i i (VOLUME_UNAVAILABLE, None) (challenge_reason z)] else [])"

fun zone_lifecycle :: "BreakoutConfig \<Rightarrow> ValidatedCandleSeries \<Rightarrow> Zone \<Rightarrow> indicator \<Rightarrow> bool \<Rightarrow> nat list \<Rightarrow> BreakoutEvent list res" where
  "zone_lifecycle cfg s z rv challenged [] = Inr []"
| "zone_lifecycle cfg s z rv challenged (i # is) =
     rbind (beyond_zone z (closes s ! i)) (\<lambda>beyond.
       if beyond then breach_events cfg s z rv i
       else rbind (touches_zone z s i) (\<lambda>touched.
         rmap ((@) (challenge_events s z i (touched \<and> \<not> challenged)))
           (zone_lifecycle cfg s z rv (challenged \<or> touched) is)))"

definition breakout_order :: "BreakoutEvent \<Rightarrow> nat \<times> nat" where
  "breakout_order e = (breakout_confirmed_index e, breakout_index e)"

definition zone_events :: "BreakoutConfig \<Rightarrow> ValidatedCandleSeries \<Rightarrow> indicator \<Rightarrow> Zone \<Rightarrow> BreakoutEvent list res" where
  "zone_events cfg s rv z = zone_lifecycle cfg s z rv False [Suc (zone_confirmed_index z)..<series_len s]"

definition detect_breakouts :: "BreakoutConfig \<Rightarrow> ValidatedCandleSeries \<Rightarrow> Zone list \<Rightarrow> indicator \<Rightarrow> BreakoutEvent list res" where
  "detect_breakouts cfg s zs rv = rmap (sort_key breakout_order \<circ> concat) (traverse (zone_events cfg s rv) zs)"

section \<open>Retests\<close>

definition retest_event :: "RetestEventType \<Rightarrow> BreakoutEvent \<Rightarrow> ValidatedCandleSeries \<Rightarrow> nat \<Rightarrow> RetestEvent" where
  "retest_event ty b s i =
     \<lparr> retest_type = ty, retest_direction = breakout_direction b, retest_zone = breakout_zone b,
       retest_breakout_index = breakout_confirmed_index b, retest_index = i, retest_time = open_times s ! i,
       retest_confirmed_index = i, retest_confirmed_time = open_times s ! i,
       retest_price = closes s ! i, retest_reason = retest_reason_of ty (closes s ! i) (breakout_zone b) \<rparr>"

definition entered_again :: "Zone \<Rightarrow> ValidatedCandleSeries \<Rightarrow> nat \<Rightarrow> bool res" where
  "entered_again z s i =
     (case zone_kind z of RESISTANCE \<Rightarrow> py_le (lows s ! i) (zone_high z) | SUPPORT \<Rightarrow> py_le (zone_low z) (highs s ! i))"

fun resolve_retest :: "ValidatedCandleSeries \<Rightarrow> BreakoutEvent \<Rightarrow> nat \<Rightarrow> nat list \<Rightarrow> RetestEvent option res" where
  "resolve_retest s b touch [] = Inr None"
| "resolve_retest s b touch (k # ks) =
     (if series_len s \<le> touch + k then Inr None
      else rbind (beyond_zone (breakout_zone b) (closes s ! (touch + k))) (\<lambda>held.
           rbind (through_zone (breakout_zone b) (closes s ! (touch + k))) (\<lambda>failed.
             if held then Inr (Some (retest_event RETEST_HELD b s (touch + k)))
             else if failed then Inr (Some (retest_event RETEST_FAILED b s (touch + k)))
             else resolve_retest s b touch ks)))"

definition touch_events :: "BreakoutConfig \<Rightarrow> ValidatedCandleSeries \<Rightarrow> BreakoutEvent \<Rightarrow> nat \<Rightarrow> RetestEvent list res" where
  "touch_events cfg s b i =
     rmap (\<lambda>r. retest_event RETEST_TOUCHED b s i # (case r of None \<Rightarrow> [] | Some e \<Rightarrow> [e]))
       (resolve_retest s b i [1..<Suc (retest_resolution_window cfg)])"

fun scan_retest :: "BreakoutConfig \<Rightarrow> ValidatedCandleSeries \<Rightarrow> BreakoutEvent \<Rightarrow> nat list \<Rightarrow> RetestEvent list res" where
  "scan_retest cfg s b [] = Inr []"
| "scan_retest cfg s b (i # is) =
     rbind (entered_again (breakout_zone b) s i) (\<lambda>entered.
       if entered then touch_events cfg s b i else scan_retest cfg s b is)"

definition retests_of :: "BreakoutConfig \<Rightarrow> ValidatedCandleSeries \<Rightarrow> BreakoutEvent \<Rightarrow> RetestEvent list res" where
  "retests_of cfg s b =
     (if breakout_type b \<noteq> BREAK_CONFIRMED then Inr []
      else let start = Suc (breakout_confirmed_index b)
           in scan_retest cfg s b [start..<min (series_len s) (start + retest_window cfg)])"

definition retest_order :: "RetestEvent \<Rightarrow> nat \<times> nat" where
  "retest_order e = (retest_confirmed_index e, retest_index e)"

definition detect_retests :: "BreakoutConfig \<Rightarrow> ValidatedCandleSeries \<Rightarrow> BreakoutEvent list \<Rightarrow> RetestEvent list res" where
  "detect_retests cfg s bs = rmap (sort_key retest_order \<circ> concat) (traverse (retests_of cfg s) bs)"

section \<open>Nothing is dated before it was known\<close>

definition before :: "('a \<Rightarrow> nat) \<Rightarrow> nat \<Rightarrow> 'a option \<Rightarrow> 'a option" where
  "before stamp n r = (case r of None \<Rightarrow> None | Some e \<Rightarrow> if stamp e < n then Some e else None)"

lemma before_simps [simp]:
  "before stamp n None = None"
  "before stamp n (Some e) = (if stamp e < n then Some e else None)"
  by (simp_all add: before_def)

lemma before_list:
  "(case before stamp n r of None \<Rightarrow> [] | Some e \<Rightarrow> [e]) = filter (\<lambda>e. stamp e < n) (case r of None \<Rightarrow> [] | Some e \<Rightarrow> [e])"
  by (cases r) simp_all

lemma traverse_filter:
  assumes "traverse f xs = Inr ys"
    and "\<And>x y. x \<in> set xs \<Longrightarrow> P x \<Longrightarrow> f x = Inr y \<Longrightarrow> g x = Inr (filter Q y)"
    and "\<And>x y. x \<in> set xs \<Longrightarrow> \<not> P x \<Longrightarrow> f x = Inr y \<Longrightarrow> filter Q y = []"
  shows "\<exists>zs. traverse g (filter P xs) = Inr zs \<and> concat zs = filter Q (concat ys)"
  using assms
proof (induction xs arbitrary: ys)
  case (Cons x xs)
  obtain y r where y: "f x = Inr y" "traverse f xs = Inr r" "ys = y # r"
    using Cons.prems(1) by (auto simp: res_simps)
  obtain zs where zs: "traverse g (filter P xs) = Inr zs" "concat zs = filter Q (concat r)"
    using Cons.IH[OF y(2)] Cons.prems(2,3) by force
  show ?case
  proof (cases "P x")
    case True
    then show ?thesis
      using zs y Cons.prems(2)[OF _ True y(1)] by simp
  next
    case False
    then show ?thesis
      using zs y Cons.prems(3)[OF _ False y(1)] by simp
  qed
qed simp

lemma breakout_event_take:
  "i < n \<Longrightarrow> breakout_event ty z (series_take n s) i b v r = breakout_event ty z s i b v r"
  by (simp add: breakout_event_def take_map[symmetric])

lemma breakout_event_index [simp]:
  "breakout_confirmed_index (breakout_event ty z s i b v r) = i"
  "breakout_type (breakout_event ty z s i b v r) = ty"
  "breach_index (breakout_event ty z s i b v r) = b"
  "breakout_index (breakout_event ty z s i b v r) = i"
  by (simp_all add: breakout_event_def)

lemma resolve_breach_late:
  "resolve_breach cfg s z b v ks = Inr (Some e) \<Longrightarrow> \<forall>k\<in>set ks. m \<le> b + k \<Longrightarrow> m \<le> b + failure_window cfg
     \<Longrightarrow> m \<le> breakout_confirmed_index e"
  by (induction cfg s z b v ks rule: resolve_breach.induct) (auto simp: Let_def res_simps split: if_splits)

lemma resolve_breach_take:
  assumes "resolve_breach cfg s z b v ks = Inr r" and "ks = [a..<Suc (failure_window cfg)]"
    and "a \<le> Suc (failure_window cfg)" and "1 \<le> a" and "b + (a - 1) < n" and "n \<le> series_len s"
  shows "resolve_breach cfg (series_take n s) z b v ks = Inr (before breakout_confirmed_index n r)"
  using assms
proof (induction cfg s z b v ks arbitrary: a rule: resolve_breach.induct)
  case (1 cfg s z b v)
  then have "a = Suc (failure_window cfg)"
    by (cases "a \<le> failure_window cfg") auto
  then show ?case
    using 1 breakout_event_take[of "b + failure_window cfg" n] by auto
next
  case (2 cfg s z b v k ks)
  have k: "k = a" "ks = [Suc a..<Suc (failure_window cfg)]" "a \<le> failure_window cfg"
    using 2(3)[symmetric] unfolding upt_eq_Cons_conv by auto
  show ?case
  proof (cases "n \<le> b + k")
    case True
    have "before breakout_confirmed_index n r = None"
    proof (cases r)
      case (Some e)
      have "n \<le> breakout_confirmed_index e"
        by (rule resolve_breach_late[OF 2(2)[unfolded Some]]) (use True k in auto)
      then show ?thesis
        using Some by simp
    qed simp
    then show ?thesis
      using True 2(7) by simp
  next
    case False
    then obtain returned where ret: "returned_to_zone z (closes s ! (b + k)) = Inr returned"
      using 2(2,7) by (auto simp: Let_def res_simps)
    show ?thesis
    proof (cases returned)
      case True
      then show ?thesis
        using ret False 2(2,7) by (auto simp: Let_def take_map[symmetric] breakout_event_take)
    next
      case no: False
      have "resolve_breach cfg s z b v ks = Inr r"
        using ret no False 2(2,7) by (simp add: Let_def)
      then have "resolve_breach cfg (series_take n s) z b v ks = Inr (before breakout_confirmed_index n r)"
        using 2(1)[of "b + k" returned "Suc a"] no False k 2(7) by simp
      then show ?thesis
        using ret no False 2(7) by (simp add: Let_def take_map[symmetric])
    qed
  qed
qed

lemma breach_events_late:
  assumes "breach_events cfg s z rv i = Inr es" and "e \<in> set es"
  shows "i \<le> breakout_confirmed_index e"
proof -
  let ?v = "volume_confirmation_of rv i cfg"
  obtain r where r: "resolve_breach cfg s z i ?v [1..<Suc (failure_window cfg)] = Inr r"
    and es: "es = breakout_event BREACH z s i i ?v (breach_reason (closes s ! i) z) # (case r of None \<Rightarrow> [] | Some e \<Rightarrow> [e])"
    using assms(1) by (auto simp: breach_events_def Let_def rmap_Inr_iff)
  then consider "e = breakout_event BREACH z s i i ?v (breach_reason (closes s ! i) z)" | "r = Some e"
    using assms(2) by (cases r) auto
  then show ?thesis
    using resolve_breach_late[of cfg s z i ?v _ e i] r by cases auto
qed

lemma breach_events_take:
  assumes "breach_events cfg s z rv i = Inr es" and "i < n" and "n \<le> series_len s"
  shows "breach_events cfg (series_take n s) z (take n rv) i = Inr (filter (\<lambda>e. breakout_confirmed_index e < n) es)"
proof -
  have v: "volume_confirmation_of (take n rv) i cfg = volume_confirmation_of rv i cfg"
    using assms(2) by (simp add: volume_confirmation_of_def)
  let ?v = "volume_confirmation_of rv i cfg"
  obtain r where r: "resolve_breach cfg s z i ?v [1..<Suc (failure_window cfg)] = Inr r"
    and es: "es = breakout_event BREACH z s i i ?v (breach_reason (closes s ! i) z) # (case r of None \<Rightarrow> [] | Some e \<Rightarrow> [e])"
    using assms(1) by (auto simp: breach_events_def Let_def rmap_Inr_iff)
  have "resolve_breach cfg (series_take n s) z i ?v [1..<Suc (failure_window cfg)]
      = Inr (before breakout_confirmed_index n r)"
    by (rule resolve_breach_take[OF r refl]) (use assms in auto)
  then show ?thesis
    unfolding breach_events_def Let_def v es
    using assms(2) by (simp add: before_list breakout_event_take take_map[symmetric] del: upt_Suc)
qed

lemma challenge_events_index: "e \<in> set (challenge_events s z i f) \<Longrightarrow> breakout_confirmed_index e = i"
  by (auto simp: challenge_events_def split: if_splits)

lemma zone_lifecycle_late:
  "zone_lifecycle cfg s z rv ch is = Inr es \<Longrightarrow> e \<in> set es \<Longrightarrow> \<forall>i\<in>set is. m \<le> i \<Longrightarrow> m \<le> breakout_confirmed_index e"
proof (induction cfg s z rv ch "is" arbitrary: es rule: zone_lifecycle.induct)
  case (2 cfg s z rv ch i "is")
  obtain beyond where b: "beyond_zone z (closes s ! i) = Inr beyond"
    using 2(2) by (auto simp: res_simps)
  show ?case
  proof (cases beyond)
    case True
    then show ?thesis
      using b 2 breach_events_late[of cfg s z rv i es e] by fastforce
  next
    case False
    then obtain t rest where t: "touches_zone z s i = Inr t"
      "zone_lifecycle cfg s z rv (ch \<or> t) is = Inr rest" "es = challenge_events s z i (t \<and> \<not> ch) @ rest"
      using b 2(2) by (auto simp: res_simps)
    then consider (here) "e \<in> set (challenge_events s z i (t \<and> \<not> ch))" | (on) "e \<in> set rest"
      using 2(3) by auto
    then show ?thesis
    proof cases
      case on
      then show ?thesis
        using "2.IH"[OF False t(2)] "2.prems"(3) by simp
    qed (use "2.prems"(3) challenge_events_index in auto)
  qed
qed simp

lemma zone_lifecycle_take:
  assumes "zone_lifecycle cfg s z rv ch [a..<series_len s] = Inr es" and n: "n \<le> series_len s"
  shows "zone_lifecycle cfg (series_take n s) z (take n rv) ch [a..<n] = Inr (filter (\<lambda>e. breakout_confirmed_index e < n) es)"
  using assms(1)
proof (induction "n - a" arbitrary: a ch es)
  case 0
  then have "\<forall>e\<in>set es. n \<le> breakout_confirmed_index e"
    using zone_lifecycle_late[OF 0(2), of _ n] by auto
  then have "filter (\<lambda>e. breakout_confirmed_index e < n) es = []"
    by (auto simp: filter_empty_conv)
  then show ?case
    using 0(1) by simp
next
  case (Suc k)
  have a: "a < n" "[a..<series_len s] = a # [Suc a..<series_len s]" "[a..<n] = a # [Suc a..<n]"
    using Suc(2) n by (auto intro: upt_conv_Cons)
  have close: "closes (series_take n s) ! a = closes s ! a"
    using a(1) by (simp add: take_map[symmetric])
  obtain beyond where b: "beyond_zone z (closes s ! a) = Inr beyond"
    using Suc(3) unfolding a(2) by (auto simp: res_simps)
  show ?case
  proof (cases beyond)
    case True
    then show ?thesis
      using b Suc(3) breach_events_take[OF _ a(1) n] unfolding a(2,3) zone_lifecycle.simps close by simp
  next
    case False
    then obtain t rest where t: "touches_zone z s a = Inr t"
      "zone_lifecycle cfg s z rv (ch \<or> t) [Suc a..<series_len s] = Inr rest"
      "es = challenge_events s z a (t \<and> \<not> ch) @ rest"
      using b Suc(3) unfolding a(2) by (auto simp: res_simps)
    have rest: "zone_lifecycle cfg (series_take n s) z (take n rv) (ch \<or> t) [Suc a..<n]
        = Inr (filter (\<lambda>e. breakout_confirmed_index e < n) rest)"
      by (rule Suc(1)[OF _ t(2)]) (use Suc(2) in simp)
    have touch: "touches_zone z (series_take n s) a = Inr t"
      using t(1) a(1) by (cases "zone_kind z") (simp_all add: touches_zone_def take_map[symmetric])
    have ch: "challenge_events (series_take n s) z a f = challenge_events s z a f"
      "filter (\<lambda>e. breakout_confirmed_index e < n) (challenge_events s z a f) = challenge_events s z a f" for f
      using a(1) by (simp_all add: challenge_events_def breakout_event_take)
    show ?thesis
      unfolding a(3) zone_lifecycle.simps close b touch t(3)
      using False rest ch by simp
  qed
qed

lemma detect_breakouts_take:
  assumes found: "detect_breakouts cfg s zs rv = Inr es" and n: "n \<le> series_len s"
  shows "detect_breakouts cfg (series_take n s) (filter (\<lambda>z. zone_confirmed_index z < n) zs) (take n rv)
       = Inr (filter (\<lambda>e. breakout_confirmed_index e < n) es)"
proof -
  obtain ys where ys: "traverse (zone_events cfg s rv) zs = Inr ys" "es = sort_key breakout_order (concat ys)"
    using found by (auto simp: detect_breakouts_def rmap_Inr_iff)
  have "\<exists>r. traverse (zone_events cfg (series_take n s) (take n rv)) (filter (\<lambda>z. zone_confirmed_index z < n) zs) = Inr r
      \<and> concat r = filter (\<lambda>e. breakout_confirmed_index e < n) (concat ys)"
  proof (rule traverse_filter[OF ys(1)])
    fix z y
    assume y: "zone_events cfg s rv z = Inr y"
    show "zone_events cfg (series_take n s) (take n rv) z = Inr (filter (\<lambda>e. breakout_confirmed_index e < n) y)"
      using zone_lifecycle_take[OF y[unfolded zone_events_def] n] n by (simp add: zone_events_def min_absorb1)
    show "filter (\<lambda>e. breakout_confirmed_index e < n) y = []" if late: "\<not> zone_confirmed_index z < n"
      using zone_lifecycle_late[OF y[unfolded zone_events_def], of _ n] late
      by (force simp: filter_empty_conv)
  qed
  then show ?thesis
    by (auto simp: detect_breakouts_def ys(2) filter_sort)
qed

lemma filter_upt_min: "n \<le> b \<Longrightarrow> filter (\<lambda>i. i < n) [a..<min b c] = [a..<min n c]"
  by (rule sorted_distinct_set_unique) (auto intro: sorted_wrt_filter)

lemma retest_event_take: "i < n \<Longrightarrow> retest_event ty b (series_take n s) i = retest_event ty b s i"
  by (simp add: retest_event_def take_map[symmetric])

lemma retest_event_index [simp]: "retest_confirmed_index (retest_event ty b s i) = i"
  by (simp add: retest_event_def)

lemma resolve_retest_late:
  "resolve_retest s b t ks = Inr (Some e) \<Longrightarrow> \<forall>k\<in>set ks. m \<le> t + k \<Longrightarrow> m \<le> retest_confirmed_index e"
  by (induction s b t ks rule: resolve_retest.induct) (auto simp: res_simps split: if_splits)

lemma resolve_retest_take:
  assumes "resolve_retest s b t ks = Inr r" and "sorted ks" and n: "n \<le> series_len s"
  shows "resolve_retest (series_take n s) b t ks = Inr (before retest_confirmed_index n r)"
  using assms
proof (induction s b t ks rule: resolve_retest.induct)
  case (2 s b t k ks)
  show ?case
  proof (cases "n \<le> t + k")
    case True
    have "before retest_confirmed_index n r = None"
    proof (cases r)
      case (Some e)
      have "n \<le> retest_confirmed_index e"
        by (rule resolve_retest_late[OF 2(2)[unfolded Some]]) (use True 2(3) in force)
      then show ?thesis
        using Some by simp
    qed simp
    then show ?thesis
      using True 2(4) by simp
  next
    case False
    then obtain held failed where
      held: "beyond_zone (breakout_zone b) (closes s ! (t + k)) = Inr held"
      and failed: "through_zone (breakout_zone b) (closes s ! (t + k)) = Inr failed"
      using 2(2,4) by (auto simp: res_simps)
    have "closes (series_take n s) ! (t + k) = closes s ! (t + k)"
      using False by (simp add: take_map[symmetric])
    then show ?thesis
      using held failed False 2 by (auto simp: retest_event_take)
  qed
qed simp

lemma touch_events_late:
  assumes "touch_events cfg s b i = Inr es" and "e \<in> set es"
  shows "i \<le> retest_confirmed_index e"
proof -
  obtain r where r: "resolve_retest s b i [1..<Suc (retest_resolution_window cfg)] = Inr r"
    and es: "es = retest_event RETEST_TOUCHED b s i # (case r of None \<Rightarrow> [] | Some e \<Rightarrow> [e])"
    using assms(1) by (auto simp: touch_events_def rmap_Inr_iff)
  then consider "e = retest_event RETEST_TOUCHED b s i" | "r = Some e"
    using assms(2) by (cases r) auto
  then show ?thesis
    using resolve_retest_late[of s b i _ e i] r by cases auto
qed

lemma touch_events_take:
  assumes "touch_events cfg s b i = Inr es" and "i < n" and n: "n \<le> series_len s"
  shows "touch_events cfg (series_take n s) b i = Inr (filter (\<lambda>e. retest_confirmed_index e < n) es)"
proof -
  obtain r where r: "resolve_retest s b i [1..<Suc (retest_resolution_window cfg)] = Inr r"
    and es: "es = retest_event RETEST_TOUCHED b s i # (case r of None \<Rightarrow> [] | Some e \<Rightarrow> [e])"
    using assms(1) by (auto simp: touch_events_def rmap_Inr_iff)
  have "resolve_retest (series_take n s) b i [1..<Suc (retest_resolution_window cfg)]
      = Inr (before retest_confirmed_index n r)"
    by (rule resolve_retest_take[OF r sorted_upt n])
  then show ?thesis
    unfolding touch_events_def es using assms(2) by (simp add: before_list retest_event_take del: upt_Suc)
qed

lemma scan_retest_late:
  "scan_retest cfg s b is = Inr es \<Longrightarrow> e \<in> set es \<Longrightarrow> \<forall>i\<in>set is. m \<le> i \<Longrightarrow> m \<le> retest_confirmed_index e"
proof (induction cfg s b "is" arbitrary: es rule: scan_retest.induct)
  case (2 cfg s b i "is")
  obtain t where t: "entered_again (breakout_zone b) s i = Inr t"
    using 2(2) by (auto simp: res_simps)
  show ?case
  proof (cases t)
    case True
    then show ?thesis
      using t 2 touch_events_late[of cfg s b i es e] by fastforce
  next
    case False
    then show ?thesis
      using t 2 by simp
  qed
qed simp

lemma scan_retest_take:
  assumes "scan_retest cfg s b is = Inr es" and "sorted is" and n: "n \<le> series_len s"
  shows "scan_retest cfg (series_take n s) b (filter (\<lambda>i. i < n) is) = Inr (filter (\<lambda>e. retest_confirmed_index e < n) es)"
  using assms
proof (induction cfg s b "is" arbitrary: es rule: scan_retest.induct)
  case (2 cfg s b i "is")
  obtain t where t: "entered_again (breakout_zone b) s i = Inr t"
    using 2(2) by (auto simp: res_simps)
  show ?case
  proof (cases "i < n")
    case False
    then have "\<forall>j\<in>set (i # is). n \<le> j"
      using 2(3) by auto
    then have "filter (\<lambda>e. retest_confirmed_index e < n) es = []" "filter (\<lambda>i. i < n) (i # is) = []"
      using scan_retest_late[OF 2(2), of _ n] by (force simp: filter_empty_conv)+
    then show ?thesis
      by simp
  next
    case True
    have t': "entered_again (breakout_zone b) (series_take n s) i = Inr t"
      using t True by (cases "zone_kind (breakout_zone b)") (simp_all add: entered_again_def take_map[symmetric])
    show ?thesis
    proof (cases t)
      case yes: True
      then show ?thesis
        using True t t' 2(2) touch_events_take[OF _ True 2(4)] by simp
    next
      case no: False
      then show ?thesis
        using True t t' 2 by simp
    qed
  qed
qed simp

lemma detect_retests_take:
  assumes found: "detect_retests cfg s bs = Inr es" and n: "n \<le> series_len s"
  shows "detect_retests cfg (series_take n s) (filter (\<lambda>b. breakout_confirmed_index b < n) bs)
       = Inr (filter (\<lambda>e. retest_confirmed_index e < n) es)"
proof -
  obtain ys where ys: "traverse (retests_of cfg s) bs = Inr ys" "es = sort_key retest_order (concat ys)"
    using found by (auto simp: detect_retests_def rmap_Inr_iff)
  have "\<exists>r. traverse (retests_of cfg (series_take n s)) (filter (\<lambda>b. breakout_confirmed_index b < n) bs) = Inr r
      \<and> concat r = filter (\<lambda>e. retest_confirmed_index e < n) (concat ys)"
  proof (rule traverse_filter[OF ys(1)])
    fix b y
    assume y: "retests_of cfg s b = Inr y"
    let ?a = "Suc (breakout_confirmed_index b)"
    have cut: "filter (\<lambda>i. i < n) [?a..<min (series_len s) (?a + retest_window cfg)]
        = [?a..<min n (?a + retest_window cfg)]"
      using n by (intro filter_upt_min) simp
    show "retests_of cfg (series_take n s) b = Inr (filter (\<lambda>e. retest_confirmed_index e < n) y)"
    proof (cases "breakout_type b = BREAK_CONFIRMED")
      case True
      then have "scan_retest cfg s b [?a..<min (series_len s) (?a + retest_window cfg)] = Inr y"
        using y by (simp add: retests_of_def Let_def)
      from scan_retest_take[OF this sorted_upt n, unfolded cut] show ?thesis
        using True n by (simp add: retests_of_def Let_def min_absorb1)
    qed (use y in \<open>simp add: retests_of_def\<close>)
    show "filter (\<lambda>e. retest_confirmed_index e < n) y = []" if late: "\<not> breakout_confirmed_index b < n"
      using y scan_retest_late[of cfg s b _ y _ n] late
      by (force simp: retests_of_def Let_def filter_empty_conv split: if_splits)
  qed
  then show ?thesis
    by (auto simp: detect_retests_def ys(2) filter_sort)
qed
end
