(* ===== verification/Technical.thy ===== *)
theory Technical
  imports Market Float_Builtins
begin

text \<open>
\<open>app/domain/technical\<close>: the smoothing primitives, RSI, MACD, true range, ATR, Bollinger bands, historical
volatility, ADX, the volume measures, VWAP and the snapshot of them all, in Python's float arithmetic.
An indicator is one optional value per candle. \<open>math.fsum\<close> is the exact sum rounded once (an
intermediate overflow inside it is not modelled); \<open>pow\<close>, \<open>sqrt\<close> and \<open>log\<close> are the C library's, an
argument (\<open>libm\<close>).
\<close>

text \<open>Functions of the C library that are not correctly rounded everywhere.\<close>

record libm =
  c_pow :: "flt \<Rightarrow> flt \<Rightarrow> flt"
  c_sqrt :: "flt \<Rightarrow> flt"
  c_log :: "flt \<Rightarrow> flt"

section \<open>Shared conventions (types.py)\<close>

definition require_period :: "nat \<Rightarrow> unit res" where
  "require_period p = check (1 \<le> p) IndicatorInputError"

definition require_finite :: "flt list \<Rightarrow> unit res" where
  "require_finite xs = check (list_all flt_is_finite xs) IndicatorInputError"

fun compact :: "indicator \<Rightarrow> (nat \<times> flt list) res" where
  "compact [] = Inr (0, [])"
| "compact (None # vs) = rmap (\<lambda>(off, dense). (Suc off, dense)) (compact vs)"
| "compact (Some x # vs) =
     (if list_all (\<lambda>v. v \<noteq> None) vs then Inr (0, x # map the vs) else Inl IndicatorInputError)"

definition pad_values :: "nat \<Rightarrow> indicator \<Rightarrow> nat \<Rightarrow> indicator res" where
  "pad_values off vs n = (if off + length vs \<noteq> n then Inl IndicatorInputError else Inr (replicate off None @ vs))"

text \<open>\<open>math.fsum\<close>: the exact sum, rounded once; a sum out of range raises.\<close>

definition fsum :: "flt list \<Rightarrow> flt res" where
  "fsum xs =
     (if list_all flt_is_finite xs
      then case fround (sum_list (map fval xs)) of FNum v \<Rightarrow> Inr (FNum v) | _ \<Rightarrow> Inl OverflowError
      else if FNan \<in> set xs then Inr FNan
      else if FInf True \<in> set xs \<and> FInf False \<in> set xs then Inl ValueError
      else Inr (FInf (FInf True \<in> set xs)))"

definition mean_of :: "flt list \<Rightarrow> nat \<Rightarrow> flt res" where
  "mean_of xs p = rbind (fsum xs) (\<lambda>s. py_fdiv s (flt_of_int (int p)))"

text \<open>\<open>x ** 2\<close>: an overflow of finite operands raises.\<close>

definition py_square :: "libm \<Rightarrow> flt \<Rightarrow> flt res" where
  "py_square m x =
     (let r = c_pow m x (flit 2) in if flt_is_finite x \<and> flt_is_inf r then Inl OverflowError else Inr r)"

definition py_log :: "libm \<Rightarrow> flt \<Rightarrow> flt res" where
  "py_log m x = (if flt_le x (FNum 0) then Inl ValueError else Inr (c_log m x))"

section \<open>Smoothing (smoothing.py)\<close>

definition window_at :: "nat \<Rightarrow> nat \<Rightarrow> flt list \<Rightarrow> flt list" where
  "window_at p i xs = drop (Suc i - p) (take (Suc i) xs)"

text \<open>A value per index, from the trailing window once it is full.\<close>

definition rolling :: "(flt list \<Rightarrow> flt res) \<Rightarrow> nat \<Rightarrow> flt list \<Rightarrow> indicator res" where
  "rolling f p xs =
     traverse (\<lambda>i. if Suc i < p then Inr None else rmap Some (f (window_at p i xs))) [0..<length xs]"

definition sma :: "flt list \<Rightarrow> nat \<Rightarrow> indicator res" where
  "sma xs p =
     rbind (require_period p) (\<lambda>_. rbind (require_finite xs) (\<lambda>_. rolling (\<lambda>w. mean_of w p) p xs))"

fun smooth_from :: "flt \<Rightarrow> flt \<Rightarrow> flt list \<Rightarrow> flt list" where
  "smooth_from alpha cur [] = []"
| "smooth_from alpha cur (x # xs) =
     (let c = fadd cur (fmul alpha (fsub x cur)) in c # smooth_from alpha c xs)"

definition recursive_average :: "flt list \<Rightarrow> nat \<Rightarrow> flt \<Rightarrow> indicator res" where
  "recursive_average xs p alpha =
     (if length xs < p then Inr (replicate (length xs) None)
      else rmap (\<lambda>seed. replicate (p - 1) None @ map Some (seed # smooth_from alpha seed (drop p xs)))
             (mean_of (take p xs) p))"

definition smoothed_by :: "flt \<Rightarrow> nat \<Rightarrow> flt list \<Rightarrow> nat \<Rightarrow> indicator res" where
  "smoothed_by a b xs p =
     rbind (require_period p) (\<lambda>_. rbind (require_finite xs) (\<lambda>_.
     rbind (py_fdiv a (flt_of_int (int b))) (\<lambda>alpha. recursive_average xs p alpha)))"

definition ema :: "flt list \<Rightarrow> nat \<Rightarrow> indicator res" where
  "ema xs p = smoothed_by (flit 2) (p + 1) xs p"

definition wilder :: "flt list \<Rightarrow> nat \<Rightarrow> indicator res" where
  "wilder xs p = smoothed_by (flit 1) p xs p"

definition deviation_of :: "libm \<Rightarrow> nat \<Rightarrow> flt list \<Rightarrow> flt res" where
  "deviation_of m p w =
     rbind (mean_of w p) (\<lambda>mean.
     rbind (traverse (\<lambda>x. py_square m (fsub x mean)) w) (\<lambda>squares.
     rbind (mean_of squares p) (\<lambda>variance. Inr (c_sqrt m variance))))"

definition rolling_population_stdev :: "libm \<Rightarrow> flt list \<Rightarrow> nat \<Rightarrow> indicator res" where
  "rolling_population_stdev m xs p =
     rbind (require_period p) (\<lambda>_. rbind (require_finite xs) (\<lambda>_. rolling (deviation_of m p) p xs))"

text \<open>Smoothing of an indicator that warms up: its defined values, put back in their places.\<close>

definition smooth_defined :: "(flt list \<Rightarrow> indicator res) \<Rightarrow> indicator \<Rightarrow> indicator res" where
  "smooth_defined f vs =
     rbind (compact vs) (\<lambda>(off, dense). rbind (f dense) (\<lambda>r. pad_values off r (length vs)))"

section \<open>Momentum (momentum.py)\<close>

definition steps :: "flt list \<Rightarrow> (flt \<times> flt) list" where
  "steps xs = zip xs (tl xs)"

definition rsi_value :: "flt option \<Rightarrow> flt option \<Rightarrow> flt option res" where
  "rsi_value gain loss =
     (case (gain, loss) of
        (Some g, Some l) \<Rightarrow>
          (if flt_eq l (FNum 0) \<and> flt_eq g (FNum 0) then Inr (Some (flit 50))
           else if flt_eq l (FNum 0) then Inr (Some (flit 100))
           else if flt_eq g (FNum 0) then Inr (Some (FNum 0))
           else rbind (py_fdiv g l) (\<lambda>rs.
                rbind (py_fdiv (flit 100) (fadd (flit 1) rs)) (\<lambda>q. Inr (Some (fsub (flit 100) q)))))
      | _ \<Rightarrow> Inr None)"

definition rsi :: "flt list \<Rightarrow> nat \<Rightarrow> indicator res" where
  "rsi xs p =
     rbind (require_period p) (\<lambda>_. rbind (require_finite xs) (\<lambda>_.
       if length xs < 2 then Inr (replicate (length xs) None)
       else
         rbind (wilder (map (\<lambda>(a, b). py_fmax (fsub b a) (FNum 0)) (steps xs)) p) (\<lambda>gains.
         rbind (wilder (map (\<lambda>(a, b). py_fmax (fneg (fsub b a)) (FNum 0)) (steps xs)) p) (\<lambda>losses.
         rbind (traverse (\<lambda>(g, l). rsi_value g l) (zip gains losses)) (\<lambda>values.
           pad_values 1 values (length xs))))))"

record MacdResult =
  macd_line :: indicator
  macd_signal :: indicator
  macd_histogram :: indicator

definition minus_defined :: "flt option \<Rightarrow> flt option \<Rightarrow> flt option" where
  "minus_defined a b = (case (a, b) of (Some x, Some y) \<Rightarrow> Some (fsub x y) | _ \<Rightarrow> None)"

definition macd :: "flt list \<Rightarrow> nat \<Rightarrow> nat \<Rightarrow> nat \<Rightarrow> MacdResult res" where
  "macd xs fast slow sig =
     rbind (require_period fast) (\<lambda>_. rbind (require_period slow) (\<lambda>_. rbind (require_period sig) (\<lambda>_.
     if slow \<le> fast then Inl ValueError
     else
       rbind (require_finite xs) (\<lambda>_.
       rbind (ema xs fast) (\<lambda>f.
       rbind (ema xs slow) (\<lambda>s.
         let line = map2 minus_defined f s in
         rbind (smooth_defined (\<lambda>dense. if dense = [] then Inr [] else ema dense sig) line) (\<lambda>signal.
           Inr \<lparr> macd_line = line, macd_signal = signal, macd_histogram = map2 minus_defined line signal \<rparr>)))))))"

section \<open>Volatility (volatility.py)\<close>

definition same_length :: "'a list list \<Rightarrow> unit res" where
  "same_length xss =
     check (case xss of [] \<Rightarrow> True | xs # r \<Rightarrow> list_all (\<lambda>ys. length ys = length xs) r) IndicatorInputError"

definition range_step :: "flt \<times> flt \<times> flt \<Rightarrow> flt" where
  "range_step v = (case v of (h, l, c) \<Rightarrow>
     py_fmax (py_fmax (fsub h l) (flt_abs (fsub h c))) (flt_abs (fsub l c)))"

definition true_range :: "flt list \<Rightarrow> flt list \<Rightarrow> flt list \<Rightarrow> indicator res" where
  "true_range hs ls cs =
     rbind (same_length [hs, ls, cs]) (\<lambda>_.
     rbind (require_finite hs) (\<lambda>_. rbind (require_finite ls) (\<lambda>_. rbind (require_finite cs) (\<lambda>_.
       Inr (if hs = [] then []
            else None # map (\<lambda>v. Some (range_step v)) (zip (tl hs) (zip (tl ls) cs)))))))"

definition atr :: "flt list \<Rightarrow> flt list \<Rightarrow> flt list \<Rightarrow> nat \<Rightarrow> indicator res" where
  "atr hs ls cs p =
     rbind (require_period p) (\<lambda>_. rbind (same_length [hs, ls, cs]) (\<lambda>_.
     rbind (true_range hs ls cs) (\<lambda>ranges.
       if length hs < 2 then Inr (replicate (length hs) None)
       else smooth_defined (\<lambda>dense. wilder dense p) ranges)))"

record BollingerBands =
  band_upper :: indicator
  band_middle :: indicator
  band_lower :: indicator

definition band :: "(flt \<Rightarrow> flt \<Rightarrow> flt) \<Rightarrow> flt \<Rightarrow> flt option \<Rightarrow> flt option \<Rightarrow> flt option" where
  "band f k centre sigma =
     (case (centre, sigma) of (Some x, Some y) \<Rightarrow> Some (f x (fmul k y)) | _ \<Rightarrow> None)"

definition bollinger_bands :: "libm \<Rightarrow> flt list \<Rightarrow> nat \<Rightarrow> flt \<Rightarrow> BollingerBands res" where
  "bollinger_bands m xs p k =
     rbind (require_period p) (\<lambda>_. rbind (require_finite xs) (\<lambda>_.
     if flt_le k (FNum 0) then Inl ValueError
     else
       rbind (sma xs p) (\<lambda>middle.
       rbind (rolling_population_stdev m xs p) (\<lambda>deviation.
         Inr \<lparr> band_upper = map2 (band fadd k) middle deviation, band_middle = middle,
               band_lower = map2 (band fsub k) middle deviation \<rparr>))))"

definition log_returns :: "libm \<Rightarrow> flt list \<Rightarrow> indicator res" where
  "log_returns m xs =
     rbind (require_finite xs) (\<lambda>_.
     if list_ex (\<lambda>x. flt_le x (FNum 0)) xs then Inl IndicatorInputError
     else if xs = [] then Inr []
     else rmap ((#) None)
       (traverse (\<lambda>(a, b). rbind (py_fdiv b a) (\<lambda>q. rmap Some (py_log m q))) (steps xs)))"

definition historical_volatility :: "libm \<Rightarrow> flt list \<Rightarrow> nat \<Rightarrow> indicator res" where
  "historical_volatility m xs p =
     rbind (require_period p) (\<lambda>_. rbind (require_finite xs) (\<lambda>_.
     if length xs < 2 then Inr (replicate (length xs) None)
     else rbind (log_returns m xs) (smooth_defined (\<lambda>dense. rolling_population_stdev m dense p))))"

section \<open>Trend strength (trend\_strength.py)\<close>

record DirectionalMovement =
  plus_di :: indicator
  minus_di :: indicator
  dx_line :: indicator
  adx_line :: indicator

definition dominant_move :: "flt \<Rightarrow> flt \<Rightarrow> flt" where
  "dominant_move a b = (if flt_less b a \<and> flt_less (FNum 0) a then a else FNum 0)"

definition up_move :: "(flt \<times> flt) \<times> (flt \<times> flt) \<Rightarrow> flt" where
  "up_move v = (case v of ((h0, h1), (l0, l1)) \<Rightarrow> dominant_move (fsub h1 h0) (fsub l0 l1))"

definition down_move :: "(flt \<times> flt) \<times> (flt \<times> flt) \<Rightarrow> flt" where
  "down_move v = (case v of ((h0, h1), (l0, l1)) \<Rightarrow> dominant_move (fsub l0 l1) (fsub h1 h0))"

text \<open>The two directional indices and their imbalance at one candle.\<close>

definition di_values :: "flt option \<times> flt option \<times> flt option \<Rightarrow> (flt option \<times> flt option \<times> flt option) res" where
  "di_values v =
     (case v of
        (Some p, Some n, Some r) \<Rightarrow>
          rbind (if flt_eq r (FNum 0) then Inr (FNum 0) else py_fdiv (fmul (flit 100) p) r) (\<lambda>plus.
          rbind (if flt_eq r (FNum 0) then Inr (FNum 0) else py_fdiv (fmul (flit 100) n) r) (\<lambda>minus.
          let both = fadd plus minus in
          rbind (if flt_eq both (FNum 0) then Inr (FNum 0)
                 else py_fdiv (fmul (flit 100) (flt_abs (fsub plus minus))) both) (\<lambda>dx.
            Inr (Some plus, Some minus, Some dx))))
      | _ \<Rightarrow> Inr (None, None, None))"

definition adx :: "flt list \<Rightarrow> flt list \<Rightarrow> flt list \<Rightarrow> nat \<Rightarrow> DirectionalMovement res" where
  "adx hs ls cs p =
     rbind (require_period p) (\<lambda>_. rbind (same_length [hs, ls, cs]) (\<lambda>_.
     rbind (require_finite hs) (\<lambda>_. rbind (require_finite ls) (\<lambda>_. rbind (require_finite cs) (\<lambda>_.
     let n = length hs; none = replicate n None; moves = zip (steps hs) (steps ls) in
     if n < 2 then Inr \<lparr> plus_di = none, minus_di = none, dx_line = none, adx_line = none \<rparr>
     else
       rbind (true_range hs ls cs) (\<lambda>ranges.
       rbind (compact ranges) (\<lambda>(_, dense).
       rbind (wilder (map up_move moves) p) (\<lambda>plus.
       rbind (wilder (map down_move moves) p) (\<lambda>minus.
       rbind (wilder dense p) (\<lambda>range.
       rbind (traverse di_values (zip plus (zip minus range))) (\<lambda>values.
       rbind (pad_values 1 (map fst values) n) (\<lambda>pdi.
       rbind (pad_values 1 (map (fst \<circ> snd) values) n) (\<lambda>mdi.
       rbind (pad_values 1 (map (snd \<circ> snd) values) n) (\<lambda>dx.
       rbind (if list_ex (\<lambda>v. v \<noteq> None) dx then smooth_defined (\<lambda>d. wilder d p) dx else Inr none) (\<lambda>a.
         Inr \<lparr> plus_di = pdi, minus_di = mdi, dx_line = dx, adx_line = a \<rparr>)))))))))))))))"

section \<open>Volume (volume.py)\<close>

definition require_non_negative :: "flt list \<Rightarrow> unit res" where
  "require_non_negative vs =
     rbind (require_finite vs) (\<lambda>_. check (\<not> list_ex (\<lambda>v. flt_less v (FNum 0)) vs) IndicatorInputError)"

definition volume_moving_average :: "flt list \<Rightarrow> nat \<Rightarrow> indicator res" where
  "volume_moving_average vs p =
     rbind (require_period p) (\<lambda>_. rbind (require_non_negative vs) (\<lambda>_. sma vs p))"

definition relative_volume :: "flt list \<Rightarrow> nat \<Rightarrow> indicator res" where
  "relative_volume vs p =
     rbind (require_period p) (\<lambda>_. rbind (require_non_negative vs) (\<lambda>_.
     rbind (volume_moving_average vs p) (\<lambda>averages.
       traverse (\<lambda>(v, a).
         case a of None \<Rightarrow> Inr None
         | Some x \<Rightarrow> if flt_eq x (FNum 0) then Inr None else rmap Some (py_fdiv v x)) (zip vs averages))))"

definition acceleration_step :: "flt option \<times> flt option \<Rightarrow> flt option res" where
  "acceleration_step v =
     (case v of
        (Some previous, Some current) \<Rightarrow>
          (if flt_eq previous (FNum 0) then Inr None
           else rmap (\<lambda>q. Some (fsub q (flit 1))) (py_fdiv current previous))
      | _ \<Rightarrow> Inr None)"

definition volume_acceleration :: "flt list \<Rightarrow> nat \<Rightarrow> indicator res" where
  "volume_acceleration vs p =
     rbind (require_period p) (\<lambda>_. rbind (require_non_negative vs) (\<lambda>_.
     rbind (volume_moving_average vs p) (\<lambda>averages.
       if averages = [] then Inr []
       else rmap ((#) None) (traverse acceleration_step (zip averages (tl averages))))))"

section \<open>VWAP (vwap.py)\<close>

text \<open>The UTC day of a moment, in days from 1970-01-01.\<close>

definition utc_day :: "moment \<Rightarrow> int" where
  "utc_day t = instant t div (24 * 60 * minute)"

fun anchors_from :: "nat \<Rightarrow> int option \<Rightarrow> moment list \<Rightarrow> nat list res" where
  "anchors_from i previous [] = Inr []"
| "anchors_from i previous (t # ts) =
     (if \<not> is_aware t then Inl IndicatorInputError
      else rmap (\<lambda>r. (if previous = Some (utc_day t) then [] else [i]) @ r)
             (anchors_from (Suc i) (Some (utc_day t)) ts))"

definition daily_anchors :: "moment list \<Rightarrow> nat list res" where
  "daily_anchors ts = anchors_from 0 None ts"

definition typical_prices :: "flt list \<Rightarrow> flt list \<Rightarrow> flt list \<Rightarrow> flt list res" where
  "typical_prices hs ls cs =
     rbind (same_length [hs, ls, cs]) (\<lambda>_.
     rbind (require_finite hs) (\<lambda>_. rbind (require_finite ls) (\<lambda>_. rbind (require_finite cs) (\<lambda>_.
       traverse (\<lambda>(h, l, c). py_fdiv (fadd (fadd h l) c) (flit 3)) (zip hs (zip ls cs))))))"

record Accumulator =
  acc_sum :: flt
  acc_compensation :: flt

definition empty_accumulator :: Accumulator where
  "empty_accumulator = \<lparr> acc_sum = FNum 0, acc_compensation = FNum 0 \<rparr>"

definition accumulate :: "Accumulator \<Rightarrow> flt \<Rightarrow> Accumulator" where
  "accumulate a v =
     (let t = fadd (acc_sum a) v;
          lost = (if flt_le (flt_abs v) (flt_abs (acc_sum a)) then fadd (fsub (acc_sum a) t) v
                  else fadd (fsub v t) (acc_sum a))
      in \<lparr> acc_sum = t, acc_compensation = fadd (acc_compensation a) lost \<rparr>)"

definition accumulated :: "Accumulator \<Rightarrow> flt" where
  "accumulated a = fadd (acc_sum a) (acc_compensation a)"

fun vwap_from :: "nat \<Rightarrow> nat list \<Rightarrow> Accumulator \<Rightarrow> Accumulator \<Rightarrow> (flt \<times> flt) list \<Rightarrow> indicator res" where
  "vwap_from i anchors vol weighted [] = Inr []"
| "vwap_from i anchors vol weighted ((price, volume) # r) =
     (let v = accumulate (if i \<in> set anchors then empty_accumulator else vol) volume;
          w = accumulate (if i \<in> set anchors then empty_accumulator else weighted) (fmul price volume)
      in rbind (if flt_eq (accumulated v) (FNum 0) then Inr None
                else rmap Some (py_fdiv (accumulated w) (accumulated v))) (\<lambda>x.
           rmap ((#) x) (vwap_from (Suc i) anchors v w r)))"

definition vwap :: "flt list \<Rightarrow> flt list \<Rightarrow> flt list \<Rightarrow> flt list \<Rightarrow> nat list \<Rightarrow> indicator res" where
  "vwap hs ls cs vs anchors =
     rbind (same_length [hs, ls, cs, vs]) (\<lambda>_. rbind (require_finite vs) (\<lambda>_.
     if list_ex (\<lambda>v. flt_less v (FNum 0)) vs then Inl IndicatorInputError
     else if hs = [] then Inr []
     else if anchors = [] \<or> hd anchors \<noteq> 0 \<or> \<not> sorted_wrt (<) anchors \<or> length hs \<le> last anchors
          then Inl IndicatorInputError
     else rbind (typical_prices hs ls cs) (\<lambda>prices.
            vwap_from 0 anchors empty_accumulator empty_accumulator (zip prices vs))))"

section \<open>The snapshot (engine.py)\<close>

datatype VwapAnchoring = ANCHOR_DAILY | ANCHOR_WHOLE_SERIES

record TechnicalConfig =
  ema_periods :: "nat list"
  sma_periods :: "nat list"
  rsi_period :: nat
  macd_fast :: nat
  macd_slow :: nat
  macd_signal_period :: nat
  atr_period :: nat
  adx_period :: nat
  bollinger_period :: nat
  bollinger_multiplier :: flt
  volume_period :: nat
  vwap_anchoring :: VwapAnchoring

definition default_technical_config :: TechnicalConfig where
  "default_technical_config =
     \<lparr> ema_periods = [9, 20, 50, 200], sma_periods = [20, 50, 200], rsi_period = 14, macd_fast = 12,
       macd_slow = 26, macd_signal_period = 9, atr_period = 14, adx_period = 14, bollinger_period = 20,
       bollinger_multiplier = flit 2, volume_period = 20, vwap_anchoring = ANCHOR_DAILY \<rparr>"

record TechnicalSnapshot =
  tech_symbol :: string
  tech_candle_count :: nat
  tech_ema :: "(nat \<times> indicator) list"
  tech_sma :: "(nat \<times> indicator) list"
  tech_rsi :: indicator
  tech_macd :: MacdResult
  tech_true_range :: indicator
  tech_atr :: indicator
  tech_bollinger :: BollingerBands
  tech_directional :: DirectionalMovement
  tech_vwap :: indicator
  tech_volume_ma :: indicator
  tech_relative_volume :: indicator
  tech_volume_acceleration :: indicator

definition float_column :: "(Candle \<Rightarrow> dec) \<Rightarrow> ValidatedCandleSeries \<Rightarrow> flt list" where
  "float_column f s = map (\<lambda>c. flt_of_dec (f c)) (series_candles s)"

definition per_period :: "(nat \<Rightarrow> indicator res) \<Rightarrow> nat list \<Rightarrow> (nat \<times> indicator) list res" where
  "per_period f ps = traverse (\<lambda>p. rmap (Pair p) (f p)) ps"

definition compute_technicals :: "libm \<Rightarrow> ValidatedCandleSeries \<Rightarrow> TechnicalConfig \<Rightarrow> TechnicalSnapshot res" where
  "compute_technicals m s cfg =
     (let hs = float_column bar_high s; ls = float_column bar_low s; cs = float_column bar_close s;
          vs = float_column bar_volume s
      in
      rbind (case vwap_anchoring cfg of ANCHOR_DAILY \<Rightarrow> daily_anchors (open_times s) | ANCHOR_WHOLE_SERIES \<Rightarrow> Inr [0]) (\<lambda>anchors.
      rbind (per_period (ema cs) (ema_periods cfg)) (\<lambda>es.
      rbind (per_period (sma cs) (sma_periods cfg)) (\<lambda>ss.
      rbind (rsi cs (rsi_period cfg)) (\<lambda>r.
      rbind (macd cs (macd_fast cfg) (macd_slow cfg) (macd_signal_period cfg)) (\<lambda>mc.
      rbind (true_range hs ls cs) (\<lambda>tr.
      rbind (atr hs ls cs (atr_period cfg)) (\<lambda>av.
      rbind (bollinger_bands m cs (bollinger_period cfg) (bollinger_multiplier cfg)) (\<lambda>bb.
      rbind (adx hs ls cs (adx_period cfg)) (\<lambda>dm.
      rbind (if series_len s = 0 then Inr [] else vwap hs ls cs vs anchors) (\<lambda>vw.
      rbind (volume_moving_average vs (volume_period cfg)) (\<lambda>vm.
      rbind (relative_volume vs (volume_period cfg)) (\<lambda>rv.
      rbind (volume_acceleration vs (volume_period cfg)) (\<lambda>va.
        Inr \<lparr> tech_symbol = series_symbol s, tech_candle_count = series_len s, tech_ema = es, tech_sma = ss,
              tech_rsi = r, tech_macd = mc, tech_true_range = tr, tech_atr = av, tech_bollinger = bb,
              tech_directional = dm, tech_vwap = vw, tech_volume_ma = vm, tech_relative_volume = rv,
              tech_volume_acceleration = va \<rparr>))))))))))))))"


end
