(* ===== verification/Technical_Causal.thy ===== *)
theory Technical_Causal
  imports Technical
begin

text \<open>
No indicator looks ahead: every indicator of a shorter series is the beginning of the indicator of the
longer one (\<open>causal_on\<close> for the indicators of one list, \<open>*_prefix\<close> for those of several), so the whole
snapshot is (\<open>technicals_take\<close>).
\<close>

section \<open>An indicator never looks ahead\<close>

text \<open>On a shorter series a causal computation returns the same values, as far as they go.\<close>

definition causal_on :: "('a list \<Rightarrow> indicator res) \<Rightarrow> 'a list \<Rightarrow> bool" where
  "causal_on f xs \<longleftrightarrow>
     (\<forall>r. f xs = Inr r \<longrightarrow> length r = length xs \<and> (\<forall>n\<le>length xs. f (take n xs) = Inr (take n r)))"

lemma causal_onI:
  assumes "\<And>r. f xs = Inr r \<Longrightarrow> length r = length xs"
    and "\<And>r n. f xs = Inr r \<Longrightarrow> n \<le> length xs \<Longrightarrow> f (take n xs) = Inr (take n r)"
  shows "causal_on f xs"
  using assms by (simp add: causal_on_def)

lemma causal_onD:
  assumes "causal_on f xs" and "f xs = Inr r"
  shows "length r = length xs" "n \<le> length xs \<Longrightarrow> f (take n xs) = Inr (take n r)"
  using assms by (simp_all add: causal_on_def)

lemma check_bind_iff: "rbind (check b e) (\<lambda>_. f) = Inr r \<longleftrightarrow> b \<and> f = Inr r"
  by (simp add: check_def)

lemma require_finite_take: "require_finite xs = Inr () \<Longrightarrow> require_finite (take n xs) = Inr ()"
  by (auto simp: require_finite_def res_simps list_all_iff dest: in_set_takeD)

lemma causal_finite:
  assumes "list_all flt_is_finite xs \<Longrightarrow> causal_on f xs"
  shows "causal_on (\<lambda>xs. rbind (require_finite xs) (\<lambda>_. f xs)) xs"
proof (cases "list_all flt_is_finite xs")
  case True
  have "list_all flt_is_finite (take n xs)" for n
    using True by (auto simp: list_all_iff dest: in_set_takeD)
  then show ?thesis
    using assms[OF True] True by (simp add: causal_on_def require_finite_def)
qed (simp add: causal_on_def require_finite_def check_def)

lemma traverse_length: "traverse f xs = Inr ys \<Longrightarrow> length ys = length xs"
  by (auto simp: traverse_Inr dest: list_all2_lengthD)

lemma traverse_take: "traverse f xs = Inr ys \<Longrightarrow> traverse f (take n xs) = Inr (take n ys)"
  by (simp add: traverse_Inr list_all2_takeI)

lemma window_at_take: "i < n \<Longrightarrow> window_at p i (take n xs) = window_at p i xs"
  by (simp add: window_at_def min_absorb1)

lemma causal_rolling: "causal_on (rolling f p) xs"
proof (rule causal_onI)
  fix r n
  assume r: "rolling f p xs = Inr r"
  show "length r = length xs"
    using traverse_length[OF r[unfolded rolling_def]] by simp
  assume n: "n \<le> length xs"
  have "rolling f p (take n xs) = traverse (\<lambda>i. if Suc i < p then Inr None else rmap Some (f (window_at p i xs))) [0..<n]"
    unfolding rolling_def length_take min_absorb2[OF n] by (rule traverse_cong) (simp add: window_at_take)
  also have "[0..<n] = take n [0..<length xs]"
    using n by simp
  finally show "rolling f p (take n xs) = Inr (take n r)"
    using traverse_take[OF r[unfolded rolling_def]] by simp
qed

lemma smooth_from_take: "smooth_from alpha cur (take n xs) = take n (smooth_from alpha cur xs)"
  by (induction alpha cur xs arbitrary: n rule: smooth_from.induct) (auto simp: Let_def take_Cons split: nat.splits)

lemma smooth_from_length [simp]: "length (smooth_from alpha cur xs) = length xs"
  by (induction alpha cur xs rule: smooth_from.induct) (simp_all add: Let_def)

lemma causal_recursive_average: "1 \<le> p \<Longrightarrow> causal_on (\<lambda>xs. recursive_average xs p alpha) xs"
proof (rule causal_onI)
  fix r n
  assume p: "1 \<le> p" and r: "recursive_average xs p alpha = Inr r"
  show "length r = length xs"
    using r p by (auto simp: recursive_average_def rmap_Inr_iff split: if_splits)
  assume n: "n \<le> length xs"
  show "recursive_average (take n xs) p alpha = Inr (take n r)"
  proof (cases "length xs < p")
    case True
    then show ?thesis
      using r n by (auto simp: recursive_average_def)
  next
    case False
    then obtain seed where seed: "mean_of (take p xs) p = Inr seed"
      "r = replicate (p - 1) None @ map Some (seed # smooth_from alpha seed (drop p xs))"
      using r by (auto simp: recursive_average_def rmap_Inr_iff)
    show ?thesis
    proof (cases "n < p")
      case True
      then show ?thesis
        using n seed(2) by (simp add: recursive_average_def min_absorb2 min_def)
    next
      case big: False
      then have "take p (take n xs) = take p xs" "drop p (take n xs) = take (n - p) (drop p xs)"
        by (simp_all add: min_absorb1 drop_take)
      moreover have "n - (p - 1) = Suc (n - p)"
        using big p by simp
      ultimately show ?thesis
        using big n seed by (simp add: recursive_average_def min_absorb2 smooth_from_take take_map)
    qed
  qed
qed

lemma causal_period:
  assumes "1 \<le> p \<Longrightarrow> causal_on f xs"
  shows "causal_on (\<lambda>xs. rbind (require_period p) (\<lambda>_. f xs)) xs"
  using assms by (cases "1 \<le> p") (simp_all add: causal_on_def require_period_def)

lemma causal_smoothed: "1 \<le> p \<Longrightarrow> causal_on (\<lambda>xs. smoothed_by a b xs p) xs"
  unfolding smoothed_by_def
  by (rule causal_period, rule causal_finite, cases "py_fdiv a (flt_of_int (int b))")
     (simp_all add: causal_recursive_average, simp add: causal_on_def)

lemma smoothed_by_period: "\<not> 1 \<le> p \<Longrightarrow> smoothed_by a b xs p = Inl IndicatorInputError"
  by (simp add: smoothed_by_def require_period_def)

lemma causal_smoothing:
  "causal_on (\<lambda>xs. ema xs p) xs" "causal_on (\<lambda>xs. wilder xs p) xs" "causal_on (\<lambda>xs. sma xs p) xs"
  "causal_on (\<lambda>xs. rolling_population_stdev m xs p) xs"
proof -
  show "causal_on (\<lambda>xs. ema xs p) xs" "causal_on (\<lambda>xs. wilder xs p) xs"
    using causal_smoothed[of p] smoothed_by_period[of p]
    by (cases "1 \<le> p"; simp add: ema_def wilder_def causal_on_def)+
  show "causal_on (\<lambda>xs. sma xs p) xs" "causal_on (\<lambda>xs. rolling_population_stdev m xs p) xs"
    unfolding sma_def rolling_population_stdev_def
    by (intro causal_period causal_finite causal_rolling)+
qed

lemma compact_shape: "compact vs = Inr (off, dense) \<Longrightarrow> vs = replicate off None @ map Some dense"
proof (induction vs arbitrary: off rule: compact.induct)
  case (3 x vs)
  then show ?case
    by (auto simp: list_all_iff o_def intro!: map_idI[symmetric] split: if_splits)
qed (auto simp: rmap_Inr_iff split: prod.splits)

lemma compact_of_shape: "compact (replicate off None @ map Some dense) = Inr (off, dense)"
proof (induction off)
  case 0
  then show ?case
    by (cases dense) (auto simp: list_all_iff o_def)
qed simp

lemma smooth_defined_take:
  assumes f: "\<And>ys. causal_on f ys" and r: "smooth_defined f vs = Inr r"
  shows "length r = length vs" "n \<le> length vs \<Longrightarrow> smooth_defined f (take n vs) = Inr (take n r)"
proof -
  obtain off dense q where q: "compact vs = Inr (off, dense)" "f dense = Inr q" "pad_values off q (length vs) = Inr r"
    using r by (auto simp: smooth_defined_def res_simps)
  have len: "length q = length dense" and shape: "vs = replicate off None @ map Some dense"
    using causal_onD(1)[OF f q(2)] compact_shape[OF q(1)] by simp_all
  then have pad: "r = replicate off None @ q"
    using q(3) by (simp add: pad_values_def)
  then show "length r = length vs"
    using len shape by simp
  assume n: "n \<le> length vs"
  have "take n vs = replicate (min n off) None @ map Some (take (n - off) dense)"
    unfolding shape by (simp add: take_map)
  moreover have "f (take (n - off) dense) = Inr (take (n - off) q)"
    by (rule causal_onD(2)[OF f q(2)]) (use n shape in simp)
  moreover have "take n r = replicate (min n off) None @ take (n - off) q"
    unfolding pad by simp
  ultimately show "smooth_defined f (take n vs) = Inr (take n r)"
    using n len shape by (simp add: smooth_defined_def compact_of_shape pad_values_def)
qed

text \<open>A smoothing of values that start undefined starts undefined.\<close>

lemma smooth_defined_head:
  assumes r: "smooth_defined f vs = Inr r" and "vs \<noteq> []" "vs ! 0 = None" and n: "n < 2"
  shows "take n r = replicate n None"
proof -
  obtain off dense q where q: "compact vs = Inr (off, dense)" "pad_values off q (length vs) = Inr r"
    using r by (auto simp: smooth_defined_def res_simps)
  then have "0 < off" "r = replicate off None @ q"
    using compact_shape[OF q(1)] assms(2,3) by (cases off; cases dense; auto simp: pad_values_def split: if_splits)+
  then show ?thesis
    using n by (cases n; cases off) auto
qed

lemma steps_take: "steps (take n xs) = take (n - 1) (steps xs)"
  by (rule nth_equalityI) (auto simp: steps_def nth_tl)

lemma steps_length [simp]: "length (steps xs) = length xs - 1"
  by (simp add: steps_def)

lemma causal_finite_period:
  assumes "1 \<le> p \<Longrightarrow> list_all flt_is_finite xs \<Longrightarrow> causal_on f xs"
  shows "causal_on (\<lambda>xs. rbind (require_period p) (\<lambda>_. rbind (require_finite xs) (\<lambda>_. f xs))) xs"
  using assms by (intro causal_period causal_finite)

lemma pad_one: "pad_values (Suc 0) vs n = Inr r \<longleftrightarrow> Suc (length vs) = n \<and> r = None # vs"
  by (auto simp: pad_values_def)

lemma causal_rsi: "causal_on (\<lambda>xs. rsi xs p) xs"
  unfolding rsi_def
proof (rule causal_finite_period, rule causal_onI)
  let ?up = "\<lambda>(a, b). py_fmax (fsub b a) (FNum 0)" and ?down = "\<lambda>(a, b). py_fmax (fneg (fsub b a)) (FNum 0)"
  let ?body = "\<lambda>xs. if length xs < 2 then Inr (replicate (length xs) None)
    else rbind (wilder (map ?up (steps xs)) p) (\<lambda>gains. rbind (wilder (map ?down (steps xs)) p) (\<lambda>losses.
      rbind (traverse (\<lambda>(g, l). rsi_value g l) (zip gains losses)) (\<lambda>values. pad_values 1 values (length xs))))"
  fix r n
  assume r: "?body xs = Inr r"
  show "length r = length xs"
    using r by (auto simp: res_simps pad_one split: if_splits)
  assume n: "n \<le> length xs"
  show "?body (take n xs) = Inr (take n r)"
  proof (cases "length xs < 2 \<or> n < 2")
    case True
    then show ?thesis
      using r n by (cases n) (auto simp: res_simps pad_one min_absorb2 split: if_splits)
  next
    case False
    then obtain g l v where g: "wilder (map ?up (steps xs)) p = Inr g" and l: "wilder (map ?down (steps xs)) p = Inr l"
      and v: "traverse (\<lambda>(g, l). rsi_value g l) (zip g l) = Inr v" and rv: "Suc (length v) = length xs" "r = None # v"
      using r by (auto simp: res_simps pad_one)
    have "wilder (map ?up (take (n - 1) (steps xs))) p = Inr (take (n - 1) g)"
      "wilder (map ?down (take (n - 1) (steps xs))) p = Inr (take (n - 1) l)"
      using causal_onD(2)[OF causal_smoothing(2) g, of "n - 1"] causal_onD(2)[OF causal_smoothing(2) l, of "n - 1"] n
      by (simp_all add: take_map)
    moreover have "traverse (\<lambda>(g, l). rsi_value g l) (zip (take (n - 1) g) (take (n - 1) l)) = Inr (take (n - 1) v)"
      using traverse_take[OF v, of "n - 1"] by (simp add: take_zip)
    moreover have "pad_values 1 (take (n - 1) v) n = Inr (take n r)"
      using False n rv by (cases n) (auto simp: pad_one)
    ultimately show ?thesis
      using False n by (simp add: steps_take min_absorb2)
  qed
qed

lemma map2_take: "map2 f (take n xs) (take n ys) = take n (map2 f xs ys)"
  by (simp add: take_map take_zip)

lemma macd_signal_causal: "causal_on (\<lambda>dense. if dense = [] then Inr [] else ema dense p) ys"
  using causal_smoothing(1)[of p ys] by (auto simp: causal_on_def)

definition macd_take :: "nat \<Rightarrow> MacdResult \<Rightarrow> MacdResult" where
  "macd_take n m =
     \<lparr> macd_line = take n (macd_line m), macd_signal = take n (macd_signal m),
       macd_histogram = take n (macd_histogram m) \<rparr>"

lemma require_finite_Inr: "require_finite xs = Inr u \<longleftrightarrow> list_all flt_is_finite xs"
  by (simp add: require_finite_def check_Inr_iff)

lemma finite_take: "list_all flt_is_finite xs \<Longrightarrow> list_all flt_is_finite (take n xs)"
  by (auto simp: list_all_iff dest: in_set_takeD)

lemma macd_prefix:
  assumes r: "macd xs fast slow sig = Inr r" and n: "n \<le> length xs"
  shows "macd (take n xs) fast slow sig = Inr (macd_take n r)"
proof -
  obtain f s signal where per: "require_period fast = Inr ()" "require_period slow = Inr ()" "require_period sig = Inr ()"
    and ord: "\<not> slow \<le> fast" and fin: "list_all flt_is_finite xs"
    and f: "ema xs fast = Inr f" and s: "ema xs slow = Inr s"
    and sg: "smooth_defined (\<lambda>dense. if dense = [] then Inr [] else ema dense sig) (map2 minus_defined f s) = Inr signal"
    and res: "r = \<lparr> macd_line = map2 minus_defined f s, macd_signal = signal,
                    macd_histogram = map2 minus_defined (map2 minus_defined f s) signal \<rparr>"
    using r by (auto simp: macd_def Let_def res_simps require_finite_Inr split: if_splits)
  have fs: "ema (take n xs) fast = Inr (take n f)" "ema (take n xs) slow = Inr (take n s)"
    using causal_onD(2)[OF causal_smoothing(1) f n] causal_onD(2)[OF causal_smoothing(1) s n] by simp_all
  have "length (map2 minus_defined f s) = length xs"
    using causal_onD(1)[OF causal_smoothing(1) f] causal_onD(1)[OF causal_smoothing(1) s] by simp
  then have "smooth_defined (\<lambda>dense. if dense = [] then Inr [] else ema dense sig) (map2 minus_defined (take n f) (take n s))
      = Inr (take n signal)"
    unfolding map2_take using smooth_defined_take(2)[OF macd_signal_causal sg, of n] n by simp
  then show ?thesis
    unfolding macd_def per rbind_simps using ord finite_take[OF fin, of n] fs
    by (simp add: require_finite_def Let_def res macd_take_def map2_take)
qed

lemma same_length_take:
  "same_length [xs, ys, zs] = Inr () \<Longrightarrow> same_length [take n xs, take n ys, take n zs] = Inr ()"
  by (simp add: same_length_def check_Inr_iff)

lemma same_length_Inr: "same_length [xs, ys, zs] = Inr u \<longleftrightarrow> length ys = length xs \<and> length zs = length xs"
  by (simp add: same_length_def check_Inr_iff)

lemma true_range_prefix:
  assumes r: "true_range hs ls cs = Inr r"
  shows "length r = length hs"
    "n \<le> length hs \<Longrightarrow> true_range (take n hs) (take n ls) (take n cs) = Inr (take n r)"
proof -
  have len: "length ls = length hs" "length cs = length hs"
    and fin: "list_all flt_is_finite hs" "list_all flt_is_finite ls" "list_all flt_is_finite cs"
    and res: "r = (if hs = [] then [] else None # map (\<lambda>v. Some (range_step v)) (zip (tl hs) (zip (tl ls) cs)))"
    using r by (auto simp: true_range_def res_simps same_length_Inr require_finite_Inr)
  show "length r = length hs"
    using len res by (cases hs) auto
  assume n: "n \<le> length hs"
  have "zip (tl (take n hs)) (zip (tl (take n ls)) (take n cs)) = take (n - 1) (zip (tl hs) (zip (tl ls) cs))"
    using n len by (intro nth_equalityI) (auto simp: nth_tl)
  then show "true_range (take n hs) (take n ls) (take n cs) = Inr (take n r)"
    using n len fin finite_take res
    by (cases n) (auto simp: true_range_def same_length_def require_finite_def check_def take_map)
qed

lemma atr_prefix:
  assumes r: "atr hs ls cs p = Inr r" and n: "n \<le> length hs"
  shows "atr (take n hs) (take n ls) (take n cs) p = Inr (take n r)"
proof -
  obtain ranges where per: "require_period p = Inr ()" and len: "same_length [hs, ls, cs] = Inr ()"
    and ranges: "true_range hs ls cs = Inr ranges"
    and body: "(if length hs < 2 then Inr (replicate (length hs) None)
                else smooth_defined (\<lambda>dense. wilder dense p) ranges) = Inr r"
    using r by (auto simp: atr_def rbind_Inr_iff)
  have ranges': "true_range (take n hs) (take n ls) (take n cs) = Inr (take n ranges)" "length ranges = length hs"
    using true_range_prefix[OF ranges] n by simp_all
  have "smooth_defined (\<lambda>dense. wilder dense p) (take n ranges) = Inr (take n r)" if "\<not> length hs < 2"
    using smooth_defined_take(2)[OF causal_smoothing(2), of p ranges r n] body that n ranges'(2) by simp
  moreover have "take n r = replicate n None" if few: "\<not> length hs < 2" "n < 2"
  proof (rule smooth_defined_head[OF _ _ _ few(2)])
    show "smooth_defined (\<lambda>dense. wilder dense p) ranges = Inr r"
      using body few by simp
    show "ranges \<noteq> []" "ranges ! 0 = None"
      using ranges few ranges'(2) by (auto simp: true_range_def res_simps)
  qed
  ultimately show ?thesis
    unfolding atr_def per same_length_take[OF len] ranges' rbind_simps
    using body n by (cases "length hs < 2") (auto simp: min_absorb2)
qed

lemma bollinger_prefix:
  assumes r: "bollinger_bands m xs p k = Inr r" and n: "n \<le> length xs"
  shows "bollinger_bands m (take n xs) p k
       = Inr \<lparr> band_upper = take n (band_upper r), band_middle = take n (band_middle r), band_lower = take n (band_lower r) \<rparr>"
proof -
  obtain mid dev where per: "require_period p = Inr ()" and fin: "list_all flt_is_finite xs"
    and k: "\<not> flt_le k (FNum 0)" and mid: "sma xs p = Inr mid" and dev: "rolling_population_stdev m xs p = Inr dev"
    and res: "r = \<lparr> band_upper = map2 (band fadd k) mid dev, band_middle = mid, band_lower = map2 (band fsub k) mid dev \<rparr>"
    using r by (auto simp: bollinger_bands_def rbind_Inr_iff require_finite_Inr split: if_splits)
  show ?thesis
    unfolding bollinger_bands_def per rbind_simps
    using finite_take[OF fin, of n] k causal_onD(2)[OF causal_smoothing(3) mid n]
      causal_onD(2)[OF causal_smoothing(4) dev n]
    by (simp add: require_finite_def res map2_take)
qed

lemma causal_log_returns: "causal_on (log_returns m) xs"
  unfolding log_returns_def
proof (rule causal_finite, rule causal_onI)
  let ?step = "\<lambda>(a, b). rbind (py_fdiv b a) (\<lambda>q. rmap Some (py_log m q))"
  let ?body = "\<lambda>xs. if list_ex (\<lambda>x. flt_le x (FNum 0)) xs then Inl IndicatorInputError
    else if xs = [] then Inr [] else rmap ((#) None) (traverse ?step (steps xs))"
  fix r n
  assume r: "?body xs = Inr r"
  show "length r = length xs"
    using r by (auto simp: rmap_Inr_iff dest: traverse_length split: if_splits)
  assume n: "n \<le> length xs"
  have pos: "\<not> list_ex (\<lambda>x. flt_le x (FNum 0)) (take n xs)"
    using r by (auto simp: list_ex_iff split: if_splits dest: in_set_takeD)
  show "?body (take n xs) = Inr (take n r)"
  proof (cases "n = 0 \<or> xs = []")
    case False
    then obtain v where "traverse ?step (steps xs) = Inr v" "r = None # v"
      using r by (auto simp: rmap_Inr_iff split: if_splits)
    then show ?thesis
      using False pos traverse_take[of ?step "steps xs" v "n - 1"] by (cases n) (simp_all add: steps_take)
  qed (use r pos in \<open>auto split: if_splits\<close>)
qed

lemma causal_historical_volatility: "causal_on (\<lambda>xs. historical_volatility m xs p) xs"
  unfolding historical_volatility_def
proof (rule causal_finite_period, rule causal_onI)
  let ?dev = "\<lambda>dense. rolling_population_stdev m dense p"
  let ?body = "\<lambda>xs. if length xs < 2 then Inr (replicate (length xs) None)
    else rbind (log_returns m xs) (smooth_defined ?dev)"
  fix r n
  assume p: "1 \<le> p" and fin: "list_all flt_is_finite xs" and r: "?body xs = Inr r"
  show len: "length r = length xs"
    using r causal_onD(1)[OF causal_log_returns] smooth_defined_take(1)[OF causal_smoothing(4)]
    by (fastforce simp: rbind_Inr_iff split: if_splits)
  assume n: "n \<le> length xs"
  show "?body (take n xs) = Inr (take n r)"
  proof (cases "length xs < 2")
    case True
    then show ?thesis
      using r n by (auto simp: min_absorb2)
  next
    case False
    then obtain v where v: "log_returns m xs = Inr v" "smooth_defined ?dev v = Inr r"
      using r by (auto simp: rbind_Inr_iff)
    have lv: "length v = length xs"
      by (rule causal_onD(1)[OF causal_log_returns v(1)])
    have cut: "log_returns m (take n xs) = Inr (take n v)" "smooth_defined ?dev (take n v) = Inr (take n r)"
      using causal_onD(2)[OF causal_log_returns v(1) n] smooth_defined_take(2)[OF causal_smoothing(4) v(2), of n] n lv
      by simp_all
    show ?thesis
    proof (cases "n < 2")
      case few: True
      have "v \<noteq> []" "v ! 0 = None"
        using v(1) False lv by (auto simp: log_returns_def rbind_Inr_iff rmap_Inr_iff split: if_splits)
      then show ?thesis
        using smooth_defined_head[OF v(2) _ _ few] few n by (simp add: min_absorb2)
    qed (use False cut n in \<open>simp add: min_absorb2\<close>)
  qed
qed

definition directional_take :: "nat \<Rightarrow> DirectionalMovement \<Rightarrow> DirectionalMovement" where
  "directional_take n d =
     \<lparr> plus_di = take n (plus_di d), minus_di = take n (minus_di d), dx_line = take n (dx_line d),
       adx_line = take n (adx_line d) \<rparr>"

lemma compact_take:
  assumes "compact vs = Inr (off, dense)"
  shows "compact (take n vs) = Inr (min n off, take (n - off) dense)"
  unfolding compact_shape[OF assms] using compact_of_shape[of "min n off" "take (n - off) dense"]
  by (simp add: take_map)

lemma smooth_undefined:
  assumes r: "smooth_defined (\<lambda>d. wilder d p) (replicate n None) = Inr r"
  shows "r = replicate n None"
proof -
  obtain q where "wilder [] p = Inr q" "pad_values n q n = Inr r"
    using r compact_of_shape[of n "[]"] by (auto simp: smooth_defined_def rbind_Inr_iff)
  then show ?thesis
    by (simp add: pad_values_def split: if_splits)
qed

text \<open>The last stage of the ADX: a smoothing of DX where it exists.\<close>

lemma adx_stage_take:
  assumes a: "(if list_ex (\<lambda>v. v \<noteq> None) dx then smooth_defined (\<lambda>d. wilder d p) dx
               else Inr (replicate (length dx) None)) = Inr a" and n: "n \<le> length dx"
  shows "(if list_ex (\<lambda>v. v \<noteq> None) (take n dx) then smooth_defined (\<lambda>d. wilder d p) (take n dx)
          else Inr (replicate n None)) = Inr (take n a)"
proof (cases "list_ex (\<lambda>v. v \<noteq> None) dx")
  case False
  then have "\<not> list_ex (\<lambda>v. v \<noteq> None) (take n dx)"
    by (auto simp: list_ex_iff dest: in_set_takeD)
  then show ?thesis
    using a n False by (auto simp: min_absorb1)
next
  case True
  then have cut: "smooth_defined (\<lambda>d. wilder d p) (take n dx) = Inr (take n a)"
    using a smooth_defined_take(2)[OF causal_smoothing(2), of p dx a n] n by simp
  show ?thesis
  proof (cases "list_ex (\<lambda>v. v \<noteq> None) (take n dx)")
    case no: False
    then have "take n dx = replicate n None"
      using n by (intro replicate_eqI) (auto simp: list_ex_iff)
    then show ?thesis
      using no cut smooth_undefined[of p n] by simp
  qed (use cut in simp)
qed

lemma true_range_compact:
  assumes "true_range hs ls cs = Inr r" and "hs \<noteq> []"
  obtains dense where "compact r = Inr (1, dense)" "Suc (length dense) = length hs"
proof
  let ?d = "map range_step (zip (tl hs) (zip (tl ls) cs))"
  have "r = replicate 1 None @ map Some ?d" "length ls = length hs" "length cs = length hs"
    using assms by (auto simp: true_range_def res_simps same_length_Inr)
  then show "compact r = Inr (1, ?d)" "Suc (length ?d) = length hs"
    using compact_of_shape[of 1 ?d] assms(2) by (cases hs; simp)+
qed

lemma adx_prefix:
  assumes r: "adx hs ls cs p = Inr r" and n: "n \<le> length hs"
  shows "adx (take n hs) (take n ls) (take n cs) p = Inr (directional_take n r)"
proof -
  have per: "require_period p = Inr ()" and len: "same_length [hs, ls, cs] = Inr ()"
    and fin: "list_all flt_is_finite hs" "list_all flt_is_finite ls" "list_all flt_is_finite cs"
    using r by (auto simp: adx_def rbind_Inr_iff require_finite_Inr)
  have pre: "same_length [take n hs, take n ls, take n cs] = Inr ()" "require_finite (take n hs) = Inr ()"
    "require_finite (take n ls) = Inr ()" "require_finite (take n cs) = Inr ()"
    using same_length_take[OF len] finite_take[OF fin(1)] finite_take[OF fin(2)] finite_take[OF fin(3)]
    by (simp_all add: require_finite_def)
  show ?thesis
  proof (cases "length hs < 2")
    case True
    then have "r = \<lparr> plus_di = replicate (length hs) None, minus_di = replicate (length hs) None,
                    dx_line = replicate (length hs) None, adx_line = replicate (length hs) None \<rparr>"
      using r by (simp add: adx_def Let_def res_simps)
    then show ?thesis
      using True n unfolding adx_def per pre rbind_simps by (simp add: Let_def directional_take_def min_absorb2)
  next
    case False
    let ?moves = "zip (steps hs) (steps ls)" and ?k = "n - 1"
    have ll: "length ls = length hs" "length cs = length hs"
      using len by (simp_all add: same_length_Inr)
    obtain ranges off dense pos neg rng vs pdi mdi dx a where
      ranges: "true_range hs ls cs = Inr ranges" and dense: "compact ranges = Inr (off, dense)"
      and pos: "wilder (map up_move ?moves) p = Inr pos" and neg: "wilder (map down_move ?moves) p = Inr neg"
      and rng: "wilder dense p = Inr rng" and vs: "traverse di_values (zip pos (zip neg rng)) = Inr vs"
      and pads: "pad_values (Suc 0) (map fst vs) (length hs) = Inr pdi"
        "pad_values (Suc 0) (map (fst \<circ> snd) vs) (length hs) = Inr mdi"
        "pad_values (Suc 0) (map (snd \<circ> snd) vs) (length hs) = Inr dx"
      and a: "(if list_ex (\<lambda>v. v \<noteq> None) dx then smooth_defined (\<lambda>d. wilder d p) dx
               else Inr (replicate (length hs) None)) = Inr a"
      and res: "r = \<lparr> plus_di = pdi, minus_di = mdi, dx_line = dx, adx_line = a \<rparr>"
      using r False unfolding adx_def per len rbind_simps Let_def
      by (auto simp: rbind_Inr_iff)
    have vals: "Suc (length vs) = length hs" "pdi = None # map fst vs"
      "mdi = None # map (fst \<circ> snd) vs" "dx = None # map (snd \<circ> snd) vs"
      using pads by (simp_all add: pad_one)
    have a': "(if list_ex (\<lambda>v. v \<noteq> None) (take n dx) then smooth_defined (\<lambda>d. wilder d p) (take n dx)
          else Inr (replicate n None)) = Inr (take n a)"
    proof (rule adx_stage_take)
      have "length dx = length hs"
        using vals by simp
      then show "(if list_ex (\<lambda>v. v \<noteq> None) dx then smooth_defined (\<lambda>d. wilder d p) dx
          else Inr (replicate (length dx) None)) = Inr a" "n \<le> length dx"
        using a n by (auto split: if_splits)
    qed
    show ?thesis
    proof (cases "n < 2")
      case True
      have "\<not> list_ex (\<lambda>v. v \<noteq> None) (take n dx)"
        using True vals(4) by (cases n) auto
      then have "take n a = replicate n None"
        using a' by simp
      then show ?thesis
        using True n vals unfolding adx_def per pre rbind_simps res
        by (cases n) (auto simp: Let_def directional_take_def min_absorb2)
    next
      case big: False
      obtain d where d: "compact ranges = Inr (1, d)" "Suc (length d) = length hs"
        by (rule true_range_compact[OF ranges]) (use False in auto)
      then have dense': "compact (take n ranges) = Inr (1, take ?k dense)" "length dense = length hs - 1"
        using compact_take[OF dense, of n] big dense by (simp_all add: min_absorb2)
      have moves': "zip (steps (take n hs)) (steps (take n ls)) = take ?k ?moves"
        by (simp add: steps_take take_zip)
      have wild: "wilder (map up_move (take ?k ?moves)) p = Inr (take ?k pos)"
        "wilder (map down_move (take ?k ?moves)) p = Inr (take ?k neg)"
        "wilder (take ?k dense) p = Inr (take ?k rng)"
        using causal_onD(2)[OF causal_smoothing(2) pos, of ?k] causal_onD(2)[OF causal_smoothing(2) neg, of ?k]
          causal_onD(2)[OF causal_smoothing(2) rng, of ?k] n ll dense'(2)
        by (simp_all add: take_map)
      have vals': "traverse di_values (zip (take ?k pos) (zip (take ?k neg) (take ?k rng))) = Inr (take ?k vs)"
        using traverse_take[OF vs, of ?k] by (simp add: take_zip)
      have pads': "pad_values (Suc 0) (map g (take ?k vs)) n = Inr (take n (None # map g vs))" for g
        using big n vals(1) by (cases n) (auto simp: pad_one take_map)
      have cut: "pad_values (Suc 0) (map fst (take ?k vs)) n = Inr (take n pdi)"
        "pad_values (Suc 0) (map (fst \<circ> snd) (take ?k vs)) n = Inr (take n mdi)"
        "pad_values (Suc 0) (map (snd \<circ> snd) (take ?k vs)) n = Inr (take n dx)"
        unfolding vals(2-4) by (rule pads')+
      show ?thesis
        unfolding adx_def per pre rbind_simps Let_def
        using big n true_range_prefix(2)[OF ranges n] dense' moves' wild vals' cut a'
        by (cases "list_ex (\<lambda>v. v \<noteq> None) (take n dx)") (simp_all add: res directional_take_def min_absorb2)
    qed
  qed
qed

section \<open>The whole snapshot\<close>

lemma non_negative_take: "require_non_negative vs = Inr () \<Longrightarrow> require_non_negative (take n vs) = Inr ()"
  by (auto simp: require_non_negative_def require_finite_def res_simps list_all_iff list_ex_iff dest: in_set_takeD)

lemma causal_non_negative:
  assumes "causal_on f vs"
  shows "causal_on (\<lambda>vs. rbind (require_non_negative vs) (\<lambda>_. f vs)) vs"
  using assms non_negative_take by (auto simp: causal_on_def rbind_Inr_iff)

lemma causal_volume_moving_average: "causal_on (\<lambda>vs. volume_moving_average vs p) vs"
  unfolding volume_moving_average_def by (intro causal_period causal_non_negative causal_smoothing)

lemma causal_map_with:
  assumes f: "causal_on f xs" and step: "\<And>n. n \<le> length xs \<Longrightarrow> g (take n xs) = (\<lambda>r. traverse h (zip (take n xs) r))"
  shows "causal_on (\<lambda>xs. rbind (f xs) (g xs)) xs"
proof (rule causal_onI)
  fix r n
  have whole: "g xs = (\<lambda>r. traverse h (zip xs r))"
    using step[of "length xs"] by simp
  assume "rbind (f xs) (g xs) = Inr r"
  then obtain v where v: "f xs = Inr v" "traverse h (zip xs v) = Inr r"
    by (auto simp: rbind_Inr_iff whole)
  show "length r = length xs"
    using traverse_length[OF v(2)] causal_onD(1)[OF f v(1)] by simp
  assume n: "n \<le> length xs"
  show "rbind (f (take n xs)) (g (take n xs)) = Inr (take n r)"
    using causal_onD(2)[OF f v(1) n] traverse_take[OF v(2), of n] step[OF n] by (simp add: take_zip)
qed

lemma causal_relative_volume: "causal_on (\<lambda>vs. relative_volume vs p) vs"
  unfolding relative_volume_def
  by (intro causal_period causal_non_negative) (rule causal_map_with[OF causal_volume_moving_average], rule refl)

lemma causal_volume_acceleration: "causal_on (\<lambda>vs. volume_acceleration vs p) vs"
  unfolding volume_acceleration_def
proof (intro causal_period causal_non_negative, rule causal_onI)
  let ?body = "\<lambda>vs. rbind (volume_moving_average vs p) (\<lambda>as. if as = [] then Inr []
      else rmap ((#) None) (traverse acceleration_step (zip as (tl as))))"
  fix r n
  assume "?body vs = Inr r"
  then obtain as where as: "volume_moving_average vs p = Inr as"
    "(if as = [] then Inr [] else rmap ((#) None) (traverse acceleration_step (zip as (tl as)))) = Inr r"
    by (auto simp: rbind_Inr_iff)
  have len: "length as = length vs"
    by (rule causal_onD(1)[OF causal_volume_moving_average as(1)])
  then show "length r = length vs"
    using as(2) by (cases as) (auto simp: rmap_Inr_iff dest: traverse_length)
  assume n: "n \<le> length vs"
  have cut: "volume_moving_average (take n vs) p = Inr (take n as)"
    by (rule causal_onD(2)[OF causal_volume_moving_average as(1) n])
  have pairs: "zip (take n as) (tl (take n as)) = take (n - 1) (zip as (tl as))"
    by (rule nth_equalityI) (auto simp: nth_tl)
  show "?body (take n vs) = Inr (take n r)"
  proof (cases "as = [] \<or> n = 0")
    case False
    then obtain q where q: "traverse acceleration_step (zip as (tl as)) = Inr q" "r = None # q"
      using as(2) by (auto simp: rmap_Inr_iff)
    then show ?thesis
      using False cut pairs traverse_take[OF q(1), of "n - 1"] by (cases n) simp_all
  qed (use as(2) cut in auto)
qed

lemma anchors_from_take:
  "anchors_from i prev ts = Inr r \<Longrightarrow> anchors_from i prev (take n ts) = Inr (filter (\<lambda>j. j < i + n) r)
     \<and> (\<forall>j\<in>set r. i \<le> j)"
proof (induction i prev ts arbitrary: r n rule: anchors_from.induct)
  case (2 i prev t ts)
  then obtain q where q: "anchors_from (Suc i) (Some (utc_day t)) ts = Inr q"
    "r = (if prev = Some (utc_day t) then [] else [i]) @ q" and aware: "is_aware t"
    by (auto simp: rmap_Inr_iff split: if_splits)
  have IH: "anchors_from (Suc i) (Some (utc_day t)) (take k ts) = Inr (filter (\<lambda>j. j < Suc i + k) q)"
    "\<forall>j\<in>set q. Suc i \<le> j" for k
    using 2(1)[OF _ q(1)] aware by blast+
  show ?case
  proof (cases n)
    case 0
    have "\<forall>j\<in>set r. i \<le> j"
      using IH(2) q(2) by auto
    then have "filter (\<lambda>j. j < i) r = []"
      by (auto simp: filter_empty_conv)
    then show ?thesis
      using 0 \<open>\<forall>j\<in>set r. i \<le> j\<close> by simp
  next
    case (Suc k)
    then show ?thesis
      using IH(1)[of k] IH(2) q(2) aware by auto
  qed
qed simp

lemma daily_anchors_take: "daily_anchors ts = Inr r \<Longrightarrow> daily_anchors (take n ts) = Inr (filter (\<lambda>j. j < n) r)"
  using anchors_from_take[of 0 None ts r n] by (simp add: daily_anchors_def)

lemma vwap_from_take:
  assumes "vwap_from i as v w ps = Inr r" and "\<forall>j. i \<le> j \<and> j < i + n \<longrightarrow> (j \<in> set as \<longleftrightarrow> j \<in> set bs)"
  shows "vwap_from i bs v w (take n ps) = Inr (take n r)"
  using assms
proof (induction i as v w ps arbitrary: r n rule: vwap_from.induct)
  case (2 i as v w price volume ps)
  show ?case
  proof (cases n)
    case (Suc k)
    have here: "i \<in> set as \<longleftrightarrow> i \<in> set bs" and later: "\<forall>j. Suc i \<le> j \<and> j < Suc i + k \<longrightarrow> (j \<in> set as \<longleftrightarrow> j \<in> set bs)"
      using 2(3) Suc by auto
    let ?v = "accumulate (if i \<in> set as then empty_accumulator else v) volume"
    let ?w = "accumulate (if i \<in> set as then empty_accumulator else w) (fmul price volume)"
    obtain x q where x: "(if flt_eq (accumulated ?v) (FNum 0) then Inr None
        else rmap Some (py_fdiv (accumulated ?w) (accumulated ?v))) = Inr x"
      and q: "vwap_from (Suc i) as ?v ?w ps = Inr q" and r: "r = x # q"
      using 2(2) by (auto simp: Let_def rbind_Inr_iff rmap_Inr_iff)
    have "vwap_from (Suc i) bs ?v ?w (take k ps) = Inr (take k q)"
      by (rule 2(1)[OF refl refl q later])
    then have "vwap_from i bs v w ((price, volume) # take k ps) = Inr (x # take k q)"
      unfolding vwap_from.simps Let_def here[symmetric] x rbind_simps by simp
    then show ?thesis
      using r Suc by simp
  qed simp
qed simp

lemma vwap_prefix:
  assumes r: "vwap hs ls cs vs as = Inr r" and n: "0 < n" "n \<le> length hs"
  shows "vwap (take n hs) (take n ls) (take n cs) (take n vs) (filter (\<lambda>j. j < n) as) = Inr (take n r)"
proof -
  obtain prices where len: "length ls = length hs" "length cs = length hs" "length vs = length hs"
    and fin: "list_all flt_is_finite vs" and pos: "\<not> list_ex (\<lambda>v. flt_less v (FNum 0)) vs"
    and as: "as \<noteq> []" "hd as = 0" "sorted_wrt (<) as" and prices: "typical_prices hs ls cs = Inr prices"
    and body: "vwap_from 0 as empty_accumulator empty_accumulator (zip prices vs) = Inr r"
    using r n by (auto simp: vwap_def same_length_def check_Inr_iff rbind_Inr_iff require_finite_Inr split: if_splits)
  have typical: "typical_prices (take n hs) (take n ls) (take n cs) = Inr (take n prices)"
  proof -
    have fin: "list_all flt_is_finite hs" "list_all flt_is_finite ls" "list_all flt_is_finite cs"
      and t: "traverse (\<lambda>(h, l, c). py_fdiv (fadd (fadd h l) c) (flit 3)) (zip hs (zip ls cs)) = Inr prices"
      using prices by (auto simp: typical_prices_def rbind_Inr_iff require_finite_Inr)
    show ?thesis
      using len finite_take[OF fin(1)] finite_take[OF fin(2)] finite_take[OF fin(3)] traverse_take[OF t, of n]
      by (simp add: typical_prices_def same_length_def require_finite_def take_zip)
  qed
  have pos': "\<not> list_ex (\<lambda>v. flt_less v (FNum 0)) (take n vs)"
    using pos by (auto simp: list_ex_iff dest: in_set_takeD)
  have bs: "filter (\<lambda>j. j < n) as \<noteq> []" "hd (filter (\<lambda>j. j < n) as) = 0" "sorted_wrt (<) (filter (\<lambda>j. j < n) as)"
    "last (filter (\<lambda>j. j < n) as) < n"
    using as n last_in_set[of "filter (\<lambda>j. j < n) as"] by (cases as; auto intro: sorted_wrt_filter)+
  have "vwap_from 0 (filter (\<lambda>j. j < n) as) empty_accumulator empty_accumulator (take n (zip prices vs)) = Inr (take n r)"
    by (rule vwap_from_take[OF body]) simp
  moreover have "hs \<noteq> []"
    using n by auto
  ultimately show ?thesis
    unfolding vwap_def using len n fin pos' bs typical
    by (simp add: same_length_def require_finite_def finite_take take_zip min_absorb2)
qed

definition bollinger_take :: "nat \<Rightarrow> BollingerBands \<Rightarrow> BollingerBands" where
  "bollinger_take n b =
     \<lparr> band_upper = take n (band_upper b), band_middle = take n (band_middle b), band_lower = take n (band_lower b) \<rparr>"

text \<open>The snapshot as it was after the first \<open>n\<close> candles.\<close>

definition tech_take :: "nat \<Rightarrow> TechnicalSnapshot \<Rightarrow> TechnicalSnapshot" where
  "tech_take n t =
     \<lparr> tech_symbol = tech_symbol t, tech_candle_count = min n (tech_candle_count t),
       tech_ema = map (\<lambda>(p, v). (p, take n v)) (tech_ema t), tech_sma = map (\<lambda>(p, v). (p, take n v)) (tech_sma t),
       tech_rsi = take n (tech_rsi t), tech_macd = macd_take n (tech_macd t),
       tech_true_range = take n (tech_true_range t), tech_atr = take n (tech_atr t),
       tech_bollinger = bollinger_take n (tech_bollinger t),
       tech_directional = directional_take n (tech_directional t), tech_vwap = take n (tech_vwap t),
       tech_volume_ma = take n (tech_volume_ma t), tech_relative_volume = take n (tech_relative_volume t),
       tech_volume_acceleration = take n (tech_volume_acceleration t) \<rparr>"

lemma per_period_take:
  assumes "\<And>p. causal_on (f p) xs" and n: "n \<le> length xs" and "per_period (\<lambda>p. f p xs) ps = Inr es"
  shows "per_period (\<lambda>p. f p (take n xs)) ps = Inr (map (\<lambda>(p, v). (p, take n v)) es)"
  using assms(3)
proof (induction ps arbitrary: es)
  case (Cons p ps)
  then obtain v r where v: "f p xs = Inr v" "per_period (\<lambda>p. f p xs) ps = Inr r" "es = (p, v) # r"
    by (auto simp: per_period_def rbind_Inr_iff rmap_Inr_iff)
  have "f p (take n xs) = Inr (take n v)"
    by (rule causal_onD(2)[OF assms(1) v(1) n])
  then show ?case
    using Cons.IH[OF v(2)] v(3) by (simp add: per_period_def)
qed (simp add: per_period_def)

lemma float_column_take: "float_column f (series_take n s) = take n (float_column f s)"
  by (simp add: float_column_def take_map)

lemma float_column_length [simp]: "length (float_column f s) = series_len s"
  by (simp add: float_column_def series_len_def)

definition anchors_of :: "TechnicalConfig \<Rightarrow> ValidatedCandleSeries \<Rightarrow> nat list res" where
  "anchors_of cfg s =
     (case vwap_anchoring cfg of ANCHOR_DAILY \<Rightarrow> daily_anchors (open_times s) | ANCHOR_WHOLE_SERIES \<Rightarrow> Inr [0])"

lemma anchored_vwap_take:
  assumes "anchors_of cfg s = Inr as" and "(if series_len s = 0 then Inr [] else vwap hs ls cs vs as) = Inr w"
    and n: "n \<le> series_len s" and len: "length hs = series_len s"
  shows "\<exists>bs. anchors_of cfg (series_take n s) = Inr bs
           \<and> (if n = 0 then Inr [] else vwap (take n hs) (take n ls) (take n cs) (take n vs) bs) = Inr (take n w)"
proof (cases "n = 0")
  case True
  then show ?thesis
    using daily_anchors_take[of "open_times s" as 0] assms(1)
    by (cases "vwap_anchoring cfg") (simp_all add: anchors_of_def)
next
  case False
  then have "vwap hs ls cs vs as = Inr w"
    using assms(2) n by simp
  moreover have "anchors_of cfg (series_take n s) = Inr (filter (\<lambda>j. j < n) as)"
    using False assms(1) daily_anchors_take[of "open_times s" as n]
    by (cases "vwap_anchoring cfg") (auto simp: anchors_of_def take_map)
  ultimately show ?thesis
    using vwap_prefix[of hs ls cs vs as w n] False n len by simp
qed

text \<open>
  The indicators of the first \<open>n\<close> candles are the first \<open>n\<close> values of the indicators of the whole
  series: no value looks ahead, and no later candle revises one.
\<close>

lemma technicals_take:
  assumes t: "compute_technicals m s cfg = Inr t" and n: "n \<le> series_len s"
  shows "compute_technicals m (series_take n s) cfg = Inr (tech_take n t)"
proof -
  let ?h = "float_column bar_high s" and ?l = "float_column bar_low s" and ?c = "float_column bar_close s"
    and ?v = "float_column bar_volume s"
  obtain as es ss r mc tr av bb dm vw vm rv va where
    as: "anchors_of cfg s = Inr as" and es: "per_period (\<lambda>p. ema ?c p) (ema_periods cfg) = Inr es"
    and ss: "per_period (\<lambda>p. sma ?c p) (sma_periods cfg) = Inr ss" and r: "rsi ?c (rsi_period cfg) = Inr r"
    and mc: "macd ?c (macd_fast cfg) (macd_slow cfg) (macd_signal_period cfg) = Inr mc"
    and tr: "true_range ?h ?l ?c = Inr tr" and av: "atr ?h ?l ?c (atr_period cfg) = Inr av"
    and bb: "bollinger_bands m ?c (bollinger_period cfg) (bollinger_multiplier cfg) = Inr bb"
    and dm: "adx ?h ?l ?c (adx_period cfg) = Inr dm"
    and vw: "(if series_len s = 0 then Inr [] else vwap ?h ?l ?c ?v as) = Inr vw"
    and vm: "volume_moving_average ?v (volume_period cfg) = Inr vm"
    and rv: "relative_volume ?v (volume_period cfg) = Inr rv"
    and va: "volume_acceleration ?v (volume_period cfg) = Inr va"
    and res: "t = \<lparr> tech_symbol = series_symbol s, tech_candle_count = series_len s, tech_ema = es, tech_sma = ss,
              tech_rsi = r, tech_macd = mc, tech_true_range = tr, tech_atr = av, tech_bollinger = bb,
              tech_directional = dm, tech_vwap = vw, tech_volume_ma = vm, tech_relative_volume = rv,
              tech_volume_acceleration = va \<rparr>"
    using t unfolding compute_technicals_def Let_def anchors_of_def[symmetric] rbind_Inr_iff by blast
  obtain bs where bs: "anchors_of cfg (series_take n s) = Inr bs"
    "(if n = 0 then Inr [] else vwap (take n ?h) (take n ?l) (take n ?c) (take n ?v) bs) = Inr (take n vw)"
    using anchored_vwap_take[OF as vw n] by auto
  have "per_period (\<lambda>p. ema (take n ?c) p) (ema_periods cfg) = Inr (map (\<lambda>(p, v). (p, take n v)) es)"
    "per_period (\<lambda>p. sma (take n ?c) p) (sma_periods cfg) = Inr (map (\<lambda>(p, v). (p, take n v)) ss)"
    using per_period_take[OF causal_smoothing(1) _ es] per_period_take[OF causal_smoothing(3) _ ss] n by simp_all
  moreover have "rsi (take n ?c) (rsi_period cfg) = Inr (take n r)"
    using causal_onD(2)[OF causal_rsi r] n by simp
  moreover have "macd (take n ?c) (macd_fast cfg) (macd_slow cfg) (macd_signal_period cfg) = Inr (macd_take n mc)"
    using macd_prefix[OF mc] n by simp
  moreover have "true_range (take n ?h) (take n ?l) (take n ?c) = Inr (take n tr)"
    "atr (take n ?h) (take n ?l) (take n ?c) (atr_period cfg) = Inr (take n av)"
    "adx (take n ?h) (take n ?l) (take n ?c) (adx_period cfg) = Inr (directional_take n dm)"
    using true_range_prefix(2)[OF tr] atr_prefix[OF av] adx_prefix[OF dm] n by simp_all
  moreover have "bollinger_bands m (take n ?c) (bollinger_period cfg) (bollinger_multiplier cfg) = Inr (bollinger_take n bb)"
    using bollinger_prefix[OF bb] n by (simp add: bollinger_take_def)
  moreover have "volume_moving_average (take n ?v) (volume_period cfg) = Inr (take n vm)"
    "relative_volume (take n ?v) (volume_period cfg) = Inr (take n rv)"
    "volume_acceleration (take n ?v) (volume_period cfg) = Inr (take n va)"
    using causal_onD(2)[OF causal_volume_moving_average vm] causal_onD(2)[OF causal_relative_volume rv]
      causal_onD(2)[OF causal_volume_acceleration va] n by simp_all
  moreover have "series_len (series_take n s) = n"
    using n by simp
  ultimately show ?thesis
    unfolding compute_technicals_def Let_def anchors_of_def[symmetric] float_column_take bs(1) rbind_simps
    using bs(2) n by (simp add: res tech_take_def min_absorb1)
qed
end
