(* ===== verification/Float_Exact.thy ===== *)
theory Float_Exact
  imports Float_Builtins
begin

text \<open>
Values the float rounding leaves alone: every integer multiple of a power of two with at most 53
significant bits (\<open>fround_exact\<close>), and the small numerals and binary fractions, as rewrite rules for
evaluating the float code on concrete input; and the bounds the rounding keeps (\<open>fround_between\<close>).
\<close>

section \<open>Doubles are rounded to themselves\<close>

lemma bits_bounds: "0 < n \<Longrightarrow> 2 ^ (bits n - 1) \<le> n \<and> n < 2 ^ bits n"
proof (induction n rule: bits.induct)
  case (1 n)
  show ?case
  proof (cases "n div 2 = 0")
    case True
    with "1.prems" have "n = 1" by simp
    then show ?thesis by (simp add: bits.simps)
  next
    case False
    then obtain b where b: "bits (n div 2) = Suc b"
      by (cases "bits (n div 2)") (auto simp: bits.simps[of "n div 2"])
    have "2 ^ b \<le> n div 2" "n div 2 < 2 * 2 ^ b"
      using "1.IH" "1.prems" False b by auto
    then have "2 * 2 ^ b \<le> n" "n < 4 * 2 ^ b"
      by linarith+
    then show ?thesis
      using "1.prems" b by (simp add: bits.simps[of n])
  qed
qed

lemma lead_bit_le:
  assumes "0 < x"
  shows "2 powi lead_bit x \<le> x"
proof (cases "1 \<le> x")
  case True
  define n where "n = nat \<lfloor>x\<rfloor>"
  have n: "0 < n" "of_nat n \<le> x"
    using True by (auto simp: n_def le_floor_iff)
  then obtain b where b: "bits n = Suc b"
    by (cases "bits n") (auto simp: bits.simps[of n])
  have "(2 :: nat) ^ b \<le> n"
    using bits_bounds[OF n(1)] b by simp
  then have "(2 :: rat) ^ b \<le> of_nat n"
    using of_nat_le_iff[where 'a = rat, of "2 ^ b" n] by simp
  then show ?thesis
    using True n(2) b order_trans[of "2 ^ b" "of_nat n" x] by (simp add: lead_bit_def flip: n_def)
next
  case False
  define n where "n = nat (\<lceil>1 / x\<rceil> - 1)"
  have "1 < 1 / x"
    using assms False by simp
  then have c: "1 < \<lceil>1 / x\<rceil>"
    by linarith
  then have "0 < n"
    by (simp add: n_def)
  then have "n + 1 \<le> 2 ^ bits n"
    using bits_bounds by (simp add: Suc_le_eq)
  then have "(of_nat (n + 1) :: rat) \<le> 2 ^ bits n"
    using of_nat_le_iff[where 'a = rat, of "n + 1" "2 ^ bits n"] by simp
  moreover have "of_nat (n + 1) = (of_int \<lceil>1 / x\<rceil> :: rat)"
  proof -
    have "int (n + 1) = \<lceil>1 / x\<rceil>"
      using c nat_0_le[of "\<lceil>1 / x\<rceil> - 1"] unfolding n_def by linarith
    then show ?thesis
      by (metis of_int_of_nat_eq)
  qed
  ultimately have "1 / x \<le> 2 ^ bits n"
    using le_of_int_ceiling[of "1 / x"] by linarith
  then have "1 / 2 ^ bits n \<le> x"
    using assms by (simp add: field_simps)
  then show ?thesis
    using False by (simp add: lead_bit_def power_int_minus field_simps flip: n_def)
qed

lemma fround_exact:
  assumes x: "x = of_int k * 2 powi e" and k: "\<bar>k\<bar> < 2 ^ 53" and e: "- 1074 \<le> e" "e \<le> 900"
  shows "fround x = FNum x"
proof (cases "x = 0")
  case False
  have big: "\<bar>x\<bar> < 2 powi (e + 53)"
  proof -
    have "(of_int \<bar>k\<bar> :: rat) < 2 ^ 53"
      using k of_int_less_iff[where 'a = rat, of "\<bar>k\<bar>" "2 ^ 53"] by simp
    then show ?thesis
      by (simp add: x abs_mult power_int_add)
  qed
  have "(2 :: rat) powi lead_bit \<bar>x\<bar> < 2 powi (e + 53)"
    using lead_bit_le[of "\<bar>x\<bar>"] False big by simp
  then have "lead_bit \<bar>x\<bar> < e + 53"
    using power_int_increasing[of "e + 53" "lead_bit \<bar>x\<bar>" "2 :: rat"] by (cases "lead_bit \<bar>x\<bar> < e + 53") auto
  then have s: "spacing x \<le> e"
    using e by (simp add: spacing_def)
  define d where "d = nat (e - spacing x)"
  have "x / 2 powi spacing x = of_int (k * 2 ^ d)"
  proof -
    have "(2 :: rat) powi (e - spacing x) = 2 ^ d"
      using s by (simp add: d_def power_int_def)
    moreover have "x / 2 powi spacing x = of_int k * 2 powi (e - spacing x)"
      by (subst x) (simp add: power_int_diff)
    ultimately show ?thesis
      by simp
  qed
  then have "nearest_even (x / 2 powi spacing x) = k * 2 ^ d"
    by (simp add: nearest_even_def Let_def del: of_int_mult of_int_power)
  then have v: "of_int (nearest_even (x / 2 powi spacing x)) * 2 powi spacing x = x"
    using \<open>x / 2 powi spacing x = of_int (k * 2 ^ d)\<close> by (metis nonzero_eq_divide_eq power_int_not_zero zero_neq_numeral)
  have "(2 :: rat) powi (e + 53) \<le> 2 powi 1024"
    using e by (intro power_int_increasing) auto
  then have "\<not> 2 ^ 1024 \<le> \<bar>x\<bar>"
    using big by (simp add: power_int_def)
  then show ?thesis
    using False v by (simp add: fround_def Let_def)
qed (simp add: fround_def)

lemma fround_int: "\<bar>k\<bar> < 2 ^ 53 \<Longrightarrow> fround (of_int k) = FNum (of_int k)"
  by (rule fround_exact[where e = 0]) simp_all

lemma fround_numerals:
  "fround 0 = FNum 0" "fround 1 = FNum 1" "fround (- 1) = FNum (- 1)"
  "(numeral n :: int) < 2 ^ 53 \<Longrightarrow> fround (numeral n) = FNum (numeral n)"
  "(numeral n :: int) < 2 ^ 53 \<Longrightarrow> fround (- numeral n) = FNum (- numeral n)"
  using fround_int[of 0] fround_int[of 1] fround_int[of "- 1"] fround_int[of "numeral n"] fround_int[of "- numeral n"]
  by simp_all

text \<open>Halves, quarters and eighths.\<close>

lemma fround_binary:
  "fround (1 / 2) = FNum (1 / 2)" "fround (1 / 4) = FNum (1 / 4)" "fround (- (1 / 2)) = FNum (- (1 / 2))"
  using fround_exact[of _ 1 "- 1"] fround_exact[of _ 1 "- 2"] fround_exact[of _ "- 1" "- 1"]
  by (simp_all add: power_int_minus)

lemma fround_eighths:
  assumes "(numeral n :: int) < 2 ^ 53"
  shows "fround (numeral n / 2) = FNum (numeral n / 2)" "fround (- (numeral n / 2)) = FNum (- (numeral n / 2))"
    "fround (numeral n / 4) = FNum (numeral n / 4)" "fround (- (numeral n / 4)) = FNum (- (numeral n / 4))"
    "fround (numeral n / 8) = FNum (numeral n / 8)" "fround (numeral n / 16) = FNum (numeral n / 16)"
  using assms
    fround_exact[of _ "numeral n" "- 1"] fround_exact[of _ "- numeral n" "- 1"]
    fround_exact[of _ "numeral n" "- 2"] fround_exact[of _ "- numeral n" "- 2"]
    fround_exact[of _ "numeral n" "- 3"] fround_exact[of _ "numeral n" "- 4"]
  by (simp_all add: power_int_minus power_int_numeral field_simps)

section \<open>Rounding keeps bounds\<close>

lemma nearest_even_le: "y \<le> of_int n \<Longrightarrow> nearest_even y \<le> n"
proof -
  assume y: "y \<le> of_int n"
  show ?thesis
  proof (cases "y = of_int n")
    case True
    then show ?thesis
      by (simp add: nearest_even_def)
  next
    case False
    then have "\<lfloor>y\<rfloor> < n"
      using y by (simp add: floor_less_iff)
    then show ?thesis
      by (auto simp: nearest_even_def Let_def)
  qed
qed

lemma nearest_even_ge: "of_int n \<le> y \<Longrightarrow> n \<le> nearest_even y"
proof -
  assume "of_int n \<le> y"
  then have "n \<le> \<lfloor>y\<rfloor>"
    by (simp add: le_floor_iff)
  then show ?thesis
    by (auto simp: nearest_even_def Let_def)
qed

lemma spacing_le:
  assumes "\<bar>x\<bar> \<le> 2 powi n" and "x \<noteq> 0" and "- 1022 \<le> n"
  shows "spacing x \<le> n - 52"
proof -
  have "(2 :: rat) powi lead_bit \<bar>x\<bar> \<le> 2 powi n"
    using lead_bit_le[of "\<bar>x\<bar>"] assms(1,2) by simp
  then have "lead_bit \<bar>x\<bar> \<le> n"
    using power_int_strict_increasing[of n "lead_bit \<bar>x\<bar>" "2 :: rat"] by (cases "lead_bit \<bar>x\<bar> \<le> n") auto
  then show ?thesis
    using assms(3) by (simp add: spacing_def)
qed

text \<open>A bound that is itself a double of that size or larger survives the rounding.\<close>

lemma fround_between:
  assumes lo: "of_int a * 2 powi e \<le> x" and hi: "x \<le> of_int b * 2 powi e"
    and size: "\<bar>x\<bar> \<le> 2 powi n" and n: "- 1022 \<le> n" "n \<le> 1000" and e: "n - 52 \<le> e"
  shows "\<exists>v. fround x = FNum v \<and> of_int a * 2 powi e \<le> v \<and> v \<le> of_int b * 2 powi e \<and> \<bar>v\<bar> \<le> 2 powi n"
proof (cases "x = 0")
  case True
  then show ?thesis
    using assms by (auto simp: fround_def)
next
  case False
  let ?s = "spacing x"
  let ?u = "2 powi ?s :: rat"
  have s: "?s \<le> n - 52"
    by (rule spacing_le[OF size False n(1)])
  have u: "0 < ?u"
    by simp
  have scale: "of_int k * 2 powi j / ?u = of_int (k * 2 ^ nat (j - ?s))" if "?s \<le> j" for k j
  proof -
    have "(2 :: rat) powi (j - ?s) = 2 ^ nat (j - ?s)"
      using that by (simp add: power_int_def)
    moreover have "of_int k * 2 powi j / ?u = of_int k * 2 powi (j - ?s)"
      by (simp add: power_int_diff)
    ultimately show ?thesis
      by simp
  qed
  let ?v = "of_int (nearest_even (x / ?u)) * ?u"
  have upper: "?v \<le> of_int k * 2 powi j" if "x \<le> of_int k * 2 powi j" "?s \<le> j" for k j
  proof -
    have "x / ?u \<le> of_int (k * 2 ^ nat (j - ?s))"
      using divide_right_mono[OF that(1), of ?u] scale[OF that(2)] by simp
    then have "of_int (nearest_even (x / ?u)) \<le> of_int k * 2 powi j / ?u"
      using nearest_even_le scale[OF that(2)] by (simp only: of_int_le_iff)
    then show ?thesis
      using u by (simp add: pos_le_divide_eq)
  qed
  have lower: "of_int k * 2 powi j \<le> ?v" if "of_int k * 2 powi j \<le> x" "?s \<le> j" for k j
  proof -
    have "of_int (k * 2 ^ nat (j - ?s)) \<le> x / ?u"
      using divide_right_mono[OF that(1), of ?u] scale[OF that(2)] by simp
    then have "of_int k * 2 powi j / ?u \<le> of_int (nearest_even (x / ?u))"
      using nearest_even_ge scale[OF that(2)] by (simp only: of_int_le_iff)
    then show ?thesis
      using u by (simp add: pos_divide_le_eq)
  qed
  have "?v \<le> 2 powi n" "- (2 powi n) \<le> ?v"
    using upper[of 1 n] lower[of "- 1" n] size s by (auto simp: abs_le_iff)
  then have small: "\<bar>?v\<bar> \<le> 2 powi n"
    by (simp add: abs_le_iff)
  have "(2 :: rat) powi n < 2 powi 1024"
    using n by (intro power_int_strict_increasing) auto
  then have "\<not> 2 ^ 1024 \<le> \<bar>?v\<bar>"
    using small by (simp add: power_int_def)
  then have "fround x = FNum ?v"
    using False by (simp add: fround_def Let_def)
  moreover have "?v \<le> of_int b * 2 powi e" "of_int a * 2 powi e \<le> ?v"
    using upper[OF hi] lower[OF lo] s e by auto
  ultimately show ?thesis
    using small by blast
qed

text \<open>Between two integers, within the range of a billion.\<close>

lemma fround_ints:
  assumes "of_int a \<le> x" and "x \<le> of_int b" and "\<bar>x\<bar> \<le> 2 ^ 40"
  obtains v where "fround x = FNum v" "of_int a \<le> v" "v \<le> of_int b" "\<bar>v\<bar> \<le> 2 ^ 40"
proof -
  have "\<exists>v. fround x = FNum v \<and> of_int a * 2 powi 0 \<le> v \<and> v \<le> of_int b * 2 powi 0 \<and> \<bar>v\<bar> \<le> 2 powi 40"
    by (rule fround_between) (use assms in \<open>simp_all add: power_int_def\<close>)
  with that show ?thesis
    by (auto simp: power_int_def)
qed

end
