(* ===== verification/Structure_Regime.thy ===== *)
theory Structure_Regime
  imports Structure_Breakouts Technical_Causal
begin

text \<open>
\<open>app/domain/structure/divergence.py\<close>, \<open>regime.py\<close> and \<open>engine.py\<close>: volume divergence between consecutive
confirmed swings, the regime rules in their order, and the structural snapshot assembled from every
stage of the package.  \<open>structure_prefix\<close>: the dated parts of the snapshot of a shorter series are the
dated parts of the longer one's, cut at its last candle.
\<close>

section \<open>Volume divergence (divergence.py)\<close>

datatype DivergenceType = DIVERGENCE_BEARISH | DIVERGENCE_BULLISH

record DivergenceEvent =
  divergence_type :: DivergenceType
  earlier_swing :: SwingPoint
  later_swing :: SwingPoint
  earlier_volume :: flt
  later_volume :: flt
  divergence_confirmed_index :: nat
  divergence_confirmed_time :: moment
  divergence_reason :: string

record DivergenceConfig =
  volume_tolerance :: flt
  divergence_price_tolerance :: dec

definition make_divergence_config :: "flt \<Rightarrow> dec \<Rightarrow> DivergenceConfig res" where
  "make_divergence_config v p =
     (if flt_less v (FNum 0) then Inl ValueError
      else Inr \<lparr> volume_tolerance = v, divergence_price_tolerance = p \<rparr>)"

definition measure_at :: "indicator \<Rightarrow> nat \<Rightarrow> flt option" where
  "measure_at vs i = (if length vs \<le> i then None else vs ! i)"

definition divergence_text :: "string \<Rightarrow> SwingPoint \<Rightarrow> SwingPoint \<Rightarrow> flt \<Rightarrow> flt \<Rightarrow> flt \<Rightarrow> string" where
  "divergence_text headline e l ev lv change =
     headline @ '': price '' @ sci_text (swing_price e) @ '' -> '' @ sci_text (swing_price l)
       @ '', volume '' @ fixed_text 1 ev @ '' -> '' @ fixed_text 1 lv @ '' ('' @ percent_text 1 change @ '')''"

text \<open>Whether the later swing went beyond the earlier one, on its own side.\<close>

definition divergence_kind :: "SwingType \<Rightarrow> dec \<Rightarrow> (DivergenceType \<times> string) option res" where
  "divergence_kind ty delta =
     (case ty of
        SWING_HIGH \<Rightarrow> rmap (\<lambda>up. if up then Some (DIVERGENCE_BEARISH, ''higher high on lower volume'') else None) (py_less dec_zero delta)
      | SWING_LOW \<Rightarrow> rmap (\<lambda>down. if down then Some (DIVERGENCE_BULLISH, ''lower low on lower volume'') else None) (py_less delta dec_zero))"

definition compare_swings :: "DivergenceConfig \<Rightarrow> indicator \<Rightarrow> SwingPoint \<times> SwingPoint \<Rightarrow> DivergenceEvent option res" where
  "compare_swings cfg vm p =
     (case p of (e, l) \<Rightarrow>
       (case (measure_at vm (pivot_index e), measure_at vm (pivot_index l)) of
          (Some ev, Some lv) \<Rightarrow>
            (if flt_le ev (FNum 0) then Inr None
             else
               rbind (dec_sub default_context (swing_price l) (swing_price e)) (\<lambda>delta.
               rbind (py_le (dec_abs default_context delta) (divergence_price_tolerance cfg)) (\<lambda>same.
               if same then Inr None
               else
                 rbind (py_fdiv (fsub lv ev) ev) (\<lambda>change.
                 if flt_le (fneg (volume_tolerance cfg)) change then Inr None
                 else rmap (map_option (\<lambda>(kind, headline).
                        \<lparr> divergence_type = kind, earlier_swing = e, later_swing = l, earlier_volume = ev,
                          later_volume = lv, divergence_confirmed_index = swing_confirmed_index l,
                          divergence_confirmed_time = swing_confirmed_time l,
                          divergence_reason = divergence_text headline e l ev lv change \<rparr>))
                        (divergence_kind (swing_type l) delta)))))
        | _ \<Rightarrow> Inr None))"

definition consecutive :: "'a list \<Rightarrow> ('a \<times> 'a) list" where
  "consecutive xs = zip xs (tl xs)"

definition swing_pairs :: "SwingPoint list \<Rightarrow> (SwingPoint \<times> SwingPoint) list" where
  "swing_pairs ss =
     concat (map (\<lambda>ty. consecutive (sort_key pivot_index (filter (\<lambda>q. swing_type q = ty) ss))) [SWING_HIGH, SWING_LOW])"

definition detect_volume_divergence :: "DivergenceConfig \<Rightarrow> SwingPoint list \<Rightarrow> indicator \<Rightarrow> DivergenceEvent list res" where
  "detect_volume_divergence cfg ss vm =
     rmap (\<lambda>es. sort_key divergence_confirmed_index (map the (filter (\<lambda>e. e \<noteq> None) es)))
       (traverse (compare_swings cfg vm) (swing_pairs ss))"

section \<open>The regime (regime.py)\<close>

datatype MarketRegime =
    STRONG_UPTREND
  | WEAK_UPTREND
  | REGIME_RANGE
  | LOW_VOLATILITY_RANGE
  | HIGH_VOLATILITY_RANGE
  | WEAK_DOWNTREND
  | STRONG_DOWNTREND
  | BREAKOUT
  | BREAKDOWN
  | CHAOTIC
  | UNCERTAIN

fun regime_value :: "MarketRegime \<Rightarrow> string" where
  "regime_value STRONG_UPTREND = ''STRONG_UPTREND''"
| "regime_value WEAK_UPTREND = ''WEAK_UPTREND''"
| "regime_value REGIME_RANGE = ''RANGE''"
| "regime_value LOW_VOLATILITY_RANGE = ''LOW_VOLATILITY_RANGE''"
| "regime_value HIGH_VOLATILITY_RANGE = ''HIGH_VOLATILITY_RANGE''"
| "regime_value WEAK_DOWNTREND = ''WEAK_DOWNTREND''"
| "regime_value STRONG_DOWNTREND = ''STRONG_DOWNTREND''"
| "regime_value BREAKOUT = ''BREAKOUT''"
| "regime_value BREAKDOWN = ''BREAKDOWN''"
| "regime_value CHAOTIC = ''CHAOTIC''"
| "regime_value UNCERTAIN = ''UNCERTAIN''"

definition is_trending :: "MarketRegime \<Rightarrow> bool" where
  "is_trending r \<longleftrightarrow> r \<in> {STRONG_UPTREND, WEAK_UPTREND, WEAK_DOWNTREND, STRONG_DOWNTREND}"

definition is_ranging :: "MarketRegime \<Rightarrow> bool" where
  "is_ranging r \<longleftrightarrow> r \<in> {REGIME_RANGE, LOW_VOLATILITY_RANGE, HIGH_VOLATILITY_RANGE}"

datatype VolatilityState = VOLATILITY_LOW | VOLATILITY_NORMAL | VOLATILITY_HIGH | VOLATILITY_UNKNOWN

fun volatility_value :: "VolatilityState \<Rightarrow> string" where
  "volatility_value VOLATILITY_LOW = ''LOW''"
| "volatility_value VOLATILITY_NORMAL = ''NORMAL''"
| "volatility_value VOLATILITY_HIGH = ''HIGH''"
| "volatility_value VOLATILITY_UNKNOWN = ''UNKNOWN''"

datatype EmaStack = STACK_BULLISH | STACK_BEARISH | STACK_MIXED | STACK_UNKNOWN

fun stack_value :: "EmaStack \<Rightarrow> string" where
  "stack_value STACK_BULLISH = ''BULLISH''"
| "stack_value STACK_BEARISH = ''BEARISH''"
| "stack_value STACK_MIXED = ''MIXED''"
| "stack_value STACK_UNKNOWN = ''UNKNOWN''"

record RegimeConfig =
  strong_adx :: flt
  range_adx_max :: flt
  volatility_reference_period :: nat
  high_volatility_multiple :: flt
  low_volatility_multiple :: flt
  breakout_recency :: nat
  regime_ema_fast :: nat
  regime_ema_medium :: nat
  regime_ema_slow :: nat

definition default_regime_config :: RegimeConfig where
  "default_regime_config =
     \<lparr> strong_adx = flit 25, range_adx_max = flit 20, volatility_reference_period = 100,
       high_volatility_multiple = flit (3 / 2), low_volatility_multiple = flit (7 / 10), breakout_recency = 5,
       regime_ema_fast = 9, regime_ema_medium = 20, regime_ema_slow = 50 \<rparr>"

definition regime_config_ok :: "RegimeConfig \<Rightarrow> bool" where
  "regime_config_ok c \<longleftrightarrow> \<not> flt_less (strong_adx c) (range_adx_max c) \<and> 2 \<le> volatility_reference_period c
     \<and> flt_less (FNum 0) (low_volatility_multiple c)
     \<and> flt_less (low_volatility_multiple c) (high_volatility_multiple c) \<and> 1 \<le> breakout_recency c"

record RegimeEvidence =
  ev_bias :: StructureBias
  ev_stack :: EmaStack
  ev_adx :: "flt option"
  ev_atr :: "flt option"
  ev_atr_ratio :: "flt option"
  ev_atr_ratio_median :: "flt option"
  ev_volatility_state :: VolatilityState
  ev_historical_volatility :: "flt option"
  ev_range_width_ratio :: "flt option"
  ev_recent_breakout :: "Direction option"

record RegimeAssessment =
  regime_of :: MarketRegime
  regime_evidence :: RegimeEvidence
  regime_reason :: string
  regime_config :: RegimeConfig

text \<open>\<open>\_at\<close>: the value at the last candle, if there is one.\<close>

definition at_last :: "indicator \<Rightarrow> ValidatedCandleSeries \<Rightarrow> flt option" where
  "at_last vs s = (if series_len s = 0 then None else measure_at vs (series_len s - 1))"

definition stack_of :: "TechnicalSnapshot \<Rightarrow> ValidatedCandleSeries \<Rightarrow> RegimeConfig \<Rightarrow> EmaStack" where
  "stack_of t s cfg =
     (let value = (\<lambda>p. case map_of (tech_ema t) p of None \<Rightarrow> None | Some vs \<Rightarrow> at_last vs s) in
      case (value (regime_ema_fast cfg), value (regime_ema_medium cfg), value (regime_ema_slow cfg)) of
        (Some f, Some m, Some l) \<Rightarrow>
          (if flt_less m f \<and> flt_less l m then STACK_BULLISH
           else if flt_less f m \<and> flt_less m l then STACK_BEARISH else STACK_MIXED)
      | _ \<Rightarrow> STACK_UNKNOWN)"

definition trailing :: "nat \<Rightarrow> 'a list \<Rightarrow> 'a list" where
  "trailing k xs = drop (length xs - k) xs"

definition atr_ratio_history :: "ValidatedCandleSeries \<Rightarrow> indicator \<Rightarrow> nat \<Rightarrow> flt list res" where
  "atr_ratio_history s av p =
     rmap concat (traverse (\<lambda>i.
       case measure_at av i of
         None \<Rightarrow> Inr []
       | Some a \<Rightarrow> (let close = flt_of_dec (closes s ! i) in
                    if flt_less (FNum 0) close then rmap (\<lambda>q. [q]) (py_fdiv a close) else Inr []))
       (trailing p [0..<series_len s]))"

text \<open>\<open>statistics.median\<close>.\<close>

definition median_of :: "flt list \<Rightarrow> flt option res" where
  "median_of xs =
     (let ys = sort_less flt_less xs; n = length xs in
      if n = 0 then Inr None
      else if odd n then Inr (Some (ys ! (n div 2)))
      else rmap Some (py_fdiv (fadd (ys ! (n div 2 - 1)) (ys ! (n div 2))) (FNum 2)))"

definition volatility_state_of :: "flt option \<Rightarrow> flt option \<Rightarrow> RegimeConfig \<Rightarrow> VolatilityState" where
  "volatility_state_of ratio median cfg =
     (case (ratio, median) of
        (Some r, Some m) \<Rightarrow>
          (if flt_le m (FNum 0) then VOLATILITY_UNKNOWN
           else if flt_le (fmul m (high_volatility_multiple cfg)) r then VOLATILITY_HIGH
           else if flt_le r (fmul m (low_volatility_multiple cfg)) then VOLATILITY_LOW
           else VOLATILITY_NORMAL)
      | _ \<Rightarrow> VOLATILITY_UNKNOWN)"

definition range_width_ratio :: "ValidatedCandleSeries \<Rightarrow> nat \<Rightarrow> flt option res" where
  "range_width_ratio s p =
     (if series_len s = 0 then Inr None
      else
        rbind (dec_list_max (trailing p (highs s))) (\<lambda>highest.
        rbind (dec_list_min (trailing p (lows s))) (\<lambda>lowest.
        let close = flt_of_dec (last (closes s)) in
        if flt_le close (FNum 0) then Inr None
        else rbind (dec_sub default_context highest lowest) (\<lambda>width. rmap Some (py_fdiv (flt_of_dec width) close)))))"

definition recent_breakout :: "BreakoutEvent list \<Rightarrow> ValidatedCandleSeries \<Rightarrow> nat \<Rightarrow> Direction option" where
  "recent_breakout bs s recency =
     map_option breakout_direction (foldl (\<lambda>latest e.
       if breakout_type e \<noteq> BREAK_CONFIRMED \<or> series_len s \<le> breakout_confirmed_index e
          \<or> recency \<le> series_len s - 1 - breakout_confirmed_index e then latest
       else case latest of None \<Rightarrow> Some e
            | Some l \<Rightarrow> if breakout_confirmed_index l < breakout_confirmed_index e then Some e else latest) None bs)"

definition atr_ratio_of :: "flt option \<Rightarrow> ValidatedCandleSeries \<Rightarrow> flt option res" where
  "atr_ratio_of av s =
     (case av of
        None \<Rightarrow> Inr None
      | Some a \<Rightarrow> if series_len s = 0 \<or> flt_eq (flt_of_dec (last (closes s))) (FNum 0) then Inr None
                  else rmap Some (py_fdiv a (flt_of_dec (last (closes s)))))"

definition gather_evidence :: "ValidatedCandleSeries \<Rightarrow> TechnicalSnapshot \<Rightarrow> MarketStructure \<Rightarrow> BreakoutEvent list \<Rightarrow> indicator \<Rightarrow> RegimeConfig \<Rightarrow> RegimeEvidence res" where
  "gather_evidence s t m bs hv cfg =
     (let now = at_last (tech_atr t) s in
      rbind (atr_ratio_of now s) (\<lambda>ratio.
      rbind (atr_ratio_history s (tech_atr t) (volatility_reference_period cfg)) (\<lambda>ratios.
      rbind (median_of ratios) (\<lambda>median.
      rbind (range_width_ratio s (volatility_reference_period cfg)) (\<lambda>width.
        Inr \<lparr> ev_bias = structure_bias m, ev_stack = stack_of t s cfg,
              ev_adx = at_last (adx_line (tech_directional t)) s, ev_atr = now, ev_atr_ratio = ratio,
              ev_atr_ratio_median = median, ev_volatility_state = volatility_state_of ratio median cfg,
              ev_historical_volatility = at_last hv s, ev_range_width_ratio = width,
              ev_recent_breakout = recent_breakout bs s (breakout_recency cfg) \<rparr>)))))"

definition trendless_regime :: "VolatilityState \<Rightarrow> MarketRegime" where
  "trendless_regime v =
     (case v of VOLATILITY_LOW \<Rightarrow> LOW_VOLATILITY_RANGE | VOLATILITY_HIGH \<Rightarrow> HIGH_VOLATILITY_RANGE | _ \<Rightarrow> REGIME_RANGE)"

text \<open>The rules in order, each with the reason it records.\<close>

definition regime_rule :: "RegimeEvidence \<Rightarrow> RegimeConfig \<Rightarrow> MarketRegime \<times> string" where
  "regime_rule e cfg =
     (case (ev_adx e, ev_stack e) of
        (None, _) \<Rightarrow> (UNCERTAIN, ''ADX or the EMA stack is still warming up; no regime can be read yet'')
      | (_, STACK_UNKNOWN) \<Rightarrow> (UNCERTAIN, ''ADX or the EMA stack is still warming up; no regime can be read yet'')
      | (Some av, stack) \<Rightarrow>
          (case ev_recent_breakout e of
             Some d \<Rightarrow>
               (if d = LONG then BREAKOUT else BREAKDOWN,
                ''a confirmed '' @ (if d = LONG then ''upward'' else ''downward'')
                  @ '' breakout occurred within the last '' @ nat_str (breakout_recency cfg) @ '' candles'')
           | None \<Rightarrow>
               (let bias = ev_bias e; strong = flt_le (strong_adx cfg) av;
                    up = (bias = BIAS_BULLISH \<and> stack = STACK_BULLISH);
                    down = (bias = BIAS_BEARISH \<and> stack = STACK_BEARISH);
                    trendless = flt_less av (range_adx_max cfg);
                    shown = fixed_text 1 av
                in if up \<and> strong then
                     (STRONG_UPTREND, ''bullish structure and a bullish EMA stack, with ADX '' @ shown @ '' >= '' @ float_text (strong_adx cfg))
                   else if down \<and> strong then
                     (STRONG_DOWNTREND, ''bearish structure and a bearish EMA stack, with ADX '' @ shown @ '' >= '' @ float_text (strong_adx cfg))
                   else if up then
                     (WEAK_UPTREND, ''bullish structure and EMA stack, but ADX '' @ shown @ '' has not reached '' @ float_text (strong_adx cfg))
                   else if down then
                     (WEAK_DOWNTREND, ''bearish structure and EMA stack, but ADX '' @ shown @ '' has not reached '' @ float_text (strong_adx cfg))
                   else if trendless \<and> ev_volatility_state e = VOLATILITY_HIGH \<and> bias = EXPANDING then
                     (CHAOTIC, ''expanding structure (higher highs and lower lows) with high volatility and ADX ''
                        @ shown @ '' below '' @ float_text (range_adx_max cfg))
                   else if trendless \<and> \<not> bias_is_directional bias then
                     (trendless_regime (ev_volatility_state e),
                      ''no directional structure ('' @ bias_value bias @ '') and ADX '' @ shown @ '' below ''
                        @ float_text (range_adx_max cfg) @ '', volatility '' @ volatility_value (ev_volatility_state e))
                   else
                     (UNCERTAIN, ''structure ('' @ bias_value bias @ ''), EMA stack ('' @ stack_value stack @ '') and ADX ''
                        @ shown @ '' do not agree on any regime''))))"

definition classify_regime :: "ValidatedCandleSeries \<Rightarrow> TechnicalSnapshot \<Rightarrow> MarketStructure \<Rightarrow> BreakoutEvent list \<Rightarrow> indicator \<Rightarrow> RegimeConfig \<Rightarrow> RegimeAssessment res" where
  "classify_regime s t m bs hv cfg =
     rmap (\<lambda>e. \<lparr> regime_of = fst (regime_rule e cfg), regime_evidence = e,
                regime_reason = snd (regime_rule e cfg), regime_config = cfg \<rparr>)
       (gather_evidence s t m bs hv cfg)"

section \<open>The snapshot (engine.py)\<close>

record StructureConfig =
  cfg_swings :: SwingConfig
  cfg_label_tolerance :: dec
  cfg_events :: StructuralEventConfig
  cfg_zones :: ZoneConfig
  cfg_breakouts :: BreakoutConfig
  cfg_divergence :: DivergenceConfig
  cfg_regime :: RegimeConfig
  historical_volatility_period :: nat

record StructureSnapshot =
  snap_symbol :: string
  snap_candle_count :: nat
  snap_swings :: "SwingPoint list"
  snap_structure :: MarketStructure
  snap_structural_events :: "StructuralEvent list"
  support_zones :: "Zone list"
  resistance_zones :: "Zone list"
  snap_breakouts :: "BreakoutEvent list"
  snap_retests :: "RetestEvent list"
  snap_divergences :: "DivergenceEvent list"
  snap_historical_volatility :: indicator
  snap_regime :: RegimeAssessment

definition analyse_structure :: "libm \<Rightarrow> ValidatedCandleSeries \<Rightarrow> TechnicalSnapshot \<Rightarrow> StructureConfig \<Rightarrow> StructureSnapshot res" where
  "analyse_structure m s t cfg =
     (if tech_candle_count t \<noteq> series_len s then Inl ValueError
      else
        rbind (detect_swings (cfg_swings cfg) s) (\<lambda>ss.
        rbind (label_swings ss (cfg_label_tolerance cfg)) (\<lambda>st.
        rbind (detect_structural_events (cfg_events cfg) s ss) (\<lambda>es.
        rbind (build_zones (c_pow m) s ss (tech_atr t) (tech_relative_volume t) (cfg_zones cfg) None) (\<lambda>(sup, rst).
        rbind (historical_zones (c_pow m) s ss (tech_atr t) (tech_relative_volume t) (cfg_zones cfg)) (\<lambda>past.
        rbind (detect_breakouts (cfg_breakouts cfg) s past (tech_relative_volume t)) (\<lambda>bs.
        rbind (detect_retests (cfg_breakouts cfg) s bs) (\<lambda>rs.
        rbind (detect_volume_divergence (cfg_divergence cfg) ss (tech_volume_ma t)) (\<lambda>ds.
        rbind (historical_volatility m (float_column bar_close s) (historical_volatility_period cfg)) (\<lambda>hv.
        rbind (classify_regime s t st bs hv (cfg_regime cfg)) (\<lambda>rg.
          Inr \<lparr> snap_symbol = series_symbol s, snap_candle_count = series_len s, snap_swings = ss,
                snap_structure = st, snap_structural_events = es, support_zones = sup, resistance_zones = rst,
                snap_breakouts = bs, snap_retests = rs, snap_divergences = ds, snap_historical_volatility = hv,
                snap_regime = rg \<rparr>)))))))))))"
section \<open>The dated facts are never revised\<close>

lemma consecutive_simps [simp]:
  "consecutive [] = []" "consecutive [x] = []" "consecutive (x # y # ys) = (x, y) # consecutive (y # ys)"
  by (simp_all add: consecutive_def)

lemma consecutive_filter:
  assumes "sorted (map f xs)" and "\<And>x y. x \<in> set xs \<Longrightarrow> y \<in> set xs \<Longrightarrow> f x \<le> f y \<Longrightarrow> P y \<Longrightarrow> P x"
  shows "consecutive (filter P xs) = filter (\<lambda>p. P (snd p)) (consecutive xs)"
  using assms
proof (induction xs rule: induct_list012)
  case (3 x y ys)
  have IH: "consecutive (filter P (y # ys)) = filter (\<lambda>p. P (snd p)) (consecutive (y # ys))"
  proof (rule "3.IH"(2))
    show "sorted (map f (y # ys))"
      using "3.prems"(1) by simp
    show "P a" if "a \<in> set (y # ys)" "b \<in> set (y # ys)" "f a \<le> f b" "P b" for a b
      using "3.prems"(2)[of a b] that by simp
  qed
  show ?case
  proof (cases "P y")
    case True
    then show ?thesis
      using IH "3.prems" by auto
  next
    case False
    have none: "\<not> P z" if "z \<in> set ys" for z
      using "3.prems"(2)[of y z] "3.prems"(1) False that by auto
    then have "filter P (y # ys) = []"
      using False by auto
    then have "filter (\<lambda>p. P (snd p)) (consecutive (y # ys)) = []" and "filter P (x # y # ys) = (if P x then [x] else [])"
      using IH False by auto
    moreover have "filter (\<lambda>p. P (snd p)) (consecutive (x # y # ys)) = filter (\<lambda>p. P (snd p)) (consecutive (y # ys))"
      using False by simp
    ultimately show ?thesis
      by (cases "P x") (simp_all only: consecutive_simps if_True if_False)
  qed
qed auto

lemma consecutive_later: "(a, b) \<in> set (consecutive xs) \<Longrightarrow> sorted (map f xs) \<Longrightarrow> a \<in> set xs \<and> b \<in> set xs \<and> f a \<le> f b"
  by (induction xs rule: induct_list012) auto

text \<open>Every swing is confirmed the same number of candles after its pivot.\<close>

definition evenly_confirmed :: "nat \<Rightarrow> SwingPoint list \<Rightarrow> bool" where
  "evenly_confirmed k ss \<longleftrightarrow> (\<forall>q\<in>set ss. swing_confirmed_index q = pivot_index q + k)"

lemma detect_swings_evenly:
  assumes "detect_swings cfg s = Inr ss"
  shows "evenly_confirmed (swing_right cfg) ss"
proof (cases "series_len s < swing_left cfg + swing_right cfg + 1")
  case True
  then show ?thesis
    using assms by (auto simp: detect_swings_def evenly_confirmed_def)
next
  case False
  obtain qss where qss: "traverse (pivots_at cfg s) [swing_left cfg..<series_len s - swing_right cfg] = Inr qss" "ss = concat qss"
    using assms False by (auto simp: detect_swings_def rmap_Inr_iff)
  show ?thesis
    unfolding evenly_confirmed_def
  proof
    fix q
    assume "q \<in> set ss"
    then obtain qs i where "pivots_at cfg s i = Inr qs" "q \<in> set qs"
      using qss(2) traverse_set[OF qss(1)] by force
    then show "swing_confirmed_index q = pivot_index q + swing_right cfg"
      using pivots_at_index by metis
  qed
qed

lemma evenly_pivots_first: "evenly_confirmed k ss \<Longrightarrow> pivots_first ss"
  by (auto simp: evenly_confirmed_def pivots_first_def)

lemma swing_pairs_filter:
  assumes "evenly_confirmed k ss"
  shows "swing_pairs (filter (\<lambda>q. swing_confirmed_index q < n) ss)
       = filter (\<lambda>p. swing_confirmed_index (snd p) < n) (swing_pairs ss)"
proof -
  have "consecutive (sort_key pivot_index (filter (\<lambda>q. swing_type q = ty) (filter (\<lambda>q. swing_confirmed_index q < n) ss)))
      = filter (\<lambda>p. swing_confirmed_index (snd p) < n)
          (consecutive (sort_key pivot_index (filter (\<lambda>q. swing_type q = ty) ss)))" (is "?l = ?r") for ty
  proof -
    have "?l = consecutive (filter (\<lambda>q. swing_confirmed_index q < n) (sort_key pivot_index (filter (\<lambda>q. swing_type q = ty) ss)))"
      by (simp add: filter_sort conj_commute)
    also have "\<dots> = ?r"
      by (rule consecutive_filter[where f = pivot_index]) (use assms in \<open>auto simp: evenly_confirmed_def\<close>)
    finally show ?thesis .
  qed
  then show ?thesis
    by (simp add: swing_pairs_def)
qed

lemma swing_pairs_set:
  assumes "(a, b) \<in> set (swing_pairs ss)"
  shows "b \<in> set ss" "a \<in> set ss" "pivot_index a \<le> pivot_index b"
proof -
  obtain ty where "(a, b) \<in> set (consecutive (sort_key pivot_index (filter (\<lambda>q. swing_type q = ty) ss)))"
    using assms by (auto simp: swing_pairs_def)
  from consecutive_later[OF this, of pivot_index] show "b \<in> set ss" "a \<in> set ss" "pivot_index a \<le> pivot_index b"
    by auto
qed

lemma compare_swings_facts:
  assumes "compare_swings cfg vm (a, b) = Inr (Some e)"
  shows "divergence_confirmed_index e = swing_confirmed_index b"
  using assms by (auto simp: compare_swings_def rbind_Inr_iff rmap_Inr_iff split: option.splits if_splits)

lemma measure_at_take: "i < n \<Longrightarrow> measure_at (take n vs) i = measure_at vs i"
  by (auto simp: measure_at_def min_le_iff_disj)

lemma compare_swings_take:
  assumes "pivot_index a < n" and "pivot_index b < n"
  shows "compare_swings cfg (take n vm) (a, b) = compare_swings cfg vm (a, b)"
  unfolding compare_swings_def prod.case measure_at_take[OF assms(1)] measure_at_take[OF assms(2)] ..

lemma traverse_found:
  assumes "traverse f xs = Inr ys"
    and "\<And>x y. x \<in> set xs \<Longrightarrow> P x \<Longrightarrow> f x = Inr y \<Longrightarrow> g x = Inr y"
    and "\<And>x e. x \<in> set xs \<Longrightarrow> f x = Inr (Some e) \<Longrightarrow> Q e \<longleftrightarrow> P x"
  shows "\<exists>zs. traverse g (filter P xs) = Inr zs
    \<and> map the (filter (\<lambda>e. e \<noteq> None) zs) = filter Q (map the (filter (\<lambda>e. e \<noteq> None) ys))"
  using assms
proof (induction xs arbitrary: ys)
  case (Cons x xs)
  obtain y r where y: "f x = Inr y" "traverse f xs = Inr r" "ys = y # r"
    using Cons.prems(1) by (auto simp: res_simps)
  obtain zs where zs: "traverse g (filter P xs) = Inr zs"
    "map the (filter (\<lambda>e. e \<noteq> None) zs) = filter Q (map the (filter (\<lambda>e. e \<noteq> None) r))"
    using Cons.IH[OF y(2)] Cons.prems(2,3) by force
  have "P x \<Longrightarrow> g x = Inr y"
    using Cons.prems(2) y(1) by simp
  moreover have "y = Some e \<Longrightarrow> Q e \<longleftrightarrow> P x" for e
    using Cons.prems(3) y(1) by simp
  ultimately show ?case
    using zs y by (cases "P x"; cases y) (auto simp: res_simps)
qed simp

lemma divergence_take:
  assumes found: "detect_volume_divergence cfg ss vm = Inr ds" and even: "evenly_confirmed k ss"
  shows "detect_volume_divergence cfg (filter (\<lambda>q. swing_confirmed_index q < n) ss) (take n vm)
       = Inr (filter (\<lambda>d. divergence_confirmed_index d < n) ds)"
proof -
  obtain ys where ys: "traverse (compare_swings cfg vm) (swing_pairs ss) = Inr ys"
    "ds = sort_key divergence_confirmed_index (map the (filter (\<lambda>e. e \<noteq> None) ys))"
    using found by (auto simp: detect_volume_divergence_def rmap_Inr_iff)
  have "\<exists>zs. traverse (compare_swings cfg (take n vm)) (filter (\<lambda>p. swing_confirmed_index (snd p) < n) (swing_pairs ss)) = Inr zs
    \<and> map the (filter (\<lambda>e. e \<noteq> None) zs)
      = filter (\<lambda>d. divergence_confirmed_index d < n) (map the (filter (\<lambda>e. e \<noteq> None) ys))"
  proof (rule traverse_found[OF ys(1)])
    fix p y
    assume p: "p \<in> set (swing_pairs ss)"
    obtain a b where ab: "p = (a, b)"
      by (cases p)
    note in_ss = swing_pairs_set[OF p[unfolded ab]]
    show "compare_swings cfg (take n vm) p = Inr y" if "swing_confirmed_index (snd p) < n" "compare_swings cfg vm p = Inr y"
      using that in_ss even unfolding ab by (subst compare_swings_take) (auto simp: evenly_confirmed_def)
    show "divergence_confirmed_index e < n \<longleftrightarrow> swing_confirmed_index (snd p) < n" if "compare_swings cfg vm p = Inr (Some e)" for e
      using compare_swings_facts that unfolding ab by simp
  qed
  then show ?thesis
    by (auto simp: detect_volume_divergence_def swing_pairs_filter[OF even] ys(2) filter_sort)
qed
lemma structure_prefix:
  assumes t: "compute_technicals m s tcfg = Inr t" and snap: "analyse_structure m s t cfg = Inr snap"
    and n: "n \<le> series_len s" and early: "analyse_structure m (series_take n s) (tech_take n t) cfg = Inr early"
  shows "snap_swings early = filter (\<lambda>q. swing_confirmed_index q < n) (snap_swings snap)"
    "snap_structural_events early = filter (\<lambda>e. event_confirmed_index e < n) (snap_structural_events snap)"
    "snap_breakouts early = filter (\<lambda>e. breakout_confirmed_index e < n) (snap_breakouts snap)"
    "snap_retests early = filter (\<lambda>e. retest_confirmed_index e < n) (snap_retests snap)"
    "snap_divergences early = filter (\<lambda>d. divergence_confirmed_index d < n) (snap_divergences snap)"
    "snap_historical_volatility early = take n (snap_historical_volatility snap)"
proof -
  obtain ss es past bs rs ds hv where full:
    "detect_swings (cfg_swings cfg) s = Inr ss" "detect_structural_events (cfg_events cfg) s ss = Inr es"
    "historical_zones (c_pow m) s ss (tech_atr t) (tech_relative_volume t) (cfg_zones cfg) = Inr past"
    "detect_breakouts (cfg_breakouts cfg) s past (tech_relative_volume t) = Inr bs"
    "detect_retests (cfg_breakouts cfg) s bs = Inr rs"
    "detect_volume_divergence (cfg_divergence cfg) ss (tech_volume_ma t) = Inr ds"
    "historical_volatility m (float_column bar_close s) (historical_volatility_period cfg) = Inr hv"
    "snap_swings snap = ss" "snap_structural_events snap = es" "snap_breakouts snap = bs" "snap_retests snap = rs"
    "snap_divergences snap = ds" "snap_historical_volatility snap = hv"
    using snap by (auto simp: analyse_structure_def rbind_Inr_iff split: if_splits prod.splits)
  note even = detect_swings_evenly[OF full(1)]
  have later:
    "detect_swings (cfg_swings cfg) (series_take n s) = Inr (filter (\<lambda>q. swing_confirmed_index q < n) ss)"
    "detect_structural_events (cfg_events cfg) (series_take n s) (filter (\<lambda>q. swing_confirmed_index q < n) ss)
      = Inr (filter (\<lambda>e. event_confirmed_index e < n) es)"
    "historical_zones (c_pow m) (series_take n s) (filter (\<lambda>q. swing_confirmed_index q < n) ss) (take n (tech_atr t))
       (take n (tech_relative_volume t)) (cfg_zones cfg) = Inr (filter (\<lambda>z. zone_confirmed_index z < n) past)"
    "detect_breakouts (cfg_breakouts cfg) (series_take n s) (filter (\<lambda>z. zone_confirmed_index z < n) past)
       (take n (tech_relative_volume t)) = Inr (filter (\<lambda>e. breakout_confirmed_index e < n) bs)"
    "detect_retests (cfg_breakouts cfg) (series_take n s) (filter (\<lambda>e. breakout_confirmed_index e < n) bs)
      = Inr (filter (\<lambda>e. retest_confirmed_index e < n) rs)"
    "detect_volume_divergence (cfg_divergence cfg) (filter (\<lambda>q. swing_confirmed_index q < n) ss) (take n (tech_volume_ma t))
      = Inr (filter (\<lambda>d. divergence_confirmed_index d < n) ds)"
    "historical_volatility m (float_column bar_close (series_take n s)) (historical_volatility_period cfg) = Inr (take n hv)"
    using detect_swings_take[OF full(1) n] structural_events_take[OF full(2) n]
      historical_zones_take[OF full(3) evenly_pivots_first[OF even] n] detect_breakouts_take[OF full(4) n]
      detect_retests_take[OF full(5) n] divergence_take[OF full(6) even]
      causal_onD(2)[OF causal_historical_volatility full(7)] n
    by (simp_all add: float_column_take)
  have "tech_atr (tech_take n t) = take n (tech_atr t)" "tech_relative_volume (tech_take n t) = take n (tech_relative_volume t)"
    "tech_volume_ma (tech_take n t) = take n (tech_volume_ma t)"
    by (simp_all add: tech_take_def)
  note same = this
  show "snap_swings early = filter (\<lambda>q. swing_confirmed_index q < n) (snap_swings snap)"
    "snap_structural_events early = filter (\<lambda>e. event_confirmed_index e < n) (snap_structural_events snap)"
    "snap_breakouts early = filter (\<lambda>e. breakout_confirmed_index e < n) (snap_breakouts snap)"
    "snap_retests early = filter (\<lambda>e. retest_confirmed_index e < n) (snap_retests snap)"
    "snap_divergences early = filter (\<lambda>d. divergence_confirmed_index d < n) (snap_divergences snap)"
    "snap_historical_volatility early = take n (snap_historical_volatility snap)"
    using early unfolding full(8-)
    by (auto simp: analyse_structure_def rbind_Inr_iff later same split: if_splits prod.splits)
qed
end
