(* ===== verification/Structure_Props.thy ===== *)
theory Structure_Props
  imports Structure_Regime Float_Exact
begin

text \<open>
C39 and its concrete run: a series, the indicators and the structure computed from it, and the same of
its first candles.  The float and indicator evaluation rules (\<open>float_eval\<close>, \<open>tech_eval\<close>) carry the run.
\<close>

text \<open>
C39: Nothing dated is ever revised.  Compute the indicators and the structure of a series, and compute
them again of its first \<open>n\<close> candles, with the same settings: the swings, the structural events, the
breakouts, the retests and the divergences of the shorter series are exactly those of the full one
whose confirmation index is before \<open>n\<close>, in the same order, and its historical volatility is the first \<open>n\<close>
values of the full one.  A candle that arrives later adds events and takes none back.
\<close>

theorem structure_never_revises:
  assumes "compute_technicals m s tcfg = Inr t" and "analyse_structure m s t cfg = Inr snap"
    and "n \<le> series_len s"
    and "compute_technicals m (series_take n s) tcfg = Inr t'" and "analyse_structure m (series_take n s) t' cfg = Inr early"
  shows "snap_swings early = filter (\<lambda>q. swing_confirmed_index q < n) (snap_swings snap)
    \<and> snap_structural_events early = filter (\<lambda>e. event_confirmed_index e < n) (snap_structural_events snap)
    \<and> snap_breakouts early = filter (\<lambda>e. breakout_confirmed_index e < n) (snap_breakouts snap)
    \<and> snap_retests early = filter (\<lambda>e. retest_confirmed_index e < n) (snap_retests snap)
    \<and> snap_divergences early = filter (\<lambda>d. divergence_confirmed_index d < n) (snap_divergences snap)
    \<and> snap_historical_volatility early = take n (snap_historical_volatility snap)"
proof -
  have "t' = tech_take n t"
    using technicals_take[OF assms(1,3)] assms(4) by simp
  from structure_prefix[OF assms(1,2,3) assms(5)[unfolded this]] show ?thesis
    by blast
qed


text \<open>A concrete run: four five-minute candles, a high at the second that the fourth closes above.\<close>

definition sample_bar :: "nat \<Rightarrow> nat \<Rightarrow> nat \<Rightarrow> Candle" where
  "sample_bar i close vol =
     \<lparr> bar_symbol = ''F_XU030'', bar_timeframe = M5, open_time = Aware (300000000 * int i) 0,
       bar_open = DFin False close 0, bar_high = DFin False (close + 1) 0, bar_low = DFin False (close - 1) 0,
       bar_close = DFin False close 0, bar_volume = DFin False vol 0, is_closed = True, open_interest = None \<rparr>"

definition sample_series :: ValidatedCandleSeries where
  "sample_series =
     \<lparr> series_candles = [sample_bar 0 8 1, sample_bar 1 16 1, sample_bar 2 8 2, sample_bar 3 32 4],
       series_symbol = ''F_XU030'', series_timeframe = M5 \<rparr>"

definition sample_libm :: libm where
  "sample_libm = \<lparr> c_pow = (\<lambda>x y. FNum 1), c_sqrt = (\<lambda>x. x), c_log = (\<lambda>x. fsub x (FNum 1)) \<rparr>"

definition sample_structure_config :: StructureConfig where
  "sample_structure_config =
     \<lparr> cfg_swings = \<lparr> swing_left = 1, swing_right = 1, use_wicks = True \<rparr>, cfg_label_tolerance = dec_zero,
       cfg_events = \<lparr> break_confirmation = BREAK_CLOSE, breach_tolerance = dec_zero, event_label_tolerance = dec_zero \<rparr>,
       cfg_zones = default_zone_config, cfg_breakouts = default_breakout_config,
       cfg_divergence = \<lparr> volume_tolerance = flit (5 / 100), divergence_price_tolerance = dec_zero \<rparr>,
       cfg_regime = default_regime_config, historical_volatility_period = 20 \<rparr>"

lemmas float_eval = flit_def flt_of_int_def fround_numerals fround_binary fround_eighths py_fdiv_def flt_is_finite_def flt_is_inf_def
  fsub_def py_fmax_def

lemma sample_columns:
  "float_column bar_close sample_series = [FNum 8, FNum 16, FNum 8, FNum 32]"
  "float_column bar_high sample_series = [FNum 9, FNum 17, FNum 9, FNum 33]"
  "float_column bar_low sample_series = [FNum 7, FNum 15, FNum 7, FNum 31]"
  "float_column bar_volume sample_series = [FNum 1, FNum 1, FNum 2, FNum 4]"
  by (simp_all add: float_column_def sample_series_def sample_bar_def fround_numerals)

abbreviation no_values :: "nat \<Rightarrow> indicator" where
  "no_values n \<equiv> replicate n None"

lemma smoothed_short:
  "1 \<le> p \<Longrightarrow> list_all flt_is_finite xs \<Longrightarrow> length xs < p \<Longrightarrow> py_fdiv a (flt_of_int (int b)) = Inr q \<Longrightarrow>
     smoothed_by a b xs p = Inr (replicate (length xs) None)"
  by (simp add: smoothed_by_def require_period_def require_finite_def recursive_average_def)

lemma rolling_short: "length xs < p \<Longrightarrow> rolling f p xs = Inr (replicate (length xs) None)"
proof -
  assume "length xs < p"
  then have "traverse (\<lambda>i. if Suc i < p then Inr None else rmap Some (f (window_at p i xs))) [0..<length xs]
      = traverse (\<lambda>i. Inr None) [0..<length xs]"
    by (intro traverse_cong) auto
  moreover have "traverse (\<lambda>i. Inr None :: flt option res) ks = Inr (replicate (length ks) None)" for ks :: "nat list"
    by (induction ks) simp_all
  ultimately show ?thesis
    by (simp add: rolling_def)
qed

lemmas tech_eval = ema_def wilder_def smoothed_by_def require_period_def require_finite_def recursive_average_def sma_def
  rolling_short rsi_def steps_def rsi_value_def pad_values_def macd_def smooth_defined_def minus_defined_def same_length_def
  range_step_def true_range_def atr_def bollinger_bands_def band_def rolling_population_stdev_def log_returns_def
  historical_volatility_def dominant_move_def up_move_def down_move_def di_values_def adx_def require_non_negative_def
  volume_moving_average_def relative_volume_def acceleration_step_def volume_acceleration_def utc_day_def daily_anchors_def
  typical_prices_def empty_accumulator_def accumulate_def accumulated_def vwap_def per_period_def

lemma sample_technicals:
  "\<exists>t. compute_technicals sample_libm sample_series default_technical_config = Inr t \<and> tech_candle_count t = 4
    \<and> tech_atr t = [None, None, None, None] \<and> tech_relative_volume t = [None, None, None, None]
    \<and> tech_volume_ma t = [None, None, None, None] \<and> adx_line (tech_directional t) = [None, None, None, None]
    \<and> tech_ema t = map (\<lambda>p. (p, [None, None, None, None])) [9, 20, 50, 200]"
proof -
  have "series_len sample_series = 4" "daily_anchors (open_times sample_series) = Inr [0]"
    by (simp_all add: sample_series_def sample_bar_def series_len_def daily_anchors_def utc_day_def minute_def)
  then show ?thesis
    unfolding compute_technicals_def Let_def sample_columns
    by (simp add: tech_eval float_eval Let_def default_technical_config_def)
qed
lemma sample_facts:
  "series_len sample_series = 4" "series_symbol sample_series = ''F_XU030''"
  "highs sample_series = [DFin False 9 0, DFin False 17 0, DFin False 9 0, DFin False 33 0]"
  "lows sample_series = [DFin False 7 0, DFin False 15 0, DFin False 7 0, DFin False 31 0]"
  "closes sample_series = [DFin False 8 0, DFin False 16 0, DFin False 8 0, DFin False 32 0]"
  "open_times sample_series = [Aware 0 0, Aware 300000000 0, Aware 600000000 0, Aware 900000000 0]"
  by (simp_all add: sample_series_def sample_bar_def series_len_def)

definition sample_high :: SwingPoint where
  "sample_high = \<lparr> swing_type = SWING_HIGH, pivot_index = 1, pivot_time = Aware 300000000 0, swing_price = DFin False 17 0,
     swing_confirmed_index = 2, swing_confirmed_time = Aware 600000000 0 \<rparr>"

definition sample_low :: SwingPoint where
  "sample_low = \<lparr> swing_type = SWING_LOW, pivot_index = 2, pivot_time = Aware 600000000 0, swing_price = DFin False 7 0,
     swing_confirmed_index = 3, swing_confirmed_time = Aware 900000000 0 \<rparr>"

lemma sample_swings:
  "detect_swings (cfg_swings sample_structure_config) sample_series = Inr [sample_high, sample_low]"
proof -
  have "[1..<4 - 1 :: nat] = [1, 2]"
    by (simp add: upt_rec)
  then show ?thesis
    by (simp add: detect_swings_def sample_structure_config_def sample_facts pivots_at_def is_pivot_high_def is_pivot_low_def
        is_pivot_def swing_highs_def swing_lows_def swing_at_def sample_high_def sample_low_def py_less_finite py_le_finite
        upt_rec numeral_2_eq_2 numeral_3_eq_3)
qed

lemma sample_labels:
  "\<exists>st. label_swings [sample_high, sample_low] dec_zero = Inr st \<and> structure_bias st = INSUFFICIENT"
  "\<exists>st. label_swings [sample_high] dec_zero = Inr st \<and> structure_bias st = INSUFFICIENT"
  by (simp_all add: label_swings_def label_step_def label_high_def label_low_def label_of_def sample_high_def sample_low_def
      swing_order_def last_labelled_def derive_bias_def Let_def)

lemma sample_swing_fields:
  "swing_type sample_high = SWING_HIGH" "pivot_index sample_high = 1" "swing_confirmed_index sample_high = 2"
  "swing_price sample_high = DFin False 17 0" "swing_type sample_low = SWING_LOW" "pivot_index sample_low = 2"
  "swing_confirmed_index sample_low = 3" "swing_price sample_low = DFin False 7 0"
  by (simp_all add: sample_high_def sample_low_def)

lemma sample_levels:
  "dec_add default_context (DFin False 17 0) dec_zero = Inr (DFin False 17 0)"
  "dec_sub default_context (DFin False 7 0) dec_zero = Inr (DFin False 7 0)"
  by (simp_all add: dec_eval dec_zero_def dec_sub_def fin_add_def dec_fix_def default_context_def Let_def scaled_def signed_def)

lemma sample_events:
  "\<exists>e. detect_structural_events (cfg_events sample_structure_config) sample_series [sample_high, sample_low] = Inr [e]
    \<and> event_confirmed_index e = 3 \<and> event_type e = LEVEL_BREAK"
proof -
  let ?c = "cfg_events sample_structure_config" and ?ss = "[sample_high, sample_low]"
  obtain st st' where st: "label_swings [sample_high, sample_low] dec_zero = Inr st" "structure_bias st = INSUFFICIENT"
    "label_swings [sample_high] dec_zero = Inr st'" "structure_bias st' = INSUFFICIENT"
    using sample_labels by blast
  note step = event_step_def swings_known_at_def sample_swing_fields sample_facts sample_structure_config_def
    break_high_def break_low_def latest_unbroken_def probe_high_def probe_low_def broke_above_def broke_below_def
    sample_levels py_less_finite empty_walk_def st
  have "event_step ?c sample_series ?ss empty_walk 0 = Inr empty_walk"
    "event_step ?c sample_series ?ss empty_walk 1 = Inr empty_walk"
    "event_step ?c sample_series ?ss empty_walk 2 = Inr empty_walk"
    by (simp_all add: step)
  moreover have "\<exists>t. event_step ?c sample_series ?ss empty_walk 3
      = Inr (empty_walk\<lparr>broken_highs := [1], walk_events := [build_event ?c LONG sample_high INSUFFICIENT 3 t (DFin False 32 0)]\<rparr>)"
    by (rule exI[of _ "Aware 900000000 0"]) (simp add: step)
  moreover have "[0..<4 :: nat] = [0, 1, 2, 3]"
    by (simp add: upt_rec)
  ultimately show ?thesis
    by (auto simp: detect_structural_events_def sample_facts empty_walk_def bias_is_directional_def)
qed
lemma no_scale: "last_defined (no_values n) k = None"
  by (simp add: last_defined_def take_replicate rev_replicate)

lemma no_zones: "build_zones pow s ss (no_values n) rv cfg as_of = Inr ([], [])"
  by (simp add: build_zones_def no_scale Let_def)

lemma no_past: "historical_zones pow s ss (no_values n) rv cfg = Inr []"
proof -
  have "run_all (checkpoint_step pow s ss (no_values n) rv cfg) h ks = Inr h" for h ks
    by (induction ks) (simp_all add: checkpoint_step_def no_zones)
  then show ?thesis
    by (simp add: historical_zones_def)
qed

lemma no_measure: "measure_at (no_values n) i = None"
  by (simp add: measure_at_def)

lemma warming_regime:
  assumes "range_width_ratio s 100 = Inr w" and "adx_line (tech_directional t) = no_values n" and "tech_atr t = no_values n"
  shows "\<exists>rg. classify_regime s t st bs hv default_regime_config = Inr rg"
proof -
  have "traverse (\<lambda>i. Inr [] :: flt list res) ks = Inr (replicate (length ks) [])" for ks :: "nat list"
    by (induction ks) simp_all
  then have "atr_ratio_history s (tech_atr t) 100 = Inr []"
    by (simp add: atr_ratio_history_def assms(3) no_measure)
  then show ?thesis
    using assms by (simp add: classify_regime_def gather_evidence_def at_last_def no_measure atr_ratio_of_def median_of_def
        default_regime_config_def)
qed

lemma sample_widths:
  "range_width_ratio sample_series 100 = Inr (Some (FNum (13 / 16)))"
  "range_width_ratio (series_take 3 sample_series) 100 = Inr (Some (FNum (5 / 4)))"
  by (simp_all add: range_width_ratio_def sample_facts trailing_def py_less_finite float_eval take_map[symmetric]
      dec_eval dec_sub_def fin_add_def dec_fix_def default_context_def scaled_def signed_def Let_def)
lemma sample_quiet:
  "detect_breakouts cfg s [] rv = Inr []" "detect_retests cfg s [] = Inr []"
  "detect_volume_divergence dcfg [sample_high, sample_low] vm = Inr []" "detect_volume_divergence dcfg [sample_high] vm = Inr []"
  by (simp_all add: detect_breakouts_def detect_retests_def detect_volume_divergence_def swing_pairs_def sample_swing_fields)

lemma sample_volatility: "\<exists>hv. historical_volatility sample_libm (float_column bar_close sample_series) 20 = Inr hv"
  unfolding sample_columns by (simp add: tech_eval float_eval py_log_def sample_libm_def)

theorem structure_never_revises_witness:
  "\<exists>t snap t' early. compute_technicals sample_libm sample_series default_technical_config = Inr t
    \<and> analyse_structure sample_libm sample_series t sample_structure_config = Inr snap
    \<and> compute_technicals sample_libm (series_take 3 sample_series) default_technical_config = Inr t'
    \<and> analyse_structure sample_libm (series_take 3 sample_series) t' sample_structure_config = Inr early
    \<and> snap_swings snap = [sample_high, sample_low] \<and> length (snap_structural_events snap) = 1
    \<and> snap_swings early = [sample_high] \<and> snap_structural_events early = []"
proof -
  let ?c = sample_structure_config
  obtain t where t: "compute_technicals sample_libm sample_series default_technical_config = Inr t"
    "tech_candle_count t = 4" "tech_atr t = no_values 4" "adx_line (tech_directional t) = no_values 4"
    using sample_technicals by (auto simp: numeral_eq_Suc)
  have t3: "compute_technicals sample_libm (series_take 3 sample_series) default_technical_config = Inr (tech_take 3 t)"
    by (rule technicals_take[OF t(1)]) (simp add: sample_facts)
  obtain e where e: "detect_structural_events (cfg_events ?c) sample_series [sample_high, sample_low] = Inr [e]" "event_confirmed_index e = 3"
    using sample_events by blast
  obtain st st' where st: "label_swings [sample_high, sample_low] dec_zero = Inr st" "label_swings [sample_high] dec_zero = Inr st'"
    using sample_labels by blast
  obtain hv where hv: "historical_volatility sample_libm (float_column bar_close sample_series) 20 = Inr hv"
    using sample_volatility by blast
  have short: "detect_swings (cfg_swings ?c) (series_take 3 sample_series) = Inr [sample_high]"
    "detect_structural_events (cfg_events ?c) (series_take 3 sample_series) [sample_high] = Inr []"
    "historical_volatility sample_libm (float_column bar_close (series_take 3 sample_series)) 20 = Inr (take 3 hv)"
    using detect_swings_take[OF sample_swings, of 3] structural_events_take[OF e(1), of 3] e(2)
      causal_onD(2)[OF causal_historical_volatility hv, of 3]
    by (simp_all add: sample_facts sample_swing_fields float_column_take)
  obtain rg where rg: "classify_regime sample_series t st [] hv default_regime_config = Inr rg"
    using warming_regime[OF sample_widths(1) t(4,3)] by blast
  have "adx_line (tech_directional (tech_take 3 t)) = no_values 3" "tech_atr (tech_take 3 t) = no_values 3"
    using t(3,4) by (simp_all add: tech_take_def directional_take_def take_replicate)
  from warming_regime[OF sample_widths(2) this] obtain rg' where
    rg': "classify_regime (series_take 3 sample_series) (tech_take 3 t) st' [] (take 3 hv) default_regime_config = Inr rg'"
    by blast
  have cfg: "cfg_label_tolerance ?c = dec_zero" "historical_volatility_period ?c = 20" "cfg_regime ?c = default_regime_config"
    by (simp_all add: sample_structure_config_def)
  obtain snap where snap: "analyse_structure sample_libm sample_series t ?c = Inr snap"
    "snap_swings snap = [sample_high, sample_low]" "snap_structural_events snap = [e]"
    using t(2,3) sample_swings e(1) st hv rg
    by (simp add: analyse_structure_def sample_facts no_zones no_past sample_quiet cfg)
  obtain early where early: "analyse_structure sample_libm (series_take 3 sample_series) (tech_take 3 t) ?c = Inr early"
    using t(2,3) short st rg'
    by (simp add: analyse_structure_def sample_facts no_zones no_past sample_quiet cfg tech_take_def)
  have "snap_swings early = [sample_high]" "snap_structural_events early = []"
    using structure_never_revises[OF t(1) snap(1) _ t3 early] snap e(2)
    by (simp_all add: sample_facts sample_swing_fields)
  with t(1) t3 snap early show ?thesis
    by auto
qed
end
