(* ===== verification/Analysis_Model.thy ===== *)
theory Analysis_Model
  imports Structure_Regime
begin

text \<open>
\<open>app/domain/analysis/timeframes.py\<close> and \<open>evidence.py\<close>: the roles, the role policy, one timeframe's view and
the validated set of views, and the vocabulary of evidence.  The reasons and error messages, which are
texts for a reader, are left out of the records.  \<open>build_views_facts\<close>: what an accepted set of views
guarantees.
\<close>

section \<open>Roles and views (timeframes.py)\<close>

datatype TimeframeRole = ROLE_REGIME | ROLE_BIAS | ROLE_SETUP | ROLE_ENTRY

fun role_rank :: "TimeframeRole \<Rightarrow> nat" where
  "role_rank ROLE_REGIME = 0"
| "role_rank ROLE_BIAS = 1"
| "role_rank ROLE_SETUP = 2"
| "role_rank ROLE_ENTRY = 3"

definition ROLES_BROADEST_FIRST :: "TimeframeRole list" where
  "ROLES_BROADEST_FIRST = [ROLE_REGIME, ROLE_BIAS, ROLE_SETUP, ROLE_ENTRY]"

record TimeframeRolePolicy =
  policy_regime :: Timeframe
  policy_bias :: Timeframe
  policy_setup :: Timeframe
  policy_entry :: Timeframe

definition default_role_policy :: TimeframeRolePolicy where
  "default_role_policy = \<lparr> policy_regime = D1, policy_bias = H1, policy_setup = M15, policy_entry = M5 \<rparr>"

fun timeframe_for :: "TimeframeRolePolicy \<Rightarrow> TimeframeRole \<Rightarrow> Timeframe" where
  "timeframe_for p ROLE_REGIME = policy_regime p"
| "timeframe_for p ROLE_BIAS = policy_bias p"
| "timeframe_for p ROLE_SETUP = policy_setup p"
| "timeframe_for p ROLE_ENTRY = policy_entry p"

definition mtf :: "MultiTimeframeIssue \<Rightarrow> 'a res" where
  "mtf i = Inl (MultiTimeframeError i)"

text \<open>Four distinct timeframes, each strictly faster than the role above it.\<close>

definition make_role_policy :: "TimeframeRolePolicy \<Rightarrow> TimeframeRolePolicy res" where
  "make_role_policy p =
     (let ordered = map (timeframe_for p) ROLES_BROADEST_FIRST in
      if \<not> distinct ordered then mtf MTF_INVALID_POLICY
      else if list_ex (\<lambda>(broader, narrower). minutes broader \<le> minutes narrower) (zip ordered (tl ordered))
           then mtf MTF_INVALID_POLICY
      else Inr p)"

definition role_for :: "TimeframeRolePolicy \<Rightarrow> Timeframe \<Rightarrow> TimeframeRole option" where
  "role_for p tf = find (\<lambda>r. timeframe_for p r = tf) ROLES_BROADEST_FIRST"

record TimeframeView =
  view_role :: TimeframeRole
  view_series :: ValidatedCandleSeries
  view_technicals :: TechnicalSnapshot
  view_structure :: StructureSnapshot

definition make_timeframe_view :: "TimeframeView \<Rightarrow> TimeframeView res" where
  "make_timeframe_view v =
     (if \<not> (series_len (view_series v) = tech_candle_count (view_technicals v)
             \<and> series_len (view_series v) = snap_candle_count (view_structure v)) then mtf MTF_INCOMPLETE_INPUT
      else if \<not> (series_symbol (view_series v) = tech_symbol (view_technicals v)
                  \<and> series_symbol (view_series v) = snap_symbol (view_structure v)) then mtf MTF_INCOMPLETE_INPUT
      else if series_len (view_series v) = 0 then mtf MTF_INCOMPLETE_INPUT
      else Inr v)"

definition view_timeframe :: "TimeframeView \<Rightarrow> Timeframe" where
  "view_timeframe v = series_timeframe (view_series v)"

definition view_symbol :: "TimeframeView \<Rightarrow> string" where
  "view_symbol v = series_symbol (view_series v)"

definition last_index :: "TimeframeView \<Rightarrow> nat" where
  "last_index v = series_len (view_series v) - 1"

definition last_time :: "TimeframeView \<Rightarrow> moment" where
  "last_time v = open_time (last (series_candles (view_series v)))"

definition last_close :: "TimeframeView \<Rightarrow> dec" where
  "last_close v = bar_close (last (series_candles (view_series v)))"

record MultiTimeframeView =
  multi_symbol :: string
  multi_policy :: TimeframeRolePolicy
  multi_views :: "TimeframeView list"

definition view_for :: "MultiTimeframeView \<Rightarrow> TimeframeRole \<Rightarrow> TimeframeView option" where
  "view_for m r = find (\<lambda>v. view_role v = r) (multi_views m)"

definition present_roles :: "MultiTimeframeView \<Rightarrow> TimeframeRole list" where
  "present_roles m = map view_role (multi_views m)"

definition missing_roles :: "MultiTimeframeView \<Rightarrow> TimeframeRole list" where
  "missing_roles m = filter (\<lambda>r. r \<notin> set (present_roles m)) ROLES_BROADEST_FIRST"

definition is_complete :: "MultiTimeframeView \<Rightarrow> bool" where
  "is_complete m = (missing_roles m = [])"

text \<open>\<open>MultiTimeframeView.build\<close>: the checks in their order, and the views sorted by role at the end.\<close>

definition build_views :: "TimeframeView list \<Rightarrow> TimeframeRolePolicy \<Rightarrow> MultiTimeframeView res" where
  "build_views vs p =
     (if vs = [] then mtf MTF_INCOMPLETE_INPUT
      else if \<not> distinct (map view_role vs) then mtf MTF_DUPLICATE_ROLE
      else if \<not> distinct (map view_timeframe vs) then mtf MTF_DUPLICATE_TIMEFRAME
      else if list_ex (\<lambda>v. view_timeframe v \<noteq> timeframe_for p (view_role v)) vs then mtf MTF_SWAPPED_TIMEFRAME
      else if length (remdups (map view_symbol vs)) \<noteq> 1 then mtf MTF_SYMBOL_MISMATCH
      else Inr \<lparr> multi_symbol = view_symbol (hd vs), multi_policy = p,
                 multi_views = sort_key (\<lambda>v. role_rank (view_role v)) vs \<rparr>)"

section \<open>The evidence vocabulary (evidence.py)\<close>

datatype EvidenceDirection = EV_BULLISH | EV_BEARISH | EV_NEUTRAL | EV_UNAVAILABLE

definition is_directional :: "EvidenceDirection \<Rightarrow> bool" where
  "is_directional d = (d \<in> {EV_BULLISH, EV_BEARISH})"

fun opposite :: "EvidenceDirection \<Rightarrow> EvidenceDirection" where
  "opposite EV_BULLISH = EV_BEARISH"
| "opposite EV_BEARISH = EV_BULLISH"
| "opposite d = d"

definition opposes :: "EvidenceDirection \<Rightarrow> EvidenceDirection \<Rightarrow> bool" where
  "opposes a b = (is_directional a \<and> is_directional b \<and> a \<noteq> b)"

datatype EvidenceStrength = EV_WEAK | EV_MODERATE | EV_STRONG

fun strength_rank :: "EvidenceStrength \<Rightarrow> nat" where
  "strength_rank EV_WEAK = 1"
| "strength_rank EV_MODERATE = 2"
| "strength_rank EV_STRONG = 3"

definition at_least :: "EvidenceStrength \<Rightarrow> EvidenceStrength \<Rightarrow> bool" where
  "at_least s t = (strength_rank t \<le> strength_rank s)"

datatype EvidenceCategory =
    CAT_TREND
  | CAT_STRUCTURE
  | CAT_REGIME
  | CAT_MOMENTUM
  | CAT_INTRADAY
  | CAT_LEVEL
  | CAT_BREAKOUT
  | CAT_RETEST
  | CAT_VOLUME
  | CAT_DIVERGENCE
  | CAT_BASIS
  | CAT_OPEN_INTEREST

text \<open>\<open>for category in EvidenceCategory\<close>: the order of declaration.\<close>

definition all_categories :: "EvidenceCategory list" where
  "all_categories =
     [CAT_TREND, CAT_STRUCTURE, CAT_REGIME, CAT_MOMENTUM, CAT_INTRADAY, CAT_LEVEL, CAT_BREAKOUT, CAT_RETEST,
      CAT_VOLUME, CAT_DIVERGENCE, CAT_BASIS, CAT_OPEN_INTEREST]"

datatype EvidenceSource =
    SRC_EMA_ALIGNMENT
  | SRC_MARKET_STRUCTURE
  | SRC_STRUCTURAL_EVENT
  | SRC_MARKET_REGIME
  | SRC_MOMENTUM
  | SRC_VWAP
  | SRC_SUPPORT_RESISTANCE
  | SRC_BREAKOUT
  | SRC_BREAKOUT_VOLUME
  | SRC_RETEST
  | SRC_VOLUME_DIVERGENCE
  | SRC_BASIS
  | SRC_OPEN_INTEREST

datatype EvidenceReliability = EV_CONFIRMED | EV_PROVISIONAL | EV_UNVERIFIED_SOURCE

record EvidenceItem =
  item_source :: EvidenceSource
  item_category :: EvidenceCategory
  item_direction :: EvidenceDirection
  item_strength :: EvidenceStrength
  item_timeframe :: "Timeframe option"
  item_role :: "TimeframeRole option"
  item_confirmed_index :: "nat option"
  item_confirmed_time :: "moment option"
  point_in_time :: bool
  item_provenance :: "VerificationStatus option"

definition reliability :: "EvidenceItem \<Rightarrow> EvidenceReliability" where
  "reliability i =
     (if (case item_provenance i of None \<Rightarrow> False | Some p \<Rightarrow> p \<notin> {VERIFIED_CURRENT_FACT, TEST_FIXTURE})
      then EV_UNVERIFIED_SOURCE
      else if point_in_time i then EV_PROVISIONAL else EV_CONFIRMED)"

definition evidence_known_at :: "EvidenceItem list \<Rightarrow> nat \<Rightarrow> EvidenceItem list" where
  "evidence_known_at is i =
     filter (\<lambda>x. case item_confirmed_index x of None \<Rightarrow> False | Some k \<Rightarrow> k \<le> i) is"

definition directional_items :: "EvidenceItem list \<Rightarrow> EvidenceItem list" where
  "directional_items = filter (\<lambda>i. is_directional (item_direction i))"

text \<open>\<open>max(..., key=rank)\<close>: the first of the highest rank.\<close>

fun max_by :: "('a \<Rightarrow> nat) \<Rightarrow> 'a list \<Rightarrow> 'a option" where
  "max_by f [] = None"
| "max_by f (x # xs) = Some (foldl (\<lambda>best y. if f best < f y then y else best) x xs)"

definition strongest :: "EvidenceItem list \<Rightarrow> EvidenceStrength option" where
  "strongest is = max_by strength_rank (map item_strength is)"

text \<open>\<open>max(times)\<close> of the times present; the candles of a validated series carry aware times.\<close>

definition latest_time :: "EvidenceItem list \<Rightarrow> moment option" where
  "latest_time is =
     (case concat (map (\<lambda>i. case item_confirmed_time i of None \<Rightarrow> [] | Some t \<Rightarrow> [t]) is) of
        [] \<Rightarrow> None
      | t # ts \<Rightarrow> Some (foldl (\<lambda>best u. if instant best < instant u then u else best) t ts))"

section \<open>What a set of views guarantees\<close>

lemma build_views_facts:
  assumes "build_views vs p = Inr m"
  shows "multi_policy m = p" "set (multi_views m) = set vs" "multi_views m \<noteq> []"
    "distinct (map view_role (multi_views m))" "sorted (map (\<lambda>v. role_rank (view_role v)) (multi_views m))"
    "v \<in> set (multi_views m) \<Longrightarrow> view_timeframe v = timeframe_for p (view_role v)"
    "v \<in> set (multi_views m) \<Longrightarrow> view_symbol v = multi_symbol m"
proof -
  let ?f = "\<lambda>v. role_rank (view_role v)"
  have m: "m = \<lparr> multi_symbol = view_symbol (hd vs), multi_policy = p, multi_views = sort_key ?f vs \<rparr>"
    and d: "distinct (map view_role vs)" and vs: "vs \<noteq> []"
    and tf: "\<forall>v\<in>set vs. view_timeframe v = timeframe_for p (view_role v)" and one: "length (remdups (map view_symbol vs)) = 1"
    using assms by (auto simp: build_views_def mtf_def list_ex_iff split: if_splits)
  have sym: "view_symbol v = view_symbol (hd vs)" if "v \<in> set vs" for v
  proof -
    obtain y where "set (map view_symbol vs) = {y}"
      using one by (metis card_1_singletonE length_remdups_card_conv)
    moreover have "view_symbol v \<in> set (map view_symbol vs)" "view_symbol (hd vs) \<in> set (map view_symbol vs)"
      using that by (auto intro!: imageI list.set_sel(1))
    ultimately show ?thesis
      by simp
  qed
  show "multi_policy m = p" "set (multi_views m) = set vs" "multi_views m \<noteq> []"
    "sorted (map ?f (multi_views m))"
    using vs set_sort[of ?f vs] by (auto simp: m simp del: set_sort)
  show "distinct (map view_role (multi_views m))"
    using d by (simp add: m distinct_map)
  show "v \<in> set (multi_views m) \<Longrightarrow> view_timeframe v = timeframe_for p (view_role v)"
    "v \<in> set (multi_views m) \<Longrightarrow> view_symbol v = multi_symbol m"
    using tf sym by (auto simp: m)
qed

lemma roles_all: "set ROLES_BROADEST_FIRST = UNIV"
  by (auto simp: ROLES_BROADEST_FIRST_def intro: TimeframeRole.exhaust)

lemma categories_all: "set all_categories = UNIV"
  by (auto simp: all_categories_def intro: EvidenceCategory.exhaust)

lemma missing_or_present: "r \<in> set (missing_roles m) \<longleftrightarrow> r \<notin> set (present_roles m)"
  by (simp add: missing_roles_def roles_all)

lemma view_for_some:
  assumes "distinct (map view_role (multi_views m))"
  shows "view_for m r = Some v \<longleftrightarrow> v \<in> set (multi_views m) \<and> view_role v = r"
proof -
  have "distinct (map view_role vs) \<Longrightarrow> find (\<lambda>v. view_role v = r) vs = Some v \<longleftrightarrow> v \<in> set vs \<and> view_role v = r" for vs
    by (induction vs) auto
  then show ?thesis
    using assms by (simp add: view_for_def)
qed

end
