(* ===== verification/Analysis_Evidence.thy ===== *)
theory Analysis_Evidence
  imports Analysis_Model Futures
begin

text \<open>
\<open>app/domain/analysis/generation.py\<close>: the translation of the finished indicators and structure of one
timeframe into evidence, and of a contract's basis and open interest into context that points nowhere.
\<open>evidence_roles\<close>, \<open>evidence_regime\<close>: every item carries the role of its view, and exactly one regime and
one structure item exist for it.
\<close>

section \<open>Observations of the final candle (generation.py)\<close>

record EvidenceConfig =
  level_proximity_atr :: flt
  strong_zone_strength :: flt
  moderate_zone_strength :: flt
  rsi_bullish :: flt
  rsi_bearish :: flt
  rsi_stretched :: flt
  rsi_depressed :: flt

definition default_evidence_config :: EvidenceConfig where
  "default_evidence_config =
     \<lparr> level_proximity_atr = flit 1, strong_zone_strength = flit (66 / 100), moderate_zone_strength = flit (33 / 100),
       rsi_bullish = flit 55, rsi_bearish = flit 45, rsi_stretched = flit 70, rsi_depressed = flit 30 \<rparr>"

definition point_in_time_item :: "TimeframeView \<Rightarrow> EvidenceSource \<Rightarrow> EvidenceCategory \<Rightarrow> EvidenceDirection \<Rightarrow> EvidenceStrength \<Rightarrow> EvidenceItem" where
  "point_in_time_item v src cat d st =
     \<lparr> item_source = src, item_category = cat, item_direction = d, item_strength = st,
       item_timeframe = Some (view_timeframe v), item_role = Some (view_role v),
       item_confirmed_index = Some (last_index v), item_confirmed_time = Some (last_time v),
       point_in_time = True, item_provenance = None \<rparr>"

definition ema_alignment :: "TimeframeView \<Rightarrow> EvidenceItem list" where
  "ema_alignment v =
     (let rg = snap_regime (view_structure v); stack = ev_stack (regime_evidence rg);
          item = point_in_time_item v SRC_EMA_ALIGNMENT CAT_TREND in
      case stack of
        STACK_UNKNOWN \<Rightarrow> [item EV_UNAVAILABLE EV_WEAK]
      | STACK_MIXED \<Rightarrow> [item EV_NEUTRAL EV_WEAK]
      | _ \<Rightarrow>
          [item (if stack = STACK_BULLISH then EV_BULLISH else EV_BEARISH)
             (case ev_adx (regime_evidence rg) of
                None \<Rightarrow> EV_WEAK
              | Some a \<Rightarrow> if flt_le (strong_adx (regime_config rg)) a then EV_STRONG else EV_MODERATE)])"

definition rsi_leaning :: "EvidenceConfig \<Rightarrow> flt option \<Rightarrow> EvidenceDirection" where
  "rsi_leaning cfg r =
     (case r of
        None \<Rightarrow> EV_UNAVAILABLE
      | Some x \<Rightarrow> if flt_le (rsi_bullish cfg) x then EV_BULLISH
                  else if flt_le x (rsi_bearish cfg) then EV_BEARISH else EV_NEUTRAL)"

definition macd_leaning :: "flt option \<Rightarrow> EvidenceDirection" where
  "macd_leaning h =
     (case h of
        None \<Rightarrow> EV_UNAVAILABLE
      | Some x \<Rightarrow> if flt_less (FNum 0) x then EV_BULLISH else if flt_less x (FNum 0) then EV_BEARISH else EV_NEUTRAL)"

definition momentum_reading :: "EvidenceConfig \<Rightarrow> flt option \<Rightarrow> flt option \<Rightarrow> EvidenceDirection \<times> EvidenceStrength" where
  "momentum_reading cfg r h =
     (let rd = rsi_leaning cfg r; md = macd_leaning h in
      if r = None \<and> h = None then (EV_UNAVAILABLE, EV_WEAK)
      else if is_directional rd \<and> is_directional md then
        (if rd = md
         then (rd, if (case r of None \<Rightarrow> False
                       | Some x \<Rightarrow> flt_le (rsi_stretched cfg) x \<or> flt_le x (rsi_depressed cfg))
                   then EV_STRONG else EV_MODERATE)
         else (EV_NEUTRAL, EV_WEAK))
      else let single = (if is_directional rd then rd else md) in
           if is_directional single then (single, EV_WEAK) else (EV_NEUTRAL, EV_WEAK))"

definition momentum :: "TimeframeView \<Rightarrow> EvidenceConfig \<Rightarrow> EvidenceItem list" where
  "momentum v cfg =
     (let t = view_technicals v;
          (d, st) = momentum_reading cfg (measure_at (tech_rsi t) (last_index v))
                      (measure_at (macd_histogram (tech_macd t)) (last_index v))
      in [point_in_time_item v SRC_MOMENTUM CAT_MOMENTUM d st])"

definition vwap_relationship :: "TimeframeView \<Rightarrow> EvidenceItem list" where
  "vwap_relationship v =
     (case measure_at (tech_vwap (view_technicals v)) (last_index v) of
        None \<Rightarrow> [point_in_time_item v SRC_VWAP CAT_INTRADAY EV_UNAVAILABLE EV_WEAK]
      | Some w \<Rightarrow>
          (let close = flt_of_dec (last_close v);
               d = (if flt_less w close then EV_BULLISH else if flt_less close w then EV_BEARISH else EV_NEUTRAL)
           in [(point_in_time_item v SRC_VWAP CAT_INTRADAY d EV_WEAK)\<lparr>item_provenance := Some DEVELOPMENT_DEFAULT\<rparr>]))"

fun bias_direction :: "StructureBias \<Rightarrow> EvidenceDirection" where
  "bias_direction BIAS_BULLISH = EV_BULLISH"
| "bias_direction BIAS_BEARISH = EV_BEARISH"
| "bias_direction CONTRACTING = EV_NEUTRAL"
| "bias_direction EXPANDING = EV_NEUTRAL"
| "bias_direction AMBIGUOUS = EV_NEUTRAL"
| "bias_direction INSUFFICIENT = EV_UNAVAILABLE"

definition structure_item :: "TimeframeView \<Rightarrow> EvidenceItem list" where
  "structure_item v =
     (let st = snap_structure (view_structure v); d = bias_direction (structure_bias st) in
      [point_in_time_item v SRC_MARKET_STRUCTURE CAT_STRUCTURE d
         (if is_directional d then if alternates st then EV_STRONG else EV_MODERATE else EV_WEAK)])"

fun regime_direction_of :: "MarketRegime \<Rightarrow> EvidenceDirection" where
  "regime_direction_of STRONG_UPTREND = EV_BULLISH"
| "regime_direction_of WEAK_UPTREND = EV_BULLISH"
| "regime_direction_of BREAKOUT = EV_BULLISH"
| "regime_direction_of STRONG_DOWNTREND = EV_BEARISH"
| "regime_direction_of WEAK_DOWNTREND = EV_BEARISH"
| "regime_direction_of BREAKDOWN = EV_BEARISH"
| "regime_direction_of _ = EV_NEUTRAL"

definition strong_regimes :: "MarketRegime list" where
  "strong_regimes = [STRONG_UPTREND, STRONG_DOWNTREND, BREAKOUT, BREAKDOWN]"

definition regime_item :: "TimeframeView \<Rightarrow> EvidenceItem list" where
  "regime_item v =
     (let r = regime_of (snap_regime (view_structure v)); d = regime_direction_of r in
      [point_in_time_item v SRC_MARKET_REGIME CAT_REGIME d
         (if r \<in> set strong_regimes then EV_STRONG else if is_directional d then EV_MODERATE else EV_WEAK)])"

section \<open>Levels\<close>

definition zone_distance :: "bool \<Rightarrow> dec \<Rightarrow> Zone \<Rightarrow> dec res" where
  "zone_distance up close z =
     (if up then dec_sub default_context (zone_low z) close else dec_sub default_context close (zone_high z))"

text \<open>\<open>min(candidates, key=...)\<close>: every key is computed, the first least one wins.\<close>

fun nearest_from :: "Zone \<Rightarrow> dec \<Rightarrow> (Zone \<times> dec) list \<Rightarrow> Zone res" where
  "nearest_from best key [] = Inr best"
| "nearest_from best key ((z, k) # r) =
     rbind (py_less k key) (\<lambda>closer. if closer then nearest_from z k r else nearest_from best key r)"

definition beyond_close :: "bool \<Rightarrow> dec \<Rightarrow> Zone \<Rightarrow> bool res" where
  "beyond_close up close z = (if up then py_less close (zone_low z) else py_less (zone_high z) close)"

definition nearest_zone :: "Zone list \<Rightarrow> dec \<Rightarrow> bool \<Rightarrow> Zone option res" where
  "nearest_zone zs close up =
     rbind (traverse (beyond_close up close) zs) (\<lambda>beyond.
     let candidates = map fst (filter snd (zip zs beyond)) in
     rbind (traverse (zone_distance up close) candidates) (\<lambda>keys.
       case zip candidates keys of
         [] \<Rightarrow> Inr None
       | (z, k) # r \<Rightarrow> rmap Some (nearest_from z k r)))"

definition zone_item :: "TimeframeView \<Rightarrow> Zone \<Rightarrow> EvidenceDirection \<Rightarrow> EvidenceConfig \<Rightarrow> EvidenceItem" where
  "zone_item v z d cfg =
     point_in_time_item v SRC_SUPPORT_RESISTANCE CAT_LEVEL d
       (if flt_le (strong_zone_strength cfg) (zone_strength z) then EV_STRONG
        else if flt_le (moderate_zone_strength cfg) (zone_strength z) then EV_MODERATE else EV_WEAK)"

definition level_on_side :: "TimeframeView \<Rightarrow> EvidenceConfig \<Rightarrow> dec \<Rightarrow> Zone list \<Rightarrow> bool \<Rightarrow> EvidenceDirection \<Rightarrow> EvidenceItem list res" where
  "level_on_side v cfg reach zs up d =
     rbind (nearest_zone zs (last_close v) up) (\<lambda>nearest.
       case nearest of
         None \<Rightarrow> Inr []
       | Some z \<Rightarrow>
           rbind (zone_distance up (last_close v) z) (\<lambda>away.
             rmap (\<lambda>close. if close then [zone_item v z d cfg] else []) (py_le away reach)))"

definition levels :: "TimeframeView \<Rightarrow> EvidenceConfig \<Rightarrow> EvidenceItem list res" where
  "levels v cfg =
     (let unavailable = Inr [point_in_time_item v SRC_SUPPORT_RESISTANCE CAT_LEVEL EV_UNAVAILABLE EV_WEAK] in
      case measure_at (tech_atr (view_technicals v)) (last_index v) of
        None \<Rightarrow> unavailable
      | Some a \<Rightarrow>
          (if flt_le a (FNum 0) then unavailable
           else
             let reach = dec_of_float (fmul a (level_proximity_atr cfg)) in
             rbind (level_on_side v cfg reach (resistance_zones (view_structure v)) True EV_BEARISH) (\<lambda>resistance.
             rbind (level_on_side v cfg reach (support_zones (view_structure v)) False EV_BULLISH) (\<lambda>support.
               Inr (resistance @ support)))))"

section \<open>Events, each with the date it became knowable\<close>

definition event_item :: "TimeframeView \<Rightarrow> EvidenceSource \<Rightarrow> EvidenceCategory \<Rightarrow> EvidenceDirection \<Rightarrow> EvidenceStrength \<Rightarrow> nat \<Rightarrow> moment \<Rightarrow> EvidenceItem" where
  "event_item v src cat d st i t =
     \<lparr> item_source = src, item_category = cat, item_direction = d, item_strength = st,
       item_timeframe = Some (view_timeframe v), item_role = Some (view_role v),
       item_confirmed_index = Some i, item_confirmed_time = Some t,
       point_in_time = False, item_provenance = None \<rparr>"

fun direction_of :: "Direction \<Rightarrow> EvidenceDirection" where
  "direction_of LONG = EV_BULLISH"
| "direction_of SHORT = EV_BEARISH"
| "direction_of NEUTRAL = EV_NEUTRAL"

definition structural_event_item :: "TimeframeView \<Rightarrow> StructuralEvent \<Rightarrow> EvidenceItem" where
  "structural_event_item v e =
     event_item v SRC_STRUCTURAL_EVENT CAT_STRUCTURE (direction_of (event_direction e))
       (case event_type e of CHOCH \<Rightarrow> EV_STRONG | BOS \<Rightarrow> EV_MODERATE | _ \<Rightarrow> EV_WEAK)
       (event_confirmed_index e) (event_confirmed_time e)"

definition breakout_volume :: "TimeframeView \<Rightarrow> BreakoutEvent \<Rightarrow> EvidenceItem" where
  "breakout_volume v e =
     (let (d, st) = (case volume_confirmation e of
                       VOLUME_CONFIRMED \<Rightarrow> (direction_of (breakout_direction e), EV_MODERATE)
                     | VOLUME_WEAK \<Rightarrow> (EV_NEUTRAL, EV_WEAK)
                     | VOLUME_UNAVAILABLE \<Rightarrow> (EV_UNAVAILABLE, EV_WEAK))
      in event_item v SRC_BREAKOUT_VOLUME CAT_VOLUME d st (breakout_confirmed_index e) (breakout_confirmed_time e))"

definition breakout_items :: "TimeframeView \<Rightarrow> BreakoutEvent \<Rightarrow> EvidenceItem list" where
  "breakout_items v e =
     (let item = (\<lambda>d. event_item v SRC_BREAKOUT CAT_BREAKOUT d EV_MODERATE (breakout_confirmed_index e) (breakout_confirmed_time e)) in
      case breakout_type e of
        BREAK_CONFIRMED \<Rightarrow> [item (direction_of (breakout_direction e)), breakout_volume v e]
      | FALSE_BREAKOUT \<Rightarrow> [item (opposite (direction_of (breakout_direction e)))]
      | _ \<Rightarrow> [])"

definition retest_items :: "TimeframeView \<Rightarrow> RetestEvent \<Rightarrow> EvidenceItem list" where
  "retest_items v e =
     (let item = (\<lambda>d st. event_item v SRC_RETEST CAT_RETEST d st (retest_confirmed_index e) (retest_confirmed_time e)) in
      case retest_type e of
        RETEST_HELD \<Rightarrow> [item (direction_of (retest_direction e)) EV_STRONG]
      | RETEST_FAILED \<Rightarrow> [item (opposite (direction_of (retest_direction e))) EV_MODERATE]
      | _ \<Rightarrow> [])"

definition divergence_item :: "TimeframeView \<Rightarrow> DivergenceEvent \<Rightarrow> EvidenceItem" where
  "divergence_item v e =
     event_item v SRC_VOLUME_DIVERGENCE CAT_DIVERGENCE
       (if divergence_type e = DIVERGENCE_BEARISH then EV_BEARISH else EV_BULLISH) EV_MODERATE
       (divergence_confirmed_index e) (divergence_confirmed_time e)"

text \<open>\<open>build\_timeframe\_evidence\<close>: the builders in their order.\<close>

definition build_timeframe_evidence :: "TimeframeView \<Rightarrow> EvidenceConfig \<Rightarrow> EvidenceItem list res" where
  "build_timeframe_evidence v cfg =
     rmap (\<lambda>at_levels.
         ema_alignment v @ structure_item v @ regime_item v @ momentum v cfg @ vwap_relationship v
         @ map (structural_event_item v) (snap_structural_events (view_structure v))
         @ concat (map (breakout_items v) (snap_breakouts (view_structure v)))
         @ concat (map (retest_items v) (snap_retests (view_structure v)))
         @ map (divergence_item v) (snap_divergences (view_structure v))
         @ at_levels)
       (levels v cfg)"

section \<open>Contract context: measured, and never a direction\<close>

definition context_item :: "EvidenceSource \<Rightarrow> EvidenceCategory \<Rightarrow> bool \<Rightarrow> EvidenceItem" where
  "context_item src cat unavailable =
     \<lparr> item_source = src, item_category = cat, item_direction = (if unavailable then EV_UNAVAILABLE else EV_NEUTRAL),
       item_strength = EV_WEAK, item_timeframe = None, item_role = None, item_confirmed_index = None,
       item_confirmed_time = None, point_in_time = True, item_provenance = None \<rparr>"

definition basis_item :: "BasisResult \<Rightarrow> EvidenceItem" where
  "basis_item b = context_item SRC_BASIS CAT_BASIS (ba_context b = BASIS_UNAVAILABLE)"

definition open_interest_item :: "OpenInterestReading \<Rightarrow> EvidenceItem" where
  "open_interest_item r = context_item SRC_OPEN_INTEREST CAT_OPEN_INTEREST (oi_context r = INSUFFICIENT_DATA)"

definition build_contract_evidence :: "BasisResult option \<Rightarrow> OpenInterestReading option \<Rightarrow> EvidenceItem list" where
  "build_contract_evidence b r =
     (case b of None \<Rightarrow> [] | Some x \<Rightarrow> [basis_item x]) @ (case r of None \<Rightarrow> [] | Some x \<Rightarrow> [open_interest_item x])"

section \<open>Every item names its view\<close>

lemma event_item_simps [simp]:
  "item_role (event_item v s c d st i t) = Some (view_role v)" "item_direction (event_item v s c d st i t) = d"
  "item_source (event_item v s c d st i t) = s" "item_category (event_item v s c d st i t) = c"
  "item_strength (event_item v s c d st i t) = st" "item_confirmed_index (event_item v s c d st i t) = Some i"
  by (simp_all add: event_item_def)

lemma point_item_simps [simp]:
  "item_role (point_in_time_item v s c d st) = Some (view_role v)" "item_direction (point_in_time_item v s c d st) = d"
  "item_source (point_in_time_item v s c d st) = s" "item_category (point_in_time_item v s c d st) = c"
  "item_strength (point_in_time_item v s c d st) = st" "item_confirmed_index (point_in_time_item v s c d st) = Some (last_index v)"
  by (simp_all add: point_in_time_item_def)

lemma level_on_side_items:
  assumes "level_on_side v cfg reach zs up d = Inr is" and "i \<in> set is"
  obtains z where "i = zone_item v z d cfg"
  using assms by (auto simp: level_on_side_def rbind_Inr_iff rmap_Inr_iff split: option.splits if_splits)

lemma zone_item_simps [simp]:
  "item_role (zone_item v z d cfg) = Some (view_role v)" "item_source (zone_item v z d cfg) = SRC_SUPPORT_RESISTANCE"
  by (simp_all add: zone_item_def)

lemma level_items:
  assumes "levels v cfg = Inr is" and "i \<in> set is"
  shows "item_role i = Some (view_role v) \<and> item_source i = SRC_SUPPORT_RESISTANCE"
  using assms
  by (auto simp: levels_def Let_def rbind_Inr_iff elim!: level_on_side_items split: option.splits if_splits)

lemma reading_roles:
  "i \<in> set (ema_alignment v) \<Longrightarrow> item_role i = Some (view_role v) \<and> item_source i = SRC_EMA_ALIGNMENT"
  "i \<in> set (structure_item v) \<Longrightarrow> item_role i = Some (view_role v) \<and> item_source i = SRC_MARKET_STRUCTURE"
  "i \<in> set (regime_item v) \<Longrightarrow> item_role i = Some (view_role v) \<and> item_source i = SRC_MARKET_REGIME"
  "i \<in> set (momentum v cfg) \<Longrightarrow> item_role i = Some (view_role v) \<and> item_source i = SRC_MOMENTUM"
  "i \<in> set (vwap_relationship v) \<Longrightarrow> item_role i = Some (view_role v) \<and> item_source i = SRC_VWAP"
  by (auto simp: ema_alignment_def structure_item_def regime_item_def momentum_def vwap_relationship_def Let_def
      split: EmaStack.splits option.splits prod.splits)

lemma event_roles:
  "item_role (structural_event_item v e) = Some (view_role v)" "item_source (structural_event_item v e) = SRC_STRUCTURAL_EVENT"
  "item_role (divergence_item v d) = Some (view_role v)" "item_source (divergence_item v d) = SRC_VOLUME_DIVERGENCE"
  by (simp_all add: structural_event_item_def divergence_item_def)

lemma breakout_roles:
  "i \<in> set (breakout_items v b) \<Longrightarrow> item_role i = Some (view_role v) \<and> item_source i \<in> {SRC_BREAKOUT, SRC_BREAKOUT_VOLUME}"
  by (cases "breakout_type b") (auto simp: breakout_items_def breakout_volume_def Let_def split: prod.splits)

lemma retest_roles: "i \<in> set (retest_items v r) \<Longrightarrow> item_role i = Some (view_role v) \<and> item_source i = SRC_RETEST"
  by (cases "retest_type r") (auto simp: retest_items_def Let_def)

lemma evidence_roles:
  assumes "build_timeframe_evidence v cfg = Inr is" and "i \<in> set is"
  shows "item_role i = Some (view_role v)"
  using assms by (auto simp: build_timeframe_evidence_def rmap_Inr_iff event_roles dest: reading_roles breakout_roles retest_roles level_items)

text \<open>The one item per view that the readings are made from.\<close>

lemma evidence_regime:
  assumes "build_timeframe_evidence v cfg = Inr is"
  shows "filter (\<lambda>i. item_source i = SRC_MARKET_REGIME) is = regime_item v"
    "filter (\<lambda>i. item_source i = SRC_MARKET_STRUCTURE) is = structure_item v"
proof -
  obtain ls where ls: "levels v cfg = Inr ls" and "is": "is = ema_alignment v @ structure_item v @ regime_item v @ momentum v cfg
      @ vwap_relationship v @ map (structural_event_item v) (snap_structural_events (view_structure v))
      @ concat (map (breakout_items v) (snap_breakouts (view_structure v)))
      @ concat (map (retest_items v) (snap_retests (view_structure v)))
      @ map (divergence_item v) (snap_divergences (view_structure v)) @ ls"
    using assms by (auto simp: build_timeframe_evidence_def rmap_Inr_iff)
  have none: "filter (\<lambda>i. item_source i = s) (ema_alignment v) = []" "filter (\<lambda>i. item_source i = s) (momentum v cfg) = []"
    "filter (\<lambda>i. item_source i = s) (vwap_relationship v) = []"
    "filter (\<lambda>i. item_source i = s) (map (structural_event_item v) xs) = []"
    "filter (\<lambda>i. item_source i = s) (concat (map (breakout_items v) bs)) = []"
    "filter (\<lambda>i. item_source i = s) (concat (map (retest_items v) rs)) = []"
    "filter (\<lambda>i. item_source i = s) (map (divergence_item v) ds) = []"
    "filter (\<lambda>i. item_source i = s) ls = []" if "s \<in> {SRC_MARKET_REGIME, SRC_MARKET_STRUCTURE}" for s xs bs rs ds
    using that level_items[OF ls] by (fastforce simp: filter_empty_conv event_roles dest: reading_roles breakout_roles retest_roles)+
  have "filter (\<lambda>i. item_source i = SRC_MARKET_REGIME) (structure_item v) = []"
    "filter (\<lambda>i. item_source i = SRC_MARKET_STRUCTURE) (structure_item v) = structure_item v"
    "filter (\<lambda>i. item_source i = SRC_MARKET_REGIME) (regime_item v) = regime_item v"
    "filter (\<lambda>i. item_source i = SRC_MARKET_STRUCTURE) (regime_item v) = []"
    by (simp_all add: structure_item_def regime_item_def Let_def)
  then show "filter (\<lambda>i. item_source i = SRC_MARKET_REGIME) is = regime_item v"
    "filter (\<lambda>i. item_source i = SRC_MARKET_STRUCTURE) is = structure_item v"
    unfolding "is" filter_append by (simp_all add: none)
qed
end
