(* ===== verification/Analysis_Contradictions.thy ===== *)
theory Analysis_Contradictions
  imports Analysis_Model
begin

text \<open>
\<open>app/domain/analysis/contradictions.py\<close>: one directional reading per view, the named conflicts between
them, and the pullback exemption of the entry timeframe.  \<open>major_iff\<close>: a major contradiction is exactly
an opposition of the two slowest readings; \<open>pullback_means_agreement\<close>: a pullback stands alone, against a
direction every higher directional reading shares.
\<close>

section \<open>Contradictions (contradictions.py)\<close>

datatype ContradictionType =
    HIGHER_TIMEFRAME_CONFLICT
  | SETUP_AGAINST_BIAS
  | LOWER_TIMEFRAME_REVERSAL
  | INTRA_TIMEFRAME_CONFLICT
  | EVIDENCE_CONFLICT

datatype ContradictionSeverity = SEV_MINOR | SEV_MODERATE | SEV_MAJOR

fun severity_rank :: "ContradictionSeverity \<Rightarrow> nat" where
  "severity_rank SEV_MINOR = 1"
| "severity_rank SEV_MODERATE = 2"
| "severity_rank SEV_MAJOR = 3"

record ContradictionConfig =
  reversal_lookback :: nat
  conflicting_evidence_strength :: EvidenceStrength

definition default_contradiction_config :: ContradictionConfig where
  "default_contradiction_config = \<lparr> reversal_lookback = 10, conflicting_evidence_strength = EV_MODERATE \<rparr>"

record DirectionalReading =
  reading_role :: TimeframeRole
  reading_timeframe :: Timeframe
  reading_direction :: EvidenceDirection
  regime_direction :: EvidenceDirection
  structure_direction :: EvidenceDirection
  reading_evidence :: "EvidenceItem list"
  as_of :: moment

record Contradiction =
  contradiction_type :: ContradictionType
  contradiction_severity :: ContradictionSeverity
  contradiction_category :: EvidenceCategory
  contradiction_roles :: "TimeframeRole list"
  contradiction_timeframes :: "Timeframe list"
  contradiction_evidence :: "EvidenceItem list"
  confirmed_at :: "moment option"

record Pullback =
  pullback_role :: TimeframeRole
  pullback_timeframe :: Timeframe
  pullback_against :: EvidenceDirection
  pullback_as_of :: moment

record ContradictionReport =
  readings :: "DirectionalReading list"
  contradictions :: "Contradiction list"
  pullbacks :: "Pullback list"
  unavailable_roles :: "TimeframeRole list"

definition reading_for :: "DirectionalReading list \<Rightarrow> TimeframeRole \<Rightarrow> DirectionalReading option" where
  "reading_for rs r = find (\<lambda>x. reading_role x = r) rs"

definition highest_severity :: "ContradictionReport \<Rightarrow> ContradictionSeverity option" where
  "highest_severity c = max_by severity_rank (map contradiction_severity (contradictions c))"

subsection \<open>One timeframe's reading\<close>

definition find_item :: "EvidenceItem list \<Rightarrow> TimeframeRole \<Rightarrow> EvidenceSource \<Rightarrow> EvidenceItem option" where
  "find_item is r src = find (\<lambda>i. item_role i = Some r \<and> item_source i = src) is"

definition combine :: "EvidenceDirection \<Rightarrow> EvidenceDirection \<Rightarrow> EvidenceDirection" where
  "combine rg st =
     (if opposes rg st then EV_NEUTRAL
      else if is_directional rg then rg
      else if is_directional st then st
      else if EV_UNAVAILABLE \<in> {rg, st} then EV_UNAVAILABLE
      else EV_NEUTRAL)"

definition direction_or_absent :: "EvidenceItem option \<Rightarrow> EvidenceDirection" where
  "direction_or_absent i = (case i of None \<Rightarrow> EV_UNAVAILABLE | Some x \<Rightarrow> item_direction x)"

definition read_view :: "TimeframeView \<Rightarrow> EvidenceItem list \<Rightarrow> DirectionalReading" where
  "read_view v is =
     (let rg = find_item is (view_role v) SRC_MARKET_REGIME; st = find_item is (view_role v) SRC_MARKET_STRUCTURE;
          rd = direction_or_absent rg; sd = direction_or_absent st
      in \<lparr> reading_role = view_role v, reading_timeframe = view_timeframe v, reading_direction = combine rd sd,
           regime_direction = rd, structure_direction = sd,
           reading_evidence = (case rg of None \<Rightarrow> [] | Some x \<Rightarrow> [x]) @ (case st of None \<Rightarrow> [] | Some x \<Rightarrow> [x]),
           as_of = last_time v \<rparr>)"

subsection \<open>The rules\<close>

definition make_contradiction :: "ContradictionType \<Rightarrow> ContradictionSeverity \<Rightarrow> EvidenceCategory \<Rightarrow> TimeframeRole list \<Rightarrow> Timeframe list \<Rightarrow> EvidenceItem list \<Rightarrow> Contradiction" where
  "make_contradiction ty sev cat rs tfs is =
     \<lparr> contradiction_type = ty, contradiction_severity = sev, contradiction_category = cat, contradiction_roles = rs,
       contradiction_timeframes = tfs, contradiction_evidence = is, confirmed_at = latest_time is \<rparr>"

definition intra_timeframe :: "DirectionalReading list \<Rightarrow> Contradiction list" where
  "intra_timeframe rs =
     map (\<lambda>r. make_contradiction INTRA_TIMEFRAME_CONFLICT SEV_MODERATE CAT_REGIME [reading_role r] [reading_timeframe r] (reading_evidence r))
       (filter (\<lambda>r. opposes (regime_direction r) (structure_direction r)) rs)"

definition side :: "EvidenceItem list \<Rightarrow> EvidenceDirection \<Rightarrow> EvidenceStrength \<Rightarrow> EvidenceItem list" where
  "side is d least = filter (\<lambda>i. item_direction i = d \<and> at_least (item_strength i) least) is"

definition conflict_of_view :: "EvidenceItem list \<Rightarrow> ContradictionConfig \<Rightarrow> TimeframeView \<Rightarrow> Contradiction list" where
  "conflict_of_view is cfg v =
     (let own = filter (\<lambda>i. item_role i = Some (view_role v)) is;
          bulls = side own EV_BULLISH (conflicting_evidence_strength cfg);
          bears = side own EV_BEARISH (conflicting_evidence_strength cfg)
      in if bulls = [] \<or> bears = [] then []
         else [make_contradiction EVIDENCE_CONFLICT SEV_MINOR CAT_STRUCTURE [view_role v] [view_timeframe v] (bulls @ bears)])"

definition conflicting_evidence :: "MultiTimeframeView \<Rightarrow> EvidenceItem list \<Rightarrow> ContradictionConfig \<Rightarrow> Contradiction list" where
  "conflicting_evidence m is cfg = concat (map (conflict_of_view is cfg) (multi_views m))"

definition opposed_pair :: "ContradictionType \<Rightarrow> ContradictionSeverity \<Rightarrow> EvidenceCategory \<Rightarrow> DirectionalReading option \<Rightarrow> DirectionalReading option \<Rightarrow> Contradiction list" where
  "opposed_pair ty sev cat a b =
     (case (a, b) of
        (Some x, Some y) \<Rightarrow>
          (if opposes (reading_direction x) (reading_direction y)
           then [make_contradiction ty sev cat [reading_role x, reading_role y] [reading_timeframe x, reading_timeframe y]
                   (reading_evidence x @ reading_evidence y)]
           else [])
      | _ \<Rightarrow> [])"

definition higher_timeframe :: "DirectionalReading list \<Rightarrow> Contradiction list" where
  "higher_timeframe rs =
     opposed_pair HIGHER_TIMEFRAME_CONFLICT SEV_MAJOR CAT_REGIME (reading_for rs ROLE_REGIME) (reading_for rs ROLE_BIAS)"

definition setup_against_bias :: "DirectionalReading list \<Rightarrow> Contradiction list" where
  "setup_against_bias rs =
     opposed_pair SETUP_AGAINST_BIAS SEV_MODERATE CAT_STRUCTURE (reading_for rs ROLE_BIAS) (reading_for rs ROLE_SETUP)"

text \<open>
  Whether the entry timeframe does more than retrace: a strong trend of its own, or a recent change of
  character together with a recent confirmed breakout, both in its direction.
\<close>

definition reversal_evidence :: "TimeframeView \<Rightarrow> EvidenceDirection \<Rightarrow> ContradictionConfig \<Rightarrow> bool" where
  "reversal_evidence v d cfg =
     (let rg = regime_of (snap_regime (view_structure v));
          recent = (\<lambda>i. int (last_index v) - int (reversal_lookback cfg) \<le> int i);
          wanted = (if d = EV_BEARISH then SHORT else LONG)
      in (d = EV_BEARISH \<and> rg \<in> {STRONG_DOWNTREND, BREAKDOWN})
         \<or> (d = EV_BULLISH \<and> rg \<in> {STRONG_UPTREND, BREAKOUT})
         \<or> (list_ex (\<lambda>e. event_type e = CHOCH \<and> event_direction e = wanted \<and> recent (event_confirmed_index e))
              (snap_structural_events (view_structure v))
            \<and> list_ex (\<lambda>e. breakout_type e = BREAK_CONFIRMED \<and> breakout_direction e = wanted \<and> recent (breakout_confirmed_index e))
              (snap_breakouts (view_structure v))))"

definition consensus_of :: "DirectionalReading list \<Rightarrow> EvidenceDirection option" where
  "consensus_of rs = (case remdups (map reading_direction rs) of [d] \<Rightarrow> Some d | _ \<Rightarrow> None)"

definition reversal_of :: "DirectionalReading \<Rightarrow> DirectionalReading list \<Rightarrow> Contradiction" where
  "reversal_of entry higher =
     make_contradiction LOWER_TIMEFRAME_REVERSAL SEV_MINOR CAT_STRUCTURE
       (reading_role entry # map reading_role higher) (reading_timeframe entry # map reading_timeframe higher)
       (reading_evidence entry @ concat (map reading_evidence higher))"

definition resolve_entry :: "DirectionalReading \<Rightarrow> DirectionalReading list \<Rightarrow> bool \<Rightarrow> Contradiction list \<times> Pullback list" where
  "resolve_entry entry higher escalated =
     (case (consensus_of higher, escalated) of
        (Some d, False) \<Rightarrow>
          ([], [\<lparr> pullback_role = reading_role entry, pullback_timeframe = reading_timeframe entry,
                  pullback_against = d, pullback_as_of = as_of entry \<rparr>])
      | _ \<Rightarrow> ([reversal_of entry higher], []))"

definition higher_readings :: "DirectionalReading list \<Rightarrow> DirectionalReading list" where
  "higher_readings = filter (\<lambda>r. reading_role r \<noteq> ROLE_ENTRY \<and> is_directional (reading_direction r))"

definition entry_role :: "MultiTimeframeView \<Rightarrow> DirectionalReading list \<Rightarrow> ContradictionConfig \<Rightarrow> Contradiction list \<times> Pullback list" where
  "entry_role m rs cfg =
     (case (reading_for rs ROLE_ENTRY, view_for m ROLE_ENTRY) of
        (Some entry, Some v) \<Rightarrow>
          (if is_directional (reading_direction entry)
              \<and> list_ex (\<lambda>r. opposes (reading_direction r) (reading_direction entry)) (higher_readings rs)
           then resolve_entry entry (higher_readings rs) (reversal_evidence v (reading_direction entry) cfg)
           else ([], []))
      | _ \<Rightarrow> ([], []))"

definition readings_of :: "MultiTimeframeView \<Rightarrow> EvidenceItem list \<Rightarrow> DirectionalReading list" where
  "readings_of m is =
     concat (map (\<lambda>r. case view_for m r of None \<Rightarrow> [] | Some v \<Rightarrow> [read_view v is]) ROLES_BROADEST_FIRST)"

definition detect_contradictions :: "MultiTimeframeView \<Rightarrow> EvidenceItem list \<Rightarrow> ContradictionConfig \<Rightarrow> ContradictionReport" where
  "detect_contradictions m is cfg =
     (let rs = readings_of m is; (entry_conflict, pulls) = entry_role m rs cfg in
      \<lparr> readings = rs,
        contradictions = intra_timeframe rs @ conflicting_evidence m is cfg @ higher_timeframe rs
          @ setup_against_bias rs @ entry_conflict,
        pullbacks = pulls, unavailable_roles = missing_roles m \<rparr>)"

section \<open>Which readings exist, and what a major contradiction is\<close>

lemma reading_for_detected:
  "reading_for (readings_of m is) r = map_option (\<lambda>v. read_view v is) (view_for m r)"
proof -
  have role: "view_for m q = Some v \<Longrightarrow> view_role v = q" for q v
    by (auto simp: view_for_def find_Some_iff)
  have "reading_role (read_view v is) = view_role v" for v
    by (simp add: read_view_def Let_def)
  then show ?thesis
    using role by (cases r) (auto simp: readings_of_def reading_for_def ROLES_BROADEST_FIRST_def split: option.splits)
qed

lemma opposed_pair_type: "c \<in> set (opposed_pair ty sev cat a b) \<Longrightarrow> contradiction_type c = ty \<and> contradiction_severity c = sev"
  by (auto simp: opposed_pair_def make_contradiction_def split: option.splits if_splits)

lemma entry_role_severity: "c \<in> set (fst (entry_role m rs cfg)) \<Longrightarrow> contradiction_severity c = SEV_MINOR"
  by (auto simp: entry_role_def resolve_entry_def reversal_of_def make_contradiction_def split: option.splits if_splits bool.splits)

lemma detected:
  "readings (detect_contradictions m is cfg) = readings_of m is"
  "contradictions (detect_contradictions m is cfg) =
     intra_timeframe (readings_of m is) @ conflicting_evidence m is cfg @ higher_timeframe (readings_of m is)
       @ setup_against_bias (readings_of m is) @ fst (entry_role m (readings_of m is) cfg)"
  "unavailable_roles (detect_contradictions m is cfg) = missing_roles m"
  by (simp_all add: detect_contradictions_def Let_def split: prod.splits)

text \<open>A major contradiction is exactly a disagreement of the two slowest readings.\<close>

lemma major_iff:
  "(\<exists>c\<in>set (contradictions (detect_contradictions m is cfg)). contradiction_severity c = SEV_MAJOR)
     \<longleftrightarrow> higher_timeframe (readings_of m is) \<noteq> []" (is "?l \<longleftrightarrow> ?h \<noteq> []")
proof -
  have minor: "contradiction_severity c \<noteq> SEV_MAJOR"
    if "c \<in> set (intra_timeframe rs) \<or> c \<in> set (conflicting_evidence m is cfg) \<or> c \<in> set (setup_against_bias rs)
        \<or> c \<in> set (fst (entry_role m rs cfg))" for c rs
    using that entry_role_severity[of c m rs cfg]
    by (auto simp: intra_timeframe_def conflicting_evidence_def conflict_of_view_def setup_against_bias_def
        make_contradiction_def Let_def dest!: opposed_pair_type split: if_splits)
  have major: "contradiction_severity c = SEV_MAJOR" if "c \<in> set ?h" for c
    using that opposed_pair_type by (auto simp: higher_timeframe_def)
  show ?thesis
  proof
    assume ?l
    then show "?h \<noteq> []"
      using minor[of _ "readings_of m is"] by (fastforce simp: detected)
  next
    assume "?h \<noteq> []"
    then have "hd ?h \<in> set ?h"
      by simp
    with major[OF this] show ?l
      by (auto simp: detected)
  qed
qed

lemma higher_timeframe_iff:
  "higher_timeframe rs \<noteq> [] \<longleftrightarrow>
     (\<exists>a b. reading_for rs ROLE_REGIME = Some a \<and> reading_for rs ROLE_BIAS = Some b
        \<and> opposes (reading_direction a) (reading_direction b))"
  by (auto simp: higher_timeframe_def opposed_pair_def split: option.splits)

text \<open>A pullback never stands beside a reversal, and needs one direction above it and no escalation.\<close>

lemma pullback_means_agreement:
  assumes "entry_role m rs cfg = (cs, p # ps)"
  obtains entry v where "reading_for rs ROLE_ENTRY = Some entry" "view_for m ROLE_ENTRY = Some v" "cs = []" "ps = []"
    "opposes (pullback_against p) (reading_direction entry)" "\<not> reversal_evidence v (reading_direction entry) cfg"
    "\<forall>r\<in>set (higher_readings rs). reading_direction r = pullback_against p"
proof -
  obtain entry v where ev: "reading_for rs ROLE_ENTRY = Some entry" "view_for m ROLE_ENTRY = Some v"
    "list_ex (\<lambda>r. opposes (reading_direction r) (reading_direction entry)) (higher_readings rs)"
    "resolve_entry entry (higher_readings rs) (reversal_evidence v (reading_direction entry) cfg) = (cs, p # ps)"
    using assms by (auto simp: entry_role_def split: option.splits if_splits)
  have d: "consensus_of (higher_readings rs) = Some (pullback_against p)" "cs = []" "ps = []"
    "\<not> reversal_evidence v (reading_direction entry) cfg"
    using ev(4) by (auto simp: resolve_entry_def split: option.splits bool.splits)
  have "remdups (map reading_direction (higher_readings rs)) = [pullback_against p]"
    using d(1) by (simp add: consensus_of_def split: list.splits)
  then have "set (map reading_direction (higher_readings rs)) = {pullback_against p}"
    by (metis list.set(1) list.set(2) set_remdups)
  then have all: "\<forall>r\<in>set (higher_readings rs). reading_direction r = pullback_against p"
    by auto
  then have "opposes (pullback_against p) (reading_direction entry)"
    using ev(3) by (auto simp: list_ex_iff)
  with that ev d all show ?thesis
    by blast
qed
end
