(* ===== verification/Analysis_Fusion.thy ===== *)
theory Analysis_Fusion
  imports Analysis_Contradictions
begin

text \<open>
\<open>app/domain/analysis/fusion.py\<close>: the evidence partitioned by direction and grouped by role and category,
one voice per group.  \<open>group_evidence_voices\<close>: the voices depend on the set of the items alone, so a
repeated record says nothing twice.
\<close>

section \<open>Fusion (fusion.py)\<close>

record EvidenceGroup =
  group_category :: EvidenceCategory
  group_role :: TimeframeRole
  group_direction :: EvidenceDirection
  group_strength :: "EvidenceStrength option"
  group_items :: "EvidenceItem list"
  group_reliability :: EvidenceReliability
  group_confirmed_at :: "moment option"

record FusedEvidence =
  fused_bullish :: "EvidenceItem list"
  fused_bearish :: "EvidenceItem list"
  fused_neutral :: "EvidenceItem list"
  fused_unavailable :: "EvidenceItem list"
  fused_groups :: "EvidenceGroup list"
  fused_contract :: "EvidenceItem list"
  fused_contradictions :: ContradictionReport

definition groups_for :: "FusedEvidence \<Rightarrow> TimeframeRole \<Rightarrow> EvidenceGroup list" where
  "groups_for f r = filter (\<lambda>g. group_role g = r) (fused_groups f)"

definition group_for :: "FusedEvidence \<Rightarrow> TimeframeRole \<Rightarrow> EvidenceCategory \<Rightarrow> EvidenceGroup option" where
  "group_for f r c = find (\<lambda>g. group_role g = r \<and> group_category g = c) (fused_groups f)"

definition supporting :: "FusedEvidence \<Rightarrow> EvidenceDirection \<Rightarrow> EvidenceGroup list" where
  "supporting f d = filter (\<lambda>g. group_direction g = d) (fused_groups f)"

definition opposing :: "FusedEvidence \<Rightarrow> EvidenceDirection \<Rightarrow> EvidenceGroup list" where
  "opposing f d = filter (\<lambda>g. opposes (group_direction g) d) (fused_groups f)"

fun reliability_order :: "EvidenceReliability \<Rightarrow> nat" where
  "reliability_order EV_UNVERIFIED_SOURCE = 0"
| "reliability_order EV_PROVISIONAL = 1"
| "reliability_order EV_CONFIRMED = 2"

definition weakest_reliability :: "EvidenceItem list \<Rightarrow> EvidenceReliability" where
  "weakest_reliability is =
     (case map reliability is of
        [] \<Rightarrow> EV_PROVISIONAL
      | x # xs \<Rightarrow> foldl (\<lambda>best y. if reliability_order y < reliability_order best then y else best) x xs)"

definition with_direction :: "EvidenceItem list \<Rightarrow> EvidenceDirection \<Rightarrow> EvidenceItem list" where
  "with_direction is d = filter (\<lambda>i. item_direction i = d) is"

text \<open>The stance of a category and the items that decide it.\<close>

definition stance :: "EvidenceItem list \<Rightarrow> EvidenceDirection \<times> EvidenceItem list" where
  "stance is =
     (let bull = with_direction is EV_BULLISH; bear = with_direction is EV_BEARISH; neutral = with_direction is EV_NEUTRAL in
      if bull \<noteq> [] \<and> bear \<noteq> [] then (EV_NEUTRAL, bull @ bear)
      else if bull \<noteq> [] then (EV_BULLISH, bull)
      else if bear \<noteq> [] then (EV_BEARISH, bear)
      else if neutral \<noteq> [] then (EV_NEUTRAL, neutral)
      else (EV_UNAVAILABLE, is))"

definition build_group :: "TimeframeRole \<Rightarrow> EvidenceCategory \<Rightarrow> EvidenceItem list \<Rightarrow> EvidenceGroup" where
  "build_group r c is =
     (let (d, deciding) = stance is in
      \<lparr> group_category = c, group_role = r, group_direction = d,
        group_strength = (if is_directional d then max_by strength_rank (map item_strength deciding) else None),
        group_items = is, group_reliability = weakest_reliability deciding, group_confirmed_at = latest_time is \<rparr>)"

definition items_of :: "EvidenceItem list \<Rightarrow> TimeframeRole \<times> EvidenceCategory \<Rightarrow> EvidenceItem list" where
  "items_of is k = filter (\<lambda>i. item_role i = Some (fst k) \<and> item_category i = snd k) is"

definition group_keys :: "(TimeframeRole \<times> EvidenceCategory) list" where
  "group_keys = concat (map (\<lambda>r. map (Pair r) all_categories) ROLES_BROADEST_FIRST)"

definition group_evidence :: "EvidenceItem list \<Rightarrow> EvidenceGroup list" where
  "group_evidence is =
     map (\<lambda>k. build_group (fst k) (snd k) (items_of is k)) (filter (\<lambda>k. items_of is k \<noteq> []) group_keys)"

definition fuse_evidence :: "EvidenceItem list \<Rightarrow> EvidenceItem list \<Rightarrow> ContradictionReport \<Rightarrow> FusedEvidence" where
  "fuse_evidence is contract report =
     (let every = is @ contract in
      \<lparr> fused_bullish = with_direction every EV_BULLISH, fused_bearish = with_direction every EV_BEARISH,
        fused_neutral = with_direction every EV_NEUTRAL, fused_unavailable = with_direction every EV_UNAVAILABLE,
        fused_groups = group_evidence is, fused_contract = contract, fused_contradictions = report \<rparr>)"

definition strongest_group :: "EvidenceGroup list \<Rightarrow> EvidenceStrength option" where
  "strongest_group gs =
     max_by strength_rank (concat (map (\<lambda>g. case group_strength g of None \<Rightarrow> [] | Some s \<Rightarrow> [s]) gs))"

section \<open>One voice per category\<close>

lemma group_keys_distinct: "distinct group_keys" "k \<in> set group_keys"
proof -
  show "distinct group_keys"
    by (simp add: group_keys_def ROLES_BROADEST_FIRST_def all_categories_def)
  show "k \<in> set group_keys"
    using roles_all categories_all by (cases k) (auto simp: group_keys_def)
qed

lemma group_evidence_distinct: "distinct (map (\<lambda>g. (group_role g, group_category g)) (group_evidence is))"
proof -
  have "map (\<lambda>g. (group_role g, group_category g)) (group_evidence is) = filter (\<lambda>k. items_of is k \<noteq> []) group_keys"
    by (simp add: group_evidence_def build_group_def comp_def split_def Let_def)
  then show ?thesis
    using group_keys_distinct(1) by simp
qed

text \<open>What a group says is a function of the set of its items: repeating one changes nothing.\<close>

lemma max_by_set:
  assumes "set xs = set ys" and "inj f"
  shows "max_by f xs = max_by f ys"
proof -
  have best: "foldl (\<lambda>best y. if f best < f y then y else best) x xs \<in> insert x (set xs)
      \<and> (\<forall>y\<in>insert x (set xs). f y \<le> f (foldl (\<lambda>best y. if f best < f y then y else best) x xs))" for x xs
  proof (induction xs arbitrary: x)
    case (Cons y ys)
    show ?case
      using Cons.IH[of "if f x < f y then y else x"] by (auto split: if_splits)
  qed simp
  show ?thesis
  proof (cases xs)
    case Nil
    with assms(1) show ?thesis
      by simp
  next
    case x: (Cons x xs')
    then obtain y ys' where y: "ys = y # ys'"
      using assms(1) by (cases ys) auto
    let ?a = "foldl (\<lambda>best y. if f best < f y then y else best) x xs'"
      and ?b = "foldl (\<lambda>best y. if f best < f y then y else best) y ys'"
    have "?a \<in> set ys" "?b \<in> set xs" "\<forall>z\<in>set xs. f z \<le> f ?a" "\<forall>z\<in>set ys. f z \<le> f ?b"
      using best[of x xs'] best[of y ys'] assms(1) x y by auto
    then have "f ?a = f ?b"
      using assms(1) by (simp add: order_antisym)
    then show ?thesis
      using x y assms(2) by (simp add: inj_eq)
  qed
qed

lemma strength_rank_inj: "inj strength_rank"
  by (rule injI) (metis EvidenceStrength.exhaust numeral_eq_iff numeral_eq_one_iff numeral_One semiring_norm(85,86,88,89) strength_rank.simps)

lemma with_direction_set: "set (with_direction is d) = {i \<in> set is. item_direction i = d}"
  by (simp add: with_direction_def)

lemma stance_set:
  assumes "set is = set js"
  shows "fst (stance is) = fst (stance js)" "set (snd (stance is)) = set (snd (stance js))"
proof -
  have e: "with_direction is d = [] \<longleftrightarrow> with_direction js d = []" for d
    using assms by (auto simp: with_direction_def filter_empty_conv)
  show "fst (stance is) = fst (stance js)" "set (snd (stance is)) = set (snd (stance js))"
    using assms by (auto simp: stance_def Let_def e with_direction_set)
qed

lemma build_group_set:
  assumes "set is = set js"
  shows "group_direction (build_group r c is) = group_direction (build_group r c js)"
    "group_strength (build_group r c is) = group_strength (build_group r c js)"
    "group_role (build_group r c is) = group_role (build_group r c js)"
    "group_category (build_group r c is) = group_category (build_group r c js)"
proof -
  have "max_by strength_rank (map item_strength (snd (stance is))) = max_by strength_rank (map item_strength (snd (stance js)))"
    by (rule max_by_set[OF _ strength_rank_inj]) (simp add: stance_set(2)[OF assms])
  then show "group_direction (build_group r c is) = group_direction (build_group r c js)"
    "group_strength (build_group r c is) = group_strength (build_group r c js)"
    "group_role (build_group r c is) = group_role (build_group r c js)"
    "group_category (build_group r c is) = group_category (build_group r c js)"
    by (simp_all add: build_group_def split_def Let_def stance_set(1)[OF assms])
qed

text \<open>The voice of a group: all that the scores read of it.\<close>

definition voice :: "EvidenceGroup \<Rightarrow> TimeframeRole \<times> EvidenceCategory \<times> EvidenceDirection \<times> EvidenceStrength option" where
  "voice g = (group_role g, group_category g, group_direction g, group_strength g)"

lemma group_evidence_voices:
  assumes "set is = set js"
  shows "map voice (group_evidence is) = map voice (group_evidence js)"
proof -
  have s: "set (items_of is k) = set (items_of js k)" for k
    using assms by (simp add: items_of_def)
  then have "items_of is k \<noteq> [] \<longleftrightarrow> items_of js k \<noteq> []" for k
    by (metis set_empty)
  then show ?thesis
    by (simp add: group_evidence_def voice_def comp_def build_group_set[OF s])
qed
end
