(* ===== verification/Analysis_Quality.thy ===== *)
theory Analysis_Quality
  imports Analysis_Fusion
begin

text \<open>
\<open>app/domain/analysis/quality.py\<close> and \<open>entry.py\<close>: the two heuristic scores, each the points of its
components over the weight that could be evaluated, in Python's float and integer arithmetic.
\<close>

section \<open>Setup quality (quality.py)\<close>

datatype QualityComponent =
    TREND_ALIGNMENT
  | MARKET_STRUCTURE
  | MOMENTUM
  | VOLUME
  | SUPPORT_RESISTANCE
  | TIMEFRAME_ALIGNMENT
  | TIMEFRAME_COVERAGE
  | REGIME_SUITABILITY
  | CONTRADICTION_BURDEN
  | DATA_AVAILABILITY

record QualityWeights =
  w_trend_alignment :: int
  w_market_structure :: int
  w_momentum :: int
  w_volume :: int
  w_support_resistance :: int
  w_timeframe_alignment :: int
  w_timeframe_coverage :: int
  w_regime_suitability :: int
  w_contradiction_burden :: int
  w_data_availability :: int

definition default_quality_weights :: QualityWeights where
  "default_quality_weights =
     \<lparr> w_trend_alignment = 15, w_market_structure = 15, w_momentum = 8, w_volume = 8, w_support_resistance = 10,
       w_timeframe_alignment = 16, w_timeframe_coverage = 8, w_regime_suitability = 8, w_contradiction_burden = 8,
       w_data_availability = 4 \<rparr>"

definition all_weights :: "QualityWeights \<Rightarrow> int list" where
  "all_weights w =
     [w_trend_alignment w, w_market_structure w, w_momentum w, w_volume w, w_support_resistance w,
      w_timeframe_alignment w, w_timeframe_coverage w, w_regime_suitability w, w_contradiction_burden w,
      w_data_availability w]"

definition make_quality_weights :: "QualityWeights \<Rightarrow> QualityWeights res" where
  "make_quality_weights w =
     (if list_ex (\<lambda>x. x < 0) (all_weights w) \<or> sum_list (all_weights w) = 0 then Inl ValueError else Inr w)"

record QualityConfig =
  quality_weights :: QualityWeights
  major_contradiction_cost :: int
  moderate_contradiction_cost :: int
  minor_contradiction_cost :: int
  minimum_roles_for_alignment :: int

definition default_quality_config :: QualityConfig where
  "default_quality_config =
     \<lparr> quality_weights = default_quality_weights, major_contradiction_cost = 3, moderate_contradiction_cost = 2,
       minor_contradiction_cost = 1, minimum_roles_for_alignment = 2 \<rparr>"

text \<open>A component's score; \<open>None\<close> points where it could not be evaluated.\<close>

record 'c ComponentScore =
  score_component :: 'c
  score_weight :: int
  score_awarded :: "int option"
  score_groups :: "EvidenceGroup list"

definition score_available :: "'c ComponentScore \<Rightarrow> bool" where
  "score_available s = (score_awarded s \<noteq> None)"

record SetupQuality =
  quality_direction :: EvidenceDirection
  quality_score :: int
  quality_components :: "QualityComponent ComponentScore list"
  quality_available_weight :: int
  quality_total_weight :: int

definition unevaluated :: "'c \<Rightarrow> int \<Rightarrow> 'c ComponentScore" where
  "unevaluated c w = \<lparr> score_component = c, score_weight = w, score_awarded = None, score_groups = [] \<rparr>"

definition scored :: "'c \<Rightarrow> int \<Rightarrow> int \<Rightarrow> EvidenceGroup list \<Rightarrow> 'c ComponentScore" where
  "scored c w a gs = \<lparr> score_component = c, score_weight = w, score_awarded = Some a, score_groups = gs \<rparr>"

definition clamp :: "int \<Rightarrow> int \<Rightarrow> int" where
  "clamp v w = max 0 (min v w)"

text \<open>An \<open>int\<close> times a \<open>float\<close>, rounded to the nearest integer.\<close>

definition int_times :: "int \<Rightarrow> flt \<Rightarrow> flt res" where
  "int_times n x = (if flt_is_finite (flt_of_int n) then Inr (fmul (flt_of_int n) x) else Inl OverflowError)"

definition round_share :: "int \<Rightarrow> flt \<Rightarrow> int res" where
  "round_share w x = rbind (int_times w x) py_round"

fun strength_share :: "EvidenceStrength \<Rightarrow> flt" where
  "strength_share EV_WEAK = flit (4 / 10)"
| "strength_share EV_MODERATE = flit (7 / 10)"
| "strength_share EV_STRONG = flit 1"

definition group_share :: "EvidenceGroup \<Rightarrow> flt" where
  "group_share g = (case group_strength g of None \<Rightarrow> FNum 0 | Some s \<Rightarrow> strength_share s)"

fun share_from :: "EvidenceCategory list \<Rightarrow> flt \<Rightarrow> EvidenceGroup list \<Rightarrow> flt" where
  "share_from seen share [] = share"
| "share_from seen share (g # gs) =
     (if group_category g \<in> set seen then share_from seen share gs
      else share_from (group_category g # seen) (fadd share (flit (15 / 100))) gs)"

text \<open>The strongest group sets the base; each further category adds a little, up to one.\<close>

definition share_of :: "EvidenceGroup list \<Rightarrow> flt" where
  "share_of gs =
     (case sort_less (\<lambda>a b. flt_less (group_share b) (group_share a)) gs of
        [] \<Rightarrow> FNum 0
      | g # r \<Rightarrow> py_fmin (share_from [group_category g] (group_share g) r) (flit 1))"

definition category_component :: "FusedEvidence \<Rightarrow> EvidenceDirection \<Rightarrow> QualityComponent \<Rightarrow> EvidenceCategory list \<Rightarrow> int \<Rightarrow> QualityComponent ComponentScore res" where
  "category_component f d c cats w =
     (let relevant = filter (\<lambda>g. group_category g \<in> set cats) (fused_groups f);
          graded = filter (\<lambda>g. is_directional (group_direction g)) relevant;
          support = share_of (filter (\<lambda>g. group_direction g = d) graded);
          against = share_of (filter (\<lambda>g. group_direction g \<noteq> d) graded)
      in if relevant = [] then Inr (unevaluated c w)
         else if graded = [] then Inr (scored c w 0 relevant)
         else rmap (\<lambda>n. scored c w (clamp n w) relevant) (round_share w (fsub support against)))"

fun role_share :: "TimeframeRole \<Rightarrow> flt" where
  "role_share ROLE_REGIME = flit (35 / 100)"
| "role_share ROLE_BIAS = flit (35 / 100)"
| "role_share ROLE_SETUP = flit (20 / 100)"
| "role_share ROLE_ENTRY = flit (10 / 100)"

text \<open>The roles whose reading exists and is not \<open>UNAVAILABLE\<close>, with what they read.\<close>

definition readable_roles :: "FusedEvidence \<Rightarrow> (TimeframeRole \<times> EvidenceDirection) list" where
  "readable_roles f =
     concat (map (\<lambda>r. case reading_for (readings (fused_contradictions f)) r of
                        None \<Rightarrow> []
                      | Some x \<Rightarrow> if reading_direction x = EV_UNAVAILABLE then [] else [(r, reading_direction x)])
       ROLES_BROADEST_FIRST)"

definition readable_share :: "(TimeframeRole \<times> EvidenceDirection) list \<Rightarrow> flt" where
  "readable_share rs = foldl (\<lambda>acc p. fadd acc (role_share (fst p))) (FNum 0) rs"

definition earned_share :: "EvidenceDirection \<Rightarrow> (TimeframeRole \<times> EvidenceDirection) list \<Rightarrow> flt" where
  "earned_share d rs =
     foldl (\<lambda>acc p. if snd p = d then fadd acc (role_share (fst p))
                    else if snd p = EV_NEUTRAL then fadd acc (fmul (role_share (fst p)) (flit (1 / 2)))
                    else acc) (FNum 0) rs"

definition timeframe_alignment :: "FusedEvidence \<Rightarrow> EvidenceDirection \<Rightarrow> int \<Rightarrow> int \<Rightarrow> QualityComponent ComponentScore res" where
  "timeframe_alignment f d w least =
     (let rs = readable_roles f in
      if int (length rs) < least then Inr (unevaluated TIMEFRAME_ALIGNMENT w)
      else rbind (int_times w (earned_share d rs)) (\<lambda>x.
           rbind (py_fdiv x (readable_share rs)) (\<lambda>q.
           rmap (\<lambda>n. scored TIMEFRAME_ALIGNMENT w (clamp n w) []) (py_round q))))"

definition timeframe_coverage :: "FusedEvidence \<Rightarrow> int \<Rightarrow> QualityComponent ComponentScore res" where
  "timeframe_coverage f w =
     rmap (\<lambda>n. scored TIMEFRAME_COVERAGE w (clamp n w) []) (round_share w (readable_share (readable_roles f)))"

definition regime_suitability :: "FusedEvidence \<Rightarrow> EvidenceDirection \<Rightarrow> int \<Rightarrow> QualityComponent ComponentScore res" where
  "regime_suitability f d w =
     (let groups = filter (\<lambda>g. group_category g = CAT_REGIME) (fused_groups f);
          for = list_ex (\<lambda>g. group_direction g = d) groups;
          against = list_ex (\<lambda>g. is_directional (group_direction g) \<and> group_direction g \<noteq> d) groups
      in if groups = [] then Inr (unevaluated REGIME_SUITABILITY w)
         else rmap (\<lambda>n. scored REGIME_SUITABILITY w (clamp n w) groups)
           (if for \<and> \<not> against then Inr w
            else if against \<and> \<not> for then Inr 0
            else if for \<and> against then round_share w (flit (3 / 10))
            else round_share w (flit (4 / 10))))"

text \<open>One charge per distinct conflict: the worst severity of each pair of type and roles.\<close>

type_synonym conflict_key = "ContradictionType \<times> TimeframeRole list"

definition note_conflict :: "(conflict_key \<times> ContradictionSeverity) list \<Rightarrow> Contradiction \<Rightarrow> (conflict_key \<times> ContradictionSeverity) list" where
  "note_conflict kept c =
     (let k = (contradiction_type c, contradiction_roles c) in
      case map_of kept k of
        None \<Rightarrow> kept @ [(k, contradiction_severity c)]
      | Some s \<Rightarrow> if severity_rank s < severity_rank (contradiction_severity c)
                  then map (\<lambda>p. if fst p = k then (k, contradiction_severity c) else p) kept else kept)"

definition cost_of :: "QualityConfig \<Rightarrow> ContradictionSeverity \<Rightarrow> int" where
  "cost_of cfg s =
     (case s of
        SEV_MAJOR \<Rightarrow> major_contradiction_cost cfg
      | SEV_MODERATE \<Rightarrow> moderate_contradiction_cost cfg
      | SEV_MINOR \<Rightarrow> minor_contradiction_cost cfg)"

definition contradiction_burden :: "FusedEvidence \<Rightarrow> QualityConfig \<Rightarrow> QualityComponent ComponentScore" where
  "contradiction_burden f cfg =
     (let w = w_contradiction_burden (quality_weights cfg);
          distinct_ones = foldl note_conflict [] (contradictions (fused_contradictions f));
          charged = sum_list (map (\<lambda>p. cost_of cfg (snd p)) distinct_ones)
      in scored CONTRADICTION_BURDEN w (clamp (w - charged) w) [])"

definition weight_total :: "'c ComponentScore list \<Rightarrow> int" where
  "weight_total ss = sum_list (map score_weight ss)"

definition available_scores :: "'c ComponentScore list \<Rightarrow> 'c ComponentScore list" where
  "available_scores = filter score_available"

definition data_availability :: "QualityComponent ComponentScore list \<Rightarrow> int \<Rightarrow> QualityComponent ComponentScore res" where
  "data_availability ss w =
     rbind (if weight_total ss = 0 then Inr (FNum 0) else py_int_div (weight_total (available_scores ss)) (weight_total ss))
       (\<lambda>coverage. rmap (\<lambda>n. scored DATA_AVAILABILITY w (clamp n w) []) (round_share w coverage))"

text \<open>\<open>round(100 * awarded / available\_weight)\<close>, or zero over no weight.\<close>

definition normalised :: "'c ComponentScore list \<Rightarrow> int res" where
  "normalised ss =
     (let av = available_scores ss; awarded = sum_list (map (\<lambda>s. case score_awarded s of None \<Rightarrow> 0 | Some n \<Rightarrow> n) av) in
      if weight_total av = 0 then Inr 0 else rbind (py_int_div (100 * awarded) (weight_total av)) py_round)"

definition quality_scores :: "FusedEvidence \<Rightarrow> EvidenceDirection \<Rightarrow> QualityConfig \<Rightarrow> QualityComponent ComponentScore list res" where
  "quality_scores f d cfg =
     (let w = quality_weights cfg in
      rbind (category_component f d TREND_ALIGNMENT [CAT_TREND] (w_trend_alignment w)) (\<lambda>a.
      rbind (category_component f d MARKET_STRUCTURE [CAT_STRUCTURE] (w_market_structure w)) (\<lambda>b.
      rbind (category_component f d MOMENTUM [CAT_MOMENTUM, CAT_INTRADAY] (w_momentum w)) (\<lambda>c.
      rbind (category_component f d VOLUME [CAT_VOLUME, CAT_DIVERGENCE] (w_volume w)) (\<lambda>v.
      rbind (category_component f d SUPPORT_RESISTANCE [CAT_LEVEL, CAT_BREAKOUT, CAT_RETEST] (w_support_resistance w)) (\<lambda>l.
      rbind (timeframe_alignment f d (w_timeframe_alignment w) (minimum_roles_for_alignment cfg)) (\<lambda>al.
      rbind (timeframe_coverage f (w_timeframe_coverage w)) (\<lambda>cov.
      rbind (regime_suitability f d (w_regime_suitability w)) (\<lambda>rg.
        let ss = [a, b, c, v, l, al, cov, rg, contradiction_burden f cfg] in
        rmap (\<lambda>da. ss @ [da]) (data_availability ss (w_data_availability w)))))))))))"

definition score_setup :: "FusedEvidence \<Rightarrow> EvidenceDirection \<Rightarrow> QualityConfig \<Rightarrow> SetupQuality res" where
  "score_setup f d cfg =
     (if \<not> is_directional d then Inl ValueError
      else
        rbind (quality_scores f d cfg) (\<lambda>ss.
        rmap (\<lambda>n. \<lparr> quality_direction = d, quality_score = n, quality_components = ss,
                   quality_available_weight = weight_total (available_scores ss),
                   quality_total_weight = sum_list (all_weights (quality_weights cfg)) \<rparr>) (normalised ss)))"

section \<open>Entry quality (entry.py)\<close>

datatype EntryComponent =
    ENTRY_STRUCTURE
  | LEVEL_PROXIMITY
  | BREAKOUT_RETEST
  | VOLUME_CONFIRMATION
  | MOMENTUM_CONTEXT
  | VWAP_RELATIONSHIP
  | EXTENSION

record EntryWeights =
  e_entry_structure :: int
  e_level_proximity :: int
  e_breakout_retest :: int
  e_volume_confirmation :: int
  e_momentum_context :: int
  e_vwap_relationship :: int
  e_extension :: int

definition default_entry_weights :: EntryWeights where
  "default_entry_weights =
     \<lparr> e_entry_structure = 20, e_level_proximity = 16, e_breakout_retest = 16, e_volume_confirmation = 12,
       e_momentum_context = 12, e_vwap_relationship = 8, e_extension = 16 \<rparr>"

definition all_entry_weights :: "EntryWeights \<Rightarrow> int list" where
  "all_entry_weights w =
     [e_entry_structure w, e_level_proximity w, e_breakout_retest w, e_volume_confirmation w, e_momentum_context w,
      e_vwap_relationship w, e_extension w]"

definition make_entry_weights :: "EntryWeights \<Rightarrow> EntryWeights res" where
  "make_entry_weights w =
     (if list_ex (\<lambda>x. x < 0) (all_entry_weights w) \<or> sum_list (all_entry_weights w) = 0 then Inl ValueError else Inr w)"

record EntryConfig =
  entry_weights :: EntryWeights
  comfortable_extension_atr :: flt
  extended_move_atr :: flt
  extension_reference_ema :: nat

definition default_entry_config :: EntryConfig where
  "default_entry_config =
     \<lparr> entry_weights = default_entry_weights, comfortable_extension_atr = flit 1, extended_move_atr = flit 3,
       extension_reference_ema = 20 \<rparr>"

record EntryQuality =
  entry_direction :: EvidenceDirection
  entry_score :: "int option"
  entry_components :: "EntryComponent ComponentScore list"
  entry_available_weight :: int
  entry_total_weight :: int

definition entry_component :: "EntryQuality \<Rightarrow> EntryComponent \<Rightarrow> EntryComponent ComponentScore option" where
  "entry_component q c = find (\<lambda>s. score_component s = c) (entry_components q)"

definition strongest_share :: "EvidenceGroup list \<Rightarrow> flt" where
  "strongest_share gs =
     (case concat (map (\<lambda>g. case group_strength g of None \<Rightarrow> [] | Some s \<Rightarrow> [strength_share s]) gs) of
        [] \<Rightarrow> FNum 0
      | x # xs \<Rightarrow> foldl py_fmax x xs)"

definition from_categories :: "FusedEvidence \<Rightarrow> EvidenceDirection \<Rightarrow> EntryComponent \<Rightarrow> EvidenceCategory list \<Rightarrow> int \<Rightarrow> EntryComponent ComponentScore res" where
  "from_categories f d c cats w =
     (let groups = filter (\<lambda>g. group_category g \<in> set cats) (groups_for f ROLE_ENTRY);
          graded = filter (\<lambda>g. is_directional (group_direction g)) groups;
          support = strongest_share (filter (\<lambda>g. group_direction g = d) graded);
          against = strongest_share (filter (\<lambda>g. group_direction g \<noteq> d) graded)
      in if groups = [] then Inr (unevaluated c w)
         else if graded = [] then rmap (\<lambda>n. scored c w n groups) (round_share w (flit (1 / 2)))
         else rmap (\<lambda>n. scored c w (clamp n w) groups) (round_share w (fsub support against)))"

definition extension_award :: "EntryConfig \<Rightarrow> flt \<Rightarrow> int res" where
  "extension_award cfg distance =
     (let w = e_extension (entry_weights cfg) in
      if flt_le distance (comfortable_extension_atr cfg) then Inr w
      else if flt_le (extended_move_atr cfg) distance then Inr 0
      else rbind (int_times w (fsub (extended_move_atr cfg) distance)) (\<lambda>x.
           rbind (py_fdiv x (fsub (extended_move_atr cfg) (comfortable_extension_atr cfg))) py_round))"

definition extension :: "TimeframeView \<Rightarrow> EntryConfig \<Rightarrow> EntryComponent ComponentScore res" where
  "extension v cfg =
     (let w = e_extension (entry_weights cfg); t = view_technicals v;
          reference = (case map_of (tech_ema t) (extension_reference_ema cfg) of
                         None \<Rightarrow> None | Some vs \<Rightarrow> measure_at vs (last_index v))
      in case (reference, measure_at (tech_atr t) (last_index v)) of
           (Some x, Some a) \<Rightarrow>
             (if flt_le a (FNum 0) then Inr (unevaluated EXTENSION w)
              else rbind (py_fdiv (flt_abs (fsub (flt_of_dec (last_close v)) x)) a) (\<lambda>distance.
                   rmap (\<lambda>n. scored EXTENSION w (clamp n w) []) (extension_award cfg distance)))
         | _ \<Rightarrow> Inr (unevaluated EXTENSION w))"

definition entry_scores :: "TimeframeView \<Rightarrow> FusedEvidence \<Rightarrow> EvidenceDirection \<Rightarrow> EntryConfig \<Rightarrow> EntryComponent ComponentScore list res" where
  "entry_scores v f d cfg =
     (let w = entry_weights cfg in
      rbind (from_categories f d ENTRY_STRUCTURE [CAT_STRUCTURE] (e_entry_structure w)) (\<lambda>a.
      rbind (from_categories f d LEVEL_PROXIMITY [CAT_LEVEL] (e_level_proximity w)) (\<lambda>b.
      rbind (from_categories f d BREAKOUT_RETEST [CAT_BREAKOUT, CAT_RETEST] (e_breakout_retest w)) (\<lambda>c.
      rbind (from_categories f d VOLUME_CONFIRMATION [CAT_VOLUME, CAT_DIVERGENCE] (e_volume_confirmation w)) (\<lambda>vol.
      rbind (from_categories f d MOMENTUM_CONTEXT [CAT_MOMENTUM] (e_momentum_context w)) (\<lambda>m.
      rbind (from_categories f d VWAP_RELATIONSHIP [CAT_INTRADAY] (e_vwap_relationship w)) (\<lambda>vw.
      rmap (\<lambda>x. [a, b, c, vol, m, vw, x]) (extension v cfg))))))))"

definition score_entry :: "MultiTimeframeView \<Rightarrow> FusedEvidence \<Rightarrow> EvidenceDirection \<Rightarrow> EntryConfig \<Rightarrow> EntryQuality res" where
  "score_entry m f d cfg =
     (let whole = sum_list (all_entry_weights (entry_weights cfg)) in
      if \<not> is_directional d then Inl ValueError
      else case view_for m ROLE_ENTRY of
             None \<Rightarrow> Inr \<lparr> entry_direction = d, entry_score = None, entry_components = [], entry_available_weight = 0,
                           entry_total_weight = whole \<rparr>
           | Some v \<Rightarrow>
               rbind (entry_scores v f d cfg) (\<lambda>ss.
               rmap (\<lambda>n. \<lparr> entry_direction = d, entry_score = Some n, entry_components = ss,
                          entry_available_weight = weight_total (available_scores ss), entry_total_weight = whole \<rparr>)
                 (normalised ss)))"

end
