(* ===== verification/Analysis_Scenarios.thy ===== *)
theory Analysis_Scenarios
  imports Analysis_Quality Analysis_Evidence
begin

text \<open>
\<open>app/domain/analysis/scenarios.py\<close> and \<open>engine.py\<close>: the three cases with their states and requirements,
and the assembled multi-timeframe analysis.  \<open>analysis_facts\<close>, \<open>scenario_facts\<close>: what a returned analysis
was made of; \<open>confirmed_means_met\<close>: a confirmed case has every requirement met.
\<close>

section \<open>Scenarios (scenarios.py)\<close>

datatype ScenarioCase = CASE_BULL | CASE_BEAR | CASE_NEUTRAL

datatype ScenarioState =
    SCENARIO_UNAVAILABLE
  | SCENARIO_INACTIVE
  | FORMING
  | WAITING_FOR_CONFIRMATION
  | SCENARIO_CONFIRMED

datatype RequirementStatus = MET | UNMET | REQUIREMENT_UNKNOWN

datatype RequirementCode =
    BIAS_TIMEFRAME_AGREES
  | SETUP_TIMEFRAME_AGREES
  | ENTRY_TIMEFRAME_AGREES
  | NO_MAJOR_CONTRADICTION
  | STRUCTURE_SUPPORTS
  | BREAKOUT_OR_RETEST_RESOLVED

record Requirement =
  requirement_code :: RequirementCode
  requirement_status :: RequirementStatus

datatype InvalidationCode =
    OPPOSING_CHOCH_ON_BIAS
  | BIAS_TIMEFRAME_REVERSES
  | REGIME_TURNS_AGAINST
  | OPPOSING_CONFIRMED_BREAKOUT
  | RANGE_BREAKS_EITHER_WAY

record Scenario =
  scenario_case :: ScenarioCase
  scenario_state :: ScenarioState
  scenario_supporting :: "EvidenceGroup list"
  scenario_counter :: "EvidenceGroup list"
  scenario_contradictions :: "Contradiction list"
  scenario_requirements :: "Requirement list"
  scenario_invalidations :: "InvalidationCode list"
  scenario_unavailable :: "EvidenceGroup list"
  scenario_quality :: "SetupQuality option"
  scenario_entry :: "EntryQuality option"

definition requirements_with :: "RequirementStatus \<Rightarrow> Scenario \<Rightarrow> Requirement list" where
  "requirements_with st s = filter (\<lambda>r. requirement_status r = st) (scenario_requirements s)"

definition outstanding_requirements :: "Scenario \<Rightarrow> Requirement list" where
  "outstanding_requirements s = filter (\<lambda>r. requirement_status r \<noteq> MET) (scenario_requirements s)"

record ScenarioSet =
  bull :: Scenario
  bear :: Scenario
  neutral :: Scenario

fun scenario_of :: "ScenarioSet \<Rightarrow> ScenarioCase \<Rightarrow> Scenario" where
  "scenario_of s CASE_BULL = bull s"
| "scenario_of s CASE_BEAR = bear s"
| "scenario_of s CASE_NEUTRAL = neutral s"

record ScenarioConfig =
  scenario_quality_config :: QualityConfig
  scenario_entry_config :: EntryConfig

definition agreement :: "FusedEvidence \<Rightarrow> EvidenceDirection \<Rightarrow> TimeframeRole \<Rightarrow> RequirementStatus" where
  "agreement f d r =
     (case reading_for (readings (fused_contradictions f)) r of
        None \<Rightarrow> REQUIREMENT_UNKNOWN
      | Some x \<Rightarrow> if reading_direction x = EV_UNAVAILABLE then REQUIREMENT_UNKNOWN
                  else if reading_direction x = d then MET else UNMET)"

text \<open>Unknown without a group of the categories, met when one of them takes the side.\<close>

definition group_status :: "FusedEvidence \<Rightarrow> EvidenceDirection \<Rightarrow> EvidenceCategory list \<Rightarrow> RequirementStatus" where
  "group_status f d cats =
     (let gs = filter (\<lambda>g. group_category g \<in> set cats) (fused_groups f) in
      if gs = [] then REQUIREMENT_UNKNOWN
      else if list_ex (\<lambda>g. group_direction g = d) gs then MET else UNMET)"

definition has_major :: "Contradiction list \<Rightarrow> bool" where
  "has_major cs = list_ex (\<lambda>c. contradiction_severity c = SEV_MAJOR) cs"

definition requirements :: "FusedEvidence \<Rightarrow> EvidenceDirection \<Rightarrow> Requirement list" where
  "requirements f d =
     [\<lparr> requirement_code = BIAS_TIMEFRAME_AGREES, requirement_status = agreement f d ROLE_BIAS \<rparr>,
      \<lparr> requirement_code = SETUP_TIMEFRAME_AGREES, requirement_status = agreement f d ROLE_SETUP \<rparr>,
      \<lparr> requirement_code = ENTRY_TIMEFRAME_AGREES, requirement_status = agreement f d ROLE_ENTRY \<rparr>,
      \<lparr> requirement_code = NO_MAJOR_CONTRADICTION,
        requirement_status = (if has_major (contradictions (fused_contradictions f)) then UNMET else MET) \<rparr>,
      \<lparr> requirement_code = STRUCTURE_SUPPORTS, requirement_status = group_status f d [CAT_STRUCTURE] \<rparr>,
      \<lparr> requirement_code = BREAKOUT_OR_RETEST_RESOLVED,
        requirement_status = group_status f d [CAT_BREAKOUT, CAT_RETEST] \<rparr>]"

definition state_of :: "FusedEvidence \<Rightarrow> EvidenceDirection \<Rightarrow> EvidenceGroup list \<Rightarrow> Requirement list \<Rightarrow> ScenarioState" where
  "state_of f d support reqs =
     (case reading_for (readings (fused_contradictions f)) ROLE_BIAS of
        None \<Rightarrow> SCENARIO_UNAVAILABLE
      | Some b \<Rightarrow>
          (if reading_direction b = EV_UNAVAILABLE then SCENARIO_UNAVAILABLE
           else if support = [] then SCENARIO_INACTIVE
           else if reading_direction b \<noteq> d then FORMING
           else if list_ex (\<lambda>r. requirement_status r \<noteq> MET) reqs then WAITING_FOR_CONFIRMATION
           else SCENARIO_CONFIRMED))"

definition directional_scenario :: "MultiTimeframeView \<Rightarrow> FusedEvidence \<Rightarrow> EvidenceDirection \<Rightarrow> ScenarioConfig \<Rightarrow> Scenario res" where
  "directional_scenario m f d cfg =
     rbind (score_setup f d (scenario_quality_config cfg)) (\<lambda>q.
     rbind (score_entry m f d (scenario_entry_config cfg)) (\<lambda>e.
       Inr \<lparr> scenario_case = (if d = EV_BULLISH then CASE_BULL else CASE_BEAR),
             scenario_state = state_of f d (supporting f d) (requirements f d),
             scenario_supporting = supporting f d, scenario_counter = opposing f d,
             scenario_contradictions = contradictions (fused_contradictions f),
             scenario_requirements = requirements f d,
             scenario_invalidations = [OPPOSING_CHOCH_ON_BIAS, BIAS_TIMEFRAME_REVERSES, REGIME_TURNS_AGAINST, OPPOSING_CONFIRMED_BREAKOUT],
             scenario_unavailable = supporting f EV_UNAVAILABLE, scenario_quality = Some q, scenario_entry = Some e \<rparr>))"

definition neutral_state :: "DirectionalReading list \<Rightarrow> ScenarioState" where
  "neutral_state rs =
     (let neutrals = list_ex (\<lambda>r. reading_direction r = EV_NEUTRAL) rs;
          directed = list_ex (\<lambda>r. is_directional (reading_direction r)) rs
      in if rs = [] then SCENARIO_UNAVAILABLE
         else if neutrals \<and> \<not> directed then SCENARIO_CONFIRMED
         else if neutrals \<and> directed then FORMING
         else SCENARIO_INACTIVE)"

definition neutral_scenario :: "FusedEvidence \<Rightarrow> Scenario" where
  "neutral_scenario f =
     (let rs = readings (fused_contradictions f) in
      \<lparr> scenario_case = CASE_NEUTRAL, scenario_state = neutral_state rs,
        scenario_supporting = (if rs = [] then [] else supporting f EV_NEUTRAL),
        scenario_counter = (if rs = [] then [] else filter (\<lambda>g. is_directional (group_direction g)) (fused_groups f)),
        scenario_contradictions = contradictions (fused_contradictions f), scenario_requirements = [],
        scenario_invalidations = [RANGE_BREAKS_EITHER_WAY], scenario_unavailable = supporting f EV_UNAVAILABLE,
        scenario_quality = None, scenario_entry = None \<rparr>)"

definition build_scenarios :: "MultiTimeframeView \<Rightarrow> FusedEvidence \<Rightarrow> ScenarioConfig \<Rightarrow> ScenarioSet res" where
  "build_scenarios m f cfg =
     rbind (directional_scenario m f EV_BULLISH cfg) (\<lambda>up.
     rbind (directional_scenario m f EV_BEARISH cfg) (\<lambda>down.
       Inr \<lparr> bull = up, bear = down, neutral = neutral_scenario f \<rparr>))"

section \<open>The assembled analysis (engine.py)\<close>

record AnalysisConfig =
  analysis_evidence :: EvidenceConfig
  analysis_contradictions :: ContradictionConfig
  analysis_scenarios :: ScenarioConfig

record MultiTimeframeAnalysis =
  an_symbol :: string
  an_views :: MultiTimeframeView
  an_evidence :: "EvidenceItem list"
  an_contract_evidence :: "EvidenceItem list"
  an_contradictions :: ContradictionReport
  an_fused :: FusedEvidence
  an_scenarios :: ScenarioSet

definition role_evidence :: "MultiTimeframeAnalysis \<Rightarrow> TimeframeRole \<Rightarrow> EvidenceItem list" where
  "role_evidence a r = filter (\<lambda>i. item_role i = Some r) (an_evidence a)"

definition analyse_multi_timeframe :: "TimeframeView list \<Rightarrow> TimeframeRolePolicy \<Rightarrow> BasisResult option \<Rightarrow> OpenInterestReading option \<Rightarrow> AnalysisConfig \<Rightarrow> MultiTimeframeAnalysis res" where
  "analyse_multi_timeframe vs p basis oi cfg =
     rbind (build_views vs p) (\<lambda>m.
     rbind (rmap concat (traverse (\<lambda>v. build_timeframe_evidence v (analysis_evidence cfg)) (multi_views m))) (\<lambda>is.
     let contract = build_contract_evidence basis oi;
         report = detect_contradictions m is (analysis_contradictions cfg);
         fused = fuse_evidence is contract report
     in rmap (\<lambda>sc. \<lparr> an_symbol = multi_symbol m, an_views = m, an_evidence = is, an_contract_evidence = contract,
                    an_contradictions = report, an_fused = fused, an_scenarios = sc \<rparr>)
          (build_scenarios m fused (analysis_scenarios cfg))))"

section \<open>What an analysis contains\<close>

lemma analysis_facts:
  assumes "analyse_multi_timeframe vs p basis oi cfg = Inr a"
  obtains parts where "build_views vs p = Inr (an_views a)"
    "traverse (\<lambda>v. build_timeframe_evidence v (analysis_evidence cfg)) (multi_views (an_views a)) = Inr parts"
    "an_evidence a = concat parts"
    "an_contradictions a = detect_contradictions (an_views a) (an_evidence a) (analysis_contradictions cfg)"
    "fused_contradictions (an_fused a) = an_contradictions a" "fused_groups (an_fused a) = group_evidence (an_evidence a)"
    "build_scenarios (an_views a) (an_fused a) (analysis_scenarios cfg) = Inr (an_scenarios a)"
  using assms
  by (auto simp: analyse_multi_timeframe_def Let_def rbind_Inr_iff rmap_Inr_iff fuse_evidence_def)

lemma scenario_facts:
  assumes "build_scenarios m f cfg = Inr sc" and "is_directional d"
  defines "s \<equiv> scenario_of sc (if d = EV_BULLISH then CASE_BULL else CASE_BEAR)"
  shows "scenario_state s = state_of f d (supporting f d) (requirements f d)"
    "scenario_requirements s = requirements f d" "scenario_contradictions s = contradictions (fused_contradictions f)"
    "\<exists>e. scenario_entry s = Some e \<and> score_entry m f d (scenario_entry_config cfg) = Inr e"
    "\<exists>q. scenario_quality s = Some q \<and> score_setup f d (scenario_quality_config cfg) = Inr q"
  using assms
  by (auto simp: build_scenarios_def directional_scenario_def rbind_Inr_iff is_directional_def)

text \<open>A confirmed case needs every requirement met, the bias reading its way among them.\<close>

lemma confirmed_means_met:
  assumes "state_of f d gs (requirements f d) = SCENARIO_CONFIRMED"
  shows "\<forall>r\<in>set (requirements f d). requirement_status r = MET" "\<not> has_major (contradictions (fused_contradictions f))"
    "\<exists>b. reading_for (readings (fused_contradictions f)) ROLE_BIAS = Some b \<and> reading_direction b = d"
  using assms by (auto simp: state_of_def list_ex_iff requirements_def split: option.splits if_splits)

end
