(* ===== verification/No_Trade.thy ===== *)
theory No_Trade
  imports Analysis_Scenarios Money
begin

text \<open>
\<open>app/domain/suitability/no\_trade.py\<close>: the veto over a finished analysis, a position size, a reward ratio
and a data-quality verdict.  \<open>reading_at_role\<close>, \<open>major_in_views\<close>: what the analysis reads, in terms of the
regime and structure of the views it was given; \<open>clean_pass_cases\<close>: when nothing stands against a case.
\<close>

section \<open>The veto (no\_trade.py)\<close>

datatype NoTradeReason =
    CONFLICTING_TIMEFRAMES
  | CHAOTIC_REGIME
  | HIGH_VOLATILITY
  | MIDDLE_OF_RANGE
  | EXTENDED_MOVE
  | NO_CONFIRMATION
  | UNCLEAR_STRUCTURE
  | INSUFFICIENT_DATA_REASON
  | BAD_DATA
  | POOR_RISK_REWARD
  | RISK_NOT_PERMITTED
  | RISK_UNDETERMINED

datatype DeferredNoTradeReason = LOW_LIQUIDITY | EVENT_RISK | NEWS_RISK | ORDER_BOOK_IMBALANCE | CORRELATED_EXPOSURE

datatype FindingSeverity = BLOCKING | PENDING | CAUTION

record NoTradeFinding =
  finding_reason :: NoTradeReason
  finding_severity :: FindingSeverity

definition finding :: "NoTradeReason \<Rightarrow> FindingSeverity \<Rightarrow> NoTradeFinding" where
  "finding r s = \<lparr> finding_reason = r, finding_severity = s \<rparr>"

definition blocking :: "NoTradeFinding \<Rightarrow> bool" where
  "blocking f = (finding_severity f = BLOCKING)"

record NoTradeConfig =
  minimum_risk_reward :: dec
  extended_move_component_floor :: int

definition default_no_trade_config :: NoTradeConfig where
  "default_no_trade_config = \<lparr> minimum_risk_reward = DFin False 15 (-1), extended_move_component_floor = 1 \<rparr>"

datatype MissingRequirement = MISSING_DATA_QUALITY | MISSING_RISK_REWARD | MISSING_SIZING

record NoTradeAssessment =
  no_trade :: "bool option"
  findings :: "NoTradeFinding list"
  missing_requirements :: "MissingRequirement list"

definition with_severity :: "FindingSeverity \<Rightarrow> NoTradeAssessment \<Rightarrow> NoTradeFinding list" where
  "with_severity s a = filter (\<lambda>f. finding_severity f = s) (findings a)"

definition is_waitable :: "NoTradeAssessment \<Rightarrow> bool" where
  "is_waitable a = (with_severity BLOCKING a = [] \<and> with_severity PENDING a \<noteq> [])"

definition timeframe_findings :: "MultiTimeframeAnalysis \<Rightarrow> NoTradeFinding list" where
  "timeframe_findings a =
     (if has_major (contradictions (an_contradictions a)) then [finding CONFLICTING_TIMEFRAMES BLOCKING] else [])
     @ (if missing_roles (an_views a) \<noteq> [] then [finding INSUFFICIENT_DATA_REASON CAUTION] else [])"

definition view_regime :: "TimeframeView \<Rightarrow> MarketRegime" where
  "view_regime v = regime_of (snap_regime (view_structure v))"

definition regime_findings :: "MultiTimeframeAnalysis \<Rightarrow> NoTradeFinding list" where
  "regime_findings a =
     concat (map (\<lambda>v. if view_regime v = CHAOTIC then [finding CHAOTIC_REGIME BLOCKING]
                      else if view_regime v = HIGH_VOLATILITY_RANGE then [finding HIGH_VOLATILITY CAUTION]
                      else []) (multi_views (an_views a)))"

definition structure_findings :: "MultiTimeframeAnalysis \<Rightarrow> Scenario \<Rightarrow> NoTradeFinding list" where
  "structure_findings a s =
     (case reading_for (readings (an_contradictions a)) ROLE_BIAS of
        None \<Rightarrow> []
      | Some b \<Rightarrow> if reading_direction b = EV_UNAVAILABLE then [finding UNCLEAR_STRUCTURE BLOCKING] else [])
     @ (if list_ex (\<lambda>v. view_regime v \<in> {REGIME_RANGE, LOW_VOLATILITY_RANGE} \<and> view_role v \<in> {ROLE_BIAS, ROLE_SETUP})
              (multi_views (an_views a))
           \<and> scenario_state s \<noteq> SCENARIO_CONFIRMED
        then [finding MIDDLE_OF_RANGE PENDING] else [])
     @ (if scenario_state s \<in> {WAITING_FOR_CONFIRMATION, FORMING} then [finding NO_CONFIRMATION PENDING]
        else if scenario_state s = SCENARIO_UNAVAILABLE then [finding INSUFFICIENT_DATA_REASON BLOCKING]
        else [])"

definition entry_findings :: "Scenario \<Rightarrow> NoTradeConfig \<Rightarrow> NoTradeFinding list" where
  "entry_findings s cfg =
     (case scenario_entry s of
        None \<Rightarrow> []
      | Some e \<Rightarrow>
          (if entry_score e = None then []
           else case entry_component e EXTENSION of
             None \<Rightarrow> []
           | Some x \<Rightarrow>
               (case score_awarded x of
                  None \<Rightarrow> []
                | Some n \<Rightarrow> if n \<le> extended_move_component_floor cfg then [finding EXTENDED_MOVE PENDING] else [])))"

definition data_findings :: "DataQualityReport \<Rightarrow> NoTradeFinding list" where
  "data_findings r =
     (case quality_verdict r of
        DQ_BLOCKED \<Rightarrow> [finding BAD_DATA BLOCKING]
      | DQ_ACCEPTED_WITH_WARNINGS \<Rightarrow> [finding BAD_DATA CAUTION]
      | DQ_ACCEPTED \<Rightarrow> [])"

definition reward_findings :: "RiskReward \<Rightarrow> NoTradeConfig \<Rightarrow> NoTradeFinding list res" where
  "reward_findings rr cfg =
     (case rr_ratio rr of
        None \<Rightarrow> Inr [finding POOR_RISK_REWARD BLOCKING]
      | Some q \<Rightarrow> rmap (\<lambda>poor. if poor then [finding POOR_RISK_REWARD BLOCKING] else []) (py_less q (minimum_risk_reward cfg)))"

definition sizing_findings :: "PositionSizing \<Rightarrow> NoTradeFinding list" where
  "sizing_findings z =
     (case sz_outcome z of
        NOT_PERMITTED \<Rightarrow> [finding RISK_NOT_PERMITTED BLOCKING]
      | INVALID \<Rightarrow> [finding RISK_NOT_PERMITTED BLOCKING]
      | UNDETERMINED \<Rightarrow> [finding RISK_UNDETERMINED CAUTION]
      | ALLOWED \<Rightarrow> [])"

definition verdict_of :: "MultiTimeframeAnalysis \<Rightarrow> NoTradeFinding list \<Rightarrow> bool option" where
  "verdict_of a fs =
     (if list_ex blocking fs then Some True
      else if missing_roles (an_views a) \<noteq> [] \<or> list_ex (\<lambda>f. finding_reason f = RISK_UNDETERMINED) fs then None
      else Some False)"

definition assess_no_trade :: "MultiTimeframeAnalysis \<Rightarrow> EvidenceDirection \<Rightarrow> PositionSizing option \<Rightarrow> RiskReward option \<Rightarrow> DataQualityReport option \<Rightarrow> NoTradeConfig \<Rightarrow> NoTradeAssessment res" where
  "assess_no_trade a d sizing reward quality cfg =
     (if \<not> is_directional d then Inl ValueError
      else
        let s = scenario_of (an_scenarios a) (if d = EV_BULLISH then CASE_BULL else CASE_BEAR) in
        rbind (case reward of None \<Rightarrow> Inr [] | Some rr \<Rightarrow> reward_findings rr cfg) (\<lambda>rewards.
        let fs = timeframe_findings a @ regime_findings a @ structure_findings a s @ entry_findings s cfg
                 @ (case quality of None \<Rightarrow> [] | Some r \<Rightarrow> data_findings r) @ rewards
                 @ (case sizing of None \<Rightarrow> [] | Some z \<Rightarrow> sizing_findings z)
        in Inr \<lparr> no_trade = verdict_of a fs, findings = fs,
                 missing_requirements =
                   (if quality = None then [MISSING_DATA_QUALITY] else [])
                   @ (if reward = None then [MISSING_RISK_REWARD] else [])
                   @ (if sizing = None then [MISSING_SIZING] else []) \<rparr>))"

section \<open>What a clean pass means\<close>

lemma blocking_finding [simp]: "blocking (finding r s) = (s = BLOCKING)" "finding_reason (finding r s) = r"
  by (simp_all add: blocking_def finding_def)

lemma assessed:
  assumes "assess_no_trade a d sizing reward quality cfg = Inr n"
  defines "s \<equiv> scenario_of (an_scenarios a) (if d = EV_BULLISH then CASE_BULL else CASE_BEAR)"
  obtains rewards where "is_directional d"
    "(case reward of None \<Rightarrow> Inr [] | Some rr \<Rightarrow> reward_findings rr cfg) = Inr rewards"
    "findings n = timeframe_findings a @ regime_findings a @ structure_findings a s @ entry_findings s cfg
       @ (case quality of None \<Rightarrow> [] | Some r \<Rightarrow> data_findings r) @ rewards
       @ (case sizing of None \<Rightarrow> [] | Some z \<Rightarrow> sizing_findings z)"
    "no_trade n = verdict_of a (findings n)"
  using assms by (auto simp: assess_no_trade_def Let_def rbind_Inr_iff split: if_splits)

lemma verdict_iff:
  "verdict_of a fs = Some True \<longleftrightarrow> list_ex blocking fs"
  "verdict_of a fs = Some False \<longleftrightarrow> \<not> list_ex blocking fs \<and> missing_roles (an_views a) = []
     \<and> \<not> list_ex (\<lambda>f. finding_reason f = RISK_UNDETERMINED) fs"
  by (auto simp: verdict_of_def)

text \<open>What each group of findings says when none of them blocks.\<close>

lemma no_block:
  "\<not> list_ex blocking (timeframe_findings a) \<longleftrightarrow> \<not> has_major (contradictions (an_contradictions a))"
  "\<not> list_ex blocking (regime_findings a) \<longleftrightarrow> (\<forall>v\<in>set (multi_views (an_views a)). view_regime v \<noteq> CHAOTIC)"
  "\<not> list_ex blocking (structure_findings a s) \<longleftrightarrow>
     (\<forall>b. reading_for (readings (an_contradictions a)) ROLE_BIAS = Some b \<longrightarrow> reading_direction b \<noteq> EV_UNAVAILABLE)
     \<and> scenario_state s \<noteq> SCENARIO_UNAVAILABLE"
  "\<not> list_ex blocking (data_findings r) \<longleftrightarrow> quality_verdict r \<noteq> DQ_BLOCKED"
  "\<not> list_ex blocking (sizing_findings z) \<longleftrightarrow> sz_outcome z \<in> {ALLOWED, UNDETERMINED}"
  by (auto simp: timeframe_findings_def regime_findings_def structure_findings_def list_ex_iff data_findings_def
      sizing_findings_def split: option.splits DataQualityVerdict.splits SizingOutcome.splits)

lemma sizing_determined:
  "\<not> list_ex (\<lambda>f. finding_reason f = RISK_UNDETERMINED) (sizing_findings z) \<longleftrightarrow> sz_outcome z \<noteq> UNDETERMINED"
  by (simp add: sizing_findings_def split: SizingOutcome.splits)

lemma reward_good:
  "reward_findings rr cfg = Inr fs \<Longrightarrow>
     \<not> list_ex blocking fs \<longleftrightarrow> (\<exists>q. rr_ratio rr = Some q \<and> py_less q (minimum_risk_reward cfg) = Inr False)"
  by (auto simp: reward_findings_def rmap_Inr_iff split: option.splits if_splits)

section \<open>The readings, from the structure of each view\<close>

text \<open>A view reads what its regime and its structure bias agree on.\<close>

definition view_stance :: "TimeframeView \<Rightarrow> EvidenceDirection" where
  "view_stance v =
     combine (regime_direction_of (view_regime v)) (bias_direction (structure_bias (snap_structure (view_structure v))))"

lemma find_filter: "find P xs = (case filter P xs of [] \<Rightarrow> None | x # _ \<Rightarrow> Some x)"
  by (induction xs) simp_all

lemma own_items:
  assumes "traverse f vs = Inr parts" and "distinct (map view_role vs)" and "v \<in> set vs"
    and roles: "\<And>w is i. w \<in> set vs \<Longrightarrow> f w = Inr is \<Longrightarrow> i \<in> set is \<Longrightarrow> item_role i = Some (view_role w)"
    and own: "\<And>is. f v = Inr is \<Longrightarrow> filter (\<lambda>i. item_source i = src) is = own"
  shows "filter (\<lambda>i. item_role i = Some (view_role v) \<and> item_source i = src) (concat parts) = own"
proof -
  let ?P = "\<lambda>i. item_role i = Some (view_role v) \<and> item_source i = src"
  have other: "filter ?P is = []" if "w \<in> set vs" "w \<noteq> v" "f w = Inr is" for w "is"
  proof -
    have "view_role w \<noteq> view_role v"
      using assms(2,3) that(1,2) by (auto simp: distinct_map inj_on_def)
    then show ?thesis
      using roles[OF that(1,3)] by (auto simp: filter_empty_conv)
  qed
  have mine: "filter ?P is = own" if "f v = Inr is" for "is"
    using own[OF that] roles[OF assms(3) that] by (metis (mono_tags, lifting) filter_cong)
  have "distinct vs"
    using assms(2) by (simp add: distinct_map)
  then show ?thesis
    using assms(1,3) other mine
  proof (induction vs arbitrary: parts)
    case (Cons w vs)
    obtain y r where y: "f w = Inr y" "traverse f vs = Inr r" "parts = y # r"
      using Cons.prems(2) by (auto simp: res_simps)
    show ?case
    proof (cases "w = v")
      case True
      have "filter ?P is = []" if "is \<in> set r" for "is"
      proof -
        obtain u where "u \<in> set vs" "f u = Inr is"
          using traverse_set[OF y(2)] \<open>is \<in> set r\<close> by blast
        then show ?thesis
          using Cons.prems(1,4) True by auto
      qed
      then have "filter ?P (concat r) = []"
        by (auto simp: filter_empty_conv)
      then show ?thesis
        using Cons.prems(5)[of y] y True by simp
    next
      case False
      then show ?thesis
        using Cons.IH[OF _ y(2)] Cons.prems y by auto
    qed
  qed simp
qed

lemma reading_of_view:
  assumes a: "analyse_multi_timeframe vs p basis oi cfg = Inr a" and v: "v \<in> set (multi_views (an_views a))"
  shows "reading_direction (read_view v (an_evidence a)) = view_stance v"
proof -
  obtain parts where parts: "build_views vs p = Inr (an_views a)"
    "traverse (\<lambda>v. build_timeframe_evidence v (analysis_evidence cfg)) (multi_views (an_views a)) = Inr parts"
    "an_evidence a = concat parts"
    using analysis_facts[OF a] by blast
  note d = build_views_facts(4)[OF parts(1)]
  have "filter (\<lambda>i. item_role i = Some (view_role v) \<and> item_source i = SRC_MARKET_REGIME) (concat parts) = regime_item v"
    by (rule own_items[OF parts(2) d v]) (use evidence_roles evidence_regime(1) in blast)+
  moreover have "filter (\<lambda>i. item_role i = Some (view_role v) \<and> item_source i = SRC_MARKET_STRUCTURE) (concat parts) = structure_item v"
    by (rule own_items[OF parts(2) d v]) (use evidence_roles evidence_regime(2) in blast)+
  ultimately show ?thesis
    by (simp add: read_view_def Let_def find_item_def find_filter parts(3) regime_item_def structure_item_def
        direction_or_absent_def view_stance_def view_regime_def)
qed

lemma reading_at_role:
  assumes a: "analyse_multi_timeframe vs p basis oi cfg = Inr a"
  shows "map_option reading_direction (reading_for (readings (an_contradictions a)) r)
       = map_option view_stance (view_for (an_views a) r)"
proof -
  obtain parts where "an_contradictions a = detect_contradictions (an_views a) (an_evidence a) (analysis_contradictions cfg)"
    using analysis_facts[OF a] by blast
  moreover have "v \<in> set (multi_views (an_views a))" if "view_for (an_views a) r = Some v" for v
    using that by (auto simp: view_for_def find_Some_iff)
  ultimately show ?thesis
    using reading_of_view[OF a] by (cases "view_for (an_views a) r") (simp_all add: detected reading_for_detected)
qed

text \<open>A major contradiction, in the same terms.\<close>

lemma major_in_views:
  assumes a: "analyse_multi_timeframe vs p basis oi cfg = Inr a"
  shows "has_major (contradictions (an_contradictions a)) \<longleftrightarrow>
    (\<exists>g b. view_for (an_views a) ROLE_REGIME = Some g \<and> view_for (an_views a) ROLE_BIAS = Some b
       \<and> opposes (view_stance g) (view_stance b))"
proof -
  obtain parts where r: "an_contradictions a = detect_contradictions (an_views a) (an_evidence a) (analysis_contradictions cfg)"
    using analysis_facts[OF a] by blast
  have "has_major (contradictions (an_contradictions a)) \<longleftrightarrow> higher_timeframe (readings (an_contradictions a)) \<noteq> []"
    using major_iff by (auto simp: has_major_def list_ex_iff r detected)
  also have "\<dots> \<longleftrightarrow> (\<exists>x y. map_option reading_direction (reading_for (readings (an_contradictions a)) ROLE_REGIME) = Some x
      \<and> map_option reading_direction (reading_for (readings (an_contradictions a)) ROLE_BIAS) = Some y \<and> opposes x y)"
    by (auto simp: higher_timeframe_iff)
  also have "\<dots> \<longleftrightarrow> (\<exists>g b. view_for (an_views a) ROLE_REGIME = Some g \<and> view_for (an_views a) ROLE_BIAS = Some b
       \<and> opposes (view_stance g) (view_stance b))"
    unfolding reading_at_role[OF a] by auto
  finally show ?thesis .
qed

lemma missing_none: "missing_roles m = [] \<longleftrightarrow> (\<forall>r. view_for m r \<noteq> None)"
proof -
  have "missing_roles m = [] \<longleftrightarrow> (\<forall>r. r \<in> set (present_roles m))"
    using missing_or_present by (metis ex_in_conv set_empty)
  also have "\<dots> \<longleftrightarrow> (\<forall>r. view_for m r \<noteq> None)"
    unfolding present_roles_def view_for_def by (auto simp: find_None_iff image_iff) metis+
  finally show ?thesis .
qed

lemma clean_pass_cases:
  assumes a: "analyse_multi_timeframe vs p basis oi cfg = Inr a"
    and n: "assess_no_trade a d sizing reward quality ncfg = Inr n"
  shows "no_trade n = Some False \<longleftrightarrow>
    missing_roles (an_views a) = [] \<and> \<not> has_major (contradictions (an_contradictions a))
    \<and> (\<forall>v\<in>set (multi_views (an_views a)). view_regime v \<noteq> CHAOTIC)
    \<and> (\<exists>b. reading_for (readings (an_contradictions a)) ROLE_BIAS = Some b \<and> reading_direction b \<noteq> EV_UNAVAILABLE)
    \<and> (\<forall>z. sizing = Some z \<longrightarrow> sz_outcome z = ALLOWED)
    \<and> (\<forall>rr. reward = Some rr \<longrightarrow> (\<exists>q. rr_ratio rr = Some q \<and> py_less q (minimum_risk_reward ncfg) = Inr False))
    \<and> (\<forall>r. quality = Some r \<longrightarrow> DataQualityReport.quality_verdict r \<noteq> DQ_BLOCKED)"
proof -
  let ?s = "scenario_of (an_scenarios a) (if d = EV_BULLISH then CASE_BULL else CASE_BEAR)"
  obtain rewards where dir: "is_directional d"
    and rw: "(case reward of None \<Rightarrow> Inr [] | Some rr \<Rightarrow> reward_findings rr ncfg) = Inr rewards"
    and fs: "findings n = timeframe_findings a @ regime_findings a @ structure_findings a ?s @ entry_findings ?s ncfg
       @ (case quality of None \<Rightarrow> [] | Some r \<Rightarrow> data_findings r) @ rewards
       @ (case sizing of None \<Rightarrow> [] | Some z \<Rightarrow> sizing_findings z)"
    and verdict: "no_trade n = verdict_of a (findings n)"
    using assessed[OF n] by blast
  have facts: "fused_contradictions (an_fused a) = an_contradictions a"
    "build_scenarios (an_views a) (an_fused a) (analysis_scenarios cfg) = Inr (an_scenarios a)"
    using analysis_facts[OF a] by blast+
  have state: "scenario_state ?s = SCENARIO_UNAVAILABLE \<longleftrightarrow>
      (\<forall>b. reading_for (readings (an_contradictions a)) ROLE_BIAS = Some b \<longrightarrow> reading_direction b = EV_UNAVAILABLE)"
    using scenario_facts(1)[OF facts(2) dir] by (auto simp: state_of_def facts(1) split: option.splits)
  have entry: "\<not> list_ex blocking (entry_findings ?s ncfg)"
    "\<not> list_ex (\<lambda>f. finding_reason f = RISK_UNDETERMINED) (entry_findings ?s ncfg)"
    by (auto simp: entry_findings_def split: option.splits)
  have others: "\<not> list_ex (\<lambda>f. finding_reason f = RISK_UNDETERMINED) (timeframe_findings a)"
    "\<not> list_ex (\<lambda>f. finding_reason f = RISK_UNDETERMINED) (regime_findings a)"
    "\<not> list_ex (\<lambda>f. finding_reason f = RISK_UNDETERMINED) (structure_findings a ?s)"
    "\<not> list_ex (\<lambda>f. finding_reason f = RISK_UNDETERMINED) (data_findings r)" for r
    by (auto simp: timeframe_findings_def regime_findings_def structure_findings_def list_ex_iff data_findings_def
        split: option.splits DataQualityVerdict.splits)
  have reward: "\<not> list_ex (\<lambda>f. finding_reason f = RISK_UNDETERMINED) rewards"
    "\<not> list_ex blocking rewards \<longleftrightarrow>
      (\<forall>rr. reward = Some rr \<longrightarrow> (\<exists>q. rr_ratio rr = Some q \<and> py_less q (minimum_risk_reward ncfg) = Inr False))"
    using rw reward_good[of _ ncfg rewards]
    by (auto simp: reward_findings_def rmap_Inr_iff split: option.splits if_splits)
  have sized: "\<not> list_ex blocking (case sizing of None \<Rightarrow> [] | Some z \<Rightarrow> sizing_findings z)
      \<and> \<not> list_ex (\<lambda>f. finding_reason f = RISK_UNDETERMINED) (case sizing of None \<Rightarrow> [] | Some z \<Rightarrow> sizing_findings z)
      \<longleftrightarrow> (\<forall>z. sizing = Some z \<longrightarrow> sz_outcome z = ALLOWED)"
    using no_block(5) sizing_determined by (auto split: option.splits)
  have data: "\<not> list_ex blocking (case quality of None \<Rightarrow> [] | Some r \<Rightarrow> data_findings r)
      \<longleftrightarrow> (\<forall>r. quality = Some r \<longrightarrow> DataQualityReport.quality_verdict r \<noteq> DQ_BLOCKED)"
    "\<not> list_ex (\<lambda>f. finding_reason f = RISK_UNDETERMINED) (case quality of None \<Rightarrow> [] | Some r \<Rightarrow> data_findings r)"
    using no_block(4) others(4) by (auto split: option.splits)
  have bias: "\<not> list_ex blocking (structure_findings a ?s) \<longleftrightarrow>
      (\<exists>b. reading_for (readings (an_contradictions a)) ROLE_BIAS = Some b \<and> reading_direction b \<noteq> EV_UNAVAILABLE)"
    unfolding no_block(3) state by (cases "reading_for (readings (an_contradictions a)) ROLE_BIAS") auto
  show ?thesis
    unfolding verdict verdict_iff fs list_ex_append de_Morgan_disj no_block(1,2) bias reward(2) data(1)
    using sized by (simp only: entry others reward(1) data(2) not_False_eq_True) blast
qed
end
