(* ===== verification/Quality_Props.thy ===== *)
theory Quality_Props
  imports Analysis_Quality Float_Exact
begin

text \<open>
C19: the setup score always exists and is well formed.  Floats bounded by an integer (\<open>near\<close>) are closed
under the operations of the scores; \<open>evaluates\<close>: the evaluation of a component returns its own score,
within its own weight.  \<open>score_setup_returns\<close>, \<open>score_entry_returns\<close>: the two scores.
\<close>

section \<open>Floats that stay small\<close>

definition near :: "int \<Rightarrow> flt \<Rightarrow> bool" where
  "near m x \<longleftrightarrow> (\<exists>v. x = FNum v \<and> \<bar>v\<bar> \<le> of_int m)"

lemma near_fround:
  assumes "\<bar>x\<bar> \<le> of_int m" and "m \<le> 2 ^ 40"
  shows "near m (fround x)"
proof -
  have "(of_int m :: rat) \<le> of_int (2 ^ 40)"
    using assms(2) by (simp only: of_int_le_iff)
  then have "\<bar>x\<bar> \<le> 2 ^ 40"
    using assms(1) by simp
  moreover have "of_int (- m) \<le> x" "x \<le> of_int m"
    using assms(1) by (simp_all add: abs_le_iff)
  ultimately obtain v where "fround x = FNum v" "of_int (- m) \<le> v" "v \<le> of_int m"
    using fround_ints by metis
  then show ?thesis
    by (auto simp: near_def abs_le_iff)
qed

lemma near_mono: "near a x \<Longrightarrow> a \<le> b \<Longrightarrow> near b x"
  by (auto simp: near_def intro: order_trans)

lemma near_add:
  assumes "near a x" and "near b y" and "a + b \<le> 2 ^ 40"
  shows "near (a + b) (fadd x y)"
proof -
  obtain u v where "x = FNum u" "y = FNum v" "\<bar>u\<bar> \<le> of_int a" "\<bar>v\<bar> \<le> of_int b"
    using assms(1,2) by (auto simp: near_def)
  moreover from this have "\<bar>u + v\<bar> \<le> of_int (a + b)"
    using abs_triangle_ineq[of u v] by simp
  ultimately show ?thesis
    using near_fround assms(3) by simp
qed

lemma near_neg: "near a x \<Longrightarrow> near a (fneg x)"
  by (auto simp: near_def)

lemma near_sub: "near a x \<Longrightarrow> near b y \<Longrightarrow> a + b \<le> 2 ^ 40 \<Longrightarrow> near (a + b) (fsub x y)"
  unfolding fsub_def by (rule near_add[OF _ near_neg])

lemma near_mul:
  assumes "near a x" and "near b y" and "a * b \<le> 2 ^ 40"
  shows "near (a * b) (fmul x y)"
proof -
  obtain u v where "x = FNum u" "y = FNum v" "\<bar>u\<bar> \<le> of_int a" "\<bar>v\<bar> \<le> of_int b"
    using assms(1,2) by (auto simp: near_def)
  moreover from this have "\<bar>u * v\<bar> \<le> of_int (a * b)"
    by (simp add: abs_mult mult_mono)
  ultimately show ?thesis
    using near_fround assms(3) by simp
qed

lemma near_literal: "0 \<le> q \<Longrightarrow> q \<le> 1 \<Longrightarrow> near 1 (flit q)"
  unfolding flit_def by (rule near_fround) simp_all

lemma near_int: "\<bar>n\<bar> \<le> m \<Longrightarrow> m \<le> 2 ^ 40 \<Longrightarrow> near m (flt_of_int n)"
  unfolding flt_of_int_def by (rule near_fround) (simp_all only: of_int_abs[symmetric] of_int_le_iff)

lemma near_zero [simp]: "0 \<le> m \<Longrightarrow> near m (FNum 0)"
  by (simp add: near_def)

lemma near_round: "near m x \<Longrightarrow> \<exists>n. py_round x = Inr n"
  by (auto simp: near_def)

lemma near_finite: "near m x \<Longrightarrow> flt_is_finite x"
  by (auto simp: near_def flt_is_finite_def)

section \<open>The shares\<close>

lemma int_times_near:
  assumes "0 \<le> w" and "w \<le> 2 ^ 20" and "near b x" and "b \<le> 2 ^ 20"
  shows "\<exists>y. int_times w x = Inr y \<and> near (2 ^ 40) y"
proof -
  have w: "near (2 ^ 20) (flt_of_int w)"
    by (rule near_int) (use assms(1,2) in simp_all)
  have "near (2 ^ 20 * 2 ^ 20) (fmul (flt_of_int w) x)"
    by (rule near_mul[OF w near_mono[OF assms(3,4)]]) simp
  then show ?thesis
    using near_finite[OF w] by (simp add: int_times_def)
qed

lemma round_share_returns:
  assumes "0 \<le> w" and "w \<le> 2 ^ 20" and "near b x" and "b \<le> 2 ^ 20"
  shows "\<exists>n. round_share w x = Inr n"
  using int_times_near[OF assms] near_round by (auto simp: round_share_def)

lemma group_share_near: "near 1 (group_share g)"
proof -
  have "near 1 (strength_share s)" for s
    by (cases s) (auto intro: near_literal)
  then show ?thesis
    by (simp add: group_share_def split: option.splits)
qed

lemma share_from_near:
  assumes "near m x" and "distinct seen" and "m + int (12 - length seen) \<le> 2 ^ 10"
  shows "near (2 ^ 10) (share_from seen x gs)"
  using assms
proof (induction seen x gs arbitrary: m rule: share_from.induct)
  case (1 seen share)
  then show ?case
    by (auto intro: near_mono)
next
  case (2 seen share g gs)
  show ?case
  proof (cases "group_category g \<in> set seen")
    case True
    then show ?thesis
      using 2 by simp
  next
    case False
    have "distinct (group_category g # seen)"
      using False 2 by simp
    moreover have "length seen < 12"
    proof -
      have "set seen \<subset> set all_categories"
        using False categories_all by blast
      then have "card (set seen) < card (set all_categories)"
        by (intro psubset_card_mono) simp_all
      then show ?thesis
        using "2.prems"(2) by (simp add: distinct_card all_categories_def)
    qed
    moreover have "near (m + 1) (fadd share (flit (15 / 100)))"
      by (rule near_add[OF "2.prems"(1) near_literal]) (use "2.prems"(3) in simp_all)
    ultimately show ?thesis
      using 2(2)[OF False, of "m + 1"] False "2.prems"(3) by (simp add: of_nat_diff)
  qed
qed

lemma share_of_near: "near (2 ^ 10) (share_of gs)"
proof (cases "sort_less (\<lambda>a b. flt_less (group_share b) (group_share a)) gs")
  case Nil
  then show ?thesis
    by (simp add: share_of_def)
next
  case (Cons g r)
  have "near (2 ^ 10) (share_from [group_category g] (group_share g) r)"
    by (rule share_from_near[OF group_share_near]) simp_all
  moreover have "near (2 ^ 10) (flit 1)"
    by (rule near_mono[OF near_literal]) simp_all
  ultimately show ?thesis
    by (simp add: share_of_def Cons py_fmin_def)
qed

section \<open>The components\<close>

text \<open>A score within its weight, or none.\<close>

definition within_weight :: "'c ComponentScore \<Rightarrow> bool" where
  "within_weight s \<longleftrightarrow> 0 \<le> score_weight s \<and> score_weight s \<le> 2 ^ 20
     \<and> (\<forall>n. score_awarded s = Some n \<longrightarrow> 0 \<le> n \<and> n \<le> score_weight s)"

lemma within_scored [simp]:
  "within_weight (scored c w (clamp n w) gs) \<longleftrightarrow> 0 \<le> w \<and> w \<le> 2 ^ 20" "within_weight (unevaluated c w) \<longleftrightarrow> 0 \<le> w \<and> w \<le> 2 ^ 20"
  "within_weight (scored c w 0 gs) \<longleftrightarrow> 0 \<le> w \<and> w \<le> 2 ^ 20"
  by (auto simp: within_weight_def scored_def unevaluated_def clamp_def)

text \<open>The evaluation of a component returns: its own score, over its own weight.\<close>

definition evaluates :: "'c \<Rightarrow> int \<Rightarrow> 'c ComponentScore res \<Rightarrow> bool" where
  "evaluates c w r \<longleftrightarrow> (\<exists>s. r = Inr s \<and> score_component s = c \<and> score_weight s = w \<and> within_weight s)"

lemma score_fields [simp]:
  "score_component (scored c w a gs) = c" "score_weight (scored c w a gs) = w"
  "score_component (unevaluated c w) = c" "score_weight (unevaluated c w) = w"
  by (simp_all add: scored_def unevaluated_def)

lemma evaluates_rmap:
  "0 \<le> w \<Longrightarrow> w \<le> 2 ^ 20 \<Longrightarrow> (\<exists>n. r = Inr n) \<Longrightarrow> evaluates c w (rmap (\<lambda>n. scored c w (clamp n w) gs) r)"
  by (auto simp: evaluates_def)

lemma scored_evaluates:
  assumes w: "0 \<le> w" "w \<le> 2 ^ 20" and x: "near m x" "m \<le> 2 ^ 20"
  shows "evaluates c w (rmap (\<lambda>n. scored c w (clamp n w) gs) (round_share w x))"
  by (rule evaluates_rmap[OF w round_share_returns[OF w x]])

lemma category_evaluates:
  assumes w: "0 \<le> w" "w \<le> 2 ^ 20"
  shows "evaluates c w (category_component f d c cats w)"
proof -
  have "near (2 ^ 10 + 2 ^ 10) (fsub (share_of gs) (share_of hs))" for gs hs
    by (rule near_sub[OF share_of_near share_of_near]) simp
  then have "evaluates c w (rmap (\<lambda>n. scored c w (clamp n w) rs) (round_share w (fsub (share_of gs) (share_of hs))))" for gs hs rs
    by (rule scored_evaluates[OF w]) simp
  then show ?thesis
    using w by (simp add: category_component_def Let_def evaluates_def[of _ _ "Inr _"])
qed

lemma regime_evaluates:
  assumes w: "0 \<le> w" "w \<le> 2 ^ 20"
  shows "evaluates REGIME_SUITABILITY w (regime_suitability f d w)"
proof -
  have "evaluates REGIME_SUITABILITY w (rmap (\<lambda>n. scored REGIME_SUITABILITY w (clamp n w) gs) (round_share w (flit q)))" if "0 \<le> q" "q \<le> 1" for q gs
    by (rule scored_evaluates[OF w near_literal[OF that]]) simp
  moreover have "evaluates REGIME_SUITABILITY w (Inr (scored REGIME_SUITABILITY w (clamp n w) gs))" for n gs
    using w by (simp add: evaluates_def)
  ultimately show ?thesis
    using w by (simp add: regime_suitability_def Let_def evaluates_def[of _ _ "Inr (unevaluated _ _)"])
qed

text \<open>A sum of role shares is nothing or at least a sixteenth, and at most the number of its terms.\<close>

definition share_sum :: "nat \<Rightarrow> flt \<Rightarrow> bool" where
  "share_sum k x \<longleftrightarrow> (\<exists>v. x = FNum v \<and> 1 / 16 \<le> v \<and> v \<le> of_nat k)"

lemma fround_sixteenth:
  assumes "1 / 16 \<le> x" and "x \<le> of_nat k" and "k \<le> 2 ^ 20"
  shows "share_sum k (fround x)"
proof -
  have "(of_nat k :: rat) \<le> 2 ^ 20"
    using assms(3) of_nat_le_iff[where 'a = rat, of k "2 ^ 20"] by simp
  then have "\<exists>v. fround x = FNum v \<and> of_int 1 * 2 powi (- 4) \<le> v \<and> v \<le> of_int (16 * int k) * 2 powi (- 4) \<and> \<bar>v\<bar> \<le> 2 powi 20"
    using assms(1,2) by (intro fround_between) (simp_all add: power_int_def field_simps)
  then show ?thesis
    by (auto simp: share_sum_def power_int_def field_simps)
qed

lemma role_share_sum: "share_sum 1 (role_share r)"
  by (cases r) (auto simp: flit_def intro: fround_sixteenth)

lemma share_sum_add:
  assumes "share_sum k x" and "share_sum 1 y" and "k + 1 \<le> 2 ^ 20"
  shows "share_sum (k + 1) (fadd x y)"
proof -
  obtain u v where "x = FNum u" "y = FNum v" "1 / 16 \<le> u" "1 / 16 \<le> v" "u \<le> of_nat k" "v \<le> 1"
    using assms(1,2) by (auto simp: share_sum_def)
  then show ?thesis
    using fround_sixteenth[of "u + v" "k + 1"] assms(3) by simp
qed

lemma readable_share_sum:
  assumes "rs \<noteq> []" and "length rs \<le> 4"
  shows "share_sum (length rs) (readable_share rs)"
proof -
  have more: "share_sum (k + length ps) (foldl (\<lambda>acc p. fadd acc (role_share (fst p))) x ps)"
    if "share_sum k x" "k + length ps \<le> 4" for k x and ps :: "(TimeframeRole \<times> EvidenceDirection) list"
    using that
  proof (induction ps arbitrary: k x)
    case (Cons p ps)
    show ?case
      using Cons.IH[of "k + 1" "fadd x (role_share (fst p))"] share_sum_add[OF Cons.prems(1) role_share_sum] Cons.prems(2)
      by simp
  qed simp
  obtain p ps where rs: "rs = p # ps"
    using assms(1) by (cases rs) auto
  obtain v where "role_share (fst p) = FNum v" "1 / 16 \<le> v" "v \<le> 1"
    using role_share_sum[of "fst p"] by (auto simp: share_sum_def)
  then have "share_sum 1 (fadd (FNum 0) (role_share (fst p)))"
    using fround_sixteenth[of v 1] by simp
  then show ?thesis
    using more[of 1 _ ps] assms(2) rs by (simp add: readable_share_def)
qed

lemma share_sum_near: "share_sum k x \<Longrightarrow> near (int k) x"
  by (auto simp: share_sum_def near_def)

lemma readable_near: "length rs \<le> 4 \<Longrightarrow> near 4 (readable_share rs)"
  using readable_share_sum share_sum_near near_mono[of "int (length rs)"] by (cases "rs = []") (force simp: readable_share_def)+

lemma readable_roles_length: "length (readable_roles f) \<le> 4"
proof -
  have "length (concat (map h rs)) \<le> length rs" if "\<And>r. length (h r) \<le> 1" for h :: "TimeframeRole \<Rightarrow> 'x list" and rs
    using that by (induction rs) (auto simp: Suc_le_eq intro: order_trans[OF add_mono])
  from this[of _ ROLES_BROADEST_FIRST] show ?thesis
    by (simp add: readable_roles_def ROLES_BROADEST_FIRST_def split: option.split)
qed

lemma earned_near: "length rs \<le> 4 \<Longrightarrow> near 4 (earned_share d rs)"
proof -
  have half: "near 1 (fmul (role_share r) (flit (1 / 2)))" for r
    using near_mul[OF share_sum_near[OF role_share_sum] near_literal[of "1 / 2"]] by simp
  let ?step = "\<lambda>acc p. if snd p = d then fadd acc (role_share (fst p))
      else if snd p = EV_NEUTRAL then fadd acc (fmul (role_share (fst p)) (flit (1 / 2))) else acc"
  have "near (m + int (length ps)) (foldl ?step x ps)" if "near m x" "m + int (length ps) \<le> 4" for m x ps
    using that
  proof (induction ps arbitrary: m x)
    case (Cons p ps)
    have "near (m + 1) (?step x p)"
      using near_add[OF Cons.prems(1) share_sum_near[OF role_share_sum]] near_add[OF Cons.prems(1) half]
        near_mono[OF Cons.prems(1), of "m + 1"] Cons.prems(2) by simp
    from Cons.IH[OF this] show ?case
      using Cons.prems(2) by (simp add: algebra_simps)
  qed simp
  from this[of 0 "FNum 0" rs] show "length rs \<le> 4 \<Longrightarrow> near 4 (earned_share d rs)"
    using near_mono[of "int (length rs)" _ 4] by (simp add: earned_share_def)
qed

lemma alignment_evaluates:
  assumes w: "0 \<le> w" "w \<le> 2 ^ 20" and least: "1 \<le> least"
  shows "evaluates TIMEFRAME_ALIGNMENT w (timeframe_alignment f d w least)"
proof (cases "int (length (readable_roles f)) < least")
  case True
  then show ?thesis
    using w by (simp add: timeframe_alignment_def evaluates_def)
next
  case False
  let ?rs = "readable_roles f"
  have rs: "?rs \<noteq> []" "length ?rs \<le> 4"
    using False least readable_roles_length by auto
  obtain y where y: "int_times w (earned_share d ?rs) = Inr y"
    "near (2 ^ 22) y"
  proof -
    have m: "near (2 ^ 20) (flt_of_int w)"
      by (rule near_int) (use w in simp_all)
    have "near (2 ^ 20 * 4) (fmul (flt_of_int w) (earned_share d ?rs))"
      by (rule near_mul[OF m earned_near[OF rs(2)]]) simp
    then show ?thesis
      using that near_finite[OF m] by (simp add: int_times_def)
  qed
  obtain v where v: "readable_share ?rs = FNum v" "1 / 16 \<le> v"
    using readable_share_sum[OF rs] by (auto simp: share_sum_def)
  obtain u where u: "y = FNum u" "\<bar>u\<bar> \<le> 2 ^ 22"
    using y(2) by (auto simp: near_def)
  have "\<bar>u / v\<bar> \<le> of_int (2 ^ 26)"
  proof -
    have "\<bar>u\<bar> / \<bar>v\<bar> \<le> 2 ^ 22 / (1 / 16)"
      by (rule frac_le) (use u(2) v(2) in simp_all)
    then show ?thesis
      by (simp add: abs_divide)
  qed
  then have "\<exists>n. py_round (fround (u / v)) = Inr n"
    by (intro near_round[of "2 ^ 26"] near_fround) simp_all
  then have "\<exists>n. rbind (py_fdiv y (readable_share ?rs)) py_round = Inr n"
    using u(1) v by (simp add: py_fdiv_def)
  then obtain n where "rbind (py_fdiv y (readable_share ?rs)) py_round = Inr n" ..
  then have "timeframe_alignment f d w least = Inr (scored TIMEFRAME_ALIGNMENT w (clamp n w) [])"
    using False y(1) by (auto simp: timeframe_alignment_def Let_def rbind_Inr_iff)
  then show ?thesis
    using w by (simp add: evaluates_def)
qed

lemma coverage_evaluates:
  assumes w: "0 \<le> w" "w \<le> 2 ^ 20"
  shows "evaluates TIMEFRAME_COVERAGE w (timeframe_coverage f w)"
  unfolding timeframe_coverage_def
  by (rule scored_evaluates[OF w readable_near[OF readable_roles_length]]) simp

lemma weight_parts:
  assumes "\<forall>s\<in>set ss. within_weight s"
  shows "0 \<le> weight_total (available_scores ss)" "weight_total (available_scores ss) \<le> weight_total ss"
    "0 \<le> sum_list (map (\<lambda>s. case score_awarded s of None \<Rightarrow> 0 | Some n \<Rightarrow> n) (available_scores ss))"
    "sum_list (map (\<lambda>s. case score_awarded s of None \<Rightarrow> 0 | Some n \<Rightarrow> n) (available_scores ss)) \<le> weight_total (available_scores ss)"
    "weight_total ss \<le> int (length ss) * 2 ^ 20"
  using assms
  by (induction ss) (auto simp: weight_total_def available_scores_def score_available_def within_weight_def algebra_simps)

text \<open>The ratio of two integers within a range that the rounding keeps.\<close>

lemma int_ratio:
  assumes "0 \<le> a" and "a \<le> k * b" and "0 < b" and "0 \<le> k" and "k \<le> 100"
  shows "\<exists>v. py_int_div a b = Inr (FNum v) \<and> 0 \<le> v \<and> v \<le> of_int k"
proof -
  have "(of_int a :: rat) \<le> of_int k * of_int b"
    using assms(2) by (simp only: of_int_mult[symmetric] of_int_le_iff)
  then have q: "(of_int a / of_int b :: rat) \<le> of_int k" "of_int 0 \<le> (of_int a / of_int b :: rat)"
    using assms(1,3) by (simp_all add: divide_le_eq)
  have "(of_int k :: rat) \<le> of_int 100"
    using assms(5) by (simp only: of_int_le_iff)
  then have "\<bar>of_int a / of_int b :: rat\<bar> \<le> 2 ^ 40"
    using q by simp
  then obtain v where "fround (of_int a / of_int b) = FNum v" "of_int 0 \<le> v" "v \<le> of_int k"
    using fround_ints[OF q(2,1)] by metis
  then show ?thesis
    using assms(3) by (simp add: py_int_div_def)
qed

lemma availability_evaluates:
  assumes w: "0 \<le> w" "w \<le> 2 ^ 20" and ss: "\<forall>s\<in>set ss. within_weight s"
  shows "evaluates DATA_AVAILABILITY w (data_availability ss w)"
proof (cases "weight_total ss = 0")
  case True
  have "evaluates DATA_AVAILABILITY w (rmap (\<lambda>n. scored DATA_AVAILABILITY w (clamp n w) []) (round_share w (FNum 0)))"
    by (rule scored_evaluates[OF w near_zero, of 1]) simp_all
  then show ?thesis
    using True by (simp add: data_availability_def)
next
  case False
  note p = weight_parts[OF ss]
  have "0 < weight_total ss"
    using False p(1,2) by linarith
  then obtain v where v: "py_int_div (weight_total (available_scores ss)) (weight_total ss) = Inr (FNum v)" "0 \<le> v" "v \<le> 1"
    using int_ratio[OF p(1), of 1] p(2) by auto
  have "evaluates DATA_AVAILABILITY w (rmap (\<lambda>n. scored DATA_AVAILABILITY w (clamp n w) []) (round_share w (FNum v)))"
    by (rule scored_evaluates[OF w, of 1]) (use v in \<open>simp_all add: near_def\<close>)
  then show ?thesis
    using False v(1) by (simp add: data_availability_def)
qed

lemma normalised_bounds:
  assumes ss: "\<forall>s\<in>set ss. within_weight s"
  shows "\<exists>n. normalised ss = Inr n \<and> 0 \<le> n \<and> n \<le> 100"
proof (cases "weight_total (available_scores ss) = 0")
  case True
  then show ?thesis
    by (simp add: normalised_def Let_def)
next
  case False
  note p = weight_parts[OF ss]
  let ?a = "sum_list (map (\<lambda>s. case score_awarded s of None \<Rightarrow> 0 | Some n \<Rightarrow> n) (available_scores ss))"
  obtain v where v: "py_int_div (100 * ?a) (weight_total (available_scores ss)) = Inr (FNum v)" "0 \<le> v" "v \<le> 100"
    using int_ratio[of "100 * ?a" 100 "weight_total (available_scores ss)"] p False by auto
  then show ?thesis
    using False nearest_even_ge[of 0 v] nearest_even_le[of v 100] by (simp add: normalised_def Let_def)
qed

definition all_components :: "QualityComponent list" where
  "all_components =
     [TREND_ALIGNMENT, MARKET_STRUCTURE, MOMENTUM, VOLUME, SUPPORT_RESISTANCE, TIMEFRAME_ALIGNMENT, TIMEFRAME_COVERAGE,
      REGIME_SUITABILITY, CONTRADICTION_BURDEN, DATA_AVAILABILITY]"

text \<open>A component's score is the one asked for, and in its weight.\<close>

definition scores :: "'c \<Rightarrow> int \<Rightarrow> 'c ComponentScore \<Rightarrow> bool" where
  "scores c w s \<longleftrightarrow> score_component s = c \<and> score_weight s = w \<and> within_weight s"

lemma evaluates_scores: "evaluates c w r \<Longrightarrow> \<exists>s. r = Inr s \<and> scores c w s"
  by (auto simp: evaluates_def scores_def)

lemma quality_scores_evaluate:
  assumes w: "\<forall>x\<in>set (all_weights (quality_weights cfg)). 0 \<le> x \<and> x \<le> 2 ^ 20"
    and least: "1 \<le> minimum_roles_for_alignment cfg"
  shows "\<exists>ss. quality_scores f d cfg = Inr ss \<and> map score_component ss = all_components
    \<and> map score_weight ss = all_weights (quality_weights cfg) \<and> (\<forall>s\<in>set ss. within_weight s)"
proof -
  let ?w = "quality_weights cfg"
  have ws: "0 \<le> w_trend_alignment ?w" "w_trend_alignment ?w \<le> 2 ^ 20" "0 \<le> w_market_structure ?w" "w_market_structure ?w \<le> 2 ^ 20"
    "0 \<le> w_momentum ?w" "w_momentum ?w \<le> 2 ^ 20" "0 \<le> w_volume ?w" "w_volume ?w \<le> 2 ^ 20"
    "0 \<le> w_support_resistance ?w" "w_support_resistance ?w \<le> 2 ^ 20" "0 \<le> w_timeframe_alignment ?w" "w_timeframe_alignment ?w \<le> 2 ^ 20"
    "0 \<le> w_timeframe_coverage ?w" "w_timeframe_coverage ?w \<le> 2 ^ 20" "0 \<le> w_regime_suitability ?w" "w_regime_suitability ?w \<le> 2 ^ 20"
    "0 \<le> w_contradiction_burden ?w" "w_contradiction_burden ?w \<le> 2 ^ 20" "0 \<le> w_data_availability ?w" "w_data_availability ?w \<le> 2 ^ 20"
    using w by (simp_all add: all_weights_def)
  note cat = evaluates_scores[OF category_evaluates]
  obtain a where a: "category_component f d TREND_ALIGNMENT [CAT_TREND] (w_trend_alignment ?w) = Inr a"
    "scores TREND_ALIGNMENT (w_trend_alignment ?w) a" using cat[OF ws(1,2)] by blast
  obtain b where b: "category_component f d MARKET_STRUCTURE [CAT_STRUCTURE] (w_market_structure ?w) = Inr b"
    "scores MARKET_STRUCTURE (w_market_structure ?w) b" using cat[OF ws(3,4)] by blast
  obtain c where c: "category_component f d MOMENTUM [CAT_MOMENTUM, CAT_INTRADAY] (w_momentum ?w) = Inr c"
    "scores MOMENTUM (w_momentum ?w) c" using cat[OF ws(5,6)] by blast
  obtain v where v: "category_component f d VOLUME [CAT_VOLUME, CAT_DIVERGENCE] (w_volume ?w) = Inr v"
    "scores VOLUME (w_volume ?w) v" using cat[OF ws(7,8)] by blast
  obtain l where l: "category_component f d SUPPORT_RESISTANCE [CAT_LEVEL, CAT_BREAKOUT, CAT_RETEST] (w_support_resistance ?w) = Inr l"
    "scores SUPPORT_RESISTANCE (w_support_resistance ?w) l" using cat[OF ws(9,10)] by blast
  obtain al where al: "timeframe_alignment f d (w_timeframe_alignment ?w) (minimum_roles_for_alignment cfg) = Inr al"
    "scores TIMEFRAME_ALIGNMENT (w_timeframe_alignment ?w) al"
    using evaluates_scores[OF alignment_evaluates[OF ws(11,12) least]] by blast
  obtain cov where cov: "timeframe_coverage f (w_timeframe_coverage ?w) = Inr cov"
    "scores TIMEFRAME_COVERAGE (w_timeframe_coverage ?w) cov"
    using evaluates_scores[OF coverage_evaluates[OF ws(13,14)]] by blast
  obtain rg where rg: "regime_suitability f d (w_regime_suitability ?w) = Inr rg"
    "scores REGIME_SUITABILITY (w_regime_suitability ?w) rg"
    using evaluates_scores[OF regime_evaluates[OF ws(15,16)]] by blast
  have burden: "scores CONTRADICTION_BURDEN (w_contradiction_burden ?w) (contradiction_burden f cfg)"
    using ws(17,18) by (simp add: contradiction_burden_def Let_def scores_def)
  let ?ss = "[a, b, c, v, l, al, cov, rg, contradiction_burden f cfg]"
  have "\<forall>s\<in>set ?ss. within_weight s"
    using a b c v l al cov rg burden by (simp add: scores_def)
  from evaluates_scores[OF availability_evaluates[OF ws(19,20) this]] obtain da where
    da: "data_availability ?ss (w_data_availability ?w) = Inr da" "scores DATA_AVAILABILITY (w_data_availability ?w) da"
    by blast
  have "quality_scores f d cfg = Inr (?ss @ [da])"
    using a(1) b(1) c(1) v(1) l(1) al(1) cov(1) rg(1) da(1) by (simp add: quality_scores_def Let_def)
  then show ?thesis
    using a(2) b(2) c(2) v(2) l(2) al(2) cov(2) rg(2) burden da(2)
    by (simp add: scores_def all_components_def all_weights_def)
qed

definition weights_ok :: "int list \<Rightarrow> bool" where
  "weights_ok ws \<longleftrightarrow> (\<forall>x\<in>set ws. 0 \<le> x \<and> x \<le> 2 ^ 20)"

lemma score_setup_returns:
  assumes "is_directional d" and w: "weights_ok (all_weights (quality_weights cfg))"
    and "1 \<le> minimum_roles_for_alignment cfg"
  shows "\<exists>q. score_setup f d cfg = Inr q \<and> 0 \<le> quality_score q \<and> quality_score q \<le> 100
    \<and> map score_component (quality_components q) = all_components
    \<and> map score_weight (quality_components q) = all_weights (quality_weights cfg)
    \<and> (\<forall>s\<in>set (quality_components q). \<forall>n. score_awarded s = Some n \<longrightarrow> 0 \<le> n \<and> n \<le> score_weight s)
    \<and> 0 \<le> quality_available_weight q \<and> quality_available_weight q \<le> quality_total_weight q"
proof -
  obtain ss where ss: "quality_scores f d cfg = Inr ss" "map score_component ss = all_components"
    "map score_weight ss = all_weights (quality_weights cfg)" "\<forall>s\<in>set ss. within_weight s"
    using quality_scores_evaluate[OF w[unfolded weights_ok_def] assms(3)] by blast
  obtain n where n: "normalised ss = Inr n" "0 \<le> n" "n \<le> 100"
    using normalised_bounds[OF ss(4)] by blast
  have "weight_total ss = sum_list (all_weights (quality_weights cfg))"
    by (simp add: weight_total_def ss(3))
  then show ?thesis
    using assms(1) ss n weight_parts(1,2)[OF ss(4)] by (auto simp: score_setup_def within_weight_def)
qed

section \<open>The entry score\<close>

lemma strongest_share_near: "near 1 (strongest_share gs)"
proof -
  have share: "near 1 (strength_share s)" for s
    by (cases s) (auto intro: near_literal)
  have fold: "near 1 x \<Longrightarrow> \<forall>y\<in>set xs. near 1 y \<Longrightarrow> near 1 (foldl py_fmax x xs)" for x xs
    by (induction xs arbitrary: x) (simp_all add: py_fmax_def)
  have all: "\<forall>y\<in>set (concat (map (\<lambda>g. case group_strength g of None \<Rightarrow> [] | Some s \<Rightarrow> [strength_share s]) gs)). near 1 y"
    using share by (auto split: option.splits)
  show ?thesis
  proof (cases "concat (map (\<lambda>g. case group_strength g of None \<Rightarrow> [] | Some s \<Rightarrow> [strength_share s]) gs)")
    case (Cons x xs)
    with all have "near 1 x" "\<forall>y\<in>set xs. near 1 y"
      by simp_all
    then show ?thesis
      by (simp add: strongest_share_def Cons fold)
  next
    case Nil
    then show ?thesis
      by (simp only: strongest_share_def list.case) simp
  qed
qed

lemma from_categories_evaluates:
  assumes w: "0 \<le> w" "w \<le> 2 ^ 20"
  shows "evaluates c w (from_categories f d c cats w)"
proof -
  have "near (1 + 1) (fsub (strongest_share gs) (strongest_share hs))" for gs hs
    by (rule near_sub[OF strongest_share_near strongest_share_near]) simp
  then have graded: "evaluates c w (rmap (\<lambda>n. scored c w (clamp n w) rs) (round_share w (fsub (strongest_share gs) (strongest_share hs))))" for gs hs rs
    by (rule scored_evaluates[OF w]) simp
  have half: "evaluates c w (rmap (\<lambda>n. scored c w n rs) (round_share w (flit (1 / 2))))" for rs
  proof -
    have "(of_int w :: rat) \<le> 2 ^ 20"
      using w(2) of_int_le_iff[where 'a = rat, of w "2 ^ 20"] by simp
    then have v: "flt_of_int w = FNum (of_int w)" "\<bar>of_int w / 2 :: rat\<bar> \<le> 2 ^ 40" "of_int 0 \<le> (of_int w / 2 :: rat)" "of_int w / 2 \<le> (of_int w :: rat)"
      using w fround_int[of w] by (simp_all add: flt_of_int_def)
    obtain u where u: "fround (of_int w / 2) = FNum u" "of_int 0 \<le> u" "u \<le> of_int w"
      using fround_ints[OF v(3,4,2)] by metis
    then have "round_share w (flit (1 / 2)) = Inr (nearest_even u)"
      by (simp add: round_share_def int_times_def v(1) flt_is_finite_def flit_def fround_binary)
    then show ?thesis
      using nearest_even_ge[of 0 u] nearest_even_le[of u w] u(2,3) w
      by (simp add: evaluates_def within_weight_def scored_def)
  qed
  show ?thesis
    using w graded half by (simp add: from_categories_def Let_def evaluates_def[of _ _ "Inr _"])
qed

lemma score_entry_returns:
  assumes "is_directional d" and w: "weights_ok (all_entry_weights (entry_weights cfg))"
    and x: "\<And>v. view_for m ROLE_ENTRY = Some v \<Longrightarrow> evaluates EXTENSION (e_extension (entry_weights cfg)) (extension v cfg)"
  shows "\<exists>e. score_entry m f d cfg = Inr e \<and> (\<forall>n. entry_score e = Some n \<longrightarrow> 0 \<le> n \<and> n \<le> 100)"
proof (cases "view_for m ROLE_ENTRY")
  case None
  then show ?thesis
    using assms(1) by (simp add: score_entry_def)
next
  case (Some v)
  let ?w = "entry_weights cfg"
  have ws: "0 \<le> e_entry_structure ?w" "e_entry_structure ?w \<le> 2 ^ 20" "0 \<le> e_level_proximity ?w" "e_level_proximity ?w \<le> 2 ^ 20"
    "0 \<le> e_breakout_retest ?w" "e_breakout_retest ?w \<le> 2 ^ 20" "0 \<le> e_volume_confirmation ?w" "e_volume_confirmation ?w \<le> 2 ^ 20"
    "0 \<le> e_momentum_context ?w" "e_momentum_context ?w \<le> 2 ^ 20" "0 \<le> e_vwap_relationship ?w" "e_vwap_relationship ?w \<le> 2 ^ 20"
    using w by (simp_all add: weights_ok_def all_entry_weights_def)
  note cat = evaluates_scores[OF from_categories_evaluates]
  obtain a b c vol mo vw where
    a: "from_categories f d ENTRY_STRUCTURE [CAT_STRUCTURE] (e_entry_structure ?w) = Inr a" "within_weight a"
    and b: "from_categories f d LEVEL_PROXIMITY [CAT_LEVEL] (e_level_proximity ?w) = Inr b" "within_weight b"
    and c: "from_categories f d BREAKOUT_RETEST [CAT_BREAKOUT, CAT_RETEST] (e_breakout_retest ?w) = Inr c" "within_weight c"
    and vol: "from_categories f d VOLUME_CONFIRMATION [CAT_VOLUME, CAT_DIVERGENCE] (e_volume_confirmation ?w) = Inr vol" "within_weight vol"
    and mo: "from_categories f d MOMENTUM_CONTEXT [CAT_MOMENTUM] (e_momentum_context ?w) = Inr mo" "within_weight mo"
    and vw: "from_categories f d VWAP_RELATIONSHIP [CAT_INTRADAY] (e_vwap_relationship ?w) = Inr vw" "within_weight vw"
    using cat[OF ws(1,2)] cat[OF ws(3,4)] cat[OF ws(5,6)] cat[OF ws(7,8)] cat[OF ws(9,10)] cat[OF ws(11,12)]
    unfolding scores_def by metis
  obtain ex where ex: "extension v cfg = Inr ex" "within_weight ex"
    using x[OF Some] by (auto simp: evaluates_def)
  let ?ss = "[a, b, c, vol, mo, vw, ex]"
  have "entry_scores v f d cfg = Inr ?ss"
    using a(1) b(1) c(1) vol(1) mo(1) vw(1) ex(1) by (simp add: entry_scores_def Let_def)
  moreover obtain n where "normalised ?ss = Inr n" "0 \<le> n" "n \<le> 100"
    using normalised_bounds[of ?ss] a(2) b(2) c(2) vol(2) mo(2) vw(2) ex(2) by auto
  ultimately show ?thesis
    using assms(1) Some by (simp add: score_entry_def Let_def)
qed


definition sample_item :: EvidenceItem where
  "sample_item =
     \<lparr> item_source = SRC_MARKET_STRUCTURE, item_category = CAT_STRUCTURE, item_direction = EV_BULLISH, item_strength = EV_STRONG,
       item_timeframe = Some H1, item_role = Some ROLE_BIAS, item_confirmed_index = Some 0,
       item_confirmed_time = Some (Aware 0 0), point_in_time = True, item_provenance = None \<rparr>"

definition sample_report :: ContradictionReport where
  "sample_report =
     \<lparr> readings = [\<lparr> reading_role = ROLE_BIAS, reading_timeframe = H1, reading_direction = EV_BULLISH,
                     regime_direction = EV_UNAVAILABLE, structure_direction = EV_BULLISH,
                     reading_evidence = [sample_item], as_of = Aware 0 0 \<rparr>],
       contradictions = [], pullbacks = [], unavailable_roles = [ROLE_REGIME, ROLE_SETUP, ROLE_ENTRY] \<rparr>"


end
