(* ===== verification/No_Trade_Props.thy ===== *)
theory No_Trade_Props
  imports No_Trade Quality_Props
begin

text \<open>
C40 and its concrete run: four views that all read upward, analysed together and passed by the veto.
\<close>

text \<open>
C40: A clean pass is earned, never the absence of an answer.  For a finished multi-timeframe analysis, the
veto answers False exactly when all four roles were supplied; the regime view and the bias view do not read
in opposite directions and the bias view can be read; no view is in a chaotic regime; a supplied position
size is allowed, a supplied reward ratio exists and is not below the minimum, and a supplied data-quality
verdict is not BLOCKED.  It answers True exactly when some finding blocks.  What a view reads is taken from
its regime and its structure bias alone.
\<close>

theorem clean_pass_exactly_when:
  assumes "analyse_multi_timeframe vs p basis oi cfg = Inr a"
    and "assess_no_trade a d sizing reward quality ncfg = Inr n"
  shows "(no_trade n = Some False \<longleftrightarrow>
      (\<forall>r. view_for (an_views a) r \<noteq> None)
      \<and> (\<exists>g b. view_for (an_views a) ROLE_REGIME = Some g \<and> view_for (an_views a) ROLE_BIAS = Some b
            \<and> \<not> opposes (view_stance g) (view_stance b) \<and> view_stance b \<noteq> EV_UNAVAILABLE)
      \<and> (\<forall>v\<in>set (multi_views (an_views a)). view_regime v \<noteq> CHAOTIC)
      \<and> (\<forall>z. sizing = Some z \<longrightarrow> sz_outcome z = ALLOWED)
      \<and> (\<forall>rr. reward = Some rr \<longrightarrow> (\<exists>q. rr_ratio rr = Some q \<and> py_less q (minimum_risk_reward ncfg) = Inr False))
      \<and> (\<forall>r. quality = Some r \<longrightarrow> DataQualityReport.quality_verdict r \<noteq> DQ_BLOCKED))
    \<and> (no_trade n = Some True \<longleftrightarrow> (\<exists>f\<in>set (findings n). finding_severity f = BLOCKING))"
proof -
  note cases = clean_pass_cases[OF assms]
  let ?r = "\<lambda>r. reading_for (readings (an_contradictions a)) r"
  have bias: "(\<exists>b. ?r ROLE_BIAS = Some b \<and> reading_direction b \<noteq> EV_UNAVAILABLE)
      \<longleftrightarrow> (\<exists>b. view_for (an_views a) ROLE_BIAS = Some b \<and> view_stance b \<noteq> EV_UNAVAILABLE)"
    using reading_at_role[OF assms(1), of ROLE_BIAS]
    by (cases "?r ROLE_BIAS"; cases "view_for (an_views a) ROLE_BIAS") auto
  have "no_trade n = Some True \<longleftrightarrow> list_ex blocking (findings n)"
    using assessed[OF assms(2)] verdict_iff(1) by metis
  then have blocked: "no_trade n = Some True \<longleftrightarrow> (\<exists>f\<in>set (findings n). finding_severity f = BLOCKING)"
    by (simp add: list_ex_iff blocking_def)
  show ?thesis
    unfolding cases blocked missing_none major_in_views[OF assms(1)] bias by (auto; blast)
qed

section \<open>A clean pass\<close>

definition plain_technicals :: TechnicalSnapshot where
  "plain_technicals =
     \<lparr> tech_symbol = ''F_XU030'', tech_candle_count = 1, tech_ema = [], tech_sma = [], tech_rsi = [],
       tech_macd = \<lparr> macd_line = [], macd_signal = [], macd_histogram = [] \<rparr>, tech_true_range = [], tech_atr = [],
       tech_bollinger = \<lparr> band_upper = [], band_middle = [], band_lower = [] \<rparr>,
       tech_directional = \<lparr> plus_di = [], minus_di = [], dx_line = [], adx_line = [] \<rparr>, tech_vwap = [],
       tech_volume_ma = [], tech_relative_volume = [], tech_volume_acceleration = [] \<rparr>"

definition rising_structure :: StructureSnapshot where
  "rising_structure =
     \<lparr> snap_symbol = ''F_XU030'', snap_candle_count = 1, snap_swings = [],
       snap_structure = \<lparr> labelled = [], structure_bias = BIAS_BULLISH, last_high = None, last_low = None,
                          last_high_label = Some HIGHER_HIGH, last_low_label = Some HIGHER_LOW, alternates = True \<rparr>,
       snap_structural_events = [], support_zones = [], resistance_zones = [], snap_breakouts = [], snap_retests = [],
       snap_divergences = [], snap_historical_volatility = [],
       snap_regime = \<lparr> regime_of = STRONG_UPTREND,
         regime_evidence = \<lparr> ev_bias = BIAS_BULLISH, ev_stack = STACK_BULLISH, ev_adx = Some (FNum 30), ev_atr = None,
            ev_atr_ratio = None, ev_atr_ratio_median = None, ev_volatility_state = VOLATILITY_UNKNOWN,
            ev_historical_volatility = None, ev_range_width_ratio = None, ev_recent_breakout = None \<rparr>,
         regime_reason = '''', regime_config = default_regime_config \<rparr> \<rparr>"

definition one_bar :: "Timeframe \<Rightarrow> ValidatedCandleSeries" where
  "one_bar tf =
     \<lparr> series_candles = [\<lparr> bar_symbol = ''F_XU030'', bar_timeframe = tf, open_time = Aware 0 0, bar_open = DFin False 10 0,
         bar_high = DFin False 11 0, bar_low = DFin False 9 0, bar_close = DFin False 10 0, bar_volume = DFin False 5 0,
         is_closed = True, open_interest = None \<rparr>],
       series_symbol = ''F_XU030'', series_timeframe = tf \<rparr>"

definition rising_view :: "TimeframeRole \<Rightarrow> TimeframeView" where
  "rising_view r =
     \<lparr> view_role = r, view_series = one_bar (timeframe_for default_role_policy r), view_technicals = plain_technicals,
       view_structure = rising_structure \<rparr>"

definition sample_analysis_config :: AnalysisConfig where
  "sample_analysis_config =
     \<lparr> analysis_evidence = default_evidence_config, analysis_contradictions = default_contradiction_config,
       analysis_scenarios = \<lparr> scenario_quality_config = default_quality_config, scenario_entry_config = default_entry_config \<rparr> \<rparr>"

lemma rising_view_fields:
  "view_role (rising_view r) = r" "view_timeframe (rising_view r) = timeframe_for default_role_policy r"
  "view_symbol (rising_view r) = ''F_XU030''"
  by (simp_all add: rising_view_def one_bar_def view_timeframe_def view_symbol_def)

lemma rising_levels: "\<exists>is. build_timeframe_evidence (rising_view r) cfg = Inr is"
  by (simp add: build_timeframe_evidence_def levels_def rising_view_def plain_technicals_def measure_at_def rmap_Inr_iff)

lemma rising_extension:
  "evaluates EXTENSION (e_extension (entry_weights default_entry_config)) (extension (rising_view r) default_entry_config)"
  by (simp add: extension_def rising_view_def plain_technicals_def evaluates_def default_entry_config_def default_entry_weights_def)

lemma rising_views:
  "build_views (map rising_view ROLES_BROADEST_FIRST) default_role_policy
   = Inr \<lparr> multi_symbol = ''F_XU030'', multi_policy = default_role_policy, multi_views = map rising_view ROLES_BROADEST_FIRST \<rparr>"
  by (simp add: build_views_def ROLES_BROADEST_FIRST_def rising_view_fields default_role_policy_def)

lemma default_weights_ok:
  "weights_ok (all_weights (quality_weights default_quality_config))"
  "weights_ok (all_entry_weights (entry_weights default_entry_config))" "1 \<le> minimum_roles_for_alignment default_quality_config"
  by (simp_all add: weights_ok_def all_weights_def all_entry_weights_def default_quality_config_def default_quality_weights_def
      default_entry_config_def default_entry_weights_def)

lemma rising_analysis:
  "\<exists>a. analyse_multi_timeframe (map rising_view ROLES_BROADEST_FIRST) default_role_policy None None sample_analysis_config = Inr a"
proof -
  let ?m = "\<lparr> multi_symbol = ''F_XU030'', multi_policy = default_role_policy, multi_views = map rising_view ROLES_BROADEST_FIRST \<rparr>"
  have dir: "is_directional EV_BULLISH" "is_directional EV_BEARISH"
    by (simp_all add: is_directional_def)
  have entry: "\<exists>e. score_entry ?m f d default_entry_config = Inr e" if "is_directional d" for f d
  proof -
    have "evaluates EXTENSION (e_extension (entry_weights default_entry_config)) (extension v default_entry_config)"
      if "view_for ?m ROLE_ENTRY = Some v" for v
      using that rising_extension by (auto simp: view_for_def find_Some_iff)
    from score_entry_returns[OF that default_weights_ok(2) this] show ?thesis
      by blast
  qed
  have case_of: "\<exists>s. directional_scenario ?m f d (analysis_scenarios sample_analysis_config) = Inr s" if d: "is_directional d" for f d
  proof -
    obtain q e where "score_setup f d default_quality_config = Inr q" "score_entry ?m f d default_entry_config = Inr e"
      using score_setup_returns[OF d default_weights_ok(1,3)] entry[OF d] by blast
    then show ?thesis
      by (simp add: directional_scenario_def sample_analysis_config_def)
  qed
  have "\<exists>sc. build_scenarios ?m f (analysis_scenarios sample_analysis_config) = Inr sc" for f
  proof -
    obtain u v where "directional_scenario ?m f EV_BULLISH (analysis_scenarios sample_analysis_config) = Inr u"
      "directional_scenario ?m f EV_BEARISH (analysis_scenarios sample_analysis_config) = Inr v"
      using case_of dir by blast
    then show ?thesis
      by (simp add: build_scenarios_def)
  qed
  note scenarios = this
  have "\<exists>parts. traverse (\<lambda>v. build_timeframe_evidence v (analysis_evidence sample_analysis_config)) (map rising_view ROLES_BROADEST_FIRST) = Inr parts"
    by (rule traverse_returns) (use rising_levels in auto)
  then obtain parts where parts: "traverse (\<lambda>v. build_timeframe_evidence v (analysis_evidence sample_analysis_config)) (map rising_view ROLES_BROADEST_FIRST) = Inr parts" ..
  define f where "f = fuse_evidence (concat parts) (build_contract_evidence None None)
    (detect_contradictions ?m (concat parts) (analysis_contradictions sample_analysis_config))"
  obtain sc where "build_scenarios ?m f (analysis_scenarios sample_analysis_config) = Inr sc"
    using scenarios by blast
  then show ?thesis
    by (simp add: analyse_multi_timeframe_def rising_views parts Let_def f_def)
qed

theorem clean_pass_exactly_when_witness:
  "\<exists>a n. analyse_multi_timeframe (map rising_view ROLES_BROADEST_FIRST) default_role_policy None None sample_analysis_config = Inr a
     \<and> assess_no_trade a EV_BULLISH None None None default_no_trade_config = Inr n \<and> no_trade n = Some False"
proof -
  obtain a where a: "analyse_multi_timeframe (map rising_view ROLES_BROADEST_FIRST) default_role_policy None None sample_analysis_config = Inr a"
    using rising_analysis by blast
  obtain n where n: "assess_no_trade a EV_BULLISH None None None default_no_trade_config = Inr n"
    by (simp add: assess_no_trade_def is_directional_def Let_def)
  have "build_views (map rising_view ROLES_BROADEST_FIRST) default_role_policy = Inr (an_views a)"
    using analysis_facts[OF a] by blast
  then have views: "multi_views (an_views a) = map rising_view ROLES_BROADEST_FIRST"
    using rising_views by (metis MultiTimeframeView.select_convs(3) sum.inject(2))
  then have at_role: "view_for (an_views a) r = Some (rising_view r)" for r
    by (cases r) (simp_all add: view_for_def ROLES_BROADEST_FIRST_def rising_view_fields)
  have "view_regime (rising_view r) = STRONG_UPTREND" "view_stance (rising_view r) = EV_BULLISH" for r
    by (simp_all add: view_regime_def view_stance_def rising_view_def rising_structure_def combine_def opposes_def is_directional_def)
  then have "no_trade n = Some False"
    using clean_pass_exactly_when[OF a n] by (simp add: at_role views opposes_def)
  with a n show ?thesis
    by blast
qed

end
