(* ===== verification/Sourcing_Facts.thy ===== *)
theory Sourcing_Facts
  imports Futures Py_Text "HOL-Library.List_Lexorder" "HOL-Library.Char_ord"
begin

text \<open>
\<open>app/domain/sourcing/facts.py\<close>: records that bind the facts of a contract to the document that states them, and
the choice of the record that governs a moment.  Comparing an aware with a naive \<open>datetime\<close> raises
\<open>TypeError\<close> (\<open>moment_le\<close> and its like), so a comprehension over such comparisons is \<open>keep\<close>.  The
sentences of a verdict are left out.  \<open>stands\<close> says which records may govern, \<open>outranks\<close> which of two does;
the lemmas at the end take an answer apart into both.
\<close>

section \<open>Moments compared\<close>

text \<open>\<open>a <= b\<close> and \<open>a < b\<close> of two \<open>datetime\<close>s: an aware and a naive one raise.\<close>

definition moment_le :: "moment \<Rightarrow> moment \<Rightarrow> bool res" where
  "moment_le a b = (if is_aware a = is_aware b then Inr (instant a \<le> instant b) else Inl TypeError)"

definition moment_less :: "moment \<Rightarrow> moment \<Rightarrow> bool res" where
  "moment_less a b = (if is_aware a = is_aware b then Inr (instant a < instant b) else Inl TypeError)"

definition moment_since :: "moment \<Rightarrow> moment \<Rightarrow> int res" where
  "moment_since a b = (if is_aware a = is_aware b then Inr (instant a - instant b) else Inl TypeError)"

text \<open>\<open>==\<close> of two \<open>datetime\<close>s and of two optional ones.\<close>

definition same_moment :: "moment \<Rightarrow> moment \<Rightarrow> bool" where
  "same_moment a b = (is_aware a = is_aware b \<and> instant a = instant b)"

fun same_optional_moment :: "moment option \<Rightarrow> moment option \<Rightarrow> bool" where
  "same_optional_moment None None = True"
| "same_optional_moment (Some a) (Some b) = same_moment a b"
| "same_optional_moment _ _ = False"

text \<open>\<open>min(a, b)\<close>: the second only when it is earlier.\<close>

definition moment_min :: "moment \<Rightarrow> moment \<Rightarrow> moment res" where
  "moment_min a b = rmap (\<lambda>e. if e then b else a) (moment_less b a)"

text \<open>A comprehension whose condition may raise.\<close>

fun keep :: "('a \<Rightarrow> bool res) \<Rightarrow> 'a list \<Rightarrow> 'a list res" where
  "keep p [] = Inr []"
| "keep p (x # xs) = rbind (p x) (\<lambda>b. rmap (\<lambda>ys. if b then x # ys else ys) (keep p xs))"

section \<open>Source records\<close>

datatype SourceAuthority = EXCHANGE_OFFICIAL | LICENSED_PROVIDER | SECONDARY | UNKNOWN_AUTHORITY

text \<open>\<open>\_RANK\<close>; an authority without a rank has none.\<close>

fun authority_rank :: "SourceAuthority \<Rightarrow> int option" where
  "authority_rank EXCHANGE_OFFICIAL = Some 2"
| "authority_rank LICENSED_PROVIDER = Some 1"
| "authority_rank _ = None"

record ContractSourceRecord =
  sr_record_id :: string
  sr_contract :: FuturesContract
  sr_authority :: SourceAuthority
  sr_reference :: string
  sr_effective_from :: moment
  sr_verified_at :: moment
  sr_effective_until :: "moment option"
  sr_corrects :: "string option"
  sr_reviewed_by :: "string option"
  sr_known_at :: "moment option"

definition aware_or_absent :: "moment option \<Rightarrow> bool" where
  "aware_or_absent m = (case m of None \<Rightarrow> True | Some t \<Rightarrow> is_aware t)"

definition make_source_record :: "ContractSourceRecord \<Rightarrow> ContractSourceRecord res" where
  "make_source_record r =
     (if strip (sr_record_id r) = [] then Inl ValueError
      else if \<not> (is_aware (sr_effective_from r) \<and> is_aware (sr_verified_at r)
                 \<and> aware_or_absent (sr_effective_until r) \<and> aware_or_absent (sr_known_at r)) then Inl ValueError
      else if (case sr_effective_until r of None \<Rightarrow> False | Some u \<Rightarrow> instant u \<le> instant (sr_effective_from r))
      then Inl ValueError
      else if sr_corrects r = Some (sr_record_id r) then Inl ValueError
      else Inr r)"

definition applies_at :: "ContractSourceRecord \<Rightarrow> moment \<Rightarrow> bool res" where
  "applies_at r m =
     rbind (moment_le (sr_effective_from r) m) (\<lambda>begun.
       if \<not> begun then Inr False
       else case sr_effective_until r of None \<Rightarrow> Inr True | Some u \<Rightarrow> moment_less m u)"

definition sourced_fact :: "'a VerifiedValue \<Rightarrow> bool" where
  "sourced_fact v = (is_authoritative v \<and> strip (vsource v) \<noteq> [])"

text \<open>A verified current fact with a source and a date.\<close>

definition dated_fact :: "'a VerifiedValue \<Rightarrow> bool" where
  "dated_fact v = (sourced_fact v \<and> vas_of v \<noteq> None)"

definition record_is_authoritative :: "ContractSourceRecord \<Rightarrow> bool" where
  "record_is_authoritative r =
     (authority_rank (sr_authority r) \<noteq> None \<and> strip (sr_reference r) \<noteq> []
      \<and> sourced_fact (fc_multiplier (sr_contract r)) \<and> sourced_fact (fc_tick_size (sr_contract r)))"

section \<open>Verdicts\<close>

datatype FactVerdictCode =
    USABLE
  | FACT_MISSING
  | WRONG_CONTRACT
  | NOT_AUTHORITATIVE
  | NOT_IN_EFFECT
  | NOT_YET_KNOWN
  | FACT_STALE
  | FACT_EXPIRED
  | CONFLICTING

text \<open>The texts of \<open>FactConflict.resolution\<close>.\<close>

datatype Resolution = LaterPeriodGoverns | ExchangeOutranks | Unresolved

record FactConflict =
  fx_fact :: string
  fx_chosen_record :: string
  fx_chosen_value :: string
  fx_other_record :: string
  fx_other_value :: string
  fx_resolution :: Resolution

record FactVerdict =
  fv_code :: FactVerdictCode
  fv_record :: "ContractSourceRecord option"
  fv_conflicts :: "FactConflict list"
  fv_superseded :: "string list"

definition usable :: "FactVerdict \<Rightarrow> bool" where
  "usable v = (fv_code v = USABLE)"

definition make_verdict :: "FactVerdict \<Rightarrow> FactVerdict res" where
  "make_verdict v = (if usable v \<noteq> (fv_record v \<noteq> None) then Inl ValueError else Inr v)"

definition refuse_facts :: "FactVerdictCode \<Rightarrow> string list \<Rightarrow> FactConflict list \<Rightarrow> FactVerdict res" where
  "refuse_facts c superseded conflicts =
     make_verdict \<lparr> fv_code = c, fv_record = None, fv_conflicts = conflicts, fv_superseded = superseded \<rparr>"

section \<open>Facts as text\<close>

text \<open>\<open>Decimal.normalize()\<close>: rounded to the context, then without trailing zeros; a zero loses its exponent.\<close>

definition dec_normalize :: "dec \<Rightarrow> dec" where
  "dec_normalize d =
     (case dec_plus default_context d of
        DFin s c e \<Rightarrow> if c = 0 then DFin s 0 0
                      else (case strip_zeros c e 999999 of (c', e') \<Rightarrow> DFin s c' e')
      | r \<Rightarrow> r)"

definition plain_fact :: "dec \<Rightarrow> string" where
  "plain_fact d = plain_text (dec_normalize d)"

text \<open>\<open>date.isoformat()\<close> of a day.\<close>

definition date_text :: "int \<Rightarrow> string" where
  "date_text day = (case civil day of (y, m, d) \<Rightarrow> pad 4 (nat_str (nat y)) @ ''-'' @ two m @ ''-'' @ two d)"

definition facts_of :: "FuturesContract \<Rightarrow> (string \<times> string) list" where
  "facts_of c =
     [(''multiplier'', plain_fact (vvalue (fc_multiplier c))), (''tick_size'', plain_fact (vvalue (fc_tick_size c)))]
     @ (case fc_expiry c of
          None \<Rightarrow> []
        | Some e \<Rightarrow> if is_authoritative (expiry_date e) then [(''expiry_date'', date_text (vvalue (expiry_date e)))] else [])"


section \<open>Which record governs\<close>

definition conflict_of :: "string \<Rightarrow> ContractSourceRecord \<Rightarrow> string \<Rightarrow> ContractSourceRecord \<Rightarrow> string \<Rightarrow> Resolution \<Rightarrow> FactConflict" where
  "conflict_of what a va b vb how =
     \<lparr> fx_fact = what, fx_chosen_record = sr_record_id a, fx_chosen_value = va,
       fx_other_record = sr_record_id b, fx_other_value = vb, fx_resolution = how \<rparr>"

text \<open>How a disagreement of the chosen record with another is resolved, or not at all.\<close>

definition resolution_of :: "ContractSourceRecord \<Rightarrow> ContractSourceRecord \<Rightarrow> Resolution" where
  "resolution_of chosen other =
     (if authority_rank (sr_authority other) = authority_rank (sr_authority chosen)
      then if instant (sr_effective_from other) = instant (sr_effective_from chosen) then Unresolved
           else LaterPeriodGoverns
      else if instant (sr_effective_from chosen) < instant (sr_effective_from other) then Unresolved
      else ExchangeOutranks)"

text \<open>The facts of one other record, in order: the conflicts resolved, or the first that is not.\<close>

fun compare_facts :: "ContractSourceRecord \<Rightarrow> ContractSourceRecord \<Rightarrow> (string \<times> string) list \<Rightarrow> FactConflict + FactConflict list" where
  "compare_facts chosen other [] = Inr []"
| "compare_facts chosen other ((what, v) # fs) =
     (case map_of (facts_of (sr_contract other)) what of
        None \<Rightarrow> compare_facts chosen other fs
      | Some w \<Rightarrow>
          if w = v then compare_facts chosen other fs
          else let how = resolution_of chosen other; x = conflict_of what chosen v other w how in
               if how = Unresolved then Inl x else rmap ((#) x) (compare_facts chosen other fs))"

fun compare_records :: "ContractSourceRecord \<Rightarrow> ContractSourceRecord list \<Rightarrow> FactConflict + FactConflict list" where
  "compare_records chosen [] = Inr []"
| "compare_records chosen (r # rs) =
     rbind (compare_facts chosen r (facts_of (sr_contract chosen))) (\<lambda>xs. rmap ((@) xs) (compare_records chosen rs))"

text \<open>The fresh records by rank and period, both descending; equals keep their order.\<close>

definition by_precedence :: "ContractSourceRecord list \<Rightarrow> ContractSourceRecord list" where
  "by_precedence rs =
     sort_key (\<lambda>r. - (case authority_rank (sr_authority r) of None \<Rightarrow> 0 | Some n \<Rightarrow> n))
       (sort_key (\<lambda>r. - instant (sr_effective_from r)) rs)"

definition choose_record :: "ContractSourceRecord list \<Rightarrow> string list \<Rightarrow> FactVerdict res" where
  "choose_record fresh superseded =
     (case by_precedence fresh of
        [] \<Rightarrow> Inl IndexError
      | chosen # others \<Rightarrow>
          (case compare_records chosen others of
             Inl x \<Rightarrow> refuse_facts CONFLICTING superseded [x]
           | Inr xs \<Rightarrow> make_verdict \<lparr> fv_code = USABLE, fv_record = Some chosen, fv_conflicts = xs,
                                     fv_superseded = superseded \<rparr>))"

definition corrected_ids :: "ContractSourceRecord list \<Rightarrow> string list" where
  "corrected_ids rs = concat (map (\<lambda>r. case sr_corrects r of None \<Rightarrow> [] | Some i \<Rightarrow> [i]) rs)"

definition superseded_ids :: "ContractSourceRecord list \<Rightarrow> string list" where
  "superseded_ids rs = sort (filter (\<lambda>i. i \<in> set (corrected_ids rs)) (map sr_record_id rs))"

text \<open>The first record that says the contract had expired, if any.\<close>

fun any_expired :: "ContractSourceRecord list \<Rightarrow> moment \<Rightarrow> bool res" where
  "any_expired [] m = Inr False"
| "any_expired (r # rs) m =
     rbind (contract_state (sr_contract r) m) (\<lambda>s. if cs_state s = EXPIRED then Inr True else any_expired rs m)"

text \<open>The authoritative records judged at a moment: corrections, period, age, expiry, precedence.\<close>

definition judge_records :: "ContractSourceRecord list \<Rightarrow> moment \<Rightarrow> moment \<Rightarrow> int \<Rightarrow> FactVerdict res" where
  "judge_records authoritative when judged_at max_age =
     (let superseded = superseded_ids authoritative in
      rbind (keep (\<lambda>r. applies_at r when)
              (filter (\<lambda>r. sr_record_id r \<notin> set (corrected_ids authoritative)) authoritative)) (\<lambda>applicable.
        if applicable = [] then refuse_facts NOT_IN_EFFECT superseded []
        else rbind (keep (\<lambda>r. rmap (\<lambda>age. age \<le> max_age) (moment_since judged_at (sr_verified_at r))) applicable) (\<lambda>fresh.
          if fresh = [] then refuse_facts FACT_STALE superseded []
          else rbind (any_expired fresh when) (\<lambda>gone.
            if gone then refuse_facts FACT_EXPIRED superseded []
            else choose_record fresh superseded))))"

definition judge_known :: "ContractSourceRecord list \<Rightarrow> moment \<Rightarrow> moment \<Rightarrow> int \<Rightarrow> FactVerdict res" where
  "judge_known rs when judged_at max_age =
     (let authoritative = filter record_is_authoritative rs in
      if authoritative = [] then refuse_facts NOT_AUTHORITATIVE [] []
      else judge_records authoritative when judged_at max_age)"

definition known_to :: "ContractSourceRecord \<Rightarrow> moment \<Rightarrow> bool res" where
  "known_to r m = (case sr_known_at r of None \<Rightarrow> Inr False | Some k \<Rightarrow> moment_le k m)"

definition assess_fact_records ::
  "string \<Rightarrow> ContractSourceRecord list \<Rightarrow> moment \<Rightarrow> moment \<Rightarrow> int \<Rightarrow> moment option \<Rightarrow> FactVerdict res" where
  "assess_fact_records requested rs when now max_age known_by =
     (if rs = [] then refuse_facts FACT_MISSING [] []
      else if list_ex (\<lambda>r. \<not> same_instrument (fc_symbol (sr_contract r)) requested) rs then refuse_facts WRONG_CONTRACT [] []
      else if \<not> distinct (map sr_record_id rs) then refuse_facts CONFLICTING [] []
      else case known_by of
        None \<Rightarrow> judge_known rs when now max_age
      | Some k \<Rightarrow>
          rbind (moment_min k now) (\<lambda>judged_at.
          rbind (keep (\<lambda>r. known_to r judged_at) rs) (\<lambda>known.
            if known = [] then refuse_facts NOT_YET_KNOWN [] []
            else judge_known known when judged_at max_age)))"

section \<open>The records that stand\<close>

fun knowable :: "moment option \<Rightarrow> moment \<Rightarrow> ContractSourceRecord \<Rightarrow> bool" where
  "knowable None now r = True"
| "knowable (Some k) now r = (\<exists>t. sr_known_at r = Some t \<and> instant t \<le> min (instant k) (instant now))"

fun judged_instant :: "moment option \<Rightarrow> moment \<Rightarrow> int" where
  "judged_instant None now = instant now"
| "judged_instant (Some k) now = min (instant k) (instant now)"

definition in_force :: "ContractSourceRecord \<Rightarrow> moment \<Rightarrow> bool" where
  "in_force r m \<longleftrightarrow> instant (sr_effective_from r) \<le> instant m
     \<and> (\<forall>u. sr_effective_until r = Some u \<longrightarrow> instant m < instant u)"

definition stands ::
  "ContractSourceRecord list \<Rightarrow> moment \<Rightarrow> moment \<Rightarrow> int \<Rightarrow> moment option \<Rightarrow> ContractSourceRecord \<Rightarrow> bool" where
  "stands rs m now max_age known_by r \<longleftrightarrow>
     r \<in> set rs \<and> knowable known_by now r \<and> record_is_authoritative r
     \<and> (\<forall>q\<in>set rs. knowable known_by now q \<and> record_is_authoritative q \<longrightarrow> sr_corrects q \<noteq> Some (sr_record_id r))
     \<and> in_force r m \<and> judged_instant known_by now - instant (sr_verified_at r) \<le> max_age"

definition outranks :: "ContractSourceRecord \<Rightarrow> ContractSourceRecord \<Rightarrow> bool" where
  "outranks a b \<longleftrightarrow>
     (if sr_authority a = sr_authority b then instant (sr_effective_from b) < instant (sr_effective_from a)
      else sr_authority a = EXCHANGE_OFFICIAL \<and> instant (sr_effective_from b) \<le> instant (sr_effective_from a))"

section \<open>Lemmas\<close>

lemma moment_le_Inr [res_simps]: "moment_le a b = Inr t \<longleftrightarrow> is_aware a = is_aware b \<and> t = (instant a \<le> instant b)"
  by (auto simp: moment_le_def)

lemma moment_less_Inr [res_simps]: "moment_less a b = Inr t \<longleftrightarrow> is_aware a = is_aware b \<and> t = (instant a < instant b)"
  by (auto simp: moment_less_def)

lemma moment_since_Inr [res_simps]: "moment_since a b = Inr t \<longleftrightarrow> is_aware a = is_aware b \<and> t = instant a - instant b"
  by (auto simp: moment_since_def)

lemma keep_Inr:
  "keep p xs = Inr ys \<Longrightarrow> ys = filter (\<lambda>x. p x = Inr True) xs \<and> (\<forall>x\<in>set xs. \<exists>b. p x = Inr b)"
proof (induction xs arbitrary: ys)
  case (Cons x xs)
  then obtain b zs where "p x = Inr b" "keep p xs = Inr zs" "ys = (if b then x # zs else zs)"
    by (auto simp: res_simps)
  then show ?case using Cons.IH[of zs] by simp
qed simp

lemma keep_filter:
  assumes "keep p xs = Inr ys" and "\<And>x b. p x = Inr b \<Longrightarrow> b = q x"
  shows "ys = filter q xs"
proof -
  have "filter (\<lambda>x. p x = Inr True) xs = filter q xs"
    by (rule filter_cong) (use keep_Inr[OF assms(1)] assms(2) in fastforce)+
  then show ?thesis using keep_Inr[OF assms(1)] by simp
qed

lemma keep_all: "(\<And>x. x \<in> set xs \<Longrightarrow> p x = Inr (q x)) \<Longrightarrow> keep p xs = Inr (filter q xs)"
  by (induction xs) auto

lemma applies_at_True: "applies_at r m = Inr True \<Longrightarrow> in_force r m"
  by (auto simp: applies_at_def in_force_def res_simps split: if_splits option.splits)

lemma applies_at_Inr: "applies_at r m = Inr b \<Longrightarrow> b = in_force r m"
  by (auto simp: applies_at_def in_force_def res_simps split: if_splits option.splits)

lemma corrected_ids_iff: "i \<in> set (corrected_ids rs) \<longleftrightarrow> (\<exists>q\<in>set rs. sr_corrects q = Some i)"
  by (force simp: corrected_ids_def split: option.splits)

lemma refuse_facts_Inr: "refuse_facts c ss xs = Inr v \<Longrightarrow> fv_record v = None \<and> fv_code v = c \<and> c \<noteq> USABLE"
  by (auto simp: refuse_facts_def make_verdict_def usable_def split: if_splits)

lemma any_expired_False:
  "any_expired rs m = Inr False \<Longrightarrow> r \<in> set rs \<Longrightarrow> \<exists>s. contract_state (sr_contract r) m = Inr s \<and> cs_state s \<noteq> EXPIRED"
  by (induction rs) (auto simp: res_simps split: if_splits)

lemma compare_facts_Inr:
  assumes "compare_facts a b fs = Inr xs" and "(f, v) \<in> set fs" and "map_of (facts_of (sr_contract b)) f = Some w"
    and "w \<noteq> v"
  shows "resolution_of a b \<noteq> Unresolved \<and> conflict_of f a v b w (resolution_of a b) \<in> set xs"
  using assms by (induction a b fs arbitrary: xs rule: compare_facts.induct) (auto simp: res_simps Let_def split: option.splits if_splits)

lemma compare_records_Inr:
  "compare_records a os = Inr xs \<Longrightarrow> b \<in> set os
    \<Longrightarrow> \<exists>ys. compare_facts a b (facts_of (sr_contract a)) = Inr ys \<and> set ys \<subseteq> set xs"
  by (induction os arbitrary: xs) (fastforce simp: res_simps)+

lemma set_by_precedence [simp]: "set (by_precedence rs) = set rs"
  by (simp add: by_precedence_def)

abbreviation rank_of :: "ContractSourceRecord \<Rightarrow> int" where
  "rank_of r \<equiv> (case authority_rank (sr_authority r) of None \<Rightarrow> 0 | Some n \<Rightarrow> n)"

lemma sorted_hd_le: "sorted (map f (x # xs)) \<Longrightarrow> y \<in> set xs \<Longrightarrow> f x \<le> f y"
  by simp

lemma by_precedence_head:
  assumes "by_precedence rs = c # os" and "q \<in> set os"
  shows "rank_of q < rank_of c
    \<or> rank_of q = rank_of c \<and> instant (sr_effective_from q) \<le> instant (sr_effective_from c)"
proof -
  let ?k = "\<lambda>r. - rank_of r" and ?e = "\<lambda>r. - instant (sr_effective_from r)"
  have "sorted (map ?k (c # os))"
    using sorted_sort_key[of ?k "sort_key ?e rs"] assms(1) by (simp only: by_precedence_def)
  then have k: "?k c \<le> ?k q" by (rule sorted_hd_le) (fact assms(2))
  show ?thesis
  proof (cases "?k q = ?k c")
    case True
    have "filter (\<lambda>r. ?k r = ?k c) (c # os) = filter (\<lambda>r. ?k r = ?k c) (sort_key ?e rs)"
      using sort_key_stable[of ?k "?k c" "sort_key ?e rs"] assms(1) by (simp add: by_precedence_def)
    moreover have "sorted (map ?e (filter (\<lambda>r. ?k r = ?k c) (sort_key ?e rs)))"
      by (rule sorted_filter) simp
    ultimately have "sorted (map ?e (c # filter (\<lambda>r. ?k r = ?k c) os))" by simp
    moreover have "q \<in> set (filter (\<lambda>r. ?k r = ?k c) os)" using True assms(2) by simp
    ultimately have "?e c \<le> ?e q" by (rule sorted_hd_le)
    then show ?thesis using True by simp
  qed (use k in simp)
qed

lemma resolution_outranks:
  assumes "resolution_of c q \<noteq> Unresolved" and "authority_rank (sr_authority c) \<noteq> None" "authority_rank (sr_authority q) \<noteq> None"
    and "rank_of q < rank_of c \<or> rank_of q = rank_of c \<and> instant (sr_effective_from q) \<le> instant (sr_effective_from c)"
  shows "outranks c q"
  using assms by (cases "sr_authority c"; cases "sr_authority q")
    (auto simp: resolution_of_def outranks_def split: if_splits)

lemma choose_record_Inr:
  assumes "choose_record fresh ss = Inr v" and "fv_record v = Some r"
  shows "\<exists>os. by_precedence fresh = r # os \<and> compare_records r os = Inr (fv_conflicts v)"
  using assms
  by (auto simp: choose_record_def make_verdict_def usable_def refuse_facts_def split: list.splits sum.splits if_splits)

lemma judge_known_Inr:
  assumes "judge_known ks m j max_age = Inr v" and "fv_record v = Some r"
  obtains fresh os where
    "\<And>q. q \<in> set fresh \<longleftrightarrow> q \<in> set ks \<and> record_is_authoritative q
        \<and> (\<forall>p\<in>set ks. record_is_authoritative p \<longrightarrow> sr_corrects p \<noteq> Some (sr_record_id q))
        \<and> in_force q m \<and> instant j - instant (sr_verified_at q) \<le> max_age"
    and "by_precedence fresh = r # os" and "compare_records r os = Inr (fv_conflicts v)"
    and "any_expired fresh m = Inr False"
proof -
  let ?auth = "filter record_is_authoritative ks"
  have "judge_records ?auth m j max_age = Inr v"
    using assms by (auto simp: judge_known_def Let_def dest: refuse_facts_Inr split: if_splits)
  then obtain applicable fresh where
    a: "keep (\<lambda>r. applies_at r m) (filter (\<lambda>r. sr_record_id r \<notin> set (corrected_ids ?auth)) ?auth) = Inr applicable"
    and f: "keep (\<lambda>r. rmap (\<lambda>age. age \<le> max_age) (moment_since j (sr_verified_at r))) applicable = Inr fresh"
    and e: "any_expired fresh m = Inr False"
    and c: "choose_record fresh (superseded_ids ?auth) = Inr v"
    using assms(2) by (auto simp: judge_records_def Let_def res_simps dest: refuse_facts_Inr split: if_splits)
  obtain os where "by_precedence fresh = r # os" "compare_records r os = Inr (fv_conflicts v)"
    using choose_record_Inr[OF c assms(2)] by blast
  moreover have "applicable = filter (\<lambda>r. in_force r m) (filter (\<lambda>r. sr_record_id r \<notin> set (corrected_ids ?auth)) ?auth)"
    by (rule keep_filter[OF a]) (rule applies_at_Inr)
  moreover have "fresh = filter (\<lambda>r. instant j - instant (sr_verified_at r) \<le> max_age) applicable"
    by (rule keep_filter[OF f]) (auto simp: res_simps)
  ultimately show ?thesis
    using e by (intro that[of fresh os]) (auto simp: corrected_ids_iff)
qed


text \<open>The records known by a moment, when a bound was asked for.\<close>

lemma assess_records_Inr:
  assumes "assess_fact_records requested rs m now max_age known_by = Inr v" and "fv_record v = Some r"
  obtains ks j where "ks = filter (knowable known_by now) rs" and "instant j = judged_instant known_by now"
    and "judge_known ks m j max_age = Inr v"
    and "\<forall>q\<in>set rs. same_instrument (fc_symbol (sr_contract q)) requested"
proof (cases known_by)
  case None
  show ?thesis
    by (rule that[of rs now]) (use assms None in \<open>auto simp: assess_fact_records_def list_ex_iff filter_id_conv dest: refuse_facts_Inr split: if_splits\<close>)
next
  case (Some k)
  obtain j ks where j: "moment_min k now = Inr j" and k: "keep (\<lambda>r. known_to r j) rs = Inr ks"
    and v: "judge_known ks m j max_age = Inr v" and same: "\<forall>q\<in>set rs. same_instrument (fc_symbol (sr_contract q)) requested"
    using assms Some by (auto simp: assess_fact_records_def list_ex_iff res_simps dest: refuse_facts_Inr split: if_splits)
  have ij: "instant j = min (instant k) (instant now)"
    using j by (auto simp: moment_min_def res_simps)
  have "ks = filter (knowable known_by now) rs"
    by (rule keep_filter[OF k]) (auto simp: known_to_def res_simps ij Some split: option.splits)
  then show ?thesis using that v same ij Some by simp
qed

end
