(* ===== verification/Sourcing_Review.thy ===== *)
theory Sourcing_Review
  imports Sourcing_Facts
begin

text \<open>
\<open>app/domain/sourcing/review.py\<close>: a claim about a document, the decision of a reviewer on it, the boundary that turns
the two into an approved fact or refuses, and the record assembled from approved facts of one document.  A
\<open>date\<close> is its day; a \<open>datetime\<close> in the place of a date is not modelled.  \<open>judge_cases\<close>: the three
results of a judgement and when each is reached; the last lemmas say what an assembled record states.
\<close>

section \<open>Submissions and decisions\<close>

datatype ContractFact = FACT_MULTIPLIER | FACT_TICK_SIZE | FACT_EXPIRY_DATE

datatype SubmissionOrigin = MANUAL_ENTRY | FILE_IMPORT

datatype ReviewOutcome = OUTCOME_APPROVED | OUTCOME_REJECTED

datatype ReviewResult = RESULT_APPROVED | RESULT_REJECTED | RESULT_REFUSED

text \<open>\<open>Decimal | date\<close>; a date is its day.\<close>

datatype FactValue = DecimalValue dec | DateValue int

record FactSubmission =
  fs_submission_id :: string
  fs_symbol :: string
  fs_fact :: ContractFact
  fs_value :: "FactValue option"
  fs_reference :: string
  fs_authority :: SourceAuthority
  fs_effective_from :: "moment option"
  fs_submitted_by :: string
  fs_submitted_at :: moment
  fs_origin :: SubmissionOrigin
  fs_effective_until :: "moment option"
  fs_corrects :: "string option"

record ReviewDecision =
  rd_submission_id :: string
  rd_reviewer :: string
  rd_decided_at :: moment
  rd_outcome :: ReviewOutcome
  rd_document_checked :: bool
  rd_note :: string

record ApprovedFact =
  af_submission :: FactSubmission
  af_decision :: ReviewDecision
  af_verified :: "FactValue VerifiedValue"

definition refuse_review :: "review_code \<Rightarrow> 'a res" where
  "refuse_review c = Inl (ReviewRefusedError c)"

section \<open>The review\<close>

definition value_fits :: "ContractFact \<Rightarrow> FactValue \<Rightarrow> bool" where
  "value_fits f v = (case v of DateValue d \<Rightarrow> f = FACT_EXPIRY_DATE | DecimalValue d \<Rightarrow> f \<noteq> FACT_EXPIRY_DATE)"

definition value_positive :: "FactValue \<Rightarrow> bool" where
  "value_positive v = (case v of DateValue d \<Rightarrow> True | DecimalValue d \<Rightarrow> is_finite d \<and> dec_less dec_zero d)"

definition review_note :: "FactSubmission \<Rightarrow> ReviewDecision \<Rightarrow> string" where
  "review_note s d = ''submission '' @ fs_submission_id s @ '' reviewed by '' @ rd_reviewer d"

definition approved_fact :: "FactSubmission \<Rightarrow> ReviewDecision \<Rightarrow> FactValue \<Rightarrow> ApprovedFact" where
  "approved_fact s d v =
     \<lparr> af_submission = s, af_decision = d,
       af_verified = \<lparr> vvalue = v, vstatus = VERIFIED_CURRENT_FACT, vsource = fs_reference s,
                       vas_of = Some (rd_decided_at d), vnote = Some (review_note s d) \<rparr> \<rparr>"

text \<open>The checks of an approval, after those every decision must pass.\<close>

definition approve :: "FactSubmission \<Rightarrow> ReviewDecision \<Rightarrow> ApprovedFact res" where
  "approve s d =
     (if fs_origin s = FILE_IMPORT then refuse_review FILE_IMPORT_NOT_VERIFIABLE
      else if strip (fs_reference s) = [] then refuse_review NO_REFERENCE
      else if \<not> rd_document_checked d then refuse_review DOCUMENT_NOT_CHECKED
      else if fs_authority s \<notin> {EXCHANGE_OFFICIAL, LICENSED_PROVIDER} then refuse_review NOT_AN_AUTHORITATIVE_SOURCE
      else if fs_effective_from s = None then refuse_review EFFECTIVE_DATE_MISSING
      else case fs_value s of
        None \<Rightarrow> refuse_review VALUE_MISSING
      | Some v \<Rightarrow>
          if \<not> value_fits (fs_fact s) v then refuse_review VALUE_TYPE
          else if \<not> value_positive v then refuse_review VALUE_NOT_POSITIVE
          else Inr (approved_fact s d v))"

definition review :: "FactSubmission \<Rightarrow> ReviewDecision \<Rightarrow> ApprovedFact option res" where
  "review s d =
     (if rd_submission_id d \<noteq> fs_submission_id s then refuse_review WRONG_SUBMISSION
      else if strip (rd_reviewer d) = [] then refuse_review REVIEWER_UNNAMED
      else if \<not> is_aware (fs_submitted_at s) \<or> \<not> is_aware (rd_decided_at d) then refuse_review REVIEW_NAIVE_TIMESTAMP
      else if instant (rd_decided_at d) < instant (fs_submitted_at s) then refuse_review DECIDED_BEFORE_SUBMITTED
      else if rd_outcome d = OUTCOME_REJECTED then Inr None
      else rmap Some (approve s d))"

record ReviewVerdict =
  rv_result :: ReviewResult
  rv_refusal_code :: "review_code option"
  rv_approved :: "ApprovedFact option"

definition make_review_verdict :: "ReviewVerdict \<Rightarrow> ReviewVerdict res" where
  "make_review_verdict v =
     (if (rv_result v = RESULT_REFUSED) \<noteq> (rv_refusal_code v \<noteq> None) then Inl ValueError
      else if (rv_result v = RESULT_APPROVED) \<noteq> (rv_approved v \<noteq> None) then Inl ValueError
      else Inr v)"

text \<open>\<open>except ReviewRefusedError\<close>: the refusal becomes a verdict, any other exception passes.\<close>

definition judge :: "FactSubmission \<Rightarrow> ReviewDecision \<Rightarrow> ReviewVerdict res" where
  "judge s d =
     (case review s d of
        Inl e \<Rightarrow>
          (case e of
             ReviewRefusedError c \<Rightarrow>
               make_review_verdict \<lparr> rv_result = RESULT_REFUSED, rv_refusal_code = Some c, rv_approved = None \<rparr>
           | _ \<Rightarrow> Inl e)
      | Inr None \<Rightarrow> make_review_verdict \<lparr> rv_result = RESULT_REJECTED, rv_refusal_code = None, rv_approved = None \<rparr>
      | Inr (Some a) \<Rightarrow> make_review_verdict \<lparr> rv_result = RESULT_APPROVED, rv_refusal_code = None, rv_approved = Some a \<rparr>)"

section \<open>Retries\<close>

fun same_fact_value :: "FactValue option \<Rightarrow> FactValue option \<Rightarrow> bool" where
  "same_fact_value None None = True"
| "same_fact_value (Some (DecimalValue a)) (Some (DecimalValue b)) = dec_eq a b"
| "same_fact_value (Some (DateValue a)) (Some (DateValue b)) = (a = b)"
| "same_fact_value _ _ = False"

text \<open>Every field but the time the submission, or the decision, was stamped with.\<close>

definition same_claim :: "FactSubmission \<Rightarrow> FactSubmission \<Rightarrow> bool" where
  "same_claim a b =
     (fs_submission_id a = fs_submission_id b \<and> fs_symbol a = fs_symbol b \<and> fs_fact a = fs_fact b
      \<and> same_fact_value (fs_value a) (fs_value b) \<and> fs_reference a = fs_reference b
      \<and> fs_authority a = fs_authority b \<and> same_optional_moment (fs_effective_from a) (fs_effective_from b)
      \<and> fs_submitted_by a = fs_submitted_by b \<and> fs_origin a = fs_origin b
      \<and> same_optional_moment (fs_effective_until a) (fs_effective_until b) \<and> fs_corrects a = fs_corrects b)"

definition same_decision :: "ReviewDecision \<Rightarrow> ReviewDecision \<Rightarrow> bool" where
  "same_decision a b =
     (rd_submission_id a = rd_submission_id b \<and> rd_reviewer a = rd_reviewer b \<and> rd_outcome a = rd_outcome b
      \<and> rd_document_checked a = rd_document_checked b \<and> rd_note a = rd_note b)"

section \<open>A record from approved facts\<close>

definition decimal_fact :: "ApprovedFact \<Rightarrow> ContractFact \<Rightarrow> dec VerifiedValue res" where
  "decimal_fact a expected =
     (case vvalue (af_verified a) of
        DecimalValue d \<Rightarrow>
          if fs_fact (af_submission a) \<noteq> expected then refuse_review WRONG_FACT
          else Inr \<lparr> vvalue = d, vstatus = vstatus (af_verified a), vsource = vsource (af_verified a),
                     vas_of = vas_of (af_verified a), vnote = vnote (af_verified a) \<rparr>
      | DateValue _ \<Rightarrow> refuse_review WRONG_FACT)"

definition approved_expiry :: "ApprovedFact \<Rightarrow> ContractExpiry res" where
  "approved_expiry a =
     (case vvalue (af_verified a) of
        DateValue d \<Rightarrow>
          if fs_fact (af_submission a) \<noteq> FACT_EXPIRY_DATE then refuse_review WRONG_FACT
          else Inr \<lparr> expiry_date = \<lparr> vvalue = d, vstatus = vstatus (af_verified a), vsource = vsource (af_verified a),
                                     vas_of = vas_of (af_verified a), vnote = vnote (af_verified a) \<rparr>,
                     last_trading_time = None \<rparr>
      | DecimalValue _ \<Rightarrow> refuse_review WRONG_FACT)"

definition same_source :: "FactSubmission \<Rightarrow> FactSubmission \<Rightarrow> bool" where
  "same_source a b =
     (fs_symbol a = fs_symbol b \<and> fs_reference a = fs_reference b \<and> fs_authority a = fs_authority b
      \<and> same_optional_moment (fs_effective_from a) (fs_effective_from b)
      \<and> same_optional_moment (fs_effective_until a) (fs_effective_until b))"

fun earliest :: "moment \<Rightarrow> moment list \<Rightarrow> moment res" where
  "earliest m [] = Inr m"
| "earliest m (x # xs) = rbind (moment_min m x) (\<lambda>y. earliest y xs)"

text \<open>\<open>", ".join(sorted(\{...\}))\<close>.\<close>

fun comma_joined :: "string list \<Rightarrow> string" where
  "comma_joined [] = []"
| "comma_joined [x] = x"
| "comma_joined (x # xs) = x @ '', '' @ comma_joined xs"

definition reviewers_text :: "ApprovedFact list \<Rightarrow> string" where
  "reviewers_text parts = comma_joined (sort (remdups (map (\<lambda>p. rd_reviewer (af_decision p)) parts)))"

definition contract_from :: "FactSubmission \<Rightarrow> string \<Rightarrow> string \<Rightarrow> ApprovedFact \<Rightarrow> ApprovedFact \<Rightarrow> ContractExpiry option \<Rightarrow> FuturesContract res" where
  "contract_from first underlying name multiplier tick expiry =
     rbind (decimal_fact multiplier FACT_MULTIPLIER) (\<lambda>m.
     rbind (decimal_fact tick FACT_TICK_SIZE) (\<lambda>t.
       make_contract
         \<lparr> fc_symbol = fs_symbol first, fc_underlying_symbol = underlying, fc_contract_name = name,
           fc_multiplier = m, fc_tick_size = t, fc_tick_value = None, fc_initial_margin = None,
           fc_maintenance_margin = None, fc_expiry = expiry, fc_settlement = None, fc_trading_session = None,
           fc_valuation = LINEAR, fc_classification = None \<rparr>))"

definition record_from_approved ::
  "string \<Rightarrow> string \<Rightarrow> string \<Rightarrow> ApprovedFact \<Rightarrow> ApprovedFact \<Rightarrow> ApprovedFact option \<Rightarrow> ContractSourceRecord res" where
  "record_from_approved record_id underlying name multiplier tick expiry =
     (let parts = [multiplier, tick] @ (case expiry of None \<Rightarrow> [] | Some e \<Rightarrow> [e]);
          first = af_submission multiplier
      in if list_ex (\<lambda>p. \<not> same_source (af_submission p) first) parts then refuse_review MIXED_SOURCES
         else if list_ex (\<lambda>p. fs_corrects (af_submission p) \<noteq> fs_corrects first) parts then refuse_review MIXED_CORRECTIONS
         else case fs_effective_from first of
           None \<Rightarrow> Inl AssertionError
         | Some from_moment \<Rightarrow>
             rbind (case expiry of None \<Rightarrow> Inr None | Some e \<Rightarrow> rmap Some (approved_expiry e)) (\<lambda>contract_expiry.
             rbind (contract_from first underlying name multiplier tick contract_expiry) (\<lambda>contract.
             rbind (earliest (rd_decided_at (af_decision multiplier)) (map (\<lambda>p. rd_decided_at (af_decision p)) (tl parts))) (\<lambda>verified.
               make_source_record
                 \<lparr> sr_record_id = record_id, sr_contract = contract, sr_authority = fs_authority first,
                   sr_reference = fs_reference first, sr_effective_from = from_moment, sr_verified_at = verified,
                   sr_effective_until = fs_effective_until first, sr_corrects = fs_corrects first,
                   sr_reviewed_by = Some (reviewers_text parts), sr_known_at = None \<rparr>))))"

section \<open>What an approval takes\<close>

definition attested :: "FactSubmission \<Rightarrow> ReviewDecision \<Rightarrow> bool" where
  "attested s d \<longleftrightarrow> rd_submission_id d = fs_submission_id s \<and> strip (rd_reviewer d) \<noteq> []
     \<and> is_aware (fs_submitted_at s) \<and> is_aware (rd_decided_at d) \<and> instant (fs_submitted_at s) \<le> instant (rd_decided_at d)"

definition verifiable :: "FactSubmission \<Rightarrow> ReviewDecision \<Rightarrow> bool" where
  "verifiable s d \<longleftrightarrow> fs_origin s = MANUAL_ENTRY \<and> strip (fs_reference s) \<noteq> [] \<and> rd_document_checked d
     \<and> fs_authority s \<in> {EXCHANGE_OFFICIAL, LICENSED_PROVIDER} \<and> fs_effective_from s \<noteq> None
     \<and> (\<exists>v. fs_value s = Some v \<and> value_fits (fs_fact s) v \<and> value_positive v)"

lemma approve_cases:
  "verifiable s d \<Longrightarrow> approve s d = Inr (approved_fact s d (the (fs_value s)))"
  "\<not> verifiable s d \<Longrightarrow> \<exists>c. approve s d = refuse_review c"
proof -
  have o: "fs_origin s = MANUAL_ENTRY \<longleftrightarrow> fs_origin s \<noteq> FILE_IMPORT"
    by (cases "fs_origin s") simp_all
  show "verifiable s d \<Longrightarrow> approve s d = Inr (approved_fact s d (the (fs_value s)))"
    by (auto simp: approve_def verifiable_def)
  show "\<exists>c. approve s d = refuse_review c" if "\<not> verifiable s d"
  proof (cases "approve s d")
    case (Inl e)
    then have "\<exists>c. ReviewRefusedError c = e"
      unfolding approve_def refuse_review_def by (cases "fs_value s") (auto split: if_splits)
    then show ?thesis using Inl by (auto simp: refuse_review_def)
  next
    case (Inr a)
    then have "verifiable s d"
      unfolding approve_def verifiable_def o refuse_review_def
      by (cases "fs_value s") (simp_all split: if_splits)
    then show ?thesis using that by blast
  qed
qed

lemma judge_cases:
  obtains (refused) c where "judge s d = Inr \<lparr> rv_result = RESULT_REFUSED, rv_refusal_code = Some c, rv_approved = None \<rparr>"
      "\<not> attested s d \<or> rd_outcome d = OUTCOME_APPROVED \<and> \<not> verifiable s d"
  | (rejected) "judge s d = Inr \<lparr> rv_result = RESULT_REJECTED, rv_refusal_code = None, rv_approved = None \<rparr>"
      "attested s d" "rd_outcome d = OUTCOME_REJECTED"
  | (approved) "judge s d = Inr \<lparr> rv_result = RESULT_APPROVED, rv_refusal_code = None,
                                  rv_approved = Some (approved_fact s d (the (fs_value s))) \<rparr>"
      "attested s d" "rd_outcome d = OUTCOME_APPROVED" "verifiable s d"
proof -
  have out: "rd_outcome d = OUTCOME_APPROVED \<longleftrightarrow> rd_outcome d \<noteq> OUTCOME_REJECTED"
    by (cases "rd_outcome d") simp_all
  show ?thesis
  proof (cases "attested s d")
    case False
    then have "\<exists>c. review s d = refuse_review c"
      by (auto simp: review_def attested_def not_le)
    then obtain c where "review s d = refuse_review c" by blast
    then show ?thesis
      using refused[of c] False by (simp add: judge_def refuse_review_def make_review_verdict_def)
  next
    case True
    then have r: "review s d = (if rd_outcome d = OUTCOME_REJECTED then Inr None else rmap Some (approve s d))"
      by (auto simp: review_def attested_def)
    consider "rd_outcome d = OUTCOME_REJECTED" | "rd_outcome d \<noteq> OUTCOME_REJECTED" "verifiable s d"
      | "rd_outcome d \<noteq> OUTCOME_REJECTED" "\<not> verifiable s d" by blast
    then show ?thesis
    proof cases
      case 1
      then show ?thesis using rejected True r by (simp add: judge_def make_review_verdict_def)
    next
      case 2
      have "approve s d = Inr (approved_fact s d (the (fs_value s)))"
        using approve_cases(1) 2(2) by blast
      then show ?thesis using approved True r 2 out by (simp add: judge_def make_review_verdict_def)
    next
      case 3
      then obtain c where "approve s d = refuse_review c" using approve_cases(2) by blast
      then show ?thesis
        using refused[of c] r 3 out by (simp add: judge_def refuse_review_def make_review_verdict_def)
    qed
  qed
qed

lemma judge_approved:
  assumes "judge s d = Inr v" and "rv_approved v = Some a"
  shows "a = approved_fact s d (the (fs_value s))" "attested s d" "verifiable s d" "rd_outcome d = OUTCOME_APPROVED"
    "rv_result v = RESULT_APPROVED"
  using assms by (cases s d rule: judge_cases; auto)+

lemma judge_result:
  assumes "judge s d = Inr v" and "rv_result v = RESULT_APPROVED"
  shows "rv_approved v = Some (approved_fact s d (the (fs_value s)))"
  using assms by (cases s d rule: judge_cases) auto

section \<open>What a record from approved facts says\<close>

lemma approved_fact_simps [simp]:
  "af_submission (approved_fact s d v) = s" "af_decision (approved_fact s d v) = d"
  "vvalue (af_verified (approved_fact s d v)) = v" "vstatus (af_verified (approved_fact s d v)) = VERIFIED_CURRENT_FACT"
  "vsource (af_verified (approved_fact s d v)) = fs_reference s"
  "vas_of (af_verified (approved_fact s d v)) = Some (rd_decided_at d)"
  by (simp_all add: approved_fact_def)

lemma decimal_fact_sourced:
  assumes "decimal_fact (approved_fact s d v) k = Inr x" and "strip (fs_reference s) \<noteq> []"
  shows "sourced_fact x" "DecimalValue (vvalue x) = v" "fs_fact s = k"
  using assms
  by (auto simp: decimal_fact_def refuse_review_def sourced_fact_def is_authoritative_def status_is_authoritative_def
      split: FactValue.splits if_splits)

lemma make_contract_same: "make_contract c = Inr c' \<Longrightarrow> c' = c"
  by (auto simp: make_contract_def res_simps)

lemma contract_from_Inr:
  assumes "contract_from first u n m t x = Inr c"
  obtains m' t' where "decimal_fact m FACT_MULTIPLIER = Inr m'" "decimal_fact t FACT_TICK_SIZE = Inr t'"
    "fc_symbol c = fs_symbol first" "fc_multiplier c = m'" "fc_tick_size c = t'" "fc_underlying_symbol c = u"
    "fc_contract_name c = n"
  using assms by (auto simp: contract_from_def res_simps dest!: make_contract_same)

lemma make_source_record_same: "make_source_record r = Inr r' \<Longrightarrow> r' = r"
  by (auto simp: make_source_record_def split: if_splits)

lemma record_from_approved_Inr:
  assumes "record_from_approved i u n m t x = Inr r"
  obtains c cx where "contract_from (af_submission m) u n m t cx = Inr c" "sr_contract r = c"
    "sr_record_id r = i" "sr_authority r = fs_authority (af_submission m)" "sr_reference r = fs_reference (af_submission m)"
    "sr_corrects r = fs_corrects (af_submission m)"
    "same_source (af_submission t) (af_submission m)" "fs_corrects (af_submission t) = fs_corrects (af_submission m)"
  using assms
  by (auto simp: record_from_approved_def Let_def res_simps refuse_review_def split: if_splits option.splits
      dest!: make_source_record_same)

lemma authority_ranked: "a \<in> {EXCHANGE_OFFICIAL, LICENSED_PROVIDER} \<longleftrightarrow> authority_rank a \<noteq> None"
  by (cases a) simp_all

lemma record_from_approved_authoritative:
  assumes "record_from_approved i u n (approved_fact s d v) (approved_fact s' d' v') x = Inr r"
    and "verifiable s d" "verifiable s' d'"
  shows "record_is_authoritative r" "DecimalValue (vvalue (fc_multiplier (sr_contract r))) = v"
    "DecimalValue (vvalue (fc_tick_size (sr_contract r))) = v'" "sr_reference r = fs_reference s"
    "fc_symbol (sr_contract r) = fs_symbol s" "sr_authority r = fs_authority s" "fs_fact s = FACT_MULTIPLIER"
    "fs_fact s' = FACT_TICK_SIZE" "same_source s' s"
proof -
  obtain c cx where c: "contract_from s u n (approved_fact s d v) (approved_fact s' d' v') cx = Inr c"
    and r: "sr_contract r = c" "sr_authority r = fs_authority s" "sr_reference r = fs_reference s" "same_source s' s"
    using record_from_approved_Inr[OF assms(1)] by (metis approved_fact_simps(1))
  obtain m' t' where mt: "decimal_fact (approved_fact s d v) FACT_MULTIPLIER = Inr m'"
    "decimal_fact (approved_fact s' d' v') FACT_TICK_SIZE = Inr t'" "fc_symbol c = fs_symbol s"
    "fc_multiplier c = m'" "fc_tick_size c = t'"
    using contract_from_Inr[OF c] by metis
  note dm = decimal_fact_sourced[OF mt(1)] and dt = decimal_fact_sourced[OF mt(2)]
  have ok: "strip (fs_reference s) \<noteq> []" "strip (fs_reference s') \<noteq> []" "authority_rank (fs_authority s) \<noteq> None"
    using assms(2,3) by (auto simp: verifiable_def)
  show "record_is_authoritative r" "DecimalValue (vvalue (fc_multiplier (sr_contract r))) = v"
    "DecimalValue (vvalue (fc_tick_size (sr_contract r))) = v'" "sr_reference r = fs_reference s"
    "fc_symbol (sr_contract r) = fs_symbol s" "sr_authority r = fs_authority s" "fs_fact s = FACT_MULTIPLIER"
    "fs_fact s' = FACT_TICK_SIZE" "same_source s' s"
    using dm dt ok r mt by (simp_all add: record_is_authoritative_def)
qed

end
