(* ===== verification/Sourcing_Journal.thy ===== *)
theory Sourcing_Journal
  imports Sourcing_Review
begin

text \<open>
\<open>app/application/sourcing/fact_review.py\<close> over \<open>app/adapters/persistence/fact_store.py\<close> and
\<open>fact_models.py\<close>: the append-only journal as three tables in the order of their identities, each write with
the column lengths, check constraints, identity and foreign keys its table declares, and the service that
submits, decides and publishes.  A call is one step; entries never change, so what a call read before another's
write it would read after it.  An unreachable database is not modelled.  \<open>journal_after_ok\<close>: every decision in a
reachable journal is what judging its claim gives, every row can be read back.
\<close>

section \<open>The journal's tables (fact\_models.py)\<close>

record JournalledSubmission =
  js_submission :: FactSubmission
  js_recorded_at :: moment

record JournalledDecision =
  jd_decision :: ReviewDecision
  jd_result :: ReviewResult
  jd_refusal_code :: "review_code option"
  jd_recorded_at :: moment

record RecordEvidence =
  ev_multiplier :: string
  ev_tick_size :: string
  ev_expiry :: "string option"

record FactRecordRow =
  fr_record_id :: string
  fr_symbol :: string
  fr_underlying_symbol :: string
  fr_contract_name :: string
  fr_authority :: SourceAuthority
  fr_reference :: string
  fr_effective_from :: moment
  fr_effective_until :: "moment option"
  fr_verified_at :: moment
  fr_corrects :: "string option"
  fr_reviewed_by :: string
  fr_evidence :: RecordEvidence
  fr_recorded_at :: moment

record Journal =
  jn_submissions :: "JournalledSubmission list"
  jn_decisions :: "JournalledDecision list"
  jn_records :: "FactRecordRow list"

definition empty_journal :: Journal where
  "empty_journal = \<lparr> jn_submissions = [], jn_decisions = [], jn_records = [] \<rparr>"

definition find_submission :: "Journal \<Rightarrow> string \<Rightarrow> JournalledSubmission option" where
  "find_submission j i = find (\<lambda>s. fs_submission_id (js_submission s) = i) (jn_submissions j)"

definition find_decision :: "Journal \<Rightarrow> string \<Rightarrow> JournalledDecision option" where
  "find_decision j i = find (\<lambda>d. rd_submission_id (jd_decision d) = i) (jn_decisions j)"

definition find_record :: "Journal \<Rightarrow> string \<Rightarrow> FactRecordRow option" where
  "find_record j i = find (\<lambda>r. fr_record_id r = i) (jn_records j)"

definition journal_conflict :: "journal_code \<Rightarrow> 'a res" where
  "journal_conflict c = Inl (VerificationConflictError c)"

text \<open>\<open>btrim\<close> of a database text: spaces only.\<close>

definition btrim :: "string \<Rightarrow> string" where
  "btrim s = rev (dropWhile (\<lambda>c. c = CHR '' '') (rev (dropWhile (\<lambda>c. c = CHR '' '') s)))"

definition period_empty :: "moment option \<Rightarrow> moment option \<Rightarrow> bool" where
  "period_empty a b = (case (a, b) of (Some x, Some y) \<Rightarrow> instant y \<le> instant x | _ \<Rightarrow> False)"

text \<open>A reference to a record that exists, or none.\<close>

definition corrects_known :: "Journal \<Rightarrow> string option \<Rightarrow> bool" where
  "corrects_known j c = (case c of None \<Rightarrow> True | Some i \<Rightarrow> find_record j i \<noteq> None)"

section \<open>Writes (fact\_store.py)\<close>

text \<open>
  Column lengths first, then check constraints in the order of their names, then \<open>ON CONFLICT DO
  NOTHING\<close> on the identity, then the foreign keys. A refused write leaves every table as it was.
\<close>

definition submission_checks :: "FactSubmission \<Rightarrow> unit res" where
  "submission_checks s =
     (if list_ex (\<lambda>(t, n). n < length t)
           ([(fs_submission_id s, 64), (fs_symbol s, 64), (fs_reference s, 500), (fs_submitted_by s, 80 :: nat)]
            @ (case fs_corrects s of None \<Rightarrow> [] | Some c \<Rightarrow> [(c, 64)])) then journal_conflict VALUE_OUT_OF_BOUNDS
      else if btrim (fs_submission_id s) = [] then journal_conflict INTEGRITY_REFUSED
      else if period_empty (fs_effective_from s) (fs_effective_until s) then journal_conflict JOURNAL_PERIOD_EMPTY
      else if fs_symbol s \<noteq> btrim (fs_symbol s) \<or> fs_symbol s = [] then journal_conflict JOURNAL_SYMBOL_NOT_CANONICAL
      else Inr ())"

definition append_submission :: "Journal \<Rightarrow> FactSubmission \<Rightarrow> moment \<Rightarrow> (Journal \<times> bool) res" where
  "append_submission j s now =
     rbind (submission_checks s) (\<lambda>_.
       case find_submission j (fs_submission_id s) of
         Some held \<Rightarrow> if same_claim (js_submission held) s then Inr (j, False) else journal_conflict SUBMISSION_ID_TAKEN
       | None \<Rightarrow>
           if \<not> corrects_known j (fs_corrects s) then journal_conflict UNKNOWN_CORRECTED_RECORD
           else Inr (j\<lparr>jn_submissions := jn_submissions j @ [\<lparr> js_submission = s, js_recorded_at = now \<rparr>]\<rparr>, True))"

definition decision_checks :: "ReviewDecision \<Rightarrow> ReviewVerdict \<Rightarrow> unit res" where
  "decision_checks d v =
     (if 64 < length (rd_submission_id d) \<or> 80 < length (rd_reviewer d) \<or> 500 < length (rd_note d)
      then journal_conflict VALUE_OUT_OF_BOUNDS
      else if rv_result v = RESULT_APPROVED \<and> \<not> (rd_outcome d = OUTCOME_APPROVED \<and> rd_document_checked d)
      then journal_conflict APPROVAL_NOT_ATTESTED
      else if (rv_result v = RESULT_REFUSED) \<noteq> (rv_refusal_code v \<noteq> None) then journal_conflict REFUSAL_WITHOUT_CODE
      else if rv_result v = RESULT_REJECTED \<and> rd_outcome d \<noteq> OUTCOME_REJECTED then journal_conflict INTEGRITY_REFUSED
      else Inr ())"

definition append_decision :: "Journal \<Rightarrow> ReviewDecision \<Rightarrow> ReviewVerdict \<Rightarrow> moment \<Rightarrow> (Journal \<times> JournalledDecision) res" where
  "append_decision j d v now =
     rbind (decision_checks d v) (\<lambda>_.
       case find_decision j (rd_submission_id d) of
         Some held \<Rightarrow>
           if same_decision (jd_decision held) d \<and> jd_result held = rv_result v then Inr (j, held)
           else journal_conflict ALREADY_DECIDED
       | None \<Rightarrow>
           if find_submission j (rd_submission_id d) = None then journal_conflict JOURNAL_UNKNOWN_SUBMISSION
           else let row = \<lparr> jd_decision = d, jd_result = rv_result v, jd_refusal_code = rv_refusal_code v, jd_recorded_at = now \<rparr>
                in Inr (j\<lparr>jn_decisions := jn_decisions j @ [row]\<rparr>, row))"

definition record_row :: "ContractSourceRecord \<Rightarrow> RecordEvidence \<Rightarrow> moment \<Rightarrow> FactRecordRow" where
  "record_row r e now =
     \<lparr> fr_record_id = sr_record_id r, fr_symbol = fc_symbol (sr_contract r),
       fr_underlying_symbol = fc_underlying_symbol (sr_contract r), fr_contract_name = fc_contract_name (sr_contract r),
       fr_authority = sr_authority r, fr_reference = sr_reference r, fr_effective_from = sr_effective_from r,
       fr_effective_until = sr_effective_until r, fr_verified_at = sr_verified_at r, fr_corrects = sr_corrects r,
       fr_reviewed_by = (case sr_reviewed_by r of None \<Rightarrow> [] | Some t \<Rightarrow> t), fr_evidence = e, fr_recorded_at = now \<rparr>"

definition record_checks :: "FactRecordRow \<Rightarrow> unit res" where
  "record_checks w =
     (if list_ex (\<lambda>(t, n). n < length t)
           ([(fr_record_id w, 64), (fr_symbol w, 64), (fr_underlying_symbol w, 64), (fr_contract_name w, 200),
             (fr_reference w, 500), (fr_reviewed_by w, 200), (ev_multiplier (fr_evidence w), 64),
             (ev_tick_size (fr_evidence w), 64 :: nat)]
            @ (case fr_corrects w of None \<Rightarrow> [] | Some c \<Rightarrow> [(c, 64)])
            @ (case ev_expiry (fr_evidence w) of None \<Rightarrow> [] | Some c \<Rightarrow> [(c, 64)])) then journal_conflict VALUE_OUT_OF_BOUNDS
      else if fr_authority w \<notin> {EXCHANGE_OFFICIAL, LICENSED_PROVIDER} then journal_conflict INTEGRITY_REFUSED
      else if btrim (fr_reference w) = [] then journal_conflict INTEGRITY_REFUSED
      else if instant (fr_recorded_at w) < instant (fr_verified_at w) then journal_conflict VERIFIED_AFTER_KNOWN
      else if fr_corrects w = Some (fr_record_id w) then journal_conflict INTEGRITY_REFUSED
      else if period_empty (Some (fr_effective_from w)) (fr_effective_until w) then journal_conflict JOURNAL_PERIOD_EMPTY
      else if fr_symbol w \<noteq> btrim (fr_symbol w) \<or> fr_symbol w = [] then journal_conflict JOURNAL_SYMBOL_NOT_CANONICAL
      else Inr ())"

text \<open>Every column of the held row but \<open>recorded\_at\<close>.\<close>

definition same_row :: "FactRecordRow \<Rightarrow> FactRecordRow \<Rightarrow> bool" where
  "same_row a b =
     (fr_record_id a = fr_record_id b \<and> fr_symbol a = fr_symbol b \<and> fr_underlying_symbol a = fr_underlying_symbol b
      \<and> fr_contract_name a = fr_contract_name b \<and> fr_authority a = fr_authority b \<and> fr_reference a = fr_reference b
      \<and> same_moment (fr_effective_from a) (fr_effective_from b)
      \<and> same_optional_moment (fr_effective_until a) (fr_effective_until b)
      \<and> same_moment (fr_verified_at a) (fr_verified_at b) \<and> fr_corrects a = fr_corrects b
      \<and> fr_reviewed_by a = fr_reviewed_by b \<and> fr_evidence a = fr_evidence b)"

definition approved_id :: "Journal \<Rightarrow> string \<Rightarrow> bool" where
  "approved_id j i = (case find_decision j i of None \<Rightarrow> False | Some d \<Rightarrow> jd_result d = RESULT_APPROVED)"

definition evidence_ids :: "RecordEvidence \<Rightarrow> string list" where
  "evidence_ids e = [ev_multiplier e, ev_tick_size e] @ (case ev_expiry e of None \<Rightarrow> [] | Some i \<Rightarrow> [i])"

definition publish_record :: "Journal \<Rightarrow> ContractSourceRecord \<Rightarrow> RecordEvidence \<Rightarrow> moment \<Rightarrow> (Journal \<times> bool) res" where
  "publish_record j r e now =
     (let row = record_row r e now in
      rbind (record_checks row) (\<lambda>_.
        case find_record j (sr_record_id r) of
          Some held \<Rightarrow> if same_row held row then Inr (j, False) else journal_conflict RECORD_ID_TAKEN
        | None \<Rightarrow>
            if \<not> corrects_known j (sr_corrects r) then journal_conflict UNKNOWN_CORRECTED_RECORD
            else if \<not> list_all (approved_id j) (evidence_ids e) then journal_conflict EVIDENCE_NOT_APPROVED
            else Inr (j\<lparr>jn_records := jn_records j @ [row]\<rparr>, True)))"

section \<open>Reads\<close>

definition journal_entry :: "Journal \<Rightarrow> string \<Rightarrow> (JournalledSubmission \<times> JournalledDecision option) option" where
  "journal_entry j i = map_option (\<lambda>s. (s, find_decision j i)) (find_submission j i)"

definition review_page :: "Journal \<Rightarrow> nat \<Rightarrow> nat \<Rightarrow> (JournalledSubmission \<times> JournalledDecision option) list \<times> nat" where
  "review_page j after limit =
     (map (\<lambda>s. (s, find_decision j (fs_submission_id (js_submission s)))) (take limit (drop after (jn_submissions j))),
      length (jn_submissions j))"

text \<open>\<open>\_approved\<close> of the store: the cited fact, judged again from the journalled claim and decision.\<close>

definition cited_fact :: "Journal \<Rightarrow> string \<Rightarrow> ApprovedFact res" where
  "cited_fact j i =
     (case (find_submission j i, find_decision j i) of
        (Some s, Some d) \<Rightarrow>
          rbind (judge (js_submission s) (jd_decision d)) (\<lambda>v.
            case rv_approved v of None \<Rightarrow> journal_conflict APPROVAL_NO_LONGER_HOLDS | Some a \<Rightarrow> Inr a)
      | _ \<Rightarrow> Inl KeyError)"

definition read_record :: "Journal \<Rightarrow> FactRecordRow \<Rightarrow> ContractSourceRecord res" where
  "read_record j w =
     rbind (cited_fact j (ev_multiplier (fr_evidence w))) (\<lambda>m.
     rbind (cited_fact j (ev_tick_size (fr_evidence w))) (\<lambda>t.
     rbind (case ev_expiry (fr_evidence w) of None \<Rightarrow> Inr None | Some i \<Rightarrow> rmap Some (cited_fact j i)) (\<lambda>e.
     rmap (\<lambda>r. r\<lparr>sr_known_at := Some (fr_recorded_at w)\<rparr>)
       (record_from_approved (fr_record_id w) (fr_underlying_symbol w) (fr_contract_name w) m t e))))"

definition records_for :: "Journal \<Rightarrow> string \<Rightarrow> nat \<Rightarrow> ContractSourceRecord list res" where
  "records_for j symbol limit =
     traverse (read_record j) (take limit (filter (\<lambda>w. fr_symbol w = canonical_symbol symbol) (jn_records j)))"

record VerificationCounts =
  vc_submissions :: nat
  vc_approved :: nat
  vc_rejected :: nat
  vc_refused :: nat
  vc_records :: nat

definition result_count :: "Journal \<Rightarrow> ReviewResult \<Rightarrow> nat" where
  "result_count j r = length (filter (\<lambda>d. jd_result d = r) (jn_decisions j))"

definition counts :: "Journal \<Rightarrow> VerificationCounts" where
  "counts j =
     \<lparr> vc_submissions = length (jn_submissions j), vc_approved = result_count j RESULT_APPROVED,
       vc_rejected = result_count j RESULT_REJECTED, vc_refused = result_count j RESULT_REFUSED,
       vc_records = length (jn_records j) \<rparr>"

section \<open>The service (application/sourcing/fact\_review.py)\<close>

text \<open>\<open>\_bounded\<close>: each text present against the limit of its field.\<close>

definition bounded :: "(string option \<times> nat) list \<Rightarrow> unit res" where
  "bounded ts =
     (if list_ex (\<lambda>(t, n). case t of None \<Rightarrow> False | Some s \<Rightarrow> n < length s) ts then refuse_review FIELD_TOO_LONG else Inr ())"

definition submit :: "Journal \<Rightarrow> FactSubmission \<Rightarrow> moment \<Rightarrow> (Journal \<times> bool) res" where
  "submit j s now =
     (if fs_symbol s \<noteq> canonical_symbol (fs_symbol s) \<or> fs_symbol s = [] then refuse_review SYMBOL_NOT_CANONICAL
      else rbind (bounded [(Some (fs_submission_id s), 64), (Some (fs_symbol s), 64), (Some (fs_reference s), 500),
                           (Some (fs_submitted_by s), 80), (fs_corrects s, 64)]) (\<lambda>_.
        if \<not> (is_aware (fs_submitted_at s) \<and> aware_or_absent (fs_effective_from s) \<and> aware_or_absent (fs_effective_until s))
        then refuse_review REVIEW_NAIVE_TIMESTAMP
        else if period_empty (fs_effective_from s) (fs_effective_until s) then refuse_review EFFECTIVE_PERIOD_EMPTY
        else if instant now < instant (fs_submitted_at s) then refuse_review FUTURE_DATED
        else append_submission j s now))"

text \<open>\<open>now\<close> is the clock when the decision is checked, \<open>later\<close> when it is written.\<close>

definition decide_claim :: "Journal \<Rightarrow> ReviewDecision \<Rightarrow> moment \<Rightarrow> moment \<Rightarrow> (Journal \<times> JournalledDecision) res" where
  "decide_claim j d now later =
     rbind (bounded [(Some (rd_reviewer d), 80), (Some (rd_note d), 500)]) (\<lambda>_.
       if \<not> is_aware (rd_decided_at d) then refuse_review REVIEW_NAIVE_TIMESTAMP
       else if instant now < instant (rd_decided_at d) then refuse_review FUTURE_DATED
       else case journal_entry j (rd_submission_id d) of
         None \<Rightarrow> refuse_review UNKNOWN_SUBMISSION
       | Some (s, Some held) \<Rightarrow>
           if same_decision (jd_decision held) d then Inr (j, held) else journal_conflict ALREADY_DECIDED
       | Some (s, None) \<Rightarrow> rbind (judge (js_submission s) d) (\<lambda>v. append_decision j d v later))"

text \<open>\<open>\_approved\<close> of the service.\<close>

definition approved_entry :: "Journal \<Rightarrow> string \<Rightarrow> ApprovedFact res" where
  "approved_entry j i =
     (case journal_entry j i of
        Some (s, Some d) \<Rightarrow>
          if jd_result d \<noteq> RESULT_APPROVED then journal_conflict NOT_APPROVED
          else rbind (judge (js_submission s) (jd_decision d)) (\<lambda>v.
            case rv_approved v of None \<Rightarrow> journal_conflict APPROVAL_NO_LONGER_HOLDS | Some a \<Rightarrow> Inr a)
      | _ \<Rightarrow> journal_conflict NOT_APPROVED)"

definition publish ::
  "Journal \<Rightarrow> string \<Rightarrow> string \<Rightarrow> string \<Rightarrow> RecordEvidence \<Rightarrow> moment \<Rightarrow> (Journal \<times> ContractSourceRecord) res" where
  "publish j record_id underlying name e now =
     rbind (bounded [(Some record_id, 64), (Some underlying, 64), (Some name, 200)]) (\<lambda>_.
     rbind (approved_entry j (ev_multiplier e)) (\<lambda>m.
     rbind (approved_entry j (ev_tick_size e)) (\<lambda>t.
     rbind (case ev_expiry e of None \<Rightarrow> Inr None | Some i \<Rightarrow> rmap Some (approved_entry j i)) (\<lambda>x.
     rbind (record_from_approved record_id underlying name m t x) (\<lambda>r.
     rmap (\<lambda>p. (fst p, r)) (publish_record j r e now))))))"

section \<open>Sequences of service calls\<close>

datatype JournalInput =
    Submit FactSubmission moment
  | Decide ReviewDecision moment moment
  | Publish string string string RecordEvidence moment

text \<open>One call; a call that raises leaves the journal as it was.\<close>

definition journal_step :: "Journal \<Rightarrow> JournalInput \<Rightarrow> Journal" where
  "journal_step j i =
     (case (case i of
              Submit s now \<Rightarrow> rmap fst (submit j s now)
            | Decide d now later \<Rightarrow> rmap fst (decide_claim j d now later)
            | Publish r u n e now \<Rightarrow> rmap fst (publish j r u n e now)) of
        Inl e \<Rightarrow> j
      | Inr k \<Rightarrow> k)"

definition journal_after :: "JournalInput list \<Rightarrow> Journal" where
  "journal_after is = foldl journal_step empty_journal is"

definition journal_extends :: "Journal \<Rightarrow> Journal \<Rightarrow> bool" where
  "journal_extends k j \<longleftrightarrow> (\<exists>a b c. jn_submissions k = jn_submissions j @ a \<and> jn_decisions k = jn_decisions j @ b
     \<and> jn_records k = jn_records j @ c)"

text \<open>A decision carries the result of judging it against its submission; a row is what its evidence says.\<close>

definition decision_ok :: "Journal \<Rightarrow> JournalledDecision \<Rightarrow> bool" where
  "decision_ok j d \<longleftrightarrow> (\<exists>s v. find_submission j (rd_submission_id (jd_decision d)) = Some s
     \<and> judge (js_submission s) (jd_decision d) = Inr v \<and> rv_result v = jd_result d)"

definition row_ok :: "Journal \<Rightarrow> FactRecordRow \<Rightarrow> bool" where
  "row_ok j w \<longleftrightarrow> (\<exists>r. read_record j w = Inr r \<and> fc_symbol (sr_contract r) = fr_symbol w)"

definition journal_ok :: "Journal \<Rightarrow> bool" where
  "journal_ok j \<longleftrightarrow> list_all (decision_ok j) (jn_decisions j) \<and> list_all (row_ok j) (jn_records j)
     \<and> distinct (map (\<lambda>d. rd_submission_id (jd_decision d)) (jn_decisions j))"

lemma journal_extends_refl [simp]: "journal_extends j j"
  by (simp add: journal_extends_def)

lemma journal_extends_trans: "journal_extends l k \<Longrightarrow> journal_extends k j \<Longrightarrow> journal_extends l j"
  by (auto simp: journal_extends_def)

lemma find_app: "find P xs = Some x \<Longrightarrow> find P (xs @ ys) = Some x"
  by (induction xs) (auto split: if_splits)

lemma find_None_iff': "find P xs = None \<longleftrightarrow> (\<forall>x\<in>set xs. \<not> P x)"
  by (auto simp: find_None_iff)

lemma extends_find:
  assumes "journal_extends k j"
  shows "find_submission j i = Some s \<Longrightarrow> find_submission k i = Some s"
    "find_decision j i = Some d \<Longrightarrow> find_decision k i = Some d"
  using assms by (auto simp: journal_extends_def find_submission_def find_decision_def find_app)

lemma extends_cited:
  assumes "journal_extends k j" and "cited_fact j i = Inr a"
  shows "cited_fact k i = Inr a"
proof -
  obtain s d where "find_submission j i = Some s" "find_decision j i = Some d"
    using assms(2) by (auto simp: cited_fact_def split: option.splits)
  moreover from this have "find_submission k i = Some s" "find_decision k i = Some d"
    using extends_find[OF assms(1)] by blast+
  ultimately show ?thesis using assms(2) by (simp add: cited_fact_def)
qed

lemma extends_read:
  assumes "journal_extends k j" and "read_record j w = Inr r"
  shows "read_record k w = Inr r"
proof -
  note c = extends_cited[OF assms(1)]
  show ?thesis
    using assms(2) by (cases "ev_expiry (fr_evidence w)") (auto simp: read_record_def res_simps c dest!: c)
qed

lemma extends_ok:
  assumes "journal_extends k j"
  shows "decision_ok j d \<Longrightarrow> decision_ok k d" "row_ok j w \<Longrightarrow> row_ok k w"
  unfolding decision_ok_def row_ok_def
  using extends_find(1)[OF assms] extends_read[OF assms] by blast+

lemma approved_entry_cited: "approved_entry j i = Inr a \<Longrightarrow> cited_fact j i = Inr a"
  by (auto simp: approved_entry_def cited_fact_def journal_entry_def journal_conflict_def split: option.splits if_splits)

lemma submit_step:
  assumes "submit j s now = Inr (k, b)" and "journal_ok j"
  shows "journal_extends k j \<and> journal_ok k"
proof -
  have k: "k = j \<or> k = j\<lparr>jn_submissions := jn_submissions j @ [\<lparr> js_submission = s, js_recorded_at = now \<rparr>]\<rparr>"
    using assms(1)
    by (auto simp: submit_def append_submission_def res_simps refuse_review_def journal_conflict_def split: if_splits option.splits)
  then have e: "journal_extends k j" by (auto simp: journal_extends_def)
  moreover have "jn_decisions k = jn_decisions j" "jn_records k = jn_records j" using k by auto
  ultimately show ?thesis
    using assms(2) extends_ok[OF e] by (auto simp: journal_ok_def list_all_iff)
qed

lemma decide_claim_step:
  assumes "decide_claim j d now later = Inr (k, x)" and "journal_ok j"
  shows "journal_extends k j \<and> journal_ok k"
proof (cases "k = j")
  case False
  obtain s where s: "find_submission j (rd_submission_id d) = Some s" "find_decision j (rd_submission_id d) = None"
    and "rbind (judge (js_submission s) d) (\<lambda>v. append_decision j d v later) = Inr (k, x)"
    using assms(1) False
    by (auto simp: decide_claim_def res_simps refuse_review_def journal_conflict_def journal_entry_def split: if_splits option.splits)
  then obtain v where v: "judge (js_submission s) d = Inr v" and a: "append_decision j d v later = Inr (k, x)"
    by (auto simp: res_simps)
  have k: "k = j\<lparr>jn_decisions := jn_decisions j @ [\<lparr> jd_decision = d, jd_result = rv_result v,
      jd_refusal_code = rv_refusal_code v, jd_recorded_at = later \<rparr>]\<rparr>"
    using a s by (auto simp: append_decision_def res_simps Let_def)
  then have e: "journal_extends k j" by (auto simp: journal_extends_def)
  have "decision_ok k \<lparr> jd_decision = d, jd_result = rv_result v, jd_refusal_code = rv_refusal_code v, jd_recorded_at = later \<rparr>"
    using extends_find(1)[OF e s(1)] v by (auto simp: decision_ok_def)
  moreover have "rd_submission_id d \<notin> set (map (\<lambda>d. rd_submission_id (jd_decision d)) (jn_decisions j))"
    using s(2) by (auto simp: find_decision_def find_None_iff')
  ultimately show ?thesis
    using assms(2) extends_ok[OF e] e k by (auto simp: journal_ok_def list_all_iff)
qed (use assms in simp)

lemma publish_step:
  assumes "publish j i u n e now = Inr (k, r)" and "journal_ok j"
  shows "journal_extends k j \<and> journal_ok k"
proof -
  obtain m t x b where m: "approved_entry j (ev_multiplier e) = Inr m" and t: "approved_entry j (ev_tick_size e) = Inr t"
    and x: "(case ev_expiry e of None \<Rightarrow> Inr None | Some i \<Rightarrow> rmap Some (approved_entry j i)) = Inr x"
    and r: "record_from_approved i u n m t x = Inr r" and p: "publish_record j r e now = Inr (k, b)"
    using assms(1) by (auto simp: publish_def res_simps)
  have k: "k = j \<or> k = j\<lparr>jn_records := jn_records j @ [record_row r e now]\<rparr>"
    using p by (auto simp: publish_record_def Let_def res_simps journal_conflict_def split: option.splits if_splits)
  then have ext: "journal_extends k j" by (auto simp: journal_extends_def)
  have ids: "sr_record_id r = i" "fc_underlying_symbol (sr_contract r) = u" "fc_contract_name (sr_contract r) = n"
    using record_from_approved_Inr[OF r] by (metis contract_from_Inr)+
  have "read_record j (record_row r e now) = Inr (r\<lparr>sr_known_at := Some now\<rparr>)"
    using approved_entry_cited[OF m] approved_entry_cited[OF t] x r
    by (cases "ev_expiry e") (auto simp: read_record_def record_row_def ids res_simps dest: approved_entry_cited)
  then have "row_ok j (record_row r e now)"
    by (simp add: row_ok_def record_row_def)
  then show ?thesis
    using assms(2) extends_ok[OF ext] ext k by (auto simp: journal_ok_def list_all_iff)
qed

lemma journal_step_ok:
  assumes "journal_ok j"
  shows "journal_extends (journal_step j i) j \<and> journal_ok (journal_step j i)"
  using assms
  by (cases i)
    (auto simp: journal_step_def res_simps split: sum.split dest: submit_step decide_claim_step publish_step)

text \<open>The journal is a machine that never raises: a refused call changes nothing.\<close>

interpretation journal: total_machine "\<lambda>j i. Inr (journal_step j i) :: Journal res" journal_ok
  by unfold_locales (use journal_step_ok in auto)

lemma run_all_journal: "run_all (\<lambda>j i. Inr (journal_step j i) :: Journal res) j is = Inr (foldl journal_step j is)"
  by (induction "is" arbitrary: j) simp_all

lemma journal_run_ok: "journal_ok j \<Longrightarrow> journal_ok (foldl journal_step j is)"
  using journal.run_invar[of j "is"] by (simp add: run_all_journal)

lemma journal_run_extends: "journal_ok j \<Longrightarrow> journal_extends (foldl journal_step j is) j"
proof (induction "is" arbitrary: j)
  case (Cons i "is")
  then show ?case using journal_step_ok journal_extends_trans by (metis foldl_Cons)
qed simp

lemma journal_after_ok: "journal_ok (journal_after is)"
  using journal_run_ok[of empty_journal "is"] by (simp add: journal_after_def journal_ok_def empty_journal_def)

end
