(* ===== verification/Sourcing_Capability.thy ===== *)
theory Sourcing_Capability
  imports Sourcing_Facts Live_Validation Float_Builtins
begin

text \<open>
\<open>app/domain/sourcing/capability.py\<close> and \<open>limits.py\<close>, and the matrix of \<open>app/application/sourcing/capabilities.py\<close>:
what a provider declares, what a licence grants, which provenance a stream may carry, the status of each data
category, when to retry, and the bounds on what a provider may send.
\<close>

section \<open>Declarations and grants (capability.py)\<close>

datatype DataCategory = MARKET_DATA | CONTRACT_METADATA | OPEN_INTEREST_DATA | NEWS | MARKET_BREADTH | SESSION_CALENDAR

definition all_data_categories :: "DataCategory list" where
  "all_data_categories = [MARKET_DATA, CONTRACT_METADATA, OPEN_INTEREST_DATA, NEWS, MARKET_BREADTH, SESSION_CALENDAR]"

datatype Delivery = REAL_TIME | DELIVERY_DELAYED | DELIVERY_HISTORICAL | SIMULATED

text \<open>\<open>\_PROVENANCE\<close>.\<close>

fun delivery_provenance :: "Delivery \<Rightarrow> StreamProvenance" where
  "delivery_provenance REAL_TIME = REAL_EXCHANGE_LIVE"
| "delivery_provenance DELIVERY_DELAYED = REAL_EXCHANGE_DELAYED"
| "delivery_provenance DELIVERY_HISTORICAL = PROVIDER_HISTORICAL"
| "delivery_provenance SIMULATED = SIMULATED_HISTORICAL_STREAM"

record ProviderDeclaration =
  pd_provider_id :: string
  pd_categories :: "DataCategory set"
  pd_delivery :: Delivery
  pd_delay_seconds :: "int option"

definition make_declaration :: "ProviderDeclaration \<Rightarrow> ProviderDeclaration res" where
  "make_declaration p =
     (if strip (pd_provider_id p) = [] then Inl ValueError
      else if pd_categories p = {} then Inl ValueError
      else if pd_delivery p = DELIVERY_DELAYED \<and> (case pd_delay_seconds p of None \<Rightarrow> True | Some s \<Rightarrow> s \<le> 0) then Inl ValueError
      else if pd_delivery p \<noteq> DELIVERY_DELAYED \<and> pd_delay_seconds p \<noteq> None then Inl ValueError
      else Inr p)"

record LicenceGrant =
  lg_provider_id :: string
  lg_categories :: "DataCategory set"
  lg_delivery :: Delivery
  lg_evidence :: "string VerifiedValue"
  lg_valid_until :: "moment option"

definition provenance_for :: "ProviderDeclaration \<Rightarrow> StreamProvenance" where
  "provenance_for p = delivery_provenance (pd_delivery p)"

text \<open>\<open>grant.valid\_until is not None and at >= grant.valid\_until\<close>.\<close>

definition lapsed :: "LicenceGrant \<Rightarrow> moment \<Rightarrow> bool res" where
  "lapsed g at_moment = (case lg_valid_until g of None \<Rightarrow> Inr False | Some u \<Rightarrow> moment_le u at_moment)"

definition refuse_provenance :: "grant_code \<Rightarrow> 'a res" where
  "refuse_provenance c = Inl (ProvenanceRefusedError c)"

definition authorize_provenance :: "StreamProvenance \<Rightarrow> string \<Rightarrow> LicenceGrant option \<Rightarrow> moment \<Rightarrow> StreamProvenance res" where
  "authorize_provenance declared provider grant at_moment =
     (if \<not> requires_grant declared then Inr declared
      else case grant of
        None \<Rightarrow> refuse_provenance PROVENANCE_NOT_GRANTED
      | Some g \<Rightarrow>
          if lg_provider_id g \<noteq> provider then refuse_provenance GRANT_FOR_ANOTHER_PROVIDER
          else if MARKET_DATA \<notin> lg_categories g then refuse_provenance GRANT_DOES_NOT_COVER_MARKET_DATA
          else if delivery_provenance (lg_delivery g) \<noteq> declared then refuse_provenance GRANT_DELIVERY_MISMATCH
          else if \<not> dated_fact (lg_evidence g) then refuse_provenance GRANT_NOT_AUTHORITATIVE
          else rbind (lapsed g at_moment) (\<lambda>gone. if gone then refuse_provenance GRANT_LAPSED else Inr declared))"

section \<open>The status of a category\<close>

datatype CapabilityStatus = NOT_CONFIGURED | NOT_LICENSED | CAP_UNAVAILABLE | CAP_AVAILABLE | CAP_STALE

definition grant_refusal :: "LicenceGrant option \<Rightarrow> string \<Rightarrow> DataCategory \<Rightarrow> Delivery \<Rightarrow> moment \<Rightarrow> grant_code option res" where
  "grant_refusal grant provider category delivery at_moment =
     (case grant of
        None \<Rightarrow> Inr (Some NOT_GRANTED)
      | Some g \<Rightarrow>
          if lg_provider_id g \<noteq> provider then Inr (Some GRANT_FOR_ANOTHER_PROVIDER)
          else if category \<notin> lg_categories g then Inr (Some GRANT_DOES_NOT_COVER_CATEGORY)
          else if delivery = SIMULATED \<or> lg_delivery g = SIMULATED then Inr (Some SIMULATION_IS_NOT_LICENSED)
          else if lg_delivery g \<noteq> delivery then Inr (Some GRANT_DELIVERY_MISMATCH)
          else if \<not> dated_fact (lg_evidence g) then Inr (Some GRANT_NOT_AUTHORITATIVE)
          else rmap (\<lambda>gone. if gone then Some GRANT_LAPSED else None) (lapsed g at_moment))"

definition category_status ::
  "DataCategory \<Rightarrow> ProviderDeclaration option \<Rightarrow> LicenceGrant option \<Rightarrow> bool \<Rightarrow> moment option \<Rightarrow> int \<Rightarrow> moment \<Rightarrow> CapabilityStatus res" where
  "category_status category declaration grant is_connected last_delivery max_age at_moment =
     (case declaration of
        None \<Rightarrow> Inr NOT_CONFIGURED
      | Some p \<Rightarrow>
          if category \<notin> pd_categories p then Inr NOT_CONFIGURED
          else rbind (grant_refusal grant (pd_provider_id p) category (pd_delivery p) at_moment) (\<lambda>refusal.
            if refusal \<noteq> None then Inr NOT_LICENSED
            else if \<not> is_connected then Inr CAP_UNAVAILABLE
            else case last_delivery of
              None \<Rightarrow> Inr CAP_UNAVAILABLE
            | Some t \<Rightarrow> rmap (\<lambda>age. if max_age < age then CAP_STALE else CAP_AVAILABLE) (moment_since at_moment t)))"

text \<open>\<open>capability\_matrix\<close> (application/sourcing/capabilities.py).\<close>

definition capability_matrix ::
  "ProviderDeclaration option \<Rightarrow> LicenceGrant option \<Rightarrow> bool \<Rightarrow> (DataCategory \<rightharpoonup> moment) \<Rightarrow> int \<Rightarrow> moment \<Rightarrow> (DataCategory \<times> CapabilityStatus) list res" where
  "capability_matrix declaration grant is_connected last_delivery max_age at_moment =
     traverse (\<lambda>c. rmap (Pair c) (category_status c declaration grant is_connected (last_delivery c) max_age at_moment))
       all_data_categories"

section \<open>Retries (limits.py)\<close>

datatype FailureClass = TRANSIENT | AUTHENTICATION | FAILURE_NOT_LICENSED | RATE_LIMITED | INVALID_REQUEST

definition terminal_failures :: "FailureClass list" where
  "terminal_failures = [AUTHENTICATION, FAILURE_NOT_LICENSED, INVALID_REQUEST]"


record RetryPolicy =
  max_attempts :: int
  base_delay_seconds :: flt
  max_delay_seconds :: flt

definition make_retry_policy :: "RetryPolicy \<Rightarrow> RetryPolicy res" where
  "make_retry_policy p =
     (if max_attempts p < 1 then Inl ValueError
      else if \<not> (flt_less (FNum 0) (base_delay_seconds p) \<and> flt_le (base_delay_seconds p) (max_delay_seconds p))
      then Inl ValueError
      else Inr p)"

text \<open>\<open>float(2 ** n)\<close>: an integer for \<open>n\<close> not negative, which may be too large for a float.\<close>

definition power_of_two :: "int \<Rightarrow> flt res" where
  "power_of_two n =
     (if n < 0 then Inr (fround (1 / 2 ^ nat (- n)))
      else if flt_is_finite (flt_of_int (2 ^ nat n)) then Inr (flt_of_int (2 ^ nat n)) else Inl OverflowError)"

definition next_delay :: "RetryPolicy \<Rightarrow> int \<Rightarrow> FailureClass \<Rightarrow> flt option res" where
  "next_delay p attempt failure =
     (if failure \<in> set terminal_failures \<or> max_attempts p \<le> attempt then Inr None
      else if failure = RATE_LIMITED then Inr (Some (max_delay_seconds p))
      else rmap (\<lambda>f. Some (py_fmin (fmul (base_delay_seconds p) f) (max_delay_seconds p))) (power_of_two (attempt - 1)))"

record ProviderLimits =
  max_connections :: int
  max_subscriptions :: int
  max_queued_events :: int
  max_backfill_candles :: int
  max_historical_days :: int
  metadata_cache_entries :: int
  metadata_cache_seconds :: int
  shutdown_seconds :: flt
  retry_policy :: RetryPolicy
  max_fact_records :: int
  max_calendar_days :: int
  max_open_interest_points :: int
  max_news_articles :: int
  max_universe_constituents :: int

definition make_provider_limits :: "ProviderLimits \<Rightarrow> ProviderLimits res" where
  "make_provider_limits l =
     (if list_ex (\<lambda>n. n < 1)
           [max_connections l, max_subscriptions l, max_queued_events l, max_backfill_candles l, max_historical_days l,
            metadata_cache_entries l, metadata_cache_seconds l, max_fact_records l, max_calendar_days l,
            max_open_interest_points l, max_news_articles l, max_universe_constituents l]
      then Inl ValueError
      else if flt_le (shutdown_seconds l) (FNum 0) then Inl ValueError
      else Inr l)"

end
