(* ===== verification/Sourcing_Observations.thy ===== *)
theory Sourcing_Observations
  imports Sourcing_Facts "HOL-Library.AList"
begin

text \<open>
\<open>app/domain/sourcing/open_interest.py\<close>, \<open>breadth.py\<close> and \<open>news.py\<close>: sourced measurements looked up as of a
decision.  A frozen set of constituents is a set; a dict filled in a loop is an association list updated in place.
\<close>

section \<open>Open interest (open\_interest.py)\<close>

datatype OpenInterestScope = SCOPE_CONTRACT | SCOPE_UNDERLYING_AGGREGATE

datatype ReportingInterval = END_OF_DAY | INTRADAY_SNAPSHOT

datatype OpenInterestStatus = OI_AVAILABLE | OI_STALE | OI_UNAVAILABLE

record OpenInterestObservation =
  oi_instrument :: string
  oi_scope :: OpenInterestScope
  oi_contracts_open :: dec
  oi_measured_at :: moment
  oi_received_at :: moment
  oi_interval :: ReportingInterval
  oi_source :: "string VerifiedValue"
  oi_published_at :: "moment option"
  oi_revision :: int

text \<open>\<open>value != value.to\_integral\_value()\<close> of a finite number.\<close>

definition whole_number :: "dec \<Rightarrow> bool" where
  "whole_number d = (case d of DFin s c e \<Rightarrow> 0 \<le> e \<or> c mod 10 ^ nat (- e) = 0 | _ \<Rightarrow> False)"

definition make_observation :: "OpenInterestObservation \<Rightarrow> OpenInterestObservation res" where
  "make_observation x =
     (if strip (oi_instrument x) = [] then Inl ValueError
      else if \<not> is_finite (oi_contracts_open x) \<or> dec_less (oi_contracts_open x) dec_zero
              \<or> \<not> whole_number (oi_contracts_open x) then Inl ValueError
      else if \<not> (is_aware (oi_measured_at x) \<and> is_aware (oi_received_at x) \<and> aware_or_absent (oi_published_at x))
      then Inl ValueError
      else if (case oi_published_at x of None \<Rightarrow> False | Some p \<Rightarrow> instant p < instant (oi_measured_at x)) then Inl ValueError
      else if oi_revision x < 0 then Inl ValueError
      else Inr x)"

text \<open>\<open>max(a, b)\<close>: the second only when it is later.\<close>

definition moment_max :: "moment \<Rightarrow> moment \<Rightarrow> moment" where
  "moment_max a b = (if instant a < instant b then b else a)"

definition available_at :: "OpenInterestObservation \<Rightarrow> moment" where
  "available_at x =
     (case oi_published_at x of
        Some p \<Rightarrow> moment_max p (oi_measured_at x)
      | None \<Rightarrow> moment_max (oi_received_at x) (oi_measured_at x))"

record OpenInterestAnswer =
  oa_status :: OpenInterestStatus
  oa_observation :: "OpenInterestObservation option"

definition no_open_interest :: OpenInterestAnswer where
  "no_open_interest = \<lparr> oa_status = OI_UNAVAILABLE, oa_observation = None \<rparr>"

definition observations_known ::
  "OpenInterestObservation list \<Rightarrow> string \<Rightarrow> OpenInterestScope \<Rightarrow> moment \<Rightarrow> OpenInterestObservation list" where
  "observations_known xs instrument scope decision_time =
     filter (\<lambda>x. oi_scope x = scope \<and> same_instrument (oi_instrument x) instrument \<and> dated_fact (oi_source x)
                 \<and> instant (available_at x) \<le> instant decision_time) xs"

text \<open>The latest measurement, and of it the highest revision.\<close>

definition latest_figures :: "OpenInterestObservation list \<Rightarrow> OpenInterestObservation list" where
  "latest_figures known =
     (let latest = Max (set (map (\<lambda>x. instant (oi_measured_at x)) known));
          figures = filter (\<lambda>x. instant (oi_measured_at x) = latest) known;
          newest = Max (set (map oi_revision figures))
      in filter (\<lambda>x. oi_revision x = newest) figures)"

definition open_interest_at ::
  "OpenInterestObservation list \<Rightarrow> string \<Rightarrow> OpenInterestScope \<Rightarrow> moment \<Rightarrow> int \<Rightarrow> OpenInterestAnswer res" where
  "open_interest_at xs instrument scope decision_time max_age =
     (if \<not> is_aware decision_time then Inl ValueError
      else Inr (case latest_figures (observations_known xs instrument scope decision_time) of
        [] \<Rightarrow> no_open_interest
      | x # rest \<Rightarrow>
          if list_ex (\<lambda>y. \<not> dec_eq (oi_contracts_open y) (oi_contracts_open x)) rest then no_open_interest
          else if max_age < instant decision_time - instant (oi_measured_at x)
          then \<lparr> oa_status = OI_STALE, oa_observation = Some x \<rparr>
          else \<lparr> oa_status = OI_AVAILABLE, oa_observation = Some x \<rparr>))"

section \<open>Market breadth (breadth.py)\<close>

datatype UniverseKind = INDEX_CONSTITUENTS | EXCHANGE_LISTING | WATCHLIST

datatype MoveDirection = ADVANCING | DECLINING | UNCHANGED

datatype BreadthStatus = BREADTH_AVAILABLE | BREADTH_PARTIAL | BREADTH_UNAVAILABLE

record Universe =
  un_universe_id :: string
  un_venue :: string
  un_kind :: UniverseKind
  un_constituents :: "string set"
  un_source :: "string VerifiedValue"
  un_methodology :: string

definition universe_usable :: "Universe \<Rightarrow> bool" where
  "universe_usable u =
     (un_kind u \<noteq> WATCHLIST \<and> un_constituents u \<noteq> {} \<and> dated_fact (un_source u) \<and> strip (un_methodology u) \<noteq> [])"

record ConstituentMove =
  mv_symbol :: string
  mv_direction :: MoveDirection
  mv_observed_at :: moment
  mv_available_at :: moment
  mv_revision :: int

definition make_move :: "ConstituentMove \<Rightarrow> ConstituentMove res" where
  "make_move m =
     (if \<not> (is_aware (mv_observed_at m) \<and> is_aware (mv_available_at m)) then Inl ValueError
      else if instant (mv_available_at m) < instant (mv_observed_at m) then Inl ValueError
      else Inr m)"

record BreadthAnswer =
  ba_status :: BreadthStatus
  ba_universe_id :: "string option"
  ba_universe_size :: nat
  ba_observed :: nat
  ba_advancing :: nat
  ba_declining :: nat
  ba_unchanged :: nat
  ba_missing :: "string set"

definition make_breadth :: "BreadthAnswer \<Rightarrow> BreadthAnswer res" where
  "make_breadth b =
     (if ba_advancing b + ba_declining b + ba_unchanged b \<noteq> ba_observed b then Inl ValueError
      else if ba_status b \<noteq> BREADTH_UNAVAILABLE \<and> ba_observed b = 0 then Inl ValueError
      else Inr b)"

definition nat_ratio :: "nat \<Rightarrow> nat \<Rightarrow> dec res" where
  "nat_ratio a b = dec_div default_context (dec_of_int (int a)) (dec_of_int (int b))"

definition coverage :: "BreadthAnswer \<Rightarrow> dec option res" where
  "coverage b =
     (if ba_universe_size b = 0 then Inr None else rmap Some (nat_ratio (ba_observed b) (ba_universe_size b)))"

definition advancing_share :: "BreadthAnswer \<Rightarrow> dec option res" where
  "advancing_share b =
     (if ba_status b = BREADTH_UNAVAILABLE then Inr None else rmap Some (nat_ratio (ba_advancing b) (ba_observed b)))"

definition declining_share :: "BreadthAnswer \<Rightarrow> dec option res" where
  "declining_share b =
     (if ba_status b = BREADTH_UNAVAILABLE then Inr None else rmap Some (nat_ratio (ba_declining b) (ba_observed b)))"

definition no_breadth :: "(Universe \<times> string set) option \<Rightarrow> BreadthAnswer res" where
  "no_breadth u =
     make_breadth
       \<lparr> ba_status = BREADTH_UNAVAILABLE, ba_universe_id = map_option (\<lambda>p. un_universe_id (fst p)) u,
         ba_universe_size = (case u of None \<Rightarrow> 0 | Some p \<Rightarrow> card (un_constituents (fst p))),
         ba_observed = 0, ba_advancing = 0, ba_declining = 0, ba_unchanged = 0,
         ba_missing = (case u of None \<Rightarrow> {} | Some p \<Rightarrow> snd p) \<rparr>"

text \<open>Whether a move is read at all: of this observation, and available by the decision.\<close>

definition move_counts :: "moment \<Rightarrow> moment \<Rightarrow> ConstituentMove \<Rightarrow> bool res" where
  "move_counts observed decision m =
     (if \<not> same_moment (mv_observed_at m) observed then Inr False
      else rmap Not (moment_less decision (mv_available_at m)))"

text \<open>One move per constituent, of the highest revision; \<open>None\<close> when the populations mix or two disagree.\<close>

fun collect_moves ::
  "string set \<Rightarrow> moment \<Rightarrow> moment \<Rightarrow> ConstituentMove list \<Rightarrow> (string \<times> ConstituentMove) list \<Rightarrow> (string \<times> ConstituentMove) list option res" where
  "collect_moves members observed decision [] seen = Inr (Some seen)"
| "collect_moves members observed decision (m # ms) seen =
     (if mv_symbol m \<notin> members then Inr None
      else rbind (move_counts observed decision m) (\<lambda>reads.
        if \<not> reads then collect_moves members observed decision ms seen
        else case map_of seen (mv_symbol m) of
          None \<Rightarrow> collect_moves members observed decision ms (AList.update (mv_symbol m) m seen)
        | Some h \<Rightarrow>
            if mv_revision h < mv_revision m
            then collect_moves members observed decision ms (AList.update (mv_symbol m) m seen)
            else if mv_revision m = mv_revision h \<and> mv_direction m \<noteq> mv_direction h then Inr None
            else collect_moves members observed decision ms seen))"

definition count_direction :: "MoveDirection \<Rightarrow> (string \<times> ConstituentMove) list \<Rightarrow> nat" where
  "count_direction d seen = length (filter (\<lambda>p. mv_direction (snd p) = d) seen)"

definition breadth_answer :: "Universe \<Rightarrow> (string \<times> ConstituentMove) list \<Rightarrow> BreadthAnswer res" where
  "breadth_answer u seen =
     (let missing = un_constituents u - set (map fst seen) in
      make_breadth
        \<lparr> ba_status = (if missing = {} then BREADTH_AVAILABLE else BREADTH_PARTIAL),
          ba_universe_id = Some (un_universe_id u), ba_universe_size = card (un_constituents u),
          ba_observed = length seen, ba_advancing = count_direction ADVANCING seen,
          ba_declining = count_direction DECLINING seen, ba_unchanged = count_direction UNCHANGED seen,
          ba_missing = missing \<rparr>)"

definition judge_moves :: "Universe \<Rightarrow> (string \<times> ConstituentMove) list \<Rightarrow> dec \<Rightarrow> BreadthAnswer res" where
  "judge_moves u seen min_coverage =
     (let missing = un_constituents u - set (map fst seen) in
      if seen = [] then no_breadth (Some (u, missing))
      else rbind (nat_ratio (length seen) (card (un_constituents u))) (\<lambda>q.
           rbind (py_less q min_coverage) (\<lambda>thin.
             if thin then no_breadth (Some (u, missing)) else breadth_answer u seen)))"

definition breadth_at :: "Universe option \<Rightarrow> ConstituentMove list \<Rightarrow> moment \<Rightarrow> moment \<Rightarrow> dec \<Rightarrow> BreadthAnswer res" where
  "breadth_at universe moves observed decision min_coverage =
     rbind (py_less dec_zero min_coverage) (\<lambda>positive.
     rbind (if positive then py_le min_coverage (dec_of_int 1) else Inr False) (\<lambda>fraction.
       if \<not> fraction then Inl ValueError
       else case universe of
         None \<Rightarrow> no_breadth None
       | Some u \<Rightarrow>
           if \<not> universe_usable u then no_breadth None
           else rbind (collect_moves (un_constituents u) observed decision moves []) (\<lambda>r.
             case r of None \<Rightarrow> no_breadth None | Some seen \<Rightarrow> judge_moves u seen min_coverage)))"

section \<open>News (news.py)\<close>

datatype ArticleStatus = PUBLISHED | CORRECTED | RETRACTED

datatype UsageRights = DISPLAY_AND_ANALYSIS | HEADLINE_AND_LINK_ONLY | ANALYSIS_ONLY | NO_USAGE

datatype AssociationBasis = PROVIDER_TAGGED | OPERATOR_TAGGED

record NewsAssociation =
  na_target :: string
  na_basis :: AssociationBasis

record NewsArticle =
  ne_article_id :: string
  ne_publisher :: string
  ne_headline :: string
  ne_url :: string
  ne_published_at :: moment
  ne_available_at :: moment
  ne_source :: "string VerifiedValue"
  ne_usage :: UsageRights
  ne_associations :: "NewsAssociation list"
  ne_status :: ArticleStatus
  ne_revision :: int

definition https_prefix :: string where
  "https_prefix = ''https://''"

definition make_article :: "NewsArticle \<Rightarrow> NewsArticle res" where
  "make_article a =
     (if list_ex (\<lambda>t. strip t = []) [ne_article_id a, ne_publisher a, ne_headline a, ne_url a] then Inl ValueError
      else if take (length https_prefix) (ne_url a) \<noteq> https_prefix then Inl ValueError
      else if \<not> (is_aware (ne_published_at a) \<and> is_aware (ne_available_at a)) then Inl ValueError
      else if instant (ne_available_at a) < instant (ne_published_at a) then Inl ValueError
      else if ne_revision a < 0 then Inl ValueError
      else if ne_revision a = 0 \<and> ne_status a \<noteq> PUBLISHED then Inl ValueError
      else Inr a)"

definition is_real :: "NewsArticle \<Rightarrow> bool" where
  "is_real a = dated_fact (ne_source a)"

definition usable_for_analysis :: "NewsArticle \<Rightarrow> bool" where
  "usable_for_analysis a = (ne_status a \<noteq> RETRACTED \<and> ne_usage a \<in> {DISPLAY_AND_ANALYSIS, ANALYSIS_ONLY})"

text \<open>\<open>==\<close> of two verified texts and of two articles.\<close>

definition same_verified :: "string VerifiedValue \<Rightarrow> string VerifiedValue \<Rightarrow> bool" where
  "same_verified a b =
     (vvalue a = vvalue b \<and> vstatus a = vstatus b \<and> vsource a = vsource b
      \<and> same_optional_moment (vas_of a) (vas_of b) \<and> vnote a = vnote b)"

definition same_article :: "NewsArticle \<Rightarrow> NewsArticle \<Rightarrow> bool" where
  "same_article a b =
     (ne_article_id a = ne_article_id b \<and> ne_publisher a = ne_publisher b \<and> ne_headline a = ne_headline b
      \<and> ne_url a = ne_url b \<and> same_moment (ne_published_at a) (ne_published_at b)
      \<and> same_moment (ne_available_at a) (ne_available_at b) \<and> same_verified (ne_source a) (ne_source b)
      \<and> ne_usage a = ne_usage b \<and> ne_associations a = ne_associations b \<and> ne_status a = ne_status b
      \<and> ne_revision a = ne_revision b)"

definition article_key :: "NewsArticle \<Rightarrow> string \<times> string" where
  "article_key a = (ne_publisher a, ne_article_id a)"

text \<open>The first guards: an article not available yet, not licensed, or not real is passed over.\<close>

definition passed_over :: "moment \<Rightarrow> bool \<Rightarrow> NewsArticle \<Rightarrow> bool" where
  "passed_over decision include_non_real a =
     (instant decision < instant (ne_available_at a) \<or> ne_usage a = NO_USAGE \<or> \<not> is_real a \<and> \<not> include_non_real)"

fun latest_revisions ::
  "moment \<Rightarrow> bool \<Rightarrow> NewsArticle list \<Rightarrow> ((string \<times> string) \<times> NewsArticle) list \<Rightarrow> ((string \<times> string) \<times> NewsArticle) list res" where
  "latest_revisions decision non_real [] held = Inr held"
| "latest_revisions decision non_real (a # as) held =
     (if passed_over decision non_real a then latest_revisions decision non_real as held
      else case map_of held (article_key a) of
        None \<Rightarrow> latest_revisions decision non_real as (AList.update (article_key a) a held)
      | Some h \<Rightarrow>
          if ne_revision h < ne_revision a
          then latest_revisions decision non_real as (AList.update (article_key a) a held)
          else if ne_revision a = ne_revision h \<and> \<not> same_article a h then Inl ValueError
          else latest_revisions decision non_real as held)"

definition news_visible_at :: "NewsArticle list \<Rightarrow> moment \<Rightarrow> bool \<Rightarrow> NewsArticle list res" where
  "news_visible_at articles decision include_non_real =
     (if \<not> is_aware decision then Inl ValueError
      else rmap (\<lambda>held. sort_key (\<lambda>a. instant (ne_published_at a)) (sort_key ne_article_id (map snd held)))
        (latest_revisions decision include_non_real articles []))"

end
