(* ===== verification/Sourcing_Calendar.thy ===== *)
theory Sourcing_Calendar
  imports Sourcing_Facts
begin

text \<open>
\<open>app/domain/sourcing/calendar.py\<close> and \<open>metadata.py\<close>: the answer to whether a moment lies in a session, from verified
calendar days only, and the choice among metadata sources that state no period.  Times of day are
microseconds of the local day.
\<close>

section \<open>The session calendar (calendar.py)\<close>

datatype SessionStatus = IN_SESSION | OUT_OF_SESSION | SESSION_UNAVAILABLE

record CalendarAnswer =
  ca_symbol :: string
  ca_at :: moment
  ca_status :: SessionStatus
  ca_basis :: "string VerifiedValue option"

definition make_calendar_answer :: "CalendarAnswer \<Rightarrow> CalendarAnswer res" where
  "make_calendar_answer a =
     (if ca_status a = SESSION_UNAVAILABLE
      then (if ca_basis a \<noteq> None then Inl ValueError else Inr a)
      else case ca_basis a of
        None \<Rightarrow> Inl ValueError
      | Some b \<Rightarrow> if \<not> is_authoritative b \<or> vas_of b = None then Inl ValueError else Inr a)"

definition session_unknown :: "string \<Rightarrow> moment \<Rightarrow> CalendarAnswer res" where
  "session_unknown symbol at_moment =
     make_calendar_answer \<lparr> ca_symbol = symbol, ca_at = at_moment, ca_status = SESSION_UNAVAILABLE, ca_basis = None \<rparr>"

datatype DayKind = REGULAR | SPECIAL_SESSION | HOLIDAY | EARLY_CLOSE

text \<open>\<open>[start, end)\<close> in microseconds of the venue's local day.\<close>

record SessionInterval =
  si_start :: int
  si_end :: int

definition make_session_interval :: "SessionInterval \<Rightarrow> SessionInterval res" where
  "make_session_interval i = (if si_end i \<le> si_start i then Inl ValueError else Inr i)"

record CalendarDay =
  cd_venue :: string
  cd_session_category :: string
  cd_day :: int
  cd_timezone_name :: string
  cd_utc_offset :: int
  cd_kind :: DayKind
  cd_intervals :: "SessionInterval list"
  cd_source :: "string VerifiedValue"
  cd_effective_from :: int

definition day_length :: int where
  "day_length = 24 * 60 * minute"

definition ordered_intervals :: "CalendarDay \<Rightarrow> SessionInterval list" where
  "ordered_intervals c = sort_key si_start (cd_intervals c)"

fun overlapping :: "SessionInterval list \<Rightarrow> bool" where
  "overlapping (a # b # r) = (si_start b < si_end a \<or> overlapping (b # r))"
| "overlapping _ = False"

definition make_calendar_day :: "CalendarDay \<Rightarrow> CalendarDay res" where
  "make_calendar_day c =
     (if strip (cd_venue c) = [] \<or> strip (cd_session_category c) = [] then Inl ValueError
      else if strip (cd_timezone_name c) = [] then Inl ValueError
      else if day_length \<le> \<bar>cd_utc_offset c\<bar> then Inl ValueError
      else if cd_kind c = HOLIDAY \<and> cd_intervals c \<noteq> [] then Inl ValueError
      else if cd_kind c \<noteq> HOLIDAY \<and> cd_intervals c = [] then Inl ValueError
      else if overlapping (ordered_intervals c) then Inl ValueError
      else Inr c)"

definition day_usable :: "CalendarDay \<Rightarrow> bool" where
  "day_usable c = (dated_fact (cd_source c) \<and> cd_effective_from c \<le> cd_day c)"

text \<open>The local day and time of a moment, on the day's stated offset.\<close>

definition local_date :: "CalendarDay \<Rightarrow> moment \<Rightarrow> int" where
  "local_date c m = (instant m + cd_utc_offset c) div day_length"

definition local_time :: "CalendarDay \<Rightarrow> moment \<Rightarrow> int" where
  "local_time c m = (instant m + cd_utc_offset c) mod day_length"

definition in_session :: "CalendarDay \<Rightarrow> moment \<Rightarrow> bool" where
  "in_session c m = list_ex (\<lambda>i. si_start i \<le> local_time c m \<and> local_time c m < si_end i) (cd_intervals c)"

definition day_shape :: "CalendarDay \<Rightarrow> int \<times> DayKind \<times> SessionInterval list" where
  "day_shape c = (cd_utc_offset c, cd_kind c, ordered_intervals c)"

definition answer_from :: "CalendarDay list \<Rightarrow> string \<Rightarrow> string \<Rightarrow> string \<Rightarrow> moment \<Rightarrow> CalendarAnswer res" where
  "answer_from days symbol venue category at_moment =
     (if \<not> is_aware at_moment then Inl ValueError
      else
        let matching = filter (\<lambda>d. cd_venue d = venue \<and> cd_session_category d = category
                                   \<and> local_date d at_moment = cd_day d) days;
            usable_days = filter day_usable matching
        in case usable_days of
             [] \<Rightarrow> session_unknown symbol at_moment
           | d # rest \<Rightarrow>
               if list_ex (\<lambda>x. day_shape x \<noteq> day_shape d) rest then session_unknown symbol at_moment
               else make_calendar_answer
                 \<lparr> ca_symbol = symbol, ca_at = at_moment,
                   ca_status = (if in_session d at_moment then IN_SESSION else OUT_OF_SESSION),
                   ca_basis = Some (cd_source d) \<rparr>)"

section \<open>Metadata of several sources (metadata.py)\<close>

datatype MetadataVerdictCode =
    METADATA_USABLE
  | METADATA_MISSING
  | METADATA_WRONG_CONTRACT
  | METADATA_NOT_AUTHORITATIVE
  | METADATA_EXPIRED
  | METADATA_STALE
  | METADATA_CONFLICTING

record MetadataCandidate =
  mc_source_id :: string
  mc_contract :: FuturesContract

record MetadataConflict =
  mx_fact :: string
  mx_chosen_source :: string
  mx_chosen_value :: string
  mx_other_source :: string
  mx_other_value :: string

record MetadataVerdict =
  mv_code :: MetadataVerdictCode
  mv_contract :: "FuturesContract option"
  mv_source_id :: "string option"
  mv_conflicts :: "MetadataConflict list"

definition make_metadata_verdict :: "MetadataVerdict \<Rightarrow> MetadataVerdict res" where
  "make_metadata_verdict v =
     (if (mv_code v = METADATA_USABLE) \<noteq> (mv_contract v \<noteq> None) then Inl ValueError else Inr v)"

definition refuse_metadata :: "MetadataVerdictCode \<Rightarrow> MetadataVerdict res" where
  "refuse_metadata c =
     make_metadata_verdict \<lparr> mv_code = c, mv_contract = None, mv_source_id = None, mv_conflicts = [] \<rparr>"

text \<open>When the less recently verified of the two facts was verified.\<close>

definition verified_at :: "FuturesContract \<Rightarrow> moment option res" where
  "verified_at c =
     (case (vas_of (fc_multiplier c), vas_of (fc_tick_size c)) of
        (Some a, Some b) \<Rightarrow> rmap Some (moment_min a b)
      | _ \<Rightarrow> Inr None)"

fun first_difference :: "string \<Rightarrow> string \<Rightarrow> (string \<times> string) list \<Rightarrow> (string \<times> string) list \<Rightarrow> MetadataConflict option" where
  "first_difference i k [] other = None"
| "first_difference i k ((what, v) # fs) other =
     (case map_of other what of
        None \<Rightarrow> first_difference i k fs other
      | Some w \<Rightarrow>
          if w = v then first_difference i k fs other
          else Some \<lparr> mx_fact = what, mx_chosen_source = i, mx_chosen_value = v, mx_other_source = k, mx_other_value = w \<rparr>)"

fun first_conflict :: "MetadataCandidate \<Rightarrow> MetadataCandidate list \<Rightarrow> MetadataConflict option" where
  "first_conflict c [] = None"
| "first_conflict c (k # ks) =
     (case first_difference (mc_source_id c) (mc_source_id k) (facts_of (mc_contract c)) (facts_of (mc_contract k)) of
        Some x \<Rightarrow> Some x
      | None \<Rightarrow> first_conflict c ks)"

fun any_candidate_expired :: "(MetadataCandidate \<times> moment) list \<Rightarrow> moment \<Rightarrow> bool res" where
  "any_candidate_expired [] m = Inr False"
| "any_candidate_expired (c # cs) m =
     rbind (contract_state (mc_contract (fst c)) m) (\<lambda>s.
       if cs_state s = EXPIRED then Inr True else any_candidate_expired cs m)"

text \<open>Most recently verified first; comparing an aware with a naive time raises.\<close>

definition newest_first :: "(MetadataCandidate \<times> moment) list \<Rightarrow> (MetadataCandidate \<times> moment) list res" where
  "newest_first cs =
     (if list_ex (\<lambda>c. is_aware (snd c) \<noteq> is_aware (snd (hd cs))) cs then Inl TypeError
      else Inr (sort_key (\<lambda>c. - instant (snd c)) cs))"

definition choose_candidate :: "(MetadataCandidate \<times> moment) list \<Rightarrow> MetadataVerdict res" where
  "choose_candidate ordered =
     (case ordered of
        [] \<Rightarrow> Inl IndexError
      | c # others \<Rightarrow>
          (case first_conflict (fst c) (map fst others) of
             Some x \<Rightarrow> make_metadata_verdict
               \<lparr> mv_code = METADATA_CONFLICTING, mv_contract = None, mv_source_id = None, mv_conflicts = [x] \<rparr>
           | None \<Rightarrow> make_metadata_verdict
               \<lparr> mv_code = METADATA_USABLE, mv_contract = Some (mc_contract (fst c)),
                 mv_source_id = Some (mc_source_id (fst c)), mv_conflicts = [] \<rparr>))"

definition judge_dated :: "(MetadataCandidate \<times> moment option) list \<Rightarrow> moment \<Rightarrow> int \<Rightarrow> MetadataVerdict res" where
  "judge_dated dated at_moment max_age =
     (if list_all (\<lambda>c. snd c = None) dated then refuse_metadata METADATA_NOT_AUTHORITATIVE
      else
        let current = concat (map (\<lambda>c. case snd c of None \<Rightarrow> [] | Some t \<Rightarrow> [(fst c, t)]) dated) in
        rbind (keep (\<lambda>c. rmap (\<lambda>age. age \<le> max_age) (moment_since at_moment (snd c))) current) (\<lambda>fresh.
          if fresh = [] then refuse_metadata METADATA_STALE
          else rbind (any_candidate_expired fresh at_moment) (\<lambda>gone.
            if gone then refuse_metadata METADATA_EXPIRED
            else rbind (newest_first fresh) choose_candidate)))"

definition assess_contract_metadata :: "string \<Rightarrow> MetadataCandidate list \<Rightarrow> moment \<Rightarrow> int \<Rightarrow> MetadataVerdict res" where
  "assess_contract_metadata requested candidates at_moment max_age =
     (if candidates = [] then refuse_metadata METADATA_MISSING
      else if list_ex (\<lambda>c. \<not> same_instrument (fc_symbol (mc_contract c)) requested) candidates
      then refuse_metadata METADATA_WRONG_CONTRACT
      else
        let authoritative = filter (\<lambda>c. sourced_fact (fc_multiplier (mc_contract c))
                                        \<and> sourced_fact (fc_tick_size (mc_contract c))) candidates in
        if authoritative = [] then refuse_metadata METADATA_NOT_AUTHORITATIVE
        else rbind (traverse (\<lambda>c. rmap (Pair c) (verified_at (mc_contract c))) authoritative) (\<lambda>dated.
          judge_dated dated at_moment max_age))"

end
