(* ===== verification/Sourcing_Readers.thy ===== *)
theory Sourcing_Readers
  imports Sourcing_Capability Sourcing_Observations Sourcing_Calendar Sourcing_Journal
begin

text \<open>
\<open>app/application/sourcing\<close>: the readers that ask a source, bound what it sends and hand it to the rules
(\<open>intelligence.py\<close>, \<open>metadata_sources.py\<close>, \<open>candles.py\<close>), and what the deployment reports of its sources
(\<open>source_status.py\<close>).  What a source answers is an argument; \<open>None\<close> stands for one that raised.  The lemmas: a
claim to exchange data needs a grant, an answer is the newest figure that could have been known, no answer looks
ahead, and counts of breadth add up.
\<close>

section \<open>Asking a source (intelligence.py)\<close>

text \<open>\<open>\_fetch\<close>: a source that raised answers \<open>None\<close>, and so does one that returns more than its bound.\<close>

definition fetch :: "'a list option \<Rightarrow> int \<Rightarrow> 'a list option" where
  "fetch answered bound =
     (case answered of None \<Rightarrow> None | Some xs \<Rightarrow> if bound < int (length xs) then None else Some xs)"

text \<open>\<open>VerifiedContractFacts\<close>: the named sources with what each answers for the symbol.\<close>

definition gathered :: "'a list option list \<Rightarrow> int \<Rightarrow> 'a list" where
  "gathered answers bound = concat (map (\<lambda>a. case fetch a bound of None \<Rightarrow> [] | Some xs \<Rightarrow> xs) answers)"

definition make_fact_sources :: "(string \<times> 'a) list \<Rightarrow> (string \<times> 'a) list res" where
  "make_fact_sources sources = (if \<not> distinct (map fst sources) then Inl ValueError else Inr sources)"

definition assess_sources ::
  "(string \<times> ContractSourceRecord list option) list \<Rightarrow> ProviderLimits \<Rightarrow> string \<Rightarrow> moment option \<Rightarrow> moment \<Rightarrow> int \<Rightarrow> FactVerdict res" where
  "assess_sources sources limits symbol applies now max_age =
     assess_fact_records symbol (gathered (map snd sources) (max_fact_records limits))
       (case applies of None \<Rightarrow> now | Some m \<Rightarrow> m) now max_age None"

definition sourced_contract ::
  "(string \<times> ContractSourceRecord list option) list \<Rightarrow> ProviderLimits \<Rightarrow> string \<Rightarrow> moment \<Rightarrow> int \<Rightarrow> FuturesContract option res" where
  "sourced_contract sources limits symbol now max_age =
     rmap (\<lambda>v. if fv_code v = USABLE then map_option sr_contract (fv_record v) else None)
       (assess_sources sources limits symbol None now max_age)"

definition listed_symbols :: "(string \<times> string list option) list \<Rightarrow> ProviderLimits \<Rightarrow> string list" where
  "listed_symbols sources limits =
     sort (remdups (gathered (map snd sources) (metadata_cache_entries limits)))"

text \<open>\<open>RecordedSessionCalendar.session\_at\<close>, with what the source answers for the days around the moment.\<close>

definition session_at ::
  "(string \<rightharpoonup> string VerifiedValue) \<Rightarrow> (int \<Rightarrow> int \<Rightarrow> CalendarDay list option) \<Rightarrow> string \<Rightarrow> ProviderLimits \<Rightarrow> string \<Rightarrow> moment \<Rightarrow> CalendarAnswer res" where
  "session_at categories source venue limits symbol at_moment =
     (case categories symbol of
        None \<Rightarrow> session_unknown symbol at_moment
      | Some category \<Rightarrow>
          if \<not> dated_fact category then session_unknown symbol at_moment
          else let day = local_day at_moment in
               case fetch (source (day - 1) (day + 1)) (max_calendar_days limits) of
                 None \<Rightarrow> session_unknown symbol at_moment
               | Some days \<Rightarrow> answer_from days symbol venue (vvalue category) at_moment)"

definition open_interest_reader ::
  "OpenInterestObservation list option \<Rightarrow> ProviderLimits \<Rightarrow> int \<Rightarrow> string \<Rightarrow> OpenInterestScope \<Rightarrow> moment \<Rightarrow> OpenInterestAnswer res" where
  "open_interest_reader answered limits max_age instrument scope decision_time =
     (case fetch answered (max_open_interest_points limits) of
        None \<Rightarrow> Inr no_open_interest
      | Some xs \<Rightarrow> open_interest_at xs instrument scope decision_time max_age)"

record NewsView =
  nv_available :: bool
  nv_articles :: "NewsArticle list"

definition no_news :: NewsView where
  "no_news = \<lparr> nv_available = False, nv_articles = [] \<rparr>"

text \<open>\<open>except ValueError\<close> around \<open>news\_visible\_at\<close>.\<close>

definition visible_news :: "NewsArticle list option \<Rightarrow> ProviderLimits \<Rightarrow> moment \<Rightarrow> NewsView res" where
  "visible_news answered limits decision_time =
     (case fetch answered (max_news_articles limits) of
        None \<Rightarrow> Inr no_news
      | Some as \<Rightarrow>
          (case news_visible_at as decision_time False of
             Inr visible \<Rightarrow> Inr \<lparr> nv_available = True, nv_articles = visible \<rparr>
           | Inl e \<Rightarrow> if is_value_error e then Inr no_news else Inl e))"

text \<open>A universe source that raised is the outer \<open>None\<close>; one without the universe the inner.\<close>

definition breadth_reader ::
  "Universe option option \<Rightarrow> ConstituentMove list option \<Rightarrow> ProviderLimits \<Rightarrow> dec \<Rightarrow> moment \<Rightarrow> moment \<Rightarrow> BreadthAnswer res" where
  "breadth_reader universe moves limits min_coverage observed decision_time =
     (case universe of
        None \<Rightarrow> no_breadth None
      | Some u \<Rightarrow>
          if (case u of None \<Rightarrow> False | Some x \<Rightarrow> max_universe_constituents limits < int (card (un_constituents x)))
          then no_breadth None
          else case fetch moves (max_universe_constituents limits) of
            None \<Rightarrow> no_breadth None
          | Some ms \<Rightarrow> breadth_at u ms observed decision_time min_coverage)"

section \<open>Several metadata providers (metadata\_sources.py)\<close>

text \<open>What a provider answers: it raised, it has no contract, or a contract.\<close>

datatype ProviderAnswer = SourceRaised | NoContract | HasContract FuturesContract

definition metadata_candidates :: "(string \<times> ProviderAnswer) list \<Rightarrow> MetadataCandidate list" where
  "metadata_candidates sources =
     concat (map (\<lambda>(n, a). case a of HasContract c \<Rightarrow> [\<lparr> mc_source_id = n, mc_contract = c \<rparr>] | _ \<Rightarrow> []) sources)"

definition assess_providers :: "(string \<times> ProviderAnswer) list \<Rightarrow> string \<Rightarrow> moment \<Rightarrow> int \<Rightarrow> MetadataVerdict res" where
  "assess_providers sources symbol now max_age =
     assess_contract_metadata symbol (metadata_candidates sources) now max_age"

definition provided_contract :: "(string \<times> ProviderAnswer) list \<Rightarrow> string \<Rightarrow> moment \<Rightarrow> int \<Rightarrow> FuturesContract option res" where
  "provided_contract sources symbol now max_age =
     rmap (\<lambda>v. if mv_code v = METADATA_USABLE then mv_contract v else None) (assess_providers sources symbol now max_age)"

section \<open>Vendor candles (candles.py)\<close>

record VendorCandle =
  vn_symbol :: PyObj
  vn_timeframe :: PyObj
  vn_open_time :: PyObj
  vn_open :: PyObj
  vn_high :: PyObj
  vn_low :: PyObj
  vn_close :: PyObj
  vn_volume :: PyObj
  vn_closed :: PyObj
  vn_event_time :: PyObj
  vn_sequence :: PyObj
  vn_provider_time :: PyObj

text \<open>\<open>Decimal(value)\<close> of a text; \<open>except InvalidOperation\<close> leaves the text.\<close>

definition exact :: "PyObj \<Rightarrow> PyObj res" where
  "exact v =
     (case v of
        PyStr t \<Rightarrow>
          (case dec_parse t of
             Inr d \<Rightarrow> Inr (PyDecimal d)
           | Inl e \<Rightarrow> if e = InvalidOperation then Inr v else Inl e)
      | _ \<Rightarrow> Inr v)"

definition to_raw_event :: "VendorCandle \<Rightarrow> RawCandleEvent res" where
  "to_raw_event c =
     rbind (exact (vn_open c)) (\<lambda>opening.
     rbind (exact (vn_high c)) (\<lambda>high.
     rbind (exact (vn_low c)) (\<lambda>low.
     rbind (exact (vn_close c)) (\<lambda>closing.
     rbind (exact (vn_volume c)) (\<lambda>volume.
       Inr \<lparr> raw_symbol = vn_symbol c, raw_timeframe = vn_timeframe c, raw_open_time = vn_open_time c,
             raw_open = opening, raw_high = high, raw_low = low, raw_close = closing, raw_volume = volume,
             raw_closed = vn_closed c, raw_event_time = vn_event_time c, raw_sequence = vn_sequence c,
             raw_published_at = vn_provider_time c \<rparr>)))))"

section \<open>What the deployment says of its sources (source\_status.py)\<close>

definition MAX_RECORDS :: nat where
  "MAX_RECORDS = 64"

record SourceComposition =
  sc_declaration :: "ProviderDeclaration option"
  sc_grant :: "LicenceGrant option"
  sc_connected :: bool

record CategoryState =
  cs_category :: DataCategory
  cs_status :: CapabilityStatus
  cs_configured :: bool
  cs_licensed :: bool
  cs_is_connected :: bool
  cs_available :: bool
  cs_fresh :: bool
  cs_verified :: bool
  cs_adapter_in_build :: bool

definition configured_for :: "SourceComposition \<Rightarrow> DataCategory \<Rightarrow> bool" where
  "configured_for c k = (case sc_declaration c of None \<Rightarrow> False | Some p \<Rightarrow> k \<in> pd_categories p)"

definition licensed_for :: "SourceComposition \<Rightarrow> DataCategory \<Rightarrow> moment \<Rightarrow> bool res" where
  "licensed_for c k now =
     (case sc_declaration c of
        None \<Rightarrow> Inr False
      | Some p \<Rightarrow>
          if k \<notin> pd_categories p then Inr False
          else rmap (\<lambda>r. r = None) (grant_refusal (sc_grant c) (pd_provider_id p) k (pd_delivery p) now))"

definition category_state :: "SourceComposition \<Rightarrow> VerificationCounts \<Rightarrow> moment \<Rightarrow> DataCategory \<times> CapabilityStatus \<Rightarrow> CategoryState res" where
  "category_state c n now row =
     rmap (\<lambda>licensed.
       \<lparr> cs_category = fst row, cs_status = snd row, cs_configured = configured_for c (fst row), cs_licensed = licensed,
         cs_is_connected = (configured_for c (fst row) \<and> sc_connected c), cs_available = (snd row = CAP_AVAILABLE),
         cs_fresh = (snd row = CAP_AVAILABLE), cs_verified = (fst row = CONTRACT_METADATA \<and> 0 < vc_records n),
         cs_adapter_in_build = False \<rparr>)
       (licensed_for c (fst row) now)"

definition source_capabilities :: "SourceComposition \<Rightarrow> VerificationCounts \<Rightarrow> moment \<Rightarrow> int \<Rightarrow> CategoryState list res" where
  "source_capabilities c n now max_age =
     rbind (capability_matrix (sc_declaration c) (sc_grant c) (sc_connected c) (\<lambda>_. None) max_age now)
       (traverse (category_state c n now))"

datatype FieldState = FIELD_VERIFIED | FIELD_MISSING | FIELD_NOT_REVIEWABLE | FIELD_UNAVAILABLE

record FieldStatus =
  fl_name :: string
  fl_state :: FieldState
  fl_value :: "string option"
  fl_source :: "string option"
  fl_verified_at :: "moment option"

definition field_without :: "string \<Rightarrow> FieldState \<Rightarrow> FieldStatus" where
  "field_without n s = \<lparr> fl_name = n, fl_state = s, fl_value = None, fl_source = None, fl_verified_at = None \<rparr>"

definition verified_field :: "string \<Rightarrow> string \<Rightarrow> 'a VerifiedValue \<Rightarrow> FieldStatus" where
  "verified_field n v f =
     \<lparr> fl_name = n, fl_state = FIELD_VERIFIED, fl_value = Some v, fl_source = Some (vsource f), fl_verified_at = vas_of f \<rparr>"

definition not_reviewable :: "FieldStatus list" where
  "not_reviewable =
     [field_without ''tick_value'' FIELD_NOT_REVIEWABLE, field_without ''initial_margin'' FIELD_NOT_REVIEWABLE,
      field_without ''maintenance_margin'' FIELD_NOT_REVIEWABLE]"

definition status_fields :: "FactVerdict \<Rightarrow> FieldStatus list" where
  "status_fields v =
     (case (usable v, fv_record v) of
        (True, Some r) \<Rightarrow>
          [verified_field ''multiplier'' (plain_fact (vvalue (fc_multiplier (sr_contract r)))) (fc_multiplier (sr_contract r)),
           verified_field ''tick_size'' (plain_fact (vvalue (fc_tick_size (sr_contract r)))) (fc_tick_size (sr_contract r)),
           (case fc_expiry (sr_contract r) of
              None \<Rightarrow> field_without ''expiry_date'' FIELD_MISSING
            | Some e \<Rightarrow> verified_field ''expiry_date'' (date_text (vvalue (expiry_date e))) (expiry_date e))]
          @ not_reviewable
      | _ \<Rightarrow> [field_without ''multiplier'' FIELD_UNAVAILABLE, field_without ''tick_size'' FIELD_UNAVAILABLE,
              field_without ''expiry_date'' FIELD_UNAVAILABLE] @ not_reviewable)"

record MetadataChecks =
  ck_source_claims_value :: bool
  ck_operator_examined_evidence :: bool
  ck_source_authority_assessed :: bool
  ck_applicable_to_contract :: bool
  ck_applicable_at_market_time :: bool
  ck_known_by_requested_time :: bool
  ck_current :: bool
  ck_financial_use_enabled :: bool

definition status_checks :: "ContractSourceRecord list \<Rightarrow> FactVerdict \<Rightarrow> MetadataChecks" where
  "status_checks rs v =
     \<lparr> ck_source_claims_value = (rs \<noteq> []), ck_operator_examined_evidence = (rs \<noteq> []),
       ck_source_authority_assessed = list_ex record_is_authoritative rs,
       ck_applicable_to_contract = (rs \<noteq> [] \<and> fv_code v \<noteq> WRONG_CONTRACT),
       ck_applicable_at_market_time = (fv_code v \<in> {USABLE, FACT_STALE, FACT_EXPIRED, CONFLICTING}),
       ck_known_by_requested_time = (rs \<noteq> [] \<and> fv_code v \<noteq> NOT_YET_KNOWN),
       ck_current = (fv_code v = USABLE), ck_financial_use_enabled = False \<rparr>"

record MetadataStatus =
  ms_symbol :: string
  ms_applies_at :: moment
  ms_known_by :: "moment option"
  ms_verdict :: FactVerdict
  ms_fields :: "FieldStatus list"
  ms_checks :: MetadataChecks
  ms_records :: "ContractSourceRecord list"

definition knowledge_moment :: "moment option \<Rightarrow> bool \<Rightarrow> moment \<Rightarrow> moment option" where
  "knowledge_moment known_by retrospective now =
     (if retrospective then None else Some (case known_by of None \<Rightarrow> now | Some k \<Rightarrow> k))"

definition metadata_status ::
  "Journal \<Rightarrow> string \<Rightarrow> moment option \<Rightarrow> moment option \<Rightarrow> bool \<Rightarrow> moment \<Rightarrow> int \<Rightarrow> MetadataStatus res" where
  "metadata_status j symbol applies_at_moment known_by retrospective now max_age =
     (let applies = (case applies_at_moment of None \<Rightarrow> now | Some m \<Rightarrow> m);
          knowledge = knowledge_moment known_by retrospective now
      in rbind (records_for j symbol (Suc MAX_RECORDS)) (\<lambda>all_records.
         rbind (if MAX_RECORDS < length all_records then refuse_facts CONFLICTING [] []
                else assess_fact_records symbol all_records applies now max_age knowledge) (\<lambda>v.
           Inr \<lparr> ms_symbol = symbol, ms_applies_at = applies, ms_known_by = knowledge, ms_verdict = v,
                 ms_fields = status_fields v,
                 ms_checks = status_checks (take MAX_RECORDS all_records) v,
                 ms_records = take MAX_RECORDS all_records \<rparr>)))"

section \<open>Provenance\<close>

text \<open>A label that claims a licensed exchange source is carried only on a grant that covers it.\<close>

lemma provenance_needs_grant:
  assumes "authorize_provenance declared provider grant now = Inr p"
  shows "p = declared \<and> (requires_grant declared \<longrightarrow>
    (\<exists>g. grant = Some g \<and> lg_provider_id g = provider \<and> MARKET_DATA \<in> lg_categories g
       \<and> delivery_provenance (lg_delivery g) = declared \<and> dated_fact (lg_evidence g)
       \<and> (\<forall>u. lg_valid_until g = Some u \<longrightarrow> instant now < instant u)))"
  using assms
  by (auto simp: authorize_provenance_def refuse_provenance_def lapsed_def res_simps split: if_splits option.splits)

text \<open>A category is available only past every stage before it.\<close>

lemma available_category:
  assumes "category_status k declaration grant live delivered max_age now = Inr CAP_AVAILABLE"
  obtains p g t where "declaration = Some p" "k \<in> pd_categories p" "grant = Some g" "lg_provider_id g = pd_provider_id p"
    "k \<in> lg_categories g" "lg_delivery g = pd_delivery p" "pd_delivery p \<noteq> SIMULATED" "dated_fact (lg_evidence g)"
    "live" "delivered = Some t" "instant now - instant t \<le> max_age"
  using assms
  by (auto simp: category_status_def grant_refusal_def lapsed_def res_simps split: if_splits option.splits)

section \<open>Open interest\<close>

lemma latest_figures_head:
  assumes "latest_figures known = x # rest"
  shows "x \<in> set known" "y \<in> set known \<Longrightarrow> instant (oi_measured_at y) \<le> instant (oi_measured_at x)"
    "y \<in> set known \<Longrightarrow> instant (oi_measured_at y) = instant (oi_measured_at x) \<Longrightarrow> oi_revision y \<le> oi_revision x"
    "y \<in> set known \<Longrightarrow> instant (oi_measured_at y) = instant (oi_measured_at x) \<Longrightarrow> oi_revision y = oi_revision x
      \<Longrightarrow> y = x \<or> y \<in> set rest"
proof -
  let ?l = "Max (set (map (\<lambda>x. instant (oi_measured_at x)) known))"
  let ?f = "filter (\<lambda>x. instant (oi_measured_at x) = ?l) known"
  let ?n = "Max (set (map oi_revision ?f))"
  have f: "filter (\<lambda>x. oi_revision x = ?n) ?f = x # rest"
    using assms by (simp add: latest_figures_def Let_def)
  then have mem: "z \<in> set (x # rest) \<longleftrightarrow> z \<in> set known \<and> instant (oi_measured_at z) = ?l \<and> oi_revision z = ?n" for z
    by (simp add: f[symmetric] conj_commute conj_left_commute del: set_map)
  have "x \<in> set (x # rest)" by simp
  then have x: "x \<in> set known" "instant (oi_measured_at x) = ?l" "oi_revision x = ?n" using mem by blast+
  show "x \<in> set known" by (rule x)
  show "instant (oi_measured_at y) \<le> instant (oi_measured_at x)" if "y \<in> set known" for y
    unfolding x(2) by (rule Max_ge) (use that in auto)
  show "oi_revision y \<le> oi_revision x" if "y \<in> set known" "instant (oi_measured_at y) = instant (oi_measured_at x)" for y
    unfolding x(3) by (rule Max_ge) (use that x(2) in auto)
  show "y = x \<or> y \<in> set rest"
    if "y \<in> set known" "instant (oi_measured_at y) = instant (oi_measured_at x)" "oi_revision y = oi_revision x" for y
    using mem[of y] that x by auto
qed

text \<open>An answer is the newest figure a decision at that time could have used, and the only one.\<close>

lemma open_interest_is_known:
  assumes "open_interest_at xs instrument scope t max_age = Inr a" and "oa_observation a = Some x"
  shows "x \<in> set (observations_known xs instrument scope t)"
    "y \<in> set (observations_known xs instrument scope t) \<Longrightarrow> instant (oi_measured_at y) \<le> instant (oi_measured_at x)"
    "y \<in> set (observations_known xs instrument scope t) \<Longrightarrow> instant (oi_measured_at y) = instant (oi_measured_at x)
      \<Longrightarrow> oi_revision y = oi_revision x \<Longrightarrow> y \<noteq> x \<Longrightarrow> dec_eq (oi_contracts_open y) (oi_contracts_open x)"
    "oa_status a = (if instant t - instant (oi_measured_at x) \<le> max_age then OI_AVAILABLE else OI_STALE)"
proof -
  obtain rest where l: "latest_figures (observations_known xs instrument scope t) = x # rest"
    and same: "\<forall>y\<in>set rest. dec_eq (oi_contracts_open y) (oi_contracts_open x)"
    and s: "oa_status a = (if instant t - instant (oi_measured_at x) \<le> max_age then OI_AVAILABLE else OI_STALE)"
    using assms
    by (auto simp: open_interest_at_def no_open_interest_def list_ex_iff not_less split: if_splits list.splits)
  note h = latest_figures_head[OF l]
  show "x \<in> set (observations_known xs instrument scope t)" by (rule h(1))
  show "instant (oi_measured_at y) \<le> instant (oi_measured_at x)" if "y \<in> set (observations_known xs instrument scope t)" for y
    using h(2) that .
  show "dec_eq (oi_contracts_open y) (oi_contracts_open x)"
    if "y \<in> set (observations_known xs instrument scope t)" "instant (oi_measured_at y) = instant (oi_measured_at x)"
      "oi_revision y = oi_revision x" "y \<noteq> x" for y
    using h(4)[OF that(1,2,3)] that(4) same by blast
  show "oa_status a = (if instant t - instant (oi_measured_at x) \<le> max_age then OI_AVAILABLE else OI_STALE)" by (rule s)
qed

text \<open>A figure that became available after the decision changes nothing.\<close>

lemma open_interest_never_looks_ahead:
  "open_interest_at xs instrument scope t max_age
    = open_interest_at (filter (\<lambda>x. instant (available_at x) \<le> instant t) xs) instrument scope t max_age"
proof -
  have "observations_known (filter (\<lambda>x. instant (available_at x) \<le> instant t) xs) instrument scope t
      = observations_known xs instrument scope t"
    by (simp add: observations_known_def) (rule filter_cong, auto)
  then show ?thesis by (simp add: open_interest_at_def)
qed

section \<open>Breadth\<close>

lemma counts_add_up:
  "count_direction ADVANCING s + count_direction DECLINING s + count_direction UNCHANGED s = length s"
proof (induction s)
  case (Cons p s)
  then show ?case by (cases "mv_direction (snd p)") (simp_all add: count_direction_def)
qed (simp add: count_direction_def)

lemma collect_moves_members:
  assumes "collect_moves members observed decision ms seen = Inr (Some r)"
    and "set (map fst seen) \<subseteq> members" and "distinct (map fst seen)"
  shows "set (map fst r) \<subseteq> members \<and> distinct (map fst r)"
  using assms
proof (induction ms arbitrary: seen)
  case (Cons m ms)
  have "\<exists>s'. collect_moves members observed decision ms s' = Inr (Some r)
      \<and> (s' = seen \<or> s' = AList.update (mv_symbol m) m seen) \<and> mv_symbol m \<in> members"
    using Cons.prems(1) by (auto simp: res_simps split: if_splits option.splits)
  then obtain s' where s': "collect_moves members observed decision ms s' = Inr (Some r)"
    "s' = seen \<or> s' = AList.update (mv_symbol m) m seen" "mv_symbol m \<in> members" by blast
  have "set (map fst s') \<subseteq> insert (mv_symbol m) (set (map fst seen)) \<and> distinct (map fst s')"
    using s'(2)
  proof
    assume "s' = AList.update (mv_symbol m) m seen"
    then show ?thesis
      unfolding update_keys using Cons.prems(3) distinct_update[of seen "mv_symbol m" m] dom_update[of "mv_symbol m" m seen]
      by simp
  qed (use Cons.prems(3) in auto)
  then have "set (map fst s') \<subseteq> members" "distinct (map fst s')"
    using s'(3) Cons.prems(2) by blast+
  then show ?case using Cons.IH[OF s'(1)] by blast
qed simp


text \<open>Every count of an answer is over the constituents observed, and these are of the universe.\<close>

lemma breadth_counts:
  assumes "breadth_at (Some u) moves observed decision min_coverage = Inr b" and "finite (un_constituents u)"
  shows "ba_advancing b + ba_declining b + ba_unchanged b = ba_observed b"
    "ba_status b \<noteq> BREADTH_UNAVAILABLE \<Longrightarrow> ba_observed b + card (ba_missing b) = card (un_constituents u)"
    "ba_status b = BREADTH_AVAILABLE \<Longrightarrow> ba_observed b = card (un_constituents u)"
proof -
  have "(ba_advancing b + ba_declining b + ba_unchanged b = ba_observed b)
    \<and> (ba_status b \<noteq> BREADTH_UNAVAILABLE \<longrightarrow> ba_observed b + card (ba_missing b) = card (un_constituents u)
         \<and> (ba_status b = BREADTH_AVAILABLE \<longrightarrow> ba_missing b = {}))"
  proof (cases "\<exists>w. no_breadth w = Inr b")
    case True
    then show ?thesis by (auto simp: no_breadth_def make_breadth_def)
  next
    case False
    then obtain seen where seen: "collect_moves (un_constituents u) observed decision moves [] = Inr (Some seen)"
      and b: "breadth_answer u seen = Inr b"
      using assms(1)
      by (auto simp: breadth_at_def res_simps judge_moves_def Let_def split: if_splits option.splits)
    have m: "set (map fst seen) \<subseteq> un_constituents u" "distinct (map fst seen)"
      using collect_moves_members[OF seen] by simp_all
    have "card (set (map fst seen)) = length seen"
      using distinct_card[OF m(2)] by simp
    moreover have "card (un_constituents u - set (map fst seen)) = card (un_constituents u) - card (set (map fst seen))"
      by (rule card_Diff_subset) (use m(1) in simp_all)
    moreover have "card (set (map fst seen)) \<le> card (un_constituents u)"
      by (rule card_mono) (use m(1) assms(2) in simp_all)
    ultimately show ?thesis
      using b counts_add_up[of seen] by (auto simp: breadth_answer_def Let_def make_breadth_def split: if_splits)
  qed
  then show "ba_advancing b + ba_declining b + ba_unchanged b = ba_observed b"
    "ba_status b \<noteq> BREADTH_UNAVAILABLE \<Longrightarrow> ba_observed b + card (ba_missing b) = card (un_constituents u)"
    "ba_status b = BREADTH_AVAILABLE \<Longrightarrow> ba_observed b = card (un_constituents u)"
    by auto
qed

section \<open>News\<close>

lemma latest_revisions_ahead:
  "latest_revisions t b xs held = latest_revisions t b (filter (\<lambda>a. \<not> passed_over t b a) xs) held"
  by (induction t b xs held rule: latest_revisions.induct) (auto split: option.splits)

text \<open>An article, or a revision, that could not have been read yet changes nothing.\<close>

lemma news_never_looks_ahead:
  "news_visible_at (filter (\<lambda>a. instant (ne_available_at a) \<le> instant t) xs) t b = news_visible_at xs t b"
proof -
  have "filter (\<lambda>a. \<not> passed_over t b a) (filter (\<lambda>a. instant (ne_available_at a) \<le> instant t) xs)
      = filter (\<lambda>a. \<not> passed_over t b a) xs"
    by (simp add: passed_over_def) (rule filter_cong, auto)
  then show ?thesis
    using latest_revisions_ahead[of t b xs] latest_revisions_ahead[of t b "filter (\<lambda>a. instant (ne_available_at a) \<le> instant t) xs"]
    by (simp add: news_visible_at_def)
qed

text \<open>
  A retraction that arrives without usage rights is passed over, and the revision it retracts stays
  visible as published.
\<close>

definition sample_article :: "UsageRights \<Rightarrow> ArticleStatus \<Rightarrow> int \<Rightarrow> NewsArticle" where
  "sample_article rights status n =
     \<lparr> ne_article_id = ''1'', ne_publisher = ''p'', ne_headline = ''h'', ne_url = ''https://p'',
       ne_published_at = Aware 0 0, ne_available_at = Aware n 0,
       ne_source = \<lparr> vvalue = ''p'', vstatus = VERIFIED_CURRENT_FACT, vsource = ''licence'', vas_of = Some (Aware 0 0), vnote = None \<rparr>,
       ne_usage = rights, ne_associations = [], ne_status = status, ne_revision = n \<rparr>"

lemma unlicensed_retraction_is_passed_over:
  "news_visible_at [sample_article DISPLAY_AND_ANALYSIS PUBLISHED 0, sample_article NO_USAGE RETRACTED 1] (Aware 5 0) False
    = Inr [sample_article DISPLAY_AND_ANALYSIS PUBLISHED 0]"
  by code_simp

end
