(* ===== verification/Sourcing_Props.thy ===== *)
theory Sourcing_Props
  imports Sourcing_Readers
begin

text \<open>
The two properties of the sourcing of facts, with concrete runs.
\<close>

text \<open>
  C6: Which record governs a contract's facts.  When the assessment of source records answers with a record,
  that record describes the requested contract, is an authoritative statement known by the moment asked for,
  is not corrected by another such record, governs the moment asked about, was verified recently enough and
  does not call the contract expired.  Against every other record that stands and states a different value for
  one of its facts it has the later period, or is the exchange's own against a provider's that claims no newer
  one - and the disagreement is in the verdict.  When something was verified never decides between two records.
\<close>

theorem governing_record:
  assumes "assess_fact_records requested rs m now max_age known_by = Inr v" and "fv_record v = Some r"
  shows "stands rs m now max_age known_by r \<and> same_instrument (fc_symbol (sr_contract r)) requested
    \<and> (\<exists>s. contract_state (sr_contract r) m = Inr s \<and> cs_state s \<noteq> EXPIRED)
    \<and> (\<forall>q f x y. stands rs m now max_age known_by q \<and> q \<noteq> r \<and> (f, x) \<in> set (facts_of (sr_contract r))
          \<and> map_of (facts_of (sr_contract q)) f = Some y \<and> y \<noteq> x
        \<longrightarrow> outranks r q \<and> (\<exists>how. conflict_of f r x q y how \<in> set (fv_conflicts v)))"
proof -
  obtain ks j where ks: "ks = filter (knowable known_by now) rs" and j: "instant j = judged_instant known_by now"
    and v: "judge_known ks m j max_age = Inr v" and same: "\<forall>q\<in>set rs. same_instrument (fc_symbol (sr_contract q)) requested"
    using assess_records_Inr[OF assms] .
  obtain fresh os where fresh: "\<And>q. q \<in> set fresh \<longleftrightarrow> q \<in> set ks \<and> record_is_authoritative q
        \<and> (\<forall>p\<in>set ks. record_is_authoritative p \<longrightarrow> sr_corrects p \<noteq> Some (sr_record_id q))
        \<and> in_force q m \<and> instant j - instant (sr_verified_at q) \<le> max_age"
    and first: "by_precedence fresh = r # os" and cmp: "compare_records r os = Inr (fv_conflicts v)"
    and alive: "any_expired fresh m = Inr False"
    using judge_known_Inr[OF v assms(2)] by blast
  have stands: "stands rs m now max_age known_by q \<longleftrightarrow> q \<in> set fresh" for q
    unfolding fresh by (auto simp: stands_def ks j)
  have mem: "set fresh = insert r (set os)"
    using first set_by_precedence[of fresh] by simp
  have "outranks r q \<and> (\<exists>how. conflict_of f r x q y how \<in> set (fv_conflicts v))"
    if "q \<in> set fresh" "q \<noteq> r" and fx: "(f, x) \<in> set (facts_of (sr_contract r))"
      and fy: "map_of (facts_of (sr_contract q)) f = Some y" "y \<noteq> x" for q f x y
  proof -
    have q: "q \<in> set os" using that(1,2) mem by simp
    obtain ys where ys: "compare_facts r q (facts_of (sr_contract r)) = Inr ys" "set ys \<subseteq> set (fv_conflicts v)"
      using compare_records_Inr[OF cmp q] by blast
    note res = compare_facts_Inr[OF ys(1) fx fy]
    have "outranks r q"
      by (rule resolution_outranks[OF _ _ _ by_precedence_head[OF first q]])
        (use res mem fresh that(1) in \<open>auto simp: record_is_authoritative_def\<close>)
    then show ?thesis using res ys(2) by blast
  qed
  then show ?thesis
    unfolding stands using mem any_expired_False[OF alive, of r] same stands[of r] by (auto simp: stands_def)
qed

definition verified_fact :: "'a \<Rightarrow> 'a VerifiedValue" where
  "verified_fact x = \<lparr> vvalue = x, vstatus = VERIFIED_CURRENT_FACT, vsource = ''doc'', vas_of = Some (Aware 0 0), vnote = None \<rparr>"

definition sample_contract :: "dec \<Rightarrow> FuturesContract" where
  "sample_contract m =
     \<lparr> fc_symbol = ''F_XU030'', fc_underlying_symbol = ''XU030'', fc_contract_name = ''index'',
       fc_multiplier = verified_fact m, fc_tick_size = verified_fact (DFin False 25 (-2)), fc_tick_value = None,
       fc_initial_margin = None, fc_maintenance_margin = None, fc_expiry = None, fc_settlement = None,
       fc_trading_session = None, fc_valuation = LINEAR, fc_classification = None \<rparr>"

definition sample_record :: "string \<Rightarrow> SourceAuthority \<Rightarrow> dec \<Rightarrow> int \<Rightarrow> ContractSourceRecord" where
  "sample_record i a m t =
     \<lparr> sr_record_id = i, sr_contract = sample_contract m, sr_authority = a, sr_reference = ''notice'',
       sr_effective_from = Aware t 0, sr_verified_at = Aware 100 0, sr_effective_until = None, sr_corrects = None,
       sr_reviewed_by = None, sr_known_at = Some (Aware 50 0) \<rparr>"

theorem governing_record_witness:
  "\<exists>v. assess_fact_records ''F_XU030''
          [sample_record ''p'' LICENSED_PROVIDER (DFin False 100 0) 10, sample_record ''x'' EXCHANGE_OFFICIAL (DFin False 10 0) 20]
          (Aware 100 0) (Aware 100 0) 50 (Some (Aware 60 0)) = Inr v
    \<and> fv_record v = Some (sample_record ''x'' EXCHANGE_OFFICIAL (DFin False 10 0) 20)
    \<and> outranks (sample_record ''x'' EXCHANGE_OFFICIAL (DFin False 10 0) 20)
        (sample_record ''p'' LICENSED_PROVIDER (DFin False 100 0) 10)
    \<and> (\<exists>how. conflict_of ''multiplier'' (sample_record ''x'' EXCHANGE_OFFICIAL (DFin False 10 0) 20) ''10''
              (sample_record ''p'' LICENSED_PROVIDER (DFin False 100 0) 10) ''100'' how \<in> set (fv_conflicts v))"
    (is "\<exists>v. assess_fact_records _ ?rs ?m ?now _ ?k = _ \<and> _ v")
proof -
  let ?p = "sample_record ''p'' LICENSED_PROVIDER (DFin False 100 0) 10"
  let ?x = "sample_record ''x'' EXCHANGE_OFFICIAL (DFin False 10 0) 20"
  have v: "assess_fact_records ''F_XU030'' ?rs ?m ?now 50 ?k
      = Inr \<lparr> fv_code = USABLE, fv_record = Some ?x,
              fv_conflicts = [conflict_of ''multiplier'' ?x ''10'' ?p ''100'' ExchangeOutranks], fv_superseded = [] \<rparr>"
    by code_simp
  have f: "(''multiplier'', ''10'') \<in> set (facts_of (sr_contract ?x))"
    "map_of (facts_of (sr_contract ?p)) ''multiplier'' = Some ''100''" "?p \<noteq> ?x" by code_simp+
  have "stands ?rs ?m ?now 50 ?k ?p"
    by (simp add: stands_def in_force_def record_is_authoritative_def sourced_fact_def sample_record_def
        sample_contract_def verified_fact_def is_authoritative_def status_is_authoritative_def strip_def is_space_def)
  then show ?thesis
    using governing_record[OF v, of ?x] f v by fastforce
qed

lemma cited_fact_Inr:
  assumes "cited_fact j i = Inr a"
  obtains s d where "find_submission j i = Some s" "find_decision j i = Some d"
    "a = approved_fact (js_submission s) (jd_decision d) (the (fs_value (js_submission s)))"
    "attested (js_submission s) (jd_decision d)" "verifiable (js_submission s) (jd_decision d)"
    "rd_outcome (jd_decision d) = OUTCOME_APPROVED"
proof -
  obtain s d v where sd: "find_submission j i = Some s" "find_decision j i = Some d"
    and v: "judge (js_submission s) (jd_decision d) = Inr v" "rv_approved v = Some a"
    using assms by (auto simp: cited_fact_def res_simps journal_conflict_def split: option.splits)
  show ?thesis by (rule that[OF sd]) (rule judge_approved[OF v])+
qed

text \<open>The review a fact of a record rests on: claim and decision in the journal, about this document.\<close>

definition rests_on :: "Journal \<Rightarrow> ContractSourceRecord \<Rightarrow> ContractFact \<Rightarrow> dec \<Rightarrow> bool" where
  "rests_on j r k x \<longleftrightarrow>
     (\<exists>s\<in>js_submission ` set (jn_submissions j). \<exists>d\<in>jd_decision ` set (jn_decisions j).
        fs_fact s = k \<and> fs_value s = Some (DecimalValue x) \<and> fs_symbol s = fc_symbol (sr_contract r)
        \<and> fs_reference s = sr_reference r \<and> fs_authority s = sr_authority r \<and> fs_origin s = MANUAL_ENTRY
        \<and> rd_submission_id d = fs_submission_id s \<and> rd_outcome d = OUTCOME_APPROVED \<and> rd_document_checked d
        \<and> strip (rd_reviewer d) \<noteq> [] \<and> instant (fs_submitted_at s) \<le> instant (rd_decided_at d))"

lemma rests_on_cited:
  assumes "find_submission j i = Some s" "find_decision j i = Some d"
    "attested (js_submission s) (jd_decision d)" "verifiable (js_submission s) (jd_decision d)"
    "rd_outcome (jd_decision d) = OUTCOME_APPROVED" "fs_fact (js_submission s) = k"
    "the (fs_value (js_submission s)) = DecimalValue x" "fs_symbol (js_submission s) = fc_symbol (sr_contract r)"
    "fs_reference (js_submission s) = sr_reference r" "fs_authority (js_submission s) = sr_authority r"
  shows "rests_on j r k x"
proof -
  have "s \<in> set (jn_submissions j)" "d \<in> set (jn_decisions j)"
    using assms(1,2) by (auto simp: find_submission_def find_decision_def find_Some_iff)
  then have "js_submission s \<in> js_submission ` set (jn_submissions j)" "jd_decision d \<in> jd_decision ` set (jn_decisions j)"
    by blast+
  moreover have "fs_value (js_submission s) = Some (DecimalValue x)"
    using assms(4,7) by (auto simp: verifiable_def)
  ultimately show ?thesis
    unfolding rests_on_def
    by (intro bexI[of _ "js_submission s"] bexI[of _ "jd_decision d"])
      (use assms(3-10) in \<open>simp_all add: attested_def verifiable_def\<close>)
qed

lemma read_record_rests:
  assumes "read_record j w = Inr r"
  shows "record_is_authoritative r \<and> sr_known_at r = Some (fr_recorded_at w)
    \<and> rests_on j r FACT_MULTIPLIER (vvalue (fc_multiplier (sr_contract r)))
    \<and> rests_on j r FACT_TICK_SIZE (vvalue (fc_tick_size (sr_contract r)))"
proof -
  obtain m t x r0 where m: "cited_fact j (ev_multiplier (fr_evidence w)) = Inr m"
    and t: "cited_fact j (ev_tick_size (fr_evidence w)) = Inr t"
    and r0: "record_from_approved (fr_record_id w) (fr_underlying_symbol w) (fr_contract_name w) m t x = Inr r0"
    and r: "r = r0\<lparr>sr_known_at := Some (fr_recorded_at w)\<rparr>"
    using assms by (auto simp: read_record_def res_simps)
  from m obtain s d where sd: "find_submission j (ev_multiplier (fr_evidence w)) = Some s"
    "find_decision j (ev_multiplier (fr_evidence w)) = Some d"
    "m = approved_fact (js_submission s) (jd_decision d) (the (fs_value (js_submission s)))"
    "attested (js_submission s) (jd_decision d)" "verifiable (js_submission s) (jd_decision d)"
    "rd_outcome (jd_decision d) = OUTCOME_APPROVED" by (rule cited_fact_Inr)
  from t obtain s' d' where sd': "find_submission j (ev_tick_size (fr_evidence w)) = Some s'"
    "find_decision j (ev_tick_size (fr_evidence w)) = Some d'"
    "t = approved_fact (js_submission s') (jd_decision d') (the (fs_value (js_submission s')))"
    "attested (js_submission s') (jd_decision d')" "verifiable (js_submission s') (jd_decision d')"
    "rd_outcome (jd_decision d') = OUTCOME_APPROVED" by (rule cited_fact_Inr)
  note a = record_from_approved_authoritative[OF r0[unfolded sd(3) sd'(3)] sd(5) sd'(5)]
  have "record_is_authoritative r" "sr_known_at r = Some (fr_recorded_at w)"
    using a(1) by (simp_all add: r record_is_authoritative_def)
  moreover have "rests_on j r FACT_MULTIPLIER (vvalue (fc_multiplier (sr_contract r)))"
    by (rule rests_on_cited[OF sd(1,2,4,5,6)]) (simp_all add: r a(2,4,5,6,7))
  moreover have "rests_on j r FACT_TICK_SIZE (vvalue (fc_tick_size (sr_contract r)))"
    by (rule rests_on_cited[OF sd'(1,2,4,5,6)])
      (use a(9) in \<open>simp_all add: r a(3,4,5,6,8) same_source_def\<close>)
  ultimately show ?thesis by blast
qed

lemma traverse_ok:
  assumes "\<And>x. x \<in> set xs \<Longrightarrow> \<exists>y. f x = Inr y \<and> Q y"
  shows "\<exists>ys. traverse f xs = Inr ys \<and> list_all Q ys"
  using assms by (induction xs) fastforce+

text \<open>
  C11: A published contract fact rests on a review, for ever.  After any sequence of submissions, decisions and
  publications - whatever was refused among them - reading the journal never fails, and every record it gives
  is authoritative: its multiplier and its tick size were each typed from a named document, in the same words
  for contract, document and authority as the record says, and approved by a named reviewer who attested to
  checking the document, no earlier than the claim.  A claim has one decision at most, and no later call changes
  or removes an entry.
\<close>

theorem published_facts_rest_on_review:
  shows "(\<exists>rs. records_for (journal_after is) symbol limit = Inr rs
      \<and> (\<forall>r\<in>set rs. same_instrument (fc_symbol (sr_contract r)) symbol \<and> record_is_authoritative r
            \<and> sr_known_at r \<noteq> None
            \<and> rests_on (journal_after is) r FACT_MULTIPLIER (vvalue (fc_multiplier (sr_contract r)))
            \<and> rests_on (journal_after is) r FACT_TICK_SIZE (vvalue (fc_tick_size (sr_contract r)))))
    \<and> distinct (map (\<lambda>d. rd_submission_id (jd_decision d)) (jn_decisions (journal_after is)))
    \<and> journal_extends (journal_after (is @ more_calls)) (journal_after is)"
proof -
  let ?j = "journal_after is"
  have ok: "journal_ok ?j" by (rule journal_after_ok)
  have "\<exists>r. read_record ?j w = Inr r \<and> same_instrument (fc_symbol (sr_contract r)) symbol \<and> record_is_authoritative r
      \<and> sr_known_at r \<noteq> None \<and> rests_on ?j r FACT_MULTIPLIER (vvalue (fc_multiplier (sr_contract r)))
      \<and> rests_on ?j r FACT_TICK_SIZE (vvalue (fc_tick_size (sr_contract r)))"
    if w: "w \<in> set (take limit (filter (\<lambda>w. fr_symbol w = canonical_symbol symbol) (jn_records ?j)))" for w
  proof -
    have m: "w \<in> set (jn_records ?j)" "fr_symbol w = canonical_symbol symbol"
      using in_set_takeD[OF w] by auto
    then obtain r where "read_record ?j w = Inr r" "fc_symbol (sr_contract r) = canonical_symbol symbol"
      using ok by (auto simp: journal_ok_def list_all_iff row_ok_def)
    then show ?thesis
      using read_record_rests by (fastforce simp: same_instrument_def)
  qed
  from traverse_ok[OF this]
  have "\<exists>rs. records_for ?j symbol limit = Inr rs
      \<and> (\<forall>r\<in>set rs. same_instrument (fc_symbol (sr_contract r)) symbol \<and> record_is_authoritative r
            \<and> sr_known_at r \<noteq> None
            \<and> rests_on ?j r FACT_MULTIPLIER (vvalue (fc_multiplier (sr_contract r)))
            \<and> rests_on ?j r FACT_TICK_SIZE (vvalue (fc_tick_size (sr_contract r))))"
    by (simp add: records_for_def list_all_iff)
  moreover have "journal_extends (journal_after (is @ more_calls)) ?j"
    using journal_run_extends[OF ok, of more_calls] by (simp add: journal_after_def)
  ultimately show ?thesis
    using ok by (simp add: journal_ok_def)
qed


definition sample_claim :: "string \<Rightarrow> ContractFact \<Rightarrow> dec \<Rightarrow> FactSubmission" where
  "sample_claim i k x =
     \<lparr> fs_submission_id = i, fs_symbol = ''F_XU030'', fs_fact = k, fs_value = Some (DecimalValue x),
       fs_reference = ''notice 7'', fs_authority = EXCHANGE_OFFICIAL, fs_effective_from = Some (Aware 10 0),
       fs_submitted_by = ''a'', fs_submitted_at = Aware 20 0, fs_origin = MANUAL_ENTRY, fs_effective_until = None,
       fs_corrects = None \<rparr>"

definition sample_approval :: "string \<Rightarrow> ReviewDecision" where
  "sample_approval i =
     \<lparr> rd_submission_id = i, rd_reviewer = ''b'', rd_decided_at = Aware 30 0, rd_outcome = OUTCOME_APPROVED,
       rd_document_checked = True, rd_note = [] \<rparr>"

definition sample_calls :: "JournalInput list" where
  "sample_calls =
     [Submit (sample_claim ''m'' FACT_MULTIPLIER (DFin False 10 0)) (Aware 25 0),
      Submit (sample_claim ''t'' FACT_TICK_SIZE (DFin False 25 (-2))) (Aware 25 0),
      Publish ''r'' ''XU030'' ''index'' \<lparr> ev_multiplier = ''m'', ev_tick_size = ''t'', ev_expiry = None \<rparr> (Aware 26 0),
      Decide (sample_approval ''m'') (Aware 35 0) (Aware 35 0),
      Decide (sample_approval ''t'') (Aware 35 0) (Aware 35 0),
      Publish ''r'' ''XU030'' ''index'' \<lparr> ev_multiplier = ''m'', ev_tick_size = ''t'', ev_expiry = None \<rparr> (Aware 40 0)]"

theorem published_facts_rest_on_review_witness:
  "\<exists>r. records_for (journal_after sample_calls) ''F_XU030'' 5 = Inr [r]
    \<and> record_is_authoritative r \<and> rests_on (journal_after sample_calls) r FACT_MULTIPLIER (DFin False 10 0)"
proof -
  obtain rs where rs: "records_for (journal_after sample_calls) ''F_XU030'' 5 = Inr rs"
    "\<forall>r\<in>set rs. record_is_authoritative r
        \<and> rests_on (journal_after sample_calls) r FACT_MULTIPLIER (vvalue (fc_multiplier (sr_contract r)))"
    using published_facts_rest_on_review[of sample_calls "''F_XU030''" 5] by blast
  have "(case records_for (journal_after sample_calls) ''F_XU030'' 5 of
      Inr [r] \<Rightarrow> vvalue (fc_multiplier (sr_contract r)) = DFin False 10 0 | _ \<Rightarrow> False)"
    by code_simp
  then obtain r where "rs = [r]" "vvalue (fc_multiplier (sr_contract r)) = DFin False 10 0"
    using rs(1) by (auto split: list.splits)
  then show ?thesis using rs by auto
qed

end
