(* ===== verification/Spec2Isabelle.thy ===== *)
theory Spec2Isabelle
  imports Live_Properties Event_Buffer Paper_Props Replay_Session Performance_Props Shadow_Props Py_Float Backtest_Policy Ema_Crossover Backtest_Run Backtest_Walk Backtest_Props Market Structure_Swings Structure_Events Float_Builtins Structure_Zones Structure_Breakouts Technical Technical_Causal Float_Exact Structure_Regime Structure_Props Analysis_Model Analysis_Evidence Analysis_Contradictions Analysis_Fusion Analysis_Quality Analysis_Scenarios No_Trade Quality_Props No_Trade_Props Sourcing_Facts Sourcing_Review Sourcing_Journal Sourcing_Capability Sourcing_Observations Sourcing_Calendar Sourcing_Readers Sourcing_Props
begin

text \<open>
  Verification development of the VIOP AI Market Intelligence backend (\<open>src/backend/app\<close>): a research workspace
  for futures that validates market data, derives structure and indicators from it, analyses several timeframes,
  sizes risk, simulates trades, replays and backtests history, watches a live stream, and keeps a journal of
  verified contract facts.  The program never trades; what makes it correct is that it never claims more than its
  inputs support, never looks ahead, and keeps its records.

  \<^bold>\<open>How the theories follow the code.\<close>  A dataclass is a \<open>record\<close> whose fields carry a short prefix, an
  enum is a \<open>datatype\<close>, and the checks of \<open>\_\_post\_init\_\_\<close> are a function \<open>make\_...\<close>.  A function that
  may raise returns \<open>exn + 'a\<close> (\<open>Errors\<close>), sequenced by \<open>rbind\<close> (\<open>Prelude\<close>).  A \<open>Decimal\<close> is sign, coefficient
  and exponent with the rounding of its context (\<open>Py\_Decimal\<close>, \<open>Decimal\_Division\<close>), a float is a rational
  rounded to 53 bits (\<open>Py\_Float\<close>, \<open>Float\_Builtins\<close>, \<open>Float\_Exact\<close>), a \<open>datetime\<close> a \<open>moment\<close>: naive or aware,
  in microseconds.  Texts that are stored or compared are modelled (\<open>Py\_Text\<close>); sentences written for a reader
  are not.

  \<^bold>\<open>Shared vocabulary\<close> (\<open>domain/common\<close>): \<open>Common\<close> with timeframes, symbols, verified values and ratios.

  \<^bold>\<open>Live stream\<close> (\<open>domain/live\<close>, \<open>application/live/buffer.py\<close>): \<open>Live\_Validation\<close> (a raw event is refused
  with a code or becomes an observation), \<open>Live\_Book\<close> (one timeframe's candles, gaps, conflicts),
  \<open>Live\_State\<close> (a subscription: its books, connection and refusals), \<open>Live\_Alerts\<close>, \<open>Event\_Buffer\<close> (the bounded
  queue between a producer and a reader, as interleaved steps).  \<open>Live\_Book\_Inv\<close>, \<open>Live\_Book\_Props\<close>,
  \<open>Live\_State\_Props\<close> and \<open>Live\_Properties\<close>: gapless history behind COMPLETE, bounds, order, late fills, repeats,
  totality, availability, connection and continuity, terminal streams, alerts, validated history, delivery.

  \<^bold>\<open>Products and money\<close> (\<open>domain/instrument\<close>, \<open>domain/futures\<close>, \<open>domain/risk\<close>): \<open>Instrument\<close>, \<open>Futures\<close>,
  \<open>Sizing\<close>, \<open>Money\<close>; \<open>Sizing\_Props\<close> and \<open>Money\_Props\<close>: an allowed size is safe and maximal, unsafe requests are
  refused, results have the sign of the move, an allowed size passes the margin panel.

  \<^bold>\<open>Paper trading\<close> (\<open>domain/paper\<close>): \<open>Paper\_Model\<close> (specification, policy, events), \<open>Paper\_Engine\<close> and
  \<open>Paper\_Position\<close> (the position as a fold of inputs into a ledger), \<open>Paper\_Inv\<close>, \<open>Paper\_Props\<close>: accounted units,
  the abstract life of a position, fills from later bars only, rebuilding from a stored ledger, repeats.

  \<^bold>\<open>Replay, performance, shadow\<close> (\<open>domain/replay\<close>, \<open>domain/performance\<close>, \<open>domain/shadow\<close>): \<open>Replay\_Session\<close>
  (a cursor that reveals finished candles only), \<open>Performance\<close> with \<open>Performance\_Props\<close> (populations, order
  independence, streaks, drawdown, groups), \<open>Shadow\<close> with \<open>Shadow\_Props\<close> (forward and contiguous outcomes, final
  verdicts).

  \<^bold>\<open>Backtest\<close> (\<open>domain/backtest\<close>, \<open>application/backtest/service.py\<close>, \<open>application/strategy\<close>): \<open>Backtest\_Policy\<close>,
  \<open>Backtest\_Run\<close>, \<open>Ema\_Crossover\<close> and the walk over the boundaries \<open>Backtest\_Walk\<close>, which calls the sizing rule
  and the paper engine; \<open>Backtest\_Props\<close>: one position at a time, sizes within the budget, no look-ahead.  What an
  indicator reads is a parameter of the walk.

  \<^bold>\<open>Market data, structure, indicators\<close> (\<open>domain/market\<close>, \<open>domain/structure\<close>, \<open>domain/technical\<close>): \<open>Market\<close>
  (series and their quality), \<open>Structure\_Swings\<close>, \<open>Structure\_Events\<close>, \<open>Structure\_Zones\<close>, \<open>Structure\_Breakouts\<close>,
  \<open>Structure\_Regime\<close> (divergence, regime and the snapshot of them all), \<open>Technical\<close> and \<open>Technical\_Causal\<close>;
  \<open>Structure\_Props\<close>: a longer series never revises what a shorter one confirmed.

  \<^bold>\<open>Multi-timeframe analysis and the veto\<close> (\<open>domain/analysis\<close>, \<open>domain/suitability\<close>): \<open>Analysis\_Model\<close> (roles,
  views, evidence), \<open>Analysis\_Evidence\<close>, \<open>Analysis\_Contradictions\<close>, \<open>Analysis\_Fusion\<close>, \<open>Analysis\_Quality\<close>,
  \<open>Analysis\_Scenarios\<close>, \<open>No\_Trade\<close>; \<open>Quality\_Props\<close> (the score always exists and is well formed) and
  \<open>No\_Trade\_Props\<close> (a clean pass exactly when nothing blocks and nothing is missing).

  \<^bold>\<open>Sourcing\<close> (\<open>domain/sourcing\<close>, \<open>application/sourcing\<close>, the fact journal of \<open>adapters/persistence\<close>):
  \<open>Sourcing\_Facts\<close> (which record governs), \<open>Sourcing\_Review\<close> (the boundary a claim passes), \<open>Sourcing\_Journal\<close> (the
  append-only tables and the service), \<open>Sourcing\_Capability\<close>, \<open>Sourcing\_Observations\<close>, \<open>Sourcing\_Calendar\<close>,
  \<open>Sourcing\_Readers\<close>; \<open>Sourcing\_Props\<close>: the governing record, and that a published fact rests on a review.

  \<^bold>\<open>Interfaces.\<close>  \<open>fallible\_machine\<close> and \<open>total\_machine\<close> (\<open>Prelude\<close>) are the contract of a stateful
  component: a step that may raise, and the invariant it keeps; the book, the subscription, the paper position, the
  replay cursor and the fact journal are interpretations, and what holds after every run comes from the locale.
  \<open>candle\_book\<close> (\<open>Live\_State\_Props\<close>) is what a subscription asks of its books, \<open>money\_product\<close> (\<open>Instrument\<close>) what
  sizing and results ask of a product, given by the futures policy.  \<open>stamped\_walk\<close> is the contract of the walks
  over a series that log what a bar confirms, interpreted for the structural events and the zones; from it comes
  that a prefix of the series logs a prefix.

  \<^bold>\<open>Bounds and fuel.\<close>  No definition runs on fuel: loops are recursions over lists or carry a termination
  proof.  The scores are total for weights up to \<open>2 ^ 20\<close>, far above the 100 they must add up to, so that no float of
  theirs overflows.  The bound of the buffer, the books and the logs is any positive number, as in the code.

  \<^bold>\<open>Not modelled.\<close>  Overflow of a \<open>Decimal\<close> beyond an exponent of 999999, and characters beyond code point 255.
  The intermediate overflow of \<open>math.fsum\<close>.  The C library's \<open>pow\<close>, \<open>sqrt\<close> and \<open>log\<close>, and SHA-256, which are
  parameters or left out.  The services around the modelled runs and sessions but for what is named above (locks,
  tasks, clocks, storage), the HTTP routes and schemas, other SQL adapters, the reading of chart images and the
  narrative of a language model, whose answers come from outside; settings, start-up and the user interface.
\<close>

end
